(* ===== verification/Go_Prelude.thy ===== *)
theory Go_Prelude
  imports Main "HOL-Library.Word"
begin

text \<open>
  What every component of the repository takes from the Go language: machine integers as words,
  byte slices as lists of bytes, a call that may return an error or panic as a value of a sum
  type, and the truncating integer division. The list lemmas are the ones the codecs and the
  packet parsers share.
\<close>

unbundle bit_operations_syntax

section \<open>Machine integers and byte slices\<close>

type_synonym u8 = "8 word"
type_synonym u16 = "16 word"
type_synonym u32 = "32 word"
type_synonym u64 = "64 word"

text \<open>Signed integers are kept as words of their width; \<open>sint\<close> reads their value.\<close>

type_synonym i8 = "8 word"
type_synonym i16 = "16 word"
type_synonym i32 = "32 word"

text \<open>
  An \<open>int64\<close> used for arithmetic (durations, nanoseconds) is an \<^typ>\<open>int\<close> whose operations
  wrap with \<open>i64\<close>; one that is only carried in a packet is a \<^typ>\<open>u64\<close>.
\<close>

type_synonym bytes = "u8 list"

definition i64 :: "int \<Rightarrow> int" where
  "i64 x = signed_take_bit 63 x"

definition i64_min :: int where
  "i64_min = - (2 ^ 63)"

definition i64_max :: int where
  "i64_max = 2 ^ 63 - 1"

definition in_i64 :: "int \<Rightarrow> bool" where
  "in_i64 x \<longleftrightarrow> i64_min \<le> x \<and> x \<le> i64_max"

lemmas i64_defs = i64_def i64_min_def i64_max_def in_i64_def

lemma i64_id [simp]: "in_i64 x \<Longrightarrow> i64 x = x"
  by (simp add: i64_defs signed_take_bit_int_eq_self)

lemma in_i64_i64 [simp]: "in_i64 (i64 x)"
  using signed_take_bit_int_greater_eq_minus_exp [of 63 x] signed_take_bit_int_less_exp [of 63 x]
  by (simp add: i64_defs)

text \<open>Go's integer quotient truncates towards zero.\<close>

definition quot :: "int \<Rightarrow> int \<Rightarrow> int" where
  "quot a b = sgn a * sgn b * (\<bar>a\<bar> div \<bar>b\<bar>)"

lemma quot_nonneg [simp]: "0 \<le> a \<Longrightarrow> 0 < b \<Longrightarrow> quot a b = a div b"
  by (cases "a = 0") (simp_all add: quot_def)

lemma quot_neg: "a < 0 \<Longrightarrow> 0 < b \<Longrightarrow> quot a b = - ((- a) div b)"
  by (simp add: quot_def)

lemma mult_div_le: "0 < b \<Longrightarrow> b * (a div b) \<le> (a::int)"
  using mult_div_mod_eq [of b a] pos_mod_sign [of b a] by linarith

lemma less_mult_div: "0 < b \<Longrightarrow> (a::int) < b * (a div b) + b"
  using mult_div_mod_eq [of b a] pos_mod_bound [of b a] by linarith

lemma div_le_dividend_int: "0 \<le> a \<Longrightarrow> 0 < b \<Longrightarrow> a div b \<le> (a::int)"
  by (metis div_by_1 less_le_not_le linorder_not_less order_refl zdiv_mono2 zero_less_one int_one_le_iff_zero_less)

lemma quot_abs_le: "0 < b \<Longrightarrow> \<bar>quot a b\<bar> \<le> \<bar>a\<bar>"
  by (cases "a = 0") (simp_all add: quot_def abs_mult div_le_dividend_int pos_imp_zdiv_nonneg_iff)

section \<open>Calls that fail\<close>

text \<open>
  A Go error is the text of its \<open>fmt.Errorf\<close> or \<open>errors.New\<close> format; a run-time panic (index or
  slice bounds out of range, division by zero) is a value of its own, so that "never panics" is
  a statement about results.
\<close>

datatype goerr = GoError string | Panic

type_synonym 'a res = "goerr + 'a"

abbreviation Ok :: "'a \<Rightarrow> 'a res" where
  "Ok \<equiv> Inr"

abbreviation Err :: "string \<Rightarrow> 'a res" where
  "Err m \<equiv> Inl (GoError m)"

definition bind_res :: "'a res \<Rightarrow> ('a \<Rightarrow> 'b res) \<Rightarrow> 'b res" where
  "bind_res r f = (case r of Inl e \<Rightarrow> Inl e | Inr x \<Rightarrow> f x)"

lemma bind_res_simps [simp]:
  "bind_res (Inl e) f = Inl e"
  "bind_res (Inr x) f = f x"
  by (simp_all add: bind_res_def)

lemma bind_res_Ok_iff: "bind_res r f = Ok y \<longleftrightarrow> (\<exists>x. r = Ok x \<and> f x = Ok y)"
  by (cases r) simp_all

lemma bind_res_panic_iff: "bind_res r f = Inl Panic \<longleftrightarrow> r = Inl Panic \<or> (\<exists>x. r = Ok x \<and> f x = Inl Panic)"
  by (cases r) simp_all

lemma bind_res_assoc: "bind_res (bind_res r f) g = bind_res r (\<lambda>x. bind_res (f x) g)"
  by (cases r) simp_all

text \<open>The run-time bounds check of an indexing or slicing expression.\<close>

definition guard_res :: "bool \<Rightarrow> goerr \<Rightarrow> unit res" where
  "guard_res b e = (if b then Ok () else Inl e)"

definition index :: "'a list \<Rightarrow> nat \<Rightarrow> 'a res" where
  "index xs i = (if i < length xs then Ok (xs ! i) else Inl Panic)"

definition slice_from :: "'a list \<Rightarrow> nat \<Rightarrow> 'a list res" where
  "slice_from xs i = (if i \<le> length xs then Ok (drop i xs) else Inl Panic)"

definition slice :: "'a list \<Rightarrow> nat \<Rightarrow> nat \<Rightarrow> 'a list res" where
  "slice xs i j = (if i \<le> j \<and> j \<le> length xs then Ok (drop i (take j xs)) else Inl Panic)"

lemma index_Ok [simp]: "i < length xs \<Longrightarrow> index xs i = Ok (xs ! i)"
  by (simp add: index_def)

lemma slice_from_Ok [simp]: "i \<le> length xs \<Longrightarrow> slice_from xs i = Ok (drop i xs)"
  by (simp add: slice_from_def)

lemma slice_Ok [simp]: "i \<le> j \<Longrightarrow> j \<le> length xs \<Longrightarrow> slice xs i j = Ok (drop i (take j xs))"
  by (simp add: slice_def)

section \<open>Decimal numbers\<close>

text \<open>What \<open>%d\<close> and \<open>strconv.Itoa\<close> print.\<close>

fun show_nat :: "nat \<Rightarrow> string" where
  "show_nat n = (if n < 10 then [char_of (48 + n)] else show_nat (n div 10) @ [char_of (48 + n mod 10)])"

declare show_nat.simps [simp del]

definition show_int :: "int \<Rightarrow> string" where
  "show_int i = (if i < 0 then ''-'' @ show_nat (nat (- i)) else show_nat (nat i))"

section \<open>Shared list lemmas\<close>

lemma take_append_exact [simp]: "length xs = n \<Longrightarrow> take n (xs @ ys) = xs"
  by simp

lemma drop_append_exact [simp]: "length xs = n \<Longrightarrow> drop n (xs @ ys) = ys"
  by simp

lemma list_split_at: "n \<le> length xs \<Longrightarrow> \<exists>ys zs. xs = ys @ zs \<and> length ys = n"
  by (rule exI [of _ "take n xs"], rule exI [of _ "drop n xs"]) simp

lemma slice_middle: "slice (pre @ d @ r) (length pre) (length pre + length d) = Ok d"
  by (simp add: slice_def)

end
