(* ===== verification/Go_Codec.thy ===== *)
theory Go_Codec
  imports Go_Prelude
begin

text \<open>
  The part of Go's \<open>encoding/binary\<close> the repository uses: fixed-size values laid out field by
  field in a byte order. A \<open>codec\<close> carries the size of a type, the values the type admits (arrays
  of the right length), its encoder and its decoder; \<open>cpair\<close>, \<open>cmap\<close> and \<open>carray\<close> build the codec of
  a struct from those of its fields in declaration order, as the package's reflection does.
  \<open>wf_codec\<close> is the law every codec satisfies, and the locale \<open>fixed_codec\<close> proves from it what
  the clients of \<open>binary.Read\<close> and \<open>binary.Write\<close> rely on.
\<close>

section \<open>Byte orders\<close>

definition be_bytes :: "nat \<Rightarrow> nat \<Rightarrow> bytes" where
  "be_bytes k v = map (\<lambda>i. word_of_nat (v div 256 ^ i)) (rev [0..<k])"

definition be_val :: "bytes \<Rightarrow> nat" where
  "be_val bs = foldl (\<lambda>a b. a * 256 + unat b) 0 bs"

lemma length_be_bytes [simp]: "length (be_bytes k v) = k"
  by (simp add: be_bytes_def)

lemma be_bytes_0 [simp]: "be_bytes 0 v = []"
  by (simp add: be_bytes_def)

lemma be_bytes_Suc: "be_bytes (Suc k) v = word_of_nat (v div 256 ^ k) # be_bytes k v"
  by (simp add: be_bytes_def)

lemma be_val_Nil [simp]: "be_val [] = 0"
  by (simp add: be_val_def)

lemma foldl_be: "foldl (\<lambda>a (b::u8). a * 256 + unat b) c bs = c * 256 ^ length bs + be_val bs"
proof (induction bs arbitrary: c)
  case Nil
  then show ?case by simp
next
  case (Cons b bs)
  from Cons [of "c * 256 + unat b"] Cons [of "unat b"] show ?case
    by (simp add: be_val_def algebra_simps)
qed

lemma be_val_Cons: "be_val (b # bs) = unat b * 256 ^ length bs + be_val bs"
  using foldl_be [of "unat b" bs] by (simp add: be_val_def)

lemma be_val_less: "be_val bs < 256 ^ length bs"
proof (induction bs)
  case Nil
  then show ?case by simp
next
  case (Cons b bs)
  have "unat b < 256"
    using unsigned_less [of b] by (rule order_less_le_trans) simp
  then have "unat b \<le> 255" by simp
  then have "unat b * 256 ^ length bs \<le> 255 * 256 ^ length bs"
    by (rule mult_le_mono1)
  with Cons have "unat b * 256 ^ length bs + be_val bs < 255 * 256 ^ length bs + 256 ^ length bs"
    by (rule add_le_less_mono [rotated])
  then show ?case by (simp add: be_val_Cons)
qed

lemma unat_byte_of_nat: "unat (word_of_nat n :: u8) = n mod 256"
  by (simp add: unat_of_nat)

lemma be_val_be_bytes: "be_val (be_bytes k v) = v mod 256 ^ k"
proof (induction k)
  case 0
  then show ?case by simp
next
  case (Suc k)
  have "v mod (256 ^ k * 256) = 256 ^ k * (v div 256 ^ k mod 256) + v mod 256 ^ k"
    by (rule mod_mult2_eq)
  with Suc show ?case
    by (simp add: be_bytes_Suc be_val_Cons unat_byte_of_nat ac_simps)
qed

lemma byte_of_nat_eqI: "m mod 256 = n mod 256 \<Longrightarrow> (word_of_nat m :: u8) = word_of_nat n"
  by (simp add: word_of_nat_eq_iff take_bit_eq_mod)

lemma be_bytes_mod: "be_bytes k (x * 256 ^ k + y) = be_bytes k y"
proof -
  have "(x * 256 ^ k + y) div 256 ^ i mod 256 = y div 256 ^ i mod 256" if "i < k" for i
  proof -
    from that obtain d where k: "k = Suc (i + d)"
      using less_imp_Suc_add by blast
    have "x * 256 ^ k + y = y + (x * 256 ^ Suc d) * 256 ^ i"
      by (simp add: k power_add)
    then have "(x * 256 ^ k + y) div 256 ^ i = x * 256 ^ Suc d + y div 256 ^ i"
      by (simp only: div_mult_self1 [of "256 ^ i"] power_not_zero) simp
    moreover have "(x * 256 ^ Suc d + y div 256 ^ i) mod 256 = y div 256 ^ i mod 256"
      by (simp add: mod_add_left_eq [symmetric])
    ultimately show ?thesis by (simp only:)
  qed
  then show ?thesis
    by (auto simp: be_bytes_def intro!: byte_of_nat_eqI)
qed

lemma be_bytes_be_val: "be_bytes (length bs) (be_val bs) = bs"
proof (induction bs)
  case Nil
  then show ?case by simp
next
  case (Cons b bs)
  have "be_val (b # bs) div 256 ^ length bs = unat b"
    using be_val_less [of bs] by (simp add: be_val_Cons)
  then show ?case
    using Cons by (simp add: be_bytes_Suc) (simp add: be_val_Cons be_bytes_mod)
qed

section \<open>Codecs\<close>

record 'a codec =
  csize :: nat
  cok :: "'a \<Rightarrow> bool"
  cenc :: "'a \<Rightarrow> bytes"
  cdec :: "bytes \<Rightarrow> 'a"

definition wf_codec :: "'a codec \<Rightarrow> bool" where
  "wf_codec c \<longleftrightarrow>
     (\<forall>x. cok c x \<longrightarrow> length (cenc c x) = csize c \<and> cdec c (cenc c x) = x) \<and>
     (\<forall>bs. length bs = csize c \<longrightarrow> cok c (cdec c bs) \<and> cenc c (cdec c bs) = bs)"

named_theorems codec_defs \<open>the codecs of the repository's structs\<close>
named_theorems wf_codecs \<open>well-formedness of the codecs\<close>

text \<open>Unsigned and signed integers of \<open>k\<close> bytes, in either byte order.\<close>

definition cbe :: "nat \<Rightarrow> 'a::len word codec" where
  "cbe k = \<lparr>csize = k, cok = (\<lambda>_. True), cenc = (\<lambda>w. be_bytes k (unat w)),
     cdec = (\<lambda>bs. word_of_nat (be_val bs))\<rparr>"

definition cle :: "nat \<Rightarrow> 'a::len word codec" where
  "cle k = \<lparr>csize = k, cok = (\<lambda>_. True), cenc = (\<lambda>w. rev (be_bytes k (unat w))),
     cdec = (\<lambda>bs. word_of_nat (be_val (rev bs)))\<rparr>"

definition cu8 :: "u8 codec" where
  "cu8 = \<lparr>csize = 1, cok = (\<lambda>_. True), cenc = (\<lambda>w. [w]), cdec = (\<lambda>bs. if bs = [] then 0 else hd bs)\<rparr>"

definition cu16 :: "u16 codec" where "cu16 = cbe 2"
definition cu32 :: "u32 codec" where "cu32 = cbe 4"
definition cu64 :: "u64 codec" where "cu64 = cbe 8"

definition cpair :: "'a codec \<Rightarrow> 'b codec \<Rightarrow> ('a \<times> 'b) codec" where
  "cpair c d = \<lparr>csize = csize c + csize d, cok = (\<lambda>(x, y). cok c x \<and> cok d y),
     cenc = (\<lambda>(x, y). cenc c x @ cenc d y),
     cdec = (\<lambda>bs. (cdec c (take (csize c) bs), cdec d (drop (csize c) bs)))\<rparr>"

definition cmap :: "('a \<Rightarrow> 'b) \<Rightarrow> ('b \<Rightarrow> 'a) \<Rightarrow> 'a codec \<Rightarrow> 'b codec" where
  "cmap f g c = \<lparr>csize = csize c, cok = (\<lambda>y. cok c (g y)), cenc = (\<lambda>y. cenc c (g y)),
     cdec = (\<lambda>bs. f (cdec c bs))\<rparr>"

fun dec_list :: "'a codec \<Rightarrow> nat \<Rightarrow> bytes \<Rightarrow> 'a list" where
  "dec_list c 0 bs = []"
| "dec_list c (Suc n) bs = cdec c (take (csize c) bs) # dec_list c n (drop (csize c) bs)"

definition carray :: "nat \<Rightarrow> 'a codec \<Rightarrow> 'a list codec" where
  "carray n c = \<lparr>csize = n * csize c, cok = (\<lambda>xs. length xs = n \<and> list_all (cok c) xs),
     cenc = (\<lambda>xs. concat (map (cenc c) xs)), cdec = dec_list c n\<rparr>"

lemma cbe_simps [simp]:
  "csize (cbe k) = k" "cok (cbe k) w" "cenc (cbe k) w = be_bytes k (unat w)"
  "cdec (cbe k) bs = word_of_nat (be_val bs)"
  by (simp_all add: cbe_def)

lemma cle_simps [simp]:
  "csize (cle k) = k" "cok (cle k) w" "cenc (cle k) w = rev (be_bytes k (unat w))"
  "cdec (cle k) bs = word_of_nat (be_val (rev bs))"
  by (simp_all add: cle_def)

lemma cu8_simps [simp]:
  "csize cu8 = 1" "cok cu8 w" "cenc cu8 w = [w]" "cdec cu8 bs = (if bs = [] then 0 else hd bs)"
  by (simp_all add: cu8_def)

lemma csize_cu [simp]: "csize cu16 = 2" "csize cu32 = 4" "csize cu64 = 8"
  by (simp_all add: cu16_def cu32_def cu64_def)

lemma cok_cu [simp]: "cok cu16 a" "cok cu32 b" "cok cu64 c"
  by (simp_all add: cu16_def cu32_def cu64_def)

lemma cpair_simps [simp]:
  "csize (cpair c d) = csize c + csize d"
  "cok (cpair c d) (x, y) = (cok c x \<and> cok d y)"
  "cenc (cpair c d) (x, y) = cenc c x @ cenc d y"
  "cdec (cpair c d) bs = (cdec c (take (csize c) bs), cdec d (drop (csize c) bs))"
  by (simp_all add: cpair_def)

lemma cmap_simps [simp]:
  "csize (cmap f g c) = csize c"
  "cok (cmap f g c) y = cok c (g y)"
  "cenc (cmap f g c) y = cenc c (g y)"
  "cdec (cmap f g c) bs = f (cdec c bs)"
  by (simp_all add: cmap_def)

lemma carray_simps [simp]:
  "csize (carray n c) = n * csize c"
  "cok (carray n c) xs = (length xs = n \<and> list_all (cok c) xs)"
  "cenc (carray n c) xs = concat (map (cenc c) xs)"
  "cdec (carray n c) bs = dec_list c n bs"
  by (simp_all add: carray_def)

section \<open>Every combinator keeps the codec law\<close>

lemma wf_codecI:
  assumes "\<And>x. cok c x \<Longrightarrow> length (cenc c x) = csize c"
    and "\<And>x. cok c x \<Longrightarrow> cdec c (cenc c x) = x"
    and "\<And>bs. length bs = csize c \<Longrightarrow> cok c (cdec c bs)"
    and "\<And>bs. length bs = csize c \<Longrightarrow> cenc c (cdec c bs) = bs"
  shows "wf_codec c"
  using assms by (simp add: wf_codec_def)

lemma wf_codecD:
  assumes "wf_codec c"
  shows "cok c x \<Longrightarrow> length (cenc c x) = csize c"
    and "cok c x \<Longrightarrow> cdec c (cenc c x) = x"
    and "length bs = csize c \<Longrightarrow> cok c (cdec c bs)"
    and "length bs = csize c \<Longrightarrow> cenc c (cdec c bs) = bs"
  using assms by (simp_all add: wf_codec_def)

lemma word_of_nat_be_val:
  assumes "LENGTH('a::len) = 8 * k"
  shows "word_of_nat (be_val (be_bytes k (unat w))) = (w :: 'a word)"
proof -
  have "(256::nat) ^ k = 2 ^ LENGTH('a)"
    using assms by (simp add: power_mult)
  then have "unat w mod 256 ^ k = unat w"
    using unsigned_less [of w] by simp
  then show ?thesis by (simp add: be_val_be_bytes)
qed

lemma unat_be_val:
  assumes "LENGTH('a::len) = 8 * k" and "length bs = k"
  shows "unat (word_of_nat (be_val bs) :: 'a word) = be_val bs"
proof -
  have "(256::nat) ^ k = 2 ^ LENGTH('a)"
    using assms by (simp add: power_mult)
  then show ?thesis
    using be_val_less [of bs] assms(2) by (simp add: unat_of_nat)
qed

lemma wf_cbe: "LENGTH('a::len) = 8 * k \<Longrightarrow> wf_codec (cbe k :: 'a word codec)"
  by (rule wf_codecI) (auto simp: word_of_nat_be_val unat_be_val be_bytes_be_val)

lemma rev_be_bytes_be_val: "length bs = k \<Longrightarrow> rev (be_bytes k (be_val (rev bs))) = bs"
  using be_bytes_be_val [of "rev bs"] by (simp add: rev_swap)

lemma wf_cle: "LENGTH('a::len) = 8 * k \<Longrightarrow> wf_codec (cle k :: 'a word codec)"
  by (rule wf_codecI) (auto simp: word_of_nat_be_val unat_be_val rev_be_bytes_be_val)

lemma wf_cu8 [wf_codecs]: "wf_codec cu8"
  by (rule wf_codecI) (auto simp: length_Suc_conv)

lemma wf_cu [wf_codecs]: "wf_codec cu16" "wf_codec cu32" "wf_codec cu64"
  by (simp_all add: cu16_def cu32_def cu64_def wf_cbe)

lemma wf_cpair [wf_codecs]:
  assumes "wf_codec c" and "wf_codec d"
  shows "wf_codec (cpair c d)"
  by (rule wf_codecI) (auto simp: wf_codecD [OF assms(1)] wf_codecD [OF assms(2)])

lemma wf_cmap:
  assumes "wf_codec c" and "\<And>y. f (g y) = y" and "\<And>x. g (f x) = x"
  shows "wf_codec (cmap f g c)"
  by (rule wf_codecI) (auto simp: assms wf_codecD [OF assms(1)])

lemma dec_list_concat:
  assumes "wf_codec c"
  shows "list_all (cok c) xs \<Longrightarrow> dec_list c (length xs) (concat (map (cenc c) xs)) = xs"
  by (induction xs) (auto simp: wf_codecD [OF assms])

lemma length_concat_cenc:
  assumes "wf_codec c"
  shows "list_all (cok c) xs \<Longrightarrow> length (concat (map (cenc c) xs)) = length xs * csize c"
  by (induction xs) (auto simp: wf_codecD [OF assms])

lemma length_dec_list [simp]: "length (dec_list c n bs) = n"
  by (induction n arbitrary: bs) auto

lemma dec_list_ok:
  assumes "wf_codec c"
  shows "length bs = n * csize c \<Longrightarrow>
    list_all (cok c) (dec_list c n bs) \<and> concat (map (cenc c) (dec_list c n bs)) = bs"
  by (induction n arbitrary: bs) (auto simp: wf_codecD [OF assms])

lemma wf_carray [wf_codecs]: "wf_codec c \<Longrightarrow> wf_codec (carray n c)"
  by (rule wf_codecI) (auto simp: dec_list_concat length_concat_cenc dec_list_ok)

section \<open>binary.Read and binary.Write\<close>

text \<open>
  \<open>binary.Read\<close> reads the size of the value from the reader with \<open>io.ReadFull\<close> and decodes it: no
  byte left is \<open>io.EOF\<close>, too few are \<open>io.ErrUnexpectedEOF\<close>. A reader is the list of the bytes it
  still holds.
\<close>

definition io_EOF :: string where "io_EOF = ''EOF''"
definition io_ErrUnexpectedEOF :: string where "io_ErrUnexpectedEOF = ''unexpected EOF''"

definition read_full :: "nat \<Rightarrow> bytes \<Rightarrow> (bytes \<times> bytes) res" where
  "read_full n r =
     (if n \<le> length r then Ok (take n r, drop n r)
      else if r = [] then Err io_EOF else Err io_ErrUnexpectedEOF)"

definition binary_Read :: "'a codec \<Rightarrow> bytes \<Rightarrow> ('a \<times> bytes) res" where
  "binary_Read c r = bind_res (read_full (csize c) r) (\<lambda>(bs, r'). Ok (cdec c bs, r'))"

definition binary_Write :: "'a codec \<Rightarrow> 'a \<Rightarrow> bytes" where
  "binary_Write c x = cenc c x"

lemma binary_Read_Ok: "csize c \<le> length r \<Longrightarrow>
    binary_Read c r = Ok (cdec c (take (csize c) r), drop (csize c) r)"
  by (simp add: binary_Read_def read_full_def)

lemma binary_Read_short: "length r < csize c \<Longrightarrow>
    binary_Read c r = Err (if r = [] then io_EOF else io_ErrUnexpectedEOF)"
  by (simp add: binary_Read_def read_full_def)

lemma binary_Read_OkD: "binary_Read c r = Ok (x, r') \<Longrightarrow>
    csize c \<le> length r \<and> x = cdec c (take (csize c) r) \<and> r' = drop (csize c) r"
  by (auto simp: binary_Read_def read_full_def split: if_splits)

text \<open>
  The interface the packet code relies on: what \<open>binary.Write\<close> produced, \<open>binary.Read\<close> gives back,
  with the rest of the reader left alone, and what \<open>binary.Read\<close> accepted is written back as the
  bytes it came from.
\<close>

locale fixed_codec =
  fixes C :: "'a codec"
  assumes wf: "wf_codec C"
begin

lemma length_write: "cok C x \<Longrightarrow> length (binary_Write C x) = csize C"
  by (simp add: binary_Write_def wf_codecD [OF wf])

lemma read_write: "cok C x \<Longrightarrow> binary_Read C (binary_Write C x @ r) = Ok (x, r)"
  by (simp add: binary_Read_Ok binary_Write_def wf_codecD [OF wf])

lemma write_read: "binary_Read C r = Ok (x, r') \<Longrightarrow> cok C x \<and> binary_Write C x @ r' = r"
  by (auto dest!: binary_Read_OkD simp: binary_Write_def wf_codecD [OF wf])

lemma write_inj: "cok C x \<Longrightarrow> cok C y \<Longrightarrow> binary_Write C x = binary_Write C y \<Longrightarrow> x = y"
  by (metis binary_Write_def wf_codecD(2) [OF wf])

lemma read_total: "csize C \<le> length r \<Longrightarrow> \<exists>x r'. binary_Read C r = Ok (x, r') \<and> cok C x"
  by (simp add: binary_Read_Ok wf_codecD [OF wf])

end

interpretation byte_codec: fixed_codec cu8
  by unfold_locales (rule wf_cu8)

interpretation short_codec: fixed_codec cu16
  by unfold_locales (rule wf_cu)

section \<open>Reading and writing integers in place\<close>

text \<open>
  The hand-written marshallers index byte slices: \<open>binary.BigEndian.Uint16(b[i:])\<close> and
  \<open>binary.BigEndian.PutUint16(b[i:], v)\<close> panic when the slice is too short. \<open>get_at\<close> and \<open>poke\<close> are
  these accesses; \<open>pokes\<close> is a sequence of them.
\<close>

definition get_at :: "'a codec \<Rightarrow> bytes \<Rightarrow> nat \<Rightarrow> 'a res" where
  "get_at c b i = (if i + csize c \<le> length b then Ok (cdec c (take (csize c) (drop i b))) else Inl Panic)"

definition poke :: "nat \<Rightarrow> bytes \<Rightarrow> bytes \<Rightarrow> bytes res" where
  "poke i bs b = (if i + length bs \<le> length b then Ok (take i b @ bs @ drop (i + length bs) b) else Inl Panic)"

fun pokes :: "(nat \<times> bytes) list \<Rightarrow> bytes \<Rightarrow> bytes res" where
  "pokes [] b = Ok b"
| "pokes ((i, bs) # ws) b = bind_res (poke i bs b) (pokes ws)"

fun contiguous :: "nat \<Rightarrow> (nat \<times> bytes) list \<Rightarrow> bool" where
  "contiguous n [] = True"
| "contiguous n ((i, bs) # ws) = (i = n \<and> contiguous (n + length bs) ws)"

lemma get_at_Ok [simp]: "i + csize c \<le> length b \<Longrightarrow> get_at c b i = Ok (cdec c (take (csize c) (drop i b)))"
  by (simp add: get_at_def)

lemma get_at_append: "length pre = i \<Longrightarrow> get_at c (pre @ b) i = get_at c b 0"
  by (auto simp: get_at_def)

lemma poke_append: "length pre = i \<Longrightarrow> length bs \<le> length b \<Longrightarrow>
    poke i bs (pre @ b) = Ok (pre @ bs @ drop (length bs) b)"
  by (simp add: poke_def)

lemma pokes_contiguous_from:
  "contiguous (length pre) ws \<Longrightarrow> length (concat (map snd ws)) \<le> length b \<Longrightarrow>
   pokes ws (pre @ b) = Ok (pre @ concat (map snd ws) @ drop (length (concat (map snd ws))) b)"
proof (induction ws arbitrary: pre b)
  case Nil
  then show ?case by simp
next
  case (Cons w ws)
  obtain i bs where w: "w = (i, bs)" by (cases w)
  from Cons.prems w have "poke i bs (pre @ b) = Ok ((pre @ bs) @ drop (length bs) b)"
    by (simp add: poke_append)
  moreover have "pokes ws ((pre @ bs) @ drop (length bs) b) =
      Ok ((pre @ bs) @ concat (map snd ws) @ drop (length (concat (map snd ws))) (drop (length bs) b))"
    by (rule Cons.IH) (use Cons.prems w in auto)
  ultimately show ?case using w by (simp add: ac_simps)
qed

lemma pokes_contiguous:
  "contiguous 0 ws \<Longrightarrow> length (concat (map snd ws)) \<le> length b \<Longrightarrow>
   pokes ws b = Ok (concat (map snd ws) @ drop (length (concat (map snd ws))) b)"
  using pokes_contiguous_from [of "[]" ws b] by simp

lemma pokes_append: "pokes (us @ ws) b = bind_res (pokes us b) (pokes ws)"
proof (induction us arbitrary: b)
  case Nil
  then show ?case by simp
next
  case (Cons u us)
  then show ?case
    by (cases u; cases "poke (fst u) (snd u) b") auto
qed

end
