(* ===== verification/Go_Time.thy ===== *)
theory Go_Time
  imports Complex_Main "HOL-Library.Log_Nat" Go_Prelude
begin

text \<open>
  The parts of Go's \<open>time\<close> package and of its \<open>float64\<close> arithmetic the repository uses. An instant is
  the number of nanoseconds since the Unix epoch, a duration an \<open>int64\<close> number of nanoseconds. A
  finite \<open>float64\<close> is the rational it denotes; the conversions from and to integers round and
  truncate as the language says, and a conversion Go leaves to the platform (the value does not
  fit) is the parameter \<open>cvt\<close>.
\<close>

section \<open>Instants and durations\<close>

type_synonym gotime = int
type_synonym duration = int

definition second :: int where
  "second = 1000000000"

lemma second_pos [simp]: "0 < second" "0 \<le> second" "second \<noteq> 0" "\<not> second < 0"
  by (simp_all add: second_def)

definition time_Unix :: "int \<Rightarrow> int \<Rightarrow> gotime" where
  "time_Unix s n = i64 (s + n div second) * second + n mod second"

definition t_Unix :: "gotime \<Rightarrow> int" where
  "t_Unix t = t div second"

definition t_Nanosecond :: "gotime \<Rightarrow> int" where
  "t_Nanosecond t = t mod second"

definition t_UnixNano :: "gotime \<Rightarrow> int" where
  "t_UnixNano t = i64 t"

definition t_Add :: "gotime \<Rightarrow> duration \<Rightarrow> gotime" where
  "t_Add t d = time_Unix (t_Unix t) (t_Nanosecond t + d)"

definition t_Sub :: "gotime \<Rightarrow> gotime \<Rightarrow> duration" where
  "t_Sub t u = max i64_min (min i64_max (t - u))"

definition t_After :: "gotime \<Rightarrow> gotime \<Rightarrow> bool" where
  "t_After t u \<longleftrightarrow> u < t"

text \<open>The zero \<open>time.Time\<close> is midnight of the first of January of the year 1.\<close>

definition zero_time :: gotime where
  "zero_time = - 62135596800 * second"

definition t_IsZero :: "gotime \<Rightarrow> bool" where
  "t_IsZero t \<longleftrightarrow> t = zero_time"

lemma time_Unix_exact: "in_i64 (s + n div second) \<Longrightarrow> time_Unix s n = s * second + n"
  by (simp add: time_Unix_def algebra_simps)

lemma t_Unix_time_Unix: "in_i64 s \<Longrightarrow> 0 \<le> n \<Longrightarrow> n < second \<Longrightarrow> t_Unix (time_Unix s n) = s"
  by (simp add: time_Unix_exact t_Unix_def)

lemma t_Nanosecond_time_Unix: "t_Nanosecond (time_Unix s n) = n mod second"
  by (simp add: time_Unix_def t_Nanosecond_def)

lemma t_Nanosecond_bounds [simp]: "0 \<le> t_Nanosecond t" "t_Nanosecond t < second"
  by (simp_all add: t_Nanosecond_def)

lemma t_decompose: "t_Unix t * second + t_Nanosecond t = t"
  by (simp add: t_Unix_def t_Nanosecond_def)

lemma t_Add_exact: "in_i64 ((t + d) div second) \<Longrightarrow> t_Add t d = t + d"
proof -
  assume a: "in_i64 ((t + d) div second)"
  have "t + d = t_Nanosecond t + d + t_Unix t * second"
    using t_decompose [of t] by simp
  then have "(t + d) div second = t_Unix t + (t_Nanosecond t + d) div second"
    by (simp only: div_mult_self1 [of second] second_pos(3) not_False_eq_True)
  with a show ?thesis
    using t_decompose [of t] by (simp add: t_Add_def time_Unix_exact)
qed

lemma t_Sub_exact: "in_i64 (t - u) \<Longrightarrow> t_Sub t u = t - u"
  by (simp add: t_Sub_def in_i64_def)

lemma in_i64_t_Sub [simp]: "in_i64 (t_Sub t u)"
  by (simp add: t_Sub_def in_i64_def i64_min_def i64_max_def)

text \<open>\<open>Duration.Round\<close>: to the nearest multiple, half away from zero, saturating.\<close>

definition dur_Round :: "duration \<Rightarrow> duration \<Rightarrow> duration" where
  "dur_Round d m =
     (if m \<le> 0 then d
      else let r = \<bar>d\<bar> mod m in
        if d < 0 then
          (if r + r < m then d + r
           else if i64 (i64 (d - m) + r) < d then i64 (i64 (d - m) + r) else i64_min)
        else
          (if r + r < m then d - r
           else if d < i64 (i64 (d + m) - r) then i64 (i64 (d + m) - r) else i64_max))"

text \<open>
  \<open>Duration.Seconds()\<close> converted to an integer. The \<open>float64\<close> sum of whole and fractional seconds
  is truncated; below \<open>2^22\<close> seconds (48 days), where every sum of whole seconds and nanoseconds
  keeps its integral part under rounding, this is the truncating quotient.
\<close>

definition dur_Seconds_int :: "duration \<Rightarrow> int" where
  "dur_Seconds_int d = quot d second"

section \<open>float64\<close>

type_synonym f64 = rat

datatype f64_unrep = PosOverflow | NegOverflow | NaN

type_synonym f64_cvt = "f64_unrep \<Rightarrow> int"

text \<open>The platform value of amd64: every unrepresentable conversion gives the least \<open>int64\<close>.\<close>

definition cvt_amd64 :: f64_cvt where
  "cvt_amd64 u = i64_min"

text \<open>The nearest 53-bit integer, ties to even.\<close>

definition f64_round_nat :: "nat \<Rightarrow> nat" where
  "f64_round_nat n =
     (if n < 2 ^ 53 then n
      else let e = floorlog 2 n - 53; q = n div 2 ^ e; r = n mod 2 ^ e; h = 2 ^ (e - 1) in
        (if h < r \<or> r = h \<and> odd q then q + 1 else q) * 2 ^ e)"

definition f64_of_int :: "int \<Rightarrow> f64" where
  "f64_of_int n = of_int (sgn n * int (f64_round_nat (nat \<bar>n\<bar>)))"

lemma f64_of_int_exact: "\<bar>n\<bar> < 2 ^ 53 \<Longrightarrow> f64_of_int n = of_int n"
  by (simp add: f64_of_int_def f64_round_nat_def nat_less_iff sgn_if)

definition rat_trunc :: "rat \<Rightarrow> int" where
  "rat_trunc q = (if 0 \<le> q then \<lfloor>q\<rfloor> else \<lceil>q\<rceil>)"

definition f64_to_i64 :: "f64_cvt \<Rightarrow> f64 \<Rightarrow> int" where
  "f64_to_i64 cvt q =
     (if in_i64 (rat_trunc q) then rat_trunc q else cvt (if 0 < q then PosOverflow else NegOverflow))"

lemma rat_trunc_of_int [simp]: "rat_trunc (of_int n) = n"
  by (simp add: rat_trunc_def)

lemma f64_to_i64_of_int: "in_i64 n \<Longrightarrow> f64_to_i64 cvt (of_int n) = n"
  by (simp add: f64_to_i64_def)

definition f64_pow2 :: "int \<Rightarrow> f64" where
  "f64_pow2 k = (if 0 \<le> k then 2 ^ nat k else 1 / 2 ^ nat (- k))"

end
