(* ===== verification/Go_Strings.thy ===== *)
theory Go_Strings
  imports Go_Prelude
begin

text \<open>
  The functions of Go's \<open>strings\<close> package and the formats of \<open>fmt\<close> the repository uses, on text of
  one-byte characters: a character is a byte.
\<close>

definition str_bytes :: "string \<Rightarrow> bytes" where
  "str_bytes s = map (\<lambda>c. word_of_nat (of_char c)) s"

definition bytes_str :: "bytes \<Rightarrow> string" where
  "bytes_str bs = map (\<lambda>b. char_of (unat b)) bs"

lemma length_str_bytes [simp]: "length (str_bytes s) = length s" "length (bytes_str bs) = length bs"
  by (simp_all add: str_bytes_def bytes_str_def)

lemma bytes_str_str_bytes [simp]: "bytes_str (str_bytes s) = s"
proof -
  have "char_of (unat (word_of_nat (of_char c) :: u8)) = c" for c :: char
    by (simp add: unsigned_of_nat take_bit_nat_eq_self)
  then show ?thesis by (simp add: str_bytes_def bytes_str_def map_idI)
qed

fun strings_Split :: "char \<Rightarrow> string \<Rightarrow> string list" where
  "strings_Split sep [] = [[]]"
| "strings_Split sep (c # cs) =
     (if c = sep then [] # strings_Split sep cs
      else case strings_Split sep cs of [] \<Rightarrow> [[c]] | l # ls \<Rightarrow> (c # l) # ls)"

fun strings_Join :: "string \<Rightarrow> string list \<Rightarrow> string" where
  "strings_Join sep [] = []"
| "strings_Join sep [x] = x"
| "strings_Join sep (x # y # ys) = x @ sep @ strings_Join sep (y # ys)"

lemma strings_Split_nonempty [simp]: "strings_Split sep s \<noteq> []"
  by (cases s) (auto split: list.splits)

lemma strings_Split_single: "sep \<notin> set s \<Longrightarrow> strings_Split sep s = [s]"
  by (induction s) auto

lemma strings_Split_append: "sep \<notin> set s \<Longrightarrow> strings_Split sep (s @ sep # t) = s # strings_Split sep t"
  by (induction s) auto

lemma strings_Split_Join:
  assumes "xs \<noteq> []" and "\<And>x. x \<in> set xs \<Longrightarrow> sep \<notin> set x"
  shows "strings_Split sep (strings_Join [sep] xs) = xs"
  using assms by (induction "[sep]" xs rule: strings_Join.induct) (auto simp: strings_Split_single strings_Split_append)

fun strings_Index :: "char \<Rightarrow> string \<Rightarrow> nat option" where
  "strings_Index x [] = None"
| "strings_Index x (c # cs) = (if c = x then Some 0 else map_option Suc (strings_Index x cs))"

lemma strings_Index_takeWhile:
  "strings_Index x s = (if x \<in> set s then Some (length (takeWhile (\<lambda>c. c \<noteq> x) s)) else None)"
  by (induction s) auto

definition HasPrefix :: "string \<Rightarrow> string \<Rightarrow> bool" where
  "HasPrefix s prefix \<longleftrightarrow> take (length prefix) s = prefix"

text \<open>\<open>Trim\<close> with a predicate for the cutset, and the space characters of \<open>TrimSpace\<close>.\<close>

definition trim_with :: "(char \<Rightarrow> bool) \<Rightarrow> string \<Rightarrow> string" where
  "trim_with P s = rev (dropWhile P (rev (dropWhile P s)))"

definition is_space :: "char \<Rightarrow> bool" where
  "is_space c \<longleftrightarrow> c \<in> {CHR 0x09, CHR 0x0A, CHR 0x0B, CHR 0x0C, CHR 0x0D, CHR '' ''}"

definition TrimSpace :: "string \<Rightarrow> string" where
  "TrimSpace s = trim_with is_space s"

definition no_ends :: "(char \<Rightarrow> bool) \<Rightarrow> string \<Rightarrow> bool" where
  "no_ends P s \<longleftrightarrow> s = [] \<or> \<not> P (hd s) \<and> \<not> P (last s)"

lemma trim_with_id: "no_ends P s \<Longrightarrow> trim_with P s = s"
proof -
  assume a: "no_ends P s"
  then have "dropWhile P s = s" by (cases s) (auto simp: no_ends_def)
  moreover have "dropWhile P (rev s) = rev s" using a by (cases s rule: rev_cases) (auto simp: no_ends_def)
  ultimately show ?thesis by (simp add: trim_with_def)
qed

lemma trim_with_wrap: "P c \<Longrightarrow> no_ends P s \<Longrightarrow> trim_with P (c # s @ [c]) = s"
proof -
  assume c: "P c" and a: "no_ends P s"
  show ?thesis
  proof (cases "s = []")
    case True
    with c show ?thesis by (simp add: trim_with_def)
  next
    case False
    then have "dropWhile P (c # s @ [c]) = s @ [c]" using c a by (cases s) (auto simp: no_ends_def)
    moreover have "dropWhile P (rev (s @ [c])) = rev s"
      using c a False by (cases s rule: rev_cases) (auto simp: no_ends_def)
    ultimately show ?thesis by (simp add: trim_with_def)
  qed
qed

text \<open>\<open>%x\<close> of bytes.\<close>

definition hex_lower :: "nat \<Rightarrow> char" where
  "hex_lower n = char_of (if n < 10 then 48 + n else 87 + n)"

definition show_hex :: "bytes \<Rightarrow> string" where
  "show_hex bs = concat (map (\<lambda>b. [hex_lower (unat b div 16), hex_lower (unat b mod 16)]) bs)"

lemma length_show_hex: "length (show_hex bs) = 2 * length bs"
  by (induction bs) (simp_all add: show_hex_def)

section \<open>Reading numbers\<close>

text \<open>
  \<open>strconv.Atoi\<close>: the number a text denotes, if any; the value it returns, with or without an error, is the nearest
  \<open>int\<close>, or 0 for a syntax error.
\<close>

definition is_digit :: "char \<Rightarrow> bool" where
  "is_digit c \<longleftrightarrow> 48 \<le> (of_char c :: nat) \<and> (of_char c :: nat) \<le> 57"

definition decimal :: "string \<Rightarrow> nat" where
  "decimal s = foldl (\<lambda>n c. n * 10 + (of_char c - 48)) 0 s"

definition atoi_value :: "string \<Rightarrow> int option" where
  "atoi_value s =
     (let neg = (s \<noteq> [] \<and> hd s = CHR ''-'');
          ds = (if s \<noteq> [] \<and> hd s \<in> {CHR ''-'', CHR ''+''} then tl s else s)
      in if ds = [] \<or> \<not> list_all is_digit ds then None
         else Some (if neg then - int (decimal ds) else int (decimal ds)))"

definition Atoi :: "string \<Rightarrow> int" where
  "Atoi s = (case atoi_value s of None \<Rightarrow> 0 | Some v \<Rightarrow> max i64_min (min i64_max v))"

definition Atoi_fails :: "string \<Rightarrow> bool" where
  "Atoi_fails s = (case atoi_value s of None \<Rightarrow> True | Some v \<Rightarrow> \<not> in_i64 v)"

lemma of_char_digit: "n < 10 \<Longrightarrow> (of_char (char_of (48 + n) :: char) :: nat) = 48 + n"
  by simp

lemma show_nat_digits: "list_all is_digit (show_nat n) \<and> show_nat n \<noteq> [] \<and> decimal (show_nat n) = n"
proof (induction n rule: show_nat.induct)
  case (1 n)
  show ?case
  proof (cases "n < 10")
    case True
    then show ?thesis by (subst (1 2 3) show_nat.simps) (simp add: is_digit_def decimal_def)
  next
    case False
    with 1 have "list_all is_digit (show_nat (n div 10))" "decimal (show_nat (n div 10)) = n div 10" by simp_all
    with False show ?thesis by (subst (1 2 3) show_nat.simps) (simp add: is_digit_def decimal_def)
  qed
qed

lemma atoi_show_nat: "atoi_value (show_nat n) = Some (int n)"
proof -
  have "is_digit (hd (show_nat n))" using show_nat_digits [of n] by (cases "show_nat n") auto
  then have "hd (show_nat n) \<noteq> CHR ''-''" "hd (show_nat n) \<noteq> CHR ''+''" by (auto simp: is_digit_def)
  then show ?thesis using show_nat_digits [of n] by (simp add: atoi_value_def)
qed

lemma atoi_show_int: "atoi_value (show_int i) = Some i"
proof (cases "i < 0")
  case True
  then show ?thesis using show_nat_digits [of "nat (- i)"] by (simp add: show_int_def atoi_value_def)
next
  case False
  then show ?thesis using atoi_show_nat [of "nat i"] by (simp add: show_int_def)
qed

lemma Atoi_show_int: "in_i64 i \<Longrightarrow> Atoi (show_int i) = i \<and> \<not> Atoi_fails (show_int i)"
  by (simp add: Atoi_def Atoi_fails_def atoi_show_int in_i64_def)

section \<open>Paths and texts\<close>

definition filepath_Base :: "string \<Rightarrow> string" where
  "filepath_Base p =
     (if p = [] then ''.''
      else let q = dropWhile (\<lambda>c. c = CHR ''/'') (rev p); b = rev (takeWhile (\<lambda>c. c \<noteq> CHR ''/'') q) in
        if b = [] then ''/'' else b)"

definition filepath_Ext :: "string \<Rightarrow> string" where
  "filepath_Ext p =
     (let r = takeWhile (\<lambda>c. c \<noteq> CHR ''/'' \<and> c \<noteq> CHR ''.'') (rev p) in
      if length r < length p \<and> rev p ! length r = CHR ''.'' then CHR ''.'' # rev r else [])"

text \<open>\<open>strings.ReplaceAll\<close> of a text that is not empty.\<close>

function ReplaceAll :: "string \<Rightarrow> string \<Rightarrow> string \<Rightarrow> string" where
  "ReplaceAll s old new =
     (if s = [] \<or> old = [] then s
      else if HasPrefix s old then new @ ReplaceAll (drop (length old) s) old new
      else hd s # ReplaceAll (tl s) old new)"
  by pat_completeness auto
termination by (relation "measure (\<lambda>(s, old, new). length s)") auto

declare ReplaceAll.simps [simp del]

definition lower :: "char \<Rightarrow> char" where
  "lower c = (if 65 \<le> (of_char c :: nat) \<and> (of_char c :: nat) \<le> 90 then char_of (of_char c + 32 :: nat) else c)"

definition ToLower :: "string \<Rightarrow> string" where
  "ToLower s = map lower s"

definition TrimSuffix :: "string \<Rightarrow> string \<Rightarrow> string" where
  "TrimSuffix s suffix =
     (if length suffix \<le> length s \<and> drop (length s - length suffix) s = suffix
      then take (length s - length suffix) s else s)"

lemma filepath_Base_join:
  assumes "CHR ''/'' \<notin> set b" and "b \<noteq> []"
  shows "filepath_Base (d @ ''/'' @ b) = b" and "filepath_Base b = b"
proof -
  obtain c cs where rb: "rev b = c # cs" using assms(2) by (cases "rev b") auto
  have no: "\<forall>x\<in>set (rev b). x \<noteq> CHR ''/''" using assms(1) by auto
  then have "c \<noteq> CHR ''/''" by (simp add: rb)
  then have drop: "dropWhile (\<lambda>c. c = CHR ''/'') (rev b @ t) = rev b @ t" for t by (simp add: rb)
  have take: "takeWhile (\<lambda>c. c \<noteq> CHR ''/'') (rev b @ CHR ''/'' # t) = rev b" for t
    using no by (subst takeWhile_append2) (auto simp: takeWhile_eq_all_conv)
  show "filepath_Base (d @ ''/'' @ b) = b" using drop [of "CHR ''/'' # rev d"] take assms(2) by (simp add: filepath_Base_def Let_def)
  show "filepath_Base b = b" using drop [of "[]"] no assms(2) by (simp add: filepath_Base_def Let_def takeWhile_eq_all_conv [THEN iffD2])
qed

lemma filepath_Ext_dot:
  assumes "CHR ''/'' \<notin> set e" and "CHR ''.'' \<notin> set e"
  shows "filepath_Ext (b @ ''.'' @ e) = ''.'' @ e"
proof -
  have "takeWhile (\<lambda>c. c \<noteq> CHR ''/'' \<and> c \<noteq> CHR ''.'') (rev e @ CHR ''.'' # rev b) = rev e"
    using assms by (subst takeWhile_append2) auto
  then show ?thesis by (simp add: filepath_Ext_def Let_def nth_append)
qed

lemma TrimSuffix_append: "TrimSuffix (a @ b) b = a"
  by (simp add: TrimSuffix_def)

definition occurs :: "string \<Rightarrow> string \<Rightarrow> bool" where
  "occurs old s \<longleftrightarrow> (\<exists>a b. s = a @ old @ b)"

lemma ReplaceAll_none: "\<not> occurs old s \<Longrightarrow> ReplaceAll s old new = s"
proof (induction s)
  case (Cons c s)
  have "\<not> occurs old s" using Cons.prems by (auto simp: occurs_def) (metis append_Cons)
  moreover have "\<not> HasPrefix (c # s) old"
    using Cons.prems by (auto simp: occurs_def HasPrefix_def) (metis append_Nil append_take_drop_id)
  ultimately show ?case using Cons.IH by (subst ReplaceAll.simps) simp
qed (simp add: ReplaceAll.simps)

end
