(* ===== verification/Timestamping.thy ===== *)
theory Timestamping
  imports Go_Codec Go_Time
begin

text \<open>
  \<open>timestamp/timestamp.go\<close>: hardware and software timestamps out of socket control messages, the read
  of the transmit timestamp queue, and socket addresses. System calls are arguments: a socket's error
  queue is the sequence of outcomes of \<open>recvoob\<close>. The layout of \<open>unix.Cmsghdr\<close> is that of linux/amd64.
  The walk over the control messages advances by the length each message claims, so it is a
  \<open>partial_function\<close>: not returning is the value \<open>None\<close>.
\<close>

section \<open>Constants\<close>

definition ControlSizeBytes :: nat where [simp]: "ControlSizeBytes = 128"
definition PayloadSizeBytes :: nat where [simp]: "PayloadSizeBytes = 128"
definition maxTXTS :: nat where "maxTXTS = 100"
definition socketControlMessageHeaderOffset :: nat where [simp]: "socketControlMessageHeaderOffset = 16"
definition HWTIMESTAMP :: string where "HWTIMESTAMP = ''hardware''"
definition SWTIMESTAMP :: string where "SWTIMESTAMP = ''software''"

definition SOL_SOCKET :: u32 where "SOL_SOCKET = 1"
definition SO_TIMESTAMPING :: u32 where "SO_TIMESTAMPING = 37"
definition SO_TIMESTAMPING_NEW :: u32 where "SO_TIMESTAMPING_NEW = 65"

section \<open>Timestamps in control messages\<close>

definition byteToTime :: "bytes \<Rightarrow> gotime res" where
  "byteToTime data =
     bind_res (slice data 0 8) (\<lambda>s.
     bind_res (slice_from data 8) (\<lambda>n.
     bind_res (get_at (cle 8 :: u64 codec) s 0) (\<lambda>sec.
     bind_res (get_at (cle 8 :: u64 codec) n 0) (\<lambda>nsec.
     Ok (time_Unix (sint sec) (sint nsec))))))"

definition scmDataToTime :: "bytes \<Rightarrow> gotime res" where
  "scmDataToTime data =
     (let size = 16 in
      bind_res (slice data (size * 2) (size * 3)) (\<lambda>hw.
      bind_res (byteToTime hw) (\<lambda>ts.
      if t_UnixNano ts = 0 then
        bind_res (slice data 0 size) (\<lambda>sw.
        bind_res (byteToTime sw) (\<lambda>ts.
        if t_UnixNano ts = 0 then Err ''got zero timestamp'' else Ok ts))
      else Ok ts)))"

record Cmsghdr =
  cm_Len :: u64
  cm_Level :: u32
  cm_Type :: u32

definition Cmsghdr_codec :: "Cmsghdr codec" where
  "Cmsghdr_codec = cmap (\<lambda>(l, v, t). \<lparr>cm_Len = l, cm_Level = v, cm_Type = t\<rparr>)
     (\<lambda>h. (cm_Len h, cm_Level h, cm_Type h)) (cpair (cle 8) (cpair (cle 4) (cle 4)))"

text \<open>
  The slice \<open>b\<close> is the first \<open>n\<close> bytes of a buffer \<open>buf\<close>; slicing is bounded by the capacity of the
  buffer, and the header at \<open>i\<close> is read through an unsafe pointer, which may reach past the buffer
  into the bytes \<open>mem\<close> that follow it in memory.
\<close>

definition Cmsghdr_at :: "bytes \<Rightarrow> bytes \<Rightarrow> nat \<Rightarrow> Cmsghdr" where
  "Cmsghdr_at buf mem i = cdec Cmsghdr_codec (take 16 (drop i (buf @ mem)))"

definition is_timestamp :: "Cmsghdr \<Rightarrow> bool" where
  "is_timestamp h \<longleftrightarrow>
     cm_Level h = SOL_SOCKET \<and> cm_Type h = SO_TIMESTAMPING_NEW \<or> cm_Type h = SO_TIMESTAMPING"

partial_function (option) scm_walk :: "bytes \<Rightarrow> bytes \<Rightarrow> nat \<Rightarrow> int \<Rightarrow> gotime res option" where
  "scm_walk buf mem n i =
     (if int n \<le> i then Some (Err ''failed to find timestamp in socket control message'')
      else if i < 0 then Some (Inl Panic)
      else let h = Cmsghdr_at buf mem (nat i); mlen = sint (cm_Len h) in
        if is_timestamp h then
          Some (if i + mlen < 0 then Inl Panic
                else bind_res (slice buf (nat i + socketControlMessageHeaderOffset) (nat (i + mlen)))
                  scmDataToTime)
        else scm_walk buf mem n (i + mlen))"

definition socketControlMessageTimestamp :: "bytes \<Rightarrow> bytes \<Rightarrow> nat \<Rightarrow> gotime res option" where
  "socketControlMessageTimestamp buf mem n = scm_walk buf mem n 0"

section \<open>Transmit timestamps\<close>

text \<open>
  \<open>recv k\<close> is the outcome of the \<open>k\<close>-th \<open>recvoob\<close>: an error (\<open>None\<close>) or the number of control bytes
  and the contents of the buffer. The loop returns whether a timestamp was found, the last one and
  the number of attempts.
\<close>

function read_TX_loop :: "(nat \<Rightarrow> (nat \<times> bytes) option) \<Rightarrow> nat \<Rightarrow> (nat \<times> bytes) option \<Rightarrow>
    (nat \<times> bytes) option \<times> nat" where
  "read_TX_loop recv attempts found =
     (if maxTXTS \<le> attempts then (found, attempts)
      else case recv attempts of
          None \<Rightarrow> if found \<noteq> None then (found, attempts) else read_TX_loop recv (attempts + 1) found
        | Some t \<Rightarrow> read_TX_loop recv (attempts + 1) (Some t))"
  by pat_completeness auto

termination
  by (relation "measure (\<lambda>(recv, attempts, found). maxTXTS - attempts)") auto

declare read_TX_loop.simps [simp del]

definition ReadTXtimestampBuf ::
  "(nat \<Rightarrow> (nat \<times> bytes) option) \<Rightarrow> bytes \<Rightarrow> gotime res option \<times> nat" where
  "ReadTXtimestampBuf recv mem =
     (case read_TX_loop recv 0 None of
        (None, attempts) \<Rightarrow> (Some (Err ''no TX timestamp found after %d tries''), attempts)
      | (Some (boob, oob), attempts) \<Rightarrow> (socketControlMessageTimestamp oob mem boob, attempts))"

text \<open>\<open>Recvmsg\<close> returns an error or the packet, the control bytes and the peer.\<close>

definition ReadPacketWithRXTimestampBuf ::
  "(bytes \<times> nat \<times> bytes \<times> 's) res \<Rightarrow> bytes \<Rightarrow> (bytes \<times> 's \<times> gotime) res option" where
  "ReadPacketWithRXTimestampBuf recvmsg mem =
     (case recvmsg of
        Inl _ \<Rightarrow> Some (Err ''failed to read timestamp: %v'')
      | Inr (packet, boob, oob, saddr) \<Rightarrow>
          (case socketControlMessageTimestamp oob mem boob of
             None \<Rightarrow> None
           | Some r \<Rightarrow> Some (bind_res r (\<lambda>t. Ok (packet, saddr, t)))))"

section \<open>Socket addresses\<close>

type_synonym netIP = bytes

datatype Sockaddr = SockaddrInet4 nat bytes | SockaddrInet6 nat bytes | SockaddrOther

definition v4InV6Prefix :: bytes where
  "v4InV6Prefix = [0, 0, 0, 0, 0, 0, 0, 0, 0, 0, 0xff, 0xff]"

definition To4 :: "netIP \<Rightarrow> netIP option" where
  "To4 ip = (if length ip = 4 then Some ip
     else if length ip = 16 \<and> take 12 ip = v4InV6Prefix then Some (drop 12 ip) else None)"

text \<open>\<open>net.IP.Equal\<close> treats an IPv4 address and its IPv6-mapped form as equal.\<close>

definition IP_Equal :: "netIP \<Rightarrow> netIP \<Rightarrow> bool" where
  "IP_Equal a b \<longleftrightarrow>
     (if length a = length b then a = b
      else if length a = 4 \<and> length b = 16 then take 12 b = v4InV6Prefix \<and> a = drop 12 b
      else if length a = 16 \<and> length b = 4 then take 12 a = v4InV6Prefix \<and> drop 12 a = b
      else False)"

definition To16 :: "netIP \<Rightarrow> netIP option" where
  "To16 ip = (if length ip = 4 then Some (v4InV6Prefix @ ip)
     else if length ip = 16 then Some ip else None)"

text \<open>The address arrays start as zeros; copying from a nil slice leaves them so.\<close>

definition IPToSockaddr :: "netIP \<Rightarrow> nat \<Rightarrow> Sockaddr" where
  "IPToSockaddr ip port =
     (case To4 ip of
        Some a \<Rightarrow> SockaddrInet4 port a
      | None \<Rightarrow> SockaddrInet6 port (case To16 ip of Some a \<Rightarrow> a | None \<Rightarrow> replicate 16 0))"

fun SockaddrToIP :: "Sockaddr \<Rightarrow> netIP" where
  "SockaddrToIP (SockaddrInet4 p a) = a"
| "SockaddrToIP (SockaddrInet6 p a) = a"
| "SockaddrToIP SockaddrOther = []"

section \<open>Properties\<close>

lemma wf_cle_words [wf_codecs]: "wf_codec (cle 8 :: u64 codec)" "wf_codec (cle 4 :: u32 codec)"
  by (simp_all add: wf_cle)

lemma wf_Cmsghdr [wf_codecs]: "wf_codec Cmsghdr_codec"
  unfolding Cmsghdr_codec_def by (rule wf_cmap) (auto intro!: wf_codecs)

lemma csize_Cmsghdr [simp]: "csize Cmsghdr_codec = 16" "cok Cmsghdr_codec h"
  by (simp_all add: Cmsghdr_codec_def)

text \<open>A kernel timespec as the control message carries it.\<close>

definition timespec :: "gotime \<Rightarrow> bytes" where
  "timespec t = cenc (cle 8 :: u64 codec) (word_of_int (t_Unix t)) @
     cenc (cle 8 :: u64 codec) (word_of_int (t_Nanosecond t))"

lemma length_timespec [simp]: "length (timespec t) = 16"
  by (simp add: timespec_def)

lemma sint_word_of_int_i64: "in_i64 n \<Longrightarrow> sint (word_of_int n :: u64) = n"
  by (simp add: signed_of_int i64_defs signed_take_bit_int_eq_self)

lemma in_i64_nanosecond: "in_i64 (t_Nanosecond t)"
  using t_Nanosecond_bounds [of t, unfolded second_def]
  by (simp add: in_i64_def i64_min_def i64_max_def del: t_Nanosecond_bounds)

lemma length_cle8: "length (cenc (cle 8 :: u64 codec) w) = 8"
  by simp

lemma byteToTime_timespec:
  assumes "in_i64 (t_Unix t)"
  shows "byteToTime (timespec t) = Ok t"
proof -
  let ?c = "cle 8 :: u64 codec"
  have d: "cdec ?c (cenc ?c w) = w" for w
    by (rule wf_codecD(2) [OF wf_cle_words(1)]) simp
  have "byteToTime (timespec t) =
      Ok (time_Unix (sint (cdec ?c (cenc ?c (word_of_int (t_Unix t)))))
        (sint (cdec ?c (cenc ?c (word_of_int (t_Nanosecond t))))))"
    by (simp add: byteToTime_def timespec_def length_cle8 del: cle_simps(3,4))
  also have "\<dots> = Ok (time_Unix (t_Unix t) (t_Nanosecond t))"
    unfolding d using assms in_i64_nanosecond by (simp add: sint_word_of_int_i64)
  also have "\<dots> = Ok t"
    using assms t_decompose [of t] t_Nanosecond_bounds [of t] by (simp add: time_Unix_exact)
  finally show ?thesis .
qed

text \<open>Three timespecs: software, a deprecated one, hardware.\<close>

definition scm_data :: "gotime \<Rightarrow> gotime \<Rightarrow> gotime \<Rightarrow> bytes" where
  "scm_data sw x hw = timespec sw @ timespec x @ timespec hw"

lemma scmDataToTime_cases:
  assumes "in_i64 (t_Unix sw)" and "in_i64 (t_Unix hw)"
  shows "scmDataToTime (scm_data sw x hw) =
    (if t_UnixNano hw \<noteq> 0 then Ok hw
     else if t_UnixNano sw \<noteq> 0 then Ok sw else Err ''got zero timestamp'')"
  using assms by (simp add: scmDataToTime_def scm_data_def byteToTime_timespec)

text \<open>
  A control message as the kernel lays it out: header with the true length, then the payload. The
  kernel pads a message to a multiple of eight bytes before the next one; the walk does not skip such
  padding, so the messages that precede the timestamp are taken to need none.
\<close>

definition cmsg :: "u32 \<Rightarrow> u32 \<Rightarrow> bytes \<Rightarrow> bytes" where
  "cmsg level type payload =
     cenc Cmsghdr_codec \<lparr>cm_Len = word_of_nat (16 + length payload), cm_Level = level, cm_Type = type\<rparr> @ payload"

lemma length_cmsg: "length (cmsg l t p) = 16 + length p"
  using wf_codecD(1) [OF wf_Cmsghdr] by (simp add: cmsg_def)

lemma Cmsghdr_at_cmsg:
  "Cmsghdr_at (pre @ cmsg l t p @ r) mem (length pre) =
     \<lparr>cm_Len = word_of_nat (16 + length p), cm_Level = l, cm_Type = t\<rparr>"
  using wf_codecD [OF wf_Cmsghdr] by (simp add: Cmsghdr_at_def cmsg_def)

lemma sint_cmsg_len: "length p < 2 ^ 32 \<Longrightarrow> sint (word_of_nat (16 + length p) :: u64) = 16 + int (length p)"
  using sint_word_of_int_i64 [of "16 + int (length p)"]
  by (simp add: in_i64_def i64_min_def i64_max_def)

definition other_msgs :: "(u32 \<times> u32 \<times> bytes) list \<Rightarrow> bool" where
  "other_msgs ms \<longleftrightarrow> list_all (\<lambda>(l, t, p). \<not> is_timestamp \<lparr>cm_Len = 0, cm_Level = l, cm_Type = t\<rparr> \<and>
     length p < 2 ^ 32 \<and> 8 dvd length p) ms"

definition cmsgs :: "(u32 \<times> u32 \<times> bytes) list \<Rightarrow> bytes" where
  "cmsgs ms = concat (map (\<lambda>(l, t, p). cmsg l t p) ms)"

lemma scm_walk_others:
  "other_msgs ms \<Longrightarrow> length pre + length (cmsgs ms) \<le> n \<Longrightarrow>
   scm_walk (pre @ cmsgs ms @ r) mem n (int (length pre)) =
   scm_walk (pre @ cmsgs ms @ r) mem n (int (length pre + length (cmsgs ms)))"
proof (induction ms arbitrary: pre)
  case Nil
  then show ?case by (simp add: cmsgs_def)
next
  case (Cons m ms)
  obtain l t p where m: "m = (l, t, p)" by (cases m)
  have c: "cmsgs (m # ms) = cmsg l t p @ cmsgs ms"
    by (simp add: cmsgs_def m)
  have h: "Cmsghdr_at (pre @ cmsgs (m # ms) @ r) mem (length pre) =
      \<lparr>cm_Len = word_of_nat (16 + length p), cm_Level = l, cm_Type = t\<rparr>"
    using Cmsghdr_at_cmsg [of pre l t p "cmsgs ms @ r" mem] by (simp only: c append_assoc)
  have "sint (cm_Len (Cmsghdr_at (pre @ cmsgs (m # ms) @ r) mem (length pre))) = 16 + int (length p)"
      "\<not> is_timestamp (Cmsghdr_at (pre @ cmsgs (m # ms) @ r) mem (length pre))"
    unfolding h using Cons.prems(1) sint_cmsg_len [of p] by (simp_all add: other_msgs_def m is_timestamp_def)
  moreover have "\<not> int n \<le> int (length pre)"
    using Cons.prems(2) by (simp add: c length_cmsg)
  ultimately have "scm_walk (pre @ cmsgs (m # ms) @ r) mem n (int (length pre)) =
      scm_walk ((pre @ cmsg l t p) @ cmsgs ms @ r) mem n (int (length (pre @ cmsg l t p)))"
    by (subst scm_walk.simps) (simp add: Let_def c length_cmsg)
  also have "\<dots> = scm_walk ((pre @ cmsg l t p) @ cmsgs ms @ r) mem n
      (int (length (pre @ cmsg l t p) + length (cmsgs ms)))"
    using Cons.prems by (intro Cons.IH) (simp_all add: other_msgs_def c)
  finally show ?case by (simp add: c add.assoc)
qed

text \<open>
  With a timestamp message after any number of other, unpadded control messages, the walk returns the
  hardware timestamp it carries, the software one when the hardware one is zero, and an error when
  both are.
\<close>
theorem socketControlMessageTimestamp_found:
  assumes "other_msgs ms" and "in_i64 (t_Unix sw)" and "in_i64 (t_Unix hw)"
    and "n = length (cmsgs ms @ cmsg SOL_SOCKET SO_TIMESTAMPING_NEW (scm_data sw x hw))"
  shows "socketControlMessageTimestamp
      (cmsgs ms @ cmsg SOL_SOCKET SO_TIMESTAMPING_NEW (scm_data sw x hw) @ r) mem n =
    Some (if t_UnixNano hw \<noteq> 0 then Ok hw
          else if t_UnixNano sw \<noteq> 0 then Ok sw else Err ''got zero timestamp'')"
proof -
  let ?d = "scm_data sw x hw" and ?i = "length (cmsgs ms)"
  let ?t = "cmsg SOL_SOCKET SO_TIMESTAMPING_NEW ?d"
  let ?b = "cmsgs ms @ ?t @ r"
  have l: "length ?d = 48" by (simp add: scm_data_def)
  have "scm_walk ?b mem n 0 = scm_walk ?b mem n (int ?i)"
    using scm_walk_others [OF assms(1), of "[]" n "?t @ r" mem] assms(4) by simp
  also have "\<dots> = Some (bind_res (slice ?b (?i + 16) (?i + 64)) scmDataToTime)"
    using assms(4) l sint_cmsg_len [of ?d]
    by (subst scm_walk.simps) (simp add: Cmsghdr_at_cmsg is_timestamp_def length_cmsg nat_add_distrib Let_def)
  also have "slice ?b (?i + 16) (?i + 64) = Ok ?d"
  proof -
    obtain h where h: "?t = h @ ?d" "length h = 16"
      using wf_codecD(1) [OF wf_Cmsghdr] by (simp add: cmsg_def)
    then have "?b = (cmsgs ms @ h) @ ?d @ r" by simp
    then show ?thesis
      using slice_middle [of "cmsgs ms @ h" ?d r] h(2) l by (simp only: length_append) simp
  qed
  finally show ?thesis
    by (simp add: socketControlMessageTimestamp_def scmDataToTime_cases [OF assms(2,3)])
qed

theorem socketControlMessageTimestamp_found_witness:
  "socketControlMessageTimestamp
     (cmsgs [(0, 8, replicate 8 1)] @ cmsg SOL_SOCKET SO_TIMESTAMPING_NEW (scm_data 7 0 1584090603123456789) @ [])
     [] 88 = Some (Ok 1584090603123456789)"
proof -
  have "88 = length (cmsgs [(0, 8, replicate 8 1)] @
      cmsg SOL_SOCKET SO_TIMESTAMPING_NEW (scm_data 7 0 1584090603123456789))"
    by (simp add: cmsgs_def length_cmsg scm_data_def)
  from socketControlMessageTimestamp_found [OF _ _ _ this, of "[]" "[]"] show ?thesis
    by (simp add: other_msgs_def is_timestamp_def SO_TIMESTAMPING_NEW_def SO_TIMESTAMPING_def
        SOL_SOCKET_def in_i64_def i64_min_def i64_max_def t_Unix_def second_def t_UnixNano_def i64_def
        signed_take_bit_int_eq_self)
qed



text \<open>
  A control message that claims length zero and is not a timestamp stops the walk for good: the
  call never returns.
\<close>
theorem scm_walk_zero_length_hangs:
  assumes "\<not> is_timestamp (Cmsghdr_at buf mem 0)" and "cm_Len (Cmsghdr_at buf mem 0) = 0" and "0 < n"
  shows "socketControlMessageTimestamp buf mem n = None"
proof -
  have "\<not> (b = buf \<and> m = mem \<and> k = n \<and> i = 0)" if w: "scm_walk b m k i = Some y" for b m k i y
  proof (rule scm_walk.raw_induct [where P = "\<lambda>b m k i y. \<not> (b = buf \<and> m = mem \<and> k = n \<and> i = 0)",
        OF _ w])
    fix walk :: "bytes \<Rightarrow> bytes \<Rightarrow> nat \<Rightarrow> int \<Rightarrow> gotime res option" and b m k i y
    assume rec: "\<And>b m k i y. walk b m k i = Some y \<Longrightarrow> \<not> (b = buf \<and> m = mem \<and> k = n \<and> i = 0)"
      and body: "(if int k \<le> i then Some (Err ''failed to find timestamp in socket control message'')
        else if i < 0 then Some (Inl Panic)
        else let h = Cmsghdr_at b m (nat i); mlen = sint (cm_Len h) in
          if is_timestamp h then
            Some (if i + mlen < 0 then Inl Panic
                  else bind_res (slice b (nat i + socketControlMessageHeaderOffset) (nat (i + mlen)))
                    scmDataToTime)
          else walk b m k (i + mlen)) = Some y"
    show "\<not> (b = buf \<and> m = mem \<and> k = n \<and> i = 0)"
    proof
      assume "b = buf \<and> m = mem \<and> k = n \<and> i = 0"
      then have "walk buf mem n 0 = Some y"
        using body assms by (simp add: Let_def)
      from rec [OF this] show False by simp
    qed
  qed
  then have "scm_walk buf mem n 0 \<noteq> Some y" for y
    by blast
  then show ?thesis
    unfolding socketControlMessageTimestamp_def by (cases "scm_walk buf mem n 0") auto
qed

theorem scm_walk_zero_length_hangs_witness:
  "socketControlMessageTimestamp (cenc Cmsghdr_codec \<lparr>cm_Len = 0, cm_Level = 0, cm_Type = 0\<rparr>) [] 16 = None"
proof -
  let ?h = "\<lparr>cm_Len = 0, cm_Level = 0, cm_Type = 0\<rparr>"
  have "Cmsghdr_at (cenc Cmsghdr_codec ?h) [] 0 = ?h"
    using wf_codecD [OF wf_Cmsghdr] by (simp add: Cmsghdr_at_def)
  then show ?thesis
    by (intro scm_walk_zero_length_hangs)
      (simp_all add: is_timestamp_def SOL_SOCKET_def SO_TIMESTAMPING_def SO_TIMESTAMPING_NEW_def)
qed

section \<open>The transmit queue\<close>

lemma read_TX_search:
  assumes "\<forall>k < a. recv k = None" and "j \<le> a" and "a \<le> maxTXTS"
  shows "read_TX_loop recv j None = read_TX_loop recv a None"
  using assms(2)
proof (induction "a - j" arbitrary: j)
  case 0
  then show ?case by simp
next
  case (Suc d)
  then have "recv j = None" and "\<not> maxTXTS \<le> j"
    using assms(1,3) by simp_all
  then have "read_TX_loop recv j None = read_TX_loop recv (j + 1) None"
    by (subst read_TX_loop.simps) simp
  also have "\<dots> = read_TX_loop recv a None"
    using Suc by (intro Suc.hyps(1)) simp_all
  finally show ?case .
qed

lemma read_TX_drain:
  assumes "\<forall>k. a \<le> k \<and> k < c \<longrightarrow> recv k \<noteq> None" and "recv c = None" and "a \<le> j" and "j < c"
    and "c < maxTXTS"
  shows "read_TX_loop recv j found = (recv (c - 1), c)"
  using assms(3,4)
proof (induction "c - j" arbitrary: j found)
  case 0
  then show ?case by simp
next
  case (Suc d)
  obtain t where t: "recv j = Some t"
    using assms(1) Suc.prems by (cases "recv j") auto
  then have s: "read_TX_loop recv j found = read_TX_loop recv (j + 1) (Some t)"
    using Suc.prems assms(5) by (subst read_TX_loop.simps) simp
  show ?case
  proof (cases "j + 1 = c")
    case True
    then have "read_TX_loop recv (j + 1) (Some t) = (Some t, c)"
      using assms(2,5) by (subst read_TX_loop.simps) simp
    with s True t show ?thesis by auto
  next
    case False
    with Suc show ?thesis
      unfolding s by (intro Suc.hyps(1)) simp_all
  qed
qed

text \<open>
  When the error queue first has nothing, then at least one timestamp, then nothing again within
  a hundred attempts, \<open>ReadTXtimestampBuf\<close> drains it and parses the last message, never an older one.
\<close>
theorem ReadTXtimestampBuf_newest:
  assumes "\<forall>k < a. recv k = None" and "\<forall>k. a \<le> k \<and> k < c \<longrightarrow> recv k \<noteq> None"
    and "recv c = None" and "a < c" and "c < maxTXTS" and "recv (c - 1) = Some (boob, oob)"
  shows "ReadTXtimestampBuf recv mem = (socketControlMessageTimestamp oob mem boob, c)"
  using read_TX_search [OF assms(1), of 0] read_TX_drain [OF assms(2,3), of a None] assms(4-6)
  by (simp add: ReadTXtimestampBuf_def)

theorem ReadTXtimestampBuf_newest_witness:
  "ReadTXtimestampBuf (\<lambda>k. if k = 1 then Some (0, []) else if k = 2 then Some (16, replicate 16 0) else None) []
     = (socketControlMessageTimestamp (replicate 16 0) [] 16, 3)"
  by (rule ReadTXtimestampBuf_newest [where a = 1]) (auto simp: maxTXTS_def)

lemma read_TX_loop_bound:
  "a \<le> maxTXTS \<Longrightarrow> snd (read_TX_loop recv a found) \<le> maxTXTS"
proof (induction recv a found rule: read_TX_loop.induct)
  case (1 recv a found)
  then show ?case
    by (subst read_TX_loop.simps) (auto split: option.splits)
qed

section \<open>Addresses\<close>

text \<open>
  Taking the IP out of a socket address and making an address of it again only changes the port,
  except that an IPv4-mapped IPv6 address becomes an IPv4 one.
\<close>
theorem IPToSockaddr_SockaddrToIP:
  "(length a = 4 \<longrightarrow> IPToSockaddr (SockaddrToIP (SockaddrInet4 p a)) q = SockaddrInet4 q a) \<and>
   (length b = 16 \<longrightarrow> IPToSockaddr (SockaddrToIP (SockaddrInet6 p b)) q =
      (if take 12 b = v4InV6Prefix then SockaddrInet4 q (drop 12 b) else SockaddrInet6 q b))"
  by (simp add: IPToSockaddr_def To4_def To16_def)

theorem IPToSockaddr_SockaddrToIP_witness:
  "IPToSockaddr (SockaddrToIP (SockaddrInet4 320 [10, 0, 0, 1])) 319 = SockaddrInet4 319 [10, 0, 0, 1]"
  using IPToSockaddr_SockaddrToIP [of "[10, 0, 0, 1]" 320 319 "[]"] by simp

end
