(* ===== verification/Chrony.thy ===== *)
theory Chrony
  imports Go_Codec Go_Time Go_Strings Timestamping
begin

text \<open>
  \<open>ntp/chrony\<close>: the command and monitoring protocol of chronyd. \<open>helpers.go\<close> (addresses, times, the 32-bit
  floating point format, reference identifiers), \<open>packet.go\<close> (requests, replies and \<open>decodePacket\<close>) and the exchange of \<open>client.go\<close>.
  A float is the rational it denotes: every value of the 32-bit format is a \<open>float64\<close>.
\<close>

section \<open>Helpers\<close>

definition noHighSec :: u32 where [simp]: "noHighSec = 0x7fffffff"
definition ipAddrInet4 :: u16 where [simp]: "ipAddrInet4 = 1"
definition ipAddrInet6 :: u16 where [simp]: "ipAddrInet6 = 2"
definition floatExpBits :: nat where [simp]: "floatExpBits = 7"
definition floatCoefBits :: nat where [simp]: "floatCoefBits = 25"

record ipAddr =
  ia_IP :: "u8 list"
  ia_Family :: u16
  ia_Pad :: u16

definition ipAddr_codec :: "ipAddr codec" where
  "ipAddr_codec = cmap
    (\<lambda>(x0, x1, x2). \<lparr>ia_IP = x0, ia_Family = x1, ia_Pad = x2\<rparr>)
    (\<lambda>p. (ia_IP p, ia_Family p, ia_Pad p))
    (cpair (carray 16 cu8) (cpair cu16 cu16))"

lemma wf_ipAddr [wf_codecs]: "wf_codec ipAddr_codec"
  unfolding ipAddr_codec_def by (rule wf_cmap) (auto intro!: wf_codecs)

lemma csize_ipAddr [simp]: "csize ipAddr_codec = 20"
  by (simp add: ipAddr_codec_def)

definition ToNetIP :: "ipAddr \<Rightarrow> netIP" where
  "ToNetIP ip = (if ia_Family ip = ipAddrInet4 then take 4 (ia_IP ip) else ia_IP ip)"

definition newIPAddr :: "netIP \<Rightarrow> ipAddr" where
  "newIPAddr ip =
     \<lparr>ia_IP = take 16 (ip @ replicate 16 0),
      ia_Family = (if To4 ip \<noteq> None then ipAddrInet4 else ipAddrInet6), ia_Pad = 0\<rparr>"

record timeSpec =
  tp_SecHigh :: u32
  tp_SecLow :: u32
  tp_Nsec :: u32

definition timeSpec_codec :: "timeSpec codec" where
  "timeSpec_codec = cmap
    (\<lambda>(x0, x1, x2). \<lparr>tp_SecHigh = x0, tp_SecLow = x1, tp_Nsec = x2\<rparr>)
    (\<lambda>p. (tp_SecHigh p, tp_SecLow p, tp_Nsec p))
    (cpair cu32 (cpair cu32 cu32))"

lemma wf_timeSpec [wf_codecs]: "wf_codec timeSpec_codec"
  unfolding timeSpec_codec_def by (rule wf_cmap) (auto intro!: wf_codecs)

lemma csize_timeSpec [simp]: "csize timeSpec_codec = 12"
  by (simp add: timeSpec_codec_def)

definition ToTime :: "timeSpec \<Rightarrow> gotime" where
  "ToTime t =
     (let highU64 = (if tp_SecHigh t = noHighSec then 0 else ucast (tp_SecHigh t)) :: u64;
          lowU64 = ucast (tp_SecLow t)
      in time_Unix (sint (push_bit 32 highU64 OR lowU64)) (uint (tp_Nsec t)))"

type_synonym chronyFloat = i32

definition ToFloat :: "chronyFloat \<Rightarrow> f64" where
  "ToFloat f =
     (let x = uint f;
          e = x div 2 ^ floatCoefBits;
          e = (if e \<ge> 2 ^ (floatExpBits - 1) then e - 2 ^ floatExpBits else e) - int floatCoefBits;
          coef = x mod 2 ^ floatCoefBits;
          coef = (if coef \<ge> 2 ^ (floatCoefBits - 1) then coef - 2 ^ floatCoefBits else coef)
      in of_int coef * f64_pow2 e)"

definition hex_digit_upper :: "nat \<Rightarrow> char" where
  "hex_digit_upper n = char_of (if n < 10 then 48 + n else 55 + n)"

definition RefidAsHEX :: "u32 \<Rightarrow> string" where
  "RefidAsHEX refID = concat (map (\<lambda>b. [hex_digit_upper (unat b div 16), hex_digit_upper (unat b mod 16)]) (be_bytes 4 (unat refID)))"

text \<open>\<open>unicode.IsPrint\<close> of a code point below 256, and the code points of the string.\<close>

definition IsPrint :: "nat \<Rightarrow> bool" where
  "IsPrint c \<longleftrightarrow> 0x20 \<le> c \<and> c \<le> 0x7e \<or> 0xa1 \<le> c \<and> c \<noteq> 0xad"

definition RefidToString :: "u32 \<Rightarrow> nat list" where
  "RefidToString refID = filter IsPrint (map (\<lambda>i. unat (drop_bit (24 - i * 8) refID AND 0xff)) [0, 1, 2, 3])"

definition NTPFlagsTests :: u16 where [simp]: "NTPFlagsTests = 0x3ff"

definition NTPTestDescMap :: "(u16 \<times> string) list" where
  "NTPTestDescMap = [(0x0001, ''pkt_dup''), (0x0002, ''pkt_bogus''), (0x0004, ''pkt_invalid''), (0x0008, ''pkt_auth''),
     (0x0010, ''pkt_stratum''), (0x0020, ''pkt_header''), (0x0040, ''tst_max_delay''), (0x0080, ''tst_delay_ratio''),
     (0x0100, ''tst_delay_dev_ration''), (0x0200, ''tst_sync_loop'')]"

text \<open>The order in which Go iterates over the map is an argument, a permutation of \<open>NTPTestDescMap\<close>.\<close>

definition ReadNTPTestFlags :: "(u16 \<times> string) list \<Rightarrow> u16 \<Rightarrow> string list" where
  "ReadNTPTestFlags order flags =
     (let testFlags = flags AND NTPFlagsTests in map snd (filter (\<lambda>(mask, message). testFlags AND mask = 0) order))"

section \<open>Packets\<close>

definition protoVersionNumber :: u8 where [simp]: "protoVersionNumber = 6"
definition maxDataLen :: nat where [simp]: "maxDataLen = 396"
definition pktTypeCmdRequest :: u8 where [simp]: "pktTypeCmdRequest = 1"
definition pktTypeCmdReply :: u8 where [simp]: "pktTypeCmdReply = 2"

definition PacketType_String :: "u8 \<Rightarrow> string" where
  "PacketType_String t =
     (if t = pktTypeCmdRequest then ''request'' else if t = pktTypeCmdReply then ''reply''
      else ''unknown ('' @ show_nat (unat t) @ '')'')"

definition reqNSources :: u16 where [simp]: "reqNSources = 14"
definition reqSourceData :: u16 where [simp]: "reqSourceData = 15"
definition reqTracking :: u16 where [simp]: "reqTracking = 33"
definition reqSourceStats :: u16 where [simp]: "reqSourceStats = 34"
definition reqServerStats :: u16 where [simp]: "reqServerStats = 54"
definition reqNTPData :: u16 where [simp]: "reqNTPData = 57"

definition rpyNSources :: u16 where [simp]: "rpyNSources = 2"
definition rpySourceData :: u16 where [simp]: "rpySourceData = 3"
definition rpyTracking :: u16 where [simp]: "rpyTracking = 5"
definition rpySourceStats :: u16 where [simp]: "rpySourceStats = 6"
definition rpyServerStats :: u16 where [simp]: "rpyServerStats = 14"
definition rpyNTPData :: u16 where [simp]: "rpyNTPData = 16"
definition rpyServerStats2 :: u16 where [simp]: "rpyServerStats2 = 22"

definition SourceModeClient :: u16 where [simp]: "SourceModeClient = 0"
definition SourceModePeer :: u16 where [simp]: "SourceModePeer = 1"
definition SourceModeRef :: u16 where [simp]: "SourceModeRef = 2"

definition SourceStateSync :: u16 where [simp]: "SourceStateSync = 0"
definition SourceStateUnreach :: u16 where [simp]: "SourceStateUnreach = 1"
definition SourceStateFalseTicket :: u16 where [simp]: "SourceStateFalseTicket = 2"
definition SourceStateJittery :: u16 where [simp]: "SourceStateJittery = 3"
definition SourceStateCandidate :: u16 where [simp]: "SourceStateCandidate = 4"
definition SourceStateOutlier :: u16 where [simp]: "SourceStateOutlier = 5"

definition sttSuccess :: u16 where [simp]: "sttSuccess = 0"

definition StatusDesc :: "string list" where
  "StatusDesc = [''SUCCESS'', ''FAILED'', ''UNAUTH'', ''INVALID'', ''NOSUCHSOURCE'', ''INVALIDTS'', ''NOTENABLED'',
     ''BADSUBNET'', ''ACCESSALLOWED'', ''ACCESSDENIED'', ''NOHOSTACCESS'', ''SOURCEALREADYKNOWN'', ''TOOMANYSOURCES'',
     ''NORTC'', ''BADRTCFILE'', ''INACTIVE'', ''BADSAMPLE'', ''INVALIDAF'', ''BADPKTVERSION'', ''BADPKTLENGTH'']"

definition ResponseStatus_String :: "u16 \<Rightarrow> string" where
  "ResponseStatus_String r =
     (if unat r \<ge> length StatusDesc then ''UNKNOWN ('' @ show_nat (unat r) @ '')'' else StatusDesc ! unat r)"

definition SourceStateDesc :: "string list" where
  "SourceStateDesc = [''sync'', ''unreach'', ''falseticket'', ''jittery'', ''candidate'', ''outlier'']"

definition SourceState_String :: "u16 \<Rightarrow> string" where
  "SourceState_String s =
     (if unat s \<ge> length SourceStateDesc then ''unknown ('' @ show_nat (unat s) @ '')'' else SourceStateDesc ! unat s)"

record RequestHead =
  rq_Version :: u8
  rq_PKTType :: u8
  rq_Res1 :: u8
  rq_Res2 :: u8
  rq_Command :: u16
  rq_Attempt :: u16
  rq_Sequence :: u32
  rq_Pad1 :: u32
  rq_Pad2 :: u32

definition RequestHead_codec :: "RequestHead codec" where
  "RequestHead_codec = cmap
    (\<lambda>(x0, x1, x2, x3, x4, x5, x6, x7, x8). \<lparr>rq_Version = x0, rq_PKTType = x1, rq_Res1 = x2, rq_Res2 = x3, rq_Command = x4, rq_Attempt =
      x5, rq_Sequence = x6, rq_Pad1 = x7, rq_Pad2 = x8\<rparr>)
    (\<lambda>p. (rq_Version p, rq_PKTType p, rq_Res1 p, rq_Res2 p, rq_Command p, rq_Attempt p, rq_Sequence p,
      rq_Pad1 p, rq_Pad2 p))
    (cpair cu8 (cpair cu8 (cpair cu8 (cpair cu8 (cpair cu16 (cpair cu16 (cpair cu32 (cpair cu32
      cu32))))))))"

lemma wf_RequestHead [wf_codecs]: "wf_codec RequestHead_codec"
  unfolding RequestHead_codec_def by (rule wf_cmap) (auto intro!: wf_codecs)

lemma csize_RequestHead [simp]: "csize RequestHead_codec = 20"
  by (simp add: RequestHead_codec_def)

datatype RequestPacket =
    RequestSources RequestHead
  | RequestSourceData RequestHead i32 i32
  | RequestNTPData RequestHead ipAddr i32
  | RequestServerStats RequestHead
  | RequestTracking RequestHead
  | RequestSourceStats RequestHead i32 i32

fun chrony_request_head :: "RequestPacket \<Rightarrow> RequestHead" where
  "chrony_request_head (RequestSources h) = h"
| "chrony_request_head (RequestSourceData h i e) = h"
| "chrony_request_head (RequestNTPData h ip e) = h"
| "chrony_request_head (RequestServerStats h) = h"
| "chrony_request_head (RequestTracking h) = h"
| "chrony_request_head (RequestSourceStats h i e) = h"

definition Request_GetCommand :: "RequestPacket \<Rightarrow> u16" where
  "Request_GetCommand p = rq_Command (chrony_request_head p)"

fun Request_SetSequence :: "u32 \<Rightarrow> RequestPacket \<Rightarrow> RequestPacket" where
  "Request_SetSequence n (RequestSources h) = RequestSources (h\<lparr>rq_Sequence := n\<rparr>)"
| "Request_SetSequence n (RequestSourceData h i e) = RequestSourceData (h\<lparr>rq_Sequence := n\<rparr>) i e"
| "Request_SetSequence n (RequestNTPData h ip e) = RequestNTPData (h\<lparr>rq_Sequence := n\<rparr>) ip e"
| "Request_SetSequence n (RequestServerStats h) = RequestServerStats (h\<lparr>rq_Sequence := n\<rparr>)"
| "Request_SetSequence n (RequestTracking h) = RequestTracking (h\<lparr>rq_Sequence := n\<rparr>)"
| "Request_SetSequence n (RequestSourceStats h i e) = RequestSourceStats (h\<lparr>rq_Sequence := n\<rparr>) i e"

text \<open>\<open>binary.Write\<close> of a request: the fields in order, the unused data as zeros.\<close>

fun request_bytes :: "RequestPacket \<Rightarrow> bytes" where
  "request_bytes (RequestSources h) = binary_Write RequestHead_codec h @ replicate maxDataLen 0"
| "request_bytes (RequestSourceData h i e) =
     binary_Write RequestHead_codec h @ cenc cu32 i @ cenc cu32 e @ replicate (maxDataLen - 4) 0"
| "request_bytes (RequestNTPData h ip e) =
     binary_Write RequestHead_codec h @ binary_Write ipAddr_codec ip @ cenc cu32 e @ replicate (maxDataLen - 16) 0"
| "request_bytes (RequestServerStats h) = binary_Write RequestHead_codec h @ replicate maxDataLen 0"
| "request_bytes (RequestTracking h) = binary_Write RequestHead_codec h @ replicate maxDataLen 0"
| "request_bytes (RequestSourceStats h i e) =
     binary_Write RequestHead_codec h @ cenc cu32 i @ cenc cu32 e @ replicate (maxDataLen - 4) 0"

definition new_head :: "u16 \<Rightarrow> RequestHead" where
  "new_head command =
     \<lparr>rq_Version = protoVersionNumber, rq_PKTType = pktTypeCmdRequest, rq_Res1 = 0, rq_Res2 = 0, rq_Command = command,
      rq_Attempt = 0, rq_Sequence = 0, rq_Pad1 = 0, rq_Pad2 = 0\<rparr>"

definition NewSourcesPacket :: RequestPacket where
  "NewSourcesPacket = RequestSources (new_head reqNSources)"

definition NewTrackingPacket :: RequestPacket where
  "NewTrackingPacket = RequestTracking (new_head reqTracking)"

definition NewSourceStatsPacket :: "i32 \<Rightarrow> RequestPacket" where
  "NewSourceStatsPacket sourceID = RequestSourceStats (new_head reqSourceStats) sourceID 0"

definition NewSourceDataPacket :: "i32 \<Rightarrow> RequestPacket" where
  "NewSourceDataPacket sourceID = RequestSourceData (new_head reqSourceData) sourceID 0"

definition NewNTPDataPacket :: "netIP \<Rightarrow> RequestPacket" where
  "NewNTPDataPacket ip = RequestNTPData (new_head reqNTPData) (newIPAddr ip) 0"

definition NewServerStatsPacket :: RequestPacket where
  "NewServerStatsPacket = RequestServerStats (new_head reqServerStats)"

section \<open>Replies\<close>

record ReplyHead =
  rh_Version :: u8
  rh_PKTType :: u8
  rh_Res1 :: u8
  rh_Res2 :: u8
  rh_Command :: u16
  rh_Reply :: u16
  rh_Status :: u16
  rh_Pad1 :: u16
  rh_Pad2 :: u16
  rh_Pad3 :: u16
  rh_Sequence :: u32
  rh_Pad4 :: u32
  rh_Pad5 :: u32

definition ReplyHead_codec :: "ReplyHead codec" where
  "ReplyHead_codec = cmap
    (\<lambda>(x0, x1, x2, x3, x4, x5, x6, x7, x8, x9, x10, x11, x12). \<lparr>rh_Version = x0, rh_PKTType = x1, rh_Res1 = x2, rh_Res2 = x3, rh_Command = x4, rh_Reply =
      x5, rh_Status = x6, rh_Pad1 = x7, rh_Pad2 = x8, rh_Pad3 = x9, rh_Sequence = x10, rh_Pad4 =
      x11, rh_Pad5 = x12\<rparr>)
    (\<lambda>p. (rh_Version p, rh_PKTType p, rh_Res1 p, rh_Res2 p, rh_Command p, rh_Reply p, rh_Status p,
      rh_Pad1 p, rh_Pad2 p, rh_Pad3 p, rh_Sequence p, rh_Pad4 p, rh_Pad5 p))
    (cpair cu8 (cpair cu8 (cpair cu8 (cpair cu8 (cpair cu16 (cpair cu16 (cpair cu16 (cpair cu16
      (cpair cu16 (cpair cu16 (cpair cu32 (cpair cu32 cu32))))))))))))"

lemma wf_ReplyHead [wf_codecs]: "wf_codec ReplyHead_codec"
  unfolding ReplyHead_codec_def by (rule wf_cmap) (auto intro!: wf_codecs)

lemma csize_ReplyHead [simp]: "csize ReplyHead_codec = 28"
  by (simp add: ReplyHead_codec_def)

record replySourceDataContent =
  rsd_IPAddr :: ipAddr
  rsd_Poll :: i16
  rsd_Stratum :: u16
  rsd_State :: u16
  rsd_Mode :: u16
  rsd_Flags :: u16
  rsd_Reachability :: u16
  rsd_SinceSample :: u32
  rsd_OrigLatestMeas :: chronyFloat
  rsd_LatestMeas :: chronyFloat
  rsd_LatestMeasErr :: chronyFloat

definition replySourceDataContent_codec :: "replySourceDataContent codec" where
  "replySourceDataContent_codec = cmap
    (\<lambda>(x0, x1, x2, x3, x4, x5, x6, x7, x8, x9, x10). \<lparr>rsd_IPAddr = x0, rsd_Poll = x1, rsd_Stratum = x2, rsd_State = x3, rsd_Mode = x4, rsd_Flags =
      x5, rsd_Reachability = x6, rsd_SinceSample = x7, rsd_OrigLatestMeas = x8, rsd_LatestMeas =
      x9, rsd_LatestMeasErr = x10\<rparr>)
    (\<lambda>p. (rsd_IPAddr p, rsd_Poll p, rsd_Stratum p, rsd_State p, rsd_Mode p, rsd_Flags p,
      rsd_Reachability p, rsd_SinceSample p, rsd_OrigLatestMeas p, rsd_LatestMeas p,
      rsd_LatestMeasErr p))
    (cpair ipAddr_codec (cpair cu16 (cpair cu16 (cpair cu16 (cpair cu16 (cpair cu16 (cpair cu16
      (cpair cu32 (cpair cu32 (cpair cu32 cu32))))))))))"

lemma wf_replySourceDataContent [wf_codecs]: "wf_codec replySourceDataContent_codec"
  unfolding replySourceDataContent_codec_def by (rule wf_cmap) (auto intro!: wf_codecs)

lemma csize_replySourceDataContent [simp]: "csize replySourceDataContent_codec = 48"
  by (simp add: replySourceDataContent_codec_def)

record SourceData =
  sd_IPAddr :: netIP
  sd_Poll :: i16
  sd_Stratum :: u16
  sd_State :: u16
  sd_Mode :: u16
  sd_Flags :: u16
  sd_Reachability :: u16
  sd_SinceSample :: u32
  sd_OrigLatestMeas :: f64
  sd_LatestMeas :: f64
  sd_LatestMeasErr :: f64

definition newSourceData :: "replySourceDataContent \<Rightarrow> SourceData" where
  "newSourceData r =
     \<lparr>sd_IPAddr = ToNetIP (rsd_IPAddr r), sd_Poll = rsd_Poll r, sd_Stratum = rsd_Stratum r,
      sd_State = rsd_State r, sd_Mode = rsd_Mode r, sd_Flags = rsd_Flags r, sd_Reachability =
      rsd_Reachability r, sd_SinceSample = rsd_SinceSample r, sd_OrigLatestMeas = ToFloat
      (rsd_OrigLatestMeas r), sd_LatestMeas = ToFloat (rsd_LatestMeas r), sd_LatestMeasErr =
      ToFloat (rsd_LatestMeasErr r)\<rparr>"

record replyTrackingContent =
  rtr_RefID :: u32
  rtr_IPAddr :: ipAddr
  rtr_Stratum :: u16
  rtr_LeapStatus :: u16
  rtr_RefTime :: timeSpec
  rtr_CurrentCorrection :: chronyFloat
  rtr_LastOffset :: chronyFloat
  rtr_RMSOffset :: chronyFloat
  rtr_FreqPPM :: chronyFloat
  rtr_ResidFreqPPM :: chronyFloat
  rtr_SkewPPM :: chronyFloat
  rtr_RootDelay :: chronyFloat
  rtr_RootDispersion :: chronyFloat
  rtr_LastUpdateInterval :: chronyFloat

definition replyTrackingContent_codec :: "replyTrackingContent codec" where
  "replyTrackingContent_codec = cmap
    (\<lambda>(x0, x1, x2, x3, x4, x5, x6, x7, x8, x9, x10, x11, x12, x13). \<lparr>rtr_RefID = x0, rtr_IPAddr = x1, rtr_Stratum = x2, rtr_LeapStatus = x3, rtr_RefTime = x4,
      rtr_CurrentCorrection = x5, rtr_LastOffset = x6, rtr_RMSOffset = x7, rtr_FreqPPM = x8,
      rtr_ResidFreqPPM = x9, rtr_SkewPPM = x10, rtr_RootDelay = x11, rtr_RootDispersion = x12,
      rtr_LastUpdateInterval = x13\<rparr>)
    (\<lambda>p. (rtr_RefID p, rtr_IPAddr p, rtr_Stratum p, rtr_LeapStatus p, rtr_RefTime p,
      rtr_CurrentCorrection p, rtr_LastOffset p, rtr_RMSOffset p, rtr_FreqPPM p, rtr_ResidFreqPPM
      p, rtr_SkewPPM p, rtr_RootDelay p, rtr_RootDispersion p, rtr_LastUpdateInterval p))
    (cpair cu32 (cpair ipAddr_codec (cpair cu16 (cpair cu16 (cpair timeSpec_codec (cpair cu32
      (cpair cu32 (cpair cu32 (cpair cu32 (cpair cu32 (cpair cu32 (cpair cu32 (cpair cu32
      cu32)))))))))))))"

lemma wf_replyTrackingContent [wf_codecs]: "wf_codec replyTrackingContent_codec"
  unfolding replyTrackingContent_codec_def by (rule wf_cmap) (auto intro!: wf_codecs)

lemma csize_replyTrackingContent [simp]: "csize replyTrackingContent_codec = 76"
  by (simp add: replyTrackingContent_codec_def)

record Tracking =
  tr_RefID :: u32
  tr_IPAddr :: netIP
  tr_Stratum :: u16
  tr_LeapStatus :: u16
  tr_RefTime :: gotime
  tr_CurrentCorrection :: f64
  tr_LastOffset :: f64
  tr_RMSOffset :: f64
  tr_FreqPPM :: f64
  tr_ResidFreqPPM :: f64
  tr_SkewPPM :: f64
  tr_RootDelay :: f64
  tr_RootDispersion :: f64
  tr_LastUpdateInterval :: f64

definition newTracking :: "replyTrackingContent \<Rightarrow> Tracking" where
  "newTracking r =
     \<lparr>tr_RefID = rtr_RefID r, tr_IPAddr = ToNetIP (rtr_IPAddr r), tr_Stratum = rtr_Stratum r,
      tr_LeapStatus = rtr_LeapStatus r, tr_RefTime = ToTime (rtr_RefTime r), tr_CurrentCorrection
      = ToFloat (rtr_CurrentCorrection r), tr_LastOffset = ToFloat (rtr_LastOffset r),
      tr_RMSOffset = ToFloat (rtr_RMSOffset r), tr_FreqPPM = ToFloat (rtr_FreqPPM r),
      tr_ResidFreqPPM = ToFloat (rtr_ResidFreqPPM r), tr_SkewPPM = ToFloat (rtr_SkewPPM r),
      tr_RootDelay = ToFloat (rtr_RootDelay r), tr_RootDispersion = ToFloat (rtr_RootDispersion
      r), tr_LastUpdateInterval = ToFloat (rtr_LastUpdateInterval r)\<rparr>"

record replySourceStatsContent =
  rss_RefID :: u32
  rss_IPAddr :: ipAddr
  rss_NSamples :: u32
  rss_NRuns :: u32
  rss_SpanSeconds :: u32
  rss_StandardDeviation :: chronyFloat
  rss_ResidFreqPPM :: chronyFloat
  rss_SkewPPM :: chronyFloat
  rss_EstimatedOffset :: chronyFloat
  rss_EstimatedOffsetErr :: chronyFloat

definition replySourceStatsContent_codec :: "replySourceStatsContent codec" where
  "replySourceStatsContent_codec = cmap
    (\<lambda>(x0, x1, x2, x3, x4, x5, x6, x7, x8, x9). \<lparr>rss_RefID = x0, rss_IPAddr = x1, rss_NSamples = x2, rss_NRuns = x3, rss_SpanSeconds = x4,
      rss_StandardDeviation = x5, rss_ResidFreqPPM = x6, rss_SkewPPM = x7, rss_EstimatedOffset =
      x8, rss_EstimatedOffsetErr = x9\<rparr>)
    (\<lambda>p. (rss_RefID p, rss_IPAddr p, rss_NSamples p, rss_NRuns p, rss_SpanSeconds p,
      rss_StandardDeviation p, rss_ResidFreqPPM p, rss_SkewPPM p, rss_EstimatedOffset p,
      rss_EstimatedOffsetErr p))
    (cpair cu32 (cpair ipAddr_codec (cpair cu32 (cpair cu32 (cpair cu32 (cpair cu32 (cpair cu32
      (cpair cu32 (cpair cu32 cu32)))))))))"

lemma wf_replySourceStatsContent [wf_codecs]: "wf_codec replySourceStatsContent_codec"
  unfolding replySourceStatsContent_codec_def by (rule wf_cmap) (auto intro!: wf_codecs)

lemma csize_replySourceStatsContent [simp]: "csize replySourceStatsContent_codec = 56"
  by (simp add: replySourceStatsContent_codec_def)

record SourceStats =
  ss_RefID :: u32
  ss_IPAddr :: netIP
  ss_NSamples :: u32
  ss_NRuns :: u32
  ss_SpanSeconds :: u32
  ss_StandardDeviation :: f64
  ss_ResidFreqPPM :: f64
  ss_SkewPPM :: f64
  ss_EstimatedOffset :: f64
  ss_EstimatedOffsetErr :: f64

definition newSourceStats :: "replySourceStatsContent \<Rightarrow> SourceStats" where
  "newSourceStats r =
     \<lparr>ss_RefID = rss_RefID r, ss_IPAddr = ToNetIP (rss_IPAddr r), ss_NSamples = rss_NSamples r,
      ss_NRuns = rss_NRuns r, ss_SpanSeconds = rss_SpanSeconds r, ss_StandardDeviation = ToFloat
      (rss_StandardDeviation r), ss_ResidFreqPPM = ToFloat (rss_ResidFreqPPM r), ss_SkewPPM =
      ToFloat (rss_SkewPPM r), ss_EstimatedOffset = ToFloat (rss_EstimatedOffset r),
      ss_EstimatedOffsetErr = ToFloat (rss_EstimatedOffsetErr r)\<rparr>"

record replyNTPDataContent =
  rnd_RemoteAddr :: ipAddr
  rnd_LocalAddr :: ipAddr
  rnd_RemotePort :: u16
  rnd_Leap :: u8
  rnd_Version :: u8
  rnd_Mode :: u8
  rnd_Stratum :: u8
  rnd_Poll :: i8
  rnd_Precision :: i8
  rnd_RootDelay :: chronyFloat
  rnd_RootDispersion :: chronyFloat
  rnd_RefID :: u32
  rnd_RefTime :: timeSpec
  rnd_Offset :: chronyFloat
  rnd_PeerDelay :: chronyFloat
  rnd_PeerDispersion :: chronyFloat
  rnd_ResponseTime :: chronyFloat
  rnd_JitterAsymmetry :: chronyFloat
  rnd_Flags :: u16
  rnd_TXTssChar :: u8
  rnd_RXTssChar :: u8
  rnd_TotalTXCount :: u32
  rnd_TotalRXCount :: u32
  rnd_TotalValidCount :: u32
  rnd_Reserved :: "u32 list"

definition replyNTPDataContent_codec :: "replyNTPDataContent codec" where
  "replyNTPDataContent_codec = cmap
    (\<lambda>(x0, x1, x2, x3, x4, x5, x6, x7, x8, x9, x10, x11, x12, x13, x14, x15, x16, x17, x18, x19,
      x20, x21, x22, x23, x24). \<lparr>rnd_RemoteAddr = x0, rnd_LocalAddr = x1, rnd_RemotePort = x2, rnd_Leap = x3, rnd_Version =
      x4, rnd_Mode = x5, rnd_Stratum = x6, rnd_Poll = x7, rnd_Precision = x8, rnd_RootDelay = x9,
      rnd_RootDispersion = x10, rnd_RefID = x11, rnd_RefTime = x12, rnd_Offset = x13,
      rnd_PeerDelay = x14, rnd_PeerDispersion = x15, rnd_ResponseTime = x16, rnd_JitterAsymmetry =
      x17, rnd_Flags = x18, rnd_TXTssChar = x19, rnd_RXTssChar = x20, rnd_TotalTXCount = x21,
      rnd_TotalRXCount = x22, rnd_TotalValidCount = x23, rnd_Reserved = x24\<rparr>)
    (\<lambda>p. (rnd_RemoteAddr p, rnd_LocalAddr p, rnd_RemotePort p, rnd_Leap p, rnd_Version p, rnd_Mode p,
      rnd_Stratum p, rnd_Poll p, rnd_Precision p, rnd_RootDelay p, rnd_RootDispersion p, rnd_RefID
      p, rnd_RefTime p, rnd_Offset p, rnd_PeerDelay p, rnd_PeerDispersion p, rnd_ResponseTime p,
      rnd_JitterAsymmetry p, rnd_Flags p, rnd_TXTssChar p, rnd_RXTssChar p, rnd_TotalTXCount p,
      rnd_TotalRXCount p, rnd_TotalValidCount p, rnd_Reserved p))
    (cpair ipAddr_codec (cpair ipAddr_codec (cpair cu16 (cpair cu8 (cpair cu8 (cpair cu8 (cpair
      cu8 (cpair cu8 (cpair cu8 (cpair cu32 (cpair cu32 (cpair cu32 (cpair timeSpec_codec (cpair
      cu32 (cpair cu32 (cpair cu32 (cpair cu32 (cpair cu32 (cpair cu16 (cpair cu8 (cpair cu8
      (cpair cu32 (cpair cu32 (cpair cu32 ((carray 4 cu32))))))))))))))))))))))))))"

lemma wf_replyNTPDataContent [wf_codecs]: "wf_codec replyNTPDataContent_codec"
  unfolding replyNTPDataContent_codec_def by (rule wf_cmap) (auto intro!: wf_codecs)

lemma csize_replyNTPDataContent [simp]: "csize replyNTPDataContent_codec = 124"
  by (simp add: replyNTPDataContent_codec_def)

record NTPData =
  nd_RemoteAddr :: netIP
  nd_LocalAddr :: netIP
  nd_RemotePort :: u16
  nd_Leap :: u8
  nd_Version :: u8
  nd_Mode :: u8
  nd_Stratum :: u8
  nd_Poll :: i8
  nd_Precision :: i8
  nd_RootDelay :: f64
  nd_RootDispersion :: f64
  nd_RefID :: u32
  nd_RefTime :: gotime
  nd_Offset :: f64
  nd_PeerDelay :: f64
  nd_PeerDispersion :: f64
  nd_ResponseTime :: f64
  nd_JitterAsymmetry :: f64
  nd_Flags :: u16
  nd_TXTssChar :: u8
  nd_RXTssChar :: u8
  nd_TotalTXCount :: u32
  nd_TotalRXCount :: u32
  nd_TotalValidCount :: u32

definition newNTPData :: "replyNTPDataContent \<Rightarrow> NTPData" where
  "newNTPData r =
     \<lparr>nd_RemoteAddr = ToNetIP (rnd_RemoteAddr r), nd_LocalAddr = ToNetIP (rnd_LocalAddr r),
      nd_RemotePort = rnd_RemotePort r, nd_Leap = rnd_Leap r, nd_Version = rnd_Version r, nd_Mode
      = rnd_Mode r, nd_Stratum = rnd_Stratum r, nd_Poll = rnd_Poll r, nd_Precision = rnd_Precision
      r, nd_RootDelay = ToFloat (rnd_RootDelay r), nd_RootDispersion = ToFloat (rnd_RootDispersion
      r), nd_RefID = rnd_RefID r, nd_RefTime = ToTime (rnd_RefTime r), nd_Offset = ToFloat
      (rnd_Offset r), nd_PeerDelay = ToFloat (rnd_PeerDelay r), nd_PeerDispersion = ToFloat
      (rnd_PeerDispersion r), nd_ResponseTime = ToFloat (rnd_ResponseTime r), nd_JitterAsymmetry =
      ToFloat (rnd_JitterAsymmetry r), nd_Flags = rnd_Flags r, nd_TXTssChar = rnd_TXTssChar r,
      nd_RXTssChar = rnd_RXTssChar r, nd_TotalTXCount = rnd_TotalTXCount r, nd_TotalRXCount =
      rnd_TotalRXCount r, nd_TotalValidCount = rnd_TotalValidCount r\<rparr>"

record ServerStats =
  svs_NTPHits :: u32
  svs_CMDHits :: u32
  svs_NTPDrops :: u32
  svs_CMDDrops :: u32
  svs_LogDrops :: u32

definition ServerStats_codec :: "ServerStats codec" where
  "ServerStats_codec = cmap
    (\<lambda>(x0, x1, x2, x3, x4). \<lparr>svs_NTPHits = x0, svs_CMDHits = x1, svs_NTPDrops = x2, svs_CMDDrops = x3, svs_LogDrops = x4\<rparr>)
    (\<lambda>p. (svs_NTPHits p, svs_CMDHits p, svs_NTPDrops p, svs_CMDDrops p, svs_LogDrops p))
    (cpair cu32 (cpair cu32 (cpair cu32 (cpair cu32 cu32))))"

lemma wf_ServerStats [wf_codecs]: "wf_codec ServerStats_codec"
  unfolding ServerStats_codec_def by (rule wf_cmap) (auto intro!: wf_codecs)

lemma csize_ServerStats [simp]: "csize ServerStats_codec = 20"
  by (simp add: ServerStats_codec_def)

record ServerStats2 =
  sv2_NTPHits :: u32
  sv2_NKEHits :: u32
  sv2_CMDHits :: u32
  sv2_NTPDrops :: u32
  sv2_NKEDrops :: u32
  sv2_CMDDrops :: u32
  sv2_LogDrops :: u32
  sv2_NTPAuthHits :: u32

definition ServerStats2_codec :: "ServerStats2 codec" where
  "ServerStats2_codec = cmap
    (\<lambda>(x0, x1, x2, x3, x4, x5, x6, x7). \<lparr>sv2_NTPHits = x0, sv2_NKEHits = x1, sv2_CMDHits = x2, sv2_NTPDrops = x3, sv2_NKEDrops = x4,
      sv2_CMDDrops = x5, sv2_LogDrops = x6, sv2_NTPAuthHits = x7\<rparr>)
    (\<lambda>p. (sv2_NTPHits p, sv2_NKEHits p, sv2_CMDHits p, sv2_NTPDrops p, sv2_NKEDrops p, sv2_CMDDrops p,
      sv2_LogDrops p, sv2_NTPAuthHits p))
    (cpair cu32 (cpair cu32 (cpair cu32 (cpair cu32 (cpair cu32 (cpair cu32 (cpair cu32
      cu32)))))))"

lemma wf_ServerStats2 [wf_codecs]: "wf_codec ServerStats2_codec"
  unfolding ServerStats2_codec_def by (rule wf_cmap) (auto intro!: wf_codecs)

lemma csize_ServerStats2 [simp]: "csize ServerStats2_codec = 32"
  by (simp add: ServerStats2_codec_def)

datatype ResponsePacket =
    ReplySources ReplyHead int
  | ReplySourceData ReplyHead SourceData
  | ReplyTracking ReplyHead Tracking
  | ReplySourceStats ReplyHead SourceStats
  | ReplyServerStats ReplyHead ServerStats
  | ReplyNTPData ReplyHead NTPData
  | ReplyServerStats2 ReplyHead ServerStats2

fun reply_head :: "ResponsePacket \<Rightarrow> ReplyHead" where
  "reply_head (ReplySources h n) = h"
| "reply_head (ReplySourceData h d) = h"
| "reply_head (ReplyTracking h d) = h"
| "reply_head (ReplySourceStats h d) = h"
| "reply_head (ReplyServerStats h d) = h"
| "reply_head (ReplyNTPData h d) = h"
| "reply_head (ReplyServerStats2 h d) = h"

definition Reply_GetCommand :: "ResponsePacket \<Rightarrow> u16" where
  "Reply_GetCommand p = rh_Command (reply_head p)"

definition Reply_GetType :: "ResponsePacket \<Rightarrow> u8" where
  "Reply_GetType p = rh_PKTType (reply_head p)"

definition Reply_GetStatus :: "ResponsePacket \<Rightarrow> u16" where
  "Reply_GetStatus p = rh_Status (reply_head p)"

definition decodePacket :: "bytes \<Rightarrow> ResponsePacket res" where
  "decodePacket response =
     bind_res (binary_Read ReplyHead_codec response) (\<lambda>(head, r).
       if rh_Status head \<noteq> sttSuccess then Err (''got status '' @ ResponseStatus_String (rh_Status head))
       else if rh_Reply head = rpyNSources then
         bind_res (binary_Read cu32 r) (\<lambda>(data, _). Ok (ReplySources head (uint data)))
       else if rh_Reply head = rpySourceData then
         bind_res (binary_Read replySourceDataContent_codec r) (\<lambda>(data, _). Ok (ReplySourceData head (newSourceData data)))
       else if rh_Reply head = rpyTracking then
         bind_res (binary_Read replyTrackingContent_codec r) (\<lambda>(data, _). Ok (ReplyTracking head (newTracking data)))
       else if rh_Reply head = rpySourceStats then
         bind_res (binary_Read replySourceStatsContent_codec r) (\<lambda>(data, _). Ok (ReplySourceStats head (newSourceStats data)))
       else if rh_Reply head = rpyServerStats then
         bind_res (binary_Read ServerStats_codec r) (\<lambda>(data, _). Ok (ReplyServerStats head data))
       else if rh_Reply head = rpyNTPData then
         bind_res (binary_Read replyNTPDataContent_codec r) (\<lambda>(data, _). Ok (ReplyNTPData head (newNTPData data)))
       else if rh_Reply head = rpyServerStats2 then
         bind_res (binary_Read ServerStats2_codec r) (\<lambda>(data, _). Ok (ReplyServerStats2 head data))
       else Err ''not implemented reply type %d from %+v'')"

section \<open>The client\<close>

text \<open>
  An exchange: the sequence number, the request, whether the write fails and what the read returns. The new
  sequence number, the bytes written and the result.
\<close>

definition chrony_Communicate :: "u32 \<Rightarrow> unit res \<Rightarrow> bytes res \<Rightarrow> RequestPacket \<Rightarrow> u32 \<times> bytes \<times> ResponsePacket res" where
  "chrony_Communicate sequence written received packet =
     (let sequence = sequence + 1; packet = Request_SetSequence sequence packet
      in (sequence, request_bytes packet,
          bind_res written (\<lambda>_. bind_res received (\<lambda>response. decodePacket (take 1024 response)))))"

section \<open>Properties of decoding\<close>

interpretation chrony_u32: fixed_codec cu32 by unfold_locales (rule wf_codecs)
interpretation reply_head_codec: fixed_codec ReplyHead_codec by unfold_locales (rule wf_codecs)
interpretation source_data_codec: fixed_codec replySourceDataContent_codec by unfold_locales (rule wf_codecs)
interpretation tracking_codec: fixed_codec replyTrackingContent_codec by unfold_locales (rule wf_codecs)
interpretation source_stats_codec: fixed_codec replySourceStatsContent_codec by unfold_locales (rule wf_codecs)
interpretation ntp_data_codec: fixed_codec replyNTPDataContent_codec by unfold_locales (rule wf_codecs)
interpretation server_stats_codec: fixed_codec ServerStats_codec by unfold_locales (rule wf_codecs)
interpretation server_stats2_codec: fixed_codec ServerStats2_codec by unfold_locales (rule wf_codecs)
interpretation request_head_codec: fixed_codec RequestHead_codec by unfold_locales (rule wf_codecs)

lemma cok_heads [simp]: "cok ReplyHead_codec h" "cok RequestHead_codec q" "cok ServerStats_codec s" "cok ServerStats2_codec t"
  by (simp_all add: ReplyHead_codec_def RequestHead_codec_def ServerStats_codec_def ServerStats2_codec_def)

text \<open>The grammar of replies: what follows the head, with the reply type that announces it and what it stands for.\<close>

datatype content =
    CSources u32
  | CSourceData replySourceDataContent
  | CTracking replyTrackingContent
  | CSourceStats replySourceStatsContent
  | CServerStats ServerStats
  | CNTPData replyNTPDataContent
  | CServerStats2 ServerStats2

fun content_type :: "content \<Rightarrow> u16" where
  "content_type (CSources n) = 2"
| "content_type (CSourceData d) = 3"
| "content_type (CTracking d) = 5"
| "content_type (CSourceStats d) = 6"
| "content_type (CServerStats d) = 14"
| "content_type (CNTPData d) = 16"
| "content_type (CServerStats2 d) = 22"

fun content_bytes :: "content \<Rightarrow> bytes" where
  "content_bytes (CSources n) = binary_Write cu32 n"
| "content_bytes (CSourceData d) = binary_Write replySourceDataContent_codec d"
| "content_bytes (CTracking d) = binary_Write replyTrackingContent_codec d"
| "content_bytes (CSourceStats d) = binary_Write replySourceStatsContent_codec d"
| "content_bytes (CServerStats d) = binary_Write ServerStats_codec d"
| "content_bytes (CNTPData d) = binary_Write replyNTPDataContent_codec d"
| "content_bytes (CServerStats2 d) = binary_Write ServerStats2_codec d"

fun content_ok :: "content \<Rightarrow> bool" where
  "content_ok (CSourceData d) = cok replySourceDataContent_codec d"
| "content_ok (CTracking d) = cok replyTrackingContent_codec d"
| "content_ok (CSourceStats d) = cok replySourceStatsContent_codec d"
| "content_ok (CNTPData d) = cok replyNTPDataContent_codec d"
| "content_ok _ = True"

fun content_reply :: "ReplyHead \<Rightarrow> content \<Rightarrow> ResponsePacket" where
  "content_reply h (CSources n) = ReplySources h (uint n)"
| "content_reply h (CSourceData d) = ReplySourceData h (newSourceData d)"
| "content_reply h (CTracking d) = ReplyTracking h (newTracking d)"
| "content_reply h (CSourceStats d) = ReplySourceStats h (newSourceStats d)"
| "content_reply h (CServerStats d) = ReplyServerStats h d"
| "content_reply h (CNTPData d) = ReplyNTPData h (newNTPData d)"
| "content_reply h (CServerStats2 d) = ReplyServerStats2 h d"

lemma decodePacket_content:
  assumes "rh_Status h = 0" and "rh_Reply h = content_type c" and "content_ok c"
  shows "decodePacket (binary_Write ReplyHead_codec h @ content_bytes c @ rest) = Ok (content_reply h c)"
  using assms
  by (cases c) (simp_all add: decodePacket_def reply_head_codec.read_write chrony_u32.read_write
      source_data_codec.read_write tracking_codec.read_write source_stats_codec.read_write ntp_data_codec.read_write
      server_stats_codec.read_write server_stats2_codec.read_write)

lemma read_content:
  assumes "fixed_codec c" and "bind_res (binary_Read c r) (\<lambda>(d, _). Ok (f d)) = Ok p"
  shows "\<exists>d rest. r = binary_Write c d @ rest \<and> cok c d \<and> p = f d"
  using assms(2) fixed_codec.write_read [OF assms(1)] by (fastforce simp: bind_res_Ok_iff)

lemma decodePacket_OkD:
  assumes "decodePacket bs = Ok p"
  shows "\<exists>h c rest. bs = binary_Write ReplyHead_codec h @ content_bytes c @ rest \<and> rh_Status h = 0 \<and>
    rh_Reply h = content_type c \<and> content_ok c \<and> p = content_reply h c"
proof -
  obtain h r where h: "binary_Read ReplyHead_codec bs = Ok (h, r)" "rh_Status h = 0"
    using assms by (auto simp: decodePacket_def bind_res_Ok_iff split: if_splits)
  then have bs: "bs = binary_Write ReplyHead_codec h @ r" using reply_head_codec.write_read by metis
  have "\<exists>c rest. r = content_bytes c @ rest \<and> rh_Reply h = content_type c \<and> content_ok c \<and> p = content_reply h c"
    using assms h
    apply (simp add: decodePacket_def split: if_splits)
    subgoal by (drule read_content [OF chrony_u32.fixed_codec_axioms]) (metis content_bytes.simps(1) content_type.simps(1) content_ok.simps(5) content_reply.simps(1))
    subgoal by (drule read_content [OF source_data_codec.fixed_codec_axioms]) (metis content_bytes.simps(2) content_type.simps(2) content_ok.simps(1) content_reply.simps(2))
    subgoal by (drule read_content [OF tracking_codec.fixed_codec_axioms]) (metis content_bytes.simps(3) content_type.simps(3) content_ok.simps(2) content_reply.simps(3))
    subgoal by (drule read_content [OF source_stats_codec.fixed_codec_axioms]) (metis content_bytes.simps(4) content_type.simps(4) content_ok.simps(3) content_reply.simps(4))
    subgoal by (drule read_content [OF server_stats_codec.fixed_codec_axioms]) (metis content_bytes.simps(5) content_type.simps(5) content_ok.simps(6) content_reply.simps(5))
    subgoal by (drule read_content [OF ntp_data_codec.fixed_codec_axioms]) (metis content_bytes.simps(6) content_type.simps(6) content_ok.simps(4) content_reply.simps(6))
    subgoal by (drule read_content [OF server_stats2_codec.fixed_codec_axioms]) (metis content_bytes.simps(7) content_type.simps(7) content_ok.simps(7) content_reply.simps(7))
    done
  with bs h(2) show ?thesis by blast
qed


lemma binary_Read_no_panic: "binary_Read c r \<noteq> Inl Panic"
  by (simp add: binary_Read_def read_full_def)

lemma decodePacket_no_panic: "decodePacket bs \<noteq> Inl Panic"
  unfolding decodePacket_def by (auto simp: bind_res_panic_iff binary_Read_no_panic split: if_splits)

text \<open>
  No answer of the daemon makes the client panic: an exchange ends with a reply or an error, and the
  request on the wire carries the next sequence number, also when the counter wraps around.
\<close>
theorem chrony_Communicate_safe:
  assumes "written \<noteq> Inl Panic" and "received \<noteq> Inl Panic"
  shows "\<exists>buf out. chrony_Communicate n written received packet = (n + 1, buf, out) \<and> out \<noteq> Inl Panic \<and>
    (\<exists>q data. binary_Read RequestHead_codec buf = Ok (q, data) \<and> rq_Sequence q = n + 1 \<and>
       rq_Command q = Request_GetCommand packet)"
proof -
  have "bind_res written (\<lambda>_. bind_res received (\<lambda>response. decodePacket (take 1024 response))) \<noteq> Inl Panic"
    using assms decodePacket_no_panic by (cases written; cases received) auto
  moreover have "\<exists>rest. request_bytes (Request_SetSequence (n + 1) packet) =
      binary_Write RequestHead_codec ((chrony_request_head packet)\<lparr>rq_Sequence := n + 1\<rparr>) @ rest"
    by (cases packet) auto
  ultimately show ?thesis
    using request_head_codec.read_write
    by (fastforce simp: chrony_Communicate_def Let_def Request_GetCommand_def)
qed

section \<open>Properties of the helpers\<close>

lemma signed_take_bit_mod:
  fixes k :: int
  shows "signed_take_bit n k =
    (if k mod 2 ^ Suc n \<ge> 2 ^ n then k mod 2 ^ Suc n - 2 ^ Suc n else k mod 2 ^ Suc n)"
proof -
  define c where "c = k mod 2 ^ Suc n"
  have c: "0 \<le> c" "c < 2 ^ Suc n" by (simp_all add: c_def)
  have k: "signed_take_bit n k = signed_take_bit n c"
    by (simp add: signed_take_bit_eq_iff_take_bit_eq c_def take_bit_eq_mod)
  show ?thesis
  proof (cases "c \<ge> 2 ^ n")
    case True
    have "signed_take_bit n c = signed_take_bit n (c - 2 ^ Suc n)"
      by (simp add: signed_take_bit_eq_iff_take_bit_eq take_bit_eq_mod)
    also have "\<dots> = c - 2 ^ Suc n" using True c by (intro signed_take_bit_int_eq_self) simp_all
    finally show ?thesis using True k by (simp add: c_def)
  next
    case False
    have "- (2 ^ n) \<le> c" using c(1) by (rule order_trans [rotated]) simp
    then have "signed_take_bit n c = c" using False by (intro signed_take_bit_int_eq_self) simp_all
    with False k show ?thesis by (simp add: c_def)
  qed
qed

lemma f64_pow2_powi: "f64_pow2 e = 2 powi e"
  by (simp add: f64_pow2_def power_int_def field_simps)

text \<open>
  The 32-bit floats are decoded as the protocol defines them: \<open>2^(e - 25)\<close> times the coefficient, with a signed
  7-bit exponent and a signed 25-bit coefficient.
\<close>
theorem ToFloat_format:
  "ToFloat f = of_int (signed_take_bit 24 (uint f)) * 2 powi (signed_take_bit 6 (uint f div 2 ^ 25) - 25)"
proof -
  have x: "0 \<le> uint f" "uint f < 2 ^ 32" using uint_lt2p [of f] by simp_all
  then have "0 \<le> uint f div 2 ^ 25" "uint f div 2 ^ 25 < 2 ^ Suc 6" by (simp_all add: pos_imp_zdiv_nonneg_iff)
  then have "(uint f div 2 ^ 25) mod 2 ^ Suc 6 = uint f div 2 ^ 25" by (rule mod_pos_pos_trivial)
  then show ?thesis
    unfolding ToFloat_def Let_def signed_take_bit_mod f64_pow2_powi by simp
qed

text \<open>
  An address survives the conversion to chrony's form and back if it is an IPv4 address of four bytes or a
  proper IPv6 address.
\<close>
theorem newIPAddr_roundtrip:
  assumes "length ip = 4 \<or> length ip = 16 \<and> To4 ip = None"
  shows "ToNetIP (newIPAddr ip) = ip"
  using assms by (auto simp: ToNetIP_def newIPAddr_def To4_def)

theorem newIPAddr_roundtrip_witness: "ToNetIP (newIPAddr [10, 0, 0, 1]) = [10, 0, 0, 1]"
  using newIPAddr_roundtrip [of "[10, 0, 0, 1]"] by simp

text \<open>
  An IPv4 address in its 16-byte form, as \<open>net.ParseIP\<close> gives it, is sent as the address 0.0.0.0: the family says IPv4, but the
  first four bytes are those of the IPv6 prefix.
\<close>
theorem newIPAddr_mapped: "length a = 4 \<Longrightarrow> ToNetIP (newIPAddr (v4InV6Prefix @ a)) = [0, 0, 0, 0]"
  by (simp add: ToNetIP_def newIPAddr_def To4_def v4InV6Prefix_def numeral_eq_Suc)

theorem newIPAddr_mapped_witness: "ToNetIP (newIPAddr (v4InV6Prefix @ [10, 0, 0, 1])) = [0, 0, 0, 0]"
  using newIPAddr_mapped [of "[10, 0, 0, 1]"] by simp

theorem chrony_Communicate_safe_witness:
  "\<exists>buf out. chrony_Communicate 0xffffffff (Ok ()) (Ok [1, 2, 3]) NewTrackingPacket = (0, buf, out) \<and> out \<noteq> Inl Panic"
  using chrony_Communicate_safe [of "Ok ()" "Ok [1, 2, 3]" "0xffffffff" NewTrackingPacket] by auto

end
