(* ===== verification/NTP_Control.thy ===== *)
theory NTP_Control
  imports Go_Codec Go_Strings
begin

text \<open>
  \<open>ntp/control\<close>: the control messages of ntpd (mode 6). The status words and their bit fields, the
  key-value text of variables, the list of associations (\<open>packet.go\<close>), and the client that puts a response together
  from its fragments (\<open>client.go\<close>). What the connection delivers is an argument.
\<close>

section \<open>Status words\<close>

definition ControlMode :: int where "ControlMode = 6"
definition OpReadStatus :: u8 where [simp]: "OpReadStatus = 1"
definition OpReadVariables :: u8 where [simp]: "OpReadVariables = 2"

definition LeapDesc :: "string list" where
  "LeapDesc = [''none'', ''add_sec'', ''del_sec'', ''alarm'']"

definition ClockSourceDesc :: "string list" where
  "ClockSourceDesc = [''unspec'', ''pps'', ''lf_radio'', ''hf_radio'', ''uhf_radio'', ''local'', ''ntp'', ''other'',
     ''wristwatch'', ''telephone'']"

definition SystemEventDesc :: "string list" where
  "SystemEventDesc = [''unspecified'', ''freq_not_set'', ''freq_set'', ''spike_detect'', ''freq_mode'', ''clock_sync'',
     ''restart'', ''panic_stop'', ''no_system_peer'', ''leap_armed'', ''leap_disarmed'', ''leap_event'', ''clock_step'',
     ''kern'', ''TAI...'', ''stale leapsecond values'', ''clockhop'']"

definition PeerSelect :: "string list" where
  "PeerSelect = [''reject'', ''falsetick'', ''excess'', ''outlyer'', ''candidate'', ''backup'', ''sys.peer'', ''pps.peer'']"

definition SelCandidate :: u8 where [simp]: "SelCandidate = 4"
definition SelBackup :: u8 where [simp]: "SelBackup = 5"
definition SelSYSPeer :: u8 where [simp]: "SelSYSPeer = 6"
definition SelPPSPeer :: u8 where [simp]: "SelPPSPeer = 7"

definition FlashDescMap :: "(u16 \<times> string) list" where
  "FlashDescMap = [(0x0001, ''pkt_dup''), (0x0002, ''pkt_bogus''), (0x0004, ''pkt_unsync''), (0x0008, ''pkt_denied''),
     (0x0010, ''pkt_auth''), (0x0020, ''pkt_stratum''), (0x0040, ''pkt_header''), (0x0080, ''pkt_autokey''),
     (0x0100, ''pkt_crypto''), (0x0200, ''peer_stratum''), (0x0400, ''peer_dist''), (0x0800, ''peer_loop''),
     (0x1000, ''peer_unreach'')]"

text \<open>The order in which Go iterates over the map is an argument, a permutation of \<open>FlashDescMap\<close>.\<close>

definition ReadFlashStatusWord :: "(u16 \<times> string) list \<Rightarrow> u16 \<Rightarrow> string list" where
  "ReadFlashStatusWord order flash = map snd (filter (\<lambda>(mask, message). flash AND mask > 0) order)"

record SystemStatusWord =
  ssw_LI :: u8
  ssw_ClockSource :: u8
  ssw_SystemEventCounter :: u8
  ssw_SystemEventCode :: u8

definition SystemStatusWord_Word :: "SystemStatusWord \<Rightarrow> u16" where
  "SystemStatusWord_Word ssw =
     push_bit 14 (ucast (ssw_LI ssw)) OR push_bit 8 (ucast (ssw_ClockSource ssw)) OR
     push_bit 4 (ucast (ssw_SystemEventCounter ssw)) OR ucast (ssw_SystemEventCode ssw)"

definition ReadSystemStatusWord :: "u16 \<Rightarrow> SystemStatusWord" where
  "ReadSystemStatusWord b =
     \<lparr>ssw_LI = ucast (drop_bit 14 (b AND 0xc000)), ssw_ClockSource = ucast (drop_bit 8 (b AND 0x3f00)),
      ssw_SystemEventCounter = ucast (drop_bit 4 (b AND 0xf0)), ssw_SystemEventCode = ucast (b AND 0xf)\<rparr>"

record PeerStatus =
  ps_Broadcast :: bool
  ps_Reachable :: bool
  ps_AuthEnabled :: bool
  ps_AuthOK :: bool
  ps_Configured :: bool

definition PeerStatus_Byte :: "PeerStatus \<Rightarrow> u8" where
  "PeerStatus_Byte ps =
     (if ps_Configured ps then 0x10 else 0) OR (if ps_AuthOK ps then 0x8 else 0) OR
     (if ps_AuthEnabled ps then 0x4 else 0) OR (if ps_Reachable ps then 0x2 else 0) OR
     (if ps_Broadcast ps then 0x1 else 0)"

definition ReadPeerStatus :: "u8 \<Rightarrow> PeerStatus" where
  "ReadPeerStatus b =
     \<lparr>ps_Broadcast = b AND 0x1 \<noteq> 0, ps_Reachable = b AND 0x2 \<noteq> 0, ps_AuthEnabled = b AND 0x4 \<noteq> 0,
      ps_AuthOK = b AND 0x8 \<noteq> 0, ps_Configured = b AND 0x10 \<noteq> 0\<rparr>"

record PeerStatusWord =
  psw_PeerStatus :: PeerStatus
  psw_PeerSelection :: u8
  psw_PeerEventCounter :: u8
  psw_PeerEventCode :: u8

definition PeerStatusWord_Word :: "PeerStatusWord \<Rightarrow> u16" where
  "PeerStatusWord_Word psw =
     push_bit 11 (ucast (PeerStatus_Byte (psw_PeerStatus psw))) OR push_bit 8 (ucast (psw_PeerSelection psw)) OR
     push_bit 4 (ucast (psw_PeerEventCounter psw)) OR ucast (psw_PeerEventCode psw)"

definition ReadPeerStatusWord :: "u16 \<Rightarrow> PeerStatusWord" where
  "ReadPeerStatusWord b =
     \<lparr>psw_PeerStatus = ReadPeerStatus (ucast (drop_bit 11 (b AND 0xf800))),
      psw_PeerSelection = ucast (drop_bit 8 (b AND 0x700)),
      psw_PeerEventCounter = ucast (drop_bit 4 (b AND 0xf0)), psw_PeerEventCode = ucast (b AND 0xf)\<rparr>"

section \<open>Messages\<close>

record NTPControlMsgHead =
  ch_VnMode :: u8
  ch_REMOp :: u8
  ch_Sequence :: u16
  ch_Status :: u16
  ch_AssociationID :: u16
  ch_Offset :: u16
  ch_Count :: u16

definition NTPControlMsgHead_codec :: "NTPControlMsgHead codec" where
  "NTPControlMsgHead_codec = cmap
     (\<lambda>(a, b, c, d, e, f, g). \<lparr>ch_VnMode = a, ch_REMOp = b, ch_Sequence = c, ch_Status = d, ch_AssociationID = e,
        ch_Offset = f, ch_Count = g\<rparr>)
     (\<lambda>h. (ch_VnMode h, ch_REMOp h, ch_Sequence h, ch_Status h, ch_AssociationID h, ch_Offset h, ch_Count h))
     (cpair cu8 (cpair cu8 (cpair cu16 (cpair cu16 (cpair cu16 (cpair cu16 cu16))))))"

lemma wf_NTPControlMsgHead [wf_codecs]: "wf_codec NTPControlMsgHead_codec"
  unfolding NTPControlMsgHead_codec_def by (rule wf_cmap) (auto intro!: wf_codecs)

lemma NTPControlMsgHead_codec_simps [simp]:
  "csize NTPControlMsgHead_codec = 12" "cok NTPControlMsgHead_codec h"
  by (simp_all add: NTPControlMsgHead_codec_def)

interpretation control_head: fixed_codec NTPControlMsgHead_codec
  by unfold_locales (rule wf_codecs)

record NTPControlMsg =
  cm_Head :: NTPControlMsgHead
  cm_Data :: bytes

definition MakeVnMode :: "int \<Rightarrow> int \<Rightarrow> u8" where
  "MakeVnMode version mode = push_bit 3 (word_of_int version) OR word_of_int mode"

definition MakeREMOp :: "bool \<Rightarrow> bool \<Rightarrow> bool \<Rightarrow> int \<Rightarrow> u8" where
  "MakeREMOp response err has_more opcode =
     (if response then 0x80 else 0) OR (if err then 0x40 else 0) OR (if has_more then 0x20 else 0) OR word_of_int opcode"

definition GetVersion :: "NTPControlMsgHead \<Rightarrow> int" where
  "GetVersion n = uint (drop_bit 3 (ch_VnMode n AND 0x38))"

definition GetMode :: "NTPControlMsgHead \<Rightarrow> int" where
  "GetMode n = uint (ch_VnMode n AND 0x7)"

definition IsResponse :: "NTPControlMsgHead \<Rightarrow> bool" where
  "IsResponse n \<longleftrightarrow> ch_REMOp n AND 0x80 \<noteq> 0"

definition HasError :: "NTPControlMsgHead \<Rightarrow> bool" where
  "HasError n \<longleftrightarrow> ch_REMOp n AND 0x40 \<noteq> 0"

definition HasMore :: "NTPControlMsgHead \<Rightarrow> bool" where
  "HasMore n \<longleftrightarrow> ch_REMOp n AND 0x20 \<noteq> 0"

definition GetOperation :: "NTPControlMsgHead \<Rightarrow> u8" where
  "GetOperation n = ch_REMOp n AND 0x1f"

definition GetSystemStatus :: "NTPControlMsg \<Rightarrow> SystemStatusWord res" where
  "GetSystemStatus n =
     (if GetOperation (cm_Head n) \<noteq> OpReadStatus then Err ''no System Status Word supported for operation=%d''
      else Ok (ReadSystemStatusWord (ch_Status (cm_Head n))))"

definition GetPeerStatus :: "NTPControlMsg \<Rightarrow> PeerStatusWord res" where
  "GetPeerStatus n =
     (if GetOperation (cm_Head n) \<noteq> OpReadVariables then Err ''no Peer Status Word supported for operation=%d''
      else Ok (ReadPeerStatusWord (ch_Status (cm_Head n))))"

text \<open>The loop over the associations, each two 16-bit words, into a map of peers.\<close>

fun read_associations :: "nat \<Rightarrow> nat \<Rightarrow> bytes \<Rightarrow> (u16 \<rightharpoonup> PeerStatusWord) \<Rightarrow> (u16 \<rightharpoonup> PeerStatusWord) res" where
  "read_associations i 0 data result = Ok result"
| "read_associations i (Suc n) data result =
     bind_res (slice data (i * 4) (i * 4 + 4)) (\<lambda>assoc.
       let pid = push_bit 8 (ucast (assoc ! 0)) OR ucast (assoc ! 1);
           peerStatus = push_bit 8 (ucast (assoc ! 2)) OR ucast (assoc ! 3)
       in read_associations (Suc i) n data (result(pid \<mapsto> ReadPeerStatusWord peerStatus)))"

definition GetAssociations :: "NTPControlMsg \<Rightarrow> (u16 \<rightharpoonup> PeerStatusWord) res" where
  "GetAssociations n =
     (if GetOperation (cm_Head n) \<noteq> OpReadStatus then Err ''no peer list supported for operation=%d''
      else read_associations 0 (unat (ch_Count (cm_Head n) div 4)) (cm_Data n) Map.empty)"

definition is_quote :: "char \<Rightarrow> bool" where
  "is_quote c \<longleftrightarrow> c = CHR 0x22"

text \<open>The pairs that \<open>NormalizeData\<close> stores, in order; a later one overwrites an earlier one of the same key.\<close>

definition normalize_pair :: "string \<Rightarrow> (string \<times> string) option" where
  "normalize_pair pair =
     (case strings_Split CHR ''='' pair of
        [k, v] \<Rightarrow> Some (TrimSpace k, TrimSpace (trim_with is_quote v))
      | _ \<Rightarrow> None)"

definition NormalizeData :: "bytes \<Rightarrow> (string \<rightharpoonup> string) res" where
  "NormalizeData data =
     (let pairs = List.map_filter normalize_pair (strings_Split CHR '','' (bytes_str data)) in
      if pairs = [] then Err ''Malformed packet, no k=v pairs decoded'' else Ok (map_of (rev pairs)))"

definition GetAssociationInfo :: "NTPControlMsg \<Rightarrow> (string \<rightharpoonup> string) res" where
  "GetAssociationInfo n =
     (if GetOperation (cm_Head n) \<noteq> OpReadVariables then Err ''no variables supported for operation=%d''
      else NormalizeData (cm_Data n))"

section \<open>The client\<close>

text \<open>
  One response packet, read into a buffer of 1024 bytes: the number of bytes read is not looked at. The bound \<open>12 + head.Count\<close> is
  computed in 16 bits.
\<close>

definition response_size :: nat where [simp]: "response_size = 1024"

definition read_response :: "bytes \<Rightarrow> (NTPControlMsgHead \<times> bytes) res" where
  "read_response datagram =
     (let response = take response_size (datagram @ replicate response_size 0) in
      bind_res (slice response 0 12) (\<lambda>r.
      bind_res (binary_Read NTPControlMsgHead_codec r) (\<lambda>(head, _).
      bind_res (slice response 12 (unat (12 + ch_Count head))) (\<lambda>data. Ok (head, data)))))"

text \<open>
  The loop over the packets of a response. The list holds what the reads return; if it ends before a packet
  without the more flag, the client is still reading: None.
\<close>

fun read_responses :: "bytes res list \<Rightarrow> bytes \<Rightarrow> NTPControlMsg res option" where
  "read_responses [] resultData = None"
| "read_responses (rd # rds) resultData =
     (case bind_res rd read_response of
        Inl e \<Rightarrow> Some (Inl e)
      | Inr (head, data) \<Rightarrow>
          if \<not> HasMore head then Some (Ok \<lparr>cm_Head = head, cm_Data = resultData @ data\<rparr>)
          else read_responses rds (resultData @ data))"

text \<open>The sequence number of the client, the bytes written and the result.\<close>

definition CommunicateWithData :: "u16 \<Rightarrow> unit res \<Rightarrow> bytes res list \<Rightarrow> NTPControlMsgHead \<Rightarrow> bytes \<Rightarrow>
    u16 \<times> bytes \<times> NTPControlMsg res option" where
  "CommunicateWithData sequence written reads packet data =
     (let packet = packet\<lparr>ch_Sequence := sequence\<rparr>;
          packet = (if length data > 0 then packet\<lparr>ch_Count := word_of_nat (length data)\<rparr> else packet);
          buf = binary_Write NTPControlMsgHead_codec packet @ data
      in (sequence + 1, buf,
          case written of Inl e \<Rightarrow> Some (Inl e) | Inr _ \<Rightarrow> read_responses reads []))"

definition control_Communicate :: "u16 \<Rightarrow> unit res \<Rightarrow> bytes res list \<Rightarrow> NTPControlMsgHead \<Rightarrow>
    u16 \<times> bytes \<times> NTPControlMsg res option" where
  "control_Communicate sequence written reads packet = CommunicateWithData sequence written reads packet []"

section \<open>Properties of status words\<close>

lemma field_masks:
  "(0xc000 :: u16) = push_bit 14 (mask 2)" "(0x3f00 :: u16) = push_bit 8 (mask 6)" "(0xf0 :: u16) = push_bit 4 (mask 4)"
  "(0xf :: u16) = mask 4" "(0xf800 :: u16) = push_bit 11 (mask 5)" "(0x700 :: u16) = push_bit 8 (mask 3)"
  by (simp_all add: mask_eq_exp_minus_1)

lemma and_field: "drop_bit k (b AND push_bit k (mask m)) = take_bit m (drop_bit k (b :: u16))"
  by (rule bit_word_eqI) (auto simp: bit_simps dest: bit_imp_le_length)

lemma and_low: "b AND mask m = take_bit m (b :: u16)"
  by (simp add: take_bit_eq_mask)

lemma bit_ucast_byte:
  "bit (ucast (w :: u8) :: u16) n \<longleftrightarrow> n < 8 \<and> bit w n"
  "bit (ucast (v :: u16) :: u8) n \<longleftrightarrow> n < 8 \<and> bit v n"
  by (auto simp: bit_simps dest: bit_imp_le_length)

lemma bit_field: "bit (push_bit k (ucast (ucast (take_bit m (drop_bit k (b :: u16))) :: u8) :: u16)) n \<longleftrightarrow>
    k \<le> n \<and> n < k + m \<and> n < k + 8 \<and> bit b n"
  by (auto simp: bit_push_bit_iff bit_ucast_byte bit_take_bit_iff bit_drop_bit_eq dest: bit_imp_le_length)

lemmas bit_field_simps = and_field and_low bit_or_iff bit_field bit_ucast_byte bit_take_bit_iff bit_drop_bit_eq

lemma flag_bits:
  "b AND 0x10 \<noteq> 0 \<longleftrightarrow> bit (b :: u8) 4" "b AND 0x8 \<noteq> 0 \<longleftrightarrow> bit b 3" "b AND 0x4 \<noteq> 0 \<longleftrightarrow> bit b 2"
  "b AND 0x2 \<noteq> 0 \<longleftrightarrow> bit b 1" "b AND 0x1 \<noteq> 0 \<longleftrightarrow> bit b 0"
  using and_exp_eq_0_iff_not_bit [of b 4] and_exp_eq_0_iff_not_bit [of b 3] and_exp_eq_0_iff_not_bit [of b 2]
    and_exp_eq_0_iff_not_bit [of b 1] and_exp_eq_0_iff_not_bit [of b 0] by simp_all

lemma bit_exp_u8: "k < 8 \<Longrightarrow> bit (2 ^ k :: u8) n \<longleftrightarrow> n = k"
  by (auto simp: bit_exp_iff)

lemma bit_flag:
  "bit (0x10 :: u8) n \<longleftrightarrow> n = 4" "bit (0x8 :: u8) n \<longleftrightarrow> n = 3" "bit (0x4 :: u8) n \<longleftrightarrow> n = 2" "bit (0x2 :: u8) n \<longleftrightarrow> n = 1"
  "bit (0x1 :: u8) n \<longleftrightarrow> n = 0"
  using bit_exp_u8 [of 4 n] bit_exp_u8 [of 3 n] bit_exp_u8 [of 2 n] bit_exp_u8 [of 1 n] bit_exp_u8 [of 0 n]
  by simp_all

lemma PeerStatus_Byte_bit: "bit (PeerStatus_Byte ps) n \<longleftrightarrow>
    n = 0 \<and> ps_Broadcast ps \<or> n = 1 \<and> ps_Reachable ps \<or> n = 2 \<and> ps_AuthEnabled ps \<or> n = 3 \<and> ps_AuthOK ps \<or>
    n = 4 \<and> ps_Configured ps"
  unfolding PeerStatus_Byte_def by (auto simp only: bit_or_iff bit_flag bit_0_eq split: if_splits)

lemma PeerStatus_Byte_Read: "PeerStatus_Byte (ReadPeerStatus b) = take_bit 5 b"
proof (rule bit_word_eqI)
  fix n
  have "n < 5 \<longleftrightarrow> n = 0 \<or> n = 1 \<or> n = 2 \<or> n = 3 \<or> n = (4 :: nat)" by auto
  then show "bit (PeerStatus_Byte (ReadPeerStatus b)) n = bit (take_bit 5 b) n"
    unfolding PeerStatus_Byte_bit ReadPeerStatus_def flag_bits bit_take_bit_iff by auto
qed

lemma SystemStatusWord_Word_Read: "SystemStatusWord_Word (ReadSystemStatusWord b) = b"
proof (rule bit_word_eqI)
  fix n assume "n < LENGTH(16)"
  then have "n < 16" by simp
  then show "bit (SystemStatusWord_Word (ReadSystemStatusWord b)) n = bit b n"
    unfolding SystemStatusWord_Word_def ReadSystemStatusWord_def field_masks
    by (simp only: bit_field_simps SystemStatusWord.simps) auto
qed

lemma PeerStatusWord_Word_Read: "PeerStatusWord_Word (ReadPeerStatusWord b) = b"
proof (rule bit_word_eqI)
  fix n assume "n < LENGTH(16)"
  then have "n < 16" by simp
  then show "bit (PeerStatusWord_Word (ReadPeerStatusWord b)) n = bit b n"
    unfolding PeerStatusWord_Word_def ReadPeerStatusWord_def field_masks
    by (simp only: bit_field_simps PeerStatusWord.simps PeerStatus_Byte_Read) (auto simp: bit_push_bit_iff bit_simps)
qed

text \<open>
  Decoding a status word, of the system or of a peer, loses nothing: every one of the 65536 words is encoded back to itself.
\<close>
theorem status_words_roundtrip:
  "SystemStatusWord_Word (ReadSystemStatusWord b) = b \<and> PeerStatusWord_Word (ReadPeerStatusWord b) = b"
  by (simp add: SystemStatusWord_Word_Read PeerStatusWord_Word_Read)

section \<open>Properties of the client\<close>

definition packet_head :: "bytes \<Rightarrow> NTPControlMsgHead" where
  "packet_head datagram = cdec NTPControlMsgHead_codec (take 12 (datagram @ replicate 12 0))"

lemma unat_12_plus: "unat (12 + c :: u16) = (unat c + 12) mod 65536"
proof -
  have "unat (12 + c) = (unat (12 :: u16) + unat c) mod 2 ^ LENGTH(16)" by (rule unat_word_ariths(1))
  moreover have "unat (12 :: u16) = 12" "(2 :: nat) ^ LENGTH(16) = 65536" by simp_all
  ultimately show ?thesis by (simp only: add.commute)
qed

lemma count_bound: "12 \<le> unat (12 + c :: u16) \<and> unat (12 + c) \<le> 1024 \<longleftrightarrow> unat c \<le> 1012"
proof -
  have c: "unat c < 65536" using unsigned_less [of c] by simp
  show ?thesis
  proof (cases "unat c + 12 < 65536")
    case True
    then show ?thesis by (simp add: unat_12_plus)
  next
    case False
    then have "unat (12 + c) = unat c + 12 - 65536" using c by (simp add: unat_12_plus le_mod_geq)
    with False c show ?thesis by simp
  qed
qed

lemma read_response_eq:
  "read_response datagram =
     (let h = packet_head datagram; response = take 1024 (datagram @ replicate 1024 0) in
      if unat (ch_Count h) \<le> 1012 then Ok (h, take (unat (ch_Count h)) (drop 12 response)) else Inl Panic)"
proof -
  let ?r = "take 1024 (datagram @ replicate 1024 0)"
  let ?h = "packet_head datagram"
  let ?n = "unat (12 + ch_Count ?h)"
  have l: "length ?r = 1024" by simp
  define x where "x = take 12 (datagram @ replicate 12 0)"
  have x: "take 12 ?r = x" by (cases "length datagram < 12") (simp_all add: x_def)
  have h: "?h = cdec NTPControlMsgHead_codec x" by (simp only: packet_head_def x_def)
  have "length x = 12" by (simp add: x_def)
  then have "binary_Read NTPControlMsgHead_codec (take 12 ?r) = Ok (?h, [])"
    unfolding x using h by (simp add: binary_Read_Ok)
  then have "read_response datagram = bind_res (slice ?r 12 ?n) (\<lambda>data. Ok (?h, data))"
    using l unfolding read_response_def Let_def by simp
  moreover have "12 \<le> ?n \<and> ?n \<le> 1024 \<longleftrightarrow> unat (ch_Count ?h) \<le> 1012"
    by (rule count_bound)
  moreover have "unat (ch_Count ?h) \<le> 1012 \<Longrightarrow> ?n = 12 + unat (ch_Count ?h)" by (simp add: unat_12_plus)
  ultimately show ?thesis using l by (auto simp: slice_def Let_def drop_take)
qed

text \<open>
  C39: A response packet makes the client panic exactly if it announces more than 1012 bytes of data, the
  room its buffer has behind the header, whether or not the sum with the header's length wraps around; every other packet, however
  short, is accepted.
\<close>
theorem read_response_panics:
  "read_response datagram = Inl Panic \<longleftrightarrow> 1012 < unat (ch_Count (packet_head datagram))"
  by (auto simp: read_response_eq Let_def)

text \<open>A fragment as a server sends it.\<close>

definition fragment :: "NTPControlMsgHead \<times> bytes \<Rightarrow> bytes" where
  "fragment f = binary_Write NTPControlMsgHead_codec (fst f) @ snd f"

definition fragment_ok :: "NTPControlMsgHead \<times> bytes \<Rightarrow> bool" where
  "fragment_ok f \<longleftrightarrow> length (snd f) \<le> 1012 \<and> unat (ch_Count (fst f)) = length (snd f)"

lemma read_fragment: "fragment_ok f \<Longrightarrow> read_response (fragment f) = Ok f"
proof -
  assume f: "fragment_ok f"
  have l: "length (binary_Write NTPControlMsgHead_codec (fst f)) = 12" using control_head.length_write by simp
  have "packet_head (fragment f) = fst f"
    using l wf_codecD(2) [OF wf_NTPControlMsgHead, of "fst f"]
    by (simp add: packet_head_def fragment_def binary_Write_def)
  moreover have "drop 12 (take 1024 (fragment f @ replicate 1024 0)) = take 1012 (snd f @ replicate 1024 0)"
    using l by (simp add: fragment_def drop_take)
  ultimately show ?thesis
    using f by (simp add: read_response_eq fragment_ok_def Let_def min_def)
qed

lemma read_responses_fragments:
  assumes "list_all fragment_ok fs" and "fragment_ok f" and "list_all (\<lambda>f. HasMore (fst f)) fs" and "\<not> HasMore (fst f)"
  shows "read_responses (map (Ok \<circ> fragment) (fs @ [f]) @ rest) acc =
    Some (Ok \<lparr>cm_Head = fst f, cm_Data = acc @ concat (map snd (fs @ [f]))\<rparr>)"
  using assms(1,3)
proof (induction fs arbitrary: acc)
  case Nil
  then show ?case using assms(2,4) by (cases f) (simp add: read_fragment)
next
  case (Cons g gs)
  then show ?case by (auto simp: read_fragment split: prod.split)
qed

text \<open>
  C38: A response that the server splits over several packets comes back as one message: the data of all
  packets in the order of arrival, under the head of the last one; the request on the wire carries the client's sequence number and the length
  of its data, and the sequence number is bumped.
\<close>
theorem CommunicateWithData_reassembles:
  assumes "list_all fragment_ok (fs @ [f])" and "list_all (\<lambda>f. HasMore (fst f)) fs" and "\<not> HasMore (fst f)"
  shows "\<exists>buf packet'. CommunicateWithData seqno (Ok ()) (map (Ok \<circ> fragment) (fs @ [f]) @ rest) packet data =
      (seqno + 1, buf, Some (Ok \<lparr>cm_Head = fst f, cm_Data = concat (map snd (fs @ [f]))\<rparr>)) \<and>
    binary_Read NTPControlMsgHead_codec buf = Ok (packet', data) \<and> ch_Sequence packet' = seqno \<and>
    (data \<noteq> [] \<longrightarrow> ch_Count packet' = word_of_nat (length data))"
proof -
  have "read_responses (map (Ok \<circ> fragment) (fs @ [f]) @ rest) [] =
      Some (Ok \<lparr>cm_Head = fst f, cm_Data = concat (map snd (fs @ [f]))\<rparr>)"
    using read_responses_fragments [of fs f rest "[]"] assms by simp
  moreover have "binary_Read NTPControlMsgHead_codec (binary_Write NTPControlMsgHead_codec h) = Ok (h, [])" for h
    using control_head.read_write [of h "[]"] by simp
  ultimately show ?thesis
    by (cases "data = []") (simp_all add: CommunicateWithData_def Let_def control_head.read_write)
qed

definition example_head :: "u8 \<Rightarrow> u16 \<Rightarrow> NTPControlMsgHead" where
  "example_head remop count = \<lparr>ch_VnMode = 0x16, ch_REMOp = remop, ch_Sequence = 1, ch_Status = 0x0615,
     ch_AssociationID = 0, ch_Offset = 0, ch_Count = count\<rparr>"

theorem CommunicateWithData_reassembles_witness:
  "\<exists>buf. CommunicateWithData 1 (Ok ()) [Ok (fragment (example_head 0xA1 4, [0, 1, 0x93, 0x14])),
      Ok (fragment (example_head 0x81 4, [0, 2, 0x96, 0x14]))] (example_head 1 0) [] =
    (2, buf, Some (Ok \<lparr>cm_Head = example_head 0x81 4, cm_Data = [0, 1, 0x93, 0x14, 0, 2, 0x96, 0x14]\<rparr>))"
  using CommunicateWithData_reassembles [of "[(example_head 0xA1 4, [0, 1, 0x93, 0x14])]"
      "(example_head 0x81 4, [0, 2, 0x96, 0x14])" 1 "[]" "example_head 1 0" "[]"]
  by (auto simp: fragment_ok_def HasMore_def example_head_def)

section \<open>Properties of associations and variables\<close>

definition assoc_bytes :: "u16 \<times> u16 \<Rightarrow> bytes" where
  "assoc_bytes a = be_bytes 2 (unat (fst a)) @ be_bytes 2 (unat (snd a))"

lemma join_bytes: "push_bit 8 (ucast (hi :: u8)) OR ucast (lo :: u8) = (word_of_nat (be_val [hi, lo]) :: u16)"
proof -
  have "push_bit 8 (ucast hi :: u16) AND ucast lo = 0"
    by (rule bit_word_eqI) (auto simp: bit_simps dest: bit_imp_le_length)
  then have "push_bit 8 (ucast hi) OR ucast lo = (push_bit 8 (ucast hi) + ucast lo :: u16)"
    by (simp add: disjunctive_add_eq_or)
  moreover have "be_val [hi, lo] = unat hi * 256 + unat lo" by (simp add: be_val_Cons)
  ultimately show ?thesis by (simp add: push_bit_eq_mult mult.commute)
qed

lemma assoc_bytes_read:
  fixes a :: "u16 \<times> u16"
  defines "bs \<equiv> assoc_bytes a"
  shows "length bs = 4 \<and> push_bit 8 (ucast (bs ! 0)) OR ucast (bs ! 1) = fst a \<and>
    push_bit 8 (ucast (bs ! 2)) OR ucast (bs ! 3) = snd a"
proof -
  have l: "be_bytes 2 v = [be_bytes 2 v ! 0, be_bytes 2 v ! 1]" for v
    by (simp add: be_bytes_Suc numeral_2_eq_2)
  have w: "push_bit 8 (ucast (be_bytes 2 (unat x) ! 0)) OR ucast (be_bytes 2 (unat x) ! 1) = x" for x :: u16
    unfolding join_bytes l [symmetric] by (simp add: word_of_nat_be_val)
  have "bs ! 0 = be_bytes 2 (unat (fst a)) ! 0" "bs ! 1 = be_bytes 2 (unat (fst a)) ! 1"
    "bs ! 2 = be_bytes 2 (unat (snd a)) ! 0" "bs ! 3 = be_bytes 2 (unat (snd a)) ! 1"
    by (simp_all add: bs_def assoc_bytes_def nth_append)
  then show ?thesis by (simp only: w) (simp add: bs_def assoc_bytes_def)
qed

lemma read_associations_bytes:
  "read_associations (length done) (length as) (concat (map assoc_bytes (done @ as)) @ rest) m =
     Ok (m ++ map_of (rev (map (\<lambda>(i, w). (i, ReadPeerStatusWord w)) as)))"
proof (induction as arbitrary: "done" m)
  case Nil
  then show ?case by simp
next
  case (Cons a as)
  have len: "length (concat (map assoc_bytes xs)) = length xs * 4" for xs
    by (induction xs) (simp_all add: assoc_bytes_def)
  let ?d = "concat (map assoc_bytes (done @ a # as)) @ rest"
  have "slice ?d (length done * 4) (length done * 4 + 4) = Ok (assoc_bytes a)"
    using assoc_bytes_read [of a] by (subst slice_Ok) (simp_all add: len)
  then have "read_associations (length done) (length (a # as)) ?d m =
      read_associations (length (done @ [a])) (length as) (concat (map assoc_bytes ((done @ [a]) @ as)) @ rest)
        (m(fst a \<mapsto> ReadPeerStatusWord (snd a)))"
    using assoc_bytes_read [of a]
    by (simp only: length_Cons read_associations.simps bind_res_simps Let_def) simp
  also have "\<dots> = Ok (m(fst a \<mapsto> ReadPeerStatusWord (snd a)) ++
      map_of (rev (map (\<lambda>(i, w). (i, ReadPeerStatusWord w)) as)))" by (rule Cons.IH)
  finally show ?case by (cases a) simp
qed

text \<open>
  The peers of a status response are those of the first \<open>Count\<close> bytes of its data, \<open>Count\<close> being that of the last packet: in a response
  of one packet all of them, but of a response put together from several packets only as many as fit into the last one.
\<close>
theorem GetAssociations_last_count:
  assumes "GetOperation h = OpReadStatus" and "unat (ch_Count h) = 4 * k" and "k \<le> length as"
  shows "GetAssociations \<lparr>cm_Head = h, cm_Data = concat (map assoc_bytes as)\<rparr> =
    Ok (map_of (rev (map (\<lambda>(i, w). (i, ReadPeerStatusWord w)) (take k as))))"
proof -
  have "unat (ch_Count h div 4) = k" using assms(2) by (simp add: unat_div)
  moreover have "concat (map assoc_bytes as) =
      concat (map assoc_bytes ([] @ take k as)) @ concat (map assoc_bytes (drop k as))"
    by (metis append_Nil append_take_drop_id concat_append map_append)
  ultimately show ?thesis
    using assms(1,3) read_associations_bytes [of "[]" "take k as" "concat (map assoc_bytes (drop k as))" Map.empty]
    by (simp add: GetAssociations_def min_absorb2)
qed

theorem GetAssociations_last_count_witness:
  "GetAssociations \<lparr>cm_Head = example_head 0x81 4, cm_Data = concat (map assoc_bytes [(1, 0x9314), (2, 0x9614)])\<rparr> =
    Ok [1 \<mapsto> ReadPeerStatusWord 0x9314]"
  using GetAssociations_last_count [of "example_head 0x81 4" 1 "[(1, 0x9314), (2, 0x9614)]"]
  by (simp add: example_head_def GetOperation_def)

text \<open>A pair of key and value as ntpd prints it.\<close>

definition plain :: "string \<Rightarrow> bool" where
  "plain s \<longleftrightarrow> no_ends is_space s \<and> CHR '','' \<notin> set s \<and> CHR ''='' \<notin> set s \<and> CHR 0x22 \<notin> set s"

definition print_pair :: "bool \<Rightarrow> string \<times> string \<Rightarrow> string" where
  "print_pair quoted p = fst p @ ''='' @ (if quoted then [CHR 0x22] @ snd p @ [CHR 0x22] else snd p)"

lemma normalize_print_pair:
  assumes "plain (fst p)" and "plain (snd p)"
  shows "normalize_pair (CHR '' '' # print_pair quoted p) = Some p"
proof -
  let ?v = "if quoted then [CHR 0x22] @ snd p @ [CHR 0x22] else snd p"
  have sp: "is_space CHR '' ''" by (simp add: is_space_def)
  have "strings_Split CHR ''='' (CHR '' '' # print_pair quoted p) = [CHR '' '' # fst p, ?v]"
    using strings_Split_append [of "CHR ''=''" "CHR '' '' # fst p" ?v] strings_Split_single [of "CHR ''=''" ?v] assms
    by (simp add: plain_def print_pair_def)
  moreover have "TrimSpace (CHR '' '' # fst p) = fst p"
    using sp trim_with_id [of is_space "fst p"] assms(1) by (simp add: TrimSpace_def trim_with_def plain_def)
  moreover have "no_ends is_quote (snd p)"
    using assms(2) unfolding no_ends_def is_quote_def plain_def by (metis hd_in_set last_in_set)
  then have "trim_with is_quote ?v = snd p"
    using trim_with_wrap [of is_quote "CHR 0x22" "snd p"] trim_with_id [of is_quote "snd p"]
    by (simp add: is_quote_def)
  moreover have "TrimSpace (snd p) = snd p"
    using trim_with_id [of is_space "snd p"] assms(2) by (simp add: TrimSpace_def plain_def)
  ultimately show ?thesis by (simp add: normalize_pair_def)
qed

text \<open>
  Variables that a daemon prints as \<open>key=value\<close> or \<open>key="value"\<close>, separated by commas and set off by a blank, are
  read back: every key with its last value.
\<close>
theorem NormalizeData_print:
  assumes "ps \<noteq> []" and "list_all (\<lambda>(q, p). plain (fst p) \<and> plain (snd p)) ps"
  shows "NormalizeData (str_bytes (strings_Join '','' (map (\<lambda>(q, p). CHR '' '' # print_pair q p) ps))) =
    Ok (map_of (rev (map snd ps)))"
proof -
  let ?l = "map (\<lambda>(q, p). CHR '' '' # print_pair q p) ps"
  have no_comma: "CHR '','' \<notin> set (print_pair q p)" if "(q, p) \<in> set ps" for q p
  proof -
    have "plain (fst p)" "plain (snd p)" using assms(2) that by (auto simp: list_all_iff)
    then show ?thesis by (simp add: plain_def print_pair_def)
  qed
  have "strings_Split CHR '','' (strings_Join '','' ?l) = ?l"
    using assms(1) by (intro strings_Split_Join) (auto simp: no_comma)
  moreover have "List.map_filter normalize_pair ?l = map snd ps"
    using assms(2) by (induction ps) (auto simp: normalize_print_pair)
  ultimately show ?thesis using assms(1) by (simp add: NormalizeData_def)
qed

theorem NormalizeData_print_witness:
  "NormalizeData (str_bytes '' stratum=2, version=\"ntpd 4\"'') = Ok [''stratum'' \<mapsto> ''2'', ''version'' \<mapsto> ''ntpd 4'']"
  using NormalizeData_print [of "[(False, (''stratum'', ''2'')), (True, (''version'', ''ntpd 4''))]"]
  by (simp add: plain_def print_pair_def no_ends_def is_space_def)

end
