(* ===== verification/NTP_Check.thy ===== *)
theory NTP_Check
  imports Chrony NTP_Control "HOL-Library.AList"
begin

text \<open>
  \<open>cmd/ntpcheck/checker\<close>: what \<open>ntpcheck\<close> gathers from chronyd (\<open>chrony.go\<close>) or ntpd (\<open>ntpd.go\<close>), the system
  variables and peers it makes of it (\<open>system.go\<close>, \<open>peer.go\<close>), and the statistics (\<open>stats.go\<close>, \<open>serverstats.go\<close>); and the
  diagnosis of \<open>cmd/ntpcheck/cmd/diag.go\<close>. The other side of the connection is an argument: for every exchange, whether the write
  fails and what the read returns.
\<close>

section \<open>Text of the standard library\<close>

definition ParseUint :: "string \<Rightarrow> u64 res" where
  "ParseUint s =
     (if s = [] \<or> \<not> list_all is_digit s then Err ''invalid syntax''
      else if decimal s \<ge> 2 ^ 64 then Err ''value out of range'' else Ok (word_of_nat (decimal s)))"

text \<open>
  Functions of the standard library whose text forms the checks only pass on: \<open>ParseFloat\<close>, \<open>Sscan\<close> into a \<open>uint16\<close>, and the
  printed forms of an address, a time and a list of code points. Everything below holds for all of them.
\<close>

record text_funs =
  tx_ParseFloat :: "string \<Rightarrow> f64"
  tx_Sscan :: "string \<Rightarrow> u16"
  tx_IP :: "netIP \<Rightarrow> string"
  tx_Time :: "gotime \<Rightarrow> string"
  tx_Runes :: "nat list \<Rightarrow> string"

text \<open>A missing key of a Go map of strings gives the empty string.\<close>

definition mget :: "(string \<rightharpoonup> string) \<Rightarrow> string \<Rightarrow> string" where
  "mget m k = (case m k of None \<Rightarrow> [] | Some v \<Rightarrow> v)"

section \<open>System variables\<close>

record SystemVariables =
  sy_Version :: string
  sy_Processor :: string
  sy_System :: string
  sy_Leap :: int
  sy_Stratum :: int
  sy_Precision :: int
  sy_RootDelay :: f64
  sy_RootDisp :: f64
  sy_Peer :: int
  sy_TC :: int
  sy_MinTC :: int
  sy_Clock :: string
  sy_RefID :: string
  sy_RefTime :: string
  sy_Offset :: f64
  sy_SysJitter :: f64
  sy_Frequency :: f64
  sy_ClkWander :: f64
  sy_ClkJitter :: f64
  sy_Tai :: int

definition sanityCheckSysVars :: "SystemVariables \<Rightarrow> unit res" where
  "sanityCheckSysVars sysVars =
     (if sy_Stratum sysVars = 0 then Err ''Incomplete data, stratum 0 in system variables'' else Ok ())"

text \<open>Multiplying a decoded float by 1000 needs fewer than 53 bits and is exact.\<close>

definition secToMS :: "f64 \<Rightarrow> f64" where
  "secToMS seconds = 1000 * seconds"

definition NewSystemVariablesFromChrony :: "text_funs \<Rightarrow> Tracking \<Rightarrow> SystemVariables" where
  "NewSystemVariablesFromChrony tx p =
     \<lparr>sy_Version = [], sy_Processor = [], sy_System = [], sy_Leap = uint (tr_LeapStatus p), sy_Stratum = uint (tr_Stratum p),
      sy_Precision = 0, sy_RootDelay = secToMS (tr_RootDelay p), sy_RootDisp = secToMS (tr_RootDispersion p), sy_Peer = 0,
      sy_TC = 0, sy_MinTC = 0, sy_Clock = [], sy_RefID = RefidAsHEX (tr_RefID p), sy_RefTime = tx_Time tx (tr_RefTime p),
      sy_Offset = secToMS (tr_RMSOffset p), sy_SysJitter = 0, sy_Frequency = tr_FreqPPM p, sy_ClkWander = 0,
      sy_ClkJitter = 0, sy_Tai = 0\<rparr>"

definition NewSystemVariablesFromNTP :: "text_funs \<Rightarrow> NTPControlMsg \<Rightarrow> SystemVariables res" where
  "NewSystemVariablesFromNTP tx p =
     bind_res (GetAssociationInfo p) (\<lambda>m.
       let num = (\<lambda>k. Atoi (mget m k)); flt = (\<lambda>k. tx_ParseFloat tx (mget m k));
           system =
             \<lparr>sy_Version = mget m ''version'', sy_Processor = mget m ''processor'', sy_System = mget m ''system'',
              sy_Leap = num ''leap'', sy_Stratum = num ''stratum'', sy_Precision = num ''precision'',
              sy_RootDelay = flt ''rootdelay'', sy_RootDisp = flt ''rootdisp'', sy_Peer = num ''peer'', sy_TC = num ''tc'',
              sy_MinTC = num ''mintc'', sy_Clock = mget m ''clock'', sy_RefID = mget m ''refid'',
              sy_RefTime = mget m ''reftime'', sy_Offset = flt ''offset'', sy_SysJitter = flt ''sys_jitter'',
              sy_Frequency = flt ''frequency'', sy_ClkWander = flt ''clk_wander'', sy_ClkJitter = flt ''clk_jitter'',
              sy_Tai = num ''tai''\<rparr>
       in bind_res (sanityCheckSysVars system) (\<lambda>_. Ok system))"

section \<open>Peers\<close>

record Peer =
  pe_Configured :: bool
  pe_AuthPossible :: bool
  pe_Authentic :: bool
  pe_Reachable :: bool
  pe_Broadcast :: bool
  pe_Selection :: u8
  pe_Condition :: string
  pe_SRCAdr :: string
  pe_SRCPort :: int
  pe_DSTAdr :: string
  pe_DSTPort :: int
  pe_Leap :: int
  pe_Stratum :: int
  pe_Precision :: int
  pe_RootDelay :: f64
  pe_RootDisp :: f64
  pe_RefID :: string
  pe_RefTime :: string
  pe_Reach :: u8
  pe_Unreach :: int
  pe_HMode :: int
  pe_PMode :: int
  pe_HPoll :: int
  pe_PPoll :: int
  pe_Headway :: int
  pe_Flash :: u16
  pe_Flashers :: "string list"
  pe_Offset :: f64
  pe_Delay :: f64
  pe_Dispersion :: f64
  pe_Jitter :: f64
  pe_Xleave :: f64
  pe_Rec :: string
  pe_FiltDelay :: string
  pe_FiltOffset :: string
  pe_FiltDisp :: string

definition sanityCheckPeerVars :: "Peer \<Rightarrow> unit res" where
  "sanityCheckPeerVars p =
     (if pe_Stratum p = 0 then Err ''Incomplete data, stratum 0 in peer variables''
      else if pe_PPoll p = 0 \<or> pe_HPoll p = 0 then Err ''Incomplete data, poll 0 in peer variables'' else Ok ())"

definition NewPeerFromNTP :: "text_funs \<Rightarrow> NTPControlMsg \<Rightarrow> Peer res" where
  "NewPeerFromNTP tx p =
     bind_res (GetPeerStatus p) (\<lambda>psWord.
     bind_res (GetAssociationInfo p) (\<lambda>m.
     bind_res (index PeerSelect (unat (psw_PeerSelection psWord))) (\<lambda>condition.
       let num = (\<lambda>k. Atoi (mget m k)); flt = (\<lambda>k. tx_ParseFloat tx (mget m k));
           reach = tx_Sscan tx (mget m ''reach''); flash = tx_Sscan tx (mget m ''flash'');
           peer =
             \<lparr>pe_Configured = ps_Configured (psw_PeerStatus psWord), pe_AuthPossible = ps_AuthEnabled (psw_PeerStatus psWord),
              pe_Authentic = ps_AuthOK (psw_PeerStatus psWord), pe_Reachable = ps_Reachable (psw_PeerStatus psWord),
              pe_Broadcast = ps_Broadcast (psw_PeerStatus psWord), pe_Selection = psw_PeerSelection psWord,
              pe_Condition = condition, pe_SRCAdr = mget m ''srcadr'', pe_SRCPort = num ''srcport'',
              pe_DSTAdr = mget m ''dstadr'', pe_DSTPort = num ''dstport'', pe_Leap = num ''leap'',
              pe_Stratum = num ''stratum'', pe_Precision = num ''precision'', pe_RootDelay = flt ''rootdelay'',
              pe_RootDisp = flt ''rootdisp'', pe_RefID = mget m ''refid'', pe_RefTime = mget m ''reftime'',
              pe_Reach = ucast reach, pe_Unreach = num ''unreach'', pe_HMode = num ''hmode'', pe_PMode = num ''pmode'',
              pe_HPoll = num ''hpoll'', pe_PPoll = num ''ppoll'', pe_Headway = num ''headway'', pe_Flash = flash,
              pe_Flashers = ReadFlashStatusWord FlashDescMap flash, pe_Offset = flt ''offset'', pe_Delay = flt ''delay'',
              pe_Dispersion = flt ''dispersion'', pe_Jitter = flt ''jitter'', pe_Xleave = flt ''xleave'',
              pe_Rec = mget m ''rec'', pe_FiltDelay = mget m ''filtdelay'', pe_FiltOffset = mget m ''filtoffset'',
              pe_FiltDisp = mget m ''filtdisp''\<rparr>
       in bind_res (sanityCheckPeerVars peer) (\<lambda>_. Ok peer))))"

definition SelReject :: u8 where [simp]: "SelReject = 0"
definition SelFalseTick :: u8 where [simp]: "SelFalseTick = 1"
definition SelOutlier :: u8 where [simp]: "SelOutlier = 3"

text \<open>A state that is not in the map selects 0.\<close>

definition chronyToPeerSelection :: "u16 \<Rightarrow> u8" where
  "chronyToPeerSelection s =
     (if s = SourceStateSync then SelSYSPeer
      else if s = SourceStateUnreach then SelReject
      else if s = SourceStateFalseTicket then SelFalseTick
      else if s = SourceStateJittery then SelReject
      else if s = SourceStateCandidate then SelCandidate
      else if s = SourceStateOutlier then SelOutlier
      else 0)"

definition NTPFlagAuthenticated :: u16 where [simp]: "NTPFlagAuthenticated = 0x8000"

text \<open>
  The description of a state is an array access: a state above 5 panics. The flags are those of the source data; the
  order of the flashers is that of the iteration over the map.
\<close>

definition NewPeerFromChrony :: "text_funs \<Rightarrow> SourceData \<Rightarrow> NTPData option \<Rightarrow> Peer res" where
  "NewPeerFromChrony tx s p =
     (let flash = sd_Flags s AND NTPFlagsTests;
          flash = (if flash > 0 then flash XOR NTPFlagsTests else flash)
      in bind_res (index SourceStateDesc (unat (sd_State s))) (\<lambda>condition.
        let peer =
          \<lparr>pe_Configured = True, pe_AuthPossible = False, pe_Authentic = sd_Flags s AND NTPFlagAuthenticated \<noteq> 0,
           pe_Reachable = sd_Reachability s = 255, pe_Broadcast = False, pe_Selection = chronyToPeerSelection (sd_State s),
           pe_Condition = condition, pe_SRCAdr = tx_IP tx (sd_IPAddr s), pe_SRCPort = 0, pe_DSTAdr = [], pe_DSTPort = 0,
           pe_Leap = 0, pe_Stratum = uint (sd_Stratum s), pe_Precision = 0, pe_RootDelay = 0, pe_RootDisp = 0, pe_RefID = [],
           pe_RefTime = [], pe_Reach = ucast (sd_Reachability s), pe_Unreach = 0, pe_HMode = 0, pe_PMode = 0,
           pe_HPoll = sint (sd_Poll s), pe_PPoll = sint (sd_Poll s), pe_Headway = 0, pe_Flash = flash,
           pe_Flashers = ReadNTPTestFlags NTPTestDescMap (sd_Flags s), pe_Offset = - secToMS (sd_OrigLatestMeas s), pe_Delay = 0,
           pe_Dispersion = 0, pe_Jitter = 0, pe_Xleave = 0, pe_Rec = [], pe_FiltDelay = [], pe_FiltOffset = [],
           pe_FiltDisp = []\<rparr>
        in case p of
          None \<Rightarrow> Ok peer
        | Some p \<Rightarrow>
            let refID = RefidAsHEX (nd_RefID p);
                refID = (if nd_Stratum p = 1 \<and> RefidToString (nd_RefID p) \<noteq> [] then tx_Runes tx (RefidToString (nd_RefID p)) else refID)
            in Ok (peer\<lparr>pe_Leap := uint (nd_Leap p), pe_HPoll := sint (nd_Poll p), pe_DSTAdr := tx_IP tx (nd_LocalAddr p),
                 pe_RefTime := tx_Time tx (nd_RefTime p), pe_Offset := secToMS (nd_Offset p),
                 pe_Dispersion := secToMS (nd_PeerDispersion p), pe_DSTPort := uint (nd_RemotePort p), pe_RefID := refID,
                 pe_PPoll := sint (nd_Poll p), pe_Jitter := secToMS (nd_PeerDispersion p),
                 pe_RootDelay := secToMS (nd_RootDelay p), pe_Precision := sint (nd_Precision p),
                 pe_Delay := secToMS (nd_PeerDelay p), pe_RootDisp := secToMS (nd_RootDispersion p)\<rparr>)))"

section \<open>Results\<close>

text \<open>The peers are a list of associations in the order in which Go happens to iterate over its map.\<close>

record NTPCheckResult =
  cr_LI :: u8
  cr_LIDesc :: string
  cr_ClockSource :: string
  cr_Correction :: f64
  cr_Event :: string
  cr_EventCount :: u8
  cr_SysVars :: "SystemVariables option"
  cr_Peers :: "(u16 \<times> Peer) list"

definition NewNTPCheckResult :: NTPCheckResult where
  "NewNTPCheckResult = \<lparr>cr_LI = 0, cr_LIDesc = [], cr_ClockSource = [], cr_Correction = 0, cr_Event = [], cr_EventCount = 0,
     cr_SysVars = None, cr_Peers = []\<rparr>"

definition FindSysPeer :: "NTPCheckResult \<Rightarrow> Peer res" where
  "FindSysPeer r =
     (if cr_Peers r = [] then Err ''no peers present''
      else case find (\<lambda>p. pe_Selection p = SelSYSPeer) (map snd (cr_Peers r)) of
          Some peer \<Rightarrow> Ok peer
        | None \<Rightarrow> Err ''no sys.peer present'')"

definition FindGoodPeers :: "NTPCheckResult \<Rightarrow> Peer list res" where
  "FindGoodPeers r =
     (let results = filter (\<lambda>p. pe_Selection p \<in> {SelCandidate, SelBackup, SelSYSPeer, SelPPSPeer}) (map snd (cr_Peers r)) in
      if cr_Peers r = [] then Err ''no peers present''
      else if results = [] then Err ''no good peers present'' else Ok results)"

section \<open>Checking chronyd\<close>

text \<open>
  The connection: for the k-th exchange and the bytes written, whether the write fails and what the read
  returns. The client starts with sequence number 1 and bumps it at every exchange.
\<close>

type_synonym daemon = "nat \<Rightarrow> bytes \<Rightarrow> unit res \<times> bytes res"

definition chrony_ask :: "daemon \<Rightarrow> nat \<Rightarrow> RequestPacket \<Rightarrow> ResponsePacket res" where
  "chrony_ask d k packet =
     (let s = 1 + word_of_nat k; buf = request_bytes (Request_SetSequence (s + 1) packet)
      in snd (snd (chrony_Communicate s (fst (d k buf)) (snd (d k buf)) packet)))"

definition wrap_error :: "string \<Rightarrow> 'a res \<Rightarrow> 'a res" where
  "wrap_error msg r = (case r of Inl (GoError e) \<Rightarrow> Err (msg @ '': '' @ e) | _ \<Rightarrow> r)"

fun as_tracking :: "ResponsePacket \<Rightarrow> Tracking option" where
  "as_tracking (ReplyTracking h t) = Some t"
| "as_tracking _ = None"

fun as_sources :: "ResponsePacket \<Rightarrow> int option" where
  "as_sources (ReplySources h n) = Some n"
| "as_sources _ = None"

fun as_source_data :: "ResponsePacket \<Rightarrow> SourceData option" where
  "as_source_data (ReplySourceData h d) = Some d"
| "as_source_data _ = None"

fun as_ntp_data :: "ResponsePacket \<Rightarrow> NTPData option" where
  "as_ntp_data (ReplyNTPData h d) = Some d"
| "as_ntp_data _ = None"

definition quoted :: "string \<Rightarrow> string" where
  "quoted s = CHR 0x27 # s @ [CHR 0x27]"

text \<open>An exchange and the type assertion on its reply.\<close>

definition ask_as :: "(ResponsePacket \<Rightarrow> 'a option) \<Rightarrow> string \<Rightarrow> daemon \<Rightarrow> nat \<Rightarrow> RequestPacket \<Rightarrow> 'a res" where
  "ask_as cast name d k packet =
     bind_res (wrap_error (''failed to get '' @ quoted name @ '' response'') (chrony_ask d k packet)) (\<lambda>reply.
       case cast reply of None \<Rightarrow> Err (''Got wrong '' @ quoted name @ '' response %+v'') | Some x \<Rightarrow> Ok x)"

text \<open>One source: the peer, the clock source it implies if it is the one in use, and the number of the next exchange.\<close>

definition check_source :: "text_funs \<Rightarrow> daemon \<Rightarrow> bool \<Rightarrow> nat \<Rightarrow> nat \<Rightarrow> (Peer \<times> string option \<times> nat) res" where
  "check_source tx d unix k i =
     bind_res (ask_as as_source_data ''sourcedata'' d k (NewSourceDataPacket (word_of_nat i))) (\<lambda>sourceData.
     bind_res (if sd_Mode sourceData \<noteq> SourceModeRef \<and> unix
        then bind_res (ask_as as_ntp_data ''ntpdata'' d (Suc k) (NewNTPDataPacket (sd_IPAddr sourceData)))
          (\<lambda>n. Ok (Some n, Suc (Suc k)))
        else Ok (None, Suc k)) (\<lambda>(ntpData, k).
     bind_res (wrap_error ''failed to create Peer structure from response packet'' (NewPeerFromChrony tx sourceData ntpData)) (\<lambda>peer.
       Ok (peer, (if sd_State sourceData = SourceStateSync
                  then Some (if sd_Mode sourceData = SourceModeRef then ''local'' else ''ntp'') else None), k))))"

fun check_sources :: "text_funs \<Rightarrow> daemon \<Rightarrow> bool \<Rightarrow> nat \<Rightarrow> nat \<Rightarrow> nat \<Rightarrow> NTPCheckResult \<Rightarrow> NTPCheckResult res" where
  "check_sources tx d unix k i 0 result = Ok result"
| "check_sources tx d unix k i (Suc n) result =
     bind_res (check_source tx d unix k i) (\<lambda>(peer, source, k).
       check_sources tx d unix k (Suc i) n
         (result\<lparr>cr_Peers := AList.update (word_of_nat i) peer (cr_Peers result),
            cr_ClockSource := (case source of None \<Rightarrow> cr_ClockSource result | Some c \<Rightarrow> c)\<rparr>))"

text \<open>The leap status indexes an array of four names with its low byte.\<close>

definition ChronyCheck_Run :: "text_funs \<Rightarrow> daemon \<Rightarrow> bool \<Rightarrow> NTPCheckResult res" where
  "ChronyCheck_Run tx d unix =
     bind_res (ask_as as_tracking ''tracking'' d 0 NewTrackingPacket) (\<lambda>tracking.
     bind_res (index LeapDesc (unat (ucast (tr_LeapStatus tracking) :: u8))) (\<lambda>desc.
       let result = NewNTPCheckResult\<lparr>cr_Correction := tr_CurrentCorrection tracking, cr_LIDesc := desc,
             cr_LI := ucast (tr_LeapStatus tracking), cr_Event := ''clock_sync'',
             cr_SysVars := Some (NewSystemVariablesFromChrony tx tracking)\<rparr>
       in bind_res (ask_as as_sources ''sources'' d 1 NewSourcesPacket) (\<lambda>n.
          check_sources tx d unix 2 0 (nat n) result)))"

record CheckServerStats =
  css_PacketsReceived :: u64
  css_PacketsDropped :: u64

definition NewServerStatsFromChrony :: "ServerStats \<Rightarrow> CheckServerStats" where
  "NewServerStatsFromChrony s =
     \<lparr>css_PacketsReceived = ucast (svs_NTPHits s), css_PacketsDropped = ucast (svs_NTPDrops s)\<rparr>"

definition NewServerStatsFromChrony2 :: "ServerStats2 \<Rightarrow> CheckServerStats" where
  "NewServerStatsFromChrony2 s =
     \<lparr>css_PacketsReceived = ucast (sv2_NTPHits s), css_PacketsDropped = ucast (sv2_NTPDrops s)\<rparr>"

definition ChronyCheck_ServerStats :: "daemon \<Rightarrow> CheckServerStats res" where
  "ChronyCheck_ServerStats d =
     bind_res (wrap_error ''failed to get 'serverstats' response'' (chrony_ask d 0 NewServerStatsPacket)) (\<lambda>packet.
       case packet of
         ReplyServerStats h s \<Rightarrow> Ok (NewServerStatsFromChrony s)
       | ReplyServerStats2 h s \<Rightarrow> Ok (NewServerStatsFromChrony2 s)
       | _ \<Rightarrow> Err ''Got wrong 'serverstats' response %+v'')"

section \<open>Checking ntpd\<close>

text \<open>
  The connection to ntpd: for the k-th exchange and the bytes written, whether the write fails and what the reads
  return; every read ends with a packet or the error of the deadline, so the list of a complete exchange
  is long enough. Where it is not, the client is still reading, which is None.
\<close>

type_synonym ntpd = "nat \<Rightarrow> bytes \<Rightarrow> unit res \<times> bytes res list"

definition vnMode :: u8 where
  "vnMode = MakeVnMode 3 ControlMode"

definition getReadStatusPacket :: NTPControlMsgHead where
  "getReadStatusPacket = \<lparr>ch_VnMode = vnMode, ch_REMOp = OpReadStatus, ch_Sequence = 0, ch_Status = 0,
     ch_AssociationID = 0, ch_Offset = 0, ch_Count = 0\<rparr>"

definition getReadVariablesPacket :: "u16 \<Rightarrow> NTPControlMsgHead" where
  "getReadVariablesPacket associationID = \<lparr>ch_VnMode = vnMode, ch_REMOp = OpReadVariables, ch_Sequence = 0, ch_Status = 0,
     ch_AssociationID = associationID, ch_Offset = 0, ch_Count = 0\<rparr>"

definition ntpd_ask :: "ntpd \<Rightarrow> nat \<Rightarrow> NTPControlMsgHead \<Rightarrow> bytes \<Rightarrow> NTPControlMsg res option" where
  "ntpd_ask d k packet data =
     (let s = 1 + word_of_nat k; buf = fst (snd (CommunicateWithData s (Ok ()) [] packet data))
      in snd (snd (CommunicateWithData s (fst (d k buf)) (snd (d k buf)) packet data)))"

definition ReadStatus :: "ntpd \<Rightarrow> nat \<Rightarrow> NTPControlMsg res option" where
  "ReadStatus d k = ntpd_ask d k getReadStatusPacket []"

definition ReadVariables :: "ntpd \<Rightarrow> nat \<Rightarrow> u16 \<Rightarrow> NTPControlMsg res option" where
  "ReadVariables d k associationID = ntpd_ask d k (getReadVariablesPacket associationID) []"

definition ReadServerVariables :: "ntpd \<Rightarrow> nat \<Rightarrow> NTPControlMsg res option" where
  "ReadServerVariables d k = ntpd_ask d k (getReadVariablesPacket 0)
     (str_bytes ''ss_uptime,ss_reset,ss_received,ss_thisver,ss_oldver,ss_badformat,ss_badauth,ss_declined,ss_restricted,ss_limited,ss_kodsent,ss_processed'')"

definition bind_run :: "'a res option \<Rightarrow> ('a \<Rightarrow> 'b res option) \<Rightarrow> 'b res option" where
  "bind_run r f = (case r of None \<Rightarrow> None | Some (Inl e) \<Rightarrow> Some (Inl e) | Some (Inr x) \<Rightarrow> f x)"

lemma bind_run_simps [simp]:
  "bind_run None f = None" "bind_run (Some (Inl e)) f = Some (Inl e)" "bind_run (Some (Inr x)) f = f x"
  by (simp_all add: bind_run_def)

text \<open>One association, and the loop over them in the order Go iterates over the map.\<close>

definition check_association :: "text_funs \<Rightarrow> ntpd \<Rightarrow> nat \<Rightarrow> u16 \<Rightarrow> Peer res option" where
  "check_association tx d k i =
     bind_run (map_option (wrap_error ''failed to get 'read variables' packet from NTP server'') (ReadVariables d k i)) (\<lambda>assocInfo.
     bind_run (Some (wrap_error ''failed to get peer status list from response packet'' (GetPeerStatus assocInfo))) (\<lambda>_.
     bind_run (Some (wrap_error ''failed to get associations list from response packet'' (GetAssociationInfo assocInfo))) (\<lambda>_.
     Some (wrap_error ''failed to create Peer structure from response packet'' (NewPeerFromNTP tx assocInfo)))))"

fun check_associations :: "text_funs \<Rightarrow> ntpd \<Rightarrow> nat \<Rightarrow> u16 list \<Rightarrow> NTPCheckResult \<Rightarrow> NTPCheckResult res option" where
  "check_associations tx d k [] result = Some (Ok result)"
| "check_associations tx d k (i # is) result =
     bind_run (check_association tx d k i) (\<lambda>peer.
       check_associations tx d (Suc k) is (result\<lparr>cr_Peers := AList.update i peer (cr_Peers result)\<rparr>))"

definition NTPCheck_Run :: "text_funs \<Rightarrow> ((u16 \<rightharpoonup> PeerStatusWord) \<Rightarrow> u16 list) \<Rightarrow> ntpd \<Rightarrow> NTPCheckResult res option" where
  "NTPCheck_Run tx order d =
     bind_run (map_option (wrap_error ''failed to get 'read status' packet from NTP server'') (ReadStatus d 0)) (\<lambda>packet.
     bind_run (Some (wrap_error ''failed to parse SystemStatusWord'' (GetSystemStatus packet))) (\<lambda>sysStatus.
     bind_run (Some (index LeapDesc (unat (ssw_LI sysStatus)))) (\<lambda>li.
     bind_run (Some (index ClockSourceDesc (unat (ssw_ClockSource sysStatus)))) (\<lambda>source.
     bind_run (Some (index SystemEventDesc (unat (ssw_SystemEventCode sysStatus)))) (\<lambda>event.
     bind_run (map_option (wrap_error ''failed to get 'read variables' packet from NTP server for associationID=0'') (ReadVariables d 1 0)) (\<lambda>infoPacket.
     bind_run (Some (wrap_error ''failed to create System structure from response packet'' (NewSystemVariablesFromNTP tx infoPacket))) (\<lambda>sys.
     bind_run (Some (wrap_error ''failed to get associations list from response packet'' (GetAssociations packet))) (\<lambda>assocs.
       check_associations tx d 2 (order assocs)
         (NewNTPCheckResult\<lparr>cr_LIDesc := li, cr_LI := ssw_LI sysStatus, cr_ClockSource := source,
            cr_EventCount := ssw_SystemEventCounter sysStatus, cr_Event := event, cr_SysVars := Some sys\<rparr>)))))))))"

definition droppedVars :: "string list" where
  "droppedVars = [''ss_badformat'', ''ss_badauth'', ''ss_declined'', ''ss_restricted'', ''ss_limited'']"

fun sum_dropped :: "(string \<rightharpoonup> string) \<Rightarrow> string list \<Rightarrow> u64 \<Rightarrow> u64 res" where
  "sum_dropped data [] dropped = Ok dropped"
| "sum_dropped data (v # vs) dropped = bind_res (ParseUint (mget data v)) (\<lambda>x. sum_dropped data vs (dropped + x))"

definition NewServerStatsFromNTP :: "NTPControlMsg \<Rightarrow> CheckServerStats res" where
  "NewServerStatsFromNTP p =
     bind_res (NormalizeData (cm_Data p)) (\<lambda>data.
     bind_res (ParseUint (mget data ''ss_received'')) (\<lambda>received.
     bind_res (sum_dropped data droppedVars 0) (\<lambda>dropped.
       Ok \<lparr>css_PacketsReceived = received, css_PacketsDropped = dropped\<rparr>)))"

definition NTPCheck_ServerStats :: "ntpd \<Rightarrow> CheckServerStats res option" where
  "NTPCheck_ServerStats d =
     bind_run (map_option (wrap_error ''failed to get 'server variables' packet from NTP server'') (ReadServerVariables d 0)) (\<lambda>serverVars.
       if HasError (cm_Head serverVars) \<or> \<not> length (cm_Data serverVars) > 0 then Some (Err ''Got bad 'server variables' response %+v'')
       else Some (wrap_error ''failed to create ServerStats structure from response packet'' (NewServerStatsFromNTP serverVars)))"

section \<open>Statistics\<close>

record NTPStats =
  ns_PeerDelay :: f64
  ns_PeerPoll :: int
  ns_PeerJitter :: f64
  ns_PeerOffset :: f64
  ns_PeerStratum :: int
  ns_Frequency :: f64
  ns_StatError :: bool
  ns_Correction :: f64

text \<open>
  The rounding of \<open>float64\<close> arithmetic and the platform's conversion of a negative float to \<open>uint\<close> are arguments.
\<close>

record float_funs =
  fl_round :: "rat \<Rightarrow> f64"
  fl_negative :: "int \<Rightarrow> nat"

definition poll_exponent :: "float_funs \<Rightarrow> int \<Rightarrow> int \<Rightarrow> nat" where
  "poll_exponent fl ppoll hpoll = (let m = min ppoll hpoll in if 0 \<le> m then nat m else fl_negative fl m)"

definition shift_one :: "nat \<Rightarrow> int" where
  "shift_one n = (if n < 64 then i64 (2 ^ n) else 0)"

definition float_sum :: "float_funs \<Rightarrow> f64 list \<Rightarrow> f64" where
  "float_sum fl xs = foldl (\<lambda>a x. fl_round fl (a + x)) 0 xs"

text \<open>The loop over the good peers as far as it looks for the best values.\<close>

definition best_of :: "(Peer \<Rightarrow> int) \<Rightarrow> Peer list \<Rightarrow> int" where
  "best_of f ps = foldl (\<lambda>b p. if b \<noteq> 0 \<and> f p < b then f p else b) 0 ps"

definition NewNTPStats :: "float_funs \<Rightarrow> NTPCheckResult \<Rightarrow> NTPStats res" where
  "NewNTPStats fl r =
     (case cr_SysVars r of
        None \<Rightarrow> Err ''no system variables to output stats''
      | Some sysVars \<Rightarrow>
          bind_res (case FindSysPeer r of
            Inl _ \<Rightarrow>
              let total = length (cr_Peers r) in
              if total = 0 then Err ''no peers detected to output stats''
              else bind_res (wrap_error ''nothing to calculate stats from'' (FindGoodPeers r)) (\<lambda>goodPeers.
                Ok (fl_round fl (float_sum fl (map pe_Delay goodPeers) / of_nat total),
                    fl_round fl (float_sum fl (map pe_Jitter goodPeers) / of_nat total),
                    fl_round fl (float_sum fl (map pe_Offset goodPeers) / of_nat total),
                    best_of pe_Stratum goodPeers,
                    poll_exponent fl (best_of pe_PPoll goodPeers) (best_of pe_HPoll goodPeers)))
          | Inr syspeer \<Rightarrow>
              Ok (pe_Delay syspeer, pe_Jitter syspeer, pe_Offset syspeer, pe_Stratum syspeer,
                  poll_exponent fl (pe_PPoll syspeer) (pe_HPoll syspeer)))
          (\<lambda>(delay, jitter, offset, stratum, poll).
            Ok \<lparr>ns_PeerDelay = delay, ns_PeerPoll = shift_one poll, ns_PeerJitter = jitter, ns_PeerOffset = offset,
              ns_PeerStratum = stratum, ns_Frequency = sy_Frequency sysVars, ns_StatError = cr_LI r = 3,
              ns_Correction = cr_Correction r\<rparr>))"

section \<open>Diagnosis\<close>

datatype status = StatusOK | StatusWARN | StatusFAIL | StatusCRITICAL

definition checkAgainstThreshold :: "f64 \<Rightarrow> f64 \<Rightarrow> f64 \<Rightarrow> status" where
  "checkAgainstThreshold value warnThreshold failThreshold =
     (if \<bar>value\<bar> > failThreshold then StatusFAIL else if \<bar>value\<bar> > warnThreshold then StatusWARN else StatusOK)"

definition checkSync :: "NTPCheckResult \<Rightarrow> status" where
  "checkSync r = (case FindSysPeer r of Inl _ \<Rightarrow> StatusCRITICAL | Inr _ \<Rightarrow> if cr_LI r = 3 then StatusFAIL else StatusOK)"

definition checkLeap :: "NTPCheckResult \<Rightarrow> status" where
  "checkLeap r = (if cr_LI r \<noteq> 0 then StatusWARN else StatusOK)"

definition checkJitter :: "NTPCheckResult \<Rightarrow> status" where
  "checkJitter r = (case FindSysPeer r of Inl _ \<Rightarrow> StatusCRITICAL
     | Inr syspeer \<Rightarrow> checkAgainstThreshold (pe_Jitter syspeer) 1 1000)"

definition checkCorrectionMetric :: "float_funs \<Rightarrow> NTPCheckResult \<Rightarrow> status" where
  "checkCorrectionMetric fl r = checkAgainstThreshold (fl_round fl (cr_Correction r * 1000)) 60000 600000"

definition checkOffset :: "NTPCheckResult \<Rightarrow> status" where
  "checkOffset r = (case FindSysPeer r of Inl _ \<Rightarrow> StatusCRITICAL
     | Inr syspeer \<Rightarrow> checkAgainstThreshold (pe_Offset syspeer) 1 1000)"

definition checkPeersFlash :: "NTPCheckResult \<Rightarrow> status" where
  "checkPeersFlash r = (if filter (\<lambda>p. pe_Flash p \<noteq> 0) (map snd (cr_Peers r)) \<noteq> [] then StatusWARN else StatusOK)"

definition checkPeersReach :: "NTPCheckResult \<Rightarrow> status" where
  "checkPeersReach r = (if filter (\<lambda>p. pe_Reach p \<noteq> 255) (map snd (cr_Peers r)) \<noteq> [] then StatusWARN else StatusOK)"

definition diagnosers :: "float_funs \<Rightarrow> (NTPCheckResult \<Rightarrow> status) list" where
  "diagnosers fl = [checkSync, checkLeap, checkOffset, checkJitter, checkCorrectionMetric fl, checkPeersFlash, checkPeersReach]"

text \<open>The statuses printed, and whether the process exits with 1: a critical one is printed as a failure and ends the run.\<close>

fun runDiagnosers :: "(NTPCheckResult \<Rightarrow> status) list \<Rightarrow> NTPCheckResult \<Rightarrow> status list \<times> bool" where
  "runDiagnosers [] r = ([], False)"
| "runDiagnosers (check # checks) r =
     (case check r of
        StatusCRITICAL \<Rightarrow> ([StatusFAIL], True)
      | st \<Rightarrow> (case runDiagnosers checks r of (sts, exits) \<Rightarrow> (st # sts, exits)))"

section \<open>A check of chronyd\<close>

text \<open>What chronyd answers: its tracking data, the number of its sources and the data of each, with the request's command
  and sequence number; anything else gets the status of an unknown source.\<close>

record chronyd =
  cd_tracking :: replyTrackingContent
  cd_sources :: "replySourceDataContent list"

definition chronyd_head :: "RequestHead \<Rightarrow> u16 \<Rightarrow> u16 \<Rightarrow> ReplyHead" where
  "chronyd_head q reply st = \<lparr>rh_Version = 6, rh_PKTType = 2, rh_Res1 = 0, rh_Res2 = 0, rh_Command = rq_Command q,
     rh_Reply = reply, rh_Status = st, rh_Pad1 = 0, rh_Pad2 = 0, rh_Pad3 = 0, rh_Sequence = rq_Sequence q, rh_Pad4 = 0,
     rh_Pad5 = 0\<rparr>"

definition chronyd_answer :: "chronyd \<Rightarrow> RequestHead \<Rightarrow> bytes \<Rightarrow> bytes" where
  "chronyd_answer d q data =
     (let i = unat (cdec cu32 (take 4 data));
          answer = (\<lambda>c. binary_Write ReplyHead_codec (chronyd_head q (content_type c) 0) @ content_bytes c)
      in if rq_Command q = reqTracking then answer (CTracking (cd_tracking d))
         else if rq_Command q = reqNSources then answer (CSources (word_of_nat (length (cd_sources d))))
         else if rq_Command q = reqSourceData \<and> i < length (cd_sources d) then answer (CSourceData (cd_sources d ! i))
         else binary_Write ReplyHead_codec (chronyd_head q 1 4))"

definition chronyd_reply :: "chronyd \<Rightarrow> bytes \<Rightarrow> bytes" where
  "chronyd_reply d buf = chronyd_answer d (cdec RequestHead_codec (take 20 buf)) (drop 20 buf)"

definition chronyd_env :: "chronyd \<Rightarrow> daemon" where
  "chronyd_env d k buf = (Ok (), Ok (chronyd_reply d buf))"

lemma chronyd_reply_request [simp]:
  "chronyd_reply d (binary_Write RequestHead_codec h @ rest) = chronyd_answer d h rest"
  using request_head_codec.length_write [of h] wf_codecD(2) [OF request_head_codec.wf, of h]
  by (simp add: chronyd_reply_def binary_Write_def)

lemma cu32_enc [simp]: "length (cenc cu32 x) = 4" "cdec cu32 (cenc cu32 x) = x"
  using wf_codecD(1,2) [OF chrony_u32.wf, of x] by simp_all

lemma content_short: "content_ok c \<Longrightarrow> length (binary_Write ReplyHead_codec h @ content_bytes c) \<le> 1024"
  using reply_head_codec.length_write [of h]
  by (cases c) (simp_all add: chrony_u32.length_write source_data_codec.length_write tracking_codec.length_write
      source_stats_codec.length_write ntp_data_codec.length_write server_stats_codec.length_write server_stats2_codec.length_write)

lemma chrony_ask_answer:
  assumes "chronyd_reply d (request_bytes (Request_SetSequence (2 + word_of_nat k) p)) =
      binary_Write ReplyHead_codec (chronyd_head q (content_type c) 0) @ content_bytes c" and "content_ok c"
  shows "chrony_ask (chronyd_env d) k p = Ok (content_reply (chronyd_head q (content_type c) 0) c)"
proof -
  have "take 1024 (binary_Write ReplyHead_codec h @ content_bytes c) = binary_Write ReplyHead_codec h @ content_bytes c" for h
    using content_short [OF assms(2)] by (simp only: take_all)
  moreover have "decodePacket (binary_Write ReplyHead_codec (chronyd_head q (content_type c) 0) @ content_bytes c) =
      Ok (content_reply (chronyd_head q (content_type c) 0) c)"
    using decodePacket_content [OF _ _ assms(2), of "chronyd_head q (content_type c) 0" "[]"] by (simp add: chronyd_head_def)
  moreover have "1 + (1 + word_of_nat k) = (2 + word_of_nat k :: u32)" by simp
  ultimately show ?thesis
    using assms(1) by (simp add: chrony_ask_def chronyd_env_def chrony_Communicate_def Let_def ac_simps)
qed

lemma ask_tracking:
  assumes "cok replyTrackingContent_codec (cd_tracking d)"
  shows "ask_as as_tracking name (chronyd_env d) k NewTrackingPacket = Ok (newTracking (cd_tracking d))"
proof -
  have "chrony_ask (chronyd_env d) k NewTrackingPacket =
      Ok (content_reply (chronyd_head ((new_head 33)\<lparr>rq_Sequence := 2 + word_of_nat k\<rparr>) (content_type (CTracking (cd_tracking d))) 0)
        (CTracking (cd_tracking d)))"
    using assms
    by (intro chrony_ask_answer) (simp_all add: chronyd_answer_def NewTrackingPacket_def Let_def new_head_def)
  then show ?thesis by (simp add: ask_as_def wrap_error_def)
qed

lemma ask_sources:
  assumes "length (cd_sources d) < 2 ^ 32"
  shows "ask_as as_sources name (chronyd_env d) k NewSourcesPacket = Ok (int (length (cd_sources d)))"
proof -
  let ?c = "CSources (word_of_nat (length (cd_sources d)))"
  have "chrony_ask (chronyd_env d) k NewSourcesPacket =
      Ok (content_reply (chronyd_head ((new_head 14)\<lparr>rq_Sequence := 2 + word_of_nat k\<rparr>) (content_type ?c) 0) ?c)"
    by (intro chrony_ask_answer) (simp_all add: chronyd_answer_def NewSourcesPacket_def Let_def new_head_def)
  then show ?thesis using assms by (simp add: ask_as_def wrap_error_def unsigned_of_nat take_bit_nat_eq_self)
qed

lemma ask_source_data:
  assumes "i < length (cd_sources d)" and "length (cd_sources d) < 2 ^ 32" and "cok replySourceDataContent_codec (cd_sources d ! i)"
  shows "ask_as as_source_data name (chronyd_env d) k (NewSourceDataPacket (word_of_nat i)) = Ok (newSourceData (cd_sources d ! i))"
proof -
  let ?c = "CSourceData (cd_sources d ! i)"
  have i: "unat (word_of_nat i :: u32) = i" using assms(1,2) by (simp add: unat_of_nat take_bit_nat_eq_self)
  have "chrony_ask (chronyd_env d) k (NewSourceDataPacket (word_of_nat i)) =
      Ok (content_reply (chronyd_head ((new_head 15)\<lparr>rq_Sequence := 2 + word_of_nat k\<rparr>) (content_type ?c) 0) ?c)"
    using assms i
    by (intro chrony_ask_answer)
      (simp_all add: chronyd_answer_def NewSourceDataPacket_def Let_def new_head_def)
  then show ?thesis by (simp add: ask_as_def wrap_error_def)
qed

text \<open>The fold of peers over the sources from the i-th on.\<close>

lemma check_sources_step:
  assumes "i < length (cd_sources d)" and "length (cd_sources d) < 2 ^ 32" and "cok replySourceDataContent_codec (cd_sources d ! i)"
    and "NewPeerFromChrony tx (newSourceData (cd_sources d ! i)) None = Ok p"
  shows "\<exists>src. check_source tx (chronyd_env d) False k i = Ok (p, src, Suc k)"
  using ask_source_data [OF assms(1-3)] assms(4) by (simp add: check_source_def wrap_error_def)

definition source_ok :: "replySourceDataContent \<Rightarrow> bool" where
  "source_ok c \<longleftrightarrow> cok replySourceDataContent_codec c \<and> unat (rsd_State c) < 6"

definition peer_of :: "text_funs \<Rightarrow> replySourceDataContent \<Rightarrow> Peer" where
  "peer_of tx c = (case NewPeerFromChrony tx (newSourceData c) None of Inr p \<Rightarrow> p | Inl _ \<Rightarrow> undefined)"

lemma NewPeerFromChrony_ok: "source_ok c \<Longrightarrow> NewPeerFromChrony tx (newSourceData c) None = Ok (peer_of tx c)"
  by (simp add: source_ok_def peer_of_def NewPeerFromChrony_def SourceStateDesc_def newSourceData_def Let_def)

lemma check_sources_all:
  assumes "list_all source_ok (cd_sources d)" and "length (cd_sources d) \<le> 2 ^ 16" and "i + n = length (cd_sources d)"
  shows "\<exists>r'. check_sources tx (chronyd_env d) False k i n r = Ok r' \<and>
    map_of (cr_Peers r') = (\<lambda>x. if i \<le> unat x \<and> unat x < length (cd_sources d)
      then Some (peer_of tx (cd_sources d ! unat x)) else map_of (cr_Peers r) x) \<and>
    cr_SysVars r' = cr_SysVars r \<and> cr_LI r' = cr_LI r \<and> cr_Correction r' = cr_Correction r"
  using assms(3)
proof (induction n arbitrary: i k r)
  case 0
  then show ?case by (auto intro!: ext)
next
  case (Suc n)
  let ?p = "peer_of tx (cd_sources d ! i)" and ?L = "length (cd_sources d)"
  have "source_ok (cd_sources d ! i)" using assms(1) Suc.prems by (simp add: list_all_length)
  then obtain src where c: "check_source tx (chronyd_env d) False k i = Ok (?p, src, Suc k)"
    using check_sources_step [of i d tx ?p k] NewPeerFromChrony_ok Suc.prems assms(2) by (auto simp: source_ok_def)
  let ?r = "r\<lparr>cr_Peers := AList.update (word_of_nat i) ?p (cr_Peers r),
      cr_ClockSource := (case src of None \<Rightarrow> cr_ClockSource r | Some c \<Rightarrow> c)\<rparr>"
  obtain r' where r': "check_sources tx (chronyd_env d) False (Suc k) (Suc i) n ?r = Ok r'"
      "map_of (cr_Peers r') = (\<lambda>x. if Suc i \<le> unat x \<and> unat x < ?L
        then Some (peer_of tx (cd_sources d ! unat x)) else map_of (cr_Peers ?r) x)"
      "cr_SysVars r' = cr_SysVars ?r \<and> cr_LI r' = cr_LI ?r \<and> cr_Correction r' = cr_Correction ?r"
    using Suc.IH [of "Suc i" "Suc k" ?r] Suc.prems by auto
  have i: "unat (word_of_nat i :: u16) = i" using Suc.prems assms(2) by (simp add: unat_of_nat take_bit_nat_eq_self)
  then have "x = word_of_nat i \<longleftrightarrow> unat x = i" for x :: u16 by (metis word_unat_eq_iff)
  then have "map_of (cr_Peers r') = (\<lambda>x. if i \<le> unat x \<and> unat x < ?L
      then Some (peer_of tx (cd_sources d ! unat x)) else map_of (cr_Peers r) x)"
    using Suc.prems unfolding r'(2) by (intro ext) (auto simp: update_conv')
  with c r' show ?case by simp
qed

lemma chrony_run_complete:
  assumes "cok replyTrackingContent_codec (cd_tracking d)" and "list_all source_ok (cd_sources d)"
    and "length (cd_sources d) \<le> 2 ^ 16" and "unat (ucast (rtr_LeapStatus (cd_tracking d)) :: u8) < 4"
  shows "\<exists>r. ChronyCheck_Run tx (chronyd_env d) False = Ok r \<and>
    cr_LI r = ucast (rtr_LeapStatus (cd_tracking d)) \<and>
    cr_Correction r = ToFloat (rtr_CurrentCorrection (cd_tracking d)) \<and>
    cr_SysVars r = Some (NewSystemVariablesFromChrony tx (newTracking (cd_tracking d))) \<and>
    map_of (cr_Peers r) = (\<lambda>i. if unat i < length (cd_sources d) then Some (peer_of tx (cd_sources d ! unat i)) else None)"
proof -
  let ?t = "newTracking (cd_tracking d)"
  have t: "tr_LeapStatus ?t = rtr_LeapStatus (cd_tracking d)" "tr_CurrentCorrection ?t = ToFloat (rtr_CurrentCorrection (cd_tracking d))"
    by (simp_all add: newTracking_def)
  have "\<exists>desc. index LeapDesc (unat (ucast (tr_LeapStatus ?t) :: u8)) = Ok desc"
    using assms(4) by (simp add: t index_def LeapDesc_def)
  then obtain desc where desc: "index LeapDesc (unat (ucast (tr_LeapStatus ?t) :: u8)) = Ok desc" ..
  let ?r = "NewNTPCheckResult\<lparr>cr_Correction := tr_CurrentCorrection ?t, cr_LIDesc := desc,
      cr_LI := ucast (tr_LeapStatus ?t), cr_Event := ''clock_sync'', cr_SysVars := Some (NewSystemVariablesFromChrony tx ?t)\<rparr>"
  have "ChronyCheck_Run tx (chronyd_env d) False =
      check_sources tx (chronyd_env d) False 2 0 (length (cd_sources d)) ?r"
    using assms(1,3) desc by (simp add: ChronyCheck_Run_def ask_tracking ask_sources Let_def)
  moreover have e: "cr_Peers ?r = []" by (simp add: NewNTPCheckResult_def)
  moreover obtain r' where "check_sources tx (chronyd_env d) False 2 0 (length (cd_sources d)) ?r = Ok r'"
      "map_of (cr_Peers r') = (\<lambda>x. if 0 \<le> unat x \<and> unat x < length (cd_sources d)
        then Some (peer_of tx (cd_sources d ! unat x)) else map_of (cr_Peers ?r) x)"
      "cr_SysVars r' = cr_SysVars ?r" "cr_LI r' = cr_LI ?r" "cr_Correction r' = cr_Correction ?r"
    using check_sources_all [OF assms(2,3), of 0 "length (cd_sources d)" tx 2 ?r] by auto
  ultimately show ?thesis
    unfolding e map_of.simps by (intro exI [of _ r'] conjI) (simp_all add: t)
qed

text \<open>
  A check of a chronyd with up to 65536 sources gives its tracking data and exactly its sources as peers, each under its number,
  if the leap status and the states of the sources have names.
\<close>
theorem ChronyCheck_Run_complete:
  assumes "cok replyTrackingContent_codec (cd_tracking d)" and "list_all source_ok (cd_sources d)"
    and "length (cd_sources d) \<le> 2 ^ 16" and "unat (ucast (rtr_LeapStatus (cd_tracking d)) :: u8) < 4"
  shows "\<exists>r. ChronyCheck_Run tx (chronyd_env d) False = Ok r \<and>
    cr_LI r = ucast (rtr_LeapStatus (cd_tracking d)) \<and>
    cr_Correction r = ToFloat (rtr_CurrentCorrection (cd_tracking d)) \<and>
    cr_SysVars r = Some (NewSystemVariablesFromChrony tx (newTracking (cd_tracking d))) \<and>
    map_of (cr_Peers r) = (\<lambda>i. if unat i < length (cd_sources d) then Some (peer_of tx (cd_sources d ! unat i)) else None)"
  by (rule chrony_run_complete [OF assms])

text \<open>Tracking data and sources that chronyd might report.\<close>

definition example_ip :: ipAddr where
  "example_ip = \<lparr>ia_IP = [10, 0, 0, 1, 0, 0, 0, 0, 0, 0, 0, 0, 0, 0, 0, 0], ia_Family = 1, ia_Pad = 0\<rparr>"

definition example_source :: "u16 \<Rightarrow> replySourceDataContent" where
  "example_source st = \<lparr>rsd_IPAddr = example_ip, rsd_Poll = 10, rsd_Stratum = 2, rsd_State = st, rsd_Mode = 0, rsd_Flags = 0,
     rsd_Reachability = 255, rsd_SinceSample = 17, rsd_OrigLatestMeas = 0, rsd_LatestMeas = 0, rsd_LatestMeasErr = 0\<rparr>"

definition example_tracking :: replyTrackingContent where
  "example_tracking = \<lparr>rtr_RefID = 0x0A000001, rtr_IPAddr = example_ip, rtr_Stratum = 3, rtr_LeapStatus = 0,
     rtr_RefTime = \<lparr>tp_SecHigh = 0x7fffffff, tp_SecLow = 1600000000, tp_Nsec = 0\<rparr>, rtr_CurrentCorrection = 0, rtr_LastOffset = 0,
     rtr_RMSOffset = 0, rtr_FreqPPM = 0, rtr_ResidFreqPPM = 0, rtr_SkewPPM = 0, rtr_RootDelay = 0, rtr_RootDispersion = 0,
     rtr_LastUpdateInterval = 0\<rparr>"

definition example_chronyd :: chronyd where
  "example_chronyd = \<lparr>cd_tracking = example_tracking, cd_sources = [example_source 0, example_source 4]\<rparr>"

definition example_text :: text_funs where
  "example_text = \<lparr>tx_ParseFloat = (\<lambda>_. 0), tx_Sscan = (\<lambda>_. 0), tx_IP = (\<lambda>_. ''10.0.0.1''), tx_Time = (\<lambda>_. []), tx_Runes = (\<lambda>_. [])\<rparr>"

lemma example_contents_ok: "cok replyTrackingContent_codec example_tracking" "cok replySourceDataContent_codec (example_source st)"
  by (simp_all add: example_tracking_def example_source_def replyTrackingContent_codec_def replySourceDataContent_codec_def
      example_ip_def ipAddr_codec_def timeSpec_codec_def)

theorem ChronyCheck_Run_complete_witness:
  "\<exists>r. ChronyCheck_Run example_text (chronyd_env example_chronyd) False = Ok r \<and>
     map_of (cr_Peers r) 1 = Some (peer_of example_text (example_source 4)) \<and> map_of (cr_Peers r) 2 = None"
  using ChronyCheck_Run_complete [of example_chronyd example_text] example_contents_ok
  by (auto simp: example_chronyd_def source_ok_def example_source_def example_tracking_def)

section \<open>Panics\<close>

lemma wrap_err_panic: "wrap_error m r = Inl Panic \<longleftrightarrow> r = Inl Panic"
  by (simp add: wrap_error_def split: sum.split goerr.split)

text \<open>A connection fails with errors, it does not panic.\<close>

definition daemon_ok :: "daemon \<Rightarrow> bool" where
  "daemon_ok d \<longleftrightarrow> (\<forall>k buf. fst (d k buf) \<noteq> Inl Panic \<and> snd (d k buf) \<noteq> Inl Panic)"

lemma chrony_ask_no_panic: "daemon_ok d \<Longrightarrow> chrony_ask d k p \<noteq> Inl Panic"
  using decodePacket_no_panic
  by (auto simp: chrony_ask_def chrony_Communicate_def Let_def bind_res_panic_iff daemon_ok_def)

lemma ask_as_no_panic: "daemon_ok d \<Longrightarrow> ask_as cast name d k p \<noteq> Inl Panic"
  using chrony_ask_no_panic by (auto simp: ask_as_def bind_res_panic_iff wrap_err_panic split: option.splits)

lemma check_source_panic:
  assumes "daemon_ok d" and "check_source tx d unix k i = Inl Panic"
  shows "\<exists>sd. ask_as as_source_data ''sourcedata'' d k (NewSourceDataPacket (word_of_nat i)) = Ok sd \<and> 6 \<le> unat (sd_State sd)"
proof -
  obtain sd where sd: "ask_as as_source_data ''sourcedata'' d k (NewSourceDataPacket (word_of_nat i)) = Ok sd"
    using assms ask_as_no_panic by (fastforce simp: check_source_def bind_res_panic_iff)
  have "\<exists>n. NewPeerFromChrony tx sd n = Inl Panic"
    using assms(2) sd ask_as_no_panic [OF assms(1)]
    by (fastforce simp: check_source_def bind_res_panic_iff wrap_err_panic split: if_splits)
  then have "6 \<le> unat (sd_State sd)"
    by (auto simp: NewPeerFromChrony_def Let_def bind_res_panic_iff index_def SourceStateDesc_def split: if_splits option.splits)
  with sd show ?thesis by blast
qed

lemma check_sources_panic:
  assumes "daemon_ok d" and "check_sources tx d unix k i n r = Inl Panic"
  shows "\<exists>k i sd. ask_as as_source_data ''sourcedata'' d k (NewSourceDataPacket (word_of_nat i)) = Ok sd \<and> 6 \<le> unat (sd_State sd)"
  using assms(2)
proof (induction n arbitrary: k i r)
  case 0
  then show ?case by simp
next
  case (Suc n)
  then show ?case
    using check_source_panic [OF assms(1)] by (fastforce simp: bind_res_panic_iff)
qed

text \<open>
  Whatever the daemon answers, the only way to make the check panic is a value without a name: a leap status whose low byte
  is above 3, or a source state above 5.
\<close>
theorem ChronyCheck_Run_panic:
  assumes "daemon_ok d" and "ChronyCheck_Run tx d unix = Inl Panic"
  shows "(\<exists>t. ask_as as_tracking ''tracking'' d 0 NewTrackingPacket = Ok t \<and> 4 \<le> unat (ucast (tr_LeapStatus t) :: u8)) \<or>
    (\<exists>k i sd. ask_as as_source_data ''sourcedata'' d k (NewSourceDataPacket (word_of_nat i)) = Ok sd \<and> 6 \<le> unat (sd_State sd))"
proof -
  obtain t where t: "ask_as as_tracking ''tracking'' d 0 NewTrackingPacket = Ok t"
    using assms ask_as_no_panic by (fastforce simp: ChronyCheck_Run_def bind_res_panic_iff)
  show ?thesis
  proof (cases "4 \<le> unat (ucast (tr_LeapStatus t) :: u8)")
    case True
    with t show ?thesis by blast
  next
    case False
    then have "index LeapDesc (unat (ucast (tr_LeapStatus t) :: u8)) \<noteq> Inl Panic" by (simp add: index_def LeapDesc_def)
    then have "\<exists>k n r. check_sources tx d unix k 0 n r = Inl Panic"
      using assms t ask_as_no_panic [OF assms(1)]
      by (fastforce simp: ChronyCheck_Run_def bind_res_panic_iff Let_def)
    then show ?thesis using check_sources_panic [OF assms(1)] by blast
  qed
qed

definition example_bad_chronyd :: chronyd where
  "example_bad_chronyd = \<lparr>cd_tracking = example_tracking, cd_sources = [example_source 6]\<rparr>"

lemma example_bad_panics: "ChronyCheck_Run example_text (chronyd_env example_bad_chronyd) False = Inl Panic"
proof -
  let ?d = example_bad_chronyd
  have "ask_as as_tracking name (chronyd_env ?d) k NewTrackingPacket = Ok (newTracking example_tracking)" for name k
    using ask_tracking [of ?d] example_contents_ok by (simp add: example_bad_chronyd_def)
  moreover have "ask_as as_sources name (chronyd_env ?d) k NewSourcesPacket = Ok 1" for name k
    using ask_sources [of ?d] by (simp add: example_bad_chronyd_def)
  moreover have "ask_as as_source_data name (chronyd_env ?d) k (NewSourceDataPacket 0) = Ok (newSourceData (example_source 6))" for name k
    using ask_source_data [of 0 ?d] example_contents_ok by (simp add: example_bad_chronyd_def)
  ultimately show ?thesis
    by (simp add: ChronyCheck_Run_def check_source_def NewPeerFromChrony_def newTracking_def newSourceData_def
        example_tracking_def example_source_def LeapDesc_def SourceStateDesc_def index_def wrap_error_def)
qed

theorem ChronyCheck_Run_panic_witness:
  "(\<exists>t. ask_as as_tracking ''tracking'' (chronyd_env example_bad_chronyd) 0 NewTrackingPacket = Ok t \<and> 4 \<le> unat (ucast (tr_LeapStatus t) :: u8)) \<or>
    (\<exists>k i sd. ask_as as_source_data ''sourcedata'' (chronyd_env example_bad_chronyd) k (NewSourceDataPacket (word_of_nat i)) = Ok sd \<and> 6 \<le> unat (sd_State sd))"
  by (rule ChronyCheck_Run_panic [OF _ example_bad_panics]) (simp add: daemon_ok_def chronyd_env_def)

section \<open>Statistics and diagnosis\<close>

lemma best_of_zero: "best_of f ps = 0"
  unfolding best_of_def by (induction ps rule: rev_induct) auto

text \<open>
  Without a system peer the statistics always report stratum 0 and a poll interval of one second, whatever the good peers
  have: the search for the best values starts at 0 and never moves; and the averages divide the sum over the good peers by the number of all peers.
\<close>
theorem NewNTPStats_no_sys_peer:
  assumes "cr_SysVars r = Some sv" and "FindSysPeer r = Inl e" and "FindGoodPeers r = Ok good"
  shows "\<exists>st. NewNTPStats fl r = Ok st \<and> ns_PeerStratum st = 0 \<and> ns_PeerPoll st = 1 \<and>
    ns_PeerDelay st = fl_round fl (float_sum fl (map pe_Delay good) / of_nat (length (cr_Peers r)))"
proof -
  have "cr_Peers r \<noteq> []" using assms(3) by (auto simp: FindGoodPeers_def Let_def split: if_splits)
  then show ?thesis
    using assms by (simp add: NewNTPStats_def wrap_error_def best_of_zero poll_exponent_def shift_one_def i64_defs Let_def)
qed

definition example_good_peer :: Peer where
  "example_good_peer = peer_of example_text (example_source 4)"

definition example_result :: NTPCheckResult where
  "example_result = NewNTPCheckResult\<lparr>cr_SysVars := Some (NewSystemVariablesFromChrony example_text (newTracking example_tracking)),
     cr_Peers := [(0, example_good_peer)]\<rparr>"

definition example_floats :: float_funs where
  "example_floats = \<lparr>fl_round = (\<lambda>x. x), fl_negative = (\<lambda>_. 0)\<rparr>"

theorem NewNTPStats_no_sys_peer_witness:
  "\<exists>st. NewNTPStats example_floats example_result = Ok st \<and> ns_PeerStratum st = 0 \<and> pe_Stratum example_good_peer = 2"
proof -
  have p: "pe_Selection example_good_peer = 4" "pe_Stratum example_good_peer = 2"
    by (simp_all add: example_good_peer_def peer_of_def NewPeerFromChrony_def newSourceData_def example_source_def
        SourceStateDesc_def chronyToPeerSelection_def)
  have "cr_SysVars example_result = Some (NewSystemVariablesFromChrony example_text (newTracking example_tracking))"
    "FindSysPeer example_result = Err ''no sys.peer present''" "FindGoodPeers example_result = Ok [example_good_peer]"
    using p by (simp_all add: example_result_def NewNTPCheckResult_def FindSysPeer_def FindGoodPeers_def)
  then show ?thesis
    using NewNTPStats_no_sys_peer [of example_result _ _ _ example_floats] p(2) by blast
qed

text \<open>
  The diagnosis ends early with an error exactly if no peer is the system peer; otherwise it prints all seven
  results, and none of them is out of the range of the printed statuses.
\<close>
theorem runDiagnosers_exits:
  "case runDiagnosers (diagnosers fl) r of (sts, exits) \<Rightarrow>
     (exits \<longleftrightarrow> \<not> list_ex (\<lambda>p. pe_Selection (snd p) = 6) (cr_Peers r)) \<and>
     length sts = (if exits then 1 else 7) \<and> StatusCRITICAL \<notin> set sts"
proof (cases "FindSysPeer r")
  case (Inl e)
  then have "\<not> list_ex (\<lambda>p. pe_Selection (snd p) = 6) (cr_Peers r)"
    by (auto simp: FindSysPeer_def find_None_iff list_ex_iff split: if_splits option.splits)
  with Inl show ?thesis by (simp add: diagnosers_def checkSync_def)
next
  case (Inr p)
  then have "list_ex (\<lambda>p. pe_Selection (snd p) = 6) (cr_Peers r)"
    by (auto simp: FindSysPeer_def find_Some_iff list_ex_iff split: if_splits option.splits)
  moreover have "checkAgainstThreshold a b c \<noteq> StatusCRITICAL" for a b c by (simp add: checkAgainstThreshold_def)
  ultimately show ?thesis
    using Inr
    by (simp add: diagnosers_def checkSync_def checkLeap_def checkOffset_def checkJitter_def checkCorrectionMetric_def
        checkPeersFlash_def checkPeersReach_def split: status.splits)
qed

text \<open>
  The flash word and the flashers of a chrony peer come from the flags of the source data, which hold other bits: for a source without
  flags the word is 0 but all ten tests are listed as failed, whatever the NTP data say.
\<close>
theorem NewPeerFromChrony_flashers:
  assumes "NewPeerFromChrony tx s n = Ok p" and "sd_Flags s = 0"
  shows "pe_Flash p = 0 \<and> pe_Flashers p = map snd NTPTestDescMap"
  using assms
  by (auto simp: NewPeerFromChrony_def Let_def bind_res_Ok_iff ReadNTPTestFlags_def filter_True split: option.splits)

theorem NewPeerFromChrony_flashers_witness:
  "pe_Flash example_good_peer = 0 \<and> pe_Flashers example_good_peer = map snd NTPTestDescMap"
proof -
  have "source_ok (example_source 4)" using example_contents_ok by (simp add: source_ok_def example_source_def)
  then show ?thesis
    using NewPeerFromChrony_flashers [OF NewPeerFromChrony_ok, of "example_source 4" example_text]
    by (simp add: example_good_peer_def example_source_def newSourceData_def)
qed

lemma LI_named: "unat (ssw_LI (ReadSystemStatusWord w)) < 4"
proof -
  have "ssw_LI (ReadSystemStatusWord w) = ucast (take_bit 2 (drop_bit 14 w))"
    unfolding ReadSystemStatusWord_def field_masks by (simp only: and_field SystemStatusWord.simps)
  moreover have "unat (take_bit 2 (drop_bit 14 w)) < 4"
    using take_bit_nat_less_exp [of 2 "unat (drop_bit 14 w)"] by (simp only: unsigned_take_bit_eq) simp
  ultimately show ?thesis by (simp add: unsigned_ucast_eq take_bit_nat_eq_self)
qed

text \<open>
  An ntpd that reports a clock source above 9, which its six bits can hold, makes the check panic.
\<close>
theorem NTPCheck_Run_clock_source:
  assumes "ReadStatus d 0 = Some (Ok packet)" and "GetOperation (cm_Head packet) = OpReadStatus"
    and "10 \<le> unat (ssw_ClockSource (ReadSystemStatusWord (ch_Status (cm_Head packet))))"
  shows "NTPCheck_Run tx order d = Some (Inl Panic)"
  using assms LI_named [of "ch_Status (cm_Head packet)"]
  by (simp add: NTPCheck_Run_def wrap_error_def GetSystemStatus_def index_def LeapDesc_def ClockSourceDesc_def)

definition example_ntpd :: ntpd where
  "example_ntpd k buf = (Ok (), [Ok (fragment (\<lparr>ch_VnMode = 0x16, ch_REMOp = 0x81, ch_Sequence = 1, ch_Status = 0x0A00,
     ch_AssociationID = 0, ch_Offset = 0, ch_Count = 0\<rparr>, []))])"

theorem NTPCheck_Run_clock_source_witness:
  "NTPCheck_Run example_text (\<lambda>_. []) example_ntpd = Some (Inl Panic)"
proof -
  let ?h = "\<lparr>ch_VnMode = 0x16, ch_REMOp = 0x81, ch_Sequence = 1, ch_Status = 0x0A00, ch_AssociationID = 0, ch_Offset = 0, ch_Count = 0\<rparr>"
  have "ReadStatus example_ntpd 0 = Some (Ok \<lparr>cm_Head = ?h, cm_Data = []\<rparr>)"
    using read_fragment [of "(?h, [])"]
    by (simp add: ReadStatus_def ntpd_ask_def CommunicateWithData_def example_ntpd_def fragment_ok_def HasMore_def Let_def)
  then show ?thesis
    by (rule NTPCheck_Run_clock_source) (simp_all add: GetOperation_def ReadSystemStatusWord_def)
qed

end
