(* ===== verification/Go_Paths.thy ===== *)
theory Go_Paths
  imports Go_Strings
begin

text \<open>
  What the command-line tools take from \<open>path\<close> and \<open>strings\<close>: \<open>Split\<close>, \<open>Clean\<close> and \<open>Join\<close> of slash-separated paths,
  upper case, and the replacement of single characters.
\<close>

section \<open>Paths\<close>

text \<open>\<open>path.Split\<close>: the directory keeps its slash.\<close>

definition path_Split :: "string \<Rightarrow> string \<times> string" where
  "path_Split p =
     (let file = rev (takeWhile (\<lambda>c. c \<noteq> CHR ''/'') (rev p)) in (take (length p - length file) p, file))"

text \<open>\<open>path.Clean\<close> processes the elements of a path from left to right; the elements kept so far are a stack.\<close>

fun clean_elements :: "bool \<Rightarrow> string list \<Rightarrow> string list \<Rightarrow> string list" where
  "clean_elements rooted stack [] = rev stack"
| "clean_elements rooted stack (e # es) =
     (if e = [] \<or> e = ''.'' then clean_elements rooted stack es
      else if e = ''..'' then
        (case stack of
           t # ts \<Rightarrow> if t = ''..'' then clean_elements rooted (''..'' # stack) es else clean_elements rooted ts es
         | [] \<Rightarrow> clean_elements rooted (if rooted then [] else [''..'']) es)
      else clean_elements rooted (e # stack) es)"

definition path_Clean :: "string \<Rightarrow> string" where
  "path_Clean p =
     (let rooted = HasPrefix p ''/''; es = clean_elements rooted [] (strings_Split CHR ''/'' p) in
      if rooted then CHR ''/'' # strings_Join ''/'' es else if es = [] then ''.'' else strings_Join ''/'' es)"

definition path_Join :: "string list \<Rightarrow> string" where
  "path_Join es = (let ne = filter (\<lambda>e. e \<noteq> []) es in if ne = [] then [] else path_Clean (strings_Join ''/'' ne))"

text \<open>A clean element is kept as it is.\<close>

definition plain_element :: "string \<Rightarrow> bool" where
  "plain_element e \<longleftrightarrow> e \<noteq> [] \<and> e \<noteq> ''.'' \<and> e \<noteq> ''..'' \<and> CHR ''/'' \<notin> set e"

lemma clean_elements_plain:
  "list_all plain_element es \<Longrightarrow> clean_elements rooted stack es = rev stack @ es"
  by (induction es arbitrary: stack) (auto simp: plain_element_def)

text \<open>The path of a file beside a file given by an absolute path of plain elements.\<close>

lemma path_sibling:
  assumes "list_all plain_element (d # ds)" and "plain_element b" and "plain_element n"
    and "p = CHR ''/'' # strings_Join ''/'' ((d # ds) @ [b])"
  shows "path_Join [fst (path_Split p), n] = CHR ''/'' # strings_Join ''/'' ((d # ds) @ [n])"
proof -
  have join: "strings_Join ''/'' ((d # ds) @ [x]) = strings_Join ''/'' (d # ds) @ CHR ''/'' # x" for x
    by (induction ds arbitrary: d) simp_all
  have b: "takeWhile (\<lambda>c. c \<noteq> CHR ''/'') (rev b @ CHR ''/'' # t) = rev b" for t
    using assms(2) by (subst takeWhile_append2) (auto simp: plain_element_def)
  have dir: "fst (path_Split p) = CHR ''/'' # strings_Join ''/'' (d # ds) @ ''/''"
    unfolding assms(4) join path_Split_def Let_def by (simp add: b)
  have noslash: "list_all (\<lambda>e. CHR ''/'' \<notin> set e) (d # ds)"
    using assms(1) by (auto simp: list_all_iff plain_element_def)
  have split: "strings_Split CHR ''/'' (strings_Join ''/'' (x # xs) @ CHR ''/'' # t) = (x # xs) @ strings_Split CHR ''/'' t"
    if "list_all (\<lambda>e. CHR ''/'' \<notin> set e) (x # xs)" for x xs t
    using that by (induction xs arbitrary: x) (simp_all add: strings_Split_append)
  have "strings_Split CHR ''/'' (CHR ''/'' # strings_Join ''/'' (d # ds) @ ''/'' @ ''/'' @ n) = [] # (d # ds) @ [[], n]"
    using split [OF noslash, of "CHR ''/'' # n"] assms(3) by (simp add: plain_element_def strings_Split_single)
  moreover have "clean_elements True [] ([] # (d # ds) @ [[], n]) = (d # ds) @ [n]"
  proof -
    have cut: "clean_elements True s (xs @ [[], n]) = rev s @ xs @ [n]" if "list_all plain_element xs" for s xs
      using that assms(3) by (induction xs arbitrary: s) (auto simp: plain_element_def)
    show ?thesis using cut [OF assms(1), of "[]"] by simp
  qed
  ultimately show ?thesis
    using assms(3) by (simp add: path_Join_def dir plain_element_def path_Clean_def HasPrefix_def Let_def)
qed

section \<open>Texts\<close>

definition upper :: "char \<Rightarrow> char" where
  "upper c = (if 97 \<le> (of_char c :: nat) \<and> (of_char c :: nat) \<le> 122 then char_of (of_char c - 32 :: nat) else c)"

definition ToUpper :: "string \<Rightarrow> string" where
  "ToUpper s = map upper s"

lemma ReplaceAll_char: "ReplaceAll s [a] [b] = map (\<lambda>c. if c = a then b else c) s"
  by (induction s) (simp_all add: ReplaceAll.simps HasPrefix_def)

text \<open>Where a text is cut at the first occurrence of a character, the parts are determined.\<close>

lemma cut_at_first:
  assumes "c \<notin> set a" and "c \<notin> set b" and "a @ c # x = b @ c # y"
  shows "a = b \<and> x = y"
proof -
  have "takeWhile (\<lambda>z. z \<noteq> c) (s @ c # t) = s" if "c \<notin> set s" for s t
    using that by (subst takeWhile_append2) auto
  then have "a = b" using assms by metis
  with assms(3) show ?thesis by simp
qed

end
