(* ===== verification/NTP_Runner.thy ===== *)
theory NTP_Runner
  imports NTP_Check Go_Paths
begin

text \<open>
  \<open>cmd/ntpcheck/checker/runner.go\<close> and the connection it makes (\<open>DialUnix\<close> and \<open>Close\<close> of \<open>chrony.go\<close>): which daemon the
  host runs, where to reach it, and the runs of a check over such a connection; \<open>peerstats.go\<close>; and the commands of
  \<open>cmd/ntpcheck/cmd\<close> that print what a check gives. The outcomes of the system calls and the daemons behind an address are
  arguments.
\<close>

section \<open>Which daemon\<close>

datatype flavour = flavourNTPD | flavourChrony

definition ChronySocketPath :: string where
  "ChronySocketPath = ''/var/run/chrony/chronyd.sock''"

definition getPublicServer :: "flavour \<Rightarrow> string" where
  "getPublicServer f = (if f = flavourChrony then ''[::1]:323'' else ''[::1]:123'')"

definition getPrivateServer :: "flavour \<Rightarrow> string" where
  "getPrivateServer f = (if f = flavourChrony then ChronySocketPath else ''[::1]:123'')"

text \<open>
  \<open>ChronyPortV6Regexp\<close> is \<open>[0-9]+: [0-9A-Z]+:0143 .*\<close>, unanchored. The classes exclude the character that follows them, so a
  match from a position needs no backtracking.
\<close>

definition is_upnum :: "char \<Rightarrow> bool" where
  "is_upnum c \<longleftrightarrow> is_digit c \<or> 65 \<le> (of_char c :: nat) \<and> (of_char c :: nat) \<le> 90"

definition port_match_at :: "string \<Rightarrow> bool" where
  "port_match_at s =
     (let r = dropWhile is_digit s in
      length r < length s \<and> HasPrefix r '': '' \<and>
      (let t = drop 2 r; u = dropWhile is_upnum t in length u < length t \<and> HasPrefix u '':0143 ''))"

fun ChronyPortV6Regexp :: "string \<Rightarrow> bool" where
  "ChronyPortV6Regexp [] = False"
| "ChronyPortV6Regexp (c # s) = (port_match_at (c # s) \<or> ChronyPortV6Regexp s)"

text \<open>The lines of \<open>/proc/net/udp6\<close>, or that it cannot be opened.\<close>

definition getFlavour :: "string list res \<Rightarrow> flavour" where
  "getFlavour netFile =
     (case netFile of Inl _ \<Rightarrow> flavourNTPD
      | Inr lines \<Rightarrow> if list_ex ChronyPortV6Regexp lines then flavourChrony else flavourNTPD)"

section \<open>Connections\<close>

text \<open>
  The environment of a run: the process and its system calls, and who answers behind an address. What a run does to
  connections and to the file system is the list of its operations.
\<close>

record runner_env =
  re_udp6 :: "string list res"
  re_pid :: nat
  re_dial :: "string \<Rightarrow> unit res"
  re_dial_unix :: "string \<Rightarrow> string \<Rightarrow> unit res"
  re_chmod :: "string \<Rightarrow> unit res"
  re_remove :: "string \<Rightarrow> unit res"
  re_deadline :: "unit res"
  re_chrony :: "string \<Rightarrow> daemon"
  re_ntpd :: "string \<Rightarrow> ntpd"
  re_text :: text_funs
  re_order :: "(u16 \<rightharpoonup> PeerStatusWord) \<Rightarrow> u16 list"

datatype conn_op = Open_udp string | Close_udp string | Open_unix string string | Close_unix string | Remove_file string

text \<open>A connection: over UDP to an address, or the \<open>chronyConn\<close> with its own socket file.\<close>

datatype conn = Conn_udp string | chronyConn string string

definition local_socket :: "runner_env \<Rightarrow> string \<Rightarrow> string" where
  "local_socket e address = path_Join [fst (path_Split address), ''chronyc.'' @ show_nat (re_pid e) @ ''.sock'']"

definition DialUnix :: "runner_env \<Rightarrow> string \<Rightarrow> conn res \<times> conn_op list" where
  "DialUnix e address =
     (let local = local_socket e address in
      case re_dial_unix e local address of
        Inl err \<Rightarrow> (Inl err, [])
      | Inr _ \<Rightarrow> (bind_res (re_chmod e local) (\<lambda>_. Ok (chronyConn local address)), [Open_unix local address]))"

definition dial_udp :: "runner_env \<Rightarrow> string \<Rightarrow> conn res \<times> conn_op list" where
  "dial_udp e address =
     (case re_dial e address of Inl err \<Rightarrow> (Inl err, []) | Inr _ \<Rightarrow> (Ok (Conn_udp address), [Open_udp address]))"

text \<open>Closing a \<open>chronyConn\<close> removes its socket file first, and stops if that fails.\<close>

fun conn_Close :: "runner_env \<Rightarrow> conn \<Rightarrow> unit res \<times> conn_op list" where
  "conn_Close e (Conn_udp address) = (Ok (), [Close_udp address])"
| "conn_Close e (chronyConn local address) =
     (case re_remove e local of Inl err \<Rightarrow> (Inl err, []) | Inr _ \<Rightarrow> (Ok (), [Remove_file local, Close_unix local]))"

section \<open>Runs\<close>

text \<open>The two implementations of the interface \<open>Runner\<close>; \<open>Unix\<close> tells whether the connection is a \<open>chronyConn\<close>.\<close>

datatype Runner = ChronyRunner daemon bool | NTPRunner ntpd

fun ChronyCheck_Unix :: "conn \<Rightarrow> bool" where
  "ChronyCheck_Unix (chronyConn local address) = True"
| "ChronyCheck_Unix (Conn_udp address) = False"

fun conn_address :: "conn \<Rightarrow> string" where
  "conn_address (chronyConn local address) = address"
| "conn_address (Conn_udp address) = address"

definition getChecker :: "runner_env \<Rightarrow> flavour \<Rightarrow> conn \<Rightarrow> Runner" where
  "getChecker e f c =
     (if f = flavourChrony then ChronyRunner (re_chrony e (conn_address c)) (ChronyCheck_Unix c)
      else NTPRunner (re_ntpd e (conn_address c)))"

fun Runner_Run :: "runner_env \<Rightarrow> Runner \<Rightarrow> NTPCheckResult res option" where
  "Runner_Run e (ChronyRunner d unix) = Some (ChronyCheck_Run (re_text e) d unix)"
| "Runner_Run e (NTPRunner d) = NTPCheck_Run (re_text e) (re_order e) d"

fun Runner_ServerStats :: "Runner \<Rightarrow> CheckServerStats res option" where
  "Runner_ServerStats (ChronyRunner d unix) = Some (ChronyCheck_ServerStats d)"
| "Runner_ServerStats (NTPRunner d) = NTPCheck_ServerStats d"

text \<open>
  What the three runs share: a connection that is closed when the run returns, the deadline, and the checker. No result
  (\<^const>\<open>None\<close>) is a run that never returns.
\<close>

definition with_conn :: "runner_env \<Rightarrow> flavour \<Rightarrow> (Runner \<Rightarrow> 'a res option) \<Rightarrow> conn res \<times> conn_op list \<Rightarrow> 'a res option \<times> conn_op list" where
  "with_conn e f run dialed =
     (case dialed of
        (Inl err, ops) \<Rightarrow> (Some (Inl err), ops)
      | (Inr c, ops) \<Rightarrow>
          (case re_deadline e of
             Inl err \<Rightarrow> (Some (Inl err), ops @ snd (conn_Close e c))
           | Inr _ \<Rightarrow>
               (case run (getChecker e f c) of
                  None \<Rightarrow> (None, ops)
                | Some r \<Rightarrow> (Some r, ops @ snd (conn_Close e c)))))"

definition checker_RunCheck :: "runner_env \<Rightarrow> string \<Rightarrow> NTPCheckResult res option \<times> conn_op list" where
  "checker_RunCheck e address =
     (let f = getFlavour (re_udp6 e); address = (if address = [] then getPublicServer f else address)
      in with_conn e f (Runner_Run e) (dial_udp e address))"

definition RunNTPData :: "runner_env \<Rightarrow> string \<Rightarrow> NTPCheckResult res option \<times> conn_op list" where
  "RunNTPData e address =
     (let f = getFlavour (re_udp6 e) in
      if f \<noteq> flavourChrony then checker_RunCheck e address
      else let address = (if address = [] then getPrivateServer f else address)
           in with_conn e f (Runner_Run e) (DialUnix e address))"

definition RunServerStats :: "runner_env \<Rightarrow> string \<Rightarrow> CheckServerStats res option \<times> conn_op list" where
  "RunServerStats e address =
     (let f = getFlavour (re_udp6 e); address = (if address = [] then getPrivateServer f else address)
      in with_conn e f Runner_ServerStats (if f = flavourChrony then DialUnix e address else dial_udp e address))"

section \<open>Statistics of all peers\<close>

text \<open>The values of a \<open>map[string]interface{}\<close>.\<close>

datatype stat_value = Stat_float f64 | Stat_int int

definition IsUnspecified :: "netIP \<Rightarrow> bool" where
  "IsUnspecified ip \<longleftrightarrow> IP_Equal ip [0, 0, 0, 0] \<or> IP_Equal ip (replicate 16 0)"

text \<open>The name under which a peer is reported: that of the reverse lookup if there is one.\<close>

definition peer_hostname :: "(string \<Rightarrow> string list res) \<Rightarrow> Peer \<Rightarrow> string" where
  "peer_hostname lookup peer =
     (let name = (case lookup (pe_SRCAdr peer) of Inr (h # _) \<Rightarrow> h | _ \<Rightarrow> pe_SRCAdr peer)
      in ReplaceAll (ReplaceAll (TrimSuffix name ''.'') ''.'' ''_'') '':'' ''_'')"

definition peer_key :: "string \<Rightarrow> string \<Rightarrow> string" where
  "peer_key hostname field = ''ntp.peers.'' @ hostname @ ''.'' @ field"

definition peer_values :: "float_funs \<Rightarrow> Peer \<Rightarrow> (string \<times> stat_value) list" where
  "peer_values fl peer =
     [(''delay'', Stat_float (pe_Delay peer)),
      (''poll'', Stat_int (shift_one (poll_exponent fl (pe_PPoll peer) (pe_HPoll peer)))),
      (''jitter'', Stat_float (pe_Jitter peer)), (''offset'', Stat_float (pe_Offset peer)),
      (''stratum'', Stat_int (pe_Stratum peer))]"

definition valid_source :: "(string \<Rightarrow> netIP option) \<Rightarrow> Peer \<Rightarrow> bool" where
  "valid_source parse peer = (case parse (pe_SRCAdr peer) of None \<Rightarrow> False | Some ip \<Rightarrow> \<not> IsUnspecified ip)"

definition add_peer ::
  "float_funs \<Rightarrow> (string \<Rightarrow> netIP option) \<Rightarrow> (string \<Rightarrow> string list res) \<Rightarrow> (string \<rightharpoonup> stat_value) \<Rightarrow> Peer \<Rightarrow> (string \<rightharpoonup> stat_value)" where
  "add_peer fl parse lookup result peer =
     (if valid_source parse peer
      then foldl (\<lambda>m (field, v). m(peer_key (peer_hostname lookup peer) field \<mapsto> v)) result (peer_values fl peer)
      else result)"

text \<open>The peers come in the order in which Go iterates over the map.\<close>

definition NewNTPPeerStats ::
  "float_funs \<Rightarrow> (string \<Rightarrow> netIP option) \<Rightarrow> (string \<Rightarrow> string list res) \<Rightarrow> (Peer list \<Rightarrow> Peer list) \<Rightarrow> NTPCheckResult \<Rightarrow>
   (string \<rightharpoonup> stat_value) res" where
  "NewNTPPeerStats fl parse lookup order r =
     (if cr_SysVars r = None then Err ''no system variables to output stats''
      else Ok (foldl (add_peer fl parse lookup) Map.empty (order (map snd (cr_Peers r)))))"

section \<open>Commands\<close>

text \<open>What the commands print; \<open>json.Marshal\<close> and the format of floats are arguments.\<close>

record ntpStatsLegacy =
  nl_NTPStats :: NTPStats
  nl_SystemNTPStat :: f64

definition ntp_printStats :: "float_funs \<Rightarrow> (NTPStats \<Rightarrow> string res) \<Rightarrow> (ntpStatsLegacy \<Rightarrow> string res) \<Rightarrow> NTPCheckResult \<Rightarrow> bool \<Rightarrow> string res" where
  "ntp_printStats fl marshal marshal_legacy r legacy =
     bind_res (NewNTPStats fl r) (\<lambda>output.
       if legacy then marshal_legacy \<lparr>nl_NTPStats = output, nl_SystemNTPStat = \<bar>ns_PeerOffset output\<bar>\<rparr> else marshal output)"

definition printOffset :: "float_funs \<Rightarrow> (f64 \<Rightarrow> string) \<Rightarrow> NTPCheckResult \<Rightarrow> string res" where
  "printOffset fl format r = bind_res (NewNTPStats fl r) (\<lambda>stats. Ok (format (ns_PeerOffset stats)))"

definition printPeerStats ::
  "float_funs \<Rightarrow> (string \<Rightarrow> netIP option) \<Rightarrow> (string \<Rightarrow> string list res) \<Rightarrow> (Peer list \<Rightarrow> Peer list) \<Rightarrow>
   ((string \<rightharpoonup> stat_value) \<Rightarrow> string res) \<Rightarrow> NTPCheckResult \<Rightarrow> string res" where
  "printPeerStats fl parse lookup order marshal r = bind_res (NewNTPPeerStats fl parse lookup order r) marshal"

definition printServerStats :: "(CheckServerStats \<Rightarrow> string res) \<Rightarrow> CheckServerStats \<Rightarrow> string res" where
  "printServerStats marshal r = marshal r"


section \<open>Recognising chronyd\<close>

text \<open>A match from a position is a text of the form the expression describes.\<close>

lemma port_match_at_iff:
  "port_match_at s \<longleftrightarrow> (\<exists>ds hs post. s = ds @ '': '' @ hs @ '':0143 '' @ post \<and>
     ds \<noteq> [] \<and> list_all is_digit ds \<and> hs \<noteq> [] \<and> list_all is_upnum hs)"
proof
  assume m: "port_match_at s"
  define ds r where "ds = takeWhile is_digit s" and "r = dropWhile is_digit s"
  define hs u where "hs = takeWhile is_upnum (drop 2 r)" and "u = dropWhile is_upnum (drop 2 r)"
  have parts: "s = ds @ r" "drop 2 r = hs @ u" by (simp_all add: ds_def r_def hs_def u_def)
  have pre: "take 2 r = '': ''" "take 6 u = '':0143 ''" and len: "length r < length s" "length u < length (drop 2 r)"
    using m by (simp_all add: port_match_at_def HasPrefix_def Let_def r_def u_def numeral_eq_Suc)
  have "ds \<noteq> []" "hs \<noteq> []" using parts len by auto
  moreover have "r = '': '' @ hs @ u" using append_take_drop_id [of 2 r] pre(1) parts(2) by simp
  moreover have "u = '':0143 '' @ drop 6 u" using append_take_drop_id [of 6 u] pre(2) by simp
  moreover have "list_all is_digit ds" "list_all is_upnum hs"
    by (auto simp: ds_def hs_def list_all_iff dest: set_takeWhileD)
  ultimately show "\<exists>ds hs post. s = ds @ '': '' @ hs @ '':0143 '' @ post \<and>
      ds \<noteq> [] \<and> list_all is_digit ds \<and> hs \<noteq> [] \<and> list_all is_upnum hs"
    using parts(1) by (intro exI [of _ ds] exI [of _ hs] exI [of _ "drop 6 u"]) simp
next
  assume "\<exists>ds hs post. s = ds @ '': '' @ hs @ '':0143 '' @ post \<and>
      ds \<noteq> [] \<and> list_all is_digit ds \<and> hs \<noteq> [] \<and> list_all is_upnum hs"
  then obtain ds hs post where s: "s = ds @ '': '' @ hs @ '':0143 '' @ post" and ne: "ds \<noteq> []" "hs \<noteq> []"
      and cls: "\<forall>c\<in>set ds. is_digit c" "\<forall>c\<in>set hs. is_upnum c"
    by (auto simp: list_all_iff)
  have colon: "\<not> is_digit CHR '':''" "\<not> is_upnum CHR '':''" by (simp_all add: is_upnum_def is_digit_def)
  have "dropWhile is_digit (ds @ CHR '':'' # x) = CHR '':'' # x" "dropWhile is_upnum (hs @ CHR '':'' # x) = CHR '':'' # x" for x
    using cls colon by (simp_all add: dropWhile_append2)
  then show "port_match_at s" using ne by (simp add: port_match_at_def s HasPrefix_def Let_def)
qed

lemma Regexp_suffix: "ChronyPortV6Regexp s \<longleftrightarrow> (\<exists>pre t. s = pre @ t \<and> port_match_at t)"
proof (induction s)
  case Nil
  then show ?case by (simp add: port_match_at_def)
next
  case (Cons c s)
  have "(\<exists>pre t. c # s = pre @ t \<and> port_match_at t) \<longleftrightarrow>
      port_match_at (c # s) \<or> (\<exists>pre t. s = pre @ t \<and> port_match_at t)"
    by (simp add: Cons_eq_append_conv) blast
  with Cons show ?case by simp
qed

text \<open>
  A line of \<open>/proc/net/udp6\<close> as the kernel prints it: the slot, the local address and port in hexadecimal, and the rest of the
  entry, where no colon is followed by a space.
\<close>

definition udp6_line :: "string \<Rightarrow> string \<Rightarrow> string \<Rightarrow> string \<Rightarrow> string" where
  "udp6_line sl addr port rest = sl @ '': '' @ addr @ '':'' @ port @ '' '' @ rest"

definition udp6_format :: "string \<times> string \<times> string \<times> string \<Rightarrow> bool" where
  "udp6_format l = (case l of (sl, addr, port, rest) \<Rightarrow>
     (\<exists>n. sl = replicate (5 - length (show_nat n)) CHR '' '' @ show_nat n) \<and>
     length addr = 32 \<and> list_all is_upnum addr \<and> length port = 4 \<and> list_all is_upnum port \<and> \<not> occurs '': '' rest)"

lemma no_colon: "list_all is_digit s \<Longrightarrow> CHR '':'' \<notin> set s" "list_all is_upnum s \<Longrightarrow> CHR '':'' \<notin> set s"
  by (auto simp: list_all_iff is_upnum_def is_digit_def)

text \<open>The separator after the slot is the only colon with a space behind it.\<close>

lemma separator_unique:
  assumes "a @ '': '' @ x = b @ '': '' @ y" and "CHR '':'' \<notin> set b" and "\<not> occurs '': '' y"
  shows "a = b \<and> x = y"
proof -
  from assms(1) consider us where "a = b @ us" "us @ '': '' @ x = '': '' @ y"
      | us where "a @ us = b" "'': '' @ x = us @ '': '' @ y"
    by (auto simp: append_eq_append_conv2)
  then show ?thesis
  proof cases
    case 1
    show ?thesis
    proof (cases us)
      case Nil
      with 1 show ?thesis by simp
    next
      case (Cons c vs)
      with 1(2) have c: "c = CHR '':''" "vs @ '': '' @ x = CHR '' '' # y" by simp_all
      then obtain ws where "vs = CHR '' '' # ws" "y = ws @ '': '' @ x" by (cases vs) auto
      with assms(3) show ?thesis by (auto simp: occurs_def)
    qed
  next
    case 2
    with assms(2) show ?thesis by (cases us) auto
  qed
qed

lemma tail_separator:
  assumes "list_all is_upnum addr" and "list_all is_upnum port" and "\<not> occurs '': '' rest" and "port \<noteq> []"
  shows "\<not> occurs '': '' (addr @ '':'' @ port @ '' '' @ rest)"
proof
  assume "occurs '': '' (addr @ '':'' @ port @ '' '' @ rest)"
  then obtain x y where xy: "x @ CHR '':'' # '' '' @ y = addr @ CHR '':'' # port @ '' '' @ rest" by (auto simp: occurs_def)
  have no: "CHR '':'' \<notin> set port" "CHR '':'' \<notin> set addr" using assms(1,2) by (simp_all add: no_colon)
  show False
  proof (cases "CHR '':'' \<in> set x")
    case False
    with xy no(2) have "'' '' @ y = port @ '' '' @ rest" using cut_at_first [of "CHR '':''" x addr] by blast
    then show False using assms(2,4) by (cases port) (auto simp: is_upnum_def is_digit_def)
  next
    case True
    then obtain x1 x2 where x: "x = x1 @ CHR '':'' # x2" "CHR '':'' \<notin> set x1" by (meson split_list_first)
    with xy no(2) have "x2 @ '': '' @ y = (port @ '' '') @ rest"
      using cut_at_first [of "CHR '':''" x1 addr "x2 @ CHR '':'' # '' '' @ y"] by simp
    then obtain us where "x2 = (port @ '' '') @ us \<and> us @ '': '' @ y = rest \<or> x2 @ us = port @ '' '' \<and> '': '' @ y = us @ rest"
      unfolding append_eq_append_conv2 by blast
    then show False
    proof
      assume u: "x2 @ us = port @ '' '' \<and> '': '' @ y = us @ rest"
      then have "us = []" using no(1) by (cases us) (auto simp: append_eq_append_conv2 Cons_eq_append_conv)
      with u assms(3) show False by (auto simp: occurs_def intro: exI [of _ "[]"])
    qed (use assms(3) in \<open>auto simp: occurs_def\<close>)
  qed
qed

lemma Regexp_udp6_line:
  assumes "udp6_format (sl, addr, port, rest)"
  shows "ChronyPortV6Regexp (udp6_line sl addr port rest) \<longleftrightarrow> port = ''0143''"
proof -
  obtain n where sl: "sl = replicate (5 - length (show_nat n)) CHR '' '' @ show_nat n"
    using assms by (auto simp: udp6_format_def)
  have f: "list_all is_upnum addr" "addr \<noteq> []" "length port = 4" "list_all is_upnum port" "\<not> occurs '': '' rest"
    using assms by (auto simp: udp6_format_def)
  note digits = show_nat_digits [of n]
  define tail where "tail = addr @ '':'' @ port @ '' '' @ rest"
  have no_sl: "CHR '':'' \<notin> set sl" using digits by (simp add: sl no_colon)
  have no_tail: "\<not> occurs '': '' tail" unfolding tail_def by (rule tail_separator [OF f(1,4,5)]) (use f(3) in auto)
  show ?thesis
  proof
    assume "ChronyPortV6Regexp (udp6_line sl addr port rest)"
    then obtain pre ds hs post where
        l: "udp6_line sl addr port rest = (pre @ ds) @ '': '' @ hs @ '':0143 '' @ post" and hs: "list_all is_upnum hs"
      by (auto simp: Regexp_suffix port_match_at_iff)
    then have "hs @ CHR '':'' # ''0143 '' @ post = addr @ CHR '':'' # port @ '' '' @ rest"
      using separator_unique [of "pre @ ds" "hs @ '':0143 '' @ post" sl tail] no_sl no_tail by (simp add: udp6_line_def tail_def)
    then have "''0143 '' @ post = port @ '' '' @ rest"
      using cut_at_first [of "CHR '':''" hs addr] hs f(1) by (auto simp: no_colon)
    then have "take 4 (''0143 '' @ post) = take 4 (port @ '' '' @ rest)" by simp
    then show "port = ''0143''" using f(3) by simp
  next
    assume "port = ''0143''"
    then have "port_match_at (show_nat n @ '': '' @ addr @ '':0143 '' @ rest)"
      using digits f(1,2) unfolding port_match_at_iff by blast
    then show "ChronyPortV6Regexp (udp6_line sl addr port rest)"
      using \<open>port = ''0143''\<close> unfolding Regexp_suffix
      by (intro exI [of _ "replicate (5 - length (show_nat n)) CHR '' ''"]
            exI [of _ "show_nat n @ '': '' @ addr @ '':0143 '' @ rest"]) (simp add: udp6_line_def sl)
  qed
qed

text \<open>
  On a host whose kernel lists its UDP sockets, \<open>ntpcheck\<close> talks to chronyd exactly when some socket is bound to port 323, and
  to ntpd otherwise, also when the list cannot be read.
\<close>
theorem getFlavour_port:
  assumes "list_all udp6_format socks" and "\<not> ChronyPortV6Regexp header"
  shows "getFlavour (Ok (header # map (\<lambda>(sl, addr, port, rest). udp6_line sl addr port rest) socks)) =
      (if ''0143'' \<in> (\<lambda>(sl, addr, port, rest). port) ` set socks then flavourChrony else flavourNTPD) \<and>
    getFlavour (Inl err) = flavourNTPD"
proof -
  have "list_ex ChronyPortV6Regexp (map (\<lambda>(sl, addr, port, rest). udp6_line sl addr port rest) socks) \<longleftrightarrow>
      ''0143'' \<in> (\<lambda>(sl, addr, port, rest). port) ` set socks"
    using assms(1) by (induction socks) (auto simp: Regexp_udp6_line)
  then show ?thesis using assms(2) by (simp add: getFlavour_def)
qed


definition example_udp6 :: "(string \<times> string \<times> string \<times> string) list" where
  "example_udp6 = [(''   87'', replicate 32 CHR ''0'', ''0143'', ''00000000000000000000000000000000:0000 07 00000000:00000000 00:00000000'')]"

definition example_header :: string where
  "example_header = ''  sl  local_address                         remote_address''"

lemma occurs_Cons: "occurs old (c # s) \<longleftrightarrow> HasPrefix (c # s) old \<or> occurs old s"
proof -
  have "(\<exists>b. c # s = old @ b) \<longleftrightarrow> HasPrefix (c # s) old"
    unfolding HasPrefix_def by (metis append_eq_conv_conj append_take_drop_id)
  then show ?thesis unfolding occurs_def by (metis append_Cons append_Nil list.exhaust list.inject)
qed

lemma occurs_Nil: "occurs old [] \<longleftrightarrow> old = []"
  by (simp add: occurs_def)

lemma example_udp6_format: "list_all udp6_format example_udp6"
proof -
  have "\<exists>n. ''   87'' = replicate (5 - length (show_nat n)) CHR '' '' @ show_nat n"
    by (rule exI [of _ 87]) code_simp
  moreover have "list_all is_upnum (replicate 32 CHR ''0'')" by (simp add: list_all_length is_upnum_def is_digit_def)
  ultimately show ?thesis
    by (simp add: example_udp6_def udp6_format_def occurs_Cons occurs_Nil HasPrefix_def is_upnum_def is_digit_def)
qed

theorem getFlavour_port_witness:
  "getFlavour (Ok (example_header # map (\<lambda>(sl, addr, port, rest). udp6_line sl addr port rest) example_udp6)) = flavourChrony"
proof -
  have "\<not> ChronyPortV6Regexp example_header" by code_simp
  then show ?thesis using getFlavour_port [OF example_udp6_format, of example_header] by (simp add: example_udp6_def)
qed

section \<open>Complete checks\<close>


definition example_runner :: runner_env where
  "example_runner = \<lparr>re_udp6 = Ok (example_header # map (\<lambda>(sl, addr, port, rest). udp6_line sl addr port rest) example_udp6),
     re_pid = 42, re_dial = (\<lambda>_. Ok ()), re_dial_unix = (\<lambda>_ _. Ok ()), re_chmod = (\<lambda>_. Ok ()), re_remove = (\<lambda>_. Ok ()),
     re_deadline = Ok (), re_chrony = (\<lambda>_. chronyd_env example_chronyd), re_ntpd = (\<lambda>_. example_ntpd),
     re_text = example_text, re_order = (\<lambda>_. [])\<rparr>"

lemma example_runner_flavour: "getFlavour (re_udp6 example_runner) = flavourChrony"
  by (simp only: example_runner_def runner_env.simps) code_simp


section \<open>Connections are released\<close>

text \<open>The connections and socket files that operations leave behind.\<close>

fun hold :: "string set \<times> string set \<Rightarrow> conn_op \<Rightarrow> string set \<times> string set" where
  "hold (conns, files) (Open_udp a) = (insert a conns, files)"
| "hold (conns, files) (Close_udp a) = (conns - {a}, files)"
| "hold (conns, files) (Open_unix l a) = (insert l conns, insert l files)"
| "hold (conns, files) (Close_unix l) = (conns - {l}, files)"
| "hold (conns, files) (Remove_file l) = (conns, files - {l})"

definition held :: "conn_op list \<Rightarrow> string set \<times> string set" where
  "held ops = foldl hold ({}, {}) ops"

definition files_ok :: "runner_env \<Rightarrow> bool" where
  "files_ok e \<longleftrightarrow> (\<forall>p. re_chmod e p = Ok () \<and> re_remove e p = Ok ())"

text \<open>A way to connect: what it opened is released by closing the connection, and nothing stays behind if it fails.\<close>

locale dialer =
  fixes dial :: "runner_env \<Rightarrow> string \<Rightarrow> conn res \<times> conn_op list"
  assumes opened: "files_ok e \<Longrightarrow> dial e a = (Ok c, ops) \<Longrightarrow> held (ops @ snd (conn_Close e c)) = ({}, {})"
    and failed: "files_ok e \<Longrightarrow> dial e a = (Inl err, ops) \<Longrightarrow> held ops = ({}, {})"
begin

lemma run_releases:
  assumes "files_ok e" and "fst (with_conn e f run (dial e a)) \<noteq> None"
  shows "held (snd (with_conn e f run (dial e a))) = ({}, {})"
proof (cases "fst (dial e a)")
  case (Inl err)
  then show ?thesis using failed [OF assms(1), of a err] by (cases "dial e a") (simp add: with_conn_def)
next
  case (Inr c)
  then have "held (snd (dial e a) @ snd (conn_Close e c)) = ({}, {})" using opened [OF assms(1), of a c] by (cases "dial e a") simp
  with assms(2) Inr show ?thesis
    by (cases "dial e a") (auto simp: with_conn_def split: sum.splits option.splits)
qed

end

interpretation udp: dialer dial_udp
  by unfold_locales (auto simp: dial_udp_def held_def split: sum.splits)

interpretation unix: dialer DialUnix
  by unfold_locales (auto simp: DialUnix_def held_def files_ok_def Let_def split: sum.splits)


lemma example_files_ok: "files_ok example_runner"
  by (simp add: files_ok_def example_runner_def)


text \<open>
  When the socket file beside chronyd's cannot be made accessible, the run fails and leaves the connection and the file
  behind.
\<close>
theorem failed_chmod_leaks:
  assumes "getFlavour (re_udp6 e) = flavourChrony" and "l = local_socket e ChronySocketPath"
    and "re_dial_unix e l ChronySocketPath = Ok ()" and "re_chmod e l = Inl err"
  shows "RunNTPData e [] = (Some (Inl err), [Open_unix l ChronySocketPath]) \<and>
    held (snd (RunNTPData e [])) = ({l}, {l}) \<and>
    l = ''/var/run/chrony/chronyc.'' @ show_nat (re_pid e) @ ''.sock''"
proof -
  have "plain_element (''chronyc.'' @ show_nat n @ ''.sock'')" for n
  proof -
    have "CHR ''/'' \<notin> set (show_nat n)" using show_nat_digits [of n] by (auto simp: list_all_iff is_digit_def)
    then show ?thesis by (simp add: plain_element_def)
  qed
  moreover have "list_all plain_element [''var'', ''run'', ''chrony'']" "plain_element ''chronyd.sock''"
      "ChronySocketPath = CHR ''/'' # strings_Join ''/'' ([''var'', ''run'', ''chrony''] @ [''chronyd.sock''])"
    by (simp_all add: plain_element_def ChronySocketPath_def)
  ultimately have "path_Join [fst (path_Split ChronySocketPath), ''chronyc.'' @ show_nat n @ ''.sock''] =
      CHR ''/'' # strings_Join ''/'' ([''var'', ''run'', ''chrony''] @ [''chronyc.'' @ show_nat n @ ''.sock''])" for n
    using path_sibling [of "''var''" "[''run'', ''chrony'']" "''chronyd.sock''"] by blast
  then have "l = ''/var/run/chrony/chronyc.'' @ show_nat (re_pid e) @ ''.sock''" using assms(2) by (simp add: local_socket_def)
  moreover have "RunNTPData e [] = (Some (Inl err), [Open_unix l ChronySocketPath])"
    using assms(3,4) by (simp add: RunNTPData_def assms(1) DialUnix_def getPrivateServer_def assms(2) with_conn_def)
  ultimately show ?thesis by (simp add: held_def)
qed

theorem failed_chmod_leaks_witness:
  "held (snd (RunNTPData (example_runner\<lparr>re_chmod := \<lambda>_. Err ''operation not permitted''\<rparr>) [])) =
     ({''/var/run/chrony/chronyc.42.sock''}, {''/var/run/chrony/chronyc.42.sock''})"
proof -
  let ?e = "example_runner\<lparr>re_chmod := \<lambda>_. Err ''operation not permitted''\<rparr>"
  have "getFlavour (re_udp6 ?e) = flavourChrony" using example_runner_flavour by simp
  moreover have "re_dial_unix ?e x y = Ok ()" "re_chmod ?e x = Err ''operation not permitted''" for x y
    by (simp_all add: example_runner_def)
  ultimately have "held (snd (RunNTPData ?e [])) = ({local_socket ?e ChronySocketPath}, {local_socket ?e ChronySocketPath})"
      "local_socket ?e ChronySocketPath = ''/var/run/chrony/chronyc.'' @ show_nat (re_pid ?e) @ ''.sock''"
    using failed_chmod_leaks [of ?e, OF _ refl] by blast+
  moreover have "''/var/run/chrony/chronyc.'' @ show_nat 42 @ ''.sock'' = ''/var/run/chrony/chronyc.42.sock''" by code_simp
  moreover have "re_pid ?e = 42" by (simp add: example_runner_def)
  ultimately show ?thesis by simp
qed

section \<open>Every peer is reported\<close>

lemma foldl_rekey: "foldl (\<lambda>m (f, v). m(g f \<mapsto> v)) m xs = foldl (\<lambda>m (k, v). m(k \<mapsto> v)) m (map (\<lambda>(f, v). (g f, v)) xs)"
  by (induction xs arbitrary: m) auto

lemma foldl_updates: "foldl (\<lambda>m (k, v). m(k \<mapsto> v)) m xs = m ++ map_of (rev xs)"
  by (induction xs arbitrary: m) (auto simp: map_add_def fun_eq_iff split: option.split)

lemma map_of_consistent:
  assumes "\<And>k v w. (k, v) \<in> set xs \<Longrightarrow> (k, w) \<in> set xs \<Longrightarrow> v = w"
  shows "map_of xs k = Some v \<longleftrightarrow> (k, v) \<in> set xs"
  using assms by (metis map_of_SomeD weak_map_of_SomeI)

definition peer_entries :: "float_funs \<Rightarrow> (string \<Rightarrow> netIP option) \<Rightarrow> (string \<Rightarrow> string list res) \<Rightarrow> Peer \<Rightarrow> (string \<times> stat_value) list" where
  "peer_entries fl parse lookup p =
     (if valid_source parse p then map (\<lambda>(field, v). (peer_key (peer_hostname lookup p) field, v)) (peer_values fl p) else [])"

lemma add_peers_entries:
  "foldl (add_peer fl parse lookup) m ps = m ++ map_of (rev (concat (map (peer_entries fl parse lookup) ps)))"
proof (induction ps arbitrary: m)
  case (Cons p ps)
  have "add_peer fl parse lookup m p = m ++ map_of (rev (peer_entries fl parse lookup p))"
    by (cases "valid_source parse p")
      (simp_all only: add_peer_def peer_entries_def if_True if_False foldl_updates [symmetric]
        foldl_rekey [of "peer_key (peer_hostname lookup p)" m "peer_values fl p"] rev.simps map_of.simps map_add_empty)
  with Cons show ?case by simp
qed simp

text \<open>Dots are replaced in host names, so the name and the field can be read off a key.\<close>

lemma peer_key_inj:
  assumes "peer_key (peer_hostname lookup p) f = peer_key (peer_hostname lookup q) g"
  shows "peer_hostname lookup p = peer_hostname lookup q \<and> f = g"
proof -
  have "CHR ''.'' \<notin> set (peer_hostname lookup r)" for r
    by (auto simp: peer_hostname_def ReplaceAll_char Let_def)
  then show ?thesis
    using assms cut_at_first [of "CHR ''.''" "peer_hostname lookup p" "peer_hostname lookup q" f g] by (simp add: peer_key_def)
qed

text \<open>
  If the valid sources have different host names, the statistics have exactly the five values of every one of them, each under
  its name, in whatever order Go visits the peers.
\<close>
theorem peer_stats_complete:
  assumes "cr_SysVars r \<noteq> None" and "\<And>ps. set (order ps) = set ps"
    and "inj_on (peer_hostname lookup) {p \<in> snd ` set (cr_Peers r). valid_source parse p}"
  shows "\<exists>m. NewNTPPeerStats fl parse lookup order r = Ok m \<and>
    (\<forall>k v. m k = Some v \<longleftrightarrow> (\<exists>p \<in> snd ` set (cr_Peers r). valid_source parse p \<and>
      (\<exists>field. (field, v) \<in> set (peer_values fl p) \<and> k = peer_key (peer_hostname lookup p) field)))"
proof -
  let ?ps = "order (map snd (cr_Peers r))"
  let ?es = "concat (map (peer_entries fl parse lookup) ?ps)"
  have mem: "(k, v) \<in> set ?es \<longleftrightarrow> (\<exists>p \<in> snd ` set (cr_Peers r). valid_source parse p \<and>
      (\<exists>field. (field, v) \<in> set (peer_values fl p) \<and> k = peer_key (peer_hostname lookup p) field))" for k v
    by (auto simp: assms(2) peer_entries_def split: if_splits)
  have memD: "\<exists>p f. p \<in> snd ` set (cr_Peers r) \<and> valid_source parse p \<and> (f, v) \<in> set (peer_values fl p) \<and>
      k = peer_key (peer_hostname lookup p) f" if "(k, v) \<in> set ?es" for k v
    using mem [THEN iffD1, OF that] by blast
  have same: "v = w" if kv: "(k, v) \<in> set ?es" and kw: "(k, w) \<in> set ?es" for k v w
  proof -
    obtain p f where p: "p \<in> snd ` set (cr_Peers r)" "valid_source parse p" "(f, v) \<in> set (peer_values fl p)"
        "k = peer_key (peer_hostname lookup p) f"
      using memD [OF kv] by blast
    obtain q g where q: "q \<in> snd ` set (cr_Peers r)" "valid_source parse q" "(g, w) \<in> set (peer_values fl q)"
        "k = peer_key (peer_hostname lookup q) g"
      using memD [OF kw] by blast
    have "peer_hostname lookup p = peer_hostname lookup q" "f = g" using p(4) q(4) peer_key_inj by metis+
    moreover from this(1) have "p = q" using inj_onD [OF assms(3)] p(1,2) q(1,2) by blast
    moreover have "distinct (map fst (peer_values fl p))" by (simp add: peer_values_def)
    ultimately show ?thesis using p(3) q(3) eq_key_imp_eq_value [of "peer_values fl p" f v w] by simp
  qed
  have "NewNTPPeerStats fl parse lookup order r = Ok (map_of (rev ?es))"
    using assms(1) by (simp add: NewNTPPeerStats_def add_peers_entries)
  moreover have "map_of (rev ?es) k = Some v \<longleftrightarrow> (k, v) \<in> set ?es" for k v
    using map_of_consistent [of "rev ?es" k v] same by simp
  ultimately show ?thesis using mem by (intro exI [of _ "map_of (rev ?es)"]) blast
qed

theorem peer_stats_complete_witness:
  "\<exists>m. NewNTPPeerStats example_floats (\<lambda>_. Some [10, 0, 0, 1]) (\<lambda>_. Ok [''ntp1.example.com.'']) (\<lambda>ps. ps)
     (NewNTPCheckResult\<lparr>cr_SysVars := cr_SysVars example_result, cr_Peers := [(1, example_good_peer)]\<rparr>) = Ok m \<and>
     m ''ntp.peers.ntp1_example_com.stratum'' = Some (Stat_int (pe_Stratum example_good_peer))"
proof -
  let ?r = "NewNTPCheckResult\<lparr>cr_SysVars := cr_SysVars example_result, cr_Peers := [(1, example_good_peer)]\<rparr>"
  let ?l = "\<lambda>_ :: string. Ok [''ntp1.example.com.'']" and ?p = "\<lambda>_ :: string. Some [10, 0, 0, 1 :: u8]"
  have "cr_SysVars ?r \<noteq> None" by (simp add: example_result_def)
  moreover have "inj_on (peer_hostname ?l) {p \<in> snd ` set (cr_Peers ?r). valid_source ?p p}" by (auto simp: inj_on_def)
  ultimately have "\<exists>m. NewNTPPeerStats example_floats ?p ?l (\<lambda>ps. ps) ?r = Ok m \<and>
      (\<forall>k v. m k = Some v \<longleftrightarrow> (\<exists>p \<in> snd ` set (cr_Peers ?r). valid_source ?p p \<and>
        (\<exists>field. (field, v) \<in> set (peer_values example_floats p) \<and> k = peer_key (peer_hostname ?l p) field)))"
    by (intro peer_stats_complete) simp_all
  then obtain m where m: "NewNTPPeerStats example_floats ?p ?l (\<lambda>ps. ps) ?r = Ok m"
      "\<And>k v. m k = Some v \<longleftrightarrow> valid_source ?p example_good_peer \<and>
        (\<exists>field. (field, v) \<in> set (peer_values example_floats example_good_peer) \<and> k = peer_key (peer_hostname ?l example_good_peer) field)"
    by auto
  have "peer_hostname ?l example_good_peer = ''ntp1_example_com''"
    by (simp add: peer_hostname_def ReplaceAll_char TrimSuffix_def)
  moreover have "valid_source ?p example_good_peer" 
    by (simp add: valid_source_def IsUnspecified_def IP_Equal_def v4InV6Prefix_def numeral_eq_Suc)
  moreover have "(''stratum'', Stat_int (pe_Stratum example_good_peer)) \<in> set (peer_values example_floats example_good_peer)"
    by (simp add: peer_values_def)
  ultimately have "m ''ntp.peers.ntp1_example_com.stratum'' = Some (Stat_int (pe_Stratum example_good_peer))"
    unfolding m(2) by (auto simp: peer_key_def)
  with m(1) show ?thesis by blast
qed

end
