(* ===== verification/PTP_Types.thy ===== *)
theory PTP_Types
  imports Go_Codec Go_Time
begin

text \<open>
  \<open>ptp/protocol/types.go\<close>: the scalar types of the PTPv2 protocol, their constants, conversions and
  wire layouts. Named integer types are their underlying words; a Go constant block is a block of
  definitions; a \<open>map\<close> from codes to names is an association list read with \<open>map_of\<close>, a missing
  key giving the empty string as in Go.
\<close>

section \<open>Message and TLV types\<close>

type_synonym MessageType = u8
type_synonym SdoIDAndMsgType = u8
type_synonym TLVType = u16

definition MessageSync :: MessageType where [simp]: "MessageSync = 0x0"
definition MessageDelayReq :: MessageType where [simp]: "MessageDelayReq = 0x1"
definition MessagePDelayReq :: MessageType where [simp]: "MessagePDelayReq = 0x2"
definition MessagePDelayResp :: MessageType where [simp]: "MessagePDelayResp = 0x3"
definition MessageFollowUp :: MessageType where [simp]: "MessageFollowUp = 0x8"
definition MessageDelayResp :: MessageType where [simp]: "MessageDelayResp = 0x9"
definition MessagePDelayRespFollowUp :: MessageType where [simp]: "MessagePDelayRespFollowUp = 0xA"
definition MessageAnnounce :: MessageType where [simp]: "MessageAnnounce = 0xB"
definition MessageSignaling :: MessageType where [simp]: "MessageSignaling = 0xC"
definition MessageManagement :: MessageType where [simp]: "MessageManagement = 0xD"

definition MessageTypeToString :: "(MessageType \<times> string) list" where
  "MessageTypeToString =
    [(MessageSync, ''SYNC''), (MessageDelayReq, ''DELAY_REQ''), (MessagePDelayReq, ''PDELAY_REQ''),
     (MessagePDelayResp, ''PDELAY_RES''), (MessageFollowUp, ''FOLLOW_UP''),
     (MessageDelayResp, ''DELAY_RESP''), (MessagePDelayRespFollowUp, ''PDELAY_RESP_FOLLOW_UP''),
     (MessageAnnounce, ''ANNOUNCE''), (MessageSignaling, ''SIGNALING''),
     (MessageManagement, ''MANAGEMENT'')]"

definition lookup_name :: "('k \<times> string) list \<Rightarrow> 'k \<Rightarrow> string" where
  "lookup_name m k = (case map_of m k of None \<Rightarrow> '''' | Some s \<Rightarrow> s)"

definition MessageType_String :: "MessageType \<Rightarrow> string" where
  "MessageType_String m = lookup_name MessageTypeToString m"

definition MsgType :: "SdoIDAndMsgType \<Rightarrow> MessageType" where
  "MsgType m = m AND 0xf"

definition NewSdoIDAndMsgType :: "MessageType \<Rightarrow> u8 \<Rightarrow> SdoIDAndMsgType" where
  "NewSdoIDAndMsgType msgType sdoID = push_bit 4 sdoID OR msgType"

definition ProbeMsgType :: "bytes \<Rightarrow> MessageType res" where
  "ProbeMsgType data =
     (if length data < 1 then Err ''not enough data to probe MsgType'' else Ok (MsgType (data ! 0)))"

record TLVHead =
  th_TLVType :: TLVType
  th_LengthField :: u16

definition TLVHead_codec :: "TLVHead codec" where
  "TLVHead_codec = cmap (\<lambda>(t, l). \<lparr>th_TLVType = t, th_LengthField = l\<rparr>)
     (\<lambda>h. (th_TLVType h, th_LengthField h)) (cpair cu16 cu16)"

definition tlvHeadSize :: nat where
  [simp]: "tlvHeadSize = 4"

text \<open>The two in-place writes of \<open>tlvHeadMarshalBinaryTo\<close>.\<close>

definition tlvHeadMarshalBinaryTo :: "TLVHead \<Rightarrow> (nat \<times> bytes) list" where
  "tlvHeadMarshalBinaryTo t = [(0, cenc cu16 (th_TLVType t)), (2, cenc cu16 (th_LengthField t))]"

definition TLVManagement :: TLVType where [simp]: "TLVManagement = 0x0001"
definition TLVManagementErrorStatus :: TLVType where [simp]: "TLVManagementErrorStatus = 0x0002"
definition TLVOrganizationExtension :: TLVType where [simp]: "TLVOrganizationExtension = 0x0003"
definition TLVRequestUnicastTransmission :: TLVType where
  [simp]: "TLVRequestUnicastTransmission = 0x0004"
definition TLVGrantUnicastTransmission :: TLVType where [simp]: "TLVGrantUnicastTransmission = 0x0005"
definition TLVCancelUnicastTransmission :: TLVType where
  [simp]: "TLVCancelUnicastTransmission = 0x0006"
definition TLVAcknowledgeCancelUnicastTransmission :: TLVType where
  [simp]: "TLVAcknowledgeCancelUnicastTransmission = 0x0007"
definition TLVPathTrace :: TLVType where [simp]: "TLVPathTrace = 0x0008"
definition TLVAlternateTimeOffsetIndicator :: TLVType where
  [simp]: "TLVAlternateTimeOffsetIndicator = 0x0009"

definition TLVTypeToString :: "(TLVType \<times> string) list" where
  "TLVTypeToString =
    [(TLVManagement, ''MANAGEMENT''), (TLVManagementErrorStatus, ''MANAGEMENT_ERROR_STATUS''),
     (TLVOrganizationExtension, ''ORGANIZATION_EXTENSION''),
     (TLVRequestUnicastTransmission, ''REQUEST_UNICAST_TRANSMISSION''),
     (TLVGrantUnicastTransmission, ''GRANT_UNICAST_TRANSMISSION''),
     (TLVCancelUnicastTransmission, ''CANCEL_UNICAST_TRANSMISSION''),
     (TLVAcknowledgeCancelUnicastTransmission, ''ACKNOWLEDGE_CANCEL_UNICAST_TRANSMISSION''),
     (TLVPathTrace, ''PATH_TRACE''),
     (TLVAlternateTimeOffsetIndicator, ''ALTERNATE_TIME_OFFSET_INDICATOR'')]"

definition TLVType_String :: "TLVType \<Rightarrow> string" where
  "TLVType_String t = lookup_name TLVTypeToString t"

section \<open>Fixed-point intervals\<close>

type_synonym IntFloat = u64
type_synonym TimeInterval = u64
type_synonym Correction = u64

definition twoPow16 :: f64 where
  "twoPow16 = 65536"

definition IntFloat_Value :: "IntFloat \<Rightarrow> f64" where
  "IntFloat_Value t = f64_of_int (sint t) / twoPow16"

definition TimeInterval_Nanoseconds :: "TimeInterval \<Rightarrow> f64" where
  "TimeInterval_Nanoseconds t = IntFloat_Value t"

definition NewTimeInterval :: "f64_cvt \<Rightarrow> f64 \<Rightarrow> TimeInterval" where
  "NewTimeInterval cvt ns = word_of_int (f64_to_i64 cvt (ns * twoPow16))"

definition Correction_Nanoseconds :: "Correction \<Rightarrow> f64" where
  "Correction_Nanoseconds t = IntFloat_Value t"

definition Correction_TooBig :: "Correction \<Rightarrow> bool" where
  "Correction_TooBig t \<longleftrightarrow> t = 0x7fffffffffffffff"

definition NewCorrection :: "f64_cvt \<Rightarrow> f64 \<Rightarrow> Correction" where
  "NewCorrection cvt ns = word_of_int (f64_to_i64 cvt (ns * twoPow16))"

section \<open>Clock and port identities\<close>

type_synonym ClockIdentity = u64

definition hex_digit :: "nat \<Rightarrow> char" where
  "hex_digit n = ''0123456789abcdef'' ! (n mod 16)"

definition hex_byte :: "u8 \<Rightarrow> string" where
  "hex_byte b = [hex_digit (unat b div 16), hex_digit (unat b)]"

definition ClockIdentity_String :: "ClockIdentity \<Rightarrow> string" where
  "ClockIdentity_String c =
     (let ptr = cenc cu64 c in
      concat (map hex_byte (take 3 ptr)) @ ''.'' @ concat (map hex_byte (take 2 (drop 3 ptr)))
        @ ''.'' @ concat (map hex_byte (drop 5 ptr)))"

definition eui64_of_eui48 :: "bytes \<Rightarrow> bytes" where
  "eui64_of_eui48 mac = [mac ! 0, mac ! 1, mac ! 2, 0xFF, 0xFE, mac ! 3, mac ! 4, mac ! 5]"

definition NewClockIdentity :: "bytes \<Rightarrow> ClockIdentity res" where
  "NewClockIdentity mac =
     (if length mac = 6 then Ok (cdec cu64 (eui64_of_eui48 mac))
      else if length mac = 8 then Ok (cdec cu64 mac)
      else Err ''unsupported MAC %v, must be either EUI48 or EUI64'')"

record PortIdentity =
  pi_ClockIdentity :: ClockIdentity
  pi_PortNumber :: u16

definition PortIdentity_String :: "PortIdentity \<Rightarrow> string" where
  "PortIdentity_String p = ClockIdentity_String (pi_ClockIdentity p) @ ''-'' @ show_nat (unat (pi_PortNumber p))"

definition PortIdentity_codec :: "PortIdentity codec" where
  "PortIdentity_codec = cmap (\<lambda>(c, p). \<lparr>pi_ClockIdentity = c, pi_PortNumber = p\<rparr>)
     (\<lambda>i. (pi_ClockIdentity i, pi_PortNumber i)) (cpair cu64 cu16)"

section \<open>Timestamps\<close>

record Timestamp =
  ts_Seconds :: bytes
  ts_Nanoseconds :: u32

definition Timestamp_codec :: "Timestamp codec" where
  "Timestamp_codec = cmap (\<lambda>(s, n). \<lparr>ts_Seconds = s, ts_Nanoseconds = n\<rparr>)
     (\<lambda>t. (ts_Seconds t, ts_Nanoseconds t)) (cpair (carray 6 cu8) cu32)"

definition zero_Timestamp :: Timestamp where
  "zero_Timestamp = \<lparr>ts_Seconds = [0, 0, 0, 0, 0, 0], ts_Nanoseconds = 0\<rparr>"

definition Timestamp_Time :: "Timestamp \<Rightarrow> gotime" where
  "Timestamp_Time t =
     (let secs = cdec cu64 ([0x0, 0x0] @ ts_Seconds t)
      in time_Unix (sint secs) (uint (ts_Nanoseconds t)))"

definition NewTimestamp :: "gotime \<Rightarrow> Timestamp" where
  "NewTimestamp t =
     \<lparr>ts_Seconds = take 6 (drop 2 (cenc cu64 (word_of_int (t_Unix t)))),
      ts_Nanoseconds = word_of_int (t_Nanosecond t)\<rparr>"

record ClockQuality =
  cq_ClockClass :: u8
  cq_ClockAccuracy :: u8
  cq_OffsetScaledLogVariance :: u16

definition ClockQuality_codec :: "ClockQuality codec" where
  "ClockQuality_codec =
     cmap (\<lambda>(c, a, v). \<lparr>cq_ClockClass = c, cq_ClockAccuracy = a, cq_OffsetScaledLogVariance = v\<rparr>)
       (\<lambda>q. (cq_ClockClass q, cq_ClockAccuracy q, cq_OffsetScaledLogVariance q))
       (cpair cu8 (cpair cu8 cu16))"

type_synonym TimeSource = u8

definition TimeSourceAtomicClock :: TimeSource where "TimeSourceAtomicClock = 0x10"
definition TimeSourceGNSS :: TimeSource where "TimeSourceGNSS = 0x20"
definition TimeSourceTerrestrialRadio :: TimeSource where "TimeSourceTerrestrialRadio = 0x30"
definition TimeSourceSerialTimeCode :: TimeSource where "TimeSourceSerialTimeCode = 0x39"
definition TimeSourcePTP :: TimeSource where "TimeSourcePTP = 0x40"
definition TimeSourceNTP :: TimeSource where "TimeSourceNTP = 0x50"
definition TimeSourceHandSet :: TimeSource where "TimeSourceHandSet = 0x60"
definition TimeSourceOther :: TimeSource where "TimeSourceOther = 0x90"
definition TimeSourceInternalOscillator :: TimeSource where "TimeSourceInternalOscillator = 0xa0"

definition TimeSourceToString :: "(TimeSource \<times> string) list" where
  "TimeSourceToString =
    [(TimeSourceAtomicClock, ''ATOMIC_CLOCK''), (TimeSourceGNSS, ''GNSS''),
     (TimeSourceTerrestrialRadio, ''TERRESTRIAL_RADIO''),
     (TimeSourceSerialTimeCode, ''SERIAL_TIME_CODE''), (TimeSourcePTP, ''PTP''),
     (TimeSourceNTP, ''NTP''), (TimeSourceHandSet, ''HAND_SET''), (TimeSourceOther, ''OTHER''),
     (TimeSourceInternalOscillator, ''INTERNAL_OSCILLATOR'')]"

definition TimeSource_String :: "TimeSource \<Rightarrow> string" where
  "TimeSource_String t = lookup_name TimeSourceToString t"

section \<open>Logarithmic intervals\<close>

type_synonym LogInterval = i8

text \<open>\<open>math.Pow(2, i)\<close> and its product with a second are exact in \<open>float64\<close> for every \<open>int8\<close>.\<close>

definition LogInterval_Duration :: "f64_cvt \<Rightarrow> LogInterval \<Rightarrow> duration" where
  "LogInterval_Duration cvt i = f64_to_i64 cvt (f64_pow2 (sint i) * of_int second)"

text \<open>
  \<open>int(math.Log2(d.Seconds()))\<close>: the logarithm truncated towards zero, \<open>-Inf\<close> or \<open>NaN\<close> for a
  duration that is not positive. It is computed exactly; the rounded \<open>float64\<close> logarithm agrees
  except for durations within a few nanoseconds below \<open>2^k\<close> seconds, \<open>k\<close> at least 20.
\<close>

definition ilog2 :: "nat \<Rightarrow> nat" where
  "ilog2 n = floorlog 2 n - 1"

definition log2_seconds :: "f64_cvt \<Rightarrow> duration \<Rightarrow> int" where
  "log2_seconds cvt d =
     (if d < 0 then cvt NaN
      else if d = 0 then cvt NegOverflow
      else if second \<le> d then int (ilog2 (nat (d div second)))
      else - int (ilog2 (nat (second div d))))"

definition NewLogInterval :: "f64_cvt \<Rightarrow> duration \<Rightarrow> LogInterval res" where
  "NewLogInterval cvt d =
     (let li = log2_seconds cvt d in
      if 127 < li then Err ''logInterval %d is too big''
      else if li < - 128 then Err ''logInterval %d is too small''
      else Ok (word_of_int li))"

section \<open>PTPText\<close>

type_synonym PTPText = bytes

definition PTPText_UnmarshalBinary :: "PTPText \<Rightarrow> bytes \<Rightarrow> PTPText res" where
  "PTPText_UnmarshalBinary p rawBytes =
     (case binary_Read cu8 rawBytes of
        Inl _ \<Rightarrow> Err ''reading PTPText LengthField: %w''
      | Inr (len, reader) \<Rightarrow>
          if len = 0 then Ok p
          else if length rawBytes < unat (len + 1)
          then Err ''text field is too short, need %d got %d''
          else case read_full (unat len) reader of
              Inl _ \<Rightarrow> Err ''reading PTPText TextField of len=%d: %w''
            | Inr (text, _) \<Rightarrow> Ok text)"

definition PTPText_MarshalBinary :: "PTPText \<Rightarrow> bytes res" where
  "PTPText_MarshalBinary p =
     (if 255 < length p then Err ''text is too long''
      else let len = (word_of_nat (length p) :: u8) in
        Ok ([len] @ p @ (if len mod 2 \<noteq> 0 then [0] else [])))"

section \<open>The codecs are well formed\<close>

lemma wf_TLVHead [wf_codecs]: "wf_codec TLVHead_codec"
  unfolding TLVHead_codec_def by (rule wf_cmap) (auto intro!: wf_codecs)

lemma wf_PortIdentity [wf_codecs]: "wf_codec PortIdentity_codec"
  unfolding PortIdentity_codec_def by (rule wf_cmap) (auto intro!: wf_codecs)

lemma wf_Timestamp [wf_codecs]: "wf_codec Timestamp_codec"
  unfolding Timestamp_codec_def by (rule wf_cmap) (auto intro!: wf_codecs)

lemma wf_ClockQuality [wf_codecs]: "wf_codec ClockQuality_codec"
  unfolding ClockQuality_codec_def by (rule wf_cmap) (auto intro!: wf_codecs)

lemma csize_types [simp]:
  "csize TLVHead_codec = 4" "csize PortIdentity_codec = 10" "csize Timestamp_codec = 10"
  "csize ClockQuality_codec = 4"
  by (simp_all add: TLVHead_codec_def PortIdentity_codec_def Timestamp_codec_def ClockQuality_codec_def)

lemma cok_types [simp]:
  "cok TLVHead_codec h" "cok PortIdentity_codec i" "cok ClockQuality_codec q"
  "cok Timestamp_codec t = (length (ts_Seconds t) = 6)"
  by (simp_all add: TLVHead_codec_def PortIdentity_codec_def Timestamp_codec_def
      ClockQuality_codec_def list_all_iff)

interpretation tlv_head: fixed_codec TLVHead_codec
  by unfold_locales (rule wf_TLVHead)

interpretation port_identity: fixed_codec PortIdentity_codec
  by unfold_locales (rule wf_PortIdentity)

interpretation ptp_timestamp: fixed_codec Timestamp_codec
  by unfold_locales (rule wf_Timestamp)

section \<open>Timestamps against Go times\<close>

lemma cenc_cu64_tail: "drop 2 (cenc cu64 w) = be_bytes 6 (unat w)"
proof -
  have "drop 2 (be_bytes (Suc (Suc 6)) n) = be_bytes 6 n" for n
    by (simp only: be_bytes_Suc drop_Suc_Cons drop0 numeral_2_eq_2)
  moreover have "Suc (Suc 6) = (8::nat)" by simp
  ultimately have "drop 2 (be_bytes 8 n) = be_bytes 6 n" for n
    by (simp only:)
  then show ?thesis by (simp add: cu64_def)
qed

lemma cdec_cu64_zeros: "cdec cu64 ([0, 0] @ bs) = word_of_nat (be_val bs)"
  by (simp add: cu64_def be_val_Cons)

lemma sint_of_int_i64: "in_i64 n \<Longrightarrow> sint (word_of_int n :: u64) = n"
  by (simp add: signed_of_int i64_defs signed_take_bit_int_eq_self)

lemma t_Unix_48:
  assumes "0 \<le> t_Unix t" and "t_Unix t < 2 ^ 48"
  shows "unat (word_of_int (t_Unix t) :: u64) = nat (t_Unix t)" and "nat (t_Unix t) < 256 ^ 6"
  using assms by (simp_all add: unat_eq_nat_uint take_bit_int_eq_self unsigned_of_int)

lemma Time_NewTimestamp:
  assumes "0 \<le> t_Unix t" and "t_Unix t < 2 ^ 48"
  shows "Timestamp_Time (NewTimestamp t) = t"
proof -
  note u = t_Unix_48 [OF assms]
  have n: "uint (word_of_int (t_Nanosecond t) :: u32) = t_Nanosecond t"
    using t_Nanosecond_bounds [of t] by (simp add: unsigned_of_int take_bit_int_eq_self second_def)
  have "sint (word_of_int (t_Unix t) :: u64) = t_Unix t"
    using assms by (simp add: sint_of_int_i64 in_i64_def i64_min_def i64_max_def)
  moreover have "in_i64 (t_Unix t + t_Nanosecond t div second)"
    using assms t_Nanosecond_bounds [of t] by (simp add: in_i64_def i64_min_def i64_max_def)
  ultimately show ?thesis
    using u t_decompose [of t] assms(1)
    by (simp add: Timestamp_Time_def NewTimestamp_def cenc_cu64_tail cdec_cu64_zeros be_val_be_bytes
        n time_Unix_exact del: append.simps)
qed

text \<open>
  A Go time whose seconds fit the 48-bit field survives the conversion to a PTP Timestamp and
  back, to the nanosecond.
\<close>
theorem NewTimestamp_roundtrip:
  assumes "0 \<le> t_Unix t" and "t_Unix t < 2 ^ 48"
  shows "Timestamp_Time (NewTimestamp t) = t"
  using assms by (rule Time_NewTimestamp)

theorem NewTimestamp_roundtrip_witness:
  "Timestamp_Time (NewTimestamp 1584090603123456789) = 1584090603123456789"
  by (rule NewTimestamp_roundtrip) (simp_all add: t_Unix_def second_def)

lemma NewTimestamp_wf [simp]: "length (ts_Seconds (NewTimestamp t)) = 6"
  by (simp add: NewTimestamp_def cu64_def)

text \<open>The other direction, for a Timestamp whose nanoseconds are below a second.\<close>

lemma be_val_6: "length bs = 6 \<Longrightarrow> be_val bs < 2 ^ 48"
  using be_val_less [of bs] by simp

lemma Timestamp_Time_roundtrip:
  assumes "length (ts_Seconds ts) = 6" and "uint (ts_Nanoseconds ts) < second"
  shows "NewTimestamp (Timestamp_Time ts) = ts"
proof -
  let ?s = "be_val (ts_Seconds ts)"
  have i: "in_i64 (int ?s)"
    using be_val_6 [OF assms(1)] by (simp add: in_i64_def i64_min_def i64_max_def)
  have t: "Timestamp_Time ts = time_Unix (int ?s) (uint (ts_Nanoseconds ts))"
    using sint_of_int_i64 [OF i] by (simp add: Timestamp_Time_def cdec_cu64_zeros del: append.simps)
  have "unat (word_of_nat ?s :: u64) = ?s"
    using be_val_6 [OF assms(1)] by (simp add: unat_of_nat)
  then show ?thesis
    using i assms be_bytes_be_val [of "ts_Seconds ts"]
    by (simp add: NewTimestamp_def cenc_cu64_tail t t_Unix_time_Unix t_Nanosecond_time_Unix)
qed

section \<open>Logarithmic intervals\<close>

lemma ilog2_eqI: "2 ^ m \<le> n \<Longrightarrow> n < 2 ^ Suc m \<Longrightarrow> ilog2 n = m"
proof -
  assume "2 ^ m \<le> n" and "n < 2 ^ Suc m"
  then have "Suc m \<le> floorlog 2 n" and "floorlog 2 n \<le> Suc m"
    by (simp_all add: floorlog_ge_SucI floorlog_le_iff del: power_Suc)
  then show ?thesis by (simp add: ilog2_def)
qed

lemma in_i64_seconds: "0 \<le> x \<Longrightarrow> x \<le> 2 ^ 33 \<Longrightarrow> in_i64 (x * second)"
  by (simp add: in_i64_def i64_min_def i64_max_def second_def)

lemma LogInterval_Duration_nonneg:
  "0 \<le> sint i \<Longrightarrow> sint i \<le> 33 \<Longrightarrow> LogInterval_Duration cvt i = 2 ^ nat (sint i) * second"
proof -
  assume k: "0 \<le> sint i" "sint i \<le> 33"
  then have "nat (sint i) \<le> 33" by simp
  then have "(2::int) ^ nat (sint i) \<le> 2 ^ 33" by (rule power_increasing) simp
  then have "in_i64 (2 ^ nat (sint i) * second)"
    by (intro in_i64_seconds) simp_all
  moreover have "f64_pow2 (sint i) * of_int second = of_int (2 ^ nat (sint i) * second)"
    using k by (simp add: f64_pow2_def)
  ultimately show ?thesis
    by (simp only: LogInterval_Duration_def f64_to_i64_of_int)
qed

lemma LogInterval_Duration_neg:
  "sint i < 0 \<Longrightarrow> LogInterval_Duration cvt i = second div 2 ^ nat (- sint i)"
proof -
  assume k: "sint i < 0"
  let ?m = "nat (- sint i)"
  have "f64_pow2 (sint i) * of_int second = of_int second / (of_int (2 ^ ?m) :: rat)"
    using k by (simp add: f64_pow2_def)
  moreover have "rat_trunc (of_int second / of_int (2 ^ ?m)) = second div 2 ^ ?m"
    unfolding rat_trunc_def by (simp only: floor_divide_of_int_eq) (simp add: second_def)
  moreover have "second div 2 ^ ?m \<le> second"
    by (rule div_le_dividend_int) simp_all
  then have "in_i64 (second div 2 ^ ?m)"
    by (simp add: in_i64_def i64_min_def i64_max_def second_def pos_imp_zdiv_nonneg_iff
        order_trans [of _ 0])
  ultimately show ?thesis
    by (simp add: LogInterval_Duration_def f64_to_i64_def)
qed

lemma log2_seconds_nonneg: "0 \<le> k \<Longrightarrow> log2_seconds cvt (2 ^ nat k * second) = k"
proof -
  assume k: "0 \<le> k"
  have "ilog2 (nat (2 ^ nat k)) = nat k"
    by (rule ilog2_eqI) (simp_all add: nat_power_eq)
  moreover have "1 * second \<le> 2 ^ nat k * second"
    by (rule mult_right_mono) (simp_all add: second_def)
  ultimately show ?thesis
    using k by (simp add: log2_seconds_def mult_less_0_iff not_less)
qed

lemma log2_seconds_neg:
  assumes "1 \<le> m" and "m \<le> 29"
  shows "log2_seconds cvt (second div 2 ^ m) = - int m"
proof -
  let ?p = "(2::int) ^ m" and ?d = "second div 2 ^ m"
  have p: "2 \<le> ?p" "?p \<le> 2 ^ 29"
    using power_increasing [of 1 m "2::int"] power_increasing [of m 29 "2::int"] assms by simp_all
  then have d1: "1 \<le> ?d"
    using zdiv_mono1 [of ?p second ?p] by (simp add: second_def)
  have ds: "?d < second"
    using p(1) by (intro int_div_less_self) simp_all
  have lo: "?p * ?d \<le> second"
    by (rule mult_div_le) simp
  have "second < ?p * ?d + ?p"
    by (rule less_mult_div) simp
  also have "\<dots> \<le> ?p * ?d + ?p * ?d"
    using d1 p(1) by simp
  finally have hi: "second < 2 * ?p * ?d" by simp
  have "?p \<le> second div ?d"
    using zdiv_mono1 [OF lo, of ?d] d1 by simp
  moreover have "second div ?d < 2 * ?p"
  proof (rule ccontr)
    assume "\<not> second div ?d < 2 * ?p"
    then have "2 * ?p * ?d \<le> (second div ?d) * ?d"
      using d1 by (intro mult_right_mono) simp_all
    also have "\<dots> \<le> second"
      using mult_div_le [of ?d second] d1 by (simp add: mult.commute)
    finally show False using hi by simp
  qed
  ultimately have "ilog2 (nat (second div ?d)) = m"
    by (intro ilog2_eqI) (simp_all add: le_nat_iff nat_less_iff zless_nat_eq_int_zless)
  then show ?thesis
    using d1 ds by (simp add: log2_seconds_def)
qed

text \<open>
  Every log interval from \<open>2^-29\<close> to \<open>2^33\<close> seconds, the ones whose period is a representable,
  non-zero number of nanoseconds, is recovered from its duration, whatever the platform does with
  conversions that do not fit.
\<close>
theorem LogInterval_roundtrip:
  assumes "- 29 \<le> sint i" and "sint i \<le> 33"
  shows "NewLogInterval cvt (LogInterval_Duration cvt i) = Ok i"
proof (cases "0 \<le> sint i")
  case True
  with assms show ?thesis
    by (simp add: NewLogInterval_def LogInterval_Duration_nonneg log2_seconds_nonneg)
next
  case False
  with assms have "log2_seconds cvt (second div 2 ^ nat (- sint i)) = sint i"
    by (simp add: log2_seconds_neg)
  with False assms show ?thesis
    by (simp add: NewLogInterval_def LogInterval_Duration_neg)
qed

theorem LogInterval_roundtrip_witness:
  "NewLogInterval cvt_amd64 (LogInterval_Duration cvt_amd64 (- 7)) = Ok (- 7)"
  by (rule LogInterval_roundtrip) simp_all

section \<open>Fixed-point intervals\<close>

text \<open>
  A time interval or correction below \<open>2^53\<close> in magnitude (137 seconds) is recovered exactly from
  its value in nanoseconds; above that the \<open>float64\<close> cannot hold it.
\<close>
theorem TimeInterval_roundtrip:
  assumes "\<bar>sint t\<bar> < 2 ^ 53"
  shows "NewTimeInterval cvt (TimeInterval_Nanoseconds t) = t \<and>
    NewCorrection cvt (Correction_Nanoseconds t) = t"
proof -
  have "in_i64 (sint t)"
    using assms by (simp add: in_i64_def i64_min_def i64_max_def abs_less_iff)
  then have "f64_to_i64 cvt (of_int (sint t)) = sint t"
    by (rule f64_to_i64_of_int)
  moreover have "IntFloat_Value t * twoPow16 = of_int (sint t)"
    unfolding IntFloat_Value_def twoPow16_def f64_of_int_exact [OF assms] by simp
  ultimately have "f64_to_i64 cvt (IntFloat_Value t * twoPow16) = sint t"
    by (simp only:)
  then show ?thesis
    by (simp add: NewTimeInterval_def NewCorrection_def TimeInterval_Nanoseconds_def
        Correction_Nanoseconds_def)
qed

theorem TimeInterval_roundtrip_witness:
  "NewTimeInterval cvt_amd64 (TimeInterval_Nanoseconds (- 98304)) = - 98304 \<and>
    NewCorrection cvt_amd64 (Correction_Nanoseconds (- 98304)) = - 98304"
  by (rule TimeInterval_roundtrip) simp

section \<open>Clock identities\<close>

lemma cdec_inj:
  assumes "wf_codec c" and "length xs = csize c" and "length ys = csize c" and "cdec c xs = cdec c ys"
  shows "xs = ys"
  by (metis assms wf_codecD(4))

lemma list_6_eqI:
  assumes "length xs = 6" and "length ys = 6"
    and "[xs ! 0, xs ! 1, xs ! 2, xs ! 3, xs ! 4, xs ! 5] = [ys ! 0, ys ! 1, ys ! 2, ys ! 3, ys ! 4, ys ! 5]"
  shows "xs = ys"
proof (rule nth_equalityI)
  fix i assume "i < length xs"
  with assms(1) have "i = 0 \<or> i = 1 \<or> i = 2 \<or> i = 3 \<or> i = 4 \<or> i = 5" by auto
  with assms(3) show "xs ! i = ys ! i" by auto
qed (simp add: assms)

text \<open>
  The clock identity determines the MAC address it was made from: two addresses of the same kind
  give the same identity only if they are equal.
\<close>
theorem NewClockIdentity_inj:
  assumes "NewClockIdentity mac = Ok c" and "NewClockIdentity mac' = Ok c" and "length mac = length mac'"
  shows "mac = mac'"
proof (cases "length mac = 6")
  case True
  with assms(3) have l: "length mac' = 6" by simp
  have "cdec cu64 (eui64_of_eui48 mac) = cdec cu64 (eui64_of_eui48 mac')"
    using assms(1,2) unfolding NewClockIdentity_def if_P [OF True] if_P [OF l] by (simp only: sum.inject)
  then have "eui64_of_eui48 mac = eui64_of_eui48 mac'"
    by (intro cdec_inj [OF wf_cu(3)]) (simp_all add: eui64_of_eui48_def)
  with True l show ?thesis
    unfolding eui64_of_eui48_def by - (rule list_6_eqI, simp_all only: list.inject simp_thms)
next
  case False
  then have "length mac' \<noteq> 6" using assms(3) by simp
  with False assms have "length mac = 8" "length mac' = 8" "cdec cu64 mac = cdec cu64 mac'"
    unfolding NewClockIdentity_def by (simp_all only: if_False split: if_splits) simp_all
  then show ?thesis using cdec_inj [OF wf_cu(3), of mac mac'] by simp
qed

theorem NewClockIdentity_inj_witness:
  "[0xb8, 0x59, 0x9f, 0x55, 0xaf, 0x4e] = ([0xb8, 0x59, 0x9f, 0x55, 0xaf, 0x4e] :: bytes) \<and>
   NewClockIdentity [0xb8, 0x59, 0x9f, 0x55, 0xaf, 0x4e] = Ok 0xb8599ffffe55af4e"
proof -
  have "NewClockIdentity [0xb8, 0x59, 0x9f, 0x55, 0xaf, 0x4e] = Ok 0xb8599ffffe55af4e"
    by (simp add: NewClockIdentity_def eui64_of_eui48_def cu64_def be_val_def)
  from NewClockIdentity_inj [OF this this] this show ?thesis by simp
qed

section \<open>PTPText\<close>

lemma PTPText_unmarshal:
  assumes "PTPText_MarshalBinary p = Ok bs"
  shows "PTPText_UnmarshalBinary [] (bs @ rest) = Ok p"
proof -
  from assms have l: "length p \<le> 255" and bs: "bs = [word_of_nat (length p)] @ p
      @ (if (word_of_nat (length p) :: u8) mod 2 \<noteq> 0 then [0] else [])"
    by (auto simp: PTPText_MarshalBinary_def Let_def split: if_splits)
  have u: "unat (word_of_nat (length p) :: u8) = length p"
    using l by (simp add: unat_of_nat)
  have w: "unat ((word_of_nat (length p) :: u8) + 1) \<le> Suc (length p)"
    using u by (simp add: unat_word_ariths)
  show ?thesis
  proof (cases "p = []")
    case True
    with bs show ?thesis
      by (simp add: PTPText_UnmarshalBinary_def binary_Read_Ok)
  next
    case False
    then have "(word_of_nat (length p) :: u8) \<noteq> 0"
      using u by (metis length_0_conv unat_eq_zero)
    with w show ?thesis
      using bs u by (simp add: PTPText_UnmarshalBinary_def binary_Read_Ok read_full_def)
  qed
qed

text \<open>
  What \<open>PTPText.MarshalBinary\<close> writes, \<open>UnmarshalBinary\<close> reads back, for every text of up to 255
  bytes and whatever follows it in the packet.
\<close>
theorem PTPText_roundtrip:
  assumes "PTPText_MarshalBinary p = Ok bs"
  shows "PTPText_UnmarshalBinary [] (bs @ rest) = Ok p"
  using assms by (rule PTPText_unmarshal)

theorem PTPText_roundtrip_witness:
  "PTPText_UnmarshalBinary [] ([3, 97, 98, 99, 0] @ [7]) = Ok [97, 98, 99]"
  by (rule PTPText_roundtrip) code_simp

text \<open>
  The padding of \<open>PTPText.MarshalBinary\<close> makes the encoded length odd for every text, where the
  comment asks for an even one: the byte is added when the text, not the encoding, has odd length.
\<close>
theorem PTPText_MarshalBinary_odd:
  assumes "PTPText_MarshalBinary p = Ok bs"
  shows "odd (length bs)"
proof -
  from assms have l: "length p \<le> 255"
    by (auto simp: PTPText_MarshalBinary_def Let_def split: if_splits)
  then have "unat ((word_of_nat (length p) :: u8) mod 2) = length p mod 2"
    by (simp add: unat_mod_distrib unat_of_nat)
  then have "((word_of_nat (length p) :: u8) mod 2 \<noteq> 0) = odd (length p)"
    by (metis odd_iff_mod_2_eq_one unat_eq_zero mod_2_eq_odd one_neq_zero of_bool_eq(1,2))
  with assms l show ?thesis
    by (auto simp: PTPText_MarshalBinary_def Let_def split: if_splits)
qed

theorem PTPText_MarshalBinary_odd_witness:
  "PTPText_MarshalBinary [97, 98] = Ok [2, 97, 98] \<and> odd (length [2, 97, 98 :: u8])"
proof -
  have m: "PTPText_MarshalBinary [97, 98] = Ok [2, 97, 98]" by code_simp
  from m PTPText_MarshalBinary_odd [OF m] show ?thesis by simp
qed

end
