(* ===== verification/PTP_Packets.thy ===== *)
theory PTP_Packets
  imports PTP_Types
begin

text \<open>
  \<open>ptp/protocol/protocol.go\<close>: the common header, the fixed-size PTP messages and their marshalling.
  Each struct is a record with the source's fields and a codec with the layout \<open>encoding/binary\<close>
  gives it. The hand-written \<open>MarshalBinaryTo\<close> and \<open>UnmarshalBinary\<close> methods are written out access by
  access, every access that Go bounds-checks being able to panic, and are then proved to be the
  codec: the locales \<open>marshaler_to\<close> and \<open>unmarshaler\<close> state what \<open>BytesTo\<close>, \<open>MarshalBinary\<close> and
  \<open>FromBytes\<close> need of them.
\<close>

section \<open>The common header\<close>

definition MajorVersion :: u8 where "MajorVersion = 2"
definition MinorVersion :: u8 where "MinorVersion = 1"
definition Version :: u8 where "Version = push_bit 4 MinorVersion OR MajorVersion"
definition MajorVersionMask :: u8 where "MajorVersionMask = 0x0f"

definition PortEvent :: nat where "PortEvent = 319"
definition PortGeneral :: nat where "PortGeneral = 320"

definition MgmtLogMessageInterval :: LogInterval where "MgmtLogMessageInterval = 0x7f"

definition DefaultTargetPortIdentity :: PortIdentity where
  "DefaultTargetPortIdentity = \<lparr>pi_ClockIdentity = 0xffffffffffffffff, pi_PortNumber = 0xffff\<rparr>"

record Header =
  h_SdoIDAndMsgType :: SdoIDAndMsgType
  h_Version :: u8
  h_MessageLength :: u16
  h_DomainNumber :: u8
  h_MinorSdoID :: u8
  h_FlagField :: u16
  h_CorrectionField :: Correction
  h_MessageTypeSpecific :: u32
  h_SourcePortIdentity :: PortIdentity
  h_SequenceID :: u16
  h_ControlField :: u8
  h_LogMessageInterval :: LogInterval

definition Header_codec :: "Header codec" where
  "Header_codec = cmap
     (\<lambda>(s, v, l, d, m, f, c, t, p, q, k, i).
        \<lparr>h_SdoIDAndMsgType = s, h_Version = v, h_MessageLength = l, h_DomainNumber = d,
         h_MinorSdoID = m, h_FlagField = f, h_CorrectionField = c, h_MessageTypeSpecific = t,
         h_SourcePortIdentity = p, h_SequenceID = q, h_ControlField = k, h_LogMessageInterval = i\<rparr>)
     (\<lambda>h. (h_SdoIDAndMsgType h, h_Version h, h_MessageLength h, h_DomainNumber h, h_MinorSdoID h,
        h_FlagField h, h_CorrectionField h, h_MessageTypeSpecific h, h_SourcePortIdentity h,
        h_SequenceID h, h_ControlField h, h_LogMessageInterval h))
     (cpair cu8 (cpair cu8 (cpair cu16 (cpair cu8 (cpair cu8 (cpair cu16 (cpair cu64 (cpair cu32
       (cpair PortIdentity_codec (cpair cu16 (cpair cu8 cu8)))))))))))"

definition headerSize :: nat where
  [simp]: "headerSize = 34"

definition unmarshalHeader :: "bytes \<Rightarrow> Header res" where
  "unmarshalHeader b =
     bind_res (get_at cu8 b 0) (\<lambda>sdo.
     bind_res (get_at cu8 b 1) (\<lambda>version.
     bind_res (get_at cu16 b 2) (\<lambda>len.
     bind_res (get_at cu8 b 4) (\<lambda>domain.
     bind_res (get_at cu8 b 5) (\<lambda>minor.
     bind_res (get_at cu16 b 6) (\<lambda>flags.
     bind_res (get_at cu64 b 8) (\<lambda>corr.
     bind_res (get_at cu32 b 16) (\<lambda>specific.
     bind_res (get_at cu64 b 20) (\<lambda>clock.
     bind_res (get_at cu16 b 28) (\<lambda>port.
     bind_res (get_at cu16 b 30) (\<lambda>seq.
     bind_res (get_at cu8 b 32) (\<lambda>control.
     bind_res (get_at cu8 b 33) (\<lambda>interval.
       Ok \<lparr>h_SdoIDAndMsgType = sdo, h_Version = version, h_MessageLength = len,
           h_DomainNumber = domain, h_MinorSdoID = minor, h_FlagField = flags,
           h_CorrectionField = corr, h_MessageTypeSpecific = specific,
           h_SourcePortIdentity = \<lparr>pi_ClockIdentity = clock, pi_PortNumber = port\<rparr>,
           h_SequenceID = seq, h_ControlField = control, h_LogMessageInterval = interval\<rparr>)))))))))))))"

definition Header_MessageType :: "Header \<Rightarrow> MessageType" where
  "Header_MessageType p = MsgType (h_SdoIDAndMsgType p)"

definition SetSequence :: "u16 \<Rightarrow> Header \<Rightarrow> Header" where
  "SetSequence sequence p = p\<lparr>h_SequenceID := sequence\<rparr>"

definition headerMarshalBinaryTo :: "Header \<Rightarrow> bytes \<Rightarrow> (nat \<times> bytes) res" where
  "headerMarshalBinaryTo p b =
     bind_res (pokes
       [(0, cenc cu8 (h_SdoIDAndMsgType p)),
        (1, cenc cu8 (h_Version p)),
        (2, cenc cu16 (h_MessageLength p)),
        (4, cenc cu8 (h_DomainNumber p)),
        (5, cenc cu8 (h_MinorSdoID p)),
        (6, cenc cu16 (h_FlagField p)),
        (8, cenc cu64 (h_CorrectionField p)),
        (16, cenc cu32 (h_MessageTypeSpecific p)),
        (20, cenc cu64 (pi_ClockIdentity (h_SourcePortIdentity p))),
        (28, cenc cu16 (pi_PortNumber (h_SourcePortIdentity p))),
        (30, cenc cu16 (h_SequenceID p)),
        (32, cenc cu8 (h_ControlField p)),
        (33, cenc cu8 (h_LogMessageInterval p))] b) (\<lambda>b. Ok (headerSize, b))"

definition FlagAlternateMaster :: u16 where "FlagAlternateMaster = push_bit (8 + 0) 1"
definition FlagTwoStep :: u16 where "FlagTwoStep = push_bit (8 + 1) 1"
definition FlagUnicast :: u16 where "FlagUnicast = push_bit (8 + 2) 1"
definition FlagProfileSpecific1 :: u16 where "FlagProfileSpecific1 = push_bit (8 + 5) 1"
definition FlagProfileSpecific2 :: u16 where "FlagProfileSpecific2 = push_bit (8 + 6) 1"
definition FlagLeap61 :: u16 where "FlagLeap61 = push_bit 0 1"
definition FlagLeap59 :: u16 where "FlagLeap59 = push_bit 1 1"
definition FlagCurrentUtcOffsetValid :: u16 where "FlagCurrentUtcOffsetValid = push_bit 2 1"
definition FlagPTPTimescale :: u16 where "FlagPTPTimescale = push_bit 3 1"
definition FlagTimeTraceable :: u16 where "FlagTimeTraceable = push_bit 4 1"
definition FlagFrequencyTraceable :: u16 where "FlagFrequencyTraceable = push_bit 5 1"
definition FlagSynchronizationUncertain :: u16 where "FlagSynchronizationUncertain = push_bit 6 1"

section \<open>Messages\<close>

record AnnounceBody =
  ab_OriginTimestamp :: Timestamp
  ab_CurrentUTCOffset :: i16
  ab_Reserved :: u8
  ab_GrandmasterPriority1 :: u8
  ab_GrandmasterClockQuality :: ClockQuality
  ab_GrandmasterPriority2 :: u8
  ab_GrandmasterIdentity :: ClockIdentity
  ab_StepsRemoved :: u16
  ab_TimeSource :: TimeSource

record Announce =
  an_Header :: Header
  an_AnnounceBody :: AnnounceBody

definition AnnounceBody_codec :: "AnnounceBody codec" where
  "AnnounceBody_codec = cmap
     (\<lambda>(t, u, r, p, q, s, g, n, c).
        \<lparr>ab_OriginTimestamp = t, ab_CurrentUTCOffset = u, ab_Reserved = r,
         ab_GrandmasterPriority1 = p, ab_GrandmasterClockQuality = q, ab_GrandmasterPriority2 = s,
         ab_GrandmasterIdentity = g, ab_StepsRemoved = n, ab_TimeSource = c\<rparr>)
     (\<lambda>a. (ab_OriginTimestamp a, ab_CurrentUTCOffset a, ab_Reserved a, ab_GrandmasterPriority1 a,
        ab_GrandmasterClockQuality a, ab_GrandmasterPriority2 a, ab_GrandmasterIdentity a,
        ab_StepsRemoved a, ab_TimeSource a))
     (cpair Timestamp_codec (cpair cu16 (cpair cu8 (cpair cu8 (cpair ClockQuality_codec (cpair cu8
       (cpair cu64 (cpair cu16 cu8))))))))"

definition Announce_codec :: "Announce codec" where
  "Announce_codec = cmap (\<lambda>(h, b). \<lparr>an_Header = h, an_AnnounceBody = b\<rparr>)
     (\<lambda>p. (an_Header p, an_AnnounceBody p)) (cpair Header_codec AnnounceBody_codec)"

definition copy_at :: "nat \<Rightarrow> bytes \<Rightarrow> bytes \<Rightarrow> bytes res" where
  "copy_at i bs b =
     (if i \<le> length b then Ok (take i b @ take (length b - i) bs @ drop (i + length bs) b)
      else Inl Panic)"

definition Announce_MarshalBinaryTo :: "Announce \<Rightarrow> bytes \<Rightarrow> (nat \<times> bytes) res" where
  "Announce_MarshalBinaryTo p b =
     (if length b < headerSize + 30 then Err ''not enough buffer to write Announce''
      else bind_res (headerMarshalBinaryTo (an_Header p) b) (\<lambda>(n, b).
        let a = an_AnnounceBody p; q = ab_GrandmasterClockQuality a in
        bind_res (copy_at n (ts_Seconds (ab_OriginTimestamp a)) b) (\<lambda>b.
        bind_res (pokes
          [(n + 6, cenc cu32 (ts_Nanoseconds (ab_OriginTimestamp a))),
           (n + 10, cenc cu16 (ab_CurrentUTCOffset a)),
           (n + 12, cenc cu8 (ab_Reserved a)),
           (n + 13, cenc cu8 (ab_GrandmasterPriority1 a)),
           (n + 14, cenc cu8 (cq_ClockClass q)),
           (n + 15, cenc cu8 (cq_ClockAccuracy q)),
           (n + 16, cenc cu16 (cq_OffsetScaledLogVariance q)),
           (n + 18, cenc cu8 (ab_GrandmasterPriority2 a)),
           (n + 19, cenc cu64 (ab_GrandmasterIdentity a)),
           (n + 27, cenc cu16 (ab_StepsRemoved a)),
           (n + 29, cenc cu8 (ab_TimeSource a))] b) (\<lambda>b.
        Ok (n + 30, b)))))"

text \<open>
  The bodies of the \<open>MarshalBinary\<close> methods: write into a fresh buffer of the given size and return
  the part written; on an error the result is the empty slice and the error.
\<close>

definition marshal_in :: "nat \<Rightarrow> (bytes \<Rightarrow> (nat \<times> bytes) res) \<Rightarrow> bytes res" where
  "marshal_in k f = bind_res (f (replicate k 0)) (\<lambda>(n, buf). slice buf 0 n)"

definition Announce_MarshalBinary :: "Announce \<Rightarrow> bytes res" where
  "Announce_MarshalBinary p = marshal_in 64 (Announce_MarshalBinaryTo p)"

record SyncDelayReqBody =
  sb_OriginTimestamp :: Timestamp

record SyncDelayReq =
  sd_Header :: Header
  sd_SyncDelayReqBody :: SyncDelayReqBody

definition SyncDelayReq_codec :: "SyncDelayReq codec" where
  "SyncDelayReq_codec =
     cmap (\<lambda>(h, t). \<lparr>sd_Header = h, sd_SyncDelayReqBody = \<lparr>sb_OriginTimestamp = t\<rparr>\<rparr>)
       (\<lambda>p. (sd_Header p, sb_OriginTimestamp (sd_SyncDelayReqBody p)))
       (cpair Header_codec Timestamp_codec)"

definition SyncDelayReq_MarshalBinaryTo :: "SyncDelayReq \<Rightarrow> bytes \<Rightarrow> (nat \<times> bytes) res" where
  "SyncDelayReq_MarshalBinaryTo p b =
     (if length b < headerSize + 10 then Err ''not enough buffer to write SyncDelayReq''
      else bind_res (headerMarshalBinaryTo (sd_Header p) b) (\<lambda>(n, b).
        let t = sb_OriginTimestamp (sd_SyncDelayReqBody p) in
        bind_res (copy_at n (ts_Seconds t) b) (\<lambda>b.
        bind_res (pokes [(n + 6, cenc cu32 (ts_Nanoseconds t))] b) (\<lambda>b.
        Ok (n + 10, b)))))"

definition SyncDelayReq_MarshalBinary :: "SyncDelayReq \<Rightarrow> bytes res" where
  "SyncDelayReq_MarshalBinary p = marshal_in 44 (SyncDelayReq_MarshalBinaryTo p)"

text \<open>
  \<open>copy(p.Seconds[:], b[i:])\<close> into a six-byte array: the array is overwritten as far as the slice
  reaches. Every \<open>UnmarshalBinary\<close> below sets every field of its receiver, so the receiver's old value
  is not an argument.
\<close>

definition copy_seconds :: "bytes \<Rightarrow> nat \<Rightarrow> bytes res" where
  "copy_seconds b i = bind_res (slice_from b i) (\<lambda>s. Ok (take 6 s @ replicate (6 - length s) 0))"

definition SyncDelayReq_UnmarshalBinary :: "bytes \<Rightarrow> SyncDelayReq res" where
  "SyncDelayReq_UnmarshalBinary b =
     (if length b < headerSize + 10 then Err ''not enough data to decode SyncDelayReq''
      else bind_res (unmarshalHeader b) (\<lambda>h.
        bind_res (copy_seconds b headerSize) (\<lambda>s.
        bind_res (get_at cu32 b (headerSize + 6)) (\<lambda>n.
        Ok \<lparr>sd_Header = h, sd_SyncDelayReqBody =
              \<lparr>sb_OriginTimestamp = \<lparr>ts_Seconds = s, ts_Nanoseconds = n\<rparr>\<rparr>\<rparr>))))"

record FollowUpBody =
  fb_PreciseOriginTimestamp :: Timestamp

record FollowUp =
  fu_Header :: Header
  fu_FollowUpBody :: FollowUpBody

definition FollowUp_codec :: "FollowUp codec" where
  "FollowUp_codec =
     cmap (\<lambda>(h, t). \<lparr>fu_Header = h, fu_FollowUpBody = \<lparr>fb_PreciseOriginTimestamp = t\<rparr>\<rparr>)
       (\<lambda>p. (fu_Header p, fb_PreciseOriginTimestamp (fu_FollowUpBody p)))
       (cpair Header_codec Timestamp_codec)"

definition FollowUp_MarshalBinaryTo :: "FollowUp \<Rightarrow> bytes \<Rightarrow> (nat \<times> bytes) res" where
  "FollowUp_MarshalBinaryTo p b =
     (if length b < headerSize + 10 then Err ''not enough buffer to write FollowUp''
      else bind_res (headerMarshalBinaryTo (fu_Header p) b) (\<lambda>(n, b).
        let t = fb_PreciseOriginTimestamp (fu_FollowUpBody p) in
        bind_res (copy_at n (ts_Seconds t) b) (\<lambda>b.
        bind_res (pokes [(n + 6, cenc cu32 (ts_Nanoseconds t))] b) (\<lambda>b.
        Ok (n + 10, b)))))"

definition FollowUp_MarshalBinary :: "FollowUp \<Rightarrow> bytes res" where
  "FollowUp_MarshalBinary p = marshal_in 44 (FollowUp_MarshalBinaryTo p)"

definition FollowUp_UnmarshalBinary :: "bytes \<Rightarrow> FollowUp res" where
  "FollowUp_UnmarshalBinary b =
     (if length b < headerSize + 10 then Err ''not enough data to decode FollowUp''
      else bind_res (unmarshalHeader b) (\<lambda>h.
        bind_res (copy_seconds b headerSize) (\<lambda>s.
        bind_res (get_at cu32 b (headerSize + 6)) (\<lambda>n.
        Ok \<lparr>fu_Header = h, fu_FollowUpBody =
              \<lparr>fb_PreciseOriginTimestamp = \<lparr>ts_Seconds = s, ts_Nanoseconds = n\<rparr>\<rparr>\<rparr>))))"

record DelayRespBody =
  db_ReceiveTimestamp :: Timestamp
  db_RequestingPortIdentity :: PortIdentity

record DelayResp =
  dr_Header :: Header
  dr_DelayRespBody :: DelayRespBody

definition DelayResp_codec :: "DelayResp codec" where
  "DelayResp_codec =
     cmap (\<lambda>(h, t, i). \<lparr>dr_Header = h, dr_DelayRespBody =
             \<lparr>db_ReceiveTimestamp = t, db_RequestingPortIdentity = i\<rparr>\<rparr>)
       (\<lambda>p. (dr_Header p, db_ReceiveTimestamp (dr_DelayRespBody p),
             db_RequestingPortIdentity (dr_DelayRespBody p)))
       (cpair Header_codec (cpair Timestamp_codec PortIdentity_codec))"

definition DelayResp_MarshalBinaryTo :: "DelayResp \<Rightarrow> bytes \<Rightarrow> (nat \<times> bytes) res" where
  "DelayResp_MarshalBinaryTo p b =
     (if length b < headerSize + 20 then Err ''not enough buffer to write DelayResp''
      else bind_res (headerMarshalBinaryTo (dr_Header p) b) (\<lambda>(n, b).
        let t = db_ReceiveTimestamp (dr_DelayRespBody p);
            i = db_RequestingPortIdentity (dr_DelayRespBody p) in
        bind_res (copy_at n (ts_Seconds t) b) (\<lambda>b.
        bind_res (pokes
          [(n + 6, cenc cu32 (ts_Nanoseconds t)),
           (n + 10, cenc cu64 (pi_ClockIdentity i)),
           (n + 18, cenc cu16 (pi_PortNumber i))] b) (\<lambda>b.
        Ok (n + 20, b)))))"

definition DelayResp_MarshalBinary :: "DelayResp \<Rightarrow> bytes res" where
  "DelayResp_MarshalBinary p = marshal_in 54 (DelayResp_MarshalBinaryTo p)"

definition DelayResp_UnmarshalBinary :: "bytes \<Rightarrow> DelayResp res" where
  "DelayResp_UnmarshalBinary b =
     (if length b < headerSize + 20 then Err ''not enough data to decode DelayResp''
      else bind_res (unmarshalHeader b) (\<lambda>h.
        bind_res (copy_seconds b headerSize) (\<lambda>s.
        bind_res (get_at cu32 b (headerSize + 6)) (\<lambda>n.
        bind_res (get_at cu64 b (headerSize + 10)) (\<lambda>c.
        bind_res (get_at cu16 b (headerSize + 18)) (\<lambda>p.
        Ok \<lparr>dr_Header = h, dr_DelayRespBody =
              \<lparr>db_ReceiveTimestamp = \<lparr>ts_Seconds = s, ts_Nanoseconds = n\<rparr>,
               db_RequestingPortIdentity = \<lparr>pi_ClockIdentity = c, pi_PortNumber = p\<rparr>\<rparr>\<rparr>))))))"

record PDelayReqBody =
  pb_OriginTimestamp :: Timestamp
  pb_Reserved :: bytes

record PDelayReq =
  pq_Header :: Header
  pq_PDelayReqBody :: PDelayReqBody

definition PDelayReq_codec :: "PDelayReq codec" where
  "PDelayReq_codec =
     cmap (\<lambda>(h, t, r). \<lparr>pq_Header = h, pq_PDelayReqBody =
             \<lparr>pb_OriginTimestamp = t, pb_Reserved = r\<rparr>\<rparr>)
       (\<lambda>p. (pq_Header p, pb_OriginTimestamp (pq_PDelayReqBody p), pb_Reserved (pq_PDelayReqBody p)))
       (cpair Header_codec (cpair Timestamp_codec (carray 10 cu8)))"

record PDelayRespBody =
  rb_RequestReceiptTimestamp :: Timestamp
  rb_RequestingPortIdentity :: PortIdentity

record PDelayResp =
  pr_Header :: Header
  pr_PDelayRespBody :: PDelayRespBody

definition PDelayResp_codec :: "PDelayResp codec" where
  "PDelayResp_codec =
     cmap (\<lambda>(h, t, i). \<lparr>pr_Header = h, pr_PDelayRespBody =
             \<lparr>rb_RequestReceiptTimestamp = t, rb_RequestingPortIdentity = i\<rparr>\<rparr>)
       (\<lambda>p. (pr_Header p, rb_RequestReceiptTimestamp (pr_PDelayRespBody p),
             rb_RequestingPortIdentity (pr_PDelayRespBody p)))
       (cpair Header_codec (cpair Timestamp_codec PortIdentity_codec))"

record PDelayRespFollowUpBody =
  rf_ResponseOriginTimestamp :: Timestamp
  rf_RequestingPortIdentity :: PortIdentity

record PDelayRespFollowUp =
  pf_Header :: Header
  pf_PDelayRespFollowUpBody :: PDelayRespFollowUpBody

definition PDelayRespFollowUp_codec :: "PDelayRespFollowUp codec" where
  "PDelayRespFollowUp_codec =
     cmap (\<lambda>(h, t, i). \<lparr>pf_Header = h, pf_PDelayRespFollowUpBody =
             \<lparr>rf_ResponseOriginTimestamp = t, rf_RequestingPortIdentity = i\<rparr>\<rparr>)
       (\<lambda>p. (pf_Header p, rf_ResponseOriginTimestamp (pf_PDelayRespFollowUpBody p),
             rf_RequestingPortIdentity (pf_PDelayRespFollowUpBody p)))
       (cpair Header_codec (cpair Timestamp_codec PortIdentity_codec))"

section \<open>Bytes, BytesTo and FromBytes\<close>

definition BytesTo :: "(bytes \<Rightarrow> (nat \<times> bytes) res) \<Rightarrow> bytes \<Rightarrow> (nat \<times> bytes) res" where
  "BytesTo marshalBinaryTo buf =
     bind_res (marshalBinaryTo buf) (\<lambda>(n, buf).
     bind_res (pokes [(n, [0x0]), (n + 1, [0x0])] buf) (\<lambda>buf.
     Ok (n + 2, buf)))"

definition twoZeros :: bytes where
  "twoZeros = [0, 0]"

text \<open>
  \<open>Bytes\<close> and \<open>FromBytes\<close> take any packet: one that implements \<open>encoding.BinaryMarshaler\<close>
  (\<open>BinaryUnmarshaler\<close>) is marshalled by its method, any other by \<open>encoding/binary\<close>. The first
  argument is that case distinction; which packet has which is fixed by the packet's type.
\<close>

datatype 'a binary_marshaler = MarshalBinary "'a \<Rightarrow> bytes res" | ReflectWrite "'a codec"
datatype 'a binary_unmarshaler = UnmarshalBinary "bytes \<Rightarrow> 'a res" | ReflectRead "'a codec"

fun Bytes :: "'a binary_marshaler \<Rightarrow> 'a \<Rightarrow> bytes res" where
  "Bytes (MarshalBinary m) p = bind_res (m p) (\<lambda>b. Ok (b @ twoZeros))"
| "Bytes (ReflectWrite c) p = Ok (binary_Write c p @ twoZeros)"

fun FromBytes :: "'a binary_unmarshaler \<Rightarrow> bytes \<Rightarrow> 'a res" where
  "FromBytes (UnmarshalBinary u) rawBytes = u rawBytes"
| "FromBytes (ReflectRead c) rawBytes = bind_res (binary_Read c rawBytes) (\<lambda>(p, _). Ok p)"

section \<open>The codecs are well formed\<close>

lemma wf_Header [wf_codecs]: "wf_codec Header_codec"
  unfolding Header_codec_def by (rule wf_cmap) (auto intro!: wf_codecs)

lemma wf_AnnounceBody [wf_codecs]: "wf_codec AnnounceBody_codec"
  unfolding AnnounceBody_codec_def by (rule wf_cmap) (auto intro!: wf_codecs)

lemma wf_Announce [wf_codecs]: "wf_codec Announce_codec"
  unfolding Announce_codec_def by (rule wf_cmap) (auto intro!: wf_codecs)

lemma wf_SyncDelayReq [wf_codecs]: "wf_codec SyncDelayReq_codec"
  unfolding SyncDelayReq_codec_def by (rule wf_cmap) (auto intro!: wf_codecs)

lemma wf_FollowUp [wf_codecs]: "wf_codec FollowUp_codec"
  unfolding FollowUp_codec_def by (rule wf_cmap) (auto intro!: wf_codecs)

lemma wf_DelayResp [wf_codecs]: "wf_codec DelayResp_codec"
  unfolding DelayResp_codec_def by (rule wf_cmap) (auto intro!: wf_codecs)

lemma wf_PDelayReq [wf_codecs]: "wf_codec PDelayReq_codec"
  unfolding PDelayReq_codec_def by (rule wf_cmap) (auto intro!: wf_codecs)

lemma wf_PDelayResp [wf_codecs]: "wf_codec PDelayResp_codec"
  unfolding PDelayResp_codec_def by (rule wf_cmap) (auto intro!: wf_codecs)

lemma wf_PDelayRespFollowUp [wf_codecs]: "wf_codec PDelayRespFollowUp_codec"
  unfolding PDelayRespFollowUp_codec_def by (rule wf_cmap) (auto intro!: wf_codecs)

lemma csize_packets [simp]:
  "csize Header_codec = 34" "csize AnnounceBody_codec = 30" "csize Announce_codec = 64"
  "csize SyncDelayReq_codec = 44" "csize FollowUp_codec = 44" "csize DelayResp_codec = 54"
  "csize PDelayReq_codec = 54" "csize PDelayResp_codec = 54" "csize PDelayRespFollowUp_codec = 54"
  by (simp_all add: Header_codec_def AnnounceBody_codec_def Announce_codec_def SyncDelayReq_codec_def
      FollowUp_codec_def DelayResp_codec_def PDelayReq_codec_def PDelayResp_codec_def
      PDelayRespFollowUp_codec_def)

lemma cok_Header [simp]: "cok Header_codec h"
  by (simp add: Header_codec_def)

interpretation ptp_header: fixed_codec Header_codec
  by unfold_locales (rule wf_Header)

section \<open>What a hand-written marshaller promises\<close>

lemma copy_at_poke: "i + length bs \<le> length b \<Longrightarrow> copy_at i bs b = poke i bs b"
  by (simp add: copy_at_def poke_def)

lemma length_be [simp]: "length (cenc cu16 a) = 2" "length (cenc cu32 b) = 4" "length (cenc cu64 c) = 8"
  by (simp_all add: cu16_def cu32_def cu64_def)

text \<open>
  A value that supports \<open>MarshalBinaryTo\<close> writes the bytes of its codec to the front of any buffer
  that is long enough and leaves the rest of the buffer alone.
\<close>

locale marshaler_to =
  fixes C :: "'a codec" and marshalBinaryTo :: "'a \<Rightarrow> bytes \<Rightarrow> (nat \<times> bytes) res"
  assumes wf_C: "wf_codec C"
    and marshal_enough: "cok C x \<Longrightarrow> csize C \<le> length b \<Longrightarrow>
      marshalBinaryTo x b = Ok (csize C, cenc C x @ drop (csize C) b)"
begin

lemma marshal_in_enough:
  assumes "cok C x" and "csize C \<le> k"
  shows "marshal_in k (marshalBinaryTo x) = Ok (binary_Write C x)"
  using assms by (simp add: marshal_in_def marshal_enough binary_Write_def wf_codecD(1) [OF wf_C])

lemma BytesTo_enough:
  assumes "cok C x" and "csize C + 2 \<le> length b"
  shows "BytesTo (marshalBinaryTo x) b =
    Ok (csize C + 2, binary_Write C x @ twoZeros @ drop (csize C + 2) b)"
proof -
  let ?ws = "[(csize C, [0x0]), (csize C + 1, [0x0])] :: (nat \<times> bytes) list"
  have "pokes ?ws (cenc C x @ drop (csize C) b) =
      Ok (cenc C x @ concat (map snd ?ws) @ drop (length (concat (map snd ?ws))) (drop (csize C) b))"
    using assms by (intro pokes_contiguous_from) (simp_all add: wf_codecD(1) [OF wf_C])
  then show ?thesis
    using assms by (simp add: BytesTo_def marshal_enough binary_Write_def twoZeros_def
        add.commute del: pokes.simps)
qed

text \<open>Without room for the two trailing zeros the write past the packet panics.\<close>

lemma BytesTo_no_room:
  assumes "cok C x" and "csize C \<le> length b" and "length b < csize C + 2"
  shows "BytesTo (marshalBinaryTo x) b = Inl Panic"
proof -
  have l: "length (cenc C x @ drop (csize C) b) = length b"
    using assms by (simp add: wf_codecD(1) [OF wf_C])
  have "pokes [(csize C, [0x0]), (csize C + 1, [0x0])] (cenc C x @ drop (csize C) b) = Inl Panic"
    using assms l by (cases "length b = csize C") (auto simp: poke_def)
  then show ?thesis
    using assms by (simp add: BytesTo_def marshal_enough del: pokes.simps)
qed

end

text \<open>A packet also reports a buffer that is too short instead of panicking.\<close>

locale packet_marshaler = marshaler_to +
  fixes msg :: string
  assumes marshal_short: "length b < csize C \<Longrightarrow> marshalBinaryTo x b = Err msg"
begin

lemma BytesTo_short: "length b < csize C \<Longrightarrow> BytesTo (marshalBinaryTo x) b = Err msg"
  by (simp add: BytesTo_def marshal_short)

lemma BytesTo_total:
  assumes "cok C x"
  shows "(BytesTo (marshalBinaryTo x) b = Inl Panic) =
    (length b = csize C \<or> length b = csize C + 1)"
proof -
  consider "length b < csize C" | "csize C \<le> length b" "length b < csize C + 2"
    | "csize C + 2 \<le> length b" by linarith
  then show ?thesis
    by cases (use assms in \<open>auto simp: BytesTo_short BytesTo_no_room BytesTo_enough\<close>)
qed

end

text \<open>A hand-written decoder is the codec on any slice that is long enough.\<close>

locale decoder =
  fixes C :: "'a codec" and unmarshal :: "bytes \<Rightarrow> 'a res"
  assumes wf_C: "wf_codec C"
    and unmarshal_enough: "csize C \<le> length b \<Longrightarrow> unmarshal b = Ok (cdec C (take (csize C) b))"
begin

lemma unmarshal_write: "cok C x \<Longrightarrow> unmarshal (binary_Write C x @ r) = Ok x"
  by (simp add: unmarshal_enough binary_Write_def wf_codecD [OF wf_C])

end

text \<open>The decoders of the packets also report a slice that is too short as an error.\<close>

locale unmarshaler = decoder +
  fixes msg :: string
  assumes unmarshal_short: "length b < csize C \<Longrightarrow> unmarshal b = Err msg"
begin

lemma write_unmarshal:
  assumes "unmarshal b = Ok x"
  shows "cok C x \<and> binary_Write C x = take (csize C) b"
proof (cases "length b < csize C")
  case True
  with assms show ?thesis by (simp add: unmarshal_short)
next
  case False
  with assms show ?thesis
    by (auto simp: unmarshal_enough binary_Write_def wf_codecD [OF wf_C])
qed

text \<open>It accepts what reading by reflection accepts and gives the same value.\<close>

lemma unmarshal_is_Read:
  "unmarshal b = Ok x \<longleftrightarrow> FromBytes (ReflectRead C) b = Ok x"
  by (cases "length b < csize C") (simp_all add: unmarshal_short unmarshal_enough binary_Read_Ok
      binary_Read_short)

lemma unmarshal_no_panic: "unmarshal b \<noteq> Inl Panic"
  by (cases "length b < csize C") (simp_all add: unmarshal_short unmarshal_enough)

end

section \<open>The marshallers of the packets\<close>

lemma headerMarshalBinaryTo_enough:
  assumes "headerSize \<le> length b"
  shows "headerMarshalBinaryTo p b = Ok (headerSize, cenc Header_codec p @ drop headerSize b)"
  using assms unfolding headerMarshalBinaryTo_def
  by (subst pokes_contiguous) (simp_all add: Header_codec_def PortIdentity_codec_def)

lemma length_Header [simp]: "length (cenc Header_codec h) = 34"
  using wf_codecD(1) [OF wf_Header] by simp

lemma length_Timestamp: "length (ts_Seconds t) = 6 \<Longrightarrow> length (cenc Timestamp_codec t) = 10"
  using wf_codecD(1) [OF wf_Timestamp] by simp

text \<open>After the header, the body is a copy of the seconds and contiguous writes.\<close>

lemma body_writes:
  assumes "length pre = 34" and "contiguous (34 + length s) ws"
    and "length s + length (concat (map snd ws)) \<le> length b"
  shows "bind_res (copy_at 34 s (pre @ b)) (pokes ws) =
    Ok (pre @ s @ concat (map snd ws) @ drop (length s + length (concat (map snd ws))) b)"
proof -
  have "copy_at 34 s (pre @ b) = poke 34 s (pre @ b)"
    using assms by (intro copy_at_poke) simp
  then have "bind_res (copy_at 34 s (pre @ b)) (pokes ws) = pokes ((34, s) # ws) (pre @ b)"
    by simp
  then show ?thesis
    using assms by (subst (asm) pokes_contiguous_from) (simp_all add: add.commute)
qed

lemma concat_cu8 [simp]: "concat (map (cenc cu8) xs) = xs"
  by (induction xs) simp_all

lemma bind_assoc_pair: "bind_res r (\<lambda>b. bind_res (f b) g) = bind_res (bind_res r f) g"
  by (simp add: bind_res_assoc)

lemma Announce_marshal_enough:
  assumes "cok Announce_codec p" and "64 \<le> length b"
  shows "Announce_MarshalBinaryTo p b = Ok (64, cenc Announce_codec p @ drop 64 b)"
  using assms unfolding Announce_MarshalBinaryTo_def
  by (simp add: headerMarshalBinaryTo_enough bind_assoc_pair Let_def body_writes Announce_codec_def
      AnnounceBody_codec_def Timestamp_codec_def ClockQuality_codec_def del: pokes.simps)

lemma SyncDelayReq_marshal_enough:
  assumes "cok SyncDelayReq_codec p" and "44 \<le> length b"
  shows "SyncDelayReq_MarshalBinaryTo p b = Ok (44, cenc SyncDelayReq_codec p @ drop 44 b)"
  using assms unfolding SyncDelayReq_MarshalBinaryTo_def
  by (simp add: headerMarshalBinaryTo_enough bind_assoc_pair Let_def body_writes
      SyncDelayReq_codec_def Timestamp_codec_def del: pokes.simps)

lemma FollowUp_marshal_enough:
  assumes "cok FollowUp_codec p" and "44 \<le> length b"
  shows "FollowUp_MarshalBinaryTo p b = Ok (44, cenc FollowUp_codec p @ drop 44 b)"
  using assms unfolding FollowUp_MarshalBinaryTo_def
  by (simp add: headerMarshalBinaryTo_enough bind_assoc_pair Let_def body_writes
      FollowUp_codec_def Timestamp_codec_def del: pokes.simps)

lemma DelayResp_marshal_enough:
  assumes "cok DelayResp_codec p" and "54 \<le> length b"
  shows "DelayResp_MarshalBinaryTo p b = Ok (54, cenc DelayResp_codec p @ drop 54 b)"
  using assms unfolding DelayResp_MarshalBinaryTo_def
  by (simp add: headerMarshalBinaryTo_enough bind_assoc_pair Let_def body_writes
      DelayResp_codec_def Timestamp_codec_def PortIdentity_codec_def del: pokes.simps)

lemma packets_marshal_short:
  "length b < 64 \<Longrightarrow> Announce_MarshalBinaryTo a b = Err ''not enough buffer to write Announce''"
  "length b < 44 \<Longrightarrow> SyncDelayReq_MarshalBinaryTo s b = Err ''not enough buffer to write SyncDelayReq''"
  "length b < 44 \<Longrightarrow> FollowUp_MarshalBinaryTo f b = Err ''not enough buffer to write FollowUp''"
  "length b < 54 \<Longrightarrow> DelayResp_MarshalBinaryTo d b = Err ''not enough buffer to write DelayResp''"
  by (simp_all add: Announce_MarshalBinaryTo_def SyncDelayReq_MarshalBinaryTo_def
      FollowUp_MarshalBinaryTo_def DelayResp_MarshalBinaryTo_def)

interpretation announce_m: packet_marshaler Announce_codec Announce_MarshalBinaryTo
    "''not enough buffer to write Announce''"
  by unfold_locales
    (simp_all add: wf_Announce Announce_marshal_enough packets_marshal_short)

interpretation sync_m: packet_marshaler SyncDelayReq_codec SyncDelayReq_MarshalBinaryTo
    "''not enough buffer to write SyncDelayReq''"
  by unfold_locales
    (simp_all add: wf_SyncDelayReq SyncDelayReq_marshal_enough packets_marshal_short)

interpretation followup_m: packet_marshaler FollowUp_codec FollowUp_MarshalBinaryTo
    "''not enough buffer to write FollowUp''"
  by unfold_locales
    (simp_all add: wf_FollowUp FollowUp_marshal_enough packets_marshal_short)

interpretation delayresp_m: packet_marshaler DelayResp_codec DelayResp_MarshalBinaryTo
    "''not enough buffer to write DelayResp''"
  by unfold_locales
    (simp_all add: wf_DelayResp DelayResp_marshal_enough packets_marshal_short)

section \<open>The decoders of the packets\<close>

lemma take_cu8 [simp]: "length bs = 6 \<Longrightarrow> dec_list cu8 6 bs = bs"
  using dec_list_concat [OF wf_cu8, of bs] by (simp add: list_all_iff)

lemma unmarshalHeader_enough:
  assumes "headerSize \<le> length b"
  shows "unmarshalHeader b = Ok (cdec Header_codec (take headerSize b))"
  using assms by (simp add: unmarshalHeader_def Header_codec_def PortIdentity_codec_def drop_take
      numeral_2_eq_2 [symmetric]
      del: cu8_simps(4))

lemma copy_seconds_enough: "i + 6 \<le> length b \<Longrightarrow> copy_seconds b i = Ok (take 6 (drop i b))"
  by (simp add: copy_seconds_def)

lemma SyncDelayReq_unmarshal_enough:
  "44 \<le> length b \<Longrightarrow> SyncDelayReq_UnmarshalBinary b = Ok (cdec SyncDelayReq_codec (take 44 b))"
  by (simp add: SyncDelayReq_UnmarshalBinary_def unmarshalHeader_enough copy_seconds_enough
      SyncDelayReq_codec_def Timestamp_codec_def drop_take)

lemma FollowUp_unmarshal_enough:
  "44 \<le> length b \<Longrightarrow> FollowUp_UnmarshalBinary b = Ok (cdec FollowUp_codec (take 44 b))"
  by (simp add: FollowUp_UnmarshalBinary_def unmarshalHeader_enough copy_seconds_enough
      FollowUp_codec_def Timestamp_codec_def drop_take)

lemma DelayResp_unmarshal_enough:
  "54 \<le> length b \<Longrightarrow> DelayResp_UnmarshalBinary b = Ok (cdec DelayResp_codec (take 54 b))"
  by (simp add: DelayResp_UnmarshalBinary_def unmarshalHeader_enough copy_seconds_enough
      DelayResp_codec_def Timestamp_codec_def PortIdentity_codec_def drop_take)

lemma packets_unmarshal_short:
  "length b < 44 \<Longrightarrow> SyncDelayReq_UnmarshalBinary b = Err ''not enough data to decode SyncDelayReq''"
  "length b < 44 \<Longrightarrow> FollowUp_UnmarshalBinary b = Err ''not enough data to decode FollowUp''"
  "length b < 54 \<Longrightarrow> DelayResp_UnmarshalBinary b = Err ''not enough data to decode DelayResp''"
  by (simp_all add: SyncDelayReq_UnmarshalBinary_def FollowUp_UnmarshalBinary_def
      DelayResp_UnmarshalBinary_def)

interpretation sync_u: unmarshaler SyncDelayReq_codec SyncDelayReq_UnmarshalBinary
    "''not enough data to decode SyncDelayReq''"
  by unfold_locales
    (simp_all add: wf_SyncDelayReq SyncDelayReq_unmarshal_enough packets_unmarshal_short)

interpretation followup_u: unmarshaler FollowUp_codec FollowUp_UnmarshalBinary
    "''not enough data to decode FollowUp''"
  by unfold_locales
    (simp_all add: wf_FollowUp FollowUp_unmarshal_enough packets_unmarshal_short)

interpretation delayresp_u: unmarshaler DelayResp_codec DelayResp_UnmarshalBinary
    "''not enough data to decode DelayResp''"
  by unfold_locales
    (simp_all add: wf_DelayResp DelayResp_unmarshal_enough packets_unmarshal_short)

section \<open>Properties of the packets\<close>

text \<open>Concrete packets the properties are evaluated on.\<close>

definition example_Header :: Header where
  "example_Header =
     \<lparr>h_SdoIDAndMsgType = 0x9, h_Version = 2, h_MessageLength = 54, h_DomainNumber = 0, h_MinorSdoID = 0,
      h_FlagField = 0x0400, h_CorrectionField = 0, h_MessageTypeSpecific = 0,
      h_SourcePortIdentity = \<lparr>pi_ClockIdentity = 0xb8599ffffe55af4e, pi_PortNumber = 1\<rparr>,
      h_SequenceID = 7, h_ControlField = 3, h_LogMessageInterval = 0x7f\<rparr>"

definition example_Timestamp :: Timestamp where
  "example_Timestamp = \<lparr>ts_Seconds = [0, 0, 0x5e, 0x6b, 0x4b, 0xab], ts_Nanoseconds = 123456789\<rparr>"

definition example_Announce :: Announce where
  "example_Announce = \<lparr>an_Header = example_Header, an_AnnounceBody =
     \<lparr>ab_OriginTimestamp = example_Timestamp, ab_CurrentUTCOffset = 37, ab_Reserved = 0,
      ab_GrandmasterPriority1 = 128,
      ab_GrandmasterClockQuality =
        \<lparr>cq_ClockClass = 6, cq_ClockAccuracy = 0x21, cq_OffsetScaledLogVariance = 0x59e0\<rparr>,
      ab_GrandmasterPriority2 = 128, ab_GrandmasterIdentity = 0xb8599ffffe55af4e,
      ab_StepsRemoved = 0, ab_TimeSource = TimeSourceGNSS\<rparr>\<rparr>"

definition example_SyncDelayReq :: SyncDelayReq where
  "example_SyncDelayReq = \<lparr>sd_Header = example_Header,
     sd_SyncDelayReqBody = \<lparr>sb_OriginTimestamp = example_Timestamp\<rparr>\<rparr>"

definition example_FollowUp :: FollowUp where
  "example_FollowUp = \<lparr>fu_Header = example_Header,
     fu_FollowUpBody = \<lparr>fb_PreciseOriginTimestamp = example_Timestamp\<rparr>\<rparr>"

definition example_DelayResp :: DelayResp where
  "example_DelayResp = \<lparr>dr_Header = example_Header, dr_DelayRespBody =
     \<lparr>db_ReceiveTimestamp = example_Timestamp,
      db_RequestingPortIdentity = \<lparr>pi_ClockIdentity = 1, pi_PortNumber = 1\<rparr>\<rparr>\<rparr>"

lemmas example_packet_defs = example_Header_def example_Timestamp_def example_Announce_def
  example_SyncDelayReq_def example_FollowUp_def example_DelayResp_def

lemma cok_packets [simp]:
  "cok Announce_codec a = (length (ts_Seconds (ab_OriginTimestamp (an_AnnounceBody a))) = 6)"
  "cok SyncDelayReq_codec s = (length (ts_Seconds (sb_OriginTimestamp (sd_SyncDelayReqBody s))) = 6)"
  "cok FollowUp_codec f = (length (ts_Seconds (fb_PreciseOriginTimestamp (fu_FollowUpBody f))) = 6)"
  "cok DelayResp_codec d = (length (ts_Seconds (db_ReceiveTimestamp (dr_DelayRespBody d))) = 6)"
  by (simp_all add: Announce_codec_def AnnounceBody_codec_def SyncDelayReq_codec_def
      FollowUp_codec_def DelayResp_codec_def)

text \<open>
  The hand-optimised marshallers of Announce, Sync/Delay_Req, Follow_Up and Delay_Resp produce
  exactly the bytes \<open>encoding/binary\<close> would write for the struct; none of them fails or panics.
\<close>
theorem MarshalBinary_is_binary_Write:
  "(cok Announce_codec a \<longrightarrow> Announce_MarshalBinary a = Ok (binary_Write Announce_codec a)) \<and>
   (cok SyncDelayReq_codec s \<longrightarrow> SyncDelayReq_MarshalBinary s = Ok (binary_Write SyncDelayReq_codec s)) \<and>
   (cok FollowUp_codec f \<longrightarrow> FollowUp_MarshalBinary f = Ok (binary_Write FollowUp_codec f)) \<and>
   (cok DelayResp_codec d \<longrightarrow> DelayResp_MarshalBinary d = Ok (binary_Write DelayResp_codec d))"
  by (simp add: Announce_MarshalBinary_def SyncDelayReq_MarshalBinary_def FollowUp_MarshalBinary_def
      DelayResp_MarshalBinary_def announce_m.marshal_in_enough sync_m.marshal_in_enough
      followup_m.marshal_in_enough delayresp_m.marshal_in_enough)

theorem MarshalBinary_is_binary_Write_witness:
  "Announce_MarshalBinary example_Announce = Ok (binary_Write Announce_codec example_Announce) \<and>
   SyncDelayReq_MarshalBinary example_SyncDelayReq =
     Ok (binary_Write SyncDelayReq_codec example_SyncDelayReq) \<and>
   FollowUp_MarshalBinary example_FollowUp = Ok (binary_Write FollowUp_codec example_FollowUp) \<and>
   DelayResp_MarshalBinary example_DelayResp = Ok (binary_Write DelayResp_codec example_DelayResp)"
  using MarshalBinary_is_binary_Write [of example_Announce example_SyncDelayReq example_FollowUp
      example_DelayResp]
  by (simp add: example_packet_defs)

text \<open>
  The hand-written decoders accept exactly the slices reading by reflection accepts, and give the
  same packet; on the others they return an error, never a panic.
\<close>
theorem UnmarshalBinary_is_binary_Read:
  "(SyncDelayReq_UnmarshalBinary b = Ok s \<longleftrightarrow> FromBytes (ReflectRead SyncDelayReq_codec) b = Ok s) \<and>
   (FollowUp_UnmarshalBinary b = Ok f \<longleftrightarrow> FromBytes (ReflectRead FollowUp_codec) b = Ok f) \<and>
   (DelayResp_UnmarshalBinary b = Ok d \<longleftrightarrow> FromBytes (ReflectRead DelayResp_codec) b = Ok d) \<and>
   SyncDelayReq_UnmarshalBinary b \<noteq> Inl Panic \<and> FollowUp_UnmarshalBinary b \<noteq> Inl Panic \<and>
   DelayResp_UnmarshalBinary b \<noteq> Inl Panic"
  using sync_u.unmarshal_is_Read [of b s] followup_u.unmarshal_is_Read [of b f]
    delayresp_u.unmarshal_is_Read [of b d] sync_u.unmarshal_no_panic followup_u.unmarshal_no_panic
    delayresp_u.unmarshal_no_panic
  by blast

text \<open>
  \<open>BytesTo\<close> reports a buffer too short for the packet as an error and fills one with room for the
  packet and the two trailing zeros, but panics exactly when the packet fits and the zeros do not.
\<close>
theorem BytesTo_DelayResp_outcome:
  assumes "cok DelayResp_codec p"
  shows "BytesTo (DelayResp_MarshalBinaryTo p) b =
    (if length b < 54 then Err ''not enough buffer to write DelayResp''
     else if length b < 56 then Inl Panic
     else Ok (56, binary_Write DelayResp_codec p @ twoZeros @ drop 56 b))"
  using delayresp_m.BytesTo_short [of b p] delayresp_m.BytesTo_no_room [OF assms, of b]
    delayresp_m.BytesTo_enough [OF assms, of b]
  by auto

theorem BytesTo_DelayResp_outcome_witness:
  "BytesTo (DelayResp_MarshalBinaryTo example_DelayResp) (replicate 55 0) = Inl Panic"
  by (subst BytesTo_DelayResp_outcome) (simp_all add: example_packet_defs)

end
