(* ===== verification/PTP_Unicast.thy ===== *)
theory PTP_Unicast
  imports PTP_Packets
begin

text \<open>
  \<open>ptp/protocol/unicast.go\<close>: unicast negotiation. A Signaling packet is the header, the target port
  and a list of TLVs; the four TLVs of unicast negotiation have hand-written marshallers, any other
  TLV is written by reflection and cannot be read. The packet's decoder is a loop over the bytes up
  to the length the header claims; it is a recursive function whose measure is what is left of that
  length.
\<close>

section \<open>Message type and flags\<close>

type_synonym UnicastMsgTypeAndFlags = u8

definition Unicast_MsgType :: "UnicastMsgTypeAndFlags \<Rightarrow> MessageType" where
  "Unicast_MsgType m = drop_bit 4 m"

definition NewUnicastMsgTypeAndFlags :: "MessageType \<Rightarrow> u8 \<Rightarrow> UnicastMsgTypeAndFlags" where
  "NewUnicastMsgTypeAndFlags msgType flags = push_bit 4 msgType OR (flags AND 0x0f)"

section \<open>The TLVs\<close>

record RequestUnicastTransmissionTLV =
  rq_TLVHead :: TLVHead
  rq_MsgTypeAndReserved :: UnicastMsgTypeAndFlags
  rq_LogInterMessagePeriod :: LogInterval
  rq_DurationField :: u32

record GrantUnicastTransmissionTLV =
  gr_TLVHead :: TLVHead
  gr_MsgTypeAndReserved :: UnicastMsgTypeAndFlags
  gr_LogInterMessagePeriod :: LogInterval
  gr_DurationField :: u32
  gr_Reserved :: u8
  gr_Renewal :: u8

record CancelUnicastTransmissionTLV =
  ca_TLVHead :: TLVHead
  ca_MsgTypeAndFlags :: UnicastMsgTypeAndFlags
  ca_Reserved :: u8

record AcknowledgeCancelUnicastTransmissionTLV =
  ak_TLVHead :: TLVHead
  ak_MsgTypeAndFlags :: UnicastMsgTypeAndFlags
  ak_Reserved :: u8

text \<open>
  The TLV interface: the four types of this file, or another type, of which only its TLV type and the
  bytes \<open>binary.Write\<close> makes of it matter here.
\<close>

datatype TLV =
    Request_TLV RequestUnicastTransmissionTLV
  | Grant_TLV GrantUnicastTransmissionTLV
  | Cancel_TLV CancelUnicastTransmissionTLV
  | Ack_TLV AcknowledgeCancelUnicastTransmissionTLV
  | Reflected_TLV TLVHead bytes

record Signaling =
  sg_Header :: Header
  sg_TargetPortIdentity :: PortIdentity
  sg_TLVs :: "TLV list"

definition Request_codec :: "RequestUnicastTransmissionTLV codec" where
  "Request_codec = cmap
     (\<lambda>(h, m, l, d). \<lparr>rq_TLVHead = h, rq_MsgTypeAndReserved = m, rq_LogInterMessagePeriod = l,
        rq_DurationField = d\<rparr>)
     (\<lambda>t. (rq_TLVHead t, rq_MsgTypeAndReserved t, rq_LogInterMessagePeriod t, rq_DurationField t))
     (cpair TLVHead_codec (cpair cu8 (cpair cu8 cu32)))"

definition Grant_codec :: "GrantUnicastTransmissionTLV codec" where
  "Grant_codec = cmap
     (\<lambda>(h, m, l, d, r, w). \<lparr>gr_TLVHead = h, gr_MsgTypeAndReserved = m, gr_LogInterMessagePeriod = l,
        gr_DurationField = d, gr_Reserved = r, gr_Renewal = w\<rparr>)
     (\<lambda>t. (gr_TLVHead t, gr_MsgTypeAndReserved t, gr_LogInterMessagePeriod t, gr_DurationField t,
        gr_Reserved t, gr_Renewal t))
     (cpair TLVHead_codec (cpair cu8 (cpair cu8 (cpair cu32 (cpair cu8 cu8)))))"

definition Cancel_codec :: "CancelUnicastTransmissionTLV codec" where
  "Cancel_codec = cmap (\<lambda>(h, m, r). \<lparr>ca_TLVHead = h, ca_MsgTypeAndFlags = m, ca_Reserved = r\<rparr>)
     (\<lambda>t. (ca_TLVHead t, ca_MsgTypeAndFlags t, ca_Reserved t)) (cpair TLVHead_codec (cpair cu8 cu8))"

definition Ack_codec :: "AcknowledgeCancelUnicastTransmissionTLV codec" where
  "Ack_codec = cmap (\<lambda>(h, m, r). \<lparr>ak_TLVHead = h, ak_MsgTypeAndFlags = m, ak_Reserved = r\<rparr>)
     (\<lambda>t. (ak_TLVHead t, ak_MsgTypeAndFlags t, ak_Reserved t)) (cpair TLVHead_codec (cpair cu8 cu8))"

definition unmarshalTLVHeader :: "bytes \<Rightarrow> TLVHead res" where
  "unmarshalTLVHeader b =
     (if length b < tlvHeadSize then Err ''not enough data to decode PTP header''
      else bind_res (get_at cu16 b 0) (\<lambda>t. bind_res (get_at cu16 b 2) (\<lambda>l.
        Ok \<lparr>th_TLVType = t, th_LengthField = l\<rparr>)))"

definition Request_MarshalBinaryTo ::
  "RequestUnicastTransmissionTLV \<Rightarrow> bytes \<Rightarrow> (nat \<times> bytes) res" where
  "Request_MarshalBinaryTo t b =
     bind_res (pokes (tlvHeadMarshalBinaryTo (rq_TLVHead t) @
       [(tlvHeadSize, cenc cu8 (rq_MsgTypeAndReserved t)),
        (tlvHeadSize + 1, cenc cu8 (rq_LogInterMessagePeriod t)),
        (tlvHeadSize + 2, cenc cu32 (rq_DurationField t))]) b) (\<lambda>b. Ok (tlvHeadSize + 6, b))"

definition Request_UnmarshalBinary :: "bytes \<Rightarrow> RequestUnicastTransmissionTLV res" where
  "Request_UnmarshalBinary b =
     bind_res (unmarshalTLVHeader b) (\<lambda>h.
     bind_res (get_at cu8 b 4) (\<lambda>m.
     bind_res (get_at cu8 b 5) (\<lambda>l.
     bind_res (get_at cu32 b 6) (\<lambda>d.
     Ok \<lparr>rq_TLVHead = h, rq_MsgTypeAndReserved = m, rq_LogInterMessagePeriod = l,
         rq_DurationField = d\<rparr>))))"

definition Grant_MarshalBinaryTo :: "GrantUnicastTransmissionTLV \<Rightarrow> bytes \<Rightarrow> (nat \<times> bytes) res" where
  "Grant_MarshalBinaryTo t b =
     bind_res (pokes (tlvHeadMarshalBinaryTo (gr_TLVHead t) @
       [(tlvHeadSize, cenc cu8 (gr_MsgTypeAndReserved t)),
        (tlvHeadSize + 1, cenc cu8 (gr_LogInterMessagePeriod t)),
        (tlvHeadSize + 2, cenc cu32 (gr_DurationField t)),
        (tlvHeadSize + 6, cenc cu8 (gr_Reserved t)),
        (tlvHeadSize + 7, cenc cu8 (gr_Renewal t))]) b) (\<lambda>b. Ok (tlvHeadSize + 8, b))"

definition Grant_UnmarshalBinary :: "bytes \<Rightarrow> GrantUnicastTransmissionTLV res" where
  "Grant_UnmarshalBinary b =
     bind_res (unmarshalTLVHeader b) (\<lambda>h.
     bind_res (get_at cu8 b 4) (\<lambda>m.
     bind_res (get_at cu8 b 5) (\<lambda>l.
     bind_res (get_at cu32 b 6) (\<lambda>d.
     bind_res (get_at cu8 b 10) (\<lambda>r.
     bind_res (get_at cu8 b 11) (\<lambda>w.
     Ok \<lparr>gr_TLVHead = h, gr_MsgTypeAndReserved = m, gr_LogInterMessagePeriod = l,
         gr_DurationField = d, gr_Reserved = r, gr_Renewal = w\<rparr>))))))"

definition Cancel_MarshalBinaryTo :: "CancelUnicastTransmissionTLV \<Rightarrow> bytes \<Rightarrow> (nat \<times> bytes) res" where
  "Cancel_MarshalBinaryTo t b =
     bind_res (pokes (tlvHeadMarshalBinaryTo (ca_TLVHead t) @
       [(tlvHeadSize, cenc cu8 (ca_MsgTypeAndFlags t)),
        (tlvHeadSize + 1, cenc cu8 (ca_Reserved t))]) b) (\<lambda>b. Ok (tlvHeadSize + 2, b))"

definition Cancel_UnmarshalBinary :: "bytes \<Rightarrow> CancelUnicastTransmissionTLV res" where
  "Cancel_UnmarshalBinary b =
     bind_res (unmarshalTLVHeader b) (\<lambda>h.
     bind_res (get_at cu8 b 4) (\<lambda>m.
     bind_res (get_at cu8 b 5) (\<lambda>r.
     Ok \<lparr>ca_TLVHead = h, ca_MsgTypeAndFlags = m, ca_Reserved = r\<rparr>)))"

definition Ack_MarshalBinaryTo ::
  "AcknowledgeCancelUnicastTransmissionTLV \<Rightarrow> bytes \<Rightarrow> (nat \<times> bytes) res" where
  "Ack_MarshalBinaryTo t b =
     bind_res (pokes (tlvHeadMarshalBinaryTo (ak_TLVHead t) @
       [(tlvHeadSize, cenc cu8 (ak_MsgTypeAndFlags t)),
        (tlvHeadSize + 1, cenc cu8 (ak_Reserved t))]) b) (\<lambda>b. Ok (tlvHeadSize + 2, b))"

definition Ack_UnmarshalBinary :: "bytes \<Rightarrow> AcknowledgeCancelUnicastTransmissionTLV res" where
  "Ack_UnmarshalBinary b =
     bind_res (unmarshalTLVHeader b) (\<lambda>h.
     bind_res (get_at cu8 b 4) (\<lambda>m.
     bind_res (get_at cu8 b 5) (\<lambda>r.
     Ok \<lparr>ak_TLVHead = h, ak_MsgTypeAndFlags = m, ak_Reserved = r\<rparr>)))"

section \<open>Signaling\<close>

text \<open>One iteration of the marshalling loop, on the slice \<open>b[pos:]\<close>.\<close>

fun TLV_MarshalBinaryTo :: "TLV \<Rightarrow> bytes \<Rightarrow> (nat \<times> bytes) res" where
  "TLV_MarshalBinaryTo (Request_TLV t) b = Request_MarshalBinaryTo t b"
| "TLV_MarshalBinaryTo (Grant_TLV t) b = Grant_MarshalBinaryTo t b"
| "TLV_MarshalBinaryTo (Cancel_TLV t) b = Cancel_MarshalBinaryTo t b"
| "TLV_MarshalBinaryTo (Ack_TLV t) b = Ack_MarshalBinaryTo t b"
| "TLV_MarshalBinaryTo (Reflected_TLV h bbytes) b =
     bind_res (copy_at 0 bbytes b) (\<lambda>b. Ok (length bbytes, b))"

fun marshal_TLVs :: "TLV list \<Rightarrow> nat \<Rightarrow> bytes \<Rightarrow> (nat \<times> bytes) res" where
  "marshal_TLVs [] pos b = Ok (pos, b)"
| "marshal_TLVs (tlv # tlvs) pos b =
     bind_res (slice_from b pos) (\<lambda>s.
     bind_res (TLV_MarshalBinaryTo tlv s) (\<lambda>(nn, s).
     marshal_TLVs tlvs (pos + nn) (take pos b @ s)))"

definition Signaling_MarshalBinaryTo :: "Signaling \<Rightarrow> bytes \<Rightarrow> (nat \<times> bytes) res" where
  "Signaling_MarshalBinaryTo p b =
     (if length (sg_TLVs p) = 0 then Err ''no TLVs in Signaling message, at least one required''
      else bind_res (headerMarshalBinaryTo (sg_Header p) b) (\<lambda>(n, b).
        bind_res (pokes
          [(n, cenc cu64 (pi_ClockIdentity (sg_TargetPortIdentity p))),
           (n + 8, cenc cu16 (pi_PortNumber (sg_TargetPortIdentity p)))] b) (\<lambda>b.
        marshal_TLVs (sg_TLVs p) (n + 10) b)))"

definition Signaling_MarshalBinary :: "Signaling \<Rightarrow> bytes res" where
  "Signaling_MarshalBinary p = marshal_in 200 (Signaling_MarshalBinaryTo p)"

definition unmarshal_TLV :: "bytes \<Rightarrow> nat \<Rightarrow> (TLV \<times> u16) res" where
  "unmarshal_TLV b pos =
     bind_res (get_at cu16 b pos) (\<lambda>tlvType.
     if tlvType = TLVAcknowledgeCancelUnicastTransmission then
       bind_res (Ack_UnmarshalBinary (drop pos b)) (\<lambda>t.
         Ok (Ack_TLV t, th_LengthField (ak_TLVHead t)))
     else if tlvType = TLVGrantUnicastTransmission then
       bind_res (Grant_UnmarshalBinary (drop pos b)) (\<lambda>t.
         Ok (Grant_TLV t, th_LengthField (gr_TLVHead t)))
     else if tlvType = TLVRequestUnicastTransmission then
       bind_res (Request_UnmarshalBinary (drop pos b)) (\<lambda>t.
         Ok (Request_TLV t, th_LengthField (rq_TLVHead t)))
     else if tlvType = TLVCancelUnicastTransmission then
       bind_res (Cancel_UnmarshalBinary (drop pos b)) (\<lambda>t.
         Ok (Cancel_TLV t, th_LengthField (ca_TLVHead t)))
     else Err ''reading TLV %s (%d) is not yet implemented'')"

function unmarshal_TLVs :: "bytes \<Rightarrow> nat \<Rightarrow> nat \<Rightarrow> TLV list \<Rightarrow> TLV list res" where
  "unmarshal_TLVs b messageLength pos tlvs =
     (if messageLength < pos + tlvHeadSize then Ok tlvs
      else case unmarshal_TLV b pos of
          Inl e \<Rightarrow> Inl e
        | Inr (tlv, lengthField) \<Rightarrow>
            unmarshal_TLVs b messageLength (pos + (tlvHeadSize + unat lengthField)) (tlvs @ [tlv]))"
  by pat_completeness auto

termination
  by (relation "measure (\<lambda>(b, messageLength, pos, tlvs). messageLength - pos)") auto

declare unmarshal_TLVs.simps [simp del]

text \<open>The receiver matters only for the TLVs it already holds, to which the loop appends.\<close>

definition Signaling_UnmarshalBinary :: "TLV list \<Rightarrow> bytes \<Rightarrow> Signaling res" where
  "Signaling_UnmarshalBinary old b =
     (if length b < headerSize + 10 + tlvHeadSize then Err ''not enough data to decode Signaling''
      else bind_res (unmarshalHeader b) (\<lambda>h.
        if MsgType (h_SdoIDAndMsgType h) \<noteq> MessageSignaling then Err ''not a signaling message %v''
        else bind_res (get_at cu64 b headerSize) (\<lambda>clock.
        bind_res (get_at cu16 b (headerSize + 8)) (\<lambda>port.
        bind_res (unmarshal_TLVs b (unat (h_MessageLength h)) (headerSize + 10) old) (\<lambda>tlvs.
        if length tlvs = 0 then Err ''no TLVs read for Signaling message, at least one required''
        else Ok \<lparr>sg_Header = h,
               sg_TargetPortIdentity = \<lparr>pi_ClockIdentity = clock, pi_PortNumber = port\<rparr>,
               sg_TLVs = tlvs\<rparr>)))))"

section \<open>The TLV codecs\<close>

lemma wf_TLV_codecs [wf_codecs]:
  "wf_codec Request_codec" "wf_codec Grant_codec" "wf_codec Cancel_codec" "wf_codec Ack_codec"
  unfolding Request_codec_def Grant_codec_def Cancel_codec_def Ack_codec_def
  by (rule wf_cmap; auto intro!: wf_codecs)+

lemma csize_TLVs [simp]:
  "csize Request_codec = 10" "csize Grant_codec = 12" "csize Cancel_codec = 6" "csize Ack_codec = 6"
  by (simp_all add: Request_codec_def Grant_codec_def Cancel_codec_def Ack_codec_def)

lemma cok_TLVs [simp]:
  "cok Request_codec r" "cok Grant_codec g" "cok Cancel_codec c" "cok Ack_codec a"
  by (simp_all add: Request_codec_def Grant_codec_def Cancel_codec_def Ack_codec_def)

lemmas tlv_marshal_defs = tlvHeadMarshalBinaryTo_def Request_codec_def Grant_codec_def Cancel_codec_def
  Ack_codec_def TLVHead_codec_def

lemma Request_marshal_enough:
  "10 \<le> length b \<Longrightarrow> Request_MarshalBinaryTo t b = Ok (10, cenc Request_codec t @ drop 10 b)"
  unfolding Request_MarshalBinaryTo_def
  by (subst pokes_contiguous) (simp_all add: tlv_marshal_defs)

lemma Grant_marshal_enough:
  "12 \<le> length b \<Longrightarrow> Grant_MarshalBinaryTo t b = Ok (12, cenc Grant_codec t @ drop 12 b)"
  unfolding Grant_MarshalBinaryTo_def
  by (subst pokes_contiguous) (simp_all add: tlv_marshal_defs)

lemma Cancel_marshal_enough:
  "6 \<le> length b \<Longrightarrow> Cancel_MarshalBinaryTo t b = Ok (6, cenc Cancel_codec t @ drop 6 b)"
  unfolding Cancel_MarshalBinaryTo_def
  by (subst pokes_contiguous) (simp_all add: tlv_marshal_defs)

lemma Ack_marshal_enough:
  "6 \<le> length b \<Longrightarrow> Ack_MarshalBinaryTo t b = Ok (6, cenc Ack_codec t @ drop 6 b)"
  unfolding Ack_MarshalBinaryTo_def
  by (subst pokes_contiguous) (simp_all add: tlv_marshal_defs)

interpretation request_m: marshaler_to Request_codec Request_MarshalBinaryTo
  by unfold_locales (simp_all add: wf_TLV_codecs Request_marshal_enough)

interpretation grant_m: marshaler_to Grant_codec Grant_MarshalBinaryTo
  by unfold_locales (simp_all add: wf_TLV_codecs Grant_marshal_enough)

interpretation cancel_m: marshaler_to Cancel_codec Cancel_MarshalBinaryTo
  by unfold_locales (simp_all add: wf_TLV_codecs Cancel_marshal_enough)

interpretation ack_m: marshaler_to Ack_codec Ack_MarshalBinaryTo
  by unfold_locales (simp_all add: wf_TLV_codecs Ack_marshal_enough)

lemma unmarshalTLVHeader_enough:
  "tlvHeadSize \<le> length b \<Longrightarrow> unmarshalTLVHeader b = Ok (cdec TLVHead_codec (take tlvHeadSize b))"
  by (simp add: unmarshalTLVHeader_def TLVHead_codec_def drop_take numeral_2_eq_2 [symmetric])

lemma Request_unmarshal_enough:
  "10 \<le> length b \<Longrightarrow> Request_UnmarshalBinary b = Ok (cdec Request_codec (take 10 b))"
  by (simp add: Request_UnmarshalBinary_def unmarshalTLVHeader_enough Request_codec_def drop_take
      numeral_2_eq_2 [symmetric] del: cu8_simps(4))

lemma Grant_unmarshal_enough:
  "12 \<le> length b \<Longrightarrow> Grant_UnmarshalBinary b = Ok (cdec Grant_codec (take 12 b))"
  by (simp add: Grant_UnmarshalBinary_def unmarshalTLVHeader_enough Grant_codec_def drop_take
      numeral_2_eq_2 [symmetric] del: cu8_simps(4))

lemma Cancel_unmarshal_enough:
  "6 \<le> length b \<Longrightarrow> Cancel_UnmarshalBinary b = Ok (cdec Cancel_codec (take 6 b))"
  by (simp add: Cancel_UnmarshalBinary_def unmarshalTLVHeader_enough Cancel_codec_def drop_take
      del: cu8_simps(4))

lemma Ack_unmarshal_enough:
  "6 \<le> length b \<Longrightarrow> Ack_UnmarshalBinary b = Ok (cdec Ack_codec (take 6 b))"
  by (simp add: Ack_UnmarshalBinary_def unmarshalTLVHeader_enough Ack_codec_def drop_take
      del: cu8_simps(4))

interpretation request_u: decoder Request_codec Request_UnmarshalBinary
  by unfold_locales (simp_all add: wf_TLV_codecs Request_unmarshal_enough)

interpretation grant_u: decoder Grant_codec Grant_UnmarshalBinary
  by unfold_locales (simp_all add: wf_TLV_codecs Grant_unmarshal_enough)

interpretation cancel_u: decoder Cancel_codec Cancel_UnmarshalBinary
  by unfold_locales (simp_all add: wf_TLV_codecs Cancel_unmarshal_enough)

interpretation ack_u: decoder Ack_codec Ack_UnmarshalBinary
  by unfold_locales (simp_all add: wf_TLV_codecs Ack_unmarshal_enough)

section \<open>The bytes of a Signaling packet\<close>

text \<open>The reference layout: header, target port, the TLVs one after the other.\<close>

fun TLV_bytes :: "TLV \<Rightarrow> bytes" where
  "TLV_bytes (Request_TLV t) = binary_Write Request_codec t"
| "TLV_bytes (Grant_TLV t) = binary_Write Grant_codec t"
| "TLV_bytes (Cancel_TLV t) = binary_Write Cancel_codec t"
| "TLV_bytes (Ack_TLV t) = binary_Write Ack_codec t"
| "TLV_bytes (Reflected_TLV h bbytes) = bbytes"

definition Signaling_bytes :: "Signaling \<Rightarrow> bytes" where
  "Signaling_bytes p = binary_Write Header_codec (sg_Header p)
     @ binary_Write PortIdentity_codec (sg_TargetPortIdentity p) @ concat (map TLV_bytes (sg_TLVs p))"

lemma length_TLV_enc [simp]:
  "length (cenc Request_codec r) = 10" "length (cenc Grant_codec g) = 12"
  "length (cenc Cancel_codec c) = 6" "length (cenc Ack_codec a) = 6"
  using wf_codecD(1) [OF wf_TLV_codecs(1)] wf_codecD(1) [OF wf_TLV_codecs(2)]
    wf_codecD(1) [OF wf_TLV_codecs(3)] wf_codecD(1) [OF wf_TLV_codecs(4)] by simp_all

lemma TLV_marshal_enough:
  "length (TLV_bytes t) \<le> length b \<Longrightarrow>
   TLV_MarshalBinaryTo t b = Ok (length (TLV_bytes t), TLV_bytes t @ drop (length (TLV_bytes t)) b)"
  by (cases t) (simp_all add: Request_marshal_enough Grant_marshal_enough Cancel_marshal_enough
      Ack_marshal_enough binary_Write_def copy_at_poke poke_def)

lemma marshal_TLVs_enough:
  "length pre = pos \<Longrightarrow> length (concat (map TLV_bytes ts)) \<le> length b \<Longrightarrow>
   marshal_TLVs ts pos (pre @ b) =
     Ok (pos + length (concat (map TLV_bytes ts)),
         pre @ concat (map TLV_bytes ts) @ drop (length (concat (map TLV_bytes ts))) b)"
proof (induction ts arbitrary: pos pre b)
  case Nil
  then show ?case by simp
next
  case (Cons t ts)
  let ?n = "length (TLV_bytes t)"
  from Cons.prems have "TLV_MarshalBinaryTo t b = Ok (?n, TLV_bytes t @ drop ?n b)"
    by (intro TLV_marshal_enough) simp
  then have "marshal_TLVs (t # ts) pos (pre @ b) =
      marshal_TLVs ts (pos + ?n) ((pre @ TLV_bytes t) @ drop ?n b)"
    using Cons.prems by simp
  also have "\<dots> = Ok (pos + ?n + length (concat (map TLV_bytes ts)), (pre @ TLV_bytes t)
      @ concat (map TLV_bytes ts) @ drop (length (concat (map TLV_bytes ts))) (drop ?n b))"
    using Cons.prems by (intro Cons.IH) simp_all
  finally show ?case by (simp add: ac_simps)
qed

lemma length_PortIdentity [simp]: "length (cenc PortIdentity_codec i) = 10"
  using wf_codecD(1) [OF wf_PortIdentity] by simp

lemma Signaling_marshal_enough:
  assumes "sg_TLVs p \<noteq> []" and "length (Signaling_bytes p) \<le> length b"
  shows "Signaling_MarshalBinaryTo p b =
    Ok (length (Signaling_bytes p), Signaling_bytes p @ drop (length (Signaling_bytes p)) b)"
proof -
  let ?h = "cenc Header_codec (sg_Header p)" and ?i = "sg_TargetPortIdentity p"
  let ?ts = "concat (map TLV_bytes (sg_TLVs p))"
  let ?ws = "[(34, cenc cu64 (pi_ClockIdentity ?i)), (34 + 8, cenc cu16 (pi_PortNumber ?i))]"
  have l: "44 + length ?ts \<le> length b"
    using assms(2) by (simp add: Signaling_bytes_def binary_Write_def)
  have i: "cenc PortIdentity_codec ?i = concat (map snd ?ws)"
    by (simp add: PortIdentity_codec_def)
  have "pokes ?ws (?h @ drop 34 b) = Ok ((?h @ cenc PortIdentity_codec ?i) @ drop 44 b)"
    using l i by (subst pokes_contiguous_from) simp_all
  moreover have "marshal_TLVs (sg_TLVs p) 44 ((?h @ cenc PortIdentity_codec ?i) @ drop 44 b) =
      Ok (44 + length ?ts, (?h @ cenc PortIdentity_codec ?i) @ ?ts @ drop (length ?ts) (drop 44 b))"
    using l by (intro marshal_TLVs_enough) simp_all
  ultimately show ?thesis
    using assms(1) l by (simp add: Signaling_MarshalBinaryTo_def headerMarshalBinaryTo_enough
        Signaling_bytes_def binary_Write_def add.commute del: pokes.simps)
qed

section \<open>Reading the TLVs back\<close>

text \<open>The TLVs the decoder knows, with the type and length the standard gives them.\<close>

fun tlv_ok :: "TLV \<Rightarrow> bool" where
  "tlv_ok (Request_TLV t) \<longleftrightarrow>
     rq_TLVHead t = \<lparr>th_TLVType = TLVRequestUnicastTransmission, th_LengthField = 6\<rparr>"
| "tlv_ok (Grant_TLV t) \<longleftrightarrow>
     gr_TLVHead t = \<lparr>th_TLVType = TLVGrantUnicastTransmission, th_LengthField = 8\<rparr>"
| "tlv_ok (Cancel_TLV t) \<longleftrightarrow>
     ca_TLVHead t = \<lparr>th_TLVType = TLVCancelUnicastTransmission, th_LengthField = 2\<rparr>"
| "tlv_ok (Ack_TLV t) \<longleftrightarrow>
     ak_TLVHead t = \<lparr>th_TLVType = TLVAcknowledgeCancelUnicastTransmission, th_LengthField = 2\<rparr>"
| "tlv_ok (Reflected_TLV h bbytes) \<longleftrightarrow> False"

lemma get_at_enc:
  assumes "wf_codec c" and "cok c x"
  shows "get_at c (cenc c x @ r) 0 = Ok x"
  using assms by (simp add: wf_codecD [OF assms(1)])

lemma TLV_bytes_head:
  "TLV_bytes (Request_TLV t) = cenc cu16 (th_TLVType (rq_TLVHead t)) @ drop 2 (TLV_bytes (Request_TLV t))"
  "TLV_bytes (Grant_TLV g) = cenc cu16 (th_TLVType (gr_TLVHead g)) @ drop 2 (TLV_bytes (Grant_TLV g))"
  "TLV_bytes (Cancel_TLV c) = cenc cu16 (th_TLVType (ca_TLVHead c)) @ drop 2 (TLV_bytes (Cancel_TLV c))"
  "TLV_bytes (Ack_TLV a) = cenc cu16 (th_TLVType (ak_TLVHead a)) @ drop 2 (TLV_bytes (Ack_TLV a))"
  by (simp_all add: binary_Write_def tlv_marshal_defs)

lemma TLV_type_at:
  assumes "length pre = pos" and "TLV_bytes t = cenc cu16 ty @ rest"
  shows "get_at cu16 (pre @ TLV_bytes t @ r) pos = Ok ty"
  using assms get_at_enc [OF wf_cu(1), of ty "rest @ r"] by (simp add: get_at_append)

lemma unmarshal_TLV_bytes:
  assumes "tlv_ok t" and pos: "length pre = pos"
  shows "\<exists>l. unmarshal_TLV (pre @ TLV_bytes t @ r) pos = Ok (t, l) \<and>
    tlvHeadSize + unat l = length (TLV_bytes t)"
proof (cases t)
  case (Request_TLV x)
  with assms show ?thesis
    using TLV_type_at [OF pos TLV_bytes_head(1)] request_u.unmarshal_write [of x r]
    by (simp add: unmarshal_TLV_def binary_Write_def)
next
  case (Grant_TLV x)
  with assms show ?thesis
    using TLV_type_at [OF pos TLV_bytes_head(2)] grant_u.unmarshal_write [of x r]
    by (simp add: unmarshal_TLV_def binary_Write_def)
next
  case (Cancel_TLV x)
  with assms show ?thesis
    using TLV_type_at [OF pos TLV_bytes_head(3)] cancel_u.unmarshal_write [of x r]
    by (simp add: unmarshal_TLV_def binary_Write_def)
next
  case (Ack_TLV x)
  with assms show ?thesis
    using TLV_type_at [OF pos TLV_bytes_head(4)] ack_u.unmarshal_write [of x r]
    by (simp add: unmarshal_TLV_def binary_Write_def)
qed (use assms in simp)

lemma unmarshal_TLVs_bytes:
  "list_all tlv_ok ts \<Longrightarrow> length pre = pos \<Longrightarrow>
   unmarshal_TLVs (pre @ concat (map TLV_bytes ts) @ r) (pos + length (concat (map TLV_bytes ts))) pos acc
     = Ok (acc @ ts)"
proof (induction ts arbitrary: pre pos acc)
  case Nil
  then show ?case by (simp add: unmarshal_TLVs.simps)
next
  case (Cons t ts)
  let ?b = "pre @ TLV_bytes t @ concat (map TLV_bytes ts) @ r"
  obtain l where l: "unmarshal_TLV ?b pos = Ok (t, l)" "tlvHeadSize + unat l = length (TLV_bytes t)"
    using unmarshal_TLV_bytes [of t pre pos "concat (map TLV_bytes ts) @ r"] Cons.prems by auto
  have "unmarshal_TLVs ((pre @ TLV_bytes t) @ concat (map TLV_bytes ts) @ r)
      ((pos + length (TLV_bytes t)) + length (concat (map TLV_bytes ts))) (pos + length (TLV_bytes t))
      (acc @ [t]) = Ok ((acc @ [t]) @ ts)"
    using Cons.prems by (intro Cons.IH) simp_all
  then have "unmarshal_TLVs ?b (pos + length (concat (map TLV_bytes (t # ts))))
      (pos + (tlvHeadSize + unat l)) (acc @ [t]) = Ok (acc @ t # ts)"
    unfolding l(2) by (simp add: add.assoc)
  moreover have "\<not> pos + length (concat (map TLV_bytes (t # ts))) < pos + tlvHeadSize"
    unfolding l(2) [symmetric] using l(2) by simp
  ultimately show ?case
    using l(1) by (subst unmarshal_TLVs.simps) (simp del: tlvHeadSize_def)
qed

text \<open>A Signaling packet whose header tells the truth about its type and length.\<close>

definition signaling_ok :: "Signaling \<Rightarrow> bool" where
  "signaling_ok p \<longleftrightarrow>
     Header_MessageType (sg_Header p) = MessageSignaling \<and>
     unat (h_MessageLength (sg_Header p)) = length (Signaling_bytes p) \<and>
     sg_TLVs p \<noteq> [] \<and> list_all tlv_ok (sg_TLVs p)"

lemma tlv_ok_length: "tlv_ok t \<Longrightarrow> 4 \<le> length (TLV_bytes t)"
  by (cases t) (simp_all add: binary_Write_def)

lemma Signaling_unmarshal_bytes:
  assumes "signaling_ok p"
  shows "Signaling_UnmarshalBinary [] (Signaling_bytes p @ r) = Ok p"
proof -
  let ?h = "binary_Write Header_codec (sg_Header p)"
  let ?i = "binary_Write PortIdentity_codec (sg_TargetPortIdentity p)"
  let ?t = "concat (map TLV_bytes (sg_TLVs p))"
  obtain t ts where ts: "sg_TLVs p = t # ts" "tlv_ok t"
    using assms by (cases "sg_TLVs p") (auto simp: signaling_ok_def)
  have l: "length (?h @ ?i) = 44" "4 \<le> length ?t"
    using ts tlv_ok_length [of t] by (simp_all add: binary_Write_def)
  have b: "Signaling_bytes p @ r = (?h @ ?i) @ ?t @ r"
    by (simp add: Signaling_bytes_def)
  have h: "unmarshalHeader (Signaling_bytes p @ r) = Ok (sg_Header p)"
    using l by (simp add: b unmarshalHeader_enough binary_Write_def wf_codecD(2) [OF wf_Header])
  have i: "cenc PortIdentity_codec (sg_TargetPortIdentity p) =
      cenc cu64 (pi_ClockIdentity (sg_TargetPortIdentity p))
        @ cenc cu16 (pi_PortNumber (sg_TargetPortIdentity p))"
    by (simp add: PortIdentity_codec_def)
  have "get_at cu64 (Signaling_bytes p @ r) 34 = Ok (pi_ClockIdentity (sg_TargetPortIdentity p))"
    using get_at_enc [OF wf_cu(3), of _ "_ @ ?t @ r"] by (simp add: b binary_Write_def get_at_append i)
  moreover have "get_at cu16 (Signaling_bytes p @ r) (34 + 8) = Ok (pi_PortNumber (sg_TargetPortIdentity p))"
    using get_at_enc [OF wf_cu(1), of _ "?t @ r"]
    by (simp add: b binary_Write_def i
        get_at_append [of "cenc Header_codec (sg_Header p) @ cenc cu64 _", simplified])
  moreover have "unmarshal_TLVs (Signaling_bytes p @ r) (length (Signaling_bytes p)) 44 [] = Ok (sg_TLVs p)"
    using unmarshal_TLVs_bytes [of "sg_TLVs p" "?h @ ?i" 44 r "[]"] assms l
    by (simp add: signaling_ok_def Signaling_bytes_def add.assoc [symmetric])
  ultimately show ?thesis
    using assms l h by (simp add: Signaling_UnmarshalBinary_def signaling_ok_def Header_MessageType_def
        Signaling_bytes_def)
qed

section \<open>Properties of Signaling\<close>

text \<open>
  \<open>Signaling.MarshalBinary\<close> writes the header, the target port and the TLVs in order, for every
  packet with a TLV that fits the 200 bytes of its buffer.
\<close>
theorem Signaling_MarshalBinary_layout:
  assumes "sg_TLVs p \<noteq> []" and "length (Signaling_bytes p) \<le> 200"
  shows "Signaling_MarshalBinary p = Ok (Signaling_bytes p)"
  using Signaling_marshal_enough [of p "replicate 200 0"] assms
  by (simp add: Signaling_MarshalBinary_def marshal_in_def)

definition example_Signaling :: Signaling where
  "example_Signaling =
     \<lparr>sg_Header = example_Header\<lparr>h_SdoIDAndMsgType := 0xC, h_MessageLength := 60\<rparr>,
      sg_TargetPortIdentity = DefaultTargetPortIdentity,
      sg_TLVs =
        [Request_TLV \<lparr>rq_TLVHead = \<lparr>th_TLVType = TLVRequestUnicastTransmission, th_LengthField = 6\<rparr>,
           rq_MsgTypeAndReserved = 0xB0, rq_LogInterMessagePeriod = 1, rq_DurationField = 60\<rparr>,
         Cancel_TLV \<lparr>ca_TLVHead = \<lparr>th_TLVType = TLVCancelUnicastTransmission, th_LengthField = 2\<rparr>,
           ca_MsgTypeAndFlags = 0xB0, ca_Reserved = 0\<rparr>]\<rparr>"

lemma length_example_Signaling: "length (Signaling_bytes example_Signaling) = 60"
  by (simp add: Signaling_bytes_def binary_Write_def example_Signaling_def)

theorem Signaling_MarshalBinary_layout_witness:
  "Signaling_MarshalBinary example_Signaling = Ok (Signaling_bytes example_Signaling)"
  by (rule Signaling_MarshalBinary_layout)
    (simp_all add: length_example_Signaling, simp add: example_Signaling_def)

text \<open>
  A Signaling packet whose header gives its type and length comes back from the wire as it was,
  with every TLV, through \<open>MarshalBinary\<close>, the two trailing bytes of \<open>Bytes\<close> and \<open>UnmarshalBinary\<close>.
\<close>
theorem Signaling_roundtrip:
  assumes "signaling_ok p" and "length (Signaling_bytes p) \<le> 200"
  shows "\<exists>bs. Bytes (MarshalBinary Signaling_MarshalBinary) p = Ok bs \<and>
    FromBytes (UnmarshalBinary (Signaling_UnmarshalBinary [])) bs = Ok p"
proof -
  have "Signaling_MarshalBinary p = Ok (Signaling_bytes p)"
    using Signaling_marshal_enough [of p "replicate 200 0"] assms
    by (simp add: Signaling_MarshalBinary_def marshal_in_def signaling_ok_def)
  with Signaling_unmarshal_bytes [OF assms(1)] show ?thesis by simp
qed

theorem Signaling_roundtrip_witness:
  "\<exists>bs. Bytes (MarshalBinary Signaling_MarshalBinary) example_Signaling = Ok bs \<and>
    FromBytes (UnmarshalBinary (Signaling_UnmarshalBinary [])) bs = Ok example_Signaling"
  by (rule Signaling_roundtrip)
    (simp_all add: length_example_Signaling signaling_ok_def Header_MessageType_def MsgType_def,
     simp_all add: example_Signaling_def example_packet_defs)

lemma get_at_no_panic: "i + csize c \<le> length b \<Longrightarrow> get_at c b i \<noteq> Inl Panic"
  by simp

lemma unmarshal_TLV_no_panic: "pos + 12 \<le> length b \<Longrightarrow> unmarshal_TLV b pos \<noteq> Inl Panic"
  by (simp add: unmarshal_TLV_def Ack_unmarshal_enough Grant_unmarshal_enough
      Request_unmarshal_enough Cancel_unmarshal_enough)

lemma unmarshal_TLVs_no_panic:
  "len + 8 \<le> length b \<Longrightarrow> unmarshal_TLVs b len pos tlvs \<noteq> Inl Panic"
proof (induction b len pos tlvs rule: unmarshal_TLVs.induct)
  case (1 b len pos tlvs)
  show ?case
  proof (cases "len < pos + tlvHeadSize")
    case True
    then show ?thesis by (subst unmarshal_TLVs.simps) simp
  next
    case False
    then have "unmarshal_TLV b pos \<noteq> Inl Panic"
      using 1(2) by (intro unmarshal_TLV_no_panic) simp
    with False 1 show ?thesis
      by (subst unmarshal_TLVs.simps) (auto split: sum.splits)
  qed
qed

text \<open>
  Decoding a Signaling packet never panics when at least eight bytes follow the length the
  header claims, the largest body a TLV head at the very end of that length can ask for.
\<close>
theorem Signaling_UnmarshalBinary_no_panic:
  assumes "\<And>h. unmarshalHeader b = Ok h \<Longrightarrow> unat (h_MessageLength h) + 8 \<le> length b"
  shows "Signaling_UnmarshalBinary old b \<noteq> Inl Panic"
proof (cases "length b < 48")
  case True
  then show ?thesis by (simp add: Signaling_UnmarshalBinary_def)
next
  case False
  then obtain h where h: "unmarshalHeader b = Ok h"
    by (simp add: unmarshalHeader_enough)
  have "unmarshal_TLVs b (unat (h_MessageLength h)) 44 old \<noteq> Inl Panic"
    using assms [OF h] by (rule unmarshal_TLVs_no_panic)
  with False h show ?thesis
    by (cases "unmarshal_TLVs b (unat (h_MessageLength h)) 44 old")
      (auto simp: Signaling_UnmarshalBinary_def)
qed

lemma truncated_panics:
  assumes "unmarshalHeader b = Ok h" and "Header_MessageType h = MessageSignaling"
    and "length b = 48" and "48 \<le> unat (h_MessageLength h)"
    and "get_at cu16 b 44 = Ok TLVRequestUnicastTransmission"
  shows "Signaling_UnmarshalBinary old b = Inl Panic"
proof -
  have "unmarshal_TLV b 44 = Inl Panic"
    using assms(3,5) by (simp add: unmarshal_TLV_def Request_UnmarshalBinary_def
        unmarshalTLVHeader_enough get_at_def)
  then have "unmarshal_TLVs b (unat (h_MessageLength h)) 44 old = Inl Panic"
    using assms(4) by (subst unmarshal_TLVs.simps) simp
  with assms show ?thesis
    by (simp add: Signaling_UnmarshalBinary_def Header_MessageType_def)
qed

definition example_truncated :: bytes where
  "example_truncated = binary_Write Header_codec (sg_Header example_Signaling)
     @ binary_Write PortIdentity_codec DefaultTargetPortIdentity @ [0, 4, 0, 6]"

lemma length_example_truncated: "length example_truncated = 48"
  by (simp add: example_truncated_def binary_Write_def)

lemma example_truncated_panics:
  "Signaling_UnmarshalBinary [] example_truncated = Inl Panic"
proof (rule truncated_panics)
  show "unmarshalHeader example_truncated = Ok (sg_Header example_Signaling)"
    by (simp add: unmarshalHeader_enough length_example_truncated)
      (simp add: example_truncated_def binary_Write_def wf_codecD(2) [OF wf_Header])
  show "get_at cu16 example_truncated 44 = Ok TLVRequestUnicastTransmission"
    by (simp add: example_truncated_def binary_Write_def cu16_def be_val_def)
qed (simp_all add: length_example_truncated,
     simp_all add: example_Signaling_def example_packet_defs Header_MessageType_def MsgType_def)

text \<open>
  A 48-byte Signaling packet whose only TLV is the head of a unicast request makes the decoder
  read past the slice: the outcome is a run-time panic, not an error.
\<close>
theorem Signaling_UnmarshalBinary_truncated_panics:
  assumes "unmarshalHeader b = Ok h" and "Header_MessageType h = MessageSignaling"
    and "length b = 48" and "48 \<le> unat (h_MessageLength h)"
    and "get_at cu16 b 44 = Ok TLVRequestUnicastTransmission"
  shows "Signaling_UnmarshalBinary old b = Inl Panic"
  using assms by (rule truncated_panics)

theorem Signaling_UnmarshalBinary_truncated_panics_witness:
  "Signaling_UnmarshalBinary [] example_truncated = Inl Panic"
proof (rule Signaling_UnmarshalBinary_truncated_panics)
  show "unmarshalHeader example_truncated = Ok (sg_Header example_Signaling)"
    by (simp add: unmarshalHeader_enough length_example_truncated)
      (simp add: example_truncated_def binary_Write_def wf_codecD(2) [OF wf_Header])
  show "get_at cu16 example_truncated 44 = Ok TLVRequestUnicastTransmission"
    by (simp add: example_truncated_def binary_Write_def cu16_def be_val_def)
qed (simp_all add: length_example_truncated,
     simp_all add: example_Signaling_def example_packet_defs Header_MessageType_def MsgType_def)

theorem Signaling_UnmarshalBinary_no_panic_witness:
  "Signaling_UnmarshalBinary [] (Signaling_bytes example_Signaling @ replicate 8 0) \<noteq> Inl Panic"
proof (rule Signaling_UnmarshalBinary_no_panic)
  let ?b = "Signaling_bytes example_Signaling @ replicate 8 (0 :: u8)"
  fix h assume "unmarshalHeader ?b = Ok h"
  moreover have "unmarshalHeader ?b = Ok (sg_Header example_Signaling)"
    using length_example_Signaling
    by (simp add: unmarshalHeader_enough Signaling_bytes_def binary_Write_def wf_codecD(2) [OF wf_Header])
  ultimately show "unat (h_MessageLength h) + 8 \<le> length ?b"
    using length_example_Signaling by (simp add: example_Signaling_def)
qed

text \<open>
  Packing a message type and flags for a unicast TLV loses neither: both are read back, for every
  four-bit message type.
\<close>
theorem UnicastMsgTypeAndFlags_roundtrip:
  assumes "msgType < 16"
  shows "Unicast_MsgType (NewUnicastMsgTypeAndFlags msgType flags) = msgType \<and>
    NewUnicastMsgTypeAndFlags msgType flags AND 0x0f = flags AND 0x0f"
proof -
  have "take_bit 4 msgType = msgType"
    using assms by (simp add: word_unat_eq_iff unsigned_take_bit_eq take_bit_nat_eq_self word_less_nat_alt)
  then have m: "bit msgType n \<Longrightarrow> n < 4" for n
    by (metis bit_take_bit_iff)
  have f: "x AND 0x0f = take_bit 4 x" for x :: u8
    by (simp add: take_bit_eq_mask mask_eq_exp_minus_1)
  have "Unicast_MsgType (NewUnicastMsgTypeAndFlags msgType flags) = msgType"
    by (rule bit_word_eqI)
      (auto simp: Unicast_MsgType_def NewUnicastMsgTypeAndFlags_def f bit_simps dest: m)
  moreover have "take_bit 4 (push_bit 4 msgType OR take_bit 4 flags) = take_bit 4 flags"
    by (rule bit_word_eqI) (auto simp: bit_simps)
  ultimately show ?thesis
    by (simp add: NewUnicastMsgTypeAndFlags_def f)
qed

theorem UnicastMsgTypeAndFlags_roundtrip_witness:
  "Unicast_MsgType (NewUnicastMsgTypeAndFlags MessageAnnounce 1) = MessageAnnounce \<and>
    NewUnicastMsgTypeAndFlags MessageAnnounce 1 AND 0x0f = 1 AND 0x0f"
  by (rule UnicastMsgTypeAndFlags_roundtrip) simp

end
