(* ===== verification/PTP_Management.thy ===== *)
theory PTP_Management
  imports PTP_Packets
begin

text \<open>
  \<open>ptp/protocol/management.go\<close>, \<open>management_tlvs.go\<close>, \<open>ptp4l.go\<close> and \<open>management_client.go\<close>: management
  messages, their TLVs (the standard data sets and the ptp4l extensions), the error status message,
  the registry of TLV decoders and the client that talks to a local daemon. The registry, a global
  map, is an argument; the connection of the client is given by what its reads and writes return.
\<close>

section \<open>Actions, error and management identifiers\<close>

type_synonym Action = u8
type_synonym ManagementID = u16
type_synonym ManagementErrorID = u16

definition GET :: Action where "GET = 0"
definition SET :: Action where "SET = 1"
definition RESPONSE :: Action where "RESPONSE = 2"
definition COMMAND :: Action where "COMMAND = 3"
definition ACKNOWLEDGE :: Action where "ACKNOWLEDGE = 4"

definition IDNullPTPManagement :: ManagementID where "IDNullPTPManagement = 0x0000"
definition IDClockDescription :: ManagementID where "IDClockDescription = 0x0001"
definition IDUserDescription :: ManagementID where "IDUserDescription = 0x0002"
definition IDSaveInNonVolatileStorage :: ManagementID where "IDSaveInNonVolatileStorage = 0x0003"
definition IDResetNonVolatileStorage :: ManagementID where "IDResetNonVolatileStorage = 0x0004"
definition IDInitialize :: ManagementID where "IDInitialize = 0x0005"
definition IDFaultLog :: ManagementID where "IDFaultLog = 0x0006"
definition IDFaultLogReset :: ManagementID where "IDFaultLogReset = 0x0007"
definition IDDefaultDataSet :: ManagementID where [simp]: "IDDefaultDataSet = 0x2000"
definition IDCurrentDataSet :: ManagementID where [simp]: "IDCurrentDataSet = 0x2001"
definition IDParentDataSet :: ManagementID where [simp]: "IDParentDataSet = 0x2002"
definition IDTimePropertiesDataSet :: ManagementID where "IDTimePropertiesDataSet = 0x2003"
definition IDPortDataSet :: ManagementID where "IDPortDataSet = 0x2004"
definition IDPortStatsNP :: ManagementID where [simp]: "IDPortStatsNP = 0xC005"
definition IDTimeStatusNP :: ManagementID where [simp]: "IDTimeStatusNP = 0xC000"

definition ErrorResponseTooBig :: ManagementErrorID where "ErrorResponseTooBig = 0x0001"
definition ErrorNoSuchID :: ManagementErrorID where "ErrorNoSuchID = 0x0002"
definition ErrorWrongLength :: ManagementErrorID where "ErrorWrongLength = 0x0003"
definition ErrorWrongValue :: ManagementErrorID where "ErrorWrongValue = 0x0004"
definition ErrorNotSetable :: ManagementErrorID where "ErrorNotSetable = 0x0005"
definition ErrorNotSupported :: ManagementErrorID where "ErrorNotSupported = 0x0006"
definition ErrorUnpopulated :: ManagementErrorID where "ErrorUnpopulated = 0x0007"
definition ErrorGeneralError :: ManagementErrorID where "ErrorGeneralError = 0xFFFE"

definition ManagementErrorIDToString :: "(ManagementErrorID \<times> string) list" where
  "ManagementErrorIDToString =
    [(ErrorResponseTooBig, ''RESPONSE_TOO_BIG''), (ErrorNoSuchID, ''NO_SUCH_ID''),
     (ErrorWrongLength, ''WRONG_LENGTH''), (ErrorWrongValue, ''WRONG_VALUE''),
     (ErrorNotSetable, ''NOT_SETABLE''), (ErrorNotSupported, ''NOT_SUPPORTED''),
     (ErrorUnpopulated, ''UNPOPULATED''), (ErrorGeneralError, ''GENERAL_ERROR'')]"

definition ManagementErrorID_String :: "ManagementErrorID \<Rightarrow> string" where
  "ManagementErrorID_String t =
     (let s = lookup_name ManagementErrorIDToString t in
      if s = '''' then ''UNKNOWN_ERROR_ID='' @ show_nat (unat t) else s)"

section \<open>Heads and TLVs\<close>

record ManagementTLVHead =
  mt_TLVHead :: TLVHead
  mt_ManagementID :: ManagementID

record ManagementMsgHead =
  mh_Header :: Header
  mh_TargetPortIdentity :: PortIdentity
  mh_StartingBoundaryHops :: u8
  mh_BoundaryHops :: u8
  mh_ActionField :: Action
  mh_Reserved :: u8

record CurrentDataSetTLV =
  cd_ManagementTLVHead :: ManagementTLVHead
  cd_StepsRemoved :: u16
  cd_OffsetFromMaster :: TimeInterval
  cd_MeanPathDelay :: TimeInterval

record DefaultDataSetTLV =
  dd_ManagementTLVHead :: ManagementTLVHead
  dd_SoTSC :: u8
  dd_Reserved0 :: u8
  dd_NumberPorts :: u16
  dd_Priority1 :: u8
  dd_ClockQuality :: ClockQuality
  dd_Priority2 :: u8
  dd_ClockIdentity :: ClockIdentity
  dd_DomainNumber :: u8
  dd_Reserved1 :: u8

record ParentDataSetTLV =
  pd_ManagementTLVHead :: ManagementTLVHead
  pd_ParentPortIdentity :: PortIdentity
  pd_PS :: u8
  pd_Reserved :: u8
  pd_ObservedParentOffsetScaledLogVariance :: u16
  pd_ObservedParentClockPhaseChangeRate :: u32
  pd_GrandmasterPriority1 :: u8
  pd_GrandmasterClockQuality :: ClockQuality
  pd_GrandmasterPriority2 :: u8
  pd_GrandmasterIdentity :: ClockIdentity

record PortStats =
  ps_RXMsgType :: "u64 list"
  ps_TXMsgType :: "u64 list"

record PortStatsNPTLV =
  pn_ManagementTLVHead :: ManagementTLVHead
  pn_PortIdentity :: PortIdentity
  pn_PortStats :: PortStats

record ScaledNS =
  sn_NanosecondsMSB :: u16
  sn_NanosecondsLSB :: u64
  sn_FractionalNanoseconds :: u16

record TimeStatusNPTLV =
  tn_ManagementTLVHead :: ManagementTLVHead
  tn_MasterOffsetNS :: u64
  tn_IngressTimeNS :: u64
  tn_CumulativeScaledRateOffset :: u32
  tn_ScaledLastGmPhaseChange :: u32
  tn_GMTimeBaseIndicator :: u16
  tn_LastGmPhaseChange :: ScaledNS
  tn_GMPresent :: u32
  tn_GMIdentity :: ClockIdentity

text \<open>
  The \<open>ManagementTLV\<close> interface: the TLVs above, the bare head the ptp4l requests carry, or a TLV of
  a registered decoder, known by its head and its encoding.
\<close>

datatype ManagementTLV =
    Current_TLV CurrentDataSetTLV
  | Default_TLV DefaultDataSetTLV
  | Parent_TLV ParentDataSetTLV
  | PortStatsNP_TLV PortStatsNPTLV
  | TimeStatusNP_TLV TimeStatusNPTLV
  | Head_TLV ManagementTLVHead
  | Custom_TLV ManagementTLVHead bytes

fun MgmtTLV_head :: "ManagementTLV \<Rightarrow> ManagementTLVHead" where
  "MgmtTLV_head (Current_TLV t) = cd_ManagementTLVHead t"
| "MgmtTLV_head (Default_TLV t) = dd_ManagementTLVHead t"
| "MgmtTLV_head (Parent_TLV t) = pd_ManagementTLVHead t"
| "MgmtTLV_head (PortStatsNP_TLV t) = pn_ManagementTLVHead t"
| "MgmtTLV_head (TimeStatusNP_TLV t) = tn_ManagementTLVHead t"
| "MgmtTLV_head (Head_TLV h) = h"
| "MgmtTLV_head (Custom_TLV h _) = h"

definition MgmtID :: "ManagementTLV \<Rightarrow> ManagementID" where
  "MgmtID t = mt_ManagementID (MgmtTLV_head t)"

record Management =
  mg_ManagementMsgHead :: ManagementMsgHead
  mg_TLV :: ManagementTLV

definition ManagementTLVHead_codec :: "ManagementTLVHead codec" where
  "ManagementTLVHead_codec = cmap (\<lambda>(h, i). \<lparr>mt_TLVHead = h, mt_ManagementID = i\<rparr>)
     (\<lambda>t. (mt_TLVHead t, mt_ManagementID t)) (cpair TLVHead_codec cu16)"

definition ManagementMsgHead_codec :: "ManagementMsgHead codec" where
  "ManagementMsgHead_codec = cmap
     (\<lambda>(h, t, s, b, a, r). \<lparr>mh_Header = h, mh_TargetPortIdentity = t, mh_StartingBoundaryHops = s,
        mh_BoundaryHops = b, mh_ActionField = a, mh_Reserved = r\<rparr>)
     (\<lambda>m. (mh_Header m, mh_TargetPortIdentity m, mh_StartingBoundaryHops m, mh_BoundaryHops m,
        mh_ActionField m, mh_Reserved m))
     (cpair Header_codec (cpair PortIdentity_codec (cpair cu8 (cpair cu8 (cpair cu8 cu8)))))"

definition CurrentDataSet_codec :: "CurrentDataSetTLV codec" where
  "CurrentDataSet_codec = cmap
     (\<lambda>(h, s, f, d). \<lparr>cd_ManagementTLVHead = h, cd_StepsRemoved = s, cd_OffsetFromMaster = f,
        cd_MeanPathDelay = d\<rparr>)
     (\<lambda>t. (cd_ManagementTLVHead t, cd_StepsRemoved t, cd_OffsetFromMaster t, cd_MeanPathDelay t))
     (cpair ManagementTLVHead_codec (cpair cu16 (cpair cu64 cu64)))"

definition DefaultDataSet_codec :: "DefaultDataSetTLV codec" where
  "DefaultDataSet_codec = cmap
     (\<lambda>(h, s, r, n, p, q, p', c, d, r'). \<lparr>dd_ManagementTLVHead = h, dd_SoTSC = s, dd_Reserved0 = r,
        dd_NumberPorts = n, dd_Priority1 = p, dd_ClockQuality = q, dd_Priority2 = p',
        dd_ClockIdentity = c, dd_DomainNumber = d, dd_Reserved1 = r'\<rparr>)
     (\<lambda>t. (dd_ManagementTLVHead t, dd_SoTSC t, dd_Reserved0 t, dd_NumberPorts t, dd_Priority1 t,
        dd_ClockQuality t, dd_Priority2 t, dd_ClockIdentity t, dd_DomainNumber t, dd_Reserved1 t))
     (cpair ManagementTLVHead_codec (cpair cu8 (cpair cu8 (cpair cu16 (cpair cu8
       (cpair ClockQuality_codec (cpair cu8 (cpair cu64 (cpair cu8 cu8)))))))))"

definition ParentDataSet_codec :: "ParentDataSetTLV codec" where
  "ParentDataSet_codec = cmap
     (\<lambda>(h, i, s, r, v, c, p, q, p', g). \<lparr>pd_ManagementTLVHead = h, pd_ParentPortIdentity = i,
        pd_PS = s, pd_Reserved = r, pd_ObservedParentOffsetScaledLogVariance = v,
        pd_ObservedParentClockPhaseChangeRate = c, pd_GrandmasterPriority1 = p,
        pd_GrandmasterClockQuality = q, pd_GrandmasterPriority2 = p', pd_GrandmasterIdentity = g\<rparr>)
     (\<lambda>t. (pd_ManagementTLVHead t, pd_ParentPortIdentity t, pd_PS t, pd_Reserved t,
        pd_ObservedParentOffsetScaledLogVariance t, pd_ObservedParentClockPhaseChangeRate t,
        pd_GrandmasterPriority1 t, pd_GrandmasterClockQuality t, pd_GrandmasterPriority2 t,
        pd_GrandmasterIdentity t))
     (cpair ManagementTLVHead_codec (cpair PortIdentity_codec (cpair cu8 (cpair cu8 (cpair cu16
       (cpair cu32 (cpair cu8 (cpair ClockQuality_codec (cpair cu8 cu64)))))))))"

text \<open>
  The statistics of a port are written with the byte order of the rest of the packet but read in
  little endian, as ptp4l sends them; \<open>cu\<close> is the codec of one counter.
\<close>

definition PortStats_codec :: "u64 codec \<Rightarrow> PortStats codec" where
  "PortStats_codec cu = cmap (\<lambda>(r, t). \<lparr>ps_RXMsgType = r, ps_TXMsgType = t\<rparr>)
     (\<lambda>s. (ps_RXMsgType s, ps_TXMsgType s)) (cpair (carray 16 cu) (carray 16 cu))"

definition PortStatsNP_codec :: "u64 codec \<Rightarrow> PortStatsNPTLV codec" where
  "PortStatsNP_codec cu = cmap
     (\<lambda>(h, i, s). \<lparr>pn_ManagementTLVHead = h, pn_PortIdentity = i, pn_PortStats = s\<rparr>)
     (\<lambda>t. (pn_ManagementTLVHead t, pn_PortIdentity t, pn_PortStats t))
     (cpair ManagementTLVHead_codec (cpair PortIdentity_codec (PortStats_codec cu)))"

definition ScaledNS_codec :: "ScaledNS codec" where
  "ScaledNS_codec = cmap
     (\<lambda>(m, l, f). \<lparr>sn_NanosecondsMSB = m, sn_NanosecondsLSB = l, sn_FractionalNanoseconds = f\<rparr>)
     (\<lambda>s. (sn_NanosecondsMSB s, sn_NanosecondsLSB s, sn_FractionalNanoseconds s))
     (cpair cu16 (cpair cu64 cu16))"

definition TimeStatusNP_codec :: "TimeStatusNPTLV codec" where
  "TimeStatusNP_codec = cmap
     (\<lambda>(h, f, i, c, s, b, l, p, g). \<lparr>tn_ManagementTLVHead = h, tn_MasterOffsetNS = f,
        tn_IngressTimeNS = i, tn_CumulativeScaledRateOffset = c, tn_ScaledLastGmPhaseChange = s,
        tn_GMTimeBaseIndicator = b, tn_LastGmPhaseChange = l, tn_GMPresent = p, tn_GMIdentity = g\<rparr>)
     (\<lambda>t. (tn_ManagementTLVHead t, tn_MasterOffsetNS t, tn_IngressTimeNS t,
        tn_CumulativeScaledRateOffset t, tn_ScaledLastGmPhaseChange t, tn_GMTimeBaseIndicator t,
        tn_LastGmPhaseChange t, tn_GMPresent t, tn_GMIdentity t))
     (cpair ManagementTLVHead_codec (cpair cu64 (cpair cu64 (cpair cu32 (cpair cu32 (cpair cu16
       (cpair ScaledNS_codec (cpair cu32 cu64))))))))"

section \<open>The decoder registry\<close>

type_synonym mgmt_decoders = "ManagementID \<Rightarrow> (bytes \<Rightarrow> ManagementTLV res) option"

definition read_tlv :: "'a codec \<Rightarrow> ('a \<Rightarrow> ManagementTLV) \<Rightarrow> bytes \<Rightarrow> ManagementTLV res" where
  "read_tlv c f data = bind_res (binary_Read c data) (\<lambda>(tlv, _). Ok (f tlv))"

definition decode_PortStatsNP :: "bytes \<Rightarrow> ManagementTLV res" where
  "decode_PortStatsNP data =
     bind_res (binary_Read ManagementTLVHead_codec data) (\<lambda>(h, r).
     bind_res (binary_Read PortIdentity_codec r) (\<lambda>(i, r).
     bind_res (binary_Read (PortStats_codec (cle 8)) r) (\<lambda>(s, _).
     Ok (PortStatsNP_TLV \<lparr>pn_ManagementTLVHead = h, pn_PortIdentity = i, pn_PortStats = s\<rparr>))))"

definition mgmtTLVDecoder :: mgmt_decoders where
  "mgmtTLVDecoder = map_of
    [(IDDefaultDataSet, read_tlv DefaultDataSet_codec Default_TLV),
     (IDCurrentDataSet, read_tlv CurrentDataSet_codec Current_TLV),
     (IDParentDataSet, read_tlv ParentDataSet_codec Parent_TLV),
     (IDPortStatsNP, decode_PortStatsNP),
     (IDTimeStatusNP, read_tlv TimeStatusNP_codec TimeStatusNP_TLV)]"

definition RegisterMgmtTLVDecoder ::
  "ManagementID \<Rightarrow> (bytes \<Rightarrow> ManagementTLV res) \<Rightarrow> mgmt_decoders \<Rightarrow> mgmt_decoders" where
  "RegisterMgmtTLVDecoder i dec m = m(i \<mapsto> dec)"

section \<open>Management messages\<close>

definition ErrManagementMsgErrorStatus :: string where
  "ErrManagementMsgErrorStatus = ''received MANAGEMENT_ERROR_STATUS_TLV''"

definition Management_UnmarshalBinary :: "mgmt_decoders \<Rightarrow> bytes \<Rightarrow> Management res" where
  "Management_UnmarshalBinary decoders rawBytes =
     bind_res (binary_Read ManagementMsgHead_codec rawBytes) (\<lambda>(head, r).
     bind_res (binary_Read TLVHead_codec r) (\<lambda>(tlvHead, r').
     if th_TLVType tlvHead = TLVManagementErrorStatus then Err ErrManagementMsgErrorStatus
     else if th_TLVType tlvHead \<noteq> TLVManagement then Err ''got TLV type 0x%x instead of 0x%x''
     else bind_res (binary_Read cu16 r') (\<lambda>(managementID, _).
       case decoders managementID of
         None \<Rightarrow> Err ''unsupported management TLV 0x%x''
       | Some dec \<Rightarrow>
           bind_res (dec r) (\<lambda>tlv. Ok \<lparr>mg_ManagementMsgHead = head, mg_TLV = tlv\<rparr>))))"

fun MgmtTLV_Write :: "ManagementTLV \<Rightarrow> bytes" where
  "MgmtTLV_Write (Current_TLV t) = binary_Write CurrentDataSet_codec t"
| "MgmtTLV_Write (Default_TLV t) = binary_Write DefaultDataSet_codec t"
| "MgmtTLV_Write (Parent_TLV t) = binary_Write ParentDataSet_codec t"
| "MgmtTLV_Write (PortStatsNP_TLV t) = binary_Write (PortStatsNP_codec cu64) t"
| "MgmtTLV_Write (TimeStatusNP_TLV t) = binary_Write TimeStatusNP_codec t"
| "MgmtTLV_Write (Head_TLV h) = binary_Write ManagementTLVHead_codec h"
| "MgmtTLV_Write (Custom_TLV h bs) = bs"

definition Management_MarshalBinaryTo :: "Management \<Rightarrow> bytes \<Rightarrow> bytes" where
  "Management_MarshalBinaryTo p w =
     w @ binary_Write ManagementMsgHead_codec (mg_ManagementMsgHead p) @ MgmtTLV_Write (mg_TLV p)"

definition Management_MarshalBinary :: "Management \<Rightarrow> bytes res" where
  "Management_MarshalBinary p = Ok (Management_MarshalBinaryTo p [])"

record ManagementErrorStatusTLV =
  es_TLVHead :: TLVHead
  es_ManagementErrorID :: ManagementErrorID
  es_ManagementID :: ManagementID
  es_Reserved :: i32
  es_DisplayData :: PTPText

record ManagementMsgErrorStatus =
  me_ManagementMsgHead :: ManagementMsgHead
  me_ManagementErrorStatusTLV :: ManagementErrorStatusTLV

definition wrap_err :: "string \<Rightarrow> 'a res \<Rightarrow> 'a res" where
  "wrap_err m r = (case r of Inl (GoError _) \<Rightarrow> Err m | _ \<Rightarrow> r)"

text \<open>The receiver is the zero value, as in \<open>decodeMgmtPacket\<close>; 60 is the sum of the five \<open>binary.Size\<close>.\<close>

definition ErrorStatus_UnmarshalBinary :: "bytes \<Rightarrow> ManagementMsgErrorStatus res" where
  "ErrorStatus_UnmarshalBinary rawBytes =
     bind_res (wrap_err ''reading ManagementMsgErrorStatus ManagementMsgHead: %w''
       (binary_Read ManagementMsgHead_codec rawBytes)) (\<lambda>(head, r).
     bind_res (wrap_err ''reading ManagementMsgErrorStatus TLVHead: %w''
       (binary_Read TLVHead_codec r)) (\<lambda>(tlvHead, r).
     bind_res (wrap_err ''reading ManagementMsgErrorStatus ManagementErrorID: %w''
       (binary_Read cu16 r)) (\<lambda>(errorID, r).
     bind_res (wrap_err ''reading ManagementMsgErrorStatus ManagementID: %w''
       (binary_Read cu16 r)) (\<lambda>(managementID, r).
     bind_res (wrap_err ''reading ManagementMsgErrorStatus Reserved: %w''
       (binary_Read cu32 r)) (\<lambda>(reserved, r).
     let toRead = int (unat (h_MessageLength (mh_Header head))) - int (csize ManagementMsgHead_codec)
           - int (csize TLVHead_codec) - int (csize cu16) - int (csize cu16) - int (csize cu32);
         p = (\<lambda>dd. \<lparr>me_ManagementMsgHead = head, me_ManagementErrorStatusTLV =
           \<lparr>es_TLVHead = tlvHead, es_ManagementErrorID = errorID, es_ManagementID = managementID,
            es_Reserved = reserved, es_DisplayData = dd\<rparr>\<rparr>)
     in if length r = 0 \<or> toRead \<le> 0 then Ok (p [])
        else bind_res (read_full (length r) r) (\<lambda>(data, _).
          bind_res (wrap_err ''reading ManagementMsgErrorStatus DisplayData: %w''
            (PTPText_UnmarshalBinary [] data)) (\<lambda>dd. Ok (p dd))))))))"

definition ErrorStatus_MarshalBinaryTo :: "ManagementMsgErrorStatus \<Rightarrow> bytes \<Rightarrow> bytes res" where
  "ErrorStatus_MarshalBinaryTo p w =
     (let t = me_ManagementErrorStatusTLV p;
          w = w @ binary_Write ManagementMsgHead_codec (me_ManagementMsgHead p)
                @ binary_Write TLVHead_codec (es_TLVHead t)
                @ binary_Write cu16 (es_ManagementErrorID t)
                @ binary_Write cu16 (es_ManagementID t)
                @ binary_Write cu32 (es_Reserved t)
      in if es_DisplayData t \<noteq> [] then
           bind_res (wrap_err ''writing ManagementMsgErrorStatus DisplayData: %w''
             (PTPText_MarshalBinary (es_DisplayData t))) (\<lambda>dd. Ok (w @ dd))
         else Ok w)"

definition ErrorStatus_MarshalBinary :: "ManagementMsgErrorStatus \<Rightarrow> bytes res" where
  "ErrorStatus_MarshalBinary p = ErrorStatus_MarshalBinaryTo p []"

datatype mgmt_packet = Mgmt_Management Management | Mgmt_ErrorStatus ManagementMsgErrorStatus

definition decodeMgmtPacket :: "mgmt_decoders \<Rightarrow> bytes \<Rightarrow> mgmt_packet res" where
  "decodeMgmtPacket decoders data =
     (case Management_UnmarshalBinary decoders data of
        Inl (GoError m) \<Rightarrow>
          if m = ErrManagementMsgErrorStatus then
            bind_res (wrap_err ''got Management Error in response but failed to decode it: %w''
              (ErrorStatus_UnmarshalBinary data)) (\<lambda>p. Ok (Mgmt_ErrorStatus p))
          else Inl (GoError m)
      | Inl Panic \<Rightarrow> Inl Panic
      | Inr packet \<Rightarrow> Ok (Mgmt_Management packet))"

section \<open>Requests\<close>

text \<open>\<open>identity\<close> is set once by \<open>init\<close> from the process id.\<close>

definition identity :: "u16 \<Rightarrow> PortIdentity" where
  "identity pid = \<lparr>pi_ClockIdentity = 0, pi_PortNumber = pid\<rparr>"

text \<open>The head the five request constructors share, with the message length each of them computes.\<close>

definition request_head :: "u16 \<Rightarrow> u16 \<Rightarrow> ManagementMsgHead" where
  "request_head pid len =
     \<lparr>mh_Header =
        \<lparr>h_SdoIDAndMsgType = NewSdoIDAndMsgType MessageManagement 0, h_Version = Version,
         h_MessageLength = len, h_DomainNumber = 0, h_MinorSdoID = 0, h_FlagField = 0,
         h_CorrectionField = 0, h_MessageTypeSpecific = 0, h_SourcePortIdentity = identity pid,
         h_SequenceID = 0, h_ControlField = 0, h_LogMessageInterval = MgmtLogMessageInterval\<rparr>,
      mh_TargetPortIdentity = DefaultTargetPortIdentity, mh_StartingBoundaryHops = 0,
      mh_BoundaryHops = 0, mh_ActionField = GET, mh_Reserved = 0\<rparr>"

definition CurrentDataSetRequest :: "u16 \<Rightarrow> Management" where
  "CurrentDataSetRequest pid =
     (let hsize = word_of_nat (csize ManagementMsgHead_codec);
          size = word_of_nat (csize CurrentDataSet_codec);
          tsize = word_of_nat (csize TLVHead_codec) in
      \<lparr>mg_ManagementMsgHead = request_head pid (hsize + size),
       mg_TLV = Current_TLV
         \<lparr>cd_ManagementTLVHead =
            \<lparr>mt_TLVHead = \<lparr>th_TLVType = TLVManagement, th_LengthField = size - tsize\<rparr>,
             mt_ManagementID = IDCurrentDataSet\<rparr>,
          cd_StepsRemoved = 0, cd_OffsetFromMaster = 0, cd_MeanPathDelay = 0\<rparr>\<rparr>)"

definition DefaultDataSetRequest :: "u16 \<Rightarrow> Management" where
  "DefaultDataSetRequest pid =
     (let hsize = word_of_nat (csize ManagementMsgHead_codec);
          size = word_of_nat (csize DefaultDataSet_codec);
          tsize = word_of_nat (csize TLVHead_codec) in
      \<lparr>mg_ManagementMsgHead = request_head pid (hsize + size),
       mg_TLV = Default_TLV
         \<lparr>dd_ManagementTLVHead =
            \<lparr>mt_TLVHead = \<lparr>th_TLVType = TLVManagement, th_LengthField = size - tsize\<rparr>,
             mt_ManagementID = IDDefaultDataSet\<rparr>,
          dd_SoTSC = 0, dd_Reserved0 = 0, dd_NumberPorts = 0, dd_Priority1 = 0,
          dd_ClockQuality = \<lparr>cq_ClockClass = 0, cq_ClockAccuracy = 0, cq_OffsetScaledLogVariance = 0\<rparr>,
          dd_Priority2 = 0, dd_ClockIdentity = 0, dd_DomainNumber = 0, dd_Reserved1 = 0\<rparr>\<rparr>)"

definition ParentDataSetRequest :: "u16 \<Rightarrow> Management" where
  "ParentDataSetRequest pid =
     (let hsize = word_of_nat (csize ManagementMsgHead_codec);
          size = word_of_nat (csize ParentDataSet_codec);
          tsize = word_of_nat (csize TLVHead_codec) in
      \<lparr>mg_ManagementMsgHead = request_head pid (hsize + size),
       mg_TLV = Parent_TLV
         \<lparr>pd_ManagementTLVHead =
            \<lparr>mt_TLVHead = \<lparr>th_TLVType = TLVManagement, th_LengthField = size - tsize\<rparr>,
             mt_ManagementID = IDParentDataSet\<rparr>,
          pd_ParentPortIdentity = \<lparr>pi_ClockIdentity = 0, pi_PortNumber = 0\<rparr>, pd_PS = 0,
          pd_Reserved = 0, pd_ObservedParentOffsetScaledLogVariance = 0,
          pd_ObservedParentClockPhaseChangeRate = 0, pd_GrandmasterPriority1 = 0,
          pd_GrandmasterClockQuality =
            \<lparr>cq_ClockClass = 0, cq_ClockAccuracy = 0, cq_OffsetScaledLogVariance = 0\<rparr>,
          pd_GrandmasterPriority2 = 0, pd_GrandmasterIdentity = 0\<rparr>\<rparr>)"

definition PortStatsNPRequest :: "u16 \<Rightarrow> Management" where
  "PortStatsNPRequest pid =
     (let hsize = word_of_nat (csize ManagementMsgHead_codec);
          tsize = word_of_nat (csize TLVHead_codec) in
      \<lparr>mg_ManagementMsgHead = request_head pid (hsize + tsize + 2),
       mg_TLV = Head_TLV
         \<lparr>mt_TLVHead = \<lparr>th_TLVType = TLVManagement, th_LengthField = 2\<rparr>,
          mt_ManagementID = IDPortStatsNP\<rparr>\<rparr>)"

definition TimeStatusNPRequest :: "u16 \<Rightarrow> Management" where
  "TimeStatusNPRequest pid =
     (let hsize = word_of_nat (csize ManagementMsgHead_codec);
          tsize = word_of_nat (csize TLVHead_codec) in
      \<lparr>mg_ManagementMsgHead = request_head pid (hsize + tsize + 2),
       mg_TLV = Head_TLV
         \<lparr>mt_TLVHead = \<lparr>th_TLVType = TLVManagement, th_LengthField = 2\<rparr>,
          mt_ManagementID = IDTimeStatusNP\<rparr>\<rparr>)"

section \<open>The client\<close>

text \<open>
  The client's state is its sequence counter and what it wrote to the connection. A call to the
  connection is the argument with its outcome: \<open>wr\<close> the error of a write, if any, \<open>rd\<close> the bytes or
  the error of a read, of which at most the 1024 bytes of the buffer arrive.
\<close>

record MgmtClient =
  mc_Sequence :: u16
  mc_Sent :: "bytes list"

definition Management_SetSequence :: "u16 \<Rightarrow> Management \<Rightarrow> Management" where
  "Management_SetSequence s p = p\<lparr>mg_ManagementMsgHead :=
     (mg_ManagementMsgHead p)\<lparr>mh_Header := SetSequence s (mh_Header (mg_ManagementMsgHead p))\<rparr>\<rparr>"

definition SendPacket ::
  "string option \<Rightarrow> MgmtClient \<Rightarrow> Management \<Rightarrow> MgmtClient \<times> Management \<times> unit res" where
  "SendPacket wr c packet =
     (let c = c\<lparr>mc_Sequence := mc_Sequence c + 1\<rparr>;
          packet = Management_SetSequence (mc_Sequence c) packet in
      case Management_MarshalBinary packet of
        Inl e \<Rightarrow> (c, packet, Inl e)
      | Inr b \<Rightarrow>
          (case wr of
             Some m \<Rightarrow> (c, packet, Err m)
           | None \<Rightarrow> (c\<lparr>mc_Sent := mc_Sent c @ [b]\<rparr>, packet, Ok ())))"

definition Communicate :: "mgmt_decoders \<Rightarrow> string option \<Rightarrow> bytes res \<Rightarrow>
    MgmtClient \<Rightarrow> Management \<Rightarrow> MgmtClient \<times> Management res" where
  "Communicate decoders wr rd c packet =
     (let (c, packet, sent) = SendPacket wr c packet in
      (c, bind_res sent (\<lambda>_.
          bind_res rd (\<lambda>response.
          bind_res (decodeMgmtPacket decoders (take 1024 response)) (\<lambda>p.
          case p of
            Mgmt_ErrorStatus e \<Rightarrow> Err (''got Management Error in response: '' @
              ManagementErrorID_String (es_ManagementErrorID (me_ManagementErrorStatusTLV e)))
          | Mgmt_Management m \<Rightarrow> Ok m)))))"

definition ParentDataSet :: "mgmt_decoders \<Rightarrow> string option \<Rightarrow> bytes res \<Rightarrow> u16 \<Rightarrow>
    MgmtClient \<Rightarrow> MgmtClient \<times> ParentDataSetTLV res" where
  "ParentDataSet decoders wr rd pid c =
     (let (c, p) = Communicate decoders wr rd c (ParentDataSetRequest pid) in
      (c, bind_res p (\<lambda>p. case mg_TLV p of Parent_TLV t \<Rightarrow> Ok t
          | _ \<Rightarrow> Err ''got unexpected management TLV %T, wanted %T'')))"

definition DefaultDataSet :: "mgmt_decoders \<Rightarrow> string option \<Rightarrow> bytes res \<Rightarrow> u16 \<Rightarrow>
    MgmtClient \<Rightarrow> MgmtClient \<times> DefaultDataSetTLV res" where
  "DefaultDataSet decoders wr rd pid c =
     (let (c, p) = Communicate decoders wr rd c (DefaultDataSetRequest pid) in
      (c, bind_res p (\<lambda>p. case mg_TLV p of Default_TLV t \<Rightarrow> Ok t
          | _ \<Rightarrow> Err ''got unexpected management TLV %T, wanted %T'')))"

definition CurrentDataSet :: "mgmt_decoders \<Rightarrow> string option \<Rightarrow> bytes res \<Rightarrow> u16 \<Rightarrow>
    MgmtClient \<Rightarrow> MgmtClient \<times> CurrentDataSetTLV res" where
  "CurrentDataSet decoders wr rd pid c =
     (let (c, p) = Communicate decoders wr rd c (CurrentDataSetRequest pid) in
      (c, bind_res p (\<lambda>p. case mg_TLV p of Current_TLV t \<Rightarrow> Ok t
          | _ \<Rightarrow> Err ''got unexpected management TLV %T, wanted %T'')))"

definition PortStatsNP :: "mgmt_decoders \<Rightarrow> string option \<Rightarrow> bytes res \<Rightarrow> u16 \<Rightarrow>
    MgmtClient \<Rightarrow> MgmtClient \<times> PortStatsNPTLV res" where
  "PortStatsNP decoders wr rd pid c =
     (let (c, p) = Communicate decoders wr rd c (PortStatsNPRequest pid) in
      (c, bind_res p (\<lambda>p. case mg_TLV p of PortStatsNP_TLV t \<Rightarrow> Ok t
          | _ \<Rightarrow> Err ''got unexpected management TLV %T, wanted %T'')))"

definition TimeStatusNP :: "mgmt_decoders \<Rightarrow> string option \<Rightarrow> bytes res \<Rightarrow> u16 \<Rightarrow>
    MgmtClient \<Rightarrow> MgmtClient \<times> TimeStatusNPTLV res" where
  "TimeStatusNP decoders wr rd pid c =
     (let (c, p) = Communicate decoders wr rd c (TimeStatusNPRequest pid) in
      (c, bind_res p (\<lambda>p. case mg_TLV p of TimeStatusNP_TLV t \<Rightarrow> Ok t
          | _ \<Rightarrow> Err ''got unexpected management TLV %T, wanted %T'')))"

section \<open>The codecs are well formed\<close>

lemma wf_management_codecs [wf_codecs]:
  "wf_codec ManagementTLVHead_codec" "wf_codec ManagementMsgHead_codec" "wf_codec ScaledNS_codec"
  "wf_codec cu \<Longrightarrow> wf_codec (PortStats_codec cu)"
  unfolding ManagementTLVHead_codec_def ManagementMsgHead_codec_def ScaledNS_codec_def
    PortStats_codec_def
  by (rule wf_cmap; auto intro!: wf_codecs)+

lemma wf_management_tlvs [wf_codecs]:
  "wf_codec CurrentDataSet_codec" "wf_codec DefaultDataSet_codec" "wf_codec ParentDataSet_codec"
  "wf_codec TimeStatusNP_codec" "wf_codec cu \<Longrightarrow> wf_codec (PortStatsNP_codec cu)"
  unfolding CurrentDataSet_codec_def DefaultDataSet_codec_def ParentDataSet_codec_def
    TimeStatusNP_codec_def PortStatsNP_codec_def
  by (rule wf_cmap; auto intro!: wf_codecs)+

lemmas management_codec_defs = ManagementTLVHead_codec_def ManagementMsgHead_codec_def
  ScaledNS_codec_def PortStats_codec_def CurrentDataSet_codec_def DefaultDataSet_codec_def
  ParentDataSet_codec_def TimeStatusNP_codec_def PortStatsNP_codec_def

lemma csize_management [simp]:
  "csize ManagementTLVHead_codec = 6" "csize ManagementMsgHead_codec = 48" "csize ScaledNS_codec = 12"
  "csize CurrentDataSet_codec = 24" "csize DefaultDataSet_codec = 26" "csize ParentDataSet_codec = 38"
  "csize TimeStatusNP_codec = 56" "csize (PortStats_codec cu) = 32 * csize cu"
  "csize (PortStatsNP_codec cu) = 16 + 32 * csize cu"
  by (simp_all add: management_codec_defs)

lemma cok_management [simp]:
  "cok ManagementTLVHead_codec a" "cok ManagementMsgHead_codec b" "cok ScaledNS_codec c"
  "cok CurrentDataSet_codec d" "cok DefaultDataSet_codec e" "cok ParentDataSet_codec f"
  "cok TimeStatusNP_codec g"
  by (simp_all add: management_codec_defs)

interpretation mgmt_head: fixed_codec ManagementMsgHead_codec
  by unfold_locales (rule wf_codecs)

interpretation mgmt_tlv_head: fixed_codec ManagementTLVHead_codec
  by unfold_locales (rule wf_codecs)

interpretation current_tlv: fixed_codec CurrentDataSet_codec
  by unfold_locales (rule wf_codecs)

interpretation default_tlv: fixed_codec DefaultDataSet_codec
  by unfold_locales (rule wf_codecs)

interpretation parent_tlv: fixed_codec ParentDataSet_codec
  by unfold_locales (rule wf_codecs)

interpretation time_status_tlv: fixed_codec TimeStatusNP_codec
  by unfold_locales (rule wf_codecs)

section \<open>Decoding what was encoded\<close>

text \<open>The TLVs that are read back as they were written: one of the five kinds with its own identifier.\<close>

fun mgmt_tlv_ok :: "ManagementTLV \<Rightarrow> bool" where
  "mgmt_tlv_ok (Current_TLV t) \<longleftrightarrow> mt_ManagementID (cd_ManagementTLVHead t) = IDCurrentDataSet"
| "mgmt_tlv_ok (Default_TLV t) \<longleftrightarrow> mt_ManagementID (dd_ManagementTLVHead t) = IDDefaultDataSet"
| "mgmt_tlv_ok (Parent_TLV t) \<longleftrightarrow> mt_ManagementID (pd_ManagementTLVHead t) = IDParentDataSet"
| "mgmt_tlv_ok (TimeStatusNP_TLV t) \<longleftrightarrow> mt_ManagementID (tn_ManagementTLVHead t) = IDTimeStatusNP"
| "mgmt_tlv_ok _ \<longleftrightarrow> False"

definition is_custom :: "ManagementTLV \<Rightarrow> bool" where
  "is_custom t \<longleftrightarrow> (case t of Custom_TLV _ _ \<Rightarrow> True | _ \<Rightarrow> False)"

lemma mgmt_tlv_ok_not_custom: "mgmt_tlv_ok t \<Longrightarrow> \<not> is_custom t"
  by (cases t) (simp_all add: is_custom_def)

definition tlv_rest :: "ManagementTLV \<Rightarrow> bytes" where
  "tlv_rest t = drop 6 (MgmtTLV_Write t)"

lemma length_ManagementTLVHead [simp]: "length (cenc ManagementTLVHead_codec h) = 6"
  using wf_codecD(1) [OF wf_management_codecs(1)] by simp

lemma length_TLVHead [simp]: "length (cenc TLVHead_codec h) = 4"
  using wf_codecD(1) [OF wf_TLVHead] by simp

lemma MgmtTLV_Write_split:
  assumes "\<not> is_custom t"
  shows "MgmtTLV_Write t = binary_Write TLVHead_codec (mt_TLVHead (MgmtTLV_head t))
    @ binary_Write cu16 (MgmtID t) @ tlv_rest t"
proof -
  have "MgmtTLV_Write t = cenc ManagementTLVHead_codec (MgmtTLV_head t) @ tlv_rest t"
    using assms by (cases t) (simp_all add: is_custom_def binary_Write_def CurrentDataSet_codec_def
        DefaultDataSet_codec_def ParentDataSet_codec_def TimeStatusNP_codec_def
        PortStatsNP_codec_def tlv_rest_def)
  then show ?thesis
    by (simp add: ManagementTLVHead_codec_def binary_Write_def MgmtID_def)
qed

text \<open>The dispatch: the TLV's bytes reach the decoder registered for its identifier, whole.\<close>

lemma Management_Unmarshal_dispatch:
  assumes "\<not> is_custom (mg_TLV p)"
    and "th_TLVType (mt_TLVHead (MgmtTLV_head (mg_TLV p))) = TLVManagement"
    and "decoders (MgmtID (mg_TLV p)) = Some dec"
  shows "Management_UnmarshalBinary decoders (Management_MarshalBinaryTo p [] @ r) =
    bind_res (dec (MgmtTLV_Write (mg_TLV p) @ r)) (\<lambda>t.
      Ok \<lparr>mg_ManagementMsgHead = mg_ManagementMsgHead p, mg_TLV = t\<rparr>)"
proof -
  let ?t = "mg_TLV p"
  have "binary_Read TLVHead_codec (MgmtTLV_Write ?t @ r) =
      Ok (mt_TLVHead (MgmtTLV_head ?t), binary_Write cu16 (MgmtID ?t) @ tlv_rest ?t @ r)"
    using MgmtTLV_Write_split [OF assms(1)] tlv_head.read_write by simp
  moreover have "binary_Read cu16 (binary_Write cu16 (MgmtID ?t) @ tlv_rest ?t @ r) =
      Ok (MgmtID ?t, tlv_rest ?t @ r)"
    by (simp add: short_codec.read_write)
  ultimately show ?thesis
    using assms by (simp add: Management_UnmarshalBinary_def Management_MarshalBinaryTo_def
        mgmt_head.read_write)
qed

lemma mgmtTLVDecoder_simps [simp]:
  "mgmtTLVDecoder 0x2000 = Some (read_tlv DefaultDataSet_codec Default_TLV)"
  "mgmtTLVDecoder 0x2001 = Some (read_tlv CurrentDataSet_codec Current_TLV)"
  "mgmtTLVDecoder 0x2002 = Some (read_tlv ParentDataSet_codec Parent_TLV)"
  "mgmtTLVDecoder 0xC005 = Some decode_PortStatsNP"
  "mgmtTLVDecoder 0xC000 = Some (read_tlv TimeStatusNP_codec TimeStatusNP_TLV)"
  by (simp_all add: mgmtTLVDecoder_def)

lemma decoder_roundtrip:
  assumes "mgmt_tlv_ok t"
  shows "\<exists>dec. mgmtTLVDecoder (MgmtID t) = Some dec \<and> dec (MgmtTLV_Write t @ r) = Ok t"
  using assms
  by (cases t) (simp_all add: MgmtID_def read_tlv_def current_tlv.read_write default_tlv.read_write
      parent_tlv.read_write time_status_tlv.read_write)

lemma decode_marshalled:
  assumes "mgmt_tlv_ok (mg_TLV p)"
    and "th_TLVType (mt_TLVHead (MgmtTLV_head (mg_TLV p))) = TLVManagement"
  shows "decodeMgmtPacket mgmtTLVDecoder (Management_MarshalBinaryTo p [] @ r) = Ok (Mgmt_Management p)"
proof -
  obtain dec where "mgmtTLVDecoder (MgmtID (mg_TLV p)) = Some dec"
      "dec (MgmtTLV_Write (mg_TLV p) @ r) = Ok (mg_TLV p)"
    using decoder_roundtrip [OF assms(1)] by blast
  then have "Management_UnmarshalBinary mgmtTLVDecoder (Management_MarshalBinaryTo p [] @ r) = Ok p"
    using Management_Unmarshal_dispatch [of p mgmtTLVDecoder dec r] assms(2)
      mgmt_tlv_ok_not_custom [OF assms(1)] by simp
  then show ?thesis by (simp add: decodeMgmtPacket_def)
qed

text \<open>
  C33: A management message with a standard data set or a TIME_STATUS_NP TLV under its own identifier
  is decoded, from its encoding and any trailing bytes, to the message itself.
\<close>
theorem Management_roundtrip:
  assumes "mgmt_tlv_ok (mg_TLV p)"
    and "th_TLVType (mt_TLVHead (MgmtTLV_head (mg_TLV p))) = TLVManagement"
    and "Management_MarshalBinary p = Ok bs"
  shows "decodeMgmtPacket mgmtTLVDecoder (bs @ r) = Ok (Mgmt_Management p)"
  using decode_marshalled [OF assms(1,2)] assms(3) by (simp add: Management_MarshalBinary_def)

lemma CurrentDataSetRequest_simps:
  "mg_TLV (CurrentDataSetRequest pid) = Current_TLV
     \<lparr>cd_ManagementTLVHead = \<lparr>mt_TLVHead = \<lparr>th_TLVType = 1, th_LengthField = 20\<rparr>,
      mt_ManagementID = 0x2001\<rparr>, cd_StepsRemoved = 0, cd_OffsetFromMaster = 0, cd_MeanPathDelay = 0\<rparr>"
  "mg_ManagementMsgHead (CurrentDataSetRequest pid) = request_head pid 72"
  by (simp_all add: CurrentDataSetRequest_def)

theorem Management_roundtrip_witness:
  "decodeMgmtPacket mgmtTLVDecoder (Management_MarshalBinaryTo (CurrentDataSetRequest 7) [] @ [0, 0]) =
     Ok (Mgmt_Management (CurrentDataSetRequest 7))"
  by (rule Management_roundtrip) (simp_all add: Management_MarshalBinary_def CurrentDataSetRequest_simps)

text \<open>Read in little endian, a counter written in big endian has its bytes reversed.\<close>

definition bswap64 :: "u64 \<Rightarrow> u64" where
  "bswap64 w = cdec (cle 8) (cenc cu64 w)"

lemma wf_cle8: "wf_codec (cle 8 :: u64 codec)"
  by (rule wf_cle) simp

lemma dec_list_swap: "dec_list (cle 8) (length ws) (concat (map (cenc cu64) ws) @ r) = map bswap64 ws"
  by (induction ws) (simp_all add: bswap64_def)

lemma PortStats_swap:
  assumes "length (ps_RXMsgType s) = 16" and "length (ps_TXMsgType s) = 16"
  shows "binary_Read (PortStats_codec (cle 8)) (binary_Write (PortStats_codec cu64) s @ r) =
    Ok (\<lparr>ps_RXMsgType = map bswap64 (ps_RXMsgType s), ps_TXMsgType = map bswap64 (ps_TXMsgType s)\<rparr>, r)"
proof -
  let ?a = "concat (map (cenc cu64) (ps_RXMsgType s))" and ?b = "concat (map (cenc cu64) (ps_TXMsgType s))"
  have l: "length ?a = 128" "length ?b = 128"
    using length_concat_cenc [OF wf_cu(3)] assms by (simp_all add: list_all_iff)
  have "binary_Write (PortStats_codec cu64) s = ?a @ ?b"
    by (simp add: binary_Write_def PortStats_codec_def)
  with l show ?thesis
    using dec_list_swap [of "ps_RXMsgType s" "[]"] dec_list_swap [of "ps_TXMsgType s" "[]"] assms
    by (simp add: binary_Read_Ok PortStats_codec_def)
qed

text \<open>
  A PORT_STATS_NP message does not come back as it was: \<open>MarshalBinary\<close> writes the counters in big
  endian and the decoder reads them in little endian, so each counter is byte-swapped.
\<close>
theorem PortStatsNP_swapped:
  assumes "mg_TLV p = PortStatsNP_TLV t"
    and "pn_ManagementTLVHead t = \<lparr>mt_TLVHead = \<lparr>th_TLVType = TLVManagement, th_LengthField = l\<rparr>,
      mt_ManagementID = IDPortStatsNP\<rparr>"
    and "length (ps_RXMsgType (pn_PortStats t)) = 16" and "length (ps_TXMsgType (pn_PortStats t)) = 16"
    and "Management_MarshalBinary p = Ok bs"
  shows "decodeMgmtPacket mgmtTLVDecoder (bs @ r) = Ok (Mgmt_Management (p\<lparr>mg_TLV := PortStatsNP_TLV
    (t\<lparr>pn_PortStats := \<lparr>ps_RXMsgType = map bswap64 (ps_RXMsgType (pn_PortStats t)),
       ps_TXMsgType = map bswap64 (ps_TXMsgType (pn_PortStats t))\<rparr>\<rparr>)\<rparr>))"
proof -
  have w: "MgmtTLV_Write (mg_TLV p) = binary_Write ManagementTLVHead_codec (pn_ManagementTLVHead t)
      @ binary_Write PortIdentity_codec (pn_PortIdentity t)
      @ binary_Write (PortStats_codec cu64) (pn_PortStats t)"
    by (simp add: assms(1) binary_Write_def PortStatsNP_codec_def)
  have d: "mgmtTLVDecoder (MgmtID (mg_TLV p)) = Some decode_PortStatsNP"
    by (simp add: assms(1,2) MgmtID_def)
  have "decode_PortStatsNP (MgmtTLV_Write (mg_TLV p) @ r) = Ok (PortStatsNP_TLV
    (t\<lparr>pn_PortStats := \<lparr>ps_RXMsgType = map bswap64 (ps_RXMsgType (pn_PortStats t)),
       ps_TXMsgType = map bswap64 (ps_TXMsgType (pn_PortStats t))\<rparr>\<rparr>))"
    by (simp add: w decode_PortStatsNP_def mgmt_tlv_head.read_write port_identity.read_write
        PortStats_swap [OF assms(3,4)])
  then have "Management_UnmarshalBinary mgmtTLVDecoder (bs @ r) = Ok (p\<lparr>mg_TLV := PortStatsNP_TLV
    (t\<lparr>pn_PortStats := \<lparr>ps_RXMsgType = map bswap64 (ps_RXMsgType (pn_PortStats t)),
       ps_TXMsgType = map bswap64 (ps_TXMsgType (pn_PortStats t))\<rparr>\<rparr>)\<rparr>)"
    using Management_Unmarshal_dispatch [of p mgmtTLVDecoder decode_PortStatsNP r] d assms(1,2,5)
    by (simp add: Management_MarshalBinary_def is_custom_def)
  then show ?thesis by (simp add: decodeMgmtPacket_def)
qed

definition example_PortStats :: Management where
  "example_PortStats =
     \<lparr>mg_ManagementMsgHead = request_head 7 326,
      mg_TLV = PortStatsNP_TLV
        \<lparr>pn_ManagementTLVHead = \<lparr>mt_TLVHead = \<lparr>th_TLVType = TLVManagement, th_LengthField = 274\<rparr>,
           mt_ManagementID = IDPortStatsNP\<rparr>,
         pn_PortIdentity = identity 7,
         pn_PortStats = \<lparr>ps_RXMsgType = replicate 16 1, ps_TXMsgType = replicate 16 0\<rparr>\<rparr>\<rparr>"

lemma bswap64_one: "bswap64 1 = 0x0100000000000000"
  by (simp add: bswap64_def cu64_def be_val_be_bytes be_bytes_def be_val_def upt_rec)

theorem PortStatsNP_swapped_witness:
  "\<exists>q t. decodeMgmtPacket mgmtTLVDecoder (Management_MarshalBinaryTo example_PortStats [] @ []) =
      Ok (Mgmt_Management q) \<and> mg_TLV q = PortStatsNP_TLV t \<and>
      ps_RXMsgType (pn_PortStats t) = replicate 16 0x0100000000000000"
proof -
  define t where "t = \<lparr>pn_ManagementTLVHead =
      \<lparr>mt_TLVHead = \<lparr>th_TLVType = TLVManagement, th_LengthField = 274\<rparr>, mt_ManagementID = IDPortStatsNP\<rparr>,
      pn_PortIdentity = identity 7,
      pn_PortStats = \<lparr>ps_RXMsgType = replicate 16 1, ps_TXMsgType = replicate 16 0\<rparr>\<rparr>"
  have "mg_TLV example_PortStats = PortStatsNP_TLV t"
    by (simp add: example_PortStats_def t_def)
  from PortStatsNP_swapped [OF this, of 274 "Management_MarshalBinaryTo example_PortStats []" "[]"]
  show ?thesis
    by (simp add: t_def Management_MarshalBinary_def bswap64_one)
qed

section \<open>The error status message\<close>

definition error_status_ok :: "ManagementMsgErrorStatus \<Rightarrow> bool" where
  "error_status_ok p \<longleftrightarrow>
     (let t = me_ManagementErrorStatusTLV p;
          len = unat (h_MessageLength (mh_Header (me_ManagementMsgHead p))) in
      th_TLVType (es_TLVHead t) = TLVManagementErrorStatus \<and>
      (if es_DisplayData t = [] then len = 60 else 60 < len))"

interpretation quad_codec: fixed_codec cu32
  by unfold_locales (rule wf_cu)

lemma wrap_err_Ok [simp]: "wrap_err m (Ok x) = Ok x"
  by (simp add: wrap_err_def)

lemma ErrorStatus_UnmarshalBinary_fields:
  "ErrorStatus_UnmarshalBinary (binary_Write ManagementMsgHead_codec h @ binary_Write TLVHead_codec th
     @ binary_Write cu16 e @ binary_Write cu16 i @ binary_Write cu32 v @ r) =
   (let p = (\<lambda>dd. \<lparr>me_ManagementMsgHead = h, me_ManagementErrorStatusTLV =
         \<lparr>es_TLVHead = th, es_ManagementErrorID = e, es_ManagementID = i, es_Reserved = v,
          es_DisplayData = dd\<rparr>\<rparr>)
    in if r = [] \<or> unat (h_MessageLength (mh_Header h)) \<le> 60 then Ok (p [])
       else bind_res (wrap_err ''reading ManagementMsgErrorStatus DisplayData: %w''
         (PTPText_UnmarshalBinary [] r)) (\<lambda>dd. Ok (p dd)))"
proof -
  have "(int (unat (h_MessageLength (mh_Header h))) - 60 \<le> 0) =
      (unat (h_MessageLength (mh_Header h)) \<le> 60)" by linarith
  then show ?thesis
    by (simp add: ErrorStatus_UnmarshalBinary_def mgmt_head.read_write tlv_head.read_write
        short_codec.read_write quad_codec.read_write Let_def read_full_def)
qed

lemma PTPText_unmarshal_marshal:
  assumes "PTPText_MarshalBinary p = Ok bs"
  shows "PTPText_UnmarshalBinary [] (bs @ rest) = Ok p \<and> bs \<noteq> []"
  using PTPText_unmarshal [OF assms] assms by (auto simp: PTPText_MarshalBinary_def Let_def split: if_splits)

lemma ErrorStatus_decoded:
  assumes "error_status_ok p" and "ErrorStatus_MarshalBinary p = Ok bs"
  shows "decodeMgmtPacket decoders (bs @ r) = Ok (Mgmt_ErrorStatus p)"
proof -
  obtain h th e i v dd where p: "p = \<lparr>me_ManagementMsgHead = h, me_ManagementErrorStatusTLV =
      \<lparr>es_TLVHead = th, es_ManagementErrorID = e, es_ManagementID = i, es_Reserved = v,
       es_DisplayData = dd\<rparr>\<rparr>"
    by (metis ManagementMsgErrorStatus.surjective ManagementErrorStatusTLV.surjective old.unit.exhaust)
  define w where "w = binary_Write ManagementMsgHead_codec h @ binary_Write TLVHead_codec th
    @ binary_Write cu16 e @ binary_Write cu16 i @ binary_Write cu32 v"
  obtain d where bs: "bs = w @ d" and d: "dd = [] \<and> d = [] \<or> PTPText_MarshalBinary dd = Ok d"
      and dl: "dd \<noteq> [] \<Longrightarrow> PTPText_MarshalBinary dd = Ok d"
    using assms(2) by (cases "PTPText_MarshalBinary dd")
      (auto simp: ErrorStatus_MarshalBinary_def ErrorStatus_MarshalBinaryTo_def p w_def Let_def
        wrap_err_def split: if_splits goerr.splits)
  have t: "th_TLVType th = TLVManagementErrorStatus"
    using assms(1) by (simp add: error_status_ok_def p Let_def)
  have "Management_UnmarshalBinary decoders (bs @ r) = Err ErrManagementMsgErrorStatus"
    using t by (simp add: Management_UnmarshalBinary_def bs w_def mgmt_head.read_write tlv_head.read_write)
  moreover have "ErrorStatus_UnmarshalBinary (w @ d @ r) = Ok p"
  proof (cases "dd = []")
    case True
    with assms(1) show ?thesis
      by (simp add: w_def ErrorStatus_UnmarshalBinary_fields error_status_ok_def p Let_def)
  next
    case False
    with assms(1) PTPText_unmarshal_marshal [OF dl [OF False], of r] show ?thesis
      by (simp add: w_def ErrorStatus_UnmarshalBinary_fields error_status_ok_def p Let_def)
  qed
  ultimately show ?thesis by (simp add: decodeMgmtPacket_def bs)
qed

text \<open>
  An error status message whose length field covers its display text comes back from
  \<open>decodeMgmtPacket\<close> as that error, text included, whatever decoders are registered.
\<close>
theorem ErrorStatus_roundtrip:
  assumes "error_status_ok p" and "ErrorStatus_MarshalBinary p = Ok bs"
  shows "decodeMgmtPacket decoders (bs @ r) = Ok (Mgmt_ErrorStatus p)"
  using assms by (rule ErrorStatus_decoded)

definition example_ErrorStatus :: ManagementMsgErrorStatus where
  "example_ErrorStatus =
     \<lparr>me_ManagementMsgHead = request_head 7 64, me_ManagementErrorStatusTLV =
        \<lparr>es_TLVHead = \<lparr>th_TLVType = TLVManagementErrorStatus, th_LengthField = 10\<rparr>,
         es_ManagementErrorID = ErrorNotSupported, es_ManagementID = IDPortDataSet, es_Reserved = 0,
         es_DisplayData = [110, 111]\<rparr>\<rparr>"

theorem ErrorStatus_roundtrip_witness:
  "\<exists>bs. ErrorStatus_MarshalBinary example_ErrorStatus = Ok bs \<and>
     decodeMgmtPacket mgmtTLVDecoder (bs @ [0, 0]) = Ok (Mgmt_ErrorStatus example_ErrorStatus)"
proof -
  have "error_status_ok example_ErrorStatus"
    by (simp add: error_status_ok_def example_ErrorStatus_def request_head_def)
  moreover obtain bs where "ErrorStatus_MarshalBinary example_ErrorStatus = Ok bs"
    by (simp add: ErrorStatus_MarshalBinary_def ErrorStatus_MarshalBinaryTo_def
        PTPText_MarshalBinary_def example_ErrorStatus_def Let_def)
  ultimately show ?thesis using ErrorStatus_roundtrip by blast
qed

section \<open>The client\<close>

text \<open>
  Each of the five request constructors states the length of the message it encodes to, and gives
  its TLV the management type and the length of what follows the TLV head.
\<close>
theorem requests_well_formed:
  "\<forall>p \<in> {CurrentDataSetRequest pid, DefaultDataSetRequest pid, ParentDataSetRequest pid,
        PortStatsNPRequest pid, TimeStatusNPRequest pid}.
     length (Management_MarshalBinaryTo p []) = unat (h_MessageLength (mh_Header (mg_ManagementMsgHead p))) \<and>
     th_TLVType (mt_TLVHead (MgmtTLV_head (mg_TLV p))) = TLVManagement \<and>
     length (MgmtTLV_Write (mg_TLV p)) = 4 + unat (th_LengthField (mt_TLVHead (MgmtTLV_head (mg_TLV p)))) \<and>
     Header_MessageType (mh_Header (mg_ManagementMsgHead p)) = MessageManagement"
  by (simp add: CurrentDataSetRequest_def DefaultDataSetRequest_def ParentDataSetRequest_def
      PortStatsNPRequest_def TimeStatusNPRequest_def Management_MarshalBinaryTo_def request_head_def
      mgmt_head.length_write current_tlv.length_write default_tlv.length_write parent_tlv.length_write
      mgmt_tlv_head.length_write Header_MessageType_def MsgType_def NewSdoIDAndMsgType_def)

theorem requests_well_formed_witness:
  "length (Management_MarshalBinaryTo (ParentDataSetRequest 7) []) =
     unat (h_MessageLength (mh_Header (mg_ManagementMsgHead (ParentDataSetRequest 7))))"
  using requests_well_formed [of 7] by blast

text \<open>
  A query of the client advances the sequence number by one, wrapping at \<open>2^16\<close>, sends exactly the
  request with that number, and returns the daemon's TLV when the reply carries one of the kind asked
  for.
\<close>
theorem DefaultDataSet_query:
  assumes "decodeMgmtPacket decoders (take 1024 response) = Ok (Mgmt_Management m)"
    and "mg_TLV m = Default_TLV t"
  shows "DefaultDataSet decoders None (Ok response) pid c =
    (c\<lparr>mc_Sequence := mc_Sequence c + 1,
       mc_Sent := mc_Sent c @ [Management_MarshalBinaryTo
         (Management_SetSequence (mc_Sequence c + 1) (DefaultDataSetRequest pid)) []]\<rparr>, Ok t)"
  using assms by (simp add: DefaultDataSet_def Communicate_def SendPacket_def
      Management_MarshalBinary_def Let_def)

lemma DefaultDataSetRequest_reply:
  "decodeMgmtPacket mgmtTLVDecoder (take 1024 (Management_MarshalBinaryTo (DefaultDataSetRequest 7) []))
     = Ok (Mgmt_Management (DefaultDataSetRequest 7))"
proof -
  let ?p = "DefaultDataSetRequest 7"
  have "length (Management_MarshalBinaryTo ?p []) = 74"
    by (simp add: DefaultDataSetRequest_def Management_MarshalBinaryTo_def mgmt_head.length_write
        default_tlv.length_write)
  moreover have "decodeMgmtPacket mgmtTLVDecoder (Management_MarshalBinaryTo ?p [] @ []) =
      Ok (Mgmt_Management ?p)"
    by (rule decode_marshalled) (simp_all add: DefaultDataSetRequest_def)
  ultimately show ?thesis by simp
qed

theorem DefaultDataSet_query_witness:
  "\<exists>t. snd (DefaultDataSet mgmtTLVDecoder None
      (Ok (Management_MarshalBinaryTo (DefaultDataSetRequest 7) [])) 7 \<lparr>mc_Sequence = 65535, mc_Sent = []\<rparr>) = Ok t \<and>
    mc_Sequence (fst (DefaultDataSet mgmtTLVDecoder None
      (Ok (Management_MarshalBinaryTo (DefaultDataSetRequest 7) [])) 7 \<lparr>mc_Sequence = 65535, mc_Sent = []\<rparr>)) = 0"
proof -
  obtain t where "mg_TLV (DefaultDataSetRequest 7) = Default_TLV t"
    by (simp add: DefaultDataSetRequest_def Let_def)
  from DefaultDataSet_query [OF DefaultDataSetRequest_reply this] show ?thesis by simp
qed

lemma decodeMgmt_panic_free:
  assumes "\<forall>i dec data. decoders i = Some dec \<longrightarrow> dec data \<noteq> Inl Panic"
  shows "decodeMgmtPacket decoders data \<noteq> Inl Panic"
proof -
  have "Management_UnmarshalBinary decoders data \<noteq> Inl Panic"
    using assms by (auto simp: Management_UnmarshalBinary_def bind_res_def binary_Read_def read_full_def
        split: sum.splits if_splits option.splits)
  moreover have "ErrorStatus_UnmarshalBinary data \<noteq> Inl Panic"
    by (auto simp: ErrorStatus_UnmarshalBinary_def PTPText_UnmarshalBinary_def wrap_err_def bind_res_def
        binary_Read_def read_full_def Let_def split: sum.splits if_splits goerr.splits)
  ultimately show ?thesis
    by (auto simp: decodeMgmtPacket_def wrap_err_def bind_res_def split: sum.splits goerr.splits)
qed

text \<open>
  Decoding a management packet never panics, whatever the bytes, as long as no registered decoder
  does.
\<close>
theorem decodeMgmtPacket_no_panic:
  assumes "\<forall>i dec data. decoders i = Some dec \<longrightarrow> dec data \<noteq> Inl Panic"
  shows "decodeMgmtPacket decoders data \<noteq> Inl Panic"
  using assms by (rule decodeMgmt_panic_free)

lemma builtin_decoders_panic_free:
  "\<forall>i dec data. mgmtTLVDecoder i = Some dec \<longrightarrow> dec data \<noteq> Inl Panic"
  by (auto simp: mgmtTLVDecoder_def read_tlv_def decode_PortStatsNP_def bind_res_def binary_Read_def
      read_full_def split: sum.splits if_splits)

theorem decodeMgmtPacket_no_panic_witness:
  "decodeMgmtPacket mgmtTLVDecoder [0xD, 2, 0, 0] \<noteq> Inl Panic"
  using builtin_decoders_panic_free by (rule decodeMgmtPacket_no_panic)

end
