(* ===== verification/PTP_Decode.thy ===== *)
theory PTP_Decode
  imports PTP_Unicast PTP_Management
begin

text \<open>
  \<open>DecodePacket\<close> of \<open>ptp/protocol/protocol.go\<close>, the single entry point that turns the payload of a
  datagram into a packet, over all packet types of the protocol, and its inverse \<open>Bytes\<close>. A value of
  the \<open>Packet\<close> interface is a \<open>Packet\<close> of the datatype below, one constructor per concrete type.
\<close>

datatype Packet =
    P_SyncDelayReq SyncDelayReq
  | P_PDelayReq PDelayReq
  | P_PDelayResp PDelayResp
  | P_FollowUp FollowUp
  | P_DelayResp DelayResp
  | P_PDelayRespFollowUp PDelayRespFollowUp
  | P_Announce Announce
  | P_Signaling Signaling
  | P_Management Management
  | P_ErrorStatus ManagementMsgErrorStatus

fun Packet_Header :: "Packet \<Rightarrow> Header" where
  "Packet_Header (P_SyncDelayReq p) = sd_Header p"
| "Packet_Header (P_PDelayReq p) = pq_Header p"
| "Packet_Header (P_PDelayResp p) = pr_Header p"
| "Packet_Header (P_FollowUp p) = fu_Header p"
| "Packet_Header (P_DelayResp p) = dr_Header p"
| "Packet_Header (P_PDelayRespFollowUp p) = pf_Header p"
| "Packet_Header (P_Announce p) = an_Header p"
| "Packet_Header (P_Signaling p) = sg_Header p"
| "Packet_Header (P_Management p) = mh_Header (mg_ManagementMsgHead p)"
| "Packet_Header (P_ErrorStatus p) = mh_Header (me_ManagementMsgHead p)"

definition Packet_MessageType :: "Packet \<Rightarrow> MessageType" where
  "Packet_MessageType p = Header_MessageType (Packet_Header p)"

text \<open>\<open>Bytes\<close> on a packet: the types with a \<open>MarshalBinary\<close> method use it, the others reflection.\<close>

fun Packet_Bytes :: "Packet \<Rightarrow> bytes res" where
  "Packet_Bytes (P_SyncDelayReq p) = Bytes (MarshalBinary SyncDelayReq_MarshalBinary) p"
| "Packet_Bytes (P_PDelayReq p) = Bytes (ReflectWrite PDelayReq_codec) p"
| "Packet_Bytes (P_PDelayResp p) = Bytes (ReflectWrite PDelayResp_codec) p"
| "Packet_Bytes (P_FollowUp p) = Bytes (MarshalBinary FollowUp_MarshalBinary) p"
| "Packet_Bytes (P_DelayResp p) = Bytes (MarshalBinary DelayResp_MarshalBinary) p"
| "Packet_Bytes (P_PDelayRespFollowUp p) = Bytes (ReflectWrite PDelayRespFollowUp_codec) p"
| "Packet_Bytes (P_Announce p) = Bytes (MarshalBinary Announce_MarshalBinary) p"
| "Packet_Bytes (P_Signaling p) = Bytes (MarshalBinary Signaling_MarshalBinary) p"
| "Packet_Bytes (P_Management p) = Bytes (MarshalBinary Management_MarshalBinary) p"
| "Packet_Bytes (P_ErrorStatus p) = Bytes (MarshalBinary ErrorStatus_MarshalBinary) p"

definition map_res :: "('a \<Rightarrow> 'b) \<Rightarrow> 'a res \<Rightarrow> 'b res" where
  "map_res f r = bind_res r (\<lambda>x. Ok (f x))"

lemma map_res_simps [simp]: "map_res f (Inl e) = Inl e" "map_res f (Inr x) = Ok (f x)"
  by (simp_all add: map_res_def)

lemma map_res_Ok_iff: "map_res f r = Ok y \<longleftrightarrow> (\<exists>x. r = Ok x \<and> y = f x)"
  by (cases r) auto

lemma map_res_Panic_iff: "map_res f r = Inl Panic \<longleftrightarrow> r = Inl Panic"
  by (cases r) auto

definition mgmt_to_Packet :: "mgmt_packet \<Rightarrow> Packet" where
  "mgmt_to_Packet m = (case m of Mgmt_Management p \<Rightarrow> P_Management p | Mgmt_ErrorStatus p \<Rightarrow> P_ErrorStatus p)"

definition DecodePacket :: "mgmt_decoders \<Rightarrow> bytes \<Rightarrow> Packet res" where
  "DecodePacket decoders b =
     bind_res (binary_Read Header_codec b) (\<lambda>(head, _).
     let msgType = Header_MessageType head in
     if msgType = MessageSync \<or> msgType = MessageDelayReq then
       map_res P_SyncDelayReq (FromBytes (UnmarshalBinary SyncDelayReq_UnmarshalBinary) b)
     else if msgType = MessagePDelayReq then
       map_res P_PDelayReq (FromBytes (ReflectRead PDelayReq_codec) b)
     else if msgType = MessagePDelayResp then
       map_res P_PDelayResp (FromBytes (ReflectRead PDelayResp_codec) b)
     else if msgType = MessageFollowUp then
       map_res P_FollowUp (FromBytes (UnmarshalBinary FollowUp_UnmarshalBinary) b)
     else if msgType = MessageDelayResp then
       map_res P_DelayResp (FromBytes (UnmarshalBinary DelayResp_UnmarshalBinary) b)
     else if msgType = MessagePDelayRespFollowUp then
       map_res P_PDelayRespFollowUp (FromBytes (ReflectRead PDelayRespFollowUp_codec) b)
     else if msgType = MessageAnnounce then
       map_res P_Announce (FromBytes (ReflectRead Announce_codec) b)
     else if msgType = MessageSignaling then
       map_res P_Signaling (FromBytes (UnmarshalBinary (Signaling_UnmarshalBinary [])) b)
     else if msgType = MessageManagement then
       map_res mgmt_to_Packet (decodeMgmtPacket decoders b)
     else Err ''unsupported type %s'')"

section \<open>Well-formed packets\<close>

text \<open>
  The packets the program sends: the header names the packet's type, fixed arrays have their length,
  and the variable-size packets state their length.
\<close>

fun packet_ok :: "Packet \<Rightarrow> bool" where
  "packet_ok (P_SyncDelayReq p) \<longleftrightarrow> Header_MessageType (sd_Header p) \<in> {MessageSync, MessageDelayReq} \<and>
     cok SyncDelayReq_codec p"
| "packet_ok (P_PDelayReq p) \<longleftrightarrow> Header_MessageType (pq_Header p) = MessagePDelayReq \<and>
     cok PDelayReq_codec p"
| "packet_ok (P_PDelayResp p) \<longleftrightarrow> Header_MessageType (pr_Header p) = MessagePDelayResp \<and>
     cok PDelayResp_codec p"
| "packet_ok (P_FollowUp p) \<longleftrightarrow> Header_MessageType (fu_Header p) = MessageFollowUp \<and> cok FollowUp_codec p"
| "packet_ok (P_DelayResp p) \<longleftrightarrow> Header_MessageType (dr_Header p) = MessageDelayResp \<and>
     cok DelayResp_codec p"
| "packet_ok (P_PDelayRespFollowUp p) \<longleftrightarrow>
     Header_MessageType (pf_Header p) = MessagePDelayRespFollowUp \<and> cok PDelayRespFollowUp_codec p"
| "packet_ok (P_Announce p) \<longleftrightarrow> Header_MessageType (an_Header p) = MessageAnnounce \<and> cok Announce_codec p"
| "packet_ok (P_Signaling p) \<longleftrightarrow> signaling_ok p \<and> length (Signaling_bytes p) \<le> 200"
| "packet_ok (P_Management p) \<longleftrightarrow>
     Header_MessageType (mh_Header (mg_ManagementMsgHead p)) = MessageManagement \<and>
     mgmt_tlv_ok (mg_TLV p) \<and> th_TLVType (mt_TLVHead (MgmtTLV_head (mg_TLV p))) = TLVManagement"
| "packet_ok (P_ErrorStatus p) \<longleftrightarrow>
     Header_MessageType (mh_Header (me_ManagementMsgHead p)) = MessageManagement \<and>
     error_status_ok p \<and> length (es_DisplayData (me_ManagementErrorStatusTLV p)) \<le> 255"

text \<open>The encoding of a well-formed packet exists and starts with its header.\<close>

definition encoding :: "Packet \<Rightarrow> bytes \<Rightarrow> bool" where
  "encoding p bs \<longleftrightarrow> Packet_Bytes p = Ok bs \<and> (\<exists>r. bs = cenc Header_codec (Packet_Header p) @ r)"

lemma encodingI: "Packet_Bytes p = Ok bs \<Longrightarrow> bs = cenc Header_codec (Packet_Header p) @ r \<Longrightarrow> encoding p bs"
  by (auto simp: encoding_def)

lemma marshalled_packets:
  assumes "cok SyncDelayReq_codec s"
  shows "SyncDelayReq_MarshalBinary s = Ok (binary_Write SyncDelayReq_codec s)"
  using assms unfolding SyncDelayReq_MarshalBinary_def by (rule sync_m.marshal_in_enough) simp

lemma marshalled_FollowUp:
  "cok FollowUp_codec f \<Longrightarrow> FollowUp_MarshalBinary f = Ok (binary_Write FollowUp_codec f)"
  unfolding FollowUp_MarshalBinary_def by (rule followup_m.marshal_in_enough) simp_all

lemma marshalled_DelayResp:
  "cok DelayResp_codec d \<Longrightarrow> DelayResp_MarshalBinary d = Ok (binary_Write DelayResp_codec d)"
  unfolding DelayResp_MarshalBinary_def by (rule delayresp_m.marshal_in_enough) simp_all

lemma marshalled_Announce:
  "cok Announce_codec a \<Longrightarrow> Announce_MarshalBinary a = Ok (binary_Write Announce_codec a)"
  unfolding Announce_MarshalBinary_def by (rule announce_m.marshal_in_enough) simp_all

lemma marshalled_Signaling:
  "sg_TLVs p \<noteq> [] \<Longrightarrow> length (Signaling_bytes p) \<le> 200 \<Longrightarrow>
   Signaling_MarshalBinary p = Ok (Signaling_bytes p)"
  using Signaling_marshal_enough [of p "replicate 200 0"]
  by (simp add: Signaling_MarshalBinary_def marshal_in_def)

lemmas marshalled = marshalled_packets marshalled_FollowUp marshalled_DelayResp marshalled_Announce
  marshalled_Signaling

lemma mgmt_header_first:
  "cenc ManagementMsgHead_codec m = cenc Header_codec (mh_Header m) @ drop 34 (cenc ManagementMsgHead_codec m)"
  by (simp add: ManagementMsgHead_codec_def)

lemma ErrorStatus_marshal_ok:
  assumes "length (es_DisplayData (me_ManagementErrorStatusTLV p)) \<le> 255"
  shows "\<exists>r. ErrorStatus_MarshalBinary p = Ok (cenc ManagementMsgHead_codec (me_ManagementMsgHead p) @ r)"
  using assms by (simp add: ErrorStatus_MarshalBinary_def ErrorStatus_MarshalBinaryTo_def
      PTPText_MarshalBinary_def binary_Write_def Let_def)

lemma packet_encoding:
  assumes "packet_ok p"
  shows "\<exists>bs. encoding p bs"
proof (cases p)
  case (P_ErrorStatus e)
  then obtain r where "ErrorStatus_MarshalBinary e = Ok (cenc ManagementMsgHead_codec (me_ManagementMsgHead e) @ r)"
    using assms ErrorStatus_marshal_ok [of e] by auto
  with P_ErrorStatus have "Packet_Bytes p =
      Ok (cenc ManagementMsgHead_codec (me_ManagementMsgHead e) @ r @ twoZeros)" by simp
  moreover have "cenc ManagementMsgHead_codec (me_ManagementMsgHead e) @ r @ twoZeros =
      cenc Header_codec (Packet_Header p) @
        (drop 34 (cenc ManagementMsgHead_codec (me_ManagementMsgHead e)) @ r @ twoZeros)"
    using mgmt_header_first [of "me_ManagementMsgHead e"] P_ErrorStatus
    by (metis append_assoc Packet_Header.simps(10))
  ultimately show ?thesis by (blast intro: encodingI)
qed (use assms in \<open>auto simp: encoding_def marshalled signaling_ok_def binary_Write_def
      Signaling_bytes_def Management_MarshalBinary_def Management_MarshalBinaryTo_def
      SyncDelayReq_codec_def FollowUp_codec_def DelayResp_codec_def Announce_codec_def
      PDelayReq_codec_def PDelayResp_codec_def PDelayRespFollowUp_codec_def
      ManagementMsgHead_codec_def\<close>)

section \<open>Properties of DecodePacket\<close>

lemma read_encoding:
  assumes "encoding p bs"
  shows "\<exists>r. binary_Read Header_codec bs = Ok (Packet_Header p, r)"
  using assms ptp_header.read_write [of "Packet_Header p"]
  by (auto simp: encoding_def binary_Write_def)

interpretation pdelay_req: fixed_codec PDelayReq_codec
  by unfold_locales (rule wf_codecs)

interpretation pdelay_resp: fixed_codec PDelayResp_codec
  by unfold_locales (rule wf_codecs)

interpretation pdelay_fup: fixed_codec PDelayRespFollowUp_codec
  by unfold_locales (rule wf_codecs)

interpretation announce_c: fixed_codec Announce_codec
  by unfold_locales (rule wf_codecs)

lemma decode_body:
  assumes "packet_ok p" and "Packet_Bytes p = Ok bs"
  shows "case p of
      P_SyncDelayReq x \<Rightarrow> SyncDelayReq_UnmarshalBinary bs = Ok x
    | P_PDelayReq x \<Rightarrow> FromBytes (ReflectRead PDelayReq_codec) bs = Ok x
    | P_PDelayResp x \<Rightarrow> FromBytes (ReflectRead PDelayResp_codec) bs = Ok x
    | P_FollowUp x \<Rightarrow> FollowUp_UnmarshalBinary bs = Ok x
    | P_DelayResp x \<Rightarrow> DelayResp_UnmarshalBinary bs = Ok x
    | P_PDelayRespFollowUp x \<Rightarrow> FromBytes (ReflectRead PDelayRespFollowUp_codec) bs = Ok x
    | P_Announce x \<Rightarrow> FromBytes (ReflectRead Announce_codec) bs = Ok x
    | P_Signaling x \<Rightarrow> Signaling_UnmarshalBinary [] bs = Ok x
    | P_Management x \<Rightarrow> decodeMgmtPacket mgmtTLVDecoder bs = Ok (Mgmt_Management x)
    | P_ErrorStatus x \<Rightarrow> decodeMgmtPacket mgmtTLVDecoder bs = Ok (Mgmt_ErrorStatus x)"
proof (cases p)
  case (P_ErrorStatus e)
  then obtain b where "ErrorStatus_MarshalBinary e = Ok b" "bs = b @ twoZeros"
    using assms(2) by (auto simp: bind_res_Ok_iff)
  with P_ErrorStatus assms(1) ErrorStatus_decoded [of e b mgmtTLVDecoder twoZeros] show ?thesis by simp
qed (use assms in \<open>auto simp: marshalled sync_u.unmarshal_write followup_u.unmarshal_write
      delayresp_u.unmarshal_write pdelay_req.read_write pdelay_resp.read_write pdelay_fup.read_write
      announce_c.read_write Signaling_unmarshal_bytes signaling_ok_def decode_marshalled
      Management_MarshalBinary_def simp del: cok_packets\<close>)

lemma decode_packet_bytes:
  assumes "packet_ok p"
  shows "\<exists>bs. Packet_Bytes p = Ok bs \<and> DecodePacket mgmtTLVDecoder bs = Ok p"
proof -
  obtain bs r where bs: "Packet_Bytes p = Ok bs" "binary_Read Header_codec bs = Ok (Packet_Header p, r)"
    using packet_encoding [OF assms] read_encoding by (fastforce simp: encoding_def)
  have "DecodePacket mgmtTLVDecoder bs = Ok p"
    using decode_body [OF assms bs(1)] assms bs(2)
    by (cases p) (auto simp: DecodePacket_def mgmt_to_Packet_def signaling_ok_def)
  with bs show ?thesis by blast
qed



lemma panic_free_reads:
  "FromBytes (ReflectRead c) b \<noteq> Inl Panic"
  by (auto simp: binary_Read_def read_full_def)

text \<open>
  \<open>DecodePacket\<close> panics on no input except a Signaling packet: for every other message type a
  malformed datagram is an error.
\<close>
theorem DecodePacket_no_panic:
  assumes "DecodePacket mgmtTLVDecoder b = Inl Panic"
  shows "\<exists>h r. binary_Read Header_codec b = Ok (h, r) \<and> Header_MessageType h = MessageSignaling"
proof -
  have "decodeMgmtPacket mgmtTLVDecoder b \<noteq> Inl Panic"
    using builtin_decoders_panic_free by (rule decodeMgmt_panic_free)
  moreover obtain h r where "binary_Read Header_codec b = Ok (h, r)"
    using assms by (cases "binary_Read Header_codec b")
      (auto simp: DecodePacket_def binary_Read_def read_full_def split: if_splits)
  ultimately show ?thesis
    using assms sync_u.unmarshal_no_panic followup_u.unmarshal_no_panic
      delayresp_u.unmarshal_no_panic
    by (auto simp: DecodePacket_def map_res_Panic_iff panic_free_reads Let_def simp del: FromBytes.simps(2) split: if_splits)
qed

theorem DecodePacket_no_panic_witness:
  "\<exists>h r. binary_Read Header_codec example_truncated = Ok (h, r) \<and> Header_MessageType h = MessageSignaling"
proof (rule DecodePacket_no_panic)
  have "binary_Read Header_codec example_truncated = Ok (sg_Header example_Signaling,
      binary_Write PortIdentity_codec DefaultTargetPortIdentity @ [0, 4, 0, 6])"
    unfolding example_truncated_def by (rule ptp_header.read_write) simp
  moreover have "Header_MessageType (sg_Header example_Signaling) = MessageSignaling"
    by (simp add: example_Signaling_def example_packet_defs Header_MessageType_def MsgType_def)
  ultimately show "DecodePacket mgmtTLVDecoder example_truncated = Inl Panic"
    by (simp add: DecodePacket_def example_truncated_panics)
qed

end
