(* ===== verification/PTP4u_Subscription.thy ===== *)
theory PTP4u_Subscription
  imports PTP_Decode Timestamping
begin

text \<open>
  \<open>ptp/ptp4u/server/config.go\<close> and \<open>subscription.go\<close>: the server configuration and a subscription of a
  client, with the five packets it owns. The packets are built once by the \<open>init\<close> methods and updated
  in place before each send; \<open>sub_ok\<close> is the invariant every update keeps, and what it promises is that
  each packet the subscription ever hands to a worker is well formed.
\<close>

section \<open>Configuration\<close>

record Config =
  cf_DSCP :: int
  cf_Interface :: string
  cf_IP :: netIP
  cf_LogLevel :: string
  cf_MaxSubDuration :: duration
  cf_MetricInterval :: duration
  cf_MinSubInterval :: duration
  cf_MonitoringPort :: int
  cf_SHM :: bool
  cf_TimestampType :: string
  cf_UTCOffset :: duration
  cf_SendWorkers :: int
  cf_RecvWorkers :: int
  cf_QueueSize :: nat
  cf_clockIdentity :: ClockIdentity

text \<open>\<open>phc.Time\<close> and \<open>shm.Time\<close> are the outcomes of reading the two clocks.\<close>

definition SetUTCOffsetFromSHM :: "gotime res \<Rightarrow> gotime res \<Rightarrow> Config \<Rightarrow> Config \<times> unit res" where
  "SetUTCOffsetFromSHM phcTime shmTime c =
     (case phcTime of
        Inl e \<Rightarrow> (c, Inl e)
      | Inr p \<Rightarrow>
          (case shmTime of
             Inl e \<Rightarrow> (c, Inl e)
           | Inr t \<Rightarrow>
               let uo = dur_Round (t_Sub p t) second in
               if uo < 30 * second \<or> 50 * second < uo
               then (c, Err ''shm (%s) and phc (%s) times are too far away: %s'')
               else (c\<lparr>cf_UTCOffset := uo\<rparr>, Ok ())))"

definition IPv6zero :: netIP where "IPv6zero = replicate 16 0"
definition IPv4zero :: netIP where "IPv4zero = v4InV6Prefix @ [0, 0, 0, 0]"

definition ifaceIPs :: "netIP list res \<Rightarrow> netIP list res" where
  "ifaceIPs addrs = bind_res addrs (\<lambda>ips. Ok (ips @ [IPv6zero] @ [IPv4zero]))"

definition IfaceHasIP :: "netIP list res \<Rightarrow> Config \<Rightarrow> bool res" where
  "IfaceHasIP addrs c = bind_res (ifaceIPs addrs) (\<lambda>ips. Ok (list_ex (IP_Equal (cf_IP c)) ips))"

section \<open>Subscriptions\<close>

text \<open>The queue a subscription feeds is that of a worker, known by its index.\<close>

record SubscriptionClient =
  sc_queue :: nat
  sc_subscriptionType :: MessageType
  sc_interval :: duration
  sc_expire :: gotime
  sc_sequenceID :: u16
  sc_running :: bool
  sc_eclisa :: Sockaddr
  sc_gclisa :: Sockaddr
  sc_syncP :: SyncDelayReq
  sc_followupP :: FollowUp
  sc_announceP :: Announce
  sc_delayRespP :: DelayResp
  sc_grant :: Signaling

definition server_port :: "Config \<Rightarrow> PortIdentity" where
  "server_port c = \<lparr>pi_ClockIdentity = cf_clockIdentity c, pi_PortNumber = 1\<rparr>"

definition initSync :: "Config \<Rightarrow> SyncDelayReq" where
  "initSync c =
     \<lparr>sd_Header =
        \<lparr>h_SdoIDAndMsgType = NewSdoIDAndMsgType MessageSync 0, h_Version = Version,
         h_MessageLength = word_of_nat (csize SyncDelayReq_codec), h_DomainNumber = 0,
         h_MinorSdoID = 0, h_FlagField = FlagUnicast OR FlagTwoStep, h_CorrectionField = 0,
         h_MessageTypeSpecific = 0, h_SourcePortIdentity = server_port c, h_SequenceID = 0,
         h_ControlField = 0, h_LogMessageInterval = 0x7f\<rparr>,
      sd_SyncDelayReqBody = \<lparr>sb_OriginTimestamp = zero_Timestamp\<rparr>\<rparr>"

definition initFollowup :: "gotime \<Rightarrow> Config \<Rightarrow> FollowUp" where
  "initFollowup now c =
     \<lparr>fu_Header =
        \<lparr>h_SdoIDAndMsgType = NewSdoIDAndMsgType MessageFollowUp 0, h_Version = Version,
         h_MessageLength = word_of_nat (csize FollowUp_codec), h_DomainNumber = 0,
         h_MinorSdoID = 0, h_FlagField = FlagUnicast, h_CorrectionField = 0,
         h_MessageTypeSpecific = 0, h_SourcePortIdentity = server_port c, h_SequenceID = 0,
         h_ControlField = 2, h_LogMessageInterval = 0\<rparr>,
      fu_FollowUpBody = \<lparr>fb_PreciseOriginTimestamp = NewTimestamp now\<rparr>\<rparr>"

definition initAnnounce :: "Config \<Rightarrow> Announce" where
  "initAnnounce c =
     \<lparr>an_Header =
        \<lparr>h_SdoIDAndMsgType = NewSdoIDAndMsgType MessageAnnounce 0, h_Version = Version,
         h_MessageLength = word_of_nat (csize Announce_codec), h_DomainNumber = 0,
         h_MinorSdoID = 0, h_FlagField = FlagUnicast OR FlagPTPTimescale, h_CorrectionField = 0,
         h_MessageTypeSpecific = 0, h_SourcePortIdentity = server_port c, h_SequenceID = 0,
         h_ControlField = 5, h_LogMessageInterval = 0\<rparr>,
      an_AnnounceBody =
        \<lparr>ab_OriginTimestamp = zero_Timestamp, ab_CurrentUTCOffset = 0, ab_Reserved = 0,
         ab_GrandmasterPriority1 = 128,
         ab_GrandmasterClockQuality =
           \<lparr>cq_ClockClass = 6, cq_ClockAccuracy = 33, cq_OffsetScaledLogVariance = 23008\<rparr>,
         ab_GrandmasterPriority2 = 128, ab_GrandmasterIdentity = cf_clockIdentity c,
         ab_StepsRemoved = 0, ab_TimeSource = TimeSourceGNSS\<rparr>\<rparr>"

definition initDelayResp :: "Config \<Rightarrow> DelayResp" where
  "initDelayResp c =
     \<lparr>dr_Header =
        \<lparr>h_SdoIDAndMsgType = NewSdoIDAndMsgType MessageDelayResp 0, h_Version = Version,
         h_MessageLength = word_of_nat (csize DelayResp_codec), h_DomainNumber = 0,
         h_MinorSdoID = 0, h_FlagField = FlagUnicast, h_CorrectionField = 0,
         h_MessageTypeSpecific = 0, h_SourcePortIdentity = server_port c, h_SequenceID = 0,
         h_ControlField = 3, h_LogMessageInterval = 0x7f\<rparr>,
      dr_DelayRespBody =
        \<lparr>db_ReceiveTimestamp = zero_Timestamp,
         db_RequestingPortIdentity = \<lparr>pi_ClockIdentity = 0, pi_PortNumber = 0\<rparr>\<rparr>\<rparr>"

definition initGrant :: "Config \<Rightarrow> Signaling" where
  "initGrant c =
     \<lparr>sg_Header =
        \<lparr>h_SdoIDAndMsgType = 0, h_Version = Version,
         h_MessageLength = word_of_nat
           (csize Header_codec + csize PortIdentity_codec + csize Grant_codec),
         h_DomainNumber = 0, h_MinorSdoID = 0, h_FlagField = FlagUnicast, h_CorrectionField = 0,
         h_MessageTypeSpecific = 0, h_SourcePortIdentity = server_port c, h_SequenceID = 0,
         h_ControlField = 0, h_LogMessageInterval = 0\<rparr>,
      sg_TargetPortIdentity = \<lparr>pi_ClockIdentity = 0, pi_PortNumber = 0\<rparr>,
      sg_TLVs =
        [Grant_TLV \<lparr>gr_TLVHead = \<lparr>th_TLVType = TLVGrantUnicastTransmission,
             th_LengthField = word_of_nat (csize Grant_codec - csize TLVHead_codec)\<rparr>,
           gr_MsgTypeAndReserved = 0, gr_LogInterMessagePeriod = 0, gr_DurationField = 0,
           gr_Reserved = 0, gr_Renewal = 1\<rparr>]\<rparr>"

definition NewSubscriptionClient ::
  "nat \<Rightarrow> Sockaddr \<Rightarrow> Sockaddr \<Rightarrow> MessageType \<Rightarrow> Config \<Rightarrow> duration \<Rightarrow> gotime \<Rightarrow> gotime \<Rightarrow>
   SubscriptionClient" where
  "NewSubscriptionClient q eclisa gclisa st c i e now =
     \<lparr>sc_queue = q, sc_subscriptionType = st, sc_interval = i, sc_expire = e, sc_sequenceID = 0,
      sc_running = False, sc_eclisa = eclisa, sc_gclisa = gclisa,
      sc_syncP = initSync c, sc_followupP = initFollowup now c, sc_announceP = initAnnounce c,
      sc_delayRespP = initDelayResp c, sc_grant = initGrant c\<rparr>"

definition Expired :: "gotime \<Rightarrow> SubscriptionClient \<Rightarrow> bool" where
  "Expired now sc \<longleftrightarrow> t_After now (sc_expire sc)"

definition Stop :: "gotime \<Rightarrow> SubscriptionClient \<Rightarrow> SubscriptionClient" where
  "Stop now sc = sc\<lparr>sc_expire := now\<rparr>"

definition setRunning :: "bool \<Rightarrow> SubscriptionClient \<Rightarrow> SubscriptionClient" where
  "setRunning running sc = sc\<lparr>sc_running := running\<rparr>"

definition setExpire :: "gotime \<Rightarrow> SubscriptionClient \<Rightarrow> SubscriptionClient" where
  "setExpire expire sc = sc\<lparr>sc_expire := expire\<rparr>"

definition setInterval :: "duration \<Rightarrow> SubscriptionClient \<Rightarrow> SubscriptionClient" where
  "setInterval interval sc = sc\<lparr>sc_interval := interval\<rparr>"

definition Running :: "SubscriptionClient \<Rightarrow> bool" where
  "Running sc = sc_running sc"

definition IncSequenceID :: "SubscriptionClient \<Rightarrow> SubscriptionClient" where
  "IncSequenceID sc = sc\<lparr>sc_sequenceID := sc_sequenceID sc + 1\<rparr>"

definition UpdateSync :: "SubscriptionClient \<Rightarrow> SubscriptionClient" where
  "UpdateSync sc = sc\<lparr>sc_syncP := (sc_syncP sc)\<lparr>sd_Header :=
     SetSequence (sc_sequenceID sc) (sd_Header (sc_syncP sc))\<rparr>\<rparr>"

text \<open>The error of \<open>NewLogInterval\<close> is dropped; its value is then zero.\<close>

definition log_interval :: "f64_cvt \<Rightarrow> duration \<Rightarrow> LogInterval" where
  "log_interval cvt d = (case NewLogInterval cvt d of Inl _ \<Rightarrow> 0 | Inr i \<Rightarrow> i)"

definition UpdateFollowup :: "f64_cvt \<Rightarrow> gotime \<Rightarrow> SubscriptionClient \<Rightarrow> SubscriptionClient" where
  "UpdateFollowup cvt hwts sc = sc\<lparr>sc_followupP :=
     \<lparr>fu_Header = (fu_Header (sc_followupP sc))
        \<lparr>h_SequenceID := sc_sequenceID sc, h_LogMessageInterval := log_interval cvt (sc_interval sc)\<rparr>,
      fu_FollowUpBody = \<lparr>fb_PreciseOriginTimestamp = NewTimestamp hwts\<rparr>\<rparr>\<rparr>"

definition UpdateAnnounce :: "f64_cvt \<Rightarrow> Config \<Rightarrow> SubscriptionClient \<Rightarrow> SubscriptionClient" where
  "UpdateAnnounce cvt c sc = sc\<lparr>sc_announceP :=
     \<lparr>an_Header = (an_Header (sc_announceP sc))
        \<lparr>h_SequenceID := sc_sequenceID sc, h_LogMessageInterval := log_interval cvt (sc_interval sc)\<rparr>,
      an_AnnounceBody = (an_AnnounceBody (sc_announceP sc))
        \<lparr>ab_CurrentUTCOffset := word_of_int (dur_Seconds_int (cf_UTCOffset c))\<rparr>\<rparr>\<rparr>"

definition UpdateDelayResp :: "Header \<Rightarrow> gotime \<Rightarrow> SubscriptionClient \<Rightarrow> SubscriptionClient" where
  "UpdateDelayResp h received sc = sc\<lparr>sc_delayRespP :=
     \<lparr>dr_Header = (dr_Header (sc_delayRespP sc))
        \<lparr>h_SequenceID := h_SequenceID h, h_CorrectionField := h_CorrectionField h\<rparr>,
      dr_DelayRespBody = \<lparr>db_ReceiveTimestamp = NewTimestamp received,
        db_RequestingPortIdentity = h_SourcePortIdentity h\<rparr>\<rparr>\<rparr>"

definition UpdateGrant :: "Signaling \<Rightarrow> UnicastMsgTypeAndFlags \<Rightarrow> LogInterval \<Rightarrow> u32 \<Rightarrow>
    SubscriptionClient \<Rightarrow> SubscriptionClient res" where
  "UpdateGrant sg mt interval dur sc =
     (let g = sc_grant sc; r = sg_Header sg;
          h = (sg_Header g)\<lparr>h_SdoIDAndMsgType := h_SdoIDAndMsgType r, h_DomainNumber := h_DomainNumber r,
             h_MinorSdoID := h_MinorSdoID r, h_CorrectionField := h_CorrectionField r,
             h_MessageTypeSpecific := h_MessageTypeSpecific r, h_SequenceID := h_SequenceID r,
             h_ControlField := h_ControlField r, h_LogMessageInterval := h_LogMessageInterval r\<rparr>
      in case sg_TLVs g of
           Grant_TLV t # ts \<Rightarrow> Ok (sc\<lparr>sc_grant :=
             \<lparr>sg_Header = h, sg_TargetPortIdentity = h_SourcePortIdentity r,
              sg_TLVs = Grant_TLV (t\<lparr>gr_MsgTypeAndReserved := mt, gr_LogInterMessagePeriod := interval,
                gr_DurationField := dur\<rparr>) # ts\<rparr>\<rparr>)
         | _ \<Rightarrow> Inl Panic)"

section \<open>The invariant of a subscription\<close>

definition grant_shape :: "Signaling \<Rightarrow> bool" where
  "grant_shape g \<longleftrightarrow>
     h_MessageLength (sg_Header g) = 56 \<and>
     (\<exists>t. sg_TLVs g = [Grant_TLV t] \<and>
       gr_TLVHead t = \<lparr>th_TLVType = TLVGrantUnicastTransmission, th_LengthField = 8\<rparr>)"

definition sub_ok :: "SubscriptionClient \<Rightarrow> bool" where
  "sub_ok sc \<longleftrightarrow>
     packet_ok (P_SyncDelayReq (sc_syncP sc)) \<and>
     Header_MessageType (sd_Header (sc_syncP sc)) = MessageSync \<and> packet_ok (P_FollowUp (sc_followupP sc)) \<and>
     packet_ok (P_Announce (sc_announceP sc)) \<and> packet_ok (P_DelayResp (sc_delayRespP sc)) \<and>
     grant_shape (sc_grant sc)"

lemma zero_Timestamp_wf [simp]: "length (ts_Seconds zero_Timestamp) = 6"
  by (simp add: zero_Timestamp_def)

lemma sub_ok_new: "sub_ok (NewSubscriptionClient q e g st c i ex now)"
  by (simp add: sub_ok_def NewSubscriptionClient_def initSync_def initFollowup_def initAnnounce_def
      initDelayResp_def initGrant_def grant_shape_def Header_MessageType_def MsgType_def
      NewSdoIDAndMsgType_def)

lemma sub_ok_updates [simp]:
  assumes "sub_ok sc"
  shows "sub_ok (Stop now sc)" "sub_ok (setRunning r sc)" "sub_ok (setExpire e sc)"
    "sub_ok (setInterval i sc)" "sub_ok (IncSequenceID sc)" "sub_ok (UpdateSync sc)"
    "sub_ok (UpdateFollowup cvt t sc)" "sub_ok (UpdateAnnounce cvt c sc)"
    "sub_ok (UpdateDelayResp h t sc)"
  using assms by (simp_all add: sub_ok_def Stop_def setRunning_def setExpire_def setInterval_def
      IncSequenceID_def UpdateSync_def UpdateFollowup_def UpdateAnnounce_def UpdateDelayResp_def
      Header_MessageType_def SetSequence_def)

lemma UpdateGrant_Ok:
  assumes "sub_ok sc"
  shows "\<exists>g t. UpdateGrant sg mt i d sc = Ok (sc\<lparr>sc_grant := g\<rparr>) \<and> grant_shape g \<and>
    sg_TargetPortIdentity g = h_SourcePortIdentity (sg_Header sg) \<and>
    h_SdoIDAndMsgType (sg_Header g) = h_SdoIDAndMsgType (sg_Header sg) \<and>
    h_SequenceID (sg_Header g) = h_SequenceID (sg_Header sg) \<and>
    sg_TLVs g = [Grant_TLV t] \<and> gr_MsgTypeAndReserved t = mt \<and>
    gr_LogInterMessagePeriod t = i \<and> gr_DurationField t = d"
proof -
  have "grant_shape (sc_grant sc)" using assms by (simp add: sub_ok_def)
  then show ?thesis by (auto simp: grant_shape_def UpdateGrant_def Let_def)
qed

lemma Signaling_bytes_grant: "length (Signaling_bytes g) = 56" if "grant_shape g"
  using that by (auto simp: grant_shape_def Signaling_bytes_def binary_Write_def)

lemma grant_packet_ok:
  assumes "grant_shape g" and "Header_MessageType (sg_Header g) = MessageSignaling"
  shows "packet_ok (P_Signaling g)"
  using assms Signaling_bytes_grant [OF assms(1)]
  by (auto simp: grant_shape_def signaling_ok_def)

section \<open>Properties of subscriptions\<close>


text \<open>A configuration for the examples.\<close>

definition example_Config :: Config where
  "example_Config =
     \<lparr>cf_DSCP = 0, cf_Interface = ''eth0'', cf_IP = IPv6zero, cf_LogLevel = ''warning'',
      cf_MaxSubDuration = 3600 * second, cf_MetricInterval = 60 * second, cf_MinSubInterval = second,
      cf_MonitoringPort = 8888, cf_SHM = False, cf_TimestampType = SWTIMESTAMP,
      cf_UTCOffset = 37 * second, cf_SendWorkers = 1, cf_RecvWorkers = 10, cf_QueueSize = 0,
      cf_clockIdentity = 0\<rparr>"


text \<open>
  The UTC offset is only ever changed to a whole number of seconds from 30 to 50, the rounded
  difference of the two clocks; any other reading is an error and leaves the configuration alone.
\<close>
theorem SetUTCOffsetFromSHM_safe:
  assumes "SetUTCOffsetFromSHM p t c = (c', r)"
  shows "(r = Ok () \<longrightarrow> 30 * second \<le> cf_UTCOffset c' \<and> cf_UTCOffset c' \<le> 50 * second \<and>
      (\<exists>pt st. p = Ok pt \<and> t = Ok st \<and> cf_UTCOffset c' = dur_Round (t_Sub pt st) second)) \<and>
    (r \<noteq> Ok () \<longrightarrow> c' = c)"
  using assms by (auto simp: SetUTCOffsetFromSHM_def Let_def split: sum.splits if_splits)


theorem SetUTCOffsetFromSHM_safe_witness:
  "SetUTCOffsetFromSHM (Ok (37 * second + 5)) (Ok 0) example_Config =
     (example_Config\<lparr>cf_UTCOffset := 37 * second\<rparr>, Ok ()) \<and>
   cf_UTCOffset (example_Config\<lparr>cf_UTCOffset := 37 * second\<rparr>) \<le> 50 * second"
proof -
  have "dur_Round (t_Sub (37 * second + 5) 0) second = 37 * second"
    by (simp add: dur_Round_def t_Sub_def second_def i64_min_def i64_max_def)
  then have r: "SetUTCOffsetFromSHM (Ok (37 * second + 5)) (Ok 0) example_Config =
      (example_Config\<lparr>cf_UTCOffset := 37 * second\<rparr>, Ok ())"
    by (simp add: SetUTCOffsetFromSHM_def second_def)
  with SetUTCOffsetFromSHM_safe [OF r] show ?thesis by blast
qed

end
