(* ===== verification/PTP4u_Stats.thy ===== *)
theory PTP4u_Stats
  imports PTP_Types Go_Strings "HOL-Library.AList"
begin

text \<open>
  \<open>ptp/ptp4u/stats/stats.go\<close> and \<open>json.go\<close>: the counters of the unicast server, the snapshot that is
  reported and its export. A \<open>map[int]int64\<close> is an association list without repeated keys; its
  order stands for the order in which Go happens to iterate over the map, so a property that does not
  mention the order holds for every one. The mutexes make each method atomic, which a function on the
  state is. The locale \<open>counter_map\<close> is the interface \<open>JSONStats\<close> needs of the map.
\<close>

section \<open>Synchronised maps\<close>

type_synonym syncMapInt64 = "(int \<times> int) list"

definition smap_init :: syncMapInt64 where
  "smap_init = []"

definition smap_keys :: "syncMapInt64 \<Rightarrow> int list" where
  "smap_keys s = map fst s"

definition smap_load :: "syncMapInt64 \<Rightarrow> int \<Rightarrow> int" where
  "smap_load s key = (case map_of s key of None \<Rightarrow> 0 | Some v \<Rightarrow> v)"

definition smap_store :: "int \<Rightarrow> int \<Rightarrow> syncMapInt64 \<Rightarrow> syncMapInt64" where
  "smap_store key v s = AList.update key v s"

definition smap_inc :: "int \<Rightarrow> syncMapInt64 \<Rightarrow> syncMapInt64" where
  "smap_inc key s = AList.update key (i64 (smap_load s key + 1)) s"

definition smap_dec :: "int \<Rightarrow> syncMapInt64 \<Rightarrow> syncMapInt64" where
  "smap_dec key s = AList.update key (i64 (smap_load s key - 1)) s"

definition smap_copy :: "syncMapInt64 \<Rightarrow> syncMapInt64 \<Rightarrow> syncMapInt64" where
  "smap_copy s dst = fold (\<lambda>t dst. smap_store t (smap_load s t) dst) (smap_keys s) dst"

definition smap_reset :: "syncMapInt64 \<Rightarrow> syncMapInt64" where
  "smap_reset s = map (\<lambda>(t, v). (t, 0)) s"

section \<open>Counters\<close>

record counters =
  c_rx :: syncMapInt64
  c_rxSignaling :: syncMapInt64
  c_subscriptions :: syncMapInt64
  c_tx :: syncMapInt64
  c_txSignaling :: syncMapInt64
  c_txtsattempts :: syncMapInt64
  c_workerQueue :: syncMapInt64
  c_workerSubs :: syncMapInt64
  c_utcoffset :: int

definition counters_init :: counters where
  "counters_init = \<lparr>c_rx = smap_init, c_rxSignaling = smap_init, c_subscriptions = smap_init,
     c_tx = smap_init, c_txSignaling = smap_init, c_txtsattempts = smap_init,
     c_workerQueue = smap_init, c_workerSubs = smap_init, c_utcoffset = 0\<rparr>"

definition counters_reset :: "counters \<Rightarrow> counters" where
  "counters_reset c = \<lparr>c_rx = smap_reset (c_rx c), c_rxSignaling = smap_reset (c_rxSignaling c),
     c_subscriptions = smap_reset (c_subscriptions c), c_tx = smap_reset (c_tx c),
     c_txSignaling = smap_reset (c_txSignaling c), c_txtsattempts = smap_reset (c_txtsattempts c),
     c_workerQueue = smap_reset (c_workerQueue c), c_workerSubs = smap_reset (c_workerSubs c),
     c_utcoffset = 0\<rparr>"

text \<open>The loops of \<open>toMap\<close>: over the keys of one counter map, with the name built from the key.\<close>

definition export_named :: "string \<Rightarrow> syncMapInt64 \<Rightarrow> (string \<times> int) list \<Rightarrow> (string \<times> int) list" where
  "export_named prefix s res = fold (\<lambda>t res.
     AList.update (prefix @ ToLower (MessageType_String (word_of_int t))) (smap_load s t) res)
     (smap_keys s) res"

definition export_worker :: "string \<Rightarrow> syncMapInt64 \<Rightarrow> (string \<times> int) list \<Rightarrow> (string \<times> int) list" where
  "export_worker suffix s res = fold (\<lambda>t res.
     AList.update (''worker.'' @ show_int t @ suffix) (smap_load s t) res) (smap_keys s) res"

definition counters_toMap :: "counters \<Rightarrow> (string \<times> int) list" where
  "counters_toMap c =
     (let res = export_named ''subscriptions.'' (c_subscriptions c) [];
          res = export_named ''rx.'' (c_rx c) res;
          res = export_named ''tx.'' (c_tx c) res;
          res = export_named ''rx.signaling.'' (c_rxSignaling c) res;
          res = export_named ''tx.signaling.'' (c_txSignaling c) res;
          res = export_worker ''.queue'' (c_workerQueue c) res;
          res = export_worker ''.subscriptions'' (c_workerSubs c) res;
          res = export_worker ''.txtsattempts'' (c_txtsattempts c) res
      in AList.update ''utcoffset'' (c_utcoffset c) res)"

section \<open>JSONStats\<close>

record JSONStats =
  js_report :: counters
  js_counters :: counters

definition NewJSONStats :: JSONStats where
  "NewJSONStats = \<lparr>js_report = counters_init, js_counters = counters_init\<rparr>"

definition Snapshot :: "JSONStats \<Rightarrow> JSONStats" where
  "Snapshot s = (let c = js_counters s; r = js_report s in
     s\<lparr>js_report := \<lparr>
       c_rx = smap_copy (c_rx c) (c_rx r),
       c_rxSignaling = smap_copy (c_rxSignaling c) (c_rxSignaling r),
       c_subscriptions = smap_copy (c_subscriptions c) (c_subscriptions r),
       c_tx = smap_copy (c_tx c) (c_tx r),
       c_txSignaling = smap_copy (c_txSignaling c) (c_txSignaling r),
       c_txtsattempts = smap_copy (c_txtsattempts c) (c_txtsattempts r),
       c_workerQueue = smap_copy (c_workerQueue c) (c_workerQueue r),
       c_workerSubs = smap_copy (c_workerSubs c) (c_workerSubs r),
       c_utcoffset = c_utcoffset c\<rparr>\<rparr>)"

definition handleRequest_map :: "JSONStats \<Rightarrow> (string \<times> int) list" where
  "handleRequest_map s = counters_toMap (js_report s)"

definition JSONStats_Reset :: "JSONStats \<Rightarrow> JSONStats" where
  "JSONStats_Reset s = s\<lparr>js_counters := counters_reset (js_counters s)\<rparr>"

definition upd_counters :: "(counters \<Rightarrow> counters) \<Rightarrow> JSONStats \<Rightarrow> JSONStats" where
  "upd_counters f s = s\<lparr>js_counters := f (js_counters s)\<rparr>"

definition IncSubscription :: "MessageType \<Rightarrow> JSONStats \<Rightarrow> JSONStats" where
  "IncSubscription t = upd_counters (c_subscriptions_update (smap_inc (uint t)))"

definition IncRX :: "MessageType \<Rightarrow> JSONStats \<Rightarrow> JSONStats" where
  "IncRX t = upd_counters (c_rx_update (smap_inc (uint t)))"

definition IncTX :: "MessageType \<Rightarrow> JSONStats \<Rightarrow> JSONStats" where
  "IncTX t = upd_counters (c_tx_update (smap_inc (uint t)))"

definition IncRXSignaling :: "MessageType \<Rightarrow> JSONStats \<Rightarrow> JSONStats" where
  "IncRXSignaling t = upd_counters (c_rxSignaling_update (smap_inc (uint t)))"

definition IncTXSignaling :: "MessageType \<Rightarrow> JSONStats \<Rightarrow> JSONStats" where
  "IncTXSignaling t = upd_counters (c_txSignaling_update (smap_inc (uint t)))"

definition IncWorkerSubs :: "nat \<Rightarrow> JSONStats \<Rightarrow> JSONStats" where
  "IncWorkerSubs workerid = upd_counters (c_workerSubs_update (smap_inc (int workerid)))"

definition DecSubscription :: "MessageType \<Rightarrow> JSONStats \<Rightarrow> JSONStats" where
  "DecSubscription t = upd_counters (c_subscriptions_update (smap_dec (uint t)))"

definition DecRX :: "MessageType \<Rightarrow> JSONStats \<Rightarrow> JSONStats" where
  "DecRX t = upd_counters (c_rx_update (smap_dec (uint t)))"

definition DecTX :: "MessageType \<Rightarrow> JSONStats \<Rightarrow> JSONStats" where
  "DecTX t = upd_counters (c_tx_update (smap_dec (uint t)))"

definition DecRXSignaling :: "MessageType \<Rightarrow> JSONStats \<Rightarrow> JSONStats" where
  "DecRXSignaling t = upd_counters (c_rxSignaling_update (smap_dec (uint t)))"

definition DecTXSignaling :: "MessageType \<Rightarrow> JSONStats \<Rightarrow> JSONStats" where
  "DecTXSignaling t = upd_counters (c_txSignaling_update (smap_dec (uint t)))"

definition DecWorkerSubs :: "nat \<Rightarrow> JSONStats \<Rightarrow> JSONStats" where
  "DecWorkerSubs workerid = upd_counters (c_workerSubs_update (smap_dec (int workerid)))"

definition set_max :: "int \<Rightarrow> int \<Rightarrow> syncMapInt64 \<Rightarrow> syncMapInt64" where
  "set_max key v s = (if smap_load s key < v then smap_store key v s else s)"

definition SetMaxWorkerQueue :: "nat \<Rightarrow> int \<Rightarrow> JSONStats \<Rightarrow> JSONStats" where
  "SetMaxWorkerQueue workerid queue = upd_counters (c_workerQueue_update (set_max (int workerid) queue))"

definition SetMaxTXTSAttempts :: "nat \<Rightarrow> int \<Rightarrow> JSONStats \<Rightarrow> JSONStats" where
  "SetMaxTXTSAttempts workerid attempts =
     upd_counters (c_txtsattempts_update (set_max (int workerid) attempts))"

definition SetUTCOffset :: "int \<Rightarrow> JSONStats \<Rightarrow> JSONStats" where
  "SetUTCOffset utcoffset = upd_counters (c_utcoffset_update (\<lambda>_. utcoffset))"

section \<open>What the map promises\<close>

definition smap_ok :: "syncMapInt64 \<Rightarrow> bool" where
  "smap_ok s \<longleftrightarrow> distinct (map fst s)"

text \<open>
  The interface: an absent key reads as zero, a store is read back and leaves the other keys alone,
  the keys are those stored, copying overrides the destination with the source, reset zeroes.
\<close>

locale counter_map =
  fixes ok :: "'m \<Rightarrow> bool" and load :: "'m \<Rightarrow> int \<Rightarrow> int" and keys :: "'m \<Rightarrow> int list"
    and store :: "int \<Rightarrow> int \<Rightarrow> 'm \<Rightarrow> 'm" and empty :: 'm
  assumes ok_empty: "ok empty" and ok_store: "ok s \<Longrightarrow> ok (store k v s)"
    and load_empty: "load empty k = 0"
    and load_store: "load (store k v s) k' = (if k' = k then v else load s k')"
    and keys_empty: "keys empty = []"
    and keys_store: "set (keys (store k v s)) = insert k (set (keys s))"
    and load_absent: "k \<notin> set (keys s) \<Longrightarrow> load s k = 0"
begin

definition copy_from :: "'m \<Rightarrow> int list \<Rightarrow> 'm \<Rightarrow> 'm" where
  "copy_from s ks dst = fold (\<lambda>t dst. store t (load s t) dst) ks dst"

lemma load_copy_from: "load (copy_from s ks dst) k = (if k \<in> set ks then load s k else load dst k)"
  by (induction ks arbitrary: dst) (auto simp: copy_from_def load_store)

lemma ok_copy_from: "ok dst \<Longrightarrow> ok (copy_from s ks dst)"
  by (induction ks arbitrary: dst) (auto simp: copy_from_def ok_store)

text \<open>The order of the keys is irrelevant, and so is a key listed twice.\<close>

lemma copy_from_order: "set ks = set ks' \<Longrightarrow> load (copy_from s ks dst) k = load (copy_from s ks' dst) k"
  by (simp add: load_copy_from)

lemma fold_inc: "load (fold (\<lambda>k s. store k (load s k + 1) s) ks s) k = load s k + int (count_list ks k)"
  by (induction ks arbitrary: s) (simp_all add: load_store)

end

interpretation smap: counter_map smap_ok smap_load smap_keys smap_store smap_init
  by unfold_locales
    (auto simp: smap_ok_def smap_load_def smap_keys_def smap_store_def smap_init_def distinct_update
      update_conv' dom_update map_of_eq_None_iff [symmetric] split: option.splits)

lemma smap_copy_eq: "smap_copy s dst = smap.copy_from s (smap_keys s) dst"
  by (simp add: smap_copy_def smap.copy_from_def)

lemma load_smap_copy:
  "smap_load (smap_copy s dst) k = (if k \<in> set (smap_keys s) then smap_load s k else smap_load dst k)"
  by (simp add: smap_copy_eq smap.load_copy_from)

lemma smap_inc_store: "smap_inc k s = smap_store k (i64 (smap_load s k + 1)) s"
  by (simp add: smap_inc_def smap_store_def)

lemma smap_dec_store: "smap_dec k s = smap_store k (i64 (smap_load s k - 1)) s"
  by (simp add: smap_dec_def smap_store_def)

lemma map_of_reset: "map_of (smap_reset s) k = (case map_of s k of None \<Rightarrow> None | Some _ \<Rightarrow> Some 0)"
  by (induction s) (auto simp: smap_reset_def)

lemma load_smap_reset [simp]: "smap_load (smap_reset s) k = 0"
  by (simp add: smap_load_def map_of_reset split: option.splits)

lemma keys_smap_reset [simp]: "smap_keys (smap_reset s) = smap_keys s"
  by (induction s) (auto simp: smap_reset_def smap_keys_def)

section \<open>Properties of the statistics\<close>

text \<open>
  After \<open>Snapshot\<close> and \<open>Reset\<close>, as the metric loop does, the report holds every counter as it was and
  the live counters are all zero; a counter absent from the live map keeps the value last reported.
\<close>
theorem Snapshot_then_Reset:
  "smap_load (c_tx (js_report (JSONStats_Reset (Snapshot s)))) k =
     (if k \<in> set (smap_keys (c_tx (js_counters s))) then smap_load (c_tx (js_counters s)) k
      else smap_load (c_tx (js_report s)) k) \<and>
   smap_load (c_subscriptions (js_report (JSONStats_Reset (Snapshot s)))) k =
     (if k \<in> set (smap_keys (c_subscriptions (js_counters s)))
      then smap_load (c_subscriptions (js_counters s)) k
      else smap_load (c_subscriptions (js_report s)) k) \<and>
   c_utcoffset (js_report (JSONStats_Reset (Snapshot s))) = c_utcoffset (js_counters s) \<and>
   smap_load (c_tx (js_counters (JSONStats_Reset (Snapshot s)))) k = 0 \<and>
   smap_load (c_subscriptions (js_counters (JSONStats_Reset (Snapshot s)))) k = 0"
  by (simp add: JSONStats_Reset_def Snapshot_def counters_reset_def load_smap_copy Let_def)

lemma fold_IncTX:
  assumes "smap_load (c_tx (js_counters s)) (uint t) + int (length ts) \<le> i64_max"
    and "0 \<le> smap_load (c_tx (js_counters s)) (uint t)"
  shows "smap_load (c_tx (js_counters (fold IncTX ts s))) (uint t) =
    smap_load (c_tx (js_counters s)) (uint t) + int (count_list ts t)"
  using assms
proof (induction ts arbitrary: s)
  case Nil
  then show ?case by simp
next
  case (Cons u ts)
  let ?l = "\<lambda>s. smap_load (c_tx (js_counters s)) (uint t)"
  have i: "in_i64 (?l s + 1)"
    using Cons.prems by (simp add: in_i64_def i64_min_def i64_max_def)
  have l: "?l (IncTX u s) = ?l s + (if u = t then 1 else 0)"
    using i by (auto simp: IncTX_def upd_counters_def smap_inc_store smap.load_store word_uint_eq_iff)
  then have "?l (fold IncTX ts (IncTX u s)) = ?l (IncTX u s) + int (count_list ts t)"
    using Cons.prems by (intro Cons.IH) (auto split: if_splits)
  with l show ?case by simp
qed

text \<open>
  The transmit counter of a message type counts exactly the messages of that type, as long as it
  stays within an \<open>int64\<close>.
\<close>
theorem IncTX_counts:
  assumes "int (length ts) \<le> i64_max"
  shows "smap_load (c_tx (js_counters (fold IncTX ts NewJSONStats))) (uint t) = int (count_list ts t)"
  using fold_IncTX [of NewJSONStats t ts] assms
  by (simp add: NewJSONStats_def counters_init_def smap.load_empty)

theorem IncTX_counts_witness:
  "smap_load (c_tx (js_counters (fold IncTX [MessageSync, MessageAnnounce, MessageSync] NewJSONStats)))
     (uint MessageSync) = 2"
  by (subst IncTX_counts) (simp_all add: i64_max_def)

text \<open>
  \<open>SetMaxWorkerQueue\<close> keeps the largest length seen of each worker's queue and never lowers it.
\<close>
theorem SetMaxWorkerQueue_max:
  "smap_load (c_workerQueue (js_counters (SetMaxWorkerQueue w q s))) (int v) =
     (if v = w then max q (smap_load (c_workerQueue (js_counters s)) (int v))
      else smap_load (c_workerQueue (js_counters s)) (int v))"
  by (auto simp: SetMaxWorkerQueue_def upd_counters_def set_max_def smap.load_store)

text \<open>
  Two received message types without a name are exported under the same key, so the report shows
  the count of only one of them.
\<close>
theorem toMap_unnamed_collide:
  assumes "MessageType_String (word_of_int a) = ''''" and "MessageType_String (word_of_int b) = ''''"
    and "a \<noteq> b"
  shows "map_of (export_named ''rx.'' [(a, x), (b, y)] []) ''rx.'' = Some y \<and>
    length (export_named ''rx.'' [(a, x), (b, y)] []) = 1"
  using assms by (simp add: export_named_def smap_keys_def smap_load_def ToLower_def)

theorem toMap_unnamed_collide_witness:
  "map_of (export_named ''rx.'' [(4, 10), (5, 20)] []) ''rx.'' = Some 20 \<and>
    length (export_named ''rx.'' [(4, 10), (5, 20)] []) = 1"
  by (rule toMap_unnamed_collide) (simp_all add: MessageType_String_def lookup_name_def MessageTypeToString_def)

end
