(* ===== verification/PTP4u_Server.thy ===== *)
theory PTP4u_Server
  imports PTP4u_Subscription PTP4u_Stats
begin

text \<open>
  \<open>ptp/ptp4u/server/worker.go\<close> and \<open>server.go\<close>: the unicast PTP server. The state is the configuration,
  the statistics, the workers with their queues and subscription tables, and a store of the
  subscriptions: a pointer to a subscription is an index into the store, shared by the tables, the
  queues and the goroutines. Each handler is a function on the state, with what the environment
  answers (datagrams, clock readings, outcomes of sends) as arguments; the goroutines interleave in
  the step relation at the end. A run-time panic, which ends the process, is the error \<open>Panic\<close>.
\<close>

section \<open>State\<close>

record sendWorker =
  sw_id :: nat
  sw_queue :: "nat list"
  sw_clients :: "(MessageType \<times> (PortIdentity \<times> nat) list) list"

text \<open>
  A goroutine that serves a subscription: created, running but before its first message, or in its
  ticker loop with the interval the ticker was set to. \<open>Pending\<close> is a receiver that is about to hand a
  subscription to its worker's queue.
\<close>

datatype goroutine = Spawned nat | First nat | Ticking nat duration | Pending nat

fun goroutine_sub :: "goroutine \<Rightarrow> nat" where
  "goroutine_sub (Spawned a) = a"
| "goroutine_sub (First a) = a"
| "goroutine_sub (Ticking a d) = a"
| "goroutine_sub (Pending a) = a"

record Server =
  sv_Config :: Config
  sv_Stats :: JSONStats
  sv_sw :: "sendWorker list"
  sv_subs :: "SubscriptionClient list"
  sv_goroutines :: "goroutine list"
  sv_sent :: "(bytes \<times> Sockaddr) list"

text \<open>
  The environment: \<open>en_intn seed n\<close> is the first \<open>Intn(n)\<close> of a generator seeded with \<open>seed\<close>, which
  \<open>math/rand\<close> documents to be deterministic and below \<open>n\<close>; \<open>en_cvt\<close> is the platform's conversion of
  unrepresentable floats.
\<close>

record env =
  en_intn :: "int \<Rightarrow> nat \<Rightarrow> nat"
  en_cvt :: f64_cvt

definition env_ok :: "env \<Rightarrow> bool" where
  "env_ok e \<longleftrightarrow> (\<forall>seed n. 0 < n \<longrightarrow> en_intn e seed n < n)"

section \<open>Workers\<close>

definition NewSendWorker :: "nat \<Rightarrow> sendWorker" where
  "NewSendWorker i = \<lparr>sw_id = i, sw_queue = [], sw_clients = []\<rparr>"

definition FindSubscription :: "PortIdentity \<Rightarrow> MessageType \<Rightarrow> sendWorker \<Rightarrow> nat option" where
  "FindSubscription clientID st w =
     (case map_of (sw_clients w) st of None \<Rightarrow> None | Some m \<Rightarrow> map_of m clientID)"

definition RegisterSubscription :: "PortIdentity \<Rightarrow> MessageType \<Rightarrow> nat \<Rightarrow> sendWorker \<Rightarrow> sendWorker" where
  "RegisterSubscription clientID st sc w =
     (let m = (case map_of (sw_clients w) st of None \<Rightarrow> [] | Some m \<Rightarrow> m) in
      w\<lparr>sw_clients := AList.update st (AList.update clientID sc m) (sw_clients w)\<rparr>)"

definition upd_sub :: "nat \<Rightarrow> (SubscriptionClient \<Rightarrow> SubscriptionClient) \<Rightarrow> Server \<Rightarrow> Server" where
  "upd_sub a f s = s\<lparr>sv_subs := (sv_subs s)[a := f (sv_subs s ! a)]\<rparr>"

definition upd_stats :: "(JSONStats \<Rightarrow> JSONStats) \<Rightarrow> Server \<Rightarrow> Server" where
  "upd_stats f s = s\<lparr>sv_Stats := f (sv_Stats s)\<rparr>"

definition send_to :: "bytes \<Rightarrow> Sockaddr \<Rightarrow> Server \<Rightarrow> Server" where
  "send_to b sa s = s\<lparr>sv_sent := sv_sent s @ [(b, sa)]\<rparr>"

text \<open>
  \<open>Once\<close>: the send to the worker's queue, which blocks (\<open>None\<close>) while the channel is full. The first
  element of \<open>sw_queue\<close> is the subscription in the worker's hands, the others are those the channel
  buffers, so with the default capacity of zero a send waits until the worker is ready to receive.
\<close>

definition Once :: "nat \<Rightarrow> Server \<Rightarrow> Server option" where
  "Once a s =
     (let w = sc_queue (sv_subs s ! a); worker = sv_sw s ! w in
      if length (sw_queue worker) \<le> cf_QueueSize (sv_Config s)
      then Some (s\<lparr>sv_sw := (sv_sw s)[w := worker\<lparr>sw_queue := sw_queue worker @ [a]\<rparr>]\<rparr>)
      else None)"

text \<open>
  One iteration of the worker's loop on the subscription it received. \<open>io_send1\<close> and \<open>io_send2\<close> say
  whether the two sends succeed, \<open>io_tx\<close> and \<open>io_attempts\<close> what reading the transmit timestamp gave.
  The buffer is large enough for every packet, and only the part that was written is sent.
\<close>

record worker_io =
  io_send1 :: bool
  io_tx :: "gotime res"
  io_attempts :: nat
  io_send2 :: bool

definition send_buf :: bytes where
  "send_buf = replicate PayloadSizeBytes 0"

text \<open>\<open>ptp.BytesTo\<close> into the worker's buffer and \<open>buf[:n]\<close>.\<close>

definition prepare :: "(bytes \<Rightarrow> (nat \<times> bytes) res) \<Rightarrow> bytes res" where
  "prepare m = bind_res (BytesTo m send_buf) (\<lambda>(n, buf). slice buf 0 n)"

text \<open>The end of the loop body, after a packet was sent.\<close>

definition worker_done :: "nat \<Rightarrow> nat \<Rightarrow> Server \<Rightarrow> Server" where
  "worker_done w a s = upd_stats (SetMaxWorkerQueue w (int (length (sw_queue (sv_sw s ! w)))))
     (upd_sub a IncSequenceID s)"

definition worker_general :: "nat \<Rightarrow> nat \<Rightarrow> bool \<Rightarrow> bytes res \<Rightarrow> Server \<Rightarrow> Server res" where
  "worker_general w a ok packet s =
     (case packet of
        Inl Panic \<Rightarrow> Inl Panic
      | Inl (GoError _) \<Rightarrow> Ok s
      | Inr b \<Rightarrow>
          if \<not> ok then Ok s
          else let sc = sv_subs s ! a in
            Ok (worker_done w a (upd_stats (IncTX (sc_subscriptionType sc))
              (send_to b (sc_gclisa sc) s))))"

definition worker_followup :: "env \<Rightarrow> nat \<Rightarrow> nat \<Rightarrow> worker_io \<Rightarrow> Server \<Rightarrow> Server res" where
  "worker_followup e w a io s =
     (case io_tx io of
        Inl _ \<Rightarrow> Ok s
      | Inr t \<Rightarrow>
          let cfg = sv_Config s;
              txTS = (if cf_TimestampType cfg \<noteq> HWTIMESTAMP then t_Add t (cf_UTCOffset cfg) else t);
              s = upd_sub a (UpdateFollowup (en_cvt e) txTS) s in
          case prepare (FollowUp_MarshalBinaryTo (sc_followupP (sv_subs s ! a))) of
            Inl Panic \<Rightarrow> Inl Panic
          | Inl (GoError _) \<Rightarrow> Ok s
          | Inr b \<Rightarrow>
              if \<not> io_send2 io then Ok s
              else Ok (worker_done w a (upd_stats (IncTX MessageFollowUp)
                (send_to b (sc_gclisa (sv_subs s ! a)) s))))"

definition worker_sync :: "env \<Rightarrow> nat \<Rightarrow> nat \<Rightarrow> worker_io \<Rightarrow> Server \<Rightarrow> Server res" where
  "worker_sync e w a io s =
     (let s = upd_sub a UpdateSync s; sc = sv_subs s ! a in
      case prepare (SyncDelayReq_MarshalBinaryTo (sc_syncP sc)) of
        Inl Panic \<Rightarrow> Inl Panic
      | Inl (GoError _) \<Rightarrow> Ok s
      | Inr b \<Rightarrow>
          if \<not> io_send1 io then Ok s
          else worker_followup e w a io
            (upd_stats (SetMaxTXTSAttempts w (int (io_attempts io)))
              (upd_stats (IncTX (sc_subscriptionType sc)) (send_to b (sc_eclisa sc) s))))"

definition worker_one :: "env \<Rightarrow> nat \<Rightarrow> nat \<Rightarrow> worker_io \<Rightarrow> Server \<Rightarrow> Server res" where
  "worker_one e w a io s =
     (let st = sc_subscriptionType (sv_subs s ! a) in
      if st = MessageSync then worker_sync e w a io s
      else if st = MessageAnnounce then
        let s = upd_sub a (UpdateAnnounce (en_cvt e) (sv_Config s)) s in
        worker_general w a (io_send1 io) (prepare (Announce_MarshalBinaryTo (sc_announceP (sv_subs s ! a)))) s
      else if st = MessageDelayResp then
        worker_general w a (io_send1 io) (prepare (DelayResp_MarshalBinaryTo (sc_delayRespP (sv_subs s ! a)))) s
      else Ok s)"

text \<open>\<open>inventoryClients\<close>: subscriptions that do not run are forgotten, the others counted.\<close>

definition inventory_subs :: "SubscriptionClient list \<Rightarrow> nat \<Rightarrow> MessageType \<Rightarrow> (PortIdentity \<times> nat) list \<Rightarrow>
    JSONStats \<Rightarrow> JSONStats" where
  "inventory_subs subs i st m stats = fold (\<lambda>(k, a) stats.
     if Running (subs ! a) then IncWorkerSubs i (IncSubscription st stats) else stats) m stats"

definition inventoryClients :: "nat \<Rightarrow> Server \<Rightarrow> Server" where
  "inventoryClients w s =
     (let worker = sv_sw s ! w; subs = sv_subs s in
      s\<lparr>sv_sw := (sv_sw s)[w := worker\<lparr>sw_clients :=
           map (\<lambda>(st, m). (st, filter (\<lambda>(k, a). Running (subs ! a)) m)) (sw_clients worker)\<rparr>],
        sv_Stats := fold (\<lambda>(st, m) stats. inventory_subs subs (sw_id worker) st m stats)
          (sw_clients worker) (sv_Stats s)\<rparr>)"

section \<open>The server\<close>

text \<open>The part of \<open>Server.Start\<close> before the goroutines: clock identity and workers.\<close>

definition Server_init :: "Config \<Rightarrow> bytes res \<Rightarrow> Server res" where
  "Server_init c mac =
     (case mac of
        Inl _ \<Rightarrow> Err ''unable to get mac address of the interface: %v''
      | Inr addr \<Rightarrow>
          (case NewClockIdentity addr of
             Inl _ \<Rightarrow> Err ''unable to get the Clock Identity (EUI-64 address) of the interface: %v''
           | Inr ci \<Rightarrow>
               if cf_SendWorkers c < 0 then Inl Panic
               else Ok \<lparr>sv_Config = c\<lparr>cf_clockIdentity := ci\<rparr>, sv_Stats = NewJSONStats,
                     sv_sw = map NewSendWorker [0..<nat (cf_SendWorkers c)],
                     sv_subs = [], sv_goroutines = [], sv_sent = []\<rparr>))"

definition seed_of :: "PortIdentity \<Rightarrow> int" where
  "seed_of clientID = i64 (sint (pi_ClockIdentity clientID) + uint (pi_PortNumber clientID))"

text \<open>\<open>Intn\<close> panics when its argument is not positive.\<close>

definition findWorker :: "env \<Rightarrow> PortIdentity \<Rightarrow> Server \<Rightarrow> nat res" where
  "findWorker e clientID s =
     (let n = cf_SendWorkers (sv_Config s) in
      if n \<le> 0 then Inl Panic
      else let w = en_intn e (seed_of clientID) (nat n) in
        if w < length (sv_sw s) then Ok w else Inl Panic)"

definition sendGrant :: "bool \<Rightarrow> nat \<Rightarrow> Signaling \<Rightarrow> UnicastMsgTypeAndFlags \<Rightarrow> LogInterval \<Rightarrow> u32 \<Rightarrow>
    Sockaddr \<Rightarrow> Server \<Rightarrow> Server res" where
  "sendGrant ok a sg mt interval dur sa s =
     bind_res (UpdateGrant sg mt interval dur (sv_subs s ! a)) (\<lambda>sc.
     let s = upd_sub a (\<lambda>_. sc) s in
     case Bytes (MarshalBinary Signaling_MarshalBinary) (sc_grant sc) of
       Inl Panic \<Rightarrow> Inl Panic
     | Inl (GoError _) \<Rightarrow> Ok s
     | Inr grantb \<Rightarrow>
         if \<not> ok then Ok s
         else Ok (upd_stats (IncTXSignaling (sc_subscriptionType sc)) (send_to grantb sa s)))"

text \<open>Find or create the subscription of a request: the branch on \<open>sc == nil\<close>.\<close>

definition find_or_create :: "PortIdentity \<Rightarrow> MessageType \<Rightarrow> nat \<Rightarrow> Sockaddr \<Rightarrow> duration \<Rightarrow> gotime \<Rightarrow>
    gotime \<Rightarrow> Server \<Rightarrow> nat \<times> Server" where
  "find_or_create clientID grantType w gclisa intervalt expire now s =
     (case FindSubscription clientID grantType (sv_sw s ! w) of
        None \<Rightarrow>
          let eclisa = IPToSockaddr (SockaddrToIP gclisa) PortEvent;
              a = length (sv_subs s);
              sc = NewSubscriptionClient w eclisa gclisa grantType (sv_Config s) intervalt expire now in
          (a, s\<lparr>sv_subs := sv_subs s @ [sc],
                 sv_sw := (sv_sw s)[w := RegisterSubscription clientID grantType a (sv_sw s ! w)]\<rparr>)
      | Some a \<Rightarrow> (a, upd_sub a (\<lambda>sc. sc\<lparr>sc_expire := expire, sc_interval := intervalt\<rparr>) s))"

definition grantable :: "MessageType \<Rightarrow> bool" where
  "grantable t \<longleftrightarrow> t = MessageAnnounce \<or> t = MessageSync \<or> t = MessageDelayResp"

definition handle_request :: "env \<Rightarrow> gotime \<Rightarrow> bool \<Rightarrow> Signaling \<Rightarrow> Sockaddr \<Rightarrow>
    RequestUnicastTransmissionTLV \<Rightarrow> Server \<Rightarrow> Server res" where
  "handle_request e now ok sg gclisa v s =
     (let grantType = Unicast_MsgType (rq_MsgTypeAndReserved v);
          clientID = h_SourcePortIdentity (sg_Header sg);
          durationt = i64 (uint (rq_DurationField v) * second);
          expire = t_Add now durationt;
          intervalt = LogInterval_Duration (en_cvt e) (rq_LogInterMessagePeriod v)
      in if grantable grantType then
           bind_res (findWorker e clientID s) (\<lambda>w.
           let (a, s) = find_or_create clientID grantType w gclisa intervalt expire now s in
           if intervalt < cf_MinSubInterval (sv_Config s) \<or> cf_MaxSubDuration (sv_Config s) < durationt then
             sendGrant ok a sg (rq_MsgTypeAndReserved v) (rq_LogInterMessagePeriod v) 0 gclisa s
           else
             let s = (if \<not> Running (sv_subs s ! a)
                      then s\<lparr>sv_goroutines := sv_goroutines s @ [Spawned a]\<rparr> else s) in
             bind_res (sendGrant ok a sg (rq_MsgTypeAndReserved v) (rq_LogInterMessagePeriod v)
               (rq_DurationField v) gclisa s) (\<lambda>s.
             Ok (upd_stats (IncRXSignaling grantType) s)))
         else Ok (upd_stats (IncRXSignaling grantType) s))"

definition handle_cancel :: "env \<Rightarrow> gotime \<Rightarrow> Signaling \<Rightarrow> CancelUnicastTransmissionTLV \<Rightarrow> Server \<Rightarrow>
    Server res" where
  "handle_cancel e now sg v s =
     (let grantType = Unicast_MsgType (ca_MsgTypeAndFlags v);
          clientID = h_SourcePortIdentity (sg_Header sg) in
      bind_res (findWorker e clientID s) (\<lambda>w.
      case FindSubscription clientID grantType (sv_sw s ! w) of
        None \<Rightarrow> Ok s
      | Some a \<Rightarrow> Ok (upd_sub a (Stop now) s)))"

fun handle_TLV :: "env \<Rightarrow> gotime \<Rightarrow> bool \<Rightarrow> Signaling \<Rightarrow> Sockaddr \<Rightarrow> TLV \<Rightarrow> Server \<Rightarrow> Server res" where
  "handle_TLV e now ok sg gclisa (Request_TLV v) s = handle_request e now ok sg gclisa v s"
| "handle_TLV e now ok sg gclisa (Cancel_TLV v) s = handle_cancel e now sg v s"
| "handle_TLV e now ok sg gclisa _ s = Ok s"

text \<open>The loop over the TLVs; the \<open>i\<close>-th iteration reads the clock \<open>now i\<close> and its send succeeds if \<open>ok i\<close>.\<close>

fun handle_TLVs :: "env \<Rightarrow> (nat \<Rightarrow> gotime) \<Rightarrow> (nat \<Rightarrow> bool) \<Rightarrow> nat \<Rightarrow> Signaling \<Rightarrow> Sockaddr \<Rightarrow>
    TLV list \<Rightarrow> Server \<Rightarrow> Server res" where
  "handle_TLVs e now ok i sg gclisa [] s = Ok s"
| "handle_TLVs e now ok i sg gclisa (tlv # tlvs) s =
     bind_res (handle_TLV e (now i) (ok i) sg gclisa tlv s)
       (handle_TLVs e now ok (Suc i) sg gclisa tlvs)"

text \<open>One iteration of \<open>handleGeneralMessages\<close>; the receive buffer cuts a datagram at 128 bytes.\<close>

definition handleGeneralMessage :: "env \<Rightarrow> (nat \<Rightarrow> gotime) \<Rightarrow> (nat \<Rightarrow> bool) \<Rightarrow>
    (bytes \<times> Sockaddr) res \<Rightarrow> Server \<Rightarrow> Server res" where
  "handleGeneralMessage e now ok recv s =
     (case recv of
        Inl _ \<Rightarrow> Ok s
      | Inr (datagram, gclisa) \<Rightarrow>
          let buf = take PayloadSizeBytes datagram in
          case ProbeMsgType buf of
            Inl _ \<Rightarrow> Ok s
          | Inr msgType \<Rightarrow>
              if msgType = MessageSignaling then
                (case FromBytes (UnmarshalBinary (Signaling_UnmarshalBinary [])) buf of
                   Inl Panic \<Rightarrow> Inl Panic
                 | Inl (GoError _) \<Rightarrow> Ok s
                 | Inr sg \<Rightarrow> handle_TLVs e now ok 0 sg gclisa (sg_TLVs sg) s)
              else Ok s)"

text \<open>The Delay_Req case of \<open>handleEventMessages\<close>.\<close>

definition handle_delay_req :: "env \<Rightarrow> bytes \<Rightarrow> gotime \<Rightarrow> Server \<Rightarrow> Server res" where
  "handle_delay_req e buf rxTS s =
     (case FromBytes (UnmarshalBinary SyncDelayReq_UnmarshalBinary) buf of
        Inl Panic \<Rightarrow> Inl Panic
      | Inl (GoError _) \<Rightarrow> Ok s
      | Inr dReq \<Rightarrow>
          let h = sd_Header dReq in
          bind_res (findWorker e (h_SourcePortIdentity h) s) (\<lambda>w.
          case FindSubscription (h_SourcePortIdentity h) MessageDelayResp (sv_sw s ! w) of
            None \<Rightarrow> Ok s
          | Some a \<Rightarrow>
              let s = upd_sub a (UpdateDelayResp h rxTS) s in
              Ok (s\<lparr>sv_goroutines := sv_goroutines s @ [Pending a]\<rparr>)))"

text \<open>One iteration of \<open>handleEventMessages\<close> on what \<open>ReadPacketWithRXTimestampBuf\<close> returned.\<close>

definition handleEventMessage :: "env \<Rightarrow> (bytes \<times> Sockaddr \<times> gotime) res \<Rightarrow> Server \<Rightarrow> Server res" where
  "handleEventMessage e recv s =
     (case recv of
        Inl _ \<Rightarrow> Ok s
      | Inr (datagram, clisa, rx) \<Rightarrow>
          let cfg = sv_Config s;
              rxTS = (if cf_TimestampType cfg \<noteq> HWTIMESTAMP then t_Add rx (cf_UTCOffset cfg) else rx);
              buf = take PayloadSizeBytes datagram in
          case ProbeMsgType buf of
            Inl _ \<Rightarrow> Ok s
          | Inr msgType \<Rightarrow>
              let s = upd_stats (IncRX msgType) s in
              if msgType = MessageDelayReq then handle_delay_req e buf rxTS s else Ok s)"

text \<open>The metric goroutine: inventory of every worker, then report and reset.\<close>

definition report_metrics :: "Server \<Rightarrow> Server" where
  "report_metrics s =
     (let s = fold inventoryClients [0..<length (sv_sw s)] s in
      upd_stats (\<lambda>st. JSONStats_Reset (Snapshot
        (SetUTCOffset (dur_Seconds_int (cf_UTCOffset (sv_Config s))) st))) s)"

section \<open>Goroutines\<close>

text \<open>
  \<open>SubscriptionClient.Start\<close> in three parts: it marks itself running; sends its first message and
  creates its ticker; then acts on each tick. A ticker with a non-positive interval panics.
\<close>

definition start_running :: "nat \<Rightarrow> Server \<Rightarrow> Server" where
  "start_running a s = upd_sub a (setRunning True) s"

definition start_first :: "nat \<Rightarrow> Server \<Rightarrow> (Server \<times> duration) res option" where
  "start_first a s =
     (let sc = sv_subs s ! a;
          sent = (if sc_subscriptionType sc \<noteq> MessageDelayResp then Once a s else Some s) in
      case sent of
        None \<Rightarrow> None
      | Some s \<Rightarrow> Some (if sc_interval sc \<le> 0 then Inl Panic else Ok (s, sc_interval sc)))"

text \<open>A tick: \<open>None\<close> blocked on the queue, otherwise the state and whether the loop goes on.\<close>

definition start_tick :: "gotime \<Rightarrow> nat \<Rightarrow> duration \<Rightarrow> Server \<Rightarrow> (Server \<times> duration option) res option" where
  "start_tick now a oldInterval s =
     (let sc = sv_subs s ! a in
      if Expired now sc then Some (Ok (upd_sub a (setRunning False) s, None))
      else if oldInterval \<noteq> sc_interval sc \<and> sc_interval sc \<le> 0 then Some (Inl Panic)
      else case (if sc_subscriptionType sc \<noteq> MessageDelayResp then Once a s else Some s) of
          None \<Rightarrow> None
        | Some s \<Rightarrow> Some (Ok (s, Some (sc_interval sc))))"

definition set_goroutine :: "nat \<Rightarrow> goroutine option \<Rightarrow> Server \<Rightarrow> Server" where
  "set_goroutine g t s = (case t of
     None \<Rightarrow> s\<lparr>sv_goroutines := take g (sv_goroutines s) @ drop (Suc g) (sv_goroutines s)\<rparr>
   | Some t \<Rightarrow> s\<lparr>sv_goroutines := (sv_goroutines s)[g := t]\<rparr>)"

inductive server_step :: "env \<Rightarrow> Server \<Rightarrow> Server \<Rightarrow> bool" for e where
  general: "handleGeneralMessage e now ok recv s = Ok s' \<Longrightarrow> server_step e s s'"
| event: "handleEventMessage e recv s = Ok s' \<Longrightarrow> server_step e s s'"
| spawned: "g < length (sv_goroutines s) \<Longrightarrow> sv_goroutines s ! g = Spawned a \<Longrightarrow>
    server_step e s (set_goroutine g (Some (First a)) (start_running a s))"
| first: "g < length (sv_goroutines s) \<Longrightarrow> sv_goroutines s ! g = First a \<Longrightarrow>
    start_first a s = Some (Ok (s', d)) \<Longrightarrow>
    server_step e s (set_goroutine g (Some (Ticking a d)) s')"
| tick: "g < length (sv_goroutines s) \<Longrightarrow> sv_goroutines s ! g = Ticking a old \<Longrightarrow>
    start_tick now a old s = Some (Ok (s', next)) \<Longrightarrow>
    server_step e s (set_goroutine g (map_option (Ticking a) next) s')"
| pending: "g < length (sv_goroutines s) \<Longrightarrow> sv_goroutines s ! g = Pending a \<Longrightarrow>
    Once a s = Some s' \<Longrightarrow> server_step e s (set_goroutine g None s')"
| worker: "w < length (sv_sw s) \<Longrightarrow> sw_queue (sv_sw s ! w) = a # q \<Longrightarrow>
    worker_one e w a io (s\<lparr>sv_sw := (sv_sw s)[w := (sv_sw s ! w)\<lparr>sw_queue := q\<rparr>]\<rparr>) = Ok s' \<Longrightarrow>
    server_step e s s'"
| metrics: "server_step e s (report_metrics s)"
| utc_offset: "cf_SHM (sv_Config s) \<Longrightarrow> SetUTCOffsetFromSHM p t (sv_Config s) = (c, r) \<Longrightarrow> server_step e s (s\<lparr>sv_Config := c\<rparr>)"

inductive reachable :: "env \<Rightarrow> Server \<Rightarrow> Server \<Rightarrow> bool" for e s0 where
  start: "reachable e s0 s0"
| step: "reachable e s0 s \<Longrightarrow> server_step e s s' \<Longrightarrow> reachable e s0 s'"

inductive_cases server_stepE: "server_step e s s'"

section \<open>The invariant\<close>

text \<open>The subscription table of a worker as a set of entries.\<close>

definition entries :: "sendWorker \<Rightarrow> (MessageType \<times> PortIdentity \<times> nat) set" where
  "entries w = {(st, cid, a). \<exists>m. (st, m) \<in> set (sw_clients w) \<and> (cid, a) \<in> set m}"

lemma FindSubscription_entries: "FindSubscription cid st w = Some a \<Longrightarrow> (st, cid, a) \<in> entries w"
  by (auto simp: FindSubscription_def entries_def dest!: map_of_SomeD split: option.splits)

lemma set_update_subset: "set (AList.update k v m) \<subseteq> insert (k, v) (set m)"
  by (induction m) auto

lemma entries_Register:
  "entries (RegisterSubscription cid st a w) \<subseteq> insert (st, cid, a) (entries w)"
proof -
  define m where "m = (case map_of (sw_clients w) st of None \<Rightarrow> [] | Some m \<Rightarrow> m)"
  have m: "m = [] \<or> (st, m) \<in> set (sw_clients w)"
    by (auto simp: m_def dest: map_of_SomeD split: option.splits)
  have "(t, n) \<in> set (AList.update st (AList.update cid a m) (sw_clients w)) \<Longrightarrow>
      (t, n) = (st, AList.update cid a m) \<or> (t, n) \<in> set (sw_clients w)" for t n
    using set_update_subset by fastforce
  then have "(t, c, x) = (st, cid, a) \<or> (t, c, x) \<in> entries w"
    if "(t, n) \<in> set (AList.update st (AList.update cid a m) (sw_clients w))" "(c, x) \<in> set n" for t n c x
    using that m set_update_subset [of cid a m] unfolding entries_def by fastforce
  then show ?thesis
    by (auto simp: RegisterSubscription_def Let_def entries_def m_def [symmetric] split: prod.splits)
qed

definition worker_ok :: "env \<Rightarrow> Server \<Rightarrow> nat \<Rightarrow> bool" where
  "worker_ok e s w \<longleftrightarrow>
     sw_id (sv_sw s ! w) = w \<and>
     length (sw_queue (sv_sw s ! w)) \<le> Suc (cf_QueueSize (sv_Config s)) \<and>
     (\<forall>a \<in> set (sw_queue (sv_sw s ! w)). a < length (sv_subs s)) \<and>
     (\<forall>(st, cid, a) \<in> entries (sv_sw s ! w).
        a < length (sv_subs s) \<and> sc_subscriptionType (sv_subs s ! a) = st \<and>
        sc_queue (sv_subs s ! a) = w \<and>
        en_intn e (seed_of cid) (nat (cf_SendWorkers (sv_Config s))) = w)"

definition subs_ok :: "Server \<Rightarrow> bool" where
  "subs_ok s \<longleftrightarrow> (\<forall>sc \<in> set (sv_subs s).
     sub_ok sc \<and> grantable (sc_subscriptionType sc) \<and> sc_queue sc < length (sv_sw s))"

definition decodes :: "bytes \<Rightarrow> bool" where
  "decodes b \<longleftrightarrow> (\<exists>p. packet_ok p \<and> DecodePacket mgmtTLVDecoder b = Ok p)"

definition server_inv :: "env \<Rightarrow> Server \<Rightarrow> bool" where
  "server_inv e s \<longleftrightarrow>
     0 < cf_SendWorkers (sv_Config s) \<and> nat (cf_SendWorkers (sv_Config s)) = length (sv_sw s) \<and>
     (\<forall>w < length (sv_sw s). worker_ok e s w) \<and> subs_ok s \<and>
     (\<forall>g \<in> set (sv_goroutines s). goroutine_sub g < length (sv_subs s)) \<and>
     (\<forall>(b, sa) \<in> set (sv_sent s). decodes b)"

lemmas inv_defs = server_inv_def worker_ok_def subs_ok_def

text \<open>Updates of a subscription that keep its queue, its type and its packets.\<close>

definition keeps :: "(SubscriptionClient \<Rightarrow> SubscriptionClient) \<Rightarrow> bool" where
  "keeps f \<longleftrightarrow> (\<forall>sc. sub_ok sc \<longrightarrow> sub_ok (f sc) \<and> sc_queue (f sc) = sc_queue sc \<and>
     sc_subscriptionType (f sc) = sc_subscriptionType sc)"

lemma keeps_updates [simp]:
  "keeps (Stop now)" "keeps (setRunning r)" "keeps IncSequenceID" "keeps UpdateSync"
  "keeps (UpdateFollowup cvt t)" "keeps (UpdateAnnounce cvt c)" "keeps (UpdateDelayResp h t)"
  unfolding keeps_def
  by (simp_all, simp_all add: Stop_def setRunning_def IncSequenceID_def UpdateSync_def
      UpdateFollowup_def UpdateAnnounce_def UpdateDelayResp_def)

lemma keeps_renew [simp]: "keeps (\<lambda>sc. sc\<lparr>sc_expire := x, sc_interval := i\<rparr>)"
  by (simp add: keeps_def sub_ok_def)

lemma upd_sub_simps [simp]:
  "sv_sw (upd_sub a f s) = sv_sw s" "sv_Config (upd_sub a f s) = sv_Config s"
  "sv_goroutines (upd_sub a f s) = sv_goroutines s" "sv_sent (upd_sub a f s) = sv_sent s"
  "sv_Stats (upd_sub a f s) = sv_Stats s" "length (sv_subs (upd_sub a f s)) = length (sv_subs s)"
  by (simp_all add: upd_sub_def)

lemma upd_stats_simps [simp]:
  "sv_sw (upd_stats f s) = sv_sw s" "sv_Config (upd_stats f s) = sv_Config s"
  "sv_goroutines (upd_stats f s) = sv_goroutines s" "sv_sent (upd_stats f s) = sv_sent s"
  "sv_subs (upd_stats f s) = sv_subs s" "sv_Stats (upd_stats f s) = f (sv_Stats s)"
  by (simp_all add: upd_stats_def)

lemma send_to_simps [simp]:
  "sv_sw (send_to b sa s) = sv_sw s" "sv_Config (send_to b sa s) = sv_Config s"
  "sv_goroutines (send_to b sa s) = sv_goroutines s" "sv_subs (send_to b sa s) = sv_subs s"
  "sv_sent (send_to b sa s) = sv_sent s @ [(b, sa)]" "sv_Stats (send_to b sa s) = sv_Stats s"
  by (simp_all add: send_to_def)

lemma subs_upd_sub:
  assumes "subs_ok s" and "keeps f" and "i < length (sv_subs s)"
  shows "sc_queue (sv_subs (upd_sub a f s) ! i) = sc_queue (sv_subs s ! i)"
    and "sc_subscriptionType (sv_subs (upd_sub a f s) ! i) = sc_subscriptionType (sv_subs s ! i)"
    and "sub_ok (sv_subs (upd_sub a f s) ! i)"
proof -
  have "sub_ok (sv_subs s ! i)"
    using assms(1,3) nth_mem by (fastforce simp: subs_ok_def)
  with assms(2) have "sub_ok (f (sv_subs s ! i)) \<and> sc_queue (f (sv_subs s ! i)) = sc_queue (sv_subs s ! i) \<and>
      sc_subscriptionType (f (sv_subs s ! i)) = sc_subscriptionType (sv_subs s ! i)"
    unfolding keeps_def by blast
  moreover have "sv_subs (upd_sub a f s) ! i = (if i = a then f (sv_subs s ! i) else sv_subs s ! i)"
    using assms(3) by (auto simp: upd_sub_def)
  ultimately show "sc_queue (sv_subs (upd_sub a f s) ! i) = sc_queue (sv_subs s ! i)"
    and "sc_subscriptionType (sv_subs (upd_sub a f s) ! i) = sc_subscriptionType (sv_subs s ! i)"
    and "sub_ok (sv_subs (upd_sub a f s) ! i)"
    using \<open>sub_ok (sv_subs s ! i)\<close> by auto
qed

lemma subs_ok_nth:
  "subs_ok s \<longleftrightarrow> (\<forall>i < length (sv_subs s). sub_ok (sv_subs s ! i) \<and>
     grantable (sc_subscriptionType (sv_subs s ! i)) \<and> sc_queue (sv_subs s ! i) < length (sv_sw s))"
  by (auto simp: subs_ok_def all_set_conv_all_nth)

lemma worker_ok_upd_sub:
  assumes "subs_ok s" and "keeps f" and "worker_ok e s w"
  shows "worker_ok e (upd_sub a f s) w"
  using assms(3) subs_upd_sub [OF assms(1,2)] by (auto simp: worker_ok_def)

lemma subs_ok_upd_sub: "subs_ok s \<Longrightarrow> keeps f \<Longrightarrow> subs_ok (upd_sub a f s)"
  using subs_upd_sub [of s f _ a] by (simp add: subs_ok_nth)

lemma inv_upd_sub: "server_inv e s \<Longrightarrow> keeps f \<Longrightarrow> server_inv e (upd_sub a f s)"
  by (simp add: server_inv_def worker_ok_upd_sub subs_ok_upd_sub)

lemma worker_ok_frame [simp]:
  "worker_ok e (upd_stats f s) w = worker_ok e s w" "worker_ok e (send_to b sa s) w = worker_ok e s w"
  "worker_ok e (s\<lparr>sv_goroutines := gs\<rparr>) w = worker_ok e s w"
  "worker_ok e (s\<lparr>sv_Config := (sv_Config s)\<lparr>cf_UTCOffset := u\<rparr>\<rparr>) w = worker_ok e s w"
  by (simp_all add: worker_ok_def)

lemma subs_ok_frame [simp]:
  "subs_ok (upd_stats f s) = subs_ok s" "subs_ok (send_to b sa s) = subs_ok s"
  "subs_ok (s\<lparr>sv_goroutines := gs\<rparr>) = subs_ok s" "subs_ok (s\<lparr>sv_Config := c\<rparr>) = subs_ok s"
  by (simp_all add: subs_ok_def)

lemma inv_upd_stats: "server_inv e s \<Longrightarrow> server_inv e (upd_stats f s)"
  by (simp add: server_inv_def)

lemma inv_send_to: "server_inv e s \<Longrightarrow> decodes b \<Longrightarrow> server_inv e (send_to b sa s)"
  by (simp add: server_inv_def)

lemma inv_goroutine: "server_inv e s \<Longrightarrow> a < length (sv_subs s) \<Longrightarrow> goroutine_sub g = a \<Longrightarrow>
    server_inv e (s\<lparr>sv_goroutines := sv_goroutines s @ [g]\<rparr>)"
  by (simp add: server_inv_def)

lemma inv_set_goroutine:
  assumes "server_inv e s" and "\<And>t. g = Some t \<Longrightarrow> goroutine_sub t < length (sv_subs s)"
  shows "server_inv e (set_goroutine i g s)"
proof -
  have "set (take i xs @ drop (Suc i) xs) \<subseteq> set xs" for xs :: "goroutine list"
    by (auto dest: in_set_takeD in_set_dropD)
  then show ?thesis
    using assms set_update_subset_insert [of "sv_goroutines s" i]
    by (cases g) (fastforce simp: set_goroutine_def server_inv_def)+
qed

lemma inv_config:
  "server_inv e s \<Longrightarrow> server_inv e (s\<lparr>sv_Config := (sv_Config s)\<lparr>cf_UTCOffset := u\<rparr>\<rparr>)"
  by (simp add: server_inv_def)

lemma inv_Once:
  assumes "server_inv e s" and "Once a s = Some s'" and "a < length (sv_subs s)"
  shows "server_inv e s' \<and> sv_subs s' = sv_subs s \<and> sv_goroutines s' = sv_goroutines s"
proof -
  define w where "w = sc_queue (sv_subs s ! a)"
  have s': "s' = s\<lparr>sv_sw := (sv_sw s)[w := (sv_sw s ! w)\<lparr>sw_queue := sw_queue (sv_sw s ! w) @ [a]\<rparr>]\<rparr>"
      and q: "length (sw_queue (sv_sw s ! w)) \<le> cf_QueueSize (sv_Config s)"
    using assms(2) by (auto simp: Once_def Let_def w_def split: if_splits)
  have "subs_ok s" using assms(1) by (simp add: server_inv_def)
  with assms(3) have w: "w < length (sv_sw s)"
    by (simp add: subs_ok_nth w_def)
  have "worker_ok e s' v" if "v < length (sv_sw s)" for v
  proof -
    have ok: "worker_ok e s v" using assms(1) that by (simp add: server_inv_def)
    show ?thesis
    proof (cases "v = w")
      case True
      with ok w q assms(3) show ?thesis
        by (simp add: s' worker_ok_def entries_def)
    next
      case False
      with ok show ?thesis by (simp add: s' worker_ok_def)
    qed
  qed
  then show ?thesis
    using assms(1) by (simp add: server_inv_def s' subs_ok_def)
qed

section \<open>Every handler keeps the invariant\<close>

lemma sub_ok_at: "server_inv e s \<Longrightarrow> a < length (sv_subs s) \<Longrightarrow> sub_ok (sv_subs s ! a)"
  by (simp add: server_inv_def subs_ok_nth)

lemma findWorker_Ok:
  assumes "server_inv e s" and "env_ok e"
  shows "\<exists>w. findWorker e cid s = Ok w \<and> w < length (sv_sw s) \<and>
    w = en_intn e (seed_of cid) (nat (cf_SendWorkers (sv_Config s)))"
proof -
  have n: "nat (cf_SendWorkers (sv_Config s)) = length (sv_sw s)" "0 < cf_SendWorkers (sv_Config s)"
    using assms(1) by (simp_all add: server_inv_def)
  then have "0 < length (sv_sw s)" by (simp add: n(1) [symmetric])
  with assms(2) have "en_intn e (seed_of cid) (length (sv_sw s)) < length (sv_sw s)"
    by (simp add: env_ok_def)
  with n show ?thesis by (simp add: findWorker_def Let_def)
qed

lemma decodes_packet:
  assumes "packet_ok p" and "Packet_Bytes p = Ok b"
  shows "decodes b"
  using assms decode_packet_bytes [OF assms(1)] by (auto simp: decodes_def)

lemma prepare_packets:
  shows "cok SyncDelayReq_codec x \<Longrightarrow> prepare (SyncDelayReq_MarshalBinaryTo x) = Packet_Bytes (P_SyncDelayReq x)"
    and "cok FollowUp_codec f \<Longrightarrow> prepare (FollowUp_MarshalBinaryTo f) = Packet_Bytes (P_FollowUp f)"
    and "cok Announce_codec n \<Longrightarrow> prepare (Announce_MarshalBinaryTo n) = Packet_Bytes (P_Announce n)"
    and "cok DelayResp_codec d \<Longrightarrow> prepare (DelayResp_MarshalBinaryTo d) = Packet_Bytes (P_DelayResp d)"
  by (simp_all add: prepare_def send_buf_def marshalled sync_m.BytesTo_enough followup_m.BytesTo_enough
      announce_m.BytesTo_enough delayresp_m.BytesTo_enough twoZeros_def binary_Write_def wf_codecD(1) [OF wf_SyncDelayReq] wf_codecD(1) [OF wf_FollowUp]
      wf_codecD(1) [OF wf_Announce] wf_codecD(1) [OF wf_DelayResp])

text \<open>A worker never fails to prepare a packet, and what it prepares can be decoded.\<close>

lemma packet_decodes: "packet_ok p \<Longrightarrow> \<exists>b. Packet_Bytes p = Ok b \<and> decodes b"
  using decode_packet_bytes [of p] by (auto simp: decodes_def)

lemma prepared:
  assumes "sub_ok sc"
  shows "\<exists>b. prepare (SyncDelayReq_MarshalBinaryTo (sc_syncP sc)) = Ok b \<and> decodes b"
    and "\<exists>b. prepare (FollowUp_MarshalBinaryTo (sc_followupP sc)) = Ok b \<and> decodes b"
    and "\<exists>b. prepare (Announce_MarshalBinaryTo (sc_announceP sc)) = Ok b \<and> decodes b"
    and "\<exists>b. prepare (DelayResp_MarshalBinaryTo (sc_delayRespP sc)) = Ok b \<and> decodes b"
proof -
  have ok: "packet_ok (P_SyncDelayReq (sc_syncP sc))" "packet_ok (P_FollowUp (sc_followupP sc))"
      "packet_ok (P_Announce (sc_announceP sc))" "packet_ok (P_DelayResp (sc_delayRespP sc))"
    using assms by (simp_all only: sub_ok_def)
  then have "cok SyncDelayReq_codec (sc_syncP sc)" "cok FollowUp_codec (sc_followupP sc)"
      "cok Announce_codec (sc_announceP sc)" "cok DelayResp_codec (sc_delayRespP sc)"
    by simp_all
  then show "\<exists>b. prepare (SyncDelayReq_MarshalBinaryTo (sc_syncP sc)) = Ok b \<and> decodes b"
    "\<exists>b. prepare (FollowUp_MarshalBinaryTo (sc_followupP sc)) = Ok b \<and> decodes b"
    "\<exists>b. prepare (Announce_MarshalBinaryTo (sc_announceP sc)) = Ok b \<and> decodes b"
    "\<exists>b. prepare (DelayResp_MarshalBinaryTo (sc_delayRespP sc)) = Ok b \<and> decodes b"
    using ok [THEN packet_decodes] by (simp_all only: prepare_packets)
qed

lemmas inv_intros = inv_upd_sub inv_upd_stats inv_send_to

lemma inv_worker_done: "server_inv e s \<Longrightarrow> server_inv e (worker_done w a s)"
  by (simp add: worker_done_def inv_intros)

lemma inv_worker_general:
  assumes "server_inv e s" and "packet = Ok b" and "decodes b"
  shows "\<exists>s'. worker_general w a ok packet s = Ok s' \<and> server_inv e s'"
  using assms by (simp add: worker_general_def Let_def inv_worker_done inv_intros)

lemma inv_worker_followup:
  assumes "server_inv e s" and "a < length (sv_subs s)"
  shows "\<exists>s'. worker_followup e w a io s = Ok s' \<and> server_inv e s'"
proof (cases "io_tx io")
  case (Inl x)
  with assms show ?thesis by (simp add: worker_followup_def)
next
  case (Inr t)
  define tx where "tx = (if cf_TimestampType (sv_Config s) \<noteq> HWTIMESTAMP
    then t_Add t (cf_UTCOffset (sv_Config s)) else t)"
  define s1 where "s1 = upd_sub a (UpdateFollowup (en_cvt e) tx) s"
  have i: "server_inv e s1" "a < length (sv_subs s1)"
    using assms by (simp_all add: s1_def inv_intros)
  obtain b where b: "prepare (FollowUp_MarshalBinaryTo (sc_followupP (sv_subs s1 ! a))) = Ok b" "decodes b"
    using prepared(2) sub_ok_at [OF i] by blast
  have "worker_followup e w a io s =
      (if \<not> io_send2 io then Ok s1
       else Ok (worker_done w a (upd_stats (IncTX MessageFollowUp)
         (send_to b (sc_gclisa (sv_subs s1 ! a)) s1))))"
    using b(1) by (simp add: worker_followup_def Inr Let_def s1_def tx_def)
  with i(1) b(2) show ?thesis by (simp add: inv_worker_done inv_intros)
qed

lemma inv_worker_sync:
  assumes "server_inv e s" and "a < length (sv_subs s)"
  shows "\<exists>s'. worker_sync e w a io s = Ok s' \<and> server_inv e s'"
proof -
  define s1 where "s1 = upd_sub a UpdateSync s"
  have i: "server_inv e s1" "a < length (sv_subs s1)"
    using assms by (simp_all add: s1_def inv_intros)
  obtain b where b: "prepare (SyncDelayReq_MarshalBinaryTo (sc_syncP (sv_subs s1 ! a))) = Ok b" "decodes b"
    using prepared(1) sub_ok_at [OF i] by blast
  define s2 where "s2 = upd_stats (SetMaxTXTSAttempts w (int (io_attempts io)))
    (upd_stats (IncTX (sc_subscriptionType (sv_subs s1 ! a)))
      (send_to b (sc_eclisa (sv_subs s1 ! a)) s1))"
  have "worker_sync e w a io s = (if \<not> io_send1 io then Ok s1 else worker_followup e w a io s2)"
    using b(1) by (simp add: worker_sync_def Let_def s1_def s2_def)
  moreover have "server_inv e s2" "a < length (sv_subs s2)"
    using i b(2) by (simp_all add: s2_def inv_intros)
  ultimately show ?thesis using inv_worker_followup i(1) by simp
qed

lemma inv_worker_one:
  assumes "server_inv e s" and "a < length (sv_subs s)"
  shows "\<exists>s'. worker_one e w a io s = Ok s' \<and> server_inv e s'"
proof -
  let ?s = "upd_sub a (UpdateAnnounce (en_cvt e) (sv_Config s)) s"
  have i: "server_inv e ?s" "a < length (sv_subs ?s)"
    using assms by (simp_all add: inv_intros)
  obtain b where "prepare (Announce_MarshalBinaryTo (sc_announceP (sv_subs ?s ! a))) = Ok b" "decodes b"
    using prepared(3) sub_ok_at [OF i] by blast
  from inv_worker_general [OF i(1) this] have A:
    "\<exists>s'. worker_general w a (io_send1 io)
       (prepare (Announce_MarshalBinaryTo (sc_announceP (sv_subs ?s ! a)))) ?s = Ok s' \<and> server_inv e s'" .
  obtain b where "prepare (DelayResp_MarshalBinaryTo (sc_delayRespP (sv_subs s ! a))) = Ok b" "decodes b"
    using prepared(4) sub_ok_at [OF assms] by blast
  from inv_worker_general [OF assms(1) this] have D:
    "\<exists>s'. worker_general w a (io_send1 io)
       (prepare (DelayResp_MarshalBinaryTo (sc_delayRespP (sv_subs s ! a)))) s = Ok s' \<and> server_inv e s'" .
  show ?thesis
    using A D inv_worker_sync [OF assms] assms(1) by (simp add: worker_one_def Let_def)
qed

lemma inv_upd_sub_const:
  assumes "server_inv e s" and "sub_ok sc" and "sc_queue sc = sc_queue (sv_subs s ! a)"
    and "sc_subscriptionType sc = sc_subscriptionType (sv_subs s ! a)"
  shows "server_inv e (upd_sub a (\<lambda>_. sc) s)"
proof -
  let ?f = "\<lambda>x. if x = sv_subs s ! a then sc else x"
  have "upd_sub a (\<lambda>_. sc) s = upd_sub a ?f s" by (simp add: upd_sub_def)
  moreover have "keeps ?f" using assms(2-4) by (simp add: keeps_def)
  ultimately show ?thesis using inv_upd_sub [OF assms(1)] by metis
qed

text \<open>The grant a request is answered with, and that it decodes.\<close>

lemma inv_sendGrant:
  assumes "server_inv e s" and "a < length (sv_subs s)"
    and "Header_MessageType (sg_Header sg) = MessageSignaling"
  shows "\<exists>s'. sendGrant ok a sg mt i d sa s = Ok s' \<and> server_inv e s' \<and>
    length (sv_subs s') = length (sv_subs s)"
proof -
  obtain g where g: "UpdateGrant sg mt i d (sv_subs s ! a) = Ok ((sv_subs s ! a)\<lparr>sc_grant := g\<rparr>)"
      "grant_shape g" "h_SdoIDAndMsgType (sg_Header g) = h_SdoIDAndMsgType (sg_Header sg)"
    using UpdateGrant_Ok [OF sub_ok_at [OF assms(1,2)], of sg mt i d] by auto
  have "packet_ok (P_Signaling g)"
    using g(2,3) assms(3) by (intro grant_packet_ok) (simp_all add: Header_MessageType_def)
  then obtain b where b: "Packet_Bytes (P_Signaling g) = Ok b" "decodes b"
    using packet_decodes by blast
  let ?sc = "(sv_subs s ! a)\<lparr>sc_grant := g\<rparr>"
  have i: "server_inv e (upd_sub a (\<lambda>_. ?sc) s)"
    using sub_ok_at [OF assms(1,2)] g(2) by (intro inv_upd_sub_const [OF assms(1)]) (simp_all add: sub_ok_def)
  have "sendGrant ok a sg mt i d sa s =
      (if \<not> ok then Ok (upd_sub a (\<lambda>_. ?sc) s)
       else Ok (upd_stats (IncTXSignaling (sc_subscriptionType ?sc)) (send_to b sa (upd_sub a (\<lambda>_. ?sc) s))))"
    using b(1) g(1) by (simp add: sendGrant_def Let_def)
  with i b(2) show ?thesis by (simp add: inv_intros)
qed

lemma entries_NewSendWorker [simp]: "entries (NewSendWorker i) = {}"
  by (simp add: entries_def NewSendWorker_def)

lemma Register_simps [simp]:
  "sw_id (RegisterSubscription cid st a w) = sw_id w"
  "sw_queue (RegisterSubscription cid st a w) = sw_queue w"
  by (simp_all add: RegisterSubscription_def Let_def)

lemma inv_create:
  assumes "server_inv e s" and "w < length (sv_sw s)"
    and "w = en_intn e (seed_of cid) (nat (cf_SendWorkers (sv_Config s)))"
    and "sub_ok sc" and "sc_queue sc = w" and "sc_subscriptionType sc = st" and "grantable st"
  shows "server_inv e (s\<lparr>sv_subs := sv_subs s @ [sc],
    sv_sw := (sv_sw s)[w := RegisterSubscription cid st (length (sv_subs s)) (sv_sw s ! w)]\<rparr>)"
    (is "server_inv e ?s")
proof -
  have "worker_ok e ?s v" if v: "v < length (sv_sw s)" for v
  proof -
    have ok: "worker_ok e s v" using assms(1) v by (simp add: server_inv_def)
    show ?thesis
    proof (cases "v = w")
      case True
      have "\<forall>(t, c, a) \<in> entries (sv_sw ?s ! w). a < length (sv_subs ?s) \<and>
          sc_subscriptionType (sv_subs ?s ! a) = t \<and> sc_queue (sv_subs ?s ! a) = w \<and>
          en_intn e (seed_of c) (nat (cf_SendWorkers (sv_Config s))) = w"
        using entries_Register [of cid st "length (sv_subs s)" "sv_sw s ! w"] ok True assms(2,3,5,6)
        by (fastforce simp: worker_ok_def nth_append)
      with ok True assms(2) show ?thesis by (auto simp: worker_ok_def)
    next
      case False
      with ok show ?thesis by (fastforce simp: worker_ok_def nth_append)
    qed
  qed
  moreover have "subs_ok ?s"
    using assms by (auto simp: server_inv_def subs_ok_def)
  ultimately show ?thesis
    using assms(1) by (auto simp: server_inv_def)
qed

lemma inv_find_or_create:
  assumes "server_inv e s" and "w < length (sv_sw s)"
    and "w = en_intn e (seed_of cid) (nat (cf_SendWorkers (sv_Config s)))" and "grantable st"
    and "find_or_create cid st w sa i x now s = (a, s')"
  shows "server_inv e s' \<and> a < length (sv_subs s') \<and> sv_Config s' = sv_Config s"
proof (cases "FindSubscription cid st (sv_sw s ! w)")
  case None
  with assms(5) have "a = length (sv_subs s)" and s': "s' = s\<lparr>sv_subs := sv_subs s @
      [NewSubscriptionClient w (IPToSockaddr (SockaddrToIP sa) PortEvent) sa st (sv_Config s) i x now],
      sv_sw := (sv_sw s)[w := RegisterSubscription cid st (length (sv_subs s)) (sv_sw s ! w)]\<rparr>"
    by (auto simp: find_or_create_def Let_def)
  moreover have "server_inv e s'"
    unfolding s' by (rule inv_create [OF assms(1-3)])
      (use assms(4) in \<open>simp_all add: sub_ok_new\<close>, simp_all add: NewSubscriptionClient_def)
  ultimately show ?thesis by simp
next
  case (Some b)
  have "worker_ok e s w" using assms(1,2) by (simp add: server_inv_def)
  with Some have "b < length (sv_subs s)"
    using FindSubscription_entries [OF Some] by (auto simp: worker_ok_def)
  with Some assms(1,5) show ?thesis
    by (auto simp: find_or_create_def inv_intros)
qed

lemma inv_handle_request:
  assumes "server_inv e s" and "env_ok e" and "Header_MessageType (sg_Header sg) = MessageSignaling"
  shows "\<exists>s'. handle_request e now ok sg sa v s = Ok s' \<and> server_inv e s'"
proof (cases "grantable (Unicast_MsgType (rq_MsgTypeAndReserved v))")
  case False
  with assms(1) show ?thesis by (simp add: handle_request_def Let_def inv_intros)
next
  case True
  let ?cid = "h_SourcePortIdentity (sg_Header sg)" and ?t = "Unicast_MsgType (rq_MsgTypeAndReserved v)"
  let ?d = "i64 (uint (rq_DurationField v) * second)"
  let ?i = "LogInterval_Duration (en_cvt e) (rq_LogInterMessagePeriod v)"
  obtain w where w: "findWorker e ?cid s = Ok w" "w < length (sv_sw s)"
      "w = en_intn e (seed_of ?cid) (nat (cf_SendWorkers (sv_Config s)))"
    using findWorker_Ok [OF assms(1,2)] by blast
  obtain a s1 where f: "find_or_create ?cid ?t w sa ?i (t_Add now ?d) now s = (a, s1)"
    by fastforce
  have i: "server_inv e s1" "a < length (sv_subs s1)"
    using inv_find_or_create [OF assms(1) w(2,3) True f] by simp_all
  define s2 where "s2 = (if \<not> Running (sv_subs s1 ! a)
    then s1\<lparr>sv_goroutines := sv_goroutines s1 @ [Spawned a]\<rparr> else s1)"
  have i2: "server_inv e s2" "a < length (sv_subs s2)"
    using i inv_goroutine [OF i, of "Spawned a"] by (simp_all add: s2_def)
  obtain s3 where s3: "sendGrant ok a sg (rq_MsgTypeAndReserved v) (rq_LogInterMessagePeriod v) 0 sa s1 = Ok s3"
      "server_inv e s3"
    using inv_sendGrant [OF i assms(3)] by blast
  obtain s4 where s4: "sendGrant ok a sg (rq_MsgTypeAndReserved v) (rq_LogInterMessagePeriod v)
      (rq_DurationField v) sa s2 = Ok s4" "server_inv e s4"
    using inv_sendGrant [OF i2 assms(3)] by blast
  have "handle_request e now ok sg sa v s =
      (if ?i < cf_MinSubInterval (sv_Config s1) \<or> cf_MaxSubDuration (sv_Config s1) < ?d then Ok s3
       else Ok (upd_stats (IncRXSignaling ?t) s4))"
    using True w(1) f s3(1) s4(1) by (simp add: handle_request_def Let_def s2_def)
  then show ?thesis using s3(2) s4(2) by (simp add: inv_intros)
qed

lemma inv_handle_cancel:
  assumes "server_inv e s" and "env_ok e"
  shows "\<exists>s'. handle_cancel e now sg v s = Ok s' \<and> server_inv e s'"
proof -
  obtain w where "findWorker e (h_SourcePortIdentity (sg_Header sg)) s = Ok w"
    using findWorker_Ok [OF assms] by blast
  with assms(1) show ?thesis
    by (simp add: handle_cancel_def Let_def inv_intros split: option.split)
qed

lemma inv_handle_TLV:
  assumes "server_inv e s" and "env_ok e" and "Header_MessageType (sg_Header sg) = MessageSignaling"
  shows "\<exists>s'. handle_TLV e now ok sg sa t s = Ok s' \<and> server_inv e s'"
  using inv_handle_request [OF assms] inv_handle_cancel [OF assms(1,2)] assms(1)
  by (cases t) simp_all

lemma inv_handle_TLVs:
  assumes "env_ok e" and "Header_MessageType (sg_Header sg) = MessageSignaling"
  shows "server_inv e s \<Longrightarrow> \<exists>s'. handle_TLVs e now ok i sg sa ts s = Ok s' \<and> server_inv e s'"
proof (induction ts arbitrary: s i)
  case Nil
  then show ?case by simp
next
  case (Cons t ts)
  obtain s1 where "handle_TLV e (now i) (ok i) sg sa t s = Ok s1" "server_inv e s1"
    using inv_handle_TLV [OF Cons.prems assms] by blast
  with Cons.IH show ?case by simp
qed

lemma Signaling_UnmarshalBinary_type:
  "Signaling_UnmarshalBinary old b = Ok sg \<Longrightarrow> Header_MessageType (sg_Header sg) = MessageSignaling"
  by (auto simp: Signaling_UnmarshalBinary_def Header_MessageType_def bind_res_Ok_iff split: if_splits)

lemma inv_handleGeneralMessage:
  assumes "server_inv e s" and "env_ok e" and "handleGeneralMessage e now ok recv s = Ok s'"
  shows "server_inv e s'"
proof (cases "s' = s")
  case False
  then obtain sg sa where "handle_TLVs e now ok 0 sg sa (sg_TLVs sg) s = Ok s'"
      "Header_MessageType (sg_Header sg) = MessageSignaling"
    using assms(3) Signaling_UnmarshalBinary_type
    by (auto simp: handleGeneralMessage_def Let_def split: sum.splits goerr.splits if_splits)
  with inv_handle_TLVs [OF assms(2) this(2) assms(1), of now ok 0 sa "sg_TLVs sg"] show ?thesis by auto
qed (use assms in simp)

lemma entry_bound:
  assumes "server_inv e s" and "FindSubscription cid st (sv_sw s ! w) = Some a" and "w < length (sv_sw s)"
  shows "a < length (sv_subs s)"
  using assms FindSubscription_entries [OF assms(2)] by (auto simp: server_inv_def worker_ok_def)

lemma inv_handle_delay_req:
  assumes "server_inv e s" and "env_ok e"
  shows "\<exists>s'. handle_delay_req e buf t s = Ok s' \<and> server_inv e s'"
proof (cases "SyncDelayReq_UnmarshalBinary buf")
  case (Inl x)
  with assms(1) sync_u.unmarshal_no_panic [of buf] show ?thesis
    by (cases x) (simp_all add: handle_delay_req_def)
next
  case (Inr r)
  obtain w where w: "findWorker e (h_SourcePortIdentity (sd_Header r)) s = Ok w" "w < length (sv_sw s)"
    using findWorker_Ok [OF assms] by blast
  show ?thesis
  proof (cases "FindSubscription (h_SourcePortIdentity (sd_Header r)) MessageDelayResp (sv_sw s ! w)")
    case None
    with assms(1) w Inr show ?thesis by (simp add: handle_delay_req_def)
  next
    case (Some a)
    let ?s = "upd_sub a (UpdateDelayResp (sd_Header r) t) s"
    have "server_inv e ?s" "a < length (sv_subs ?s)"
      using assms(1) entry_bound [OF assms(1) Some w(2)] by (simp_all add: inv_intros)
    then have "server_inv e (?s\<lparr>sv_goroutines := sv_goroutines ?s @ [Pending a]\<rparr>)"
      by (rule inv_goroutine) simp
    with w Inr Some show ?thesis by (simp add: handle_delay_req_def)
  qed
qed

lemma inv_handleEventMessage:
  assumes "server_inv e s" and "env_ok e"
  shows "\<exists>s'. handleEventMessage e recv s = Ok s' \<and> server_inv e s'"
proof -
  have "\<exists>s'. handle_delay_req e buf t (upd_stats f s) = Ok s' \<and> server_inv e s'" for buf t f
    using inv_handle_delay_req [OF inv_upd_stats [OF assms(1)] assms(2)] .
  with assms(1) show ?thesis
    by (cases recv) (auto simp: handleEventMessage_def Let_def inv_intros split: prod.split sum.split)
qed

lemma inv_inventory:
  assumes "server_inv e s" and "w < length (sv_sw s)"
  shows "server_inv e (inventoryClients w s) \<and> length (sv_sw (inventoryClients w s)) = length (sv_sw s)"
proof -
  let ?s = "inventoryClients w s"
  have e: "entries (sv_sw ?s ! v) \<subseteq> entries (sv_sw s ! v)" if "v < length (sv_sw s)" for v
    using assms(2) that by (cases "v = w") (auto simp: inventoryClients_def Let_def entries_def)
  have f: "sv_subs ?s = sv_subs s" "sv_Config ?s = sv_Config s" "sv_goroutines ?s = sv_goroutines s"
      "sv_sent ?s = sv_sent s" "length (sv_sw ?s) = length (sv_sw s)"
      "\<And>v. v < length (sv_sw s) \<Longrightarrow> sw_id (sv_sw ?s ! v) = sw_id (sv_sw s ! v) \<and>
        sw_queue (sv_sw ?s ! v) = sw_queue (sv_sw s ! v)"
    using assms(2) by (auto simp: inventoryClients_def Let_def nth_list_update)
  have "worker_ok e ?s v" if "v < length (sv_sw s)" for v
    using assms(1) that e [OF that] f by (fastforce simp: server_inv_def worker_ok_def)
  then show ?thesis
    using assms(1) f by (auto simp: server_inv_def subs_ok_def)
qed

lemma inv_report_metrics: "server_inv e s \<Longrightarrow> server_inv e (report_metrics s)"
proof -
  assume "server_inv e s"
  then have "(\<forall>w \<in> set ws. w < length (sv_sw s)) \<Longrightarrow> server_inv e (fold inventoryClients ws s)" for ws
  proof (induction ws arbitrary: s)
    case (Cons w ws)
    then show ?case using inv_inventory [OF Cons.prems(2), of w] by simp
  qed simp
  then show ?thesis
    by (simp add: report_metrics_def Let_def inv_upd_stats)
qed

lemma inv_dequeue:
  assumes "server_inv e s" and "w < length (sv_sw s)" and "sw_queue (sv_sw s ! w) = a # q"
  shows "server_inv e (s\<lparr>sv_sw := (sv_sw s)[w := (sv_sw s ! w)\<lparr>sw_queue := q\<rparr>]\<rparr>) \<and> a < length (sv_subs s)"
    (is "server_inv e ?s \<and> _")
proof -
  have ok: "worker_ok e s w" using assms(1,2) by (simp add: server_inv_def)
  have "worker_ok e ?s v" if "v < length (sv_sw s)" for v
  proof -
    have "worker_ok e s v" using assms(1) that by (simp add: server_inv_def)
    then show ?thesis using assms(2,3)
      by (cases "v = w") (auto simp: worker_ok_def entries_def)
  qed
  then show ?thesis
    using assms(1,3) ok by (auto simp: server_inv_def subs_ok_def worker_ok_def)
qed

lemma inv_goroutine_sub:
  "server_inv e s \<Longrightarrow> g < length (sv_goroutines s) \<Longrightarrow> goroutine_sub (sv_goroutines s ! g) < length (sv_subs s)"
  by (simp add: server_inv_def)

theorem server_step_inv:
  assumes "server_step e s s'" and "server_inv e s" and "env_ok e"
  shows "server_inv e s'"
  using assms(1)
proof cases
  case (general now ok recv)
  then show ?thesis using inv_handleGeneralMessage [OF assms(2,3)] by blast
next
  case (event recv)
  then show ?thesis using inv_handleEventMessage [OF assms(2,3), of recv] by auto
next
  case (spawned g a)
  have "a < length (sv_subs s)" using inv_goroutine_sub [OF assms(2) spawned(2)] spawned(3) by simp
  then show ?thesis
    unfolding spawned(1) by (intro inv_set_goroutine) (auto simp: start_running_def inv_intros assms(2))
next
  case (first g a s1 d)
  have a: "a < length (sv_subs s)" using inv_goroutine_sub [OF assms(2) first(2)] first(3) by simp
  then have "server_inv e s1 \<and> sv_subs s1 = sv_subs s"
    using first(4) assms(2) inv_Once [OF assms(2) _ a]
    by (auto simp: start_first_def Let_def split: if_splits option.splits)
  with a show ?thesis unfolding first(1) by (intro inv_set_goroutine) auto
next
  case (tick g a old now s1 nxt)
  have a: "a < length (sv_subs s)" using inv_goroutine_sub [OF assms(2) tick(2)] tick(3) by simp
  then have "server_inv e s1 \<and> length (sv_subs s1) = length (sv_subs s)"
    using tick(4) assms(2) inv_Once [OF assms(2) _ a]
    by (auto simp: start_tick_def Let_def inv_intros split: if_splits option.splits)
  with a show ?thesis unfolding tick(1) by (intro inv_set_goroutine) auto
next
  case (pending g a s1)
  have "a < length (sv_subs s)" using inv_goroutine_sub [OF assms(2) pending(2)] pending(3) by simp
  with inv_Once [OF assms(2) pending(4)] show ?thesis
    unfolding pending(1) by (intro inv_set_goroutine) auto
next
  case (worker w a q io)
  let ?s = "s\<lparr>sv_sw := (sv_sw s)[w := (sv_sw s ! w)\<lparr>sw_queue := q\<rparr>]\<rparr>"
  have "server_inv e ?s" "a < length (sv_subs ?s)"
    using inv_dequeue [OF assms(2) worker(1,2)] by simp_all
  from inv_worker_one [OF this, of w io] worker(3) show ?thesis by auto
next
  case metrics
  then show ?thesis using inv_report_metrics assms(2) by simp
next
  case (utc_offset p t c r)
  then show ?thesis
    using assms(2) inv_config [of e s]
    by (auto simp: SetUTCOffsetFromSHM_def Let_def split: sum.splits if_splits)
qed

section \<open>The subscription table\<close>

text \<open>
  What the handlers need of a worker's table: a registered subscription is found under its client and
  type, and registering one does not disturb the others.
\<close>

locale subscription_table =
  fixes find :: "'k \<Rightarrow> 't \<Rightarrow> 'w \<Rightarrow> 'a option" and register :: "'k \<Rightarrow> 't \<Rightarrow> 'a \<Rightarrow> 'w \<Rightarrow> 'w"
  assumes find_register: "find k t (register k' t' a w) = (if k = k' \<and> t = t' then Some a else find k t w)"
begin

lemma find_register_all:
  "find k t (fold (\<lambda>(k, t, a). register k t a) rs w) =
     (case map_of (map (\<lambda>(k, t, a). ((k, t), a)) (rev rs)) (k, t) of Some a \<Rightarrow> Some a | None \<Rightarrow> find k t w)"
  by (induction rs arbitrary: w) (auto simp: map_add_def find_register split: option.splits)

lemma register_overwrites: "find k t (register k t b (register k t a w)) = Some b"
  by (simp add: find_register)

end

interpretation worker_table: subscription_table FindSubscription RegisterSubscription
  by unfold_locales
    (auto simp: FindSubscription_def RegisterSubscription_def Let_def update_conv' split: option.splits)

section \<open>What a request is answered\<close>

lemma sendGrant_sent:
  assumes "sub_ok (sv_subs s ! a)" and "Header_MessageType (sg_Header sg) = MessageSignaling"
  shows "\<exists>s' b g t. sendGrant True a sg mt i d sa s = Ok s' \<and> sv_sent s' = sv_sent s @ [(b, sa)] \<and>
    DecodePacket mgmtTLVDecoder b = Ok (P_Signaling g) \<and>
    sg_TargetPortIdentity g = h_SourcePortIdentity (sg_Header sg) \<and>
    h_SequenceID (sg_Header g) = h_SequenceID (sg_Header sg) \<and>
    sg_TLVs g = [Grant_TLV t] \<and> gr_MsgTypeAndReserved t = mt \<and> gr_LogInterMessagePeriod t = i \<and>
    gr_DurationField t = d \<and> sv_sw s' = sv_sw s \<and> sv_goroutines s' = sv_goroutines s \<and>
    sv_Config s' = sv_Config s \<and>
    sv_subs s' = (sv_subs s)[a := (sv_subs s ! a)\<lparr>sc_grant := g\<rparr>]"
proof -
  obtain g t where g: "UpdateGrant sg mt i d (sv_subs s ! a) = Ok ((sv_subs s ! a)\<lparr>sc_grant := g\<rparr>)"
      "grant_shape g" "sg_TargetPortIdentity g = h_SourcePortIdentity (sg_Header sg)"
      "h_SdoIDAndMsgType (sg_Header g) = h_SdoIDAndMsgType (sg_Header sg)"
      "h_SequenceID (sg_Header g) = h_SequenceID (sg_Header sg)"
      "sg_TLVs g = [Grant_TLV t]" "gr_MsgTypeAndReserved t = mt"
      "gr_LogInterMessagePeriod t = i" "gr_DurationField t = d"
    using UpdateGrant_Ok [OF assms(1), of sg mt i d] by auto
  have "packet_ok (P_Signaling g)"
    using g(2,4) assms(2) by (intro grant_packet_ok) (simp_all add: Header_MessageType_def)
  then obtain b where b: "Packet_Bytes (P_Signaling g) = Ok b"
      "DecodePacket mgmtTLVDecoder b = Ok (P_Signaling g)"
    using decode_packet_bytes by blast
  let ?sc = "(sv_subs s ! a)\<lparr>sc_grant := g\<rparr>"
  let ?s = "upd_stats (IncTXSignaling (sc_subscriptionType ?sc)) (send_to b sa (upd_sub a (\<lambda>_. ?sc) s))"
  have "sendGrant True a sg mt i d sa s = Ok ?s"
    using b(1) g(1) by (simp add: sendGrant_def Let_def)
  moreover have "sv_subs ?s = (sv_subs s)[a := ?sc]" "sv_sent ?s = sv_sent s @ [(b, sa)]"
      "sv_sw ?s = sv_sw s" "sv_goroutines ?s = sv_goroutines s" "sv_Config ?s = sv_Config s"
    by (simp_all add: upd_sub_def)
  ultimately show ?thesis
    using b(2) g(3,5-9) by (intro exI [of _ ?s] exI [of _ b] exI [of _ g] exI [of _ t]) blast
qed

lemma find_or_create_result:
  assumes "find_or_create cid st w sa i x now s = (a, s')" and "server_inv e s" and "w < length (sv_sw s)"
  shows "FindSubscription cid st (sv_sw s' ! w) = Some a \<and> a < length (sv_subs s') \<and>
    sc_expire (sv_subs s' ! a) = x \<and> sc_interval (sv_subs s' ! a) = i \<and>
    sv_sent s' = sv_sent s \<and> sv_goroutines s' = sv_goroutines s \<and> sv_Config s' = sv_Config s \<and>
    length (sv_sw s') = length (sv_sw s) \<and>
    (case FindSubscription cid st (sv_sw s ! w) of
       None \<Rightarrow> \<not> Running (sv_subs s' ! a)
     | Some b \<Rightarrow> a = b \<and> Running (sv_subs s' ! a) = Running (sv_subs s ! b))"
proof (cases "FindSubscription cid st (sv_sw s ! w)")
  case None
  with assms(1,3) show ?thesis
    by (auto simp: find_or_create_def Let_def worker_table.find_register NewSubscriptionClient_def
        Running_def)
next
  case (Some b)
  with assms(1) entry_bound [OF assms(2) Some assms(3)] show ?thesis
    by (auto simp: find_or_create_def upd_sub_def Running_def)
qed

text \<open>The limits of the configuration a request may exceed.\<close>

definition out_of_limits :: "env \<Rightarrow> Config \<Rightarrow> RequestUnicastTransmissionTLV \<Rightarrow> bool" where
  "out_of_limits e c v \<longleftrightarrow>
     LogInterval_Duration (en_cvt e) (rq_LogInterMessagePeriod v) < cf_MinSubInterval c \<or>
     cf_MaxSubDuration c < uint (rq_DurationField v) * second"

lemma duration_in_i64: "i64 (uint (d :: u32) * second) = uint d * second"
proof -
  have "in_i64 (x * second)" if "0 \<le> x" "x < 2 ^ 32" for x
    using that by (simp add: in_i64_def i64_min_def i64_max_def second_def)
  moreover have "uint d < 2 ^ 32"
    by (rule order_less_le_trans [OF uint_bounded]) simp
  ultimately show ?thesis by simp
qed

lemma handle_request_answer:
  assumes "server_inv e s" and "env_ok e" and "Header_MessageType (sg_Header sg) = MessageSignaling"
    and "grantable (Unicast_MsgType (rq_MsgTypeAndReserved v))"
  shows "\<exists>s' b g t w a. handle_request e now True sg sa v s = Ok s' \<and>
    sv_sent s' = sv_sent s @ [(b, sa)] \<and> DecodePacket mgmtTLVDecoder b = Ok (P_Signaling g) \<and>
    sg_TargetPortIdentity g = h_SourcePortIdentity (sg_Header sg) \<and>
    h_SequenceID (sg_Header g) = h_SequenceID (sg_Header sg) \<and>
    sg_TLVs g = [Grant_TLV t] \<and> gr_MsgTypeAndReserved t = rq_MsgTypeAndReserved v \<and>
    gr_LogInterMessagePeriod t = rq_LogInterMessagePeriod v \<and>
    gr_DurationField t = (if out_of_limits e (sv_Config s) v then 0 else rq_DurationField v) \<and>
    findWorker e (h_SourcePortIdentity (sg_Header sg)) s = Ok w \<and>
    FindSubscription (h_SourcePortIdentity (sg_Header sg)) (Unicast_MsgType (rq_MsgTypeAndReserved v))
      (sv_sw s' ! w) = Some a \<and>
    sc_expire (sv_subs s' ! a) = t_Add now (uint (rq_DurationField v) * second) \<and>
    sc_interval (sv_subs s' ! a) = LogInterval_Duration (en_cvt e) (rq_LogInterMessagePeriod v) \<and>
    sv_goroutines s' = sv_goroutines s @
      (if out_of_limits e (sv_Config s) v \<or> Running (sv_subs s' ! a) then [] else [Spawned a]) \<and>
    sv_Config s' = sv_Config s \<and>
    (case FindSubscription (h_SourcePortIdentity (sg_Header sg))
        (Unicast_MsgType (rq_MsgTypeAndReserved v)) (sv_sw s ! w) of
       None \<Rightarrow> \<not> Running (sv_subs s' ! a)
     | Some b \<Rightarrow> a = b \<and> Running (sv_subs s' ! a) = Running (sv_subs s ! b))"
proof -
  let ?cid = "h_SourcePortIdentity (sg_Header sg)" and ?ty = "Unicast_MsgType (rq_MsgTypeAndReserved v)"
  let ?x = "t_Add now (uint (rq_DurationField v) * second)"
  let ?i = "LogInterval_Duration (en_cvt e) (rq_LogInterMessagePeriod v)"
  obtain w where w: "findWorker e ?cid s = Ok w" "w < length (sv_sw s)"
      "w = en_intn e (seed_of ?cid) (nat (cf_SendWorkers (sv_Config s)))"
    using findWorker_Ok [OF assms(1,2)] by blast
  obtain a s1 where f: "find_or_create ?cid ?ty w sa ?i ?x now s = (a, s1)" by fastforce
  note r = find_or_create_result [OF f assms(1) w(2)]
  define s2 where "s2 = (if out_of_limits e (sv_Config s) v \<or> Running (sv_subs s1 ! a) then s1
    else s1\<lparr>sv_goroutines := sv_goroutines s1 @ [Spawned a]\<rparr>)"
  have s2: "sv_subs s2 = sv_subs s1" "sv_sw s2 = sv_sw s1" "sv_sent s2 = sv_sent s"
      "sv_Config s2 = sv_Config s"
      "sv_goroutines s2 = sv_goroutines s @
        (if out_of_limits e (sv_Config s) v \<or> Running (sv_subs s1 ! a) then [] else [Spawned a])"
    using r by (simp_all add: s2_def)
  have "sub_ok (sv_subs s2 ! a)"
    using inv_find_or_create [OF assms(1) w(2,3) assms(4) f] sub_ok_at [of e s1 a] s2(1) by simp
  from sendGrant_sent [OF this assms(3), of "rq_MsgTypeAndReserved v" "rq_LogInterMessagePeriod v"
      "if out_of_limits e (sv_Config s) v then 0 else rq_DurationField v" sa]
  obtain s3 b g t where g: "sendGrant True a sg (rq_MsgTypeAndReserved v) (rq_LogInterMessagePeriod v)
        (if out_of_limits e (sv_Config s) v then 0 else rq_DurationField v) sa s2 = Ok s3"
      "sv_sent s3 = sv_sent s2 @ [(b, sa)]" "DecodePacket mgmtTLVDecoder b = Ok (P_Signaling g)"
      "sg_TargetPortIdentity g = ?cid" "h_SequenceID (sg_Header g) = h_SequenceID (sg_Header sg)"
      "sg_TLVs g = [Grant_TLV t]" "gr_MsgTypeAndReserved t = rq_MsgTypeAndReserved v"
      "gr_LogInterMessagePeriod t = rq_LogInterMessagePeriod v"
      "gr_DurationField t = (if out_of_limits e (sv_Config s) v then 0 else rq_DurationField v)"
      "sv_sw s3 = sv_sw s2" "sv_goroutines s3 = sv_goroutines s2" "sv_Config s3 = sv_Config s2"
      "sv_subs s3 = (sv_subs s2)[a := (sv_subs s2 ! a)\<lparr>sc_grant := g\<rparr>]"
    by blast
  define s4 where "s4 = (if out_of_limits e (sv_Config s) v then s3 else upd_stats (IncRXSignaling ?ty) s3)"
  have "handle_request e now True sg sa v s = Ok s4"
    using assms(4) w(1) f g(1) r
    by (auto simp: handle_request_def Let_def duration_in_i64 s2_def s4_def out_of_limits_def
        split: if_splits)
  moreover have "sv_sent s4 = sv_sent s @ [(b, sa)]" "sv_sw s4 = sv_sw s1" "sv_subs s4 = sv_subs s3"
      "sv_goroutines s4 = sv_goroutines s2" "sv_Config s4 = sv_Config s"
    using g s2 by (simp_all add: s4_def)
  moreover have "sc_expire (sv_subs s4 ! a) = ?x" "sc_interval (sv_subs s4 ! a) = ?i"
      "Running (sv_subs s4 ! a) = Running (sv_subs s1 ! a)"
    using calculation g(13) s2(1) r by (simp_all add: Running_def)
  moreover have "case FindSubscription ?cid ?ty (sv_sw s ! w) of
      None \<Rightarrow> \<not> Running (sv_subs s4 ! a)
    | Some b \<Rightarrow> a = b \<and> Running (sv_subs s4 ! a) = Running (sv_subs s ! b)"
    using calculation(9) r by (auto split: option.splits)
  ultimately show ?thesis
    using g r w(1) s2
    by - (rule exI [of _ s4], rule exI [of _ b], rule exI [of _ g], rule exI [of _ t], rule exI [of _ w],
      rule exI [of _ a], simp)
qed

section \<open>Safety of the running server\<close>

lemma server_inv_init:
  assumes "Server_init c mac = Ok s" and "0 < cf_SendWorkers c"
  shows "server_inv e s"
  using assms by (auto simp: Server_init_def server_inv_def worker_ok_def subs_ok_def
      split: sum.splits if_splits) (simp_all add: NewSendWorker_def entries_def)

lemma server_inv_reachable:
  assumes "reachable e s0 s" and "server_inv e s0" and "env_ok e"
  shows "server_inv e s"
  using assms by (induction rule: reachable.induct) (auto intro: server_step_inv)

lemma server_inv_running:
  assumes "Server_init c mac = Ok s0" and "0 < cf_SendWorkers c" and "env_ok e" and "reachable e s0 s"
  shows "server_inv e s"
  using server_inv_reachable [OF assms(4) server_inv_init [OF assms(1,2)] assms(3)] .

text \<open>
  C4: Every datagram a server ever sends, whatever it receives and however its goroutines interleave,
  decodes to a well-formed PTP packet.
\<close>
theorem sent_datagrams_decode:
  assumes "Server_init c mac = Ok s0" and "0 < cf_SendWorkers c" and "env_ok e" and "reachable e s0 s"
    and "(b, sa) \<in> set (sv_sent s)"
  shows "\<exists>p. packet_ok p \<and> DecodePacket mgmtTLVDecoder b = Ok p"
  using server_inv_running [OF assms(1-4)] assms(5) by (auto simp: server_inv_def decodes_def)

text \<open>
  C7: In every reachable state a subscription found in a worker's table exists, has the type it is
  filed under, feeds that worker's queue, and the worker is the one \<open>findWorker\<close> picks for the client:
  a client is served by one worker for good.
\<close>
theorem subscription_routing:
  assumes "Server_init c mac = Ok s0" and "0 < cf_SendWorkers c" and "env_ok e" and "reachable e s0 s"
    and "w < length (sv_sw s)" and "FindSubscription cid st (sv_sw s ! w) = Some a"
  shows "a < length (sv_subs s) \<and> sc_subscriptionType (sv_subs s ! a) = st \<and>
    sc_queue (sv_subs s ! a) = w \<and> findWorker e cid s = Ok w"
proof -
  have i: "server_inv e s" using server_inv_running [OF assms(1-4)] .
  then have "worker_ok e s w" using assms(5) by (simp add: server_inv_def)
  then show ?thesis
    using FindSubscription_entries [OF assms(6)] findWorker_Ok [OF i assms(3), of cid]
    by (auto simp: worker_ok_def)
qed


text \<open>
  C6: A request for Announce, Sync or Delay_Resp messages is answered with exactly one grant, addressed
  to the requesting port and carrying its sequence number, for the requested duration if the request
  is within the configured limits and for zero seconds otherwise. The client then has a subscription
  of that type with the requested interval and expiry, and its goroutine is started if the request was
  granted and the subscription was not running. A request out of limits is refused, but the interval
  and expiry of an existing subscription are overwritten all the same.
\<close>
theorem request_answered:
  assumes "Server_init c mac = Ok s0" and "0 < cf_SendWorkers c" and "env_ok e" and "reachable e s0 s"
    and "Header_MessageType (sg_Header sg) = MessageSignaling"
    and "grantable (Unicast_MsgType (rq_MsgTypeAndReserved v))"
  shows "\<exists>s' b g t w a. handle_request e now True sg sa v s = Ok s' \<and>
    sv_sent s' = sv_sent s @ [(b, sa)] \<and> DecodePacket mgmtTLVDecoder b = Ok (P_Signaling g) \<and>
    sg_TargetPortIdentity g = h_SourcePortIdentity (sg_Header sg) \<and>
    h_SequenceID (sg_Header g) = h_SequenceID (sg_Header sg) \<and>
    sg_TLVs g = [Grant_TLV t] \<and> gr_MsgTypeAndReserved t = rq_MsgTypeAndReserved v \<and>
    gr_LogInterMessagePeriod t = rq_LogInterMessagePeriod v \<and>
    gr_DurationField t = (if out_of_limits e (sv_Config s) v then 0 else rq_DurationField v) \<and>
    findWorker e (h_SourcePortIdentity (sg_Header sg)) s = Ok w \<and>
    FindSubscription (h_SourcePortIdentity (sg_Header sg)) (Unicast_MsgType (rq_MsgTypeAndReserved v))
      (sv_sw s' ! w) = Some a \<and>
    sc_expire (sv_subs s' ! a) = t_Add now (uint (rq_DurationField v) * second) \<and>
    sc_interval (sv_subs s' ! a) = LogInterval_Duration (en_cvt e) (rq_LogInterMessagePeriod v) \<and>
    sv_goroutines s' = sv_goroutines s @
      (if out_of_limits e (sv_Config s) v \<or> Running (sv_subs s' ! a) then [] else [Spawned a])"
  using handle_request_answer [OF server_inv_running [OF assms(1-4)] assms(3,5,6), of now sa] by blast

text \<open>
  Two granted requests of a client that had no subscription, handled before the goroutine started
  by the first one runs, start two goroutines for the same subscription.
\<close>
theorem repeated_request_starts_twice:
  assumes "Server_init c mac = Ok s0" and "0 < cf_SendWorkers c" and "env_ok e" and "reachable e s0 s"
    and "Header_MessageType (sg_Header sg) = MessageSignaling"
    and "grantable (Unicast_MsgType (rq_MsgTypeAndReserved v))" and "\<not> out_of_limits e (sv_Config s) v"
    and "findWorker e (h_SourcePortIdentity (sg_Header sg)) s = Ok w"
    and "FindSubscription (h_SourcePortIdentity (sg_Header sg))
      (Unicast_MsgType (rq_MsgTypeAndReserved v)) (sv_sw s ! w) = None"
  shows "\<exists>s1 s2 a. handle_request e now True sg sa v s = Ok s1 \<and>
    handle_request e now' True sg sa v s1 = Ok s2 \<and>
    sv_goroutines s2 = sv_goroutines s @ [Spawned a, Spawned a]"
proof -
  have i: "server_inv e s" using server_inv_running [OF assms(1-4)] .
  obtain s1 a where s1: "handle_request e now True sg sa v s = Ok s1"
      "FindSubscription (h_SourcePortIdentity (sg_Header sg))
        (Unicast_MsgType (rq_MsgTypeAndReserved v)) (sv_sw s1 ! w) = Some a"
      "\<not> Running (sv_subs s1 ! a)" "sv_goroutines s1 = sv_goroutines s @ [Spawned a]"
      "sv_Config s1 = sv_Config s"
    using handle_request_answer [OF i assms(3,5,6), of now sa] assms(7-9) by fastforce
  have "server_inv e s1"
    using inv_handle_request [OF i assms(3,5), of now True sa v] s1(1) by simp
  moreover have "findWorker e (h_SourcePortIdentity (sg_Header sg)) s1 = Ok w"
    using findWorker_Ok [OF i assms(3), of "h_SourcePortIdentity (sg_Header sg)"]
      findWorker_Ok [OF calculation assms(3), of "h_SourcePortIdentity (sg_Header sg)"] assms(8) s1(5)
    by auto
  ultimately obtain s2 where "handle_request e now' True sg sa v s1 = Ok s2"
      "sv_goroutines s2 = sv_goroutines s1 @ [Spawned a]"
    using handle_request_answer [of e s1 sg v now' sa] assms(3,5-7) s1(2,3,5) by fastforce
  with s1 show ?thesis by auto
qed

text \<open>
  The datagram that is a truncated Signaling packet makes the handler of general messages panic in
  any state of the server, whoever sends it.
\<close>
theorem truncated_signaling_crashes_server:
  "handleGeneralMessage e now ok (Ok (example_truncated, sa)) s = Inl Panic"
proof -
  have b: "take 128 example_truncated = example_truncated"
    using length_example_truncated by simp
  have "hd example_truncated = 0xC"
    by (simp add: example_truncated_def binary_Write_def Header_codec_def example_Signaling_def)
  moreover have "example_truncated \<noteq> []" using length_example_truncated by auto
  ultimately have "ProbeMsgType example_truncated = Ok MessageSignaling"
    by (auto simp: ProbeMsgType_def MsgType_def hd_conv_nth)
  with b show ?thesis
    by (simp add: handleGeneralMessage_def example_truncated_panics)
qed

section \<open>What workers send\<close>

lemma probe_header:
  assumes "SyncDelayReq_UnmarshalBinary b = Ok r"
  shows "ProbeMsgType b = Ok (Header_MessageType (sd_Header r))"
proof -
  have l: "44 \<le> length b"
    using assms packets_unmarshal_short(1) by (cases "length b < 44") auto
  then have "r = cdec SyncDelayReq_codec (take 44 b)"
    using assms SyncDelayReq_unmarshal_enough by simp
  then have "h_SdoIDAndMsgType (sd_Header r) = b ! 0"
    using l by (cases b) (simp_all add: SyncDelayReq_codec_def Header_codec_def)
  with l show ?thesis by (auto simp: ProbeMsgType_def Header_MessageType_def)
qed

lemma packet_sent:
  assumes "packet_ok p"
  obtains b where "Packet_Bytes p = Ok b" and "DecodePacket mgmtTLVDecoder b = Ok p"
  using decode_packet_bytes [OF assms] by blast

lemma nth_upd_sub [simp]: "a < length (sv_subs s) \<Longrightarrow> sv_subs (upd_sub a f s) ! a = f (sv_subs s ! a)"
  by (simp add: upd_sub_def)

lemma sent_worker_done [simp]:
  "sv_sent (worker_done w a s) = sv_sent s"
  "a < length (sv_subs s) \<Longrightarrow> sc_sequenceID (sv_subs (worker_done w a s) ! a) = sc_sequenceID (sv_subs s ! a) + 1"
  by (simp_all add: worker_done_def IncSequenceID_def)

lemma worker_sync_sends:
  assumes "Server_init c mac = Ok s0" and "0 < cf_SendWorkers c" and "env_ok e" and "reachable e s0 s"
    and "a < length (sv_subs s)" and "sc_subscriptionType (sv_subs s ! a) = MessageSync"
    and "io = \<lparr>io_send1 = True, io_tx = Ok t, io_attempts = n, io_send2 = True\<rparr>"
  shows "\<exists>s' b b' y f. worker_one e w a io s = Ok s' \<and>
    sv_sent s' = sv_sent s @ [(b, sc_eclisa (sv_subs s ! a)), (b', sc_gclisa (sv_subs s ! a))] \<and>
    DecodePacket mgmtTLVDecoder b = Ok (P_SyncDelayReq y) \<and>
    DecodePacket mgmtTLVDecoder b' = Ok (P_FollowUp f) \<and>
    Header_MessageType (sd_Header y) = MessageSync \<and>
    h_SequenceID (sd_Header y) = sc_sequenceID (sv_subs s ! a) \<and>
    h_SequenceID (fu_Header f) = sc_sequenceID (sv_subs s ! a) \<and>
    fb_PreciseOriginTimestamp (fu_FollowUpBody f) = NewTimestamp
      (if cf_TimestampType (sv_Config s) \<noteq> HWTIMESTAMP then t_Add t (cf_UTCOffset (sv_Config s)) else t) \<and>
    sc_sequenceID (sv_subs s' ! a) = sc_sequenceID (sv_subs s ! a) + 1"
proof -
  let ?sc = "sv_subs s ! a"
  let ?tx = "if cf_TimestampType (sv_Config s) \<noteq> HWTIMESTAMP then t_Add t (cf_UTCOffset (sv_Config s)) else t"
  let ?y = "sc_syncP (UpdateSync ?sc)" and ?f = "sc_followupP (UpdateFollowup (en_cvt e) ?tx (UpdateSync ?sc))"
  have "sub_ok ?sc" using sub_ok_at [OF server_inv_running [OF assms(1-4)] assms(5)] .
  then have ty: "Header_MessageType (sd_Header ?y) = MessageSync" and ok: "packet_ok (P_SyncDelayReq ?y)" "packet_ok (P_FollowUp ?f)"
    using sub_ok_updates(6) sub_ok_updates(7) [of "UpdateSync ?sc"] by (simp_all only: sub_ok_def)
  obtain b where b: "Packet_Bytes (P_SyncDelayReq ?y) = Ok b" "DecodePacket mgmtTLVDecoder b = Ok (P_SyncDelayReq ?y)"
    using packet_sent [OF ok(1)] .
  obtain b' where b': "Packet_Bytes (P_FollowUp ?f) = Ok b'" "DecodePacket mgmtTLVDecoder b' = Ok (P_FollowUp ?f)"
    using packet_sent [OF ok(2)] .
  have p: "prepare (SyncDelayReq_MarshalBinaryTo ?y) = Ok b" "prepare (FollowUp_MarshalBinaryTo ?f) = Ok b'"
    using b(1) b'(1) ok prepare_packets(1) [of ?y] prepare_packets(2) [of ?f] by simp_all
  have u: "sc_gclisa (UpdateSync ?sc) = sc_gclisa ?sc" "sc_eclisa (UpdateSync ?sc) = sc_eclisa ?sc"
      "sc_sequenceID (UpdateSync ?sc) = sc_sequenceID ?sc"
      "sc_gclisa (UpdateFollowup (en_cvt e) x z) = sc_gclisa z"
      "sc_sequenceID (UpdateFollowup (en_cvt e) x z) = sc_sequenceID z" for x z
    by (simp_all add: UpdateSync_def UpdateFollowup_def)
  define s1 where "s1 = send_to b (sc_eclisa ?sc) (upd_sub a UpdateSync s)"
  define s2 where "s2 = upd_stats (SetMaxTXTSAttempts w (int n)) (upd_stats (IncTX (sc_subscriptionType (UpdateSync ?sc))) s1)"
  define s3 where "s3 = upd_sub a (UpdateFollowup (en_cvt e) ?tx) s2"
  let ?s' = "worker_done w a (upd_stats (IncTX MessageFollowUp) (send_to b' (sc_gclisa (sv_subs s3 ! a)) s3))"
  have l: "a < length (sv_subs s2)" "sv_subs s2 ! a = UpdateSync ?sc" "sv_Config s2 = sv_Config s"
      "sv_sent s2 = sv_sent s @ [(b, sc_eclisa ?sc)]"
    using assms(5) by (simp_all add: s2_def s1_def)
  then have l3: "a < length (sv_subs s3)" "sv_subs s3 ! a = UpdateFollowup (en_cvt e) ?tx (UpdateSync ?sc)"
      "sv_sent s3 = sv_sent s @ [(b, sc_eclisa ?sc)]"
    by (simp_all add: s3_def)
  have "worker_followup e w a io s2 = Ok ?s'"
    using p(2) l l3 by (simp add: worker_followup_def assms(7) Let_def s3_def [symmetric])
  then have "worker_one e w a io s = Ok ?s'"
    using p(1) assms(5,6) u(2) by (simp add: worker_one_def worker_sync_def Let_def assms(7) s2_def s1_def)
  moreover have "sv_sent ?s' = sv_sent s @ [(b, sc_eclisa ?sc), (b', sc_gclisa ?sc)]"
      "sc_sequenceID (sv_subs ?s' ! a) = sc_sequenceID ?sc + 1"
    using l3 u by simp_all
  moreover have "h_SequenceID (sd_Header ?y) = sc_sequenceID ?sc" "h_SequenceID (fu_Header ?f) = sc_sequenceID ?sc"
      "fb_PreciseOriginTimestamp (fu_FollowUpBody ?f) = NewTimestamp ?tx"
    using u(3) by (simp_all add: UpdateSync_def UpdateFollowup_def SetSequence_def)
  ultimately show ?thesis using b(2) b'(2) ty by blast
qed

text \<open>
  C8: A worker that serves a Sync subscription sends a Sync to the event port and a Follow_Up to the
  general port with the same sequence number, the Follow_Up carrying the transmit timestamp, moved by
  the UTC offset unless it is a hardware timestamp, and then advances the sequence number.
\<close>
theorem sync_and_followup:
  assumes "Server_init c mac = Ok s0" and "0 < cf_SendWorkers c" and "env_ok e" and "reachable e s0 s"
    and "a < length (sv_subs s)" and "sc_subscriptionType (sv_subs s ! a) = MessageSync"
    and "io = \<lparr>io_send1 = True, io_tx = Ok t, io_attempts = n, io_send2 = True\<rparr>"
  shows "\<exists>s' b b' y f. worker_one e w a io s = Ok s' \<and>
    sv_sent s' = sv_sent s @ [(b, sc_eclisa (sv_subs s ! a)), (b', sc_gclisa (sv_subs s ! a))] \<and>
    DecodePacket mgmtTLVDecoder b = Ok (P_SyncDelayReq y) \<and>
    DecodePacket mgmtTLVDecoder b' = Ok (P_FollowUp f) \<and>
    Header_MessageType (sd_Header y) = MessageSync \<and>
    h_SequenceID (sd_Header y) = sc_sequenceID (sv_subs s ! a) \<and>
    h_SequenceID (fu_Header f) = sc_sequenceID (sv_subs s ! a) \<and>
    fb_PreciseOriginTimestamp (fu_FollowUpBody f) = NewTimestamp
      (if cf_TimestampType (sv_Config s) \<noteq> HWTIMESTAMP then t_Add t (cf_UTCOffset (sv_Config s)) else t) \<and>
    sc_sequenceID (sv_subs s' ! a) = sc_sequenceID (sv_subs s ! a) + 1"
  using assms by (rule worker_sync_sends)

lemma delay_request_answered:
  assumes "Server_init c mac = Ok s0" and "0 < cf_SendWorkers c" and "env_ok e" and "reachable e s0 s"
    and "SyncDelayReq_UnmarshalBinary (take 128 datagram) = Ok r"
    and "Header_MessageType (sd_Header r) = MessageDelayReq"
    and "findWorker e (h_SourcePortIdentity (sd_Header r)) s = Ok w"
    and "FindSubscription (h_SourcePortIdentity (sd_Header r)) MessageDelayResp (sv_sw s ! w) = Some a"
  shows "\<exists>s1 s2 b d. handleEventMessage e (Ok (datagram, sa, rx)) s = Ok s1 \<and>
    sv_goroutines s1 = sv_goroutines s @ [Pending a] \<and>
    worker_one e w a \<lparr>io_send1 = True, io_tx = tx, io_attempts = n, io_send2 = x\<rparr> s1 = Ok s2 \<and>
    sv_sent s2 = sv_sent s @ [(b, sc_gclisa (sv_subs s ! a))] \<and>
    DecodePacket mgmtTLVDecoder b = Ok (P_DelayResp d) \<and>
    h_SequenceID (dr_Header d) = h_SequenceID (sd_Header r) \<and>
    h_CorrectionField (dr_Header d) = h_CorrectionField (sd_Header r) \<and>
    db_RequestingPortIdentity (dr_DelayRespBody d) = h_SourcePortIdentity (sd_Header r) \<and>
    db_ReceiveTimestamp (dr_DelayRespBody d) = NewTimestamp
      (if cf_TimestampType (sv_Config s) \<noteq> HWTIMESTAMP then t_Add rx (cf_UTCOffset (sv_Config s)) else rx)"
proof -
  let ?rx = "if cf_TimestampType (sv_Config s) \<noteq> HWTIMESTAMP then t_Add rx (cf_UTCOffset (sv_Config s)) else rx"
  let ?sc = "UpdateDelayResp (sd_Header r) ?rx (sv_subs s ! a)" and ?st = "upd_stats (IncRX MessageDelayReq) s"
  have i: "server_inv e s" using server_inv_running [OF assms(1-4)] .
  have w: "w < length (sv_sw s)"
    using assms(7) findWorker_Ok [OF i assms(3), of "h_SourcePortIdentity (sd_Header r)"] by auto
  have a: "a < length (sv_subs s)" "sc_subscriptionType (sv_subs s ! a) = MessageDelayResp"
    using entry_bound [OF i assms(8) w] FindSubscription_entries [OF assms(8)] i w
    by (auto simp: server_inv_def worker_ok_def)
  have "packet_ok (P_DelayResp (sc_delayRespP ?sc))"
    using sub_ok_updates(9) [OF sub_ok_at [OF i a(1)]] by (simp only: sub_ok_def)
  from packet_sent [OF this] obtain b where b: "Packet_Bytes (P_DelayResp (sc_delayRespP ?sc)) = Ok b"
      "DecodePacket mgmtTLVDecoder b = Ok (P_DelayResp (sc_delayRespP ?sc))" .
  then have p: "prepare (DelayResp_MarshalBinaryTo (sc_delayRespP ?sc)) = Ok b"
    using \<open>packet_ok (P_DelayResp (sc_delayRespP ?sc))\<close> prepare_packets(4) [of "sc_delayRespP ?sc"] by simp
  define s1 where "s1 = (upd_sub a (UpdateDelayResp (sd_Header r) ?rx) ?st)\<lparr>sv_goroutines := sv_goroutines s @ [Pending a]\<rparr>"
  have m: "ProbeMsgType (take 128 datagram) = Ok MessageDelayReq"
    using probe_header [OF assms(5)] assms(6) by simp
  have f: "findWorker e (h_SourcePortIdentity (sd_Header r)) ?st = Ok w"
    using assms(7) by (auto simp: findWorker_def Let_def split: if_splits)
  have "handle_delay_req e (take 128 datagram) ?rx ?st = Ok s1"
    using assms(5,8) f by (simp add: handle_delay_req_def s1_def)
  then have "handleEventMessage e (Ok (datagram, sa, rx)) s = Ok s1"
    using m by (simp add: handleEventMessage_def Let_def)
  moreover have n: "sv_subs s1 ! a = ?sc" "a < length (sv_subs s1)" "sv_sent s1 = sv_sent s"
    using a(1) by (simp_all add: s1_def)
  have t: "sc_subscriptionType ?sc = MessageDelayResp" "sc_gclisa ?sc = sc_gclisa (sv_subs s ! a)"
    using a(2) by (simp_all add: UpdateDelayResp_def)
  have "worker_one e w a \<lparr>io_send1 = True, io_tx = tx, io_attempts = n, io_send2 = x\<rparr> s1 =
      Ok (worker_done w a (upd_stats (IncTX MessageDelayResp) (send_to b (sc_gclisa (sv_subs s ! a)) s1)))"
    using p n(1) t by (simp add: worker_one_def worker_general_def Let_def)
  moreover have "sv_goroutines s1 = sv_goroutines s @ [Pending a]" by (simp add: s1_def)
  moreover have "h_SequenceID (dr_Header (sc_delayRespP ?sc)) = h_SequenceID (sd_Header r)"
      "h_CorrectionField (dr_Header (sc_delayRespP ?sc)) = h_CorrectionField (sd_Header r)"
      "db_RequestingPortIdentity (dr_DelayRespBody (sc_delayRespP ?sc)) = h_SourcePortIdentity (sd_Header r)"
      "db_ReceiveTimestamp (dr_DelayRespBody (sc_delayRespP ?sc)) = NewTimestamp ?rx"
    by (simp_all add: UpdateDelayResp_def)
  ultimately show ?thesis
    using b(2) n(3) by (intro exI [of _ s1] exI conjI) (auto intro: b(2))
qed


section \<open>A concrete server\<close>

text \<open>A server with one worker, and a client that sends one request.\<close>

definition example_env :: env where
  "example_env = \<lparr>en_intn = (\<lambda>seed n. nat (seed mod int n)), en_cvt = cvt_amd64\<rparr>"

definition example_mac :: bytes where
  "example_mac = [0xb8, 0x59, 0x9f, 0xff, 0xfe, 0x55, 0xaf, 0x4e]"

definition example_server :: Server where
  "example_server =
     \<lparr>sv_Config = example_Config\<lparr>cf_clockIdentity := cdec cu64 example_mac\<rparr>, sv_Stats = NewJSONStats,
      sv_sw = [NewSendWorker 0], sv_subs = [], sv_goroutines = [], sv_sent = []\<rparr>"

definition example_request :: "UnicastMsgTypeAndFlags \<Rightarrow> RequestUnicastTransmissionTLV" where
  "example_request mt =
     \<lparr>rq_TLVHead = \<lparr>th_TLVType = TLVRequestUnicastTransmission, th_LengthField = 6\<rparr>,
      rq_MsgTypeAndReserved = mt, rq_LogInterMessagePeriod = 1, rq_DurationField = 60\<rparr>"

definition example_subscribe :: "UnicastMsgTypeAndFlags \<Rightarrow> Signaling" where
  "example_subscribe mt =
     \<lparr>sg_Header = example_Header\<lparr>h_SdoIDAndMsgType := 0xC, h_MessageLength := 54\<rparr>,
      sg_TargetPortIdentity = DefaultTargetPortIdentity, sg_TLVs = [Request_TLV (example_request mt)]\<rparr>"

abbreviation example_sa :: Sockaddr where
  "example_sa \<equiv> SockaddrInet4 320 [192, 168, 0, 7]"

lemma env_ok_example: "env_ok example_env"
  by (simp add: env_ok_def example_env_def nat_less_iff)

lemma init_example: "Server_init example_Config (Ok example_mac) = Ok example_server"
  by (simp add: Server_init_def NewClockIdentity_def example_mac_def example_server_def example_Config_def)

lemma workers_example: "0 < cf_SendWorkers example_Config"
  by (simp add: example_Config_def)

lemmas example_started = init_example workers_example env_ok_example

lemma example_subscribe_signaling:
  "Header_MessageType (sg_Header (example_subscribe mt)) = MessageSignaling"
  by (simp add: example_subscribe_def example_Header_def Header_MessageType_def MsgType_def)

lemma example_in_limits: "\<not> out_of_limits example_env (sv_Config example_server) (example_request mt)"
  by (simp add: out_of_limits_def example_env_def example_server_def example_Config_def
      example_request_def LogInterval_Duration_nonneg second_def)

lemma handleGeneralMessage_signaling:
  assumes "signaling_ok p" and "length (Signaling_bytes p) \<le> 126"
  shows "handleGeneralMessage e now ok (Ok (Signaling_bytes p @ [0, 0], sa)) s =
    handle_TLVs e now ok 0 p sa (sg_TLVs p) s"
proof -
  let ?b = "Signaling_bytes p @ [0, 0]"
  have "?b ! 0 = h_SdoIDAndMsgType (sg_Header p)" "?b \<noteq> []"
    by (simp_all add: Signaling_bytes_def binary_Write_def Header_codec_def)
  then have "ProbeMsgType ?b = Ok MessageSignaling"
    using assms(1) by (simp add: ProbeMsgType_def signaling_ok_def Header_MessageType_def)
  then show ?thesis
    using assms by (simp add: handleGeneralMessage_def Signaling_unmarshal_bytes)
qed

text \<open>What the example client's request leads to, for each type it may ask for.\<close>

lemma example_served:
  assumes "grantable (Unicast_MsgType mt)"
  shows "\<exists>s b a. reachable example_env example_server s \<and> (b, example_sa) \<in> set (sv_sent s) \<and>
    findWorker example_env (h_SourcePortIdentity example_Header) s = Ok 0 \<and>
    FindSubscription (h_SourcePortIdentity example_Header) (Unicast_MsgType mt) (sv_sw s ! 0) = Some a \<and>
    sv_Config s = sv_Config example_server"
proof -
  let ?p = "example_subscribe mt" and ?now = "\<lambda>_ :: nat. 0 :: gotime"
  have i: "server_inv example_env example_server"
    using server_inv_running [OF example_started reachable.start] .
  have cid: "h_SourcePortIdentity (sg_Header ?p) = h_SourcePortIdentity example_Header"
      "rq_MsgTypeAndReserved (example_request mt) = mt"
    by (simp_all add: example_subscribe_def example_request_def)
  obtain s b w a where s: "handle_request example_env (?now 0) True ?p example_sa (example_request mt) example_server = Ok s"
      "sv_sent s = sv_sent example_server @ [(b, example_sa)]"
      "findWorker example_env (h_SourcePortIdentity example_Header) example_server = Ok w"
      "FindSubscription (h_SourcePortIdentity example_Header) (Unicast_MsgType mt) (sv_sw s ! w) = Some a"
      "sv_Config s = sv_Config example_server"
    using handle_request_answer [OF i env_ok_example example_subscribe_signaling [of mt], of "example_request mt"
        "?now 0" example_sa] assms unfolding cid by blast
  have l: "length (Signaling_bytes ?p) = 54"
    by (simp add: Signaling_bytes_def binary_Write_def example_subscribe_def)
  then have "signaling_ok ?p"
    using example_subscribe_signaling [of mt]
    by (simp add: signaling_ok_def) (simp add: example_subscribe_def example_request_def)
  then have "handleGeneralMessage example_env ?now (\<lambda>_. True) (Ok (Signaling_bytes ?p @ [0, 0], example_sa)) example_server = Ok s"
    using l s(1) by (simp add: handleGeneralMessage_signaling) (simp add: example_subscribe_def)
  then have r: "reachable example_env example_server s"
    by (intro reachable.step [OF reachable.start] server_step.general)
  have "nat (cf_SendWorkers (sv_Config example_server)) = 1"
    by (simp add: example_server_def example_Config_def)
  then have w: "findWorker example_env cid x = Ok 0" if "server_inv example_env x" "sv_Config x = sv_Config example_server" for x cid
    using findWorker_Ok [OF that(1) env_ok_example, of cid] that(2) by (simp add: example_env_def)
  have "w = 0" using w [OF i refl] s(3) by simp
  then show ?thesis
    using r w [OF server_inv_running [OF example_started r] s(5)] s(2,4,5) by (intro exI [of _ s]) auto
qed


theorem sent_datagrams_decode_witness:
  "\<exists>s b p. reachable example_env example_server s \<and> (b, example_sa) \<in> set (sv_sent s) \<and>
     packet_ok p \<and> DecodePacket mgmtTLVDecoder b = Ok p"
proof -
  obtain s b where s: "reachable example_env example_server s" "(b, example_sa) \<in> set (sv_sent s)"
    using example_served [of "0xB0"] by (auto simp: grantable_def Unicast_MsgType_def)
  then show ?thesis using sent_datagrams_decode [OF example_started s] by blast
qed

theorem subscription_routing_witness:
  "\<exists>s a. reachable example_env example_server s \<and>
     FindSubscription (h_SourcePortIdentity example_Header) MessageAnnounce (sv_sw s ! 0) = Some a \<and>
     sc_subscriptionType (sv_subs s ! a) = MessageAnnounce \<and> sc_queue (sv_subs s ! a) = 0"
proof -
  obtain s a where s: "reachable example_env example_server s"
      "FindSubscription (h_SourcePortIdentity example_Header) MessageAnnounce (sv_sw s ! 0) = Some a"
    using example_served [of "0xB0"] by (auto simp: grantable_def Unicast_MsgType_def)
  have "0 < length (sv_sw s)"
    using server_inv_running [OF example_started s(1)] by (auto simp: server_inv_def)
  then show ?thesis using s subscription_routing [OF example_started s(1) _ s(2)] by blast
qed


theorem request_answered_witness:
  "\<exists>s' b g. handle_request example_env 0 True (example_subscribe 0xB0) example_sa (example_request 0xB0)
     example_server = Ok s' \<and> sv_sent s' = [(b, example_sa)] \<and>
     DecodePacket mgmtTLVDecoder b = Ok (P_Signaling g)"
  using request_answered [OF example_started reachable.start example_subscribe_signaling [of "0xB0"],
      of "example_request 0xB0" 0 example_sa]
  by (auto simp: example_request_def grantable_def Unicast_MsgType_def example_server_def)

lemma FindSubscription_example: "FindSubscription cid st (sv_sw example_server ! 0) = None"
  by (simp add: FindSubscription_def example_server_def NewSendWorker_def)

lemma findWorker_example: "findWorker example_env cid example_server = Ok 0"
  by (simp add: findWorker_def example_server_def example_env_def example_Config_def)

theorem repeated_request_starts_twice_witness:
  "\<exists>s1 s2 a. handle_request example_env 0 True (example_subscribe 0xB0) example_sa (example_request 0xB0)
       example_server = Ok s1 \<and>
     handle_request example_env 1 True (example_subscribe 0xB0) example_sa (example_request 0xB0) s1 = Ok s2 \<and>
     sv_goroutines s2 = [Spawned a, Spawned a]"
proof -
  have "grantable (Unicast_MsgType (rq_MsgTypeAndReserved (example_request 0xB0)))"
    by (simp add: example_request_def grantable_def Unicast_MsgType_def)
  from repeated_request_starts_twice [OF example_started reachable.start example_subscribe_signaling
      this example_in_limits findWorker_example FindSubscription_example, of 0 "0xB0" example_sa 1]
  show ?thesis by (simp add: example_server_def)
qed

lemma example_sub_type:
  assumes "reachable example_env example_server s"
    and "FindSubscription cid st (sv_sw s ! 0) = Some a"
  shows "a < length (sv_subs s) \<and> sc_subscriptionType (sv_subs s ! a) = st"
proof -
  have i: "server_inv example_env s" using server_inv_running [OF example_started assms(1)] .
  then have "0 < length (sv_sw s)" by (auto simp: server_inv_def)
  with i have "worker_ok example_env s 0" by (simp add: server_inv_def)
  then show ?thesis using FindSubscription_entries [OF assms(2)] by (auto simp: worker_ok_def)
qed

theorem sync_and_followup_witness:
  "\<exists>s a s' b b'. reachable example_env example_server s \<and>
     worker_one example_env 0 a
       \<lparr>io_send1 = True, io_tx = Ok 0, io_attempts = 1, io_send2 = True\<rparr> s = Ok s' \<and>
     sv_sent s' = sv_sent s @ [(b, sc_eclisa (sv_subs s ! a)), (b', sc_gclisa (sv_subs s ! a))]"
proof -
  obtain s a where s: "reachable example_env example_server s"
      "FindSubscription (h_SourcePortIdentity example_Header) MessageSync (sv_sw s ! 0) = Some a"
    using example_served [of 0] by (auto simp: grantable_def Unicast_MsgType_def)
  have a: "a < length (sv_subs s)" "sc_subscriptionType (sv_subs s ! a) = MessageSync"
    using example_sub_type [OF s] by simp_all
  show ?thesis using s(1) sync_and_followup [OF example_started s(1) a refl] by blast
qed

definition example_delay_req :: SyncDelayReq where
  "example_delay_req = example_SyncDelayReq\<lparr>sd_Header := example_Header\<lparr>h_SdoIDAndMsgType := 1\<rparr>\<rparr>"


end
