(* ===== verification/Simple_Client.thy ===== *)
theory Simple_Client
  imports PTP_Decode Timestamping "HOL-Library.AList"
begin

text \<open>
  \<open>ptp/simpleclient\<close>: the unicast PTP client. \<open>measurements.go\<close> keeps the timestamps of the exchanges
  by sequence number and computes delay and offset, \<open>requests.go\<close> builds the client's packets, and
  \<open>client.go\<close> runs the handshake. A handler takes the client and returns it updated with the outcome;
  what the environment answers (whether a write succeeds, the transmit timestamp) is an argument.
\<close>

section \<open>Measurements\<close>

record mData =
  md_seq :: u16
  md_sendTS :: gotime
  md_receiveTS :: gotime

record MeasurementResult =
  mr_Delay :: duration
  mr_Offset :: duration
  mr_ServerToClientDiff :: duration
  mr_ClientToServerDiff :: duration
  mr_Timestamp :: gotime

text \<open>
  A map from sequence numbers to samples is an association list with distinct keys; the order of the
  list is the order in which a \<open>range\<close> over the map visits it, which Go leaves open.
\<close>

record measurements =
  ms_currentUTCoffset :: duration
  ms_serverToClient :: "(u16 \<times> mData) list"
  ms_clientToServer :: "(u16 \<times> mData) list"

definition newMeasurements :: measurements where
  "newMeasurements = \<lparr>ms_currentUTCoffset = 0, ms_serverToClient = [], ms_clientToServer = []\<rparr>"

definition set_receiveTS :: "u16 \<Rightarrow> gotime \<Rightarrow> (u16 \<times> mData) list \<Rightarrow> (u16 \<times> mData) list" where
  "set_receiveTS seq ts m = (case map_of m seq of
     Some v \<Rightarrow> AList.update seq (v\<lparr>md_receiveTS := ts\<rparr>) m
   | None \<Rightarrow> AList.update seq \<lparr>md_seq = seq, md_sendTS = zero_time, md_receiveTS = ts\<rparr> m)"

definition set_sendTS :: "u16 \<Rightarrow> gotime \<Rightarrow> (u16 \<times> mData) list \<Rightarrow> (u16 \<times> mData) list" where
  "set_sendTS seq ts m = (case map_of m seq of
     Some v \<Rightarrow> AList.update seq (v\<lparr>md_sendTS := ts\<rparr>) m
   | None \<Rightarrow> AList.update seq \<lparr>md_seq = seq, md_sendTS = ts, md_receiveTS = zero_time\<rparr> m)"

definition addSync :: "u16 \<Rightarrow> gotime \<Rightarrow> measurements \<Rightarrow> measurements" where
  "addSync seq ts m = m\<lparr>ms_serverToClient := set_receiveTS seq ts (ms_serverToClient m)\<rparr>"

definition addFollowUp :: "u16 \<Rightarrow> gotime \<Rightarrow> measurements \<Rightarrow> measurements" where
  "addFollowUp seq ts m = m\<lparr>ms_serverToClient := set_sendTS seq ts (ms_serverToClient m)\<rparr>"

definition addDelayReq :: "u16 \<Rightarrow> gotime \<Rightarrow> measurements \<Rightarrow> measurements" where
  "addDelayReq seq ts m = m\<lparr>ms_clientToServer := set_sendTS seq ts (ms_clientToServer m)\<rparr>"

definition addDelayResp :: "u16 \<Rightarrow> gotime \<Rightarrow> measurements \<Rightarrow> measurements" where
  "addDelayResp seq ts m = m\<lparr>ms_clientToServer := set_receiveTS seq ts (ms_clientToServer m)\<rparr>"

text \<open>One step of the loops of \<open>latest\<close>, which keep the last complete sample.\<close>

definition pick_last :: "mData \<Rightarrow> mData option \<Rightarrow> mData option" where
  "pick_last v lst =
     (if t_IsZero (md_receiveTS v) \<or> t_IsZero (md_sendTS v) then lst
      else case lst of
          None \<Rightarrow> Some v
        | Some l \<Rightarrow> if t_After (md_receiveTS v) (md_receiveTS l) then Some v else lst)"

definition last_sample :: "(u16 \<times> mData) list \<Rightarrow> mData option" where
  "last_sample m = fold (\<lambda>(_, v). pick_last v) m None"

definition latest :: "measurements \<Rightarrow> MeasurementResult res" where
  "latest m =
     (case last_sample (ms_serverToClient m) of
        None \<Rightarrow> Err ''no sync/followup data yet''
      | Some lastServerToClient \<Rightarrow>
          (case last_sample (ms_clientToServer m) of
             None \<Rightarrow> Err ''no delay data yet''
           | Some lastClientToServer \<Rightarrow>
               let clientToServerDiff = t_Sub (md_receiveTS lastClientToServer) (md_sendTS lastClientToServer);
                   serverToClientDiff = t_Sub (md_receiveTS lastServerToClient) (md_sendTS lastServerToClient);
                   delay = quot (i64 (clientToServerDiff + serverToClientDiff)) 2;
                   offset = i64 (serverToClientDiff - delay)
               in Ok \<lparr>mr_Delay = delay, mr_Offset = offset, mr_ServerToClientDiff = serverToClientDiff,
                     mr_ClientToServerDiff = clientToServerDiff,
                     mr_Timestamp = md_receiveTS lastClientToServer\<rparr>))"

section \<open>Requests\<close>

definition client_header :: "ClockIdentity \<Rightarrow> MessageType \<Rightarrow> nat \<Rightarrow> Header" where
  "client_header clockID t l =
     \<lparr>h_SdoIDAndMsgType = NewSdoIDAndMsgType t 0, h_Version = Version, h_MessageLength = word_of_nat l,
      h_DomainNumber = 0, h_MinorSdoID = 0, h_FlagField = FlagUnicast, h_CorrectionField = 0,
      h_MessageTypeSpecific = 0,
      h_SourcePortIdentity = \<lparr>pi_ClockIdentity = clockID, pi_PortNumber = 1\<rparr>, h_SequenceID = 0,
      h_ControlField = 0, h_LogMessageInterval = 0x7f\<rparr>"

definition reqUnicast :: "ClockIdentity \<Rightarrow> duration \<Rightarrow> MessageType \<Rightarrow> Signaling" where
  "reqUnicast clockID dur what =
     \<lparr>sg_Header = client_header clockID MessageSignaling
        (csize Header_codec + csize PortIdentity_codec + csize Request_codec),
      sg_TargetPortIdentity = \<lparr>pi_ClockIdentity = 0xffffffffffffffff, pi_PortNumber = 0xffff\<rparr>,
      sg_TLVs =
        [Request_TLV \<lparr>rq_TLVHead = \<lparr>th_TLVType = TLVRequestUnicastTransmission,
             th_LengthField = word_of_nat (csize Request_codec - csize TLVHead_codec)\<rparr>,
           rq_MsgTypeAndReserved = NewUnicastMsgTypeAndFlags what 0, rq_LogInterMessagePeriod = 1,
           rq_DurationField = word_of_int (dur_Seconds_int dur)\<rparr>]\<rparr>"

definition reqAckCancelUnicast :: "ClockIdentity \<Rightarrow> MessageType \<Rightarrow> Signaling" where
  "reqAckCancelUnicast clockID what =
     \<lparr>sg_Header = client_header clockID MessageSignaling
        (csize Header_codec + csize PortIdentity_codec + csize Ack_codec),
      sg_TargetPortIdentity = \<lparr>pi_ClockIdentity = 0xffffffffffffffff, pi_PortNumber = 0xffff\<rparr>,
      sg_TLVs =
        [Ack_TLV \<lparr>ak_TLVHead = \<lparr>th_TLVType = TLVCancelUnicastTransmission,
             th_LengthField = word_of_nat (csize Ack_codec - csize TLVHead_codec)\<rparr>,
           ak_MsgTypeAndFlags = NewUnicastMsgTypeAndFlags what 0, ak_Reserved = 0\<rparr>]\<rparr>"

definition reqDelay :: "ClockIdentity \<Rightarrow> SyncDelayReq" where
  "reqDelay clockID =
     \<lparr>sd_Header = client_header clockID MessageDelayReq (csize SyncDelayReq_codec),
      sd_SyncDelayReqBody = \<lparr>sb_OriginTimestamp = zero_Timestamp\<rparr>\<rparr>"

section \<open>The client\<close>

datatype state = stateInit | stateInProgress | stateDone

record inPacket =
  ip_data :: bytes
  ip_ts :: gotime

text \<open>
  The client: of its configuration only the requested duration matters after \<open>setup\<close>. The datagrams it
  wrote, with the port, and the results given to the callback are kept as histories; \<open>cl_result\<close> is what
  the main loop returned, if it did.
\<close>

record Client =
  cl_Duration :: duration
  cl_genSequence :: u16
  cl_eventSequence :: u16
  cl_state :: state
  cl_inChan :: "inPacket list"
  cl_clockID :: ClockIdentity
  cl_m :: measurements
  cl_sent :: "(nat \<times> bytes) list"
  cl_results :: "MeasurementResult list"
  cl_result :: "unit res option"

definition Client_New :: "duration \<Rightarrow> ClockIdentity \<Rightarrow> Client" where
  "Client_New dur cid =
     \<lparr>cl_Duration = dur, cl_genSequence = 0, cl_eventSequence = 0, cl_state = stateInit, cl_inChan = [],
      cl_clockID = cid, cl_m = newMeasurements, cl_sent = [], cl_results = [], cl_result = None\<rparr>"

text \<open>\<open>SetSequence\<close> of the packets the client sends; \<open>PortGeneral\<close> and \<open>PortEvent\<close> name the connection.\<close>

fun Packet_SetSequence :: "u16 \<Rightarrow> Packet \<Rightarrow> Packet" where
  "Packet_SetSequence n (P_Signaling p) = P_Signaling (p\<lparr>sg_Header := SetSequence n (sg_Header p)\<rparr>)"
| "Packet_SetSequence n (P_SyncDelayReq p) = P_SyncDelayReq (p\<lparr>sd_Header := SetSequence n (sd_Header p)\<rparr>)"
| "Packet_SetSequence n p = p"

definition sendGeneralMsg :: "bool \<Rightarrow> Packet \<Rightarrow> Client \<Rightarrow> Client \<times> u16 res" where
  "sendGeneralMsg ok p c =
     (case Packet_Bytes (Packet_SetSequence (cl_genSequence c) p) of
        Inl e \<Rightarrow> (c, Inl e)
      | Inr b \<Rightarrow>
          if \<not> ok then (c, Err ''write error'')
          else (c\<lparr>cl_genSequence := cl_genSequence c + 1, cl_sent := cl_sent c @ [(PortGeneral, b)]\<rparr>,
                Ok (cl_genSequence c)))"

text \<open>The outcome of \<open>WriteToWithTS\<close>: a datagram whose timestamp cannot be read may still have left.\<close>

datatype tx_outcome = TX_Failed | TX_NoTimestamp | TX_Sent gotime

definition sendEventMsg :: "tx_outcome \<Rightarrow> Packet \<Rightarrow> Client \<Rightarrow> Client \<times> (u16 \<times> gotime) res" where
  "sendEventMsg tx p c =
     (case Packet_Bytes (Packet_SetSequence (cl_eventSequence c) p) of
        Inl e \<Rightarrow> (c, Inl e)
      | Inr b \<Rightarrow>
          (case tx of
             TX_Failed \<Rightarrow> (c, Err ''write error'')
           | TX_NoTimestamp \<Rightarrow>
               (c\<lparr>cl_sent := cl_sent c @ [(PortEvent, b)]\<rparr>, Err ''failed to get timestamp of last packet: %v'')
           | TX_Sent hwts \<Rightarrow>
               (c\<lparr>cl_eventSequence := cl_eventSequence c + 1, cl_sent := cl_sent c @ [(PortEvent, b)]\<rparr>,
                Ok (cl_eventSequence c, hwts))))"

definition setState :: "state \<Rightarrow> Client \<Rightarrow> Client" where
  "setState s c = (if cl_state c \<noteq> s then c\<lparr>cl_state := s\<rparr> else c)"

definition drop_value :: "Client \<times> 'a res \<Rightarrow> Client \<times> unit res" where
  "drop_value r = (fst r, map_res (\<lambda>_. ()) (snd r))"

definition handleGrantUnicast :: "bool \<Rightarrow> GrantUnicastTransmissionTLV \<Rightarrow> Client \<Rightarrow> Client \<times> unit res" where
  "handleGrantUnicast ok tlv c =
     (let msgType = Unicast_MsgType (gr_MsgTypeAndReserved tlv) in
      if msgType = MessageAnnounce then
        let c = setState stateInProgress c in
        if gr_DurationField tlv = 0 then (c, Err ''server denied us grant for %s'')
        else drop_value (sendGeneralMsg ok (P_Signaling (reqUnicast (cl_clockID c) (cl_Duration c) MessageSync)) c)
      else if msgType = MessageSync then
        if gr_DurationField tlv = 0 then (c, Err ''server denied us grant for %s'')
        else drop_value (sendGeneralMsg ok (P_Signaling (reqUnicast (cl_clockID c) (cl_Duration c) MessageDelayResp)) c)
      else if msgType = MessageDelayResp then
        if gr_DurationField tlv = 0 then (c, Err ''server denied us grant for %s'') else (c, Ok ())
      else (c, Err ''got unexpected grant for %s''))"

definition handleCancelUnicast :: "bool \<Rightarrow> CancelUnicastTransmissionTLV \<Rightarrow> Client \<Rightarrow> Client \<times> unit res" where
  "handleCancelUnicast ok tlv c =
     (case sendGeneralMsg ok (P_Signaling
        (reqAckCancelUnicast (cl_clockID c) (Unicast_MsgType (ca_MsgTypeAndFlags tlv)))) c of
        (c, Inl e) \<Rightarrow> (c, Inl e)
      | (c, Inr seq) \<Rightarrow> (setState stateDone c, Ok ()))"

definition upd_m :: "(measurements \<Rightarrow> measurements) \<Rightarrow> Client \<Rightarrow> Client" where
  "upd_m f c = c\<lparr>cl_m := f (cl_m c)\<rparr>"

text \<open>\<open>CurrentUTCOffset\<close> is an \<open>int16\<close>.\<close>

definition handleAnnounce :: "Announce \<Rightarrow> Client \<Rightarrow> Client \<times> unit res" where
  "handleAnnounce b c =
     (upd_m (\<lambda>m. m\<lparr>ms_currentUTCoffset := i64 (sint (ab_CurrentUTCOffset (an_AnnounceBody b)) * second)\<rparr>) c, Ok ())"

definition handleSync :: "SyncDelayReq \<Rightarrow> gotime \<Rightarrow> Client \<Rightarrow> Client \<times> unit res" where
  "handleSync b ts c = (upd_m (addSync (h_SequenceID (sd_Header b)) ts) c, Ok ())"

definition handleDelay :: "DelayResp \<Rightarrow> Client \<Rightarrow> Client \<times> unit res" where
  "handleDelay b c =
     (let c = upd_m (addDelayResp (h_SequenceID (dr_Header b))
            (Timestamp_Time (db_ReceiveTimestamp (dr_DelayRespBody b)))) c in
      case latest (cl_m c) of
        Inl _ \<Rightarrow> (c, Ok ())
      | Inr r \<Rightarrow> (c\<lparr>cl_results := cl_results c @ [r]\<rparr>, Ok ()))"

definition handleFollowUp :: "tx_outcome \<Rightarrow> FollowUp \<Rightarrow> Client \<Rightarrow> Client \<times> unit res" where
  "handleFollowUp tx b c =
     (let c = upd_m (addFollowUp (h_SequenceID (fu_Header b))
            (Timestamp_Time (fb_PreciseOriginTimestamp (fu_FollowUpBody b)))) c in
      case sendEventMsg tx (P_SyncDelayReq (reqDelay (cl_clockID c))) c of
        (c, Inl e) \<Rightarrow> (c, Inl e)
      | (c, Inr (seq, hwts)) \<Rightarrow> (upd_m (addDelayReq seq hwts) c, Ok ()))"

fun handle_client_TLV :: "bool \<Rightarrow> TLV \<Rightarrow> Client \<Rightarrow> Client \<times> unit res" where
  "handle_client_TLV ok (Grant_TLV v) c = handleGrantUnicast ok v c"
| "handle_client_TLV ok (Cancel_TLV v) c = handleCancelUnicast ok v c"
| "handle_client_TLV ok _ c = (c, Err ''got unsupported TLV type %s(%d)'')"

fun handle_client_TLVs :: "(nat \<Rightarrow> bool) \<Rightarrow> nat \<Rightarrow> TLV list \<Rightarrow> Client \<Rightarrow> Client \<times> unit res" where
  "handle_client_TLVs ok i [] c = (c, Ok ())"
| "handle_client_TLVs ok i (tlv # tlvs) c =
     (case handle_client_TLV (ok i) tlv c of
        (c, Inl e) \<Rightarrow> (c, Inl e)
      | (c, Inr _) \<Rightarrow> handle_client_TLVs ok (Suc i) tlvs c)"

text \<open>An error of decoding is wrapped, a panic is not.\<close>

definition reading :: "string \<Rightarrow> 'a res \<Rightarrow> ('a \<Rightarrow> Client \<Rightarrow> Client \<times> unit res) \<Rightarrow> Client \<Rightarrow> Client \<times> unit res" where
  "reading what r f c = (case r of
     Inl Panic \<Rightarrow> (c, Inl Panic) | Inl (GoError _) \<Rightarrow> (c, Err what) | Inr p \<Rightarrow> f p c)"

definition handleMsg :: "(nat \<Rightarrow> bool) \<Rightarrow> tx_outcome \<Rightarrow> inPacket \<Rightarrow> Client \<Rightarrow> Client \<times> unit res" where
  "handleMsg ok tx msg c =
     (let data = ip_data msg in
      case ProbeMsgType data of
        Inl e \<Rightarrow> (c, Inl e)
      | Inr msgType \<Rightarrow>
          if msgType = MessageSignaling then
            reading ''reading signaling msg: %w'' (FromBytes (UnmarshalBinary (Signaling_UnmarshalBinary [])) data)
              (\<lambda>sg. handle_client_TLVs ok 0 (sg_TLVs sg)) c
          else if msgType = MessageAnnounce then
            reading ''reading announce msg: %w'' (FromBytes (ReflectRead Announce_codec) data) handleAnnounce c
          else if msgType = MessageSync then
            reading ''reading sync msg: %w'' (FromBytes (UnmarshalBinary SyncDelayReq_UnmarshalBinary) data)
              (\<lambda>b. handleSync b (ip_ts msg)) c
          else if msgType = MessageDelayResp then
            reading ''reading delay_resp msg: %w'' (FromBytes (UnmarshalBinary DelayResp_UnmarshalBinary) data)
              handleDelay c
          else if msgType = MessageFollowUp then
            reading ''reading follow_up msg: %w'' (FromBytes (UnmarshalBinary FollowUp_UnmarshalBinary) data)
              (handleFollowUp tx) c
          else (c, Ok ()))"

section \<open>The main loop\<close>

text \<open>
  The receivers of the two ports and one iteration of the loop of \<open>runInternal\<close>. The input channel
  holds ten packets; a receiver blocks while it is full. A packet of the general port has the zero
  time as its timestamp, and no packet is dropped for its source address. The loop looks at the state
  only when no packet waits.
\<close>

definition receive :: "inPacket \<Rightarrow> Client \<Rightarrow> Client option" where
  "receive p c = (if length (cl_inChan c) < 10 then Some (c\<lparr>cl_inChan := cl_inChan c @ [p]\<rparr>) else None)"

definition loop_result :: "Client \<times> unit res \<Rightarrow> Client" where
  "loop_result r = (case r of (c, Inl e) \<Rightarrow> c\<lparr>cl_result := Some (Inl e)\<rparr> | (c, Inr _) \<Rightarrow> c)"

definition runInternal_iteration :: "(nat \<Rightarrow> bool) \<Rightarrow> tx_outcome \<Rightarrow> Client \<Rightarrow> Client" where
  "runInternal_iteration ok tx c =
     (case cl_inChan c of
        msg # q \<Rightarrow> loop_result (handleMsg ok tx msg (c\<lparr>cl_inChan := q\<rparr>))
      | [] \<Rightarrow>
          (case cl_state c of
             stateInit \<Rightarrow> loop_result (drop_value (sendGeneralMsg (ok 0)
               (P_Signaling (reqUnicast (cl_clockID c) (cl_Duration c) MessageAnnounce)) c))
           | stateDone \<Rightarrow> c\<lparr>cl_result := Some (Ok ())\<rparr>
           | stateInProgress \<Rightarrow> c))"

inductive client_step :: "Client \<Rightarrow> Client \<Rightarrow> bool" where
  general_packet: "receive \<lparr>ip_data = take 1024 b, ip_ts = zero_time\<rparr> c = Some c' \<Longrightarrow> client_step c c'"
| event_packet: "receive \<lparr>ip_data = take PayloadSizeBytes b, ip_ts = ts\<rparr> c = Some c' \<Longrightarrow> client_step c c'"
| iteration: "cl_result c = None \<Longrightarrow> client_step c (runInternal_iteration ok tx c)"
| timeout: "cl_result c = None \<Longrightarrow> client_step c (c\<lparr>cl_result := Some (Err ''context deadline exceeded'')\<rparr>)"

inductive client_reachable :: "Client \<Rightarrow> Client \<Rightarrow> bool" for c0 where
  client_start: "client_reachable c0 c0"
| client_next: "client_reachable c0 c \<Longrightarrow> client_step c c' \<Longrightarrow> client_reachable c0 c'"

section \<open>The last complete sample\<close>

definition both_ends :: "mData \<Rightarrow> bool" where
  "both_ends v \<longleftrightarrow> md_receiveTS v \<noteq> zero_time \<and> md_sendTS v \<noteq> zero_time"

text \<open>What the loop promises of the samples seen so far.\<close>

definition newest_of :: "mData set \<Rightarrow> mData option \<Rightarrow> bool" where
  "newest_of S r \<longleftrightarrow> (case r of
     None \<Rightarrow> \<forall>v \<in> S. \<not> both_ends v
   | Some v \<Rightarrow> v \<in> S \<and> both_ends v \<and> (\<forall>u \<in> S. both_ends u \<longrightarrow> md_receiveTS u \<le> md_receiveTS v))"

lemma pick_last_newest: "newest_of S r \<Longrightarrow> newest_of (insert v S) (pick_last v r)"
  by (auto simp: newest_of_def pick_last_def both_ends_def t_IsZero_def t_After_def
      split: option.splits)

lemma last_sample_newest: "newest_of (snd ` set m) (last_sample m)"
proof -
  have "newest_of S r \<Longrightarrow> newest_of (snd ` set m \<union> S) (fold (\<lambda>(_, v). pick_last v) m r)" for S r
  proof (induction m arbitrary: S r)
    case (Cons x m)
    obtain k v where x: "x = (k, v)" by fastforce
    show ?case
      using Cons.IH [OF pick_last_newest [OF Cons.prems, of v]] by (simp add: x insert_commute)
  qed simp
  from this [of "{}" None] show ?thesis by (simp add: last_sample_def newest_of_def)
qed

text \<open>
  The order in which the map is visited does not matter, unless two complete samples were received
  at the very same time.
\<close>

lemma last_sample_order:
  assumes "set m = set m'" and "inj_on md_receiveTS {v \<in> snd ` set m. both_ends v}"
  shows "last_sample m = last_sample m'"
proof -
  let ?C = "{v \<in> snd ` set m. both_ends v}"
  have n: "newest_of (snd ` set m) (last_sample m)" "newest_of (snd ` set m) (last_sample m')"
    using last_sample_newest [of m] last_sample_newest [of m'] assms(1) by simp_all
  show ?thesis
  proof (cases "?C = {}")
    case True
    then show ?thesis using n by (auto simp: newest_of_def split: option.splits)
  next
    case False
    then obtain v v' where v: "last_sample m = Some v" "last_sample m' = Some v'"
      using n by (auto simp: newest_of_def split: option.splits)
    with n have "v \<in> ?C" "v' \<in> ?C" "md_receiveTS v = md_receiveTS v'"
      by (auto simp: newest_of_def intro!: antisym)
    then show ?thesis using assms(2) v by (auto dest: inj_onD)
  qed
qed

lemma latest_order:
  assumes "set (ms_serverToClient m) = set (ms_serverToClient m')"
    and "set (ms_clientToServer m) = set (ms_clientToServer m')"
    and "inj_on md_receiveTS {v \<in> snd ` set (ms_serverToClient m). both_ends v}"
    and "inj_on md_receiveTS {v \<in> snd ` set (ms_clientToServer m). both_ends v}"
  shows "latest m = latest m'"
  unfolding latest_def last_sample_order [OF assms(1,3)] last_sample_order [OF assms(2,4)] ..

lemma last_sample_None: "last_sample xs = None \<longleftrightarrow> (\<forall>v \<in> snd ` set xs. \<not> both_ends v)"
  using last_sample_newest [of xs] by (auto simp: newest_of_def split: option.splits)

lemma latest_fails:
  "(\<exists>e. latest m = Err e) \<longleftrightarrow>
     (\<forall>v \<in> snd ` set (ms_serverToClient m). \<not> both_ends v) \<or>
     (\<forall>v \<in> snd ` set (ms_clientToServer m). \<not> both_ends v)"
  unfolding last_sample_None [symmetric] by (auto simp: latest_def Let_def split: option.splits)

lemma latest_basis:
  assumes "latest m = Ok r"
  shows "\<exists>s c. newest_of (snd ` set (ms_serverToClient m)) (Some s) \<and>
    newest_of (snd ` set (ms_clientToServer m)) (Some c) \<and> mr_Timestamp r = md_receiveTS c \<and>
    mr_ServerToClientDiff r = t_Sub (md_receiveTS s) (md_sendTS s) \<and>
    mr_ClientToServerDiff r = t_Sub (md_receiveTS c) (md_sendTS c)"
proof -
  obtain s c where l: "last_sample (ms_serverToClient m) = Some s" "last_sample (ms_clientToServer m) = Some c"
    using assms by (auto simp: latest_def split: option.splits)
  with assms have "mr_Timestamp r = md_receiveTS c"
      "mr_ServerToClientDiff r = t_Sub (md_receiveTS s) (md_sendTS s)"
      "mr_ClientToServerDiff r = t_Sub (md_receiveTS c) (md_sendTS c)"
    by (auto simp: latest_def Let_def)
  then show ?thesis
    using last_sample_newest [of "ms_serverToClient m"] last_sample_newest [of "ms_clientToServer m"]
    unfolding l by blast
qed

text \<open>
  C14: Whatever order the samples are visited in, \<open>latest\<close> bases its result on a complete pair received
  last in each direction; it fails exactly when one direction has no complete pair. With distinct
  receive times the result does not depend on the order.
\<close>
theorem latest_newest:
  assumes "set (ms_serverToClient m) = set (ms_serverToClient m')"
    and "set (ms_clientToServer m) = set (ms_clientToServer m')"
    and "inj_on md_receiveTS {v \<in> snd ` set (ms_serverToClient m). both_ends v}"
    and "inj_on md_receiveTS {v \<in> snd ` set (ms_clientToServer m). both_ends v}"
  shows "latest m = latest m' \<and>
    ((\<exists>e. latest m = Err e) \<longleftrightarrow>
       (\<forall>v \<in> snd ` set (ms_serverToClient m). \<not> both_ends v) \<or>
       (\<forall>v \<in> snd ` set (ms_clientToServer m). \<not> both_ends v)) \<and>
    (\<forall>r. latest m = Ok r \<longrightarrow> (\<exists>s c. newest_of (snd ` set (ms_serverToClient m)) (Some s) \<and>
       newest_of (snd ` set (ms_clientToServer m)) (Some c) \<and> mr_Timestamp r = md_receiveTS c \<and>
       mr_ServerToClientDiff r = t_Sub (md_receiveTS s) (md_sendTS s) \<and>
       mr_ClientToServerDiff r = t_Sub (md_receiveTS c) (md_sendTS c)))"
  using latest_order [OF assms] latest_fails [of m] latest_basis [of m] by blast

section \<open>Delay and offset\<close>

lemma half_sum_bound: "2 * \<bar>a - quot (a + b) 2\<bar> \<le> \<bar>a - b\<bar> + 1"
  by (cases "0 \<le> a + b") (simp_all add: quot_neg, presburger+)

lemma latest_measures:
  assumes "last_sample (ms_serverToClient m) = Some s" and "last_sample (ms_clientToServer m) = Some c"
    and "md_receiveTS s = md_sendTS s + d1 + off" and "md_receiveTS c = md_sendTS c + d2 - off"
    and "\<bar>d1\<bar> < 2 ^ 60" and "\<bar>d2\<bar> < 2 ^ 60" and "\<bar>off\<bar> < 2 ^ 60"
  shows "\<exists>r. latest m = Ok r \<and> 2 * \<bar>mr_Offset r - off\<bar> \<le> \<bar>d1 - d2\<bar> + 1 \<and>
    (d1 = d2 \<longrightarrow> mr_Delay r = d1 \<and> mr_Offset r = off)"
proof -
  have s: "t_Sub (md_receiveTS s) (md_sendTS s) = d1 + off" "t_Sub (md_receiveTS c) (md_sendTS c) = d2 - off"
    using assms(3-7) by (simp_all add: t_Sub_def i64_min_def i64_max_def)
  have "in_i64 (d1 + d2)" "\<bar>quot (d1 + d2) 2\<bar> \<le> \<bar>d1 + d2\<bar>"
    using assms(5-7) quot_abs_le by (auto simp: i64_defs)
  moreover from this have "in_i64 (d1 + off - quot (d1 + d2) 2)"
    using assms(5-7) by (auto simp: i64_defs)
  ultimately have "latest m = Ok \<lparr>mr_Delay = quot (d1 + d2) 2, mr_Offset = d1 + off - quot (d1 + d2) 2,
      mr_ServerToClientDiff = d1 + off, mr_ClientToServerDiff = d2 - off, mr_Timestamp = md_receiveTS c\<rparr>"
    using assms(1,2) s by (simp add: latest_def Let_def add.commute)
  moreover have "quot (d1 + d1) 2 = d1"
    by (cases "0 \<le> d1") (simp_all add: quot_neg)
  ultimately show ?thesis using half_sum_bound [of d1 d2] by auto
qed

text \<open>
  C15: Let the server's clock be ahead of the client's by \<open>-off\<close>, let a Sync take \<open>d1\<close> and a Delay_Req take \<open>d2\<close> on
  the wire. Then the measured offset misses \<open>off\<close> by at most half the asymmetry of the path, rounded
  up to a nanosecond; on a symmetric path delay and offset are exact.
\<close>
theorem latest_error_bound:
  assumes "last_sample (ms_serverToClient m) = Some s" and "last_sample (ms_clientToServer m) = Some c"
    and "md_receiveTS s = md_sendTS s + d1 + off" and "md_receiveTS c = md_sendTS c + d2 - off"
    and "\<bar>d1\<bar> < 2 ^ 60" and "\<bar>d2\<bar> < 2 ^ 60" and "\<bar>off\<bar> < 2 ^ 60"
  shows "\<exists>r. latest m = Ok r \<and> 2 * \<bar>mr_Offset r - off\<bar> \<le> \<bar>d1 - d2\<bar> + 1 \<and>
    (d1 = d2 \<longrightarrow> mr_Delay r = d1 \<and> mr_Offset r = off)"
  using assms by (rule latest_measures)

section \<open>The packets of the client\<close>

definition numbered :: "u16 \<Rightarrow> Signaling \<Rightarrow> Signaling" where
  "numbered n p = p\<lparr>sg_Header := SetSequence n (sg_Header p)\<rparr>"

lemma numbered_simps [simp]:
  "sg_TLVs (numbered n p) = sg_TLVs p" "sg_TargetPortIdentity (numbered n p) = sg_TargetPortIdentity p"
  "h_SequenceID (sg_Header (numbered n p)) = n"
  "h_SourcePortIdentity (sg_Header (numbered n p)) = h_SourcePortIdentity (sg_Header p)"
  "Header_MessageType (sg_Header (numbered n p)) = Header_MessageType (sg_Header p)"
  "h_MessageLength (sg_Header (numbered n p)) = h_MessageLength (sg_Header p)"
  by (simp_all add: numbered_def SetSequence_def Header_MessageType_def)

lemma client_header_simps [simp]:
  "h_SourcePortIdentity (client_header cid t l) = \<lparr>pi_ClockIdentity = cid, pi_PortNumber = 1\<rparr>"
  "h_MessageLength (client_header cid t l) = word_of_nat l"
  "Header_MessageType (client_header cid 12 l) = 12"
  "Header_MessageType (client_header cid 1 l) = 1"
  by (simp_all add: client_header_def Header_MessageType_def NewSdoIDAndMsgType_def MsgType_def)

lemma reqUnicast_ok: "packet_ok (P_Signaling (numbered n (reqUnicast cid d what)))"
  by (simp add: signaling_ok_def Signaling_bytes_def binary_Write_def reqUnicast_def)

lemma reqDelay_ok: "packet_ok (P_SyncDelayReq (r\<lparr>sd_Header := SetSequence n (sd_Header r)\<rparr>))"
  if "r = reqDelay cid"
  by (simp add: that reqDelay_def zero_Timestamp_def SetSequence_def Header_MessageType_def
      client_header_def NewSdoIDAndMsgType_def MsgType_def)

text \<open>
  The acknowledgement of a cancellation is built with the TLV type of a cancellation, and the two TLVs
  have the same layout.
\<close>

definition cancel_of_ack :: "AcknowledgeCancelUnicastTransmissionTLV \<Rightarrow> CancelUnicastTransmissionTLV" where
  "cancel_of_ack t = \<lparr>ca_TLVHead = ak_TLVHead t, ca_MsgTypeAndFlags = ak_MsgTypeAndFlags t,
     ca_Reserved = ak_Reserved t\<rparr>"

definition as_cancel :: "Signaling \<Rightarrow> Signaling" where
  "as_cancel p = p\<lparr>sg_TLVs := map (\<lambda>t. case t of Ack_TLV a \<Rightarrow> Cancel_TLV (cancel_of_ack a) | _ \<Rightarrow> t) (sg_TLVs p)\<rparr>"

lemma TLV_bytes_cancel_of_ack: "TLV_bytes (Cancel_TLV (cancel_of_ack a)) = TLV_bytes (Ack_TLV a)"
  by (simp add: cancel_of_ack_def binary_Write_def Cancel_codec_def Ack_codec_def)

lemma ack_as_cancel:
  fixes n cid what
  defines "p \<equiv> numbered n (reqAckCancelUnicast cid what)"
  shows "packet_ok (P_Signaling (as_cancel p)) \<and> Packet_Bytes (P_Signaling (as_cancel p)) = Packet_Bytes (P_Signaling p)"
proof -
  have p: "sg_TLVs p = [Ack_TLV \<lparr>ak_TLVHead = \<lparr>th_TLVType = TLVCancelUnicastTransmission, th_LengthField = 2\<rparr>,
      ak_MsgTypeAndFlags = NewUnicastMsgTypeAndFlags what 0, ak_Reserved = 0\<rparr>]"
      "h_MessageLength (sg_Header p) = 50" "Header_MessageType (sg_Header p) = MessageSignaling"
    by (simp_all add: p_def reqAckCancelUnicast_def)
  have b: "Signaling_bytes (as_cancel p) = Signaling_bytes p"
    by (simp add: Signaling_bytes_def as_cancel_def p TLV_bytes_cancel_of_ack del: TLV_bytes.simps)
  have l: "length (Signaling_bytes p) = 50"
    by (simp add: Signaling_bytes_def p binary_Write_def)
  have a: "sg_TLVs (as_cancel p) = [Cancel_TLV \<lparr>ca_TLVHead = \<lparr>th_TLVType = TLVCancelUnicastTransmission,
      th_LengthField = 2\<rparr>, ca_MsgTypeAndFlags = NewUnicastMsgTypeAndFlags what 0, ca_Reserved = 0\<rparr>]"
      "sg_Header (as_cancel p) = sg_Header p"
    by (simp_all add: as_cancel_def p cancel_of_ack_def)
  have "packet_ok (P_Signaling (as_cancel p))"
    by (simp add: signaling_ok_def a p b l)
  moreover have "Signaling_MarshalBinary (as_cancel p) = Signaling_MarshalBinary p"
    using a p l b by (simp add: marshalled)
  ultimately show ?thesis by simp
qed

text \<open>
  The packet with which the client acknowledges a cancellation is read by its receiver as another
  cancellation, not as an acknowledgement.
\<close>
theorem ack_reads_as_cancel:
  "\<exists>b g. Packet_Bytes (P_Signaling (numbered n (reqAckCancelUnicast cid what))) = Ok b \<and>
     DecodePacket mgmtTLVDecoder b = Ok (P_Signaling g) \<and>
     (\<exists>t. sg_TLVs g = [Cancel_TLV t] \<and> ca_MsgTypeAndFlags t = NewUnicastMsgTypeAndFlags what 0)"
proof -
  let ?p = "as_cancel (numbered n (reqAckCancelUnicast cid what))"
  obtain b where "Packet_Bytes (P_Signaling ?p) = Ok b" "DecodePacket mgmtTLVDecoder b = Ok (P_Signaling ?p)"
    using decode_packet_bytes ack_as_cancel by blast
  moreover have "\<exists>t. sg_TLVs ?p = [Cancel_TLV t] \<and> ca_MsgTypeAndFlags t = NewUnicastMsgTypeAndFlags what 0"
    by (simp add: as_cancel_def reqAckCancelUnicast_def cancel_of_ack_def)
  ultimately show ?thesis using ack_as_cancel [of n cid what] by (metis (no_types))
qed

section \<open>What the client sends\<close>

text \<open>A datagram of the client: a Signaling packet to the general port or a Delay_Req to the event port.\<close>

definition client_datagram :: "ClockIdentity \<Rightarrow> nat \<times> bytes \<Rightarrow> bool" where
  "client_datagram cid d \<longleftrightarrow> (\<exists>p. DecodePacket mgmtTLVDecoder (snd d) = Ok p \<and>
     h_SourcePortIdentity (Packet_Header p) = \<lparr>pi_ClockIdentity = cid, pi_PortNumber = 1\<rparr> \<and>
     (fst d = PortGeneral \<and> Packet_MessageType p = MessageSignaling \<or>
      fst d = PortEvent \<and> Packet_MessageType p = MessageDelayReq))"

definition client_inv :: "ClockIdentity \<Rightarrow> Client \<Rightarrow> bool" where
  "client_inv cid c \<longleftrightarrow> cl_clockID c = cid \<and> list_all (client_datagram cid) (cl_sent c) \<and>
     length (cl_inChan c) \<le> 10"

text \<open>A packet the client may hand to a connection: whatever its number, its bytes are such a datagram.\<close>

definition sendable :: "ClockIdentity \<Rightarrow> nat \<Rightarrow> Packet \<Rightarrow> bool" where
  "sendable cid port p \<longleftrightarrow> (\<forall>n b. Packet_Bytes (Packet_SetSequence n p) = Ok b \<longrightarrow> client_datagram cid (port, b))"

lemma sendable_if_ok:
  assumes "\<And>n. packet_ok (q n)" and "\<And>n. Packet_Bytes (q n) = Packet_Bytes (Packet_SetSequence n p)"
    and "\<And>n. h_SourcePortIdentity (Packet_Header (q n)) = \<lparr>pi_ClockIdentity = cid, pi_PortNumber = 1\<rparr>"
    and "\<And>n. port = PortGeneral \<and> Packet_MessageType (q n) = MessageSignaling \<or>
      port = PortEvent \<and> Packet_MessageType (q n) = MessageDelayReq"
  shows "sendable cid port p"
  unfolding sendable_def client_datagram_def
proof (intro allI impI)
  fix n b
  assume "Packet_Bytes (Packet_SetSequence n p) = Ok b"
  then have "DecodePacket mgmtTLVDecoder b = Ok (q n)"
    using decode_packet_bytes [OF assms(1) [of n]] assms(2) [of n] by auto
  then show "\<exists>p. DecodePacket mgmtTLVDecoder (snd (port, b)) = Ok p \<and>
      h_SourcePortIdentity (Packet_Header p) = \<lparr>pi_ClockIdentity = cid, pi_PortNumber = 1\<rparr> \<and>
      (fst (port, b) = PortGeneral \<and> Packet_MessageType p = MessageSignaling \<or>
       fst (port, b) = PortEvent \<and> Packet_MessageType p = MessageDelayReq)"
    using assms(3,4) [of n] by auto
qed

lemma SetSequence_Signaling: "Packet_SetSequence n (P_Signaling p) = P_Signaling (numbered n p)"
  by (simp add: numbered_def)

lemma sendable_requests:
  "sendable cid PortGeneral (P_Signaling (reqUnicast cid d what))"
  "sendable cid PortGeneral (P_Signaling (reqAckCancelUnicast cid what))"
  "sendable cid PortEvent (P_SyncDelayReq (reqDelay cid))"
proof -
  show "sendable cid PortGeneral (P_Signaling (reqUnicast cid d what))"
    by (rule sendable_if_ok [of "\<lambda>n. P_Signaling (numbered n (reqUnicast cid d what))", OF reqUnicast_ok])
      (simp_all only: SetSequence_Signaling, simp_all add: Packet_MessageType_def reqUnicast_def)
  show "sendable cid PortGeneral (P_Signaling (reqAckCancelUnicast cid what))"
    by (rule sendable_if_ok [of "\<lambda>n. P_Signaling (as_cancel (numbered n (reqAckCancelUnicast cid what)))"])
      (simp_all only: SetSequence_Signaling ack_as_cancel,
       simp_all add: Packet_MessageType_def as_cancel_def reqAckCancelUnicast_def)
  show "sendable cid PortEvent (P_SyncDelayReq (reqDelay cid))"
    by (rule sendable_if_ok [of "\<lambda>n. Packet_SetSequence n (P_SyncDelayReq (reqDelay cid))"])
      (simp_all only: Packet_SetSequence.simps reqDelay_ok [OF refl],
       simp_all add: Packet_MessageType_def reqDelay_def SetSequence_def Header_MessageType_def
         client_header_def NewSdoIDAndMsgType_def MsgType_def)
qed

lemma client_inv_upd [simp]:
  "client_inv cid (upd_m f c) = client_inv cid c" "client_inv cid (setState st c) = client_inv cid c"
  "client_inv cid (c\<lparr>cl_results := r\<rparr>) = client_inv cid c" "client_inv cid (c\<lparr>cl_result := x\<rparr>) = client_inv cid c"
  by (simp_all add: client_inv_def upd_m_def setState_def)

lemma inv_sendGeneralMsg:
  assumes "client_inv cid c" and "sendable cid PortGeneral p"
  shows "client_inv cid (fst (sendGeneralMsg ok p c))"
  using assms by (auto simp: sendGeneralMsg_def client_inv_def sendable_def split: sum.split)

lemma inv_sendEventMsg:
  assumes "client_inv cid c" and "sendable cid PortEvent p"
  shows "client_inv cid (fst (sendEventMsg tx p c))"
  using assms by (auto simp: sendEventMsg_def client_inv_def sendable_def split: sum.split tx_outcome.split)

lemma inv_clockID: "client_inv cid c \<Longrightarrow> cl_clockID c = cid"
  by (simp add: client_inv_def)

lemma clockID_simps [simp]: "cl_clockID (upd_m f c) = cl_clockID c" "cl_clockID (setState st c) = cl_clockID c"
  by (simp_all add: upd_m_def setState_def)

lemma inv_client_TLV:
  assumes "client_inv cid c"
  shows "client_inv cid (fst (handle_client_TLV ok tlv c))"
proof (cases tlv)
  case (Grant_TLV v)
  then show ?thesis
    using assms by (auto simp: handleGrantUnicast_def Let_def drop_value_def inv_clockID
        intro!: inv_sendGeneralMsg sendable_requests)
next
  case (Cancel_TLV v)
  then show ?thesis
    using inv_sendGeneralMsg [OF assms sendable_requests(2), of ok "Unicast_MsgType (ca_MsgTypeAndFlags v)"] assms
    by (auto simp: handleCancelUnicast_def inv_clockID split: prod.split sum.split)
qed (use assms in simp_all)

lemma inv_client_TLVs:
  "client_inv cid c \<Longrightarrow> client_inv cid (fst (handle_client_TLVs ok i tlvs c))"
proof (induction tlvs arbitrary: i c)
  case (Cons tlv tlvs)
  then show ?case
    using inv_client_TLV [OF Cons.prems, of "ok i" tlv] by (auto split: prod.split sum.split)
qed simp

lemma inv_reading:
  assumes "client_inv cid c" and "\<And>p. client_inv cid (fst (f p c))"
  shows "client_inv cid (fst (reading what r f c))"
  using assms by (auto simp: reading_def split: sum.split goerr.split)

lemma inv_handlers:
  assumes "client_inv cid c"
  shows "client_inv cid (fst (handleAnnounce a c))" "client_inv cid (fst (handleSync s ts c))"
    "client_inv cid (fst (handleDelay d c))" "client_inv cid (fst (handleFollowUp tx b c))"
proof -
  show "client_inv cid (fst (handleAnnounce a c))" "client_inv cid (fst (handleSync s ts c))"
    "client_inv cid (fst (handleDelay d c))"
    using assms by (simp_all add: handleAnnounce_def handleSync_def handleDelay_def Let_def split: sum.split)
  let ?c = "upd_m (addFollowUp (h_SequenceID (fu_Header b))
    (Timestamp_Time (fb_PreciseOriginTimestamp (fu_FollowUpBody b)))) c"
  have "client_inv cid (fst (sendEventMsg tx (P_SyncDelayReq (reqDelay cid)) ?c))"
    by (rule inv_sendEventMsg) (use assms sendable_requests in simp_all)
  then show "client_inv cid (fst (handleFollowUp tx b c))"
    using inv_clockID [OF assms] by (auto simp: handleFollowUp_def Let_def split: prod.split sum.split)
qed

lemma inv_handleMsg:
  assumes "client_inv cid c"
  shows "client_inv cid (fst (handleMsg ok tx msg c))"
  using assms by (auto simp: handleMsg_def Let_def inv_reading inv_client_TLVs inv_handlers split: sum.split)

lemma client_step_inv:
  assumes "client_step c c'" and "client_inv cid c"
  shows "client_inv cid c'"
  using assms(1)
proof cases
  case (iteration ok tx)
  show ?thesis
  proof (cases "cl_inChan c")
    case Nil
    then show ?thesis
      using assms(2) iteration inv_sendGeneralMsg [OF assms(2) sendable_requests(1)]
      by (auto simp: runInternal_iteration_def loop_result_def drop_value_def inv_clockID
          split: prod.split sum.split state.split)
  next
    case (Cons m q)
    have "client_inv cid (c\<lparr>cl_inChan := q\<rparr>)"
      using assms(2) Cons by (simp add: client_inv_def)
    from inv_handleMsg [OF this, of ok tx m] show ?thesis
      using iteration Cons by (auto simp: runInternal_iteration_def loop_result_def split: prod.split sum.split)
  qed
qed (use assms(2) in \<open>auto simp: receive_def client_inv_def split: if_splits\<close>)

lemma client_inv_reachable: "client_reachable (Client_New d cid) c \<Longrightarrow> client_inv cid c"
proof (induction rule: client_reachable.induct)
  case client_start
  show ?case by (simp add: client_inv_def Client_New_def)
qed (rule client_step_inv)

text \<open>
  Every datagram the client ever sends, whatever it receives, decodes to a Signaling packet on the
  general port or a Delay_Req on the event port with the client's own port identity as its source.
\<close>
theorem client_datagrams_decode:
  assumes "client_reachable (Client_New d cid) c" and "(port, b) \<in> set (cl_sent c)"
  shows "\<exists>p. DecodePacket mgmtTLVDecoder b = Ok p \<and>
    h_SourcePortIdentity (Packet_Header p) = \<lparr>pi_ClockIdentity = cid, pi_PortNumber = 1\<rparr> \<and>
    (port = PortGeneral \<and> Packet_MessageType p = MessageSignaling \<or>
     port = PortEvent \<and> Packet_MessageType p = MessageDelayReq)"
  using client_inv_reachable [OF assms(1)] assms(2)
  by (auto simp: client_inv_def client_datagram_def list_all_iff)

lemma sendEventMsg_no_panic: "snd (sendEventMsg tx (P_SyncDelayReq (reqDelay cid)) c) \<noteq> Inl Panic"
proof -
  obtain b where "Packet_Bytes (Packet_SetSequence (cl_eventSequence c) (P_SyncDelayReq (reqDelay cid))) = Ok b"
    using decode_packet_bytes [OF reqDelay_ok [OF refl]] by fastforce
  then show ?thesis by (simp add: sendEventMsg_def split: tx_outcome.split)
qed

lemma handlers_no_panic:
  "snd (handleAnnounce a c) \<noteq> Inl Panic" "snd (handleSync s ts c) \<noteq> Inl Panic"
  "snd (handleDelay d c) \<noteq> Inl Panic" "snd (handleFollowUp tx b c) \<noteq> Inl Panic"
proof -
  let ?c = "upd_m (addFollowUp (h_SequenceID (fu_Header b))
    (Timestamp_Time (fb_PreciseOriginTimestamp (fu_FollowUpBody b)))) c"
  show "snd (handleFollowUp tx b c) \<noteq> Inl Panic"
    using sendEventMsg_no_panic [of tx "cl_clockID ?c" ?c]
    by (auto simp: handleFollowUp_def Let_def split: prod.splits sum.splits)
qed (simp_all add: handleAnnounce_def handleSync_def handleDelay_def Let_def split: sum.split)

lemma reading_no_panic:
  "r \<noteq> Inl Panic \<Longrightarrow> (\<And>p. snd (f p c) \<noteq> Inl Panic) \<Longrightarrow> snd (reading what r f c) \<noteq> Inl Panic"
  by (auto simp: reading_def split: sum.split goerr.split)

text \<open>
  C16: A message makes the client panic only if it is a Signaling packet: all other packets, of any
  length and content, are handled or refused with an error.
\<close>
theorem handleMsg_panic:
  assumes "snd (handleMsg ok tx msg c) = Inl Panic"
  shows "ProbeMsgType (ip_data msg) = Ok MessageSignaling"
proof (rule ccontr)
  assume "ProbeMsgType (ip_data msg) \<noteq> Ok MessageSignaling"
  moreover have "ProbeMsgType (ip_data msg) \<noteq> Inl Panic" by (simp add: ProbeMsgType_def)
  ultimately have "snd (handleMsg ok tx msg c) \<noteq> Inl Panic"
    using sync_u.unmarshal_no_panic followup_u.unmarshal_no_panic delayresp_u.unmarshal_no_panic
      panic_free_reads [of Announce_codec]
    by (auto simp: handleMsg_def Let_def reading_no_panic handlers_no_panic simp del: FromBytes.simps(2)
        split: sum.splits)
  with assms show False by contradiction
qed

section \<open>Examples\<close>

text \<open>Two samples in each direction; the client is 7 ns ahead and a packet takes 100 ns.\<close>

definition example_measurements :: measurements where
  "example_measurements =
     \<lparr>ms_currentUTCoffset = 0,
      ms_serverToClient = [(0, \<lparr>md_seq = 0, md_sendTS = 1000, md_receiveTS = 1200\<rparr>),
        (1, \<lparr>md_seq = 1, md_sendTS = 2000, md_receiveTS = 2107\<rparr>)],
      ms_clientToServer = [(0, \<lparr>md_seq = 0, md_sendTS = 3000, md_receiveTS = 3093\<rparr>)]\<rparr>"

lemma example_samples:
  "last_sample (ms_serverToClient example_measurements) = Some \<lparr>md_seq = 1, md_sendTS = 2000, md_receiveTS = 2107\<rparr>"
  "last_sample (ms_clientToServer example_measurements) = Some \<lparr>md_seq = 0, md_sendTS = 3000, md_receiveTS = 3093\<rparr>"
  by (simp_all add: example_measurements_def last_sample_def pick_last_def t_IsZero_def t_After_def zero_time_def second_def)

theorem latest_newest_witness:
  "\<exists>(s :: mData) r. latest example_measurements = Ok r \<and> mr_ServerToClientDiff r = t_Sub (md_receiveTS s) (md_sendTS s)"
proof -
  have i: "inj_on md_receiveTS {v \<in> snd ` set (ms_serverToClient example_measurements). both_ends v}"
      "inj_on md_receiveTS {v \<in> snd ` set (ms_clientToServer example_measurements). both_ends v}"
    by (auto simp: example_measurements_def inj_on_def)
  obtain r where r: "latest example_measurements = Ok r"
    using example_samples by (simp add: latest_def Let_def)
  then show ?thesis using latest_newest [OF refl refl i] by blast
qed

theorem latest_error_bound_witness:
  "\<exists>r. latest example_measurements = Ok r \<and> mr_Delay r = 100 \<and> mr_Offset r = 7"
  using latest_error_bound [OF example_samples, of 100 7 100] by auto

theorem client_datagrams_decode_witness:
  "\<exists>c b p. client_reachable (Client_New (60 * second) 7) c \<and> (PortGeneral, b) \<in> set (cl_sent c) \<and>
     DecodePacket mgmtTLVDecoder b = Ok p"
proof -
  let ?c = "Client_New (60 * second) 7"
  let ?p = "Packet_SetSequence 0 (P_Signaling (reqUnicast 7 (60 * second) MessageAnnounce))"
  obtain b where "Packet_Bytes ?p = Ok b"
    unfolding SetSequence_Signaling using decode_packet_bytes [OF reqUnicast_ok] by blast
  then have b: "(PortGeneral, b) \<in> set (cl_sent (runInternal_iteration (\<lambda>_. True) TX_Failed ?c))"
    by (simp add: runInternal_iteration_def loop_result_def drop_value_def sendGeneralMsg_def Client_New_def)
  have r: "client_reachable ?c (runInternal_iteration (\<lambda>_. True) TX_Failed ?c)"
    by (rule client_next [OF client_start iteration]) (simp add: Client_New_def)
  show ?thesis using r b client_datagrams_decode [OF r b] by blast
qed

theorem handleMsg_panic_witness:
  "ProbeMsgType example_truncated = Ok MessageSignaling"
proof -
  have "hd example_truncated = 0xC" "example_truncated \<noteq> []"
    by (simp_all add: example_truncated_def binary_Write_def Header_codec_def example_Signaling_def)
  then have "ProbeMsgType example_truncated = Ok MessageSignaling"
    by (auto simp: ProbeMsgType_def MsgType_def hd_conv_nth)
  then have "snd (handleMsg (\<lambda>_. True) TX_Failed \<lparr>ip_data = example_truncated, ip_ts = 0\<rparr> (Client_New 0 7)) = Inl Panic"
    by (simp add: handleMsg_def reading_def example_truncated_panics)
  from handleMsg_panic [OF this] show ?thesis by simp
qed

end
