(* ===== verification/PTP_Session.thy ===== *)
theory PTP_Session
  imports PTP4u_Server Simple_Client
begin

text \<open>
  The client of \<open>ptp/simpleclient\<close> talking to the server of \<open>ptp/ptp4u\<close>: each side's handlers run on the
  datagrams the other side produced. The lemmas here carry the two theorems on a whole session that
  the root theory states: the unicast handshake and the first measurement.
\<close>

section \<open>Client and server: the handshake\<close>

text \<open>A datagram that carries a well-formed packet announces the packet's type.\<close>

lemma ProbeMsgType_Packet_Bytes:
  assumes "packet_ok p" and "Packet_Bytes p = Ok b"
  shows "ProbeMsgType b = Ok (Packet_MessageType p)"
proof -
  obtain r where b: "b = cenc Header_codec (Packet_Header p) @ r"
    using packet_encoding [OF assms(1)] assms(2) by (auto simp: encoding_def)
  show ?thesis
    unfolding b by (simp add: ProbeMsgType_def Packet_MessageType_def Header_MessageType_def Header_codec_def)
qed

lemma grant_read_by_client:
  assumes "DecodePacket mgmtTLVDecoder b = Ok (P_Signaling g)" and "sg_TLVs g = [Grant_TLV t]"
  shows "handleMsg ok tx \<lparr>ip_data = b, ip_ts = ts\<rparr> c = handleGrantUnicast (ok 0) t c"
proof -
  have "mgmt_to_Packet x \<noteq> P_Signaling g" for x
    by (cases x) (simp_all add: mgmt_to_Packet_def)
  then obtain h r where h: "binary_Read Header_codec b = Ok (h, r)" "Header_MessageType h = MessageSignaling"
      "Signaling_UnmarshalBinary [] b = Ok g"
    using assms(1) by (fastforce simp: DecodePacket_def bind_res_Ok_iff map_res_Ok_iff Let_def split: if_splits)
  then have "ProbeMsgType b = Ok MessageSignaling"
    by (cases b) (auto simp: ProbeMsgType_def binary_Read_def read_full_def Header_MessageType_def
        Header_codec_def split: if_splits)
  with h(3) assms(2) show ?thesis
    by (simp add: handleMsg_def reading_def split: prod.split sum.split)
qed

text \<open>A subscription once registered stays in its worker's table while requests are handled.\<close>

lemma sendGrant_tables: "sendGrant ok a sg mt i d sa s = Ok s' \<Longrightarrow> sv_sw s' = sv_sw s"
proof (cases "UpdateGrant sg mt i d (sv_subs s ! a)")
  case (Inr sc)
  assume "sendGrant ok a sg mt i d sa s = Ok s'"
  with Inr show ?thesis
    by (cases "Bytes (MarshalBinary Signaling_MarshalBinary) (sc_grant sc)")
      (auto simp: sendGrant_def Let_def simp del: Bytes.simps split: goerr.splits if_splits)
qed (simp add: sendGrant_def)

lemma find_or_create_tables:
  assumes "find_or_create cid t w sa i x now s = (a, s')" and "FindSubscription k st (sv_sw s ! v) \<noteq> None"
    and "v < length (sv_sw s)"
  shows "FindSubscription k st (sv_sw s' ! v) \<noteq> None"
  using assms by (cases "v = w") (auto simp: find_or_create_def Let_def worker_table.find_register
      split: option.splits)

lemma handle_request_tables:
  assumes "handle_request e now ok sg sa v s = Ok s'" and "FindSubscription k st (sv_sw s ! u) \<noteq> None"
    and "u < length (sv_sw s)"
  shows "FindSubscription k st (sv_sw s' ! u) \<noteq> None"
proof (cases "grantable (Unicast_MsgType (rq_MsgTypeAndReserved v))")
  case True
  then obtain w where w: "findWorker e (h_SourcePortIdentity (sg_Header sg)) s = Ok w"
    using assms(1) by (auto simp: handle_request_def Let_def bind_res_Ok_iff)
  obtain a s1 where f: "find_or_create (h_SourcePortIdentity (sg_Header sg))
      (Unicast_MsgType (rq_MsgTypeAndReserved v)) w sa
      (LogInterval_Duration (en_cvt e) (rq_LogInterMessagePeriod v))
      (t_Add now (i64 (uint (rq_DurationField v) * second))) now s = (a, s1)" by fastforce
  have "sv_sw s' = sv_sw s1"
    using assms(1) True w f
    by (auto simp: handle_request_def Let_def bind_res_Ok_iff split: if_splits dest!: sendGrant_tables)
  then show ?thesis using find_or_create_tables [OF f assms(2,3)] by simp
qed (use assms in \<open>auto simp: handle_request_def Let_def\<close>)

text \<open>The requests of a client within the limits of the server.\<close>

definition acceptable :: "Config \<Rightarrow> duration \<Rightarrow> bool" where
  "acceptable cfg d \<longleftrightarrow> cf_MinSubInterval cfg \<le> 2 * second \<and> 0 < dur_Seconds_int d \<and> dur_Seconds_int d < 2 ^ 32 \<and>
     dur_Seconds_int d * second \<le> cf_MaxSubDuration cfg"

abbreviation client_port :: "Client \<Rightarrow> PortIdentity" where
  "client_port c \<equiv> \<lparr>pi_ClockIdentity = cl_clockID c, pi_PortNumber = 1\<rparr>"

definition request_of :: "ClockIdentity \<Rightarrow> duration \<Rightarrow> MessageType \<Rightarrow> RequestUnicastTransmissionTLV" where
  "request_of cid d what = (case sg_TLVs (reqUnicast cid d what) of Request_TLV v # _ \<Rightarrow> v)"

lemma request_of_simps:
  "sg_TLVs (reqUnicast cid d what) = [Request_TLV (request_of cid d what)]"
  "rq_MsgTypeAndReserved (request_of cid d what) = NewUnicastMsgTypeAndFlags what 0"
  "rq_LogInterMessagePeriod (request_of cid d what) = 1"
  "rq_DurationField (request_of cid d what) = word_of_int (dur_Seconds_int d)"
  "h_SourcePortIdentity (sg_Header (reqUnicast cid d what)) = \<lparr>pi_ClockIdentity = cid, pi_PortNumber = 1\<rparr>"
  "Header_MessageType (sg_Header (reqUnicast cid d what)) = MessageSignaling"
  by (simp_all add: request_of_def reqUnicast_def)

lemma request_types:
  "Unicast_MsgType (NewUnicastMsgTypeAndFlags what 0) = what" if "grantable what"
  using that by (auto simp: grantable_def Unicast_MsgType_def NewUnicastMsgTypeAndFlags_def)

lemma uint_seconds: "0 < x \<Longrightarrow> x < 2 ^ 32 \<Longrightarrow> uint (word_of_int x :: u32) = x"
  by (simp add: unsigned_of_int take_bit_int_eq_self)

lemma request_in_limits:
  "acceptable cfg d \<Longrightarrow> \<not> out_of_limits e cfg (request_of cid d what)"
  by (simp add: acceptable_def out_of_limits_def request_of_simps LogInterval_Duration_nonneg uint_seconds)

text \<open>One request of the client and the server's answer.\<close>

lemma request_round:
  assumes "server_inv e s" and "env_ok e" and "acceptable (sv_Config s) d" and "grantable what"
    and "Packet_Bytes (Packet_SetSequence n (P_Signaling (reqUnicast cid d what))) = Ok b"
  obtains s' g G t w where "handleGeneralMessage e now (\<lambda>_. True) (Ok (b, sa)) s = Ok s'"
    and "sv_sent s' = sv_sent s @ [(g, sa)]" and "DecodePacket mgmtTLVDecoder g = Ok (P_Signaling G)"
    and "sg_TLVs G = [Grant_TLV t]" and "Unicast_MsgType (gr_MsgTypeAndReserved t) = what"
    and "gr_DurationField t \<noteq> 0" and "server_inv e s'" and "sv_Config s' = sv_Config s"
    and "findWorker e \<lparr>pi_ClockIdentity = cid, pi_PortNumber = 1\<rparr> s = Ok w" and "w < length (sv_sw s)"
    and "FindSubscription \<lparr>pi_ClockIdentity = cid, pi_PortNumber = 1\<rparr> what (sv_sw s' ! w) \<noteq> None"
    and "\<And>k st u. FindSubscription k st (sv_sw s ! u) \<noteq> None \<Longrightarrow> u < length (sv_sw s) \<Longrightarrow>
      FindSubscription k st (sv_sw s' ! u) \<noteq> None"
proof -
  let ?p = "numbered n (reqUnicast cid d what)" and ?v = "request_of cid d what"
  have ok: "signaling_ok ?p" "length (Signaling_bytes ?p) \<le> 126"
    using reqUnicast_ok [of n cid d what] by simp_all
      (simp add: Signaling_bytes_def binary_Write_def reqUnicast_def)
  have b: "b = Signaling_bytes ?p @ [0, 0]"
    using assms(5) ok by (simp add: SetSequence_Signaling marshalled signaling_ok_def twoZeros_def del: Packet_SetSequence.simps)
  have ty: "Unicast_MsgType (rq_MsgTypeAndReserved ?v) = what"
    using request_types [OF assms(4)] by (simp add: request_of_simps)
  have sig: "Header_MessageType (sg_Header ?p) = MessageSignaling"
      "h_SourcePortIdentity (sg_Header ?p) = \<lparr>pi_ClockIdentity = cid, pi_PortNumber = 1\<rparr>"
    by (simp_all add: request_of_simps)
  obtain s' g G t w a where r: "handle_request e (now 0) True ?p sa ?v s = Ok s'"
      "sv_sent s' = sv_sent s @ [(g, sa)]" "DecodePacket mgmtTLVDecoder g = Ok (P_Signaling G)"
      "sg_TLVs G = [Grant_TLV t]" "gr_MsgTypeAndReserved t = rq_MsgTypeAndReserved ?v"
      "gr_DurationField t = (if out_of_limits e (sv_Config s) ?v then 0 else rq_DurationField ?v)"
      "findWorker e \<lparr>pi_ClockIdentity = cid, pi_PortNumber = 1\<rparr> s = Ok w"
      "FindSubscription \<lparr>pi_ClockIdentity = cid, pi_PortNumber = 1\<rparr> what (sv_sw s' ! w) = Some a"
      "sv_Config s' = sv_Config s"
    using handle_request_answer [OF assms(1,2) sig(1), of ?v "now 0" sa] assms(4) unfolding ty sig by blast
  have "handleGeneralMessage e now (\<lambda>_. True) (Ok (b, sa)) s = Ok s'"
    using r(1) by (simp add: b handleGeneralMessage_signaling [OF ok] request_of_simps)
  moreover have "gr_DurationField t \<noteq> 0"
  proof -
    have "uint (gr_DurationField t) = dur_Seconds_int d"
      using r(6) request_in_limits [OF assms(3)] assms(3)
      by (simp add: request_of_simps acceptable_def uint_seconds)
    then show ?thesis using assms(3) by (auto simp: acceptable_def)
  qed
  moreover have "server_inv e s'"
    using inv_handle_request [OF assms(1,2) sig(1), of "now 0" True sa ?v] r(1) by simp
  moreover have "w < length (sv_sw s)"
    using findWorker_Ok [OF assms(1,2), of "\<lparr>pi_ClockIdentity = cid, pi_PortNumber = 1\<rparr>"] r(7) by auto
  ultimately show thesis
    using that r ty handle_request_tables [OF r(1)] by auto
qed

text \<open>
  A round of the handshake: the server gets the datagram the client sent last, and the client the
  answer the server sent last.
\<close>

definition session_round :: "env \<Rightarrow> (nat \<Rightarrow> gotime) \<Rightarrow> Sockaddr \<Rightarrow> Server \<times> Client \<Rightarrow> (Server \<times> Client) res" where
  "session_round e now sa = (\<lambda>(s, c).
     bind_res (handleGeneralMessage e now (\<lambda>_. True) (Ok (snd (last (cl_sent c)), sa)) s) (\<lambda>s'.
     case handleMsg (\<lambda>_. True) TX_Failed \<lparr>ip_data = fst (last (sv_sent s')), ip_ts = zero_time\<rparr> c of
       (c', Inl er) \<Rightarrow> Inl er
     | (c', Inr _) \<Rightarrow> Ok (s', c')))"

text \<open>The client's last datagram asks for messages of a type.\<close>

definition asked :: "MessageType \<Rightarrow> Client \<Rightarrow> bool" where
  "asked what c \<longleftrightarrow> cl_sent c \<noteq> [] \<and> (\<exists>n. Packet_Bytes (Packet_SetSequence n
     (P_Signaling (reqUnicast (cl_clockID c) (cl_Duration c) what))) = Ok (snd (last (cl_sent c))))"

lemma client_asks:
  obtains c' where "sendGeneralMsg True (P_Signaling (reqUnicast (cl_clockID c) (cl_Duration c) what)) c =
      (c', Ok (cl_genSequence c))"
    and "asked what c'" and "cl_state c' = cl_state c" and "cl_clockID c' = cl_clockID c"
    and "cl_Duration c' = cl_Duration c" and "cl_inChan c' = cl_inChan c"
proof -
  obtain b where b: "Packet_Bytes (Packet_SetSequence (cl_genSequence c)
      (P_Signaling (reqUnicast (cl_clockID c) (cl_Duration c) what))) = Ok b"
    unfolding SetSequence_Signaling using decode_packet_bytes [OF reqUnicast_ok] by blast
  let ?c = "c\<lparr>cl_genSequence := cl_genSequence c + 1, cl_sent := cl_sent c @ [(PortGeneral, b)]\<rparr>"
  have "asked what ?c"
    unfolding asked_def using b by (intro conjI exI [of _ "cl_genSequence c"]) simp_all
  then show thesis
    using that [of ?c] b by (simp add: sendGeneralMsg_def del: Packet_SetSequence.simps)
qed

text \<open>What the client does with a grant: ask for the next type, until the last one.\<close>

definition next_type :: "MessageType \<Rightarrow> MessageType option" where
  "next_type t = (if t = MessageAnnounce then Some MessageSync
     else if t = MessageSync then Some MessageDelayResp else None)"

lemma client_granted:
  assumes "Unicast_MsgType (gr_MsgTypeAndReserved t) = what" and "gr_DurationField t \<noteq> 0" and "grantable what"
  obtains c' where "handleGrantUnicast True t c = (c', Ok ())"
    and "\<And>n. next_type what = Some n \<Longrightarrow> asked n c'" and "cl_clockID c' = cl_clockID c"
    and "cl_Duration c' = cl_Duration c"
    and "cl_state c' = (if what = MessageAnnounce then stateInProgress else cl_state c)"
proof -
  let ?c = "setState stateInProgress c"
  have c: "cl_Duration ?c = cl_Duration c" "cl_state ?c = stateInProgress"
    by (simp_all add: setState_def)
  consider "what = MessageAnnounce" | "what = MessageSync" | "what = MessageDelayResp"
    using assms(3) by (auto simp: grantable_def)
  then show thesis
  proof cases
    case 1
    obtain c' where "sendGeneralMsg True (P_Signaling (reqUnicast (cl_clockID ?c) (cl_Duration ?c) MessageSync)) ?c =
        (c', Ok (cl_genSequence ?c))" "asked MessageSync c'" "cl_state c' = stateInProgress"
        "cl_clockID c' = cl_clockID c" "cl_Duration c' = cl_Duration c"
      using client_asks [of ?c MessageSync] c by auto
    with 1 assms(1,2) that [of c'] show thesis
      by (simp add: handleGrantUnicast_def next_type_def drop_value_def)
  next
    case 2
    obtain c' where "sendGeneralMsg True (P_Signaling (reqUnicast (cl_clockID c) (cl_Duration c) MessageDelayResp)) c =
        (c', Ok (cl_genSequence c))" "asked MessageDelayResp c'" "cl_state c' = cl_state c"
        "cl_clockID c' = cl_clockID c" "cl_Duration c' = cl_Duration c"
      using client_asks [of c MessageDelayResp] by auto
    with 2 assms(1,2) that [of c'] show thesis
      by (simp add: handleGrantUnicast_def next_type_def drop_value_def)
  next
    case 3
    with assms(1,2) that [of c] show thesis
      by (simp add: handleGrantUnicast_def next_type_def)
  qed
qed

text \<open>The subscriptions of a client at a server.\<close>

definition subscribed :: "env \<Rightarrow> PortIdentity \<Rightarrow> MessageType \<Rightarrow> Server \<Rightarrow> bool" where
  "subscribed e cid what s \<longleftrightarrow> (\<exists>w. findWorker e cid s = Ok w \<and> FindSubscription cid what (sv_sw s ! w) \<noteq> None)"

lemma round_granted:
  assumes "server_inv e s" and "env_ok e" and "acceptable (sv_Config s) (cl_Duration c)" and "grantable what"
    and "asked what c"
  shows "\<exists>s' c'. session_round e now sa (s, c) = Ok (s', c') \<and>
    server_inv e s' \<and> sv_Config s' = sv_Config s \<and> cl_clockID c' = cl_clockID c \<and>
    cl_Duration c' = cl_Duration c \<and> (\<forall>n. next_type what = Some n \<longrightarrow> asked n c') \<and>
    cl_state c' = (if what = MessageAnnounce then stateInProgress else cl_state c) \<and>
    subscribed e (client_port c) what s' \<and>
    (\<forall>st. subscribed e (client_port c) st s \<longrightarrow> subscribed e (client_port c) st s')"
proof -
  obtain n where "Packet_Bytes (Packet_SetSequence n
      (P_Signaling (reqUnicast (cl_clockID c) (cl_Duration c) what))) = Ok (snd (last (cl_sent c)))"
    using assms(5) by (auto simp: asked_def)
  from request_round [OF assms(1-4) this, of now sa]
  obtain s' g G t w where r: "handleGeneralMessage e now (\<lambda>_. True) (Ok (snd (last (cl_sent c)), sa)) s = Ok s'"
      "sv_sent s' = sv_sent s @ [(g, sa)]" "DecodePacket mgmtTLVDecoder g = Ok (P_Signaling G)"
      "sg_TLVs G = [Grant_TLV t]" "Unicast_MsgType (gr_MsgTypeAndReserved t) = what" "gr_DurationField t \<noteq> 0"
      "server_inv e s'" "sv_Config s' = sv_Config s" "findWorker e (client_port c) s = Ok w" "w < length (sv_sw s)"
      "FindSubscription (client_port c) what (sv_sw s' ! w) \<noteq> None"
      "\<And>k st u. FindSubscription k st (sv_sw s ! u) \<noteq> None \<Longrightarrow> u < length (sv_sw s) \<Longrightarrow>
        FindSubscription k st (sv_sw s' ! u) \<noteq> None"
    by (metis (no_types, lifting))
  obtain c' where c: "handleGrantUnicast True t c = (c', Ok ())" "\<And>n. next_type what = Some n \<Longrightarrow> asked n c'"
      "cl_clockID c' = cl_clockID c" "cl_Duration c' = cl_Duration c"
      "cl_state c' = (if what = MessageAnnounce then stateInProgress else cl_state c)"
    using client_granted [OF r(5,6) assms(4)] by metis
  have "session_round e now sa (s, c) = Ok (s', c')"
    using r(1,2) c(1) by (simp add: session_round_def grant_read_by_client [OF r(3,4)])
  moreover have f: "findWorker e (client_port c) s' = Ok w"
    using findWorker_Ok [OF r(7) assms(2), of "client_port c"] findWorker_Ok [OF assms(1,2), of "client_port c"]
      r(8,9) by auto
  ultimately show ?thesis
    using r c by (intro exI [of _ s'] exI [of _ c']) (auto simp: subscribed_def)
qed

lemma handshake_completes:
  assumes "server_inv e s" and "env_ok e" and "acceptable (sv_Config s) (cl_Duration c)"
    and "cl_state c = stateInit" and "cl_inChan c = []"
  shows "\<exists>s1 c1 s2 c2 s3 c3. session_round e now sa (s, runInternal_iteration (\<lambda>_. True) tx c) = Ok (s1, c1) \<and>
    session_round e now sa (s1, c1) = Ok (s2, c2) \<and> session_round e now sa (s2, c2) = Ok (s3, c3) \<and>
    cl_state c3 = stateInProgress \<and> subscribed e (client_port c) MessageAnnounce s3 \<and>
    subscribed e (client_port c) MessageSync s3 \<and> subscribed e (client_port c) MessageDelayResp s3"
proof -
  obtain c0 where c0: "sendGeneralMsg True (P_Signaling (reqUnicast (cl_clockID c) (cl_Duration c) MessageAnnounce)) c =
      (c0, Ok (cl_genSequence c))" "asked MessageAnnounce c0" "cl_clockID c0 = cl_clockID c"
      "cl_Duration c0 = cl_Duration c"
    using client_asks [of c MessageAnnounce] by auto
  have i: "runInternal_iteration (\<lambda>_. True) tx c = c0"
    using c0(1) assms(4,5) by (simp add: runInternal_iteration_def loop_result_def drop_value_def)
  have g: "grantable MessageAnnounce" "grantable MessageSync" "grantable MessageDelayResp"
    by (simp_all add: grantable_def)
  have n: "next_type MessageAnnounce = Some MessageSync" "next_type MessageSync = Some MessageDelayResp"
    by (simp_all add: next_type_def)
  obtain s1 c1 where r1: "session_round e now sa (s, c0) = Ok (s1, c1)" "server_inv e s1"
      "sv_Config s1 = sv_Config s" "cl_clockID c1 = cl_clockID c" "cl_Duration c1 = cl_Duration c"
      "asked MessageSync c1" "cl_state c1 = stateInProgress" "subscribed e (client_port c) MessageAnnounce s1"
    using round_granted [OF assms(1,2) _ g(1) c0(2), of now sa] assms(3) c0(3,4) n(1) by auto
  obtain s2 c2 where r2: "session_round e now sa (s1, c1) = Ok (s2, c2)" "server_inv e s2"
      "sv_Config s2 = sv_Config s" "cl_clockID c2 = cl_clockID c" "cl_Duration c2 = cl_Duration c"
      "asked MessageDelayResp c2" "cl_state c2 = stateInProgress" "subscribed e (client_port c) MessageSync s2"
      "subscribed e (client_port c) MessageAnnounce s2"
    using round_granted [OF r1(2) assms(2) _ g(2) r1(6), of now sa] assms(3) r1 n(2) by auto
  obtain s3 c3 where "session_round e now sa (s2, c2) = Ok (s3, c3)" "cl_state c3 = stateInProgress"
      "subscribed e (client_port c) MessageDelayResp s3" "subscribed e (client_port c) MessageSync s3"
      "subscribed e (client_port c) MessageAnnounce s3"
    using round_granted [OF r2(2) assms(2) _ g(3) r2(6), of now sa] assms(3) r2 by auto
  with r1(1) r2(1) show ?thesis unfolding i by blast
qed
section \<open>The first measurement\<close>

lemma DecodePacket_probe:
  assumes "DecodePacket mgmtTLVDecoder b = Ok p"
  obtains h r where "binary_Read Header_codec b = Ok (h, r)" and "ProbeMsgType b = Ok (Header_MessageType h)"
proof -
  obtain h r where h: "binary_Read Header_codec b = Ok (h, r)"
    using assms by (auto simp: DecodePacket_def bind_res_Ok_iff)
  then have "ProbeMsgType b = Ok (Header_MessageType h)"
    by (cases b) (auto simp: ProbeMsgType_def binary_Read_def read_full_def Header_MessageType_def
        Header_codec_def split: if_splits)
  with h show thesis by (rule that)
qed

lemma mgmt_to_Packet_other: "mgmt_to_Packet x \<noteq> P_SyncDelayReq a" "mgmt_to_Packet x \<noteq> P_FollowUp f"
  "mgmt_to_Packet x \<noteq> P_DelayResp d"
  by (cases x; simp add: mgmt_to_Packet_def)+

text \<open>What the client does with the server's timing messages.\<close>

lemma sync_read_by_client:
  assumes "DecodePacket mgmtTLVDecoder b = Ok (P_SyncDelayReq y)" and "Header_MessageType (sd_Header y) = MessageSync"
  shows "handleMsg ok tx \<lparr>ip_data = b, ip_ts = ts\<rparr> c = handleSync y ts c"
proof -
  obtain h r where h: "binary_Read Header_codec b = Ok (h, r)" "ProbeMsgType b = Ok (Header_MessageType h)"
    using DecodePacket_probe [OF assms(1)] .
  have u: "SyncDelayReq_UnmarshalBinary b = Ok y"
    using assms(1) h(1) mgmt_to_Packet_other(1) [of _ y]
    by (fastforce simp: DecodePacket_def map_res_Ok_iff Let_def split: if_splits)
  then have "ProbeMsgType b = Ok MessageSync"
    using probe_header [OF u] assms(2) by simp
  with u show ?thesis by (simp add: handleMsg_def reading_def)
qed

lemma followup_read_by_client:
  assumes "DecodePacket mgmtTLVDecoder b = Ok (P_FollowUp f)"
  shows "handleMsg ok tx \<lparr>ip_data = b, ip_ts = ts\<rparr> c = handleFollowUp tx f c"
proof -
  obtain h r where h: "binary_Read Header_codec b = Ok (h, r)" "ProbeMsgType b = Ok (Header_MessageType h)"
    using DecodePacket_probe [OF assms(1)] .
  have u: "FollowUp_UnmarshalBinary b = Ok f" "Header_MessageType h = MessageFollowUp"
    using assms(1) h(1) mgmt_to_Packet_other(2) [of _ f]
    by (fastforce simp: DecodePacket_def map_res_Ok_iff Let_def split: if_splits)+
  with h show ?thesis by (simp add: handleMsg_def reading_def)
qed

lemma delayresp_read_by_client:
  assumes "DecodePacket mgmtTLVDecoder b = Ok (P_DelayResp d)"
  shows "handleMsg ok tx \<lparr>ip_data = b, ip_ts = ts\<rparr> c = handleDelay d c"
proof -
  obtain h r where h: "binary_Read Header_codec b = Ok (h, r)" "ProbeMsgType b = Ok (Header_MessageType h)"
    using DecodePacket_probe [OF assms(1)] .
  have u: "DelayResp_UnmarshalBinary b = Ok d" "Header_MessageType h = MessageDelayResp"
    using assms(1) h(1) mgmt_to_Packet_other(3) [of _ d]
    by (fastforce simp: DecodePacket_def map_res_Ok_iff Let_def split: if_splits)+
  with h show ?thesis by (simp add: handleMsg_def reading_def)
qed

text \<open>The time the server puts into its packets.\<close>

definition server_time :: "Config \<Rightarrow> gotime \<Rightarrow> gotime" where
  "server_time cfg t = (if cf_TimestampType cfg \<noteq> HWTIMESTAMP then t_Add t (cf_UTCOffset cfg) else t)"

definition ptp_time :: "gotime \<Rightarrow> bool" where
  "ptp_time t \<longleftrightarrow> 0 \<le> t_Unix t \<and> t_Unix t < 2 ^ 48"

lemma ptp_time_nonzero: "ptp_time t \<Longrightarrow> t \<noteq> zero_time"
  by (auto simp: ptp_time_def t_Unix_def zero_time_def second_def)

lemma ptp_time_Time: "ptp_time t \<Longrightarrow> Timestamp_Time (NewTimestamp t) = t"
  by (simp add: ptp_time_def Time_NewTimestamp)

text \<open>The client between the Follow_Up and the Delay_Resp, starting with no samples.\<close>

definition no_samples :: "Client \<Rightarrow> bool" where
  "no_samples c \<longleftrightarrow> ms_serverToClient (cl_m c) = [] \<and> ms_clientToServer (cl_m c) = []"

lemma client_after_followup:
  assumes "no_samples c" and "h_SequenceID (sd_Header y) = n" and "h_SequenceID (fu_Header f) = n"
    and "fb_PreciseOriginTimestamp (fu_FollowUpBody f) = NewTimestamp T1" and "ptp_time T1"
  obtains c1 c2 b r where "handleSync y t2 c = (c1, Ok ())" and "handleFollowUp (TX_Sent t3) f c1 = (c2, Ok ())"
    and "cl_sent c2 = cl_sent c @ [(PortEvent, b)]" and "cl_results c2 = cl_results c"
    and "SyncDelayReq_UnmarshalBinary (take 128 b) = Ok r"
    and "Header_MessageType (sd_Header r) = MessageDelayReq"
    and "h_SourcePortIdentity (sd_Header r) = \<lparr>pi_ClockIdentity = cl_clockID c, pi_PortNumber = 1\<rparr>"
    and "ms_serverToClient (cl_m c2) = [(n, \<lparr>md_seq = n, md_sendTS = T1, md_receiveTS = t2\<rparr>)]"
    and "ms_clientToServer (cl_m c2) = [(h_SequenceID (sd_Header r),
      \<lparr>md_seq = h_SequenceID (sd_Header r), md_sendTS = t3, md_receiveTS = zero_time\<rparr>)]"
proof -
  let ?r = "reqDelay (cl_clockID c)\<lparr>sd_Header := SetSequence (cl_eventSequence c) (sd_Header (reqDelay (cl_clockID c)))\<rparr>"
  let ?c1 = "upd_m (addSync n t2) c"
  let ?c2 = "upd_m (addFollowUp n T1) ?c1"
  have ok: "packet_ok (P_SyncDelayReq ?r)" by (rule reqDelay_ok [OF refl])
  then obtain b where b: "Packet_Bytes (P_SyncDelayReq ?r) = Ok b"
    using decode_packet_bytes by blast
  have u: "SyncDelayReq_UnmarshalBinary b = Ok ?r"
    using decode_body [OF ok b] by simp
  have l: "length b = 46"
  proof -
    have k: "cok SyncDelayReq_codec ?r" using ok by (simp only: packet_ok.simps)
    then have "b = cenc SyncDelayReq_codec ?r @ [0, 0]"
      using b by (simp add: marshalled(1) twoZeros_def binary_Write_def del: cok_packets)
    then show ?thesis using wf_codecD(1) [OF wf_SyncDelayReq k] by simp
  qed
  let ?c3 = "?c2\<lparr>cl_eventSequence := cl_eventSequence c + 1, cl_sent := cl_sent c @ [(PortEvent, b)]\<rparr>"
  have "sendEventMsg (TX_Sent t3) (P_SyncDelayReq (reqDelay (cl_clockID ?c2))) ?c2 =
      (?c3, Ok (cl_eventSequence c, t3))"
    using b by (simp add: sendEventMsg_def upd_m_def)
  then have "handleFollowUp (TX_Sent t3) f ?c1 = (upd_m (addDelayReq (cl_eventSequence c) t3) ?c3, Ok ())"
    using assms(3-5) by (simp add: handleFollowUp_def ptp_time_Time)
  moreover have "handleSync y t2 c = (?c1, Ok ())"
    using assms(2) by (simp add: handleSync_def)
  moreover have "h_SequenceID (sd_Header ?r) = cl_eventSequence c" "Header_MessageType (sd_Header ?r) = MessageDelayReq"
      "h_SourcePortIdentity (sd_Header ?r) = \<lparr>pi_ClockIdentity = cl_clockID c, pi_PortNumber = 1\<rparr>"
    by (simp_all add: SetSequence_def reqDelay_def Header_MessageType_def client_header_def
        NewSdoIDAndMsgType_def MsgType_def)
  ultimately show thesis
    using assms(1) u l
    by (intro that [of ?c1 "upd_m (addDelayReq (cl_eventSequence c) t3) ?c3" b ?r])
      (simp_all add: upd_m_def addSync_def addFollowUp_def addDelayReq_def set_receiveTS_def set_sendTS_def
        no_samples_def)
qed

lemma client_measures:
  assumes "ms_serverToClient (cl_m c) = [(n, \<lparr>md_seq = n, md_sendTS = T1, md_receiveTS = t2\<rparr>)]"
    and "ms_clientToServer (cl_m c) = [(k, \<lparr>md_seq = k, md_sendTS = t3, md_receiveTS = zero_time\<rparr>)]"
    and "h_SequenceID (dr_Header d) = k"
    and "db_ReceiveTimestamp (dr_DelayRespBody d) = NewTimestamp T4" and "ptp_time T1" and "ptp_time T4"
    and "t2 \<noteq> zero_time" and "t3 \<noteq> zero_time" and "t2 = T1 + d1 + off" and "T4 = t3 + d2 - off"
    and "\<bar>d1\<bar> < 2 ^ 60" and "\<bar>d2\<bar> < 2 ^ 60" and "\<bar>off\<bar> < 2 ^ 60"
  shows "\<exists>c' r. handleDelay d c = (c', Ok ()) \<and> cl_results c' = cl_results c @ [r] \<and>
    2 * \<bar>mr_Offset r - off\<bar> \<le> \<bar>d1 - d2\<bar> + 1 \<and> (d1 = d2 \<longrightarrow> mr_Delay r = d1 \<and> mr_Offset r = off)"
proof -
  let ?m = "addDelayResp k T4 (cl_m c)"
  let ?s = "\<lparr>md_seq = n, md_sendTS = T1, md_receiveTS = t2\<rparr>" and ?d = "\<lparr>md_seq = k, md_sendTS = t3, md_receiveTS = T4\<rparr>"
  have "last_sample (ms_serverToClient ?m) = Some ?s" "last_sample (ms_clientToServer ?m) = Some ?d"
    using assms(1,2,7,8) ptp_time_nonzero [OF assms(5)] ptp_time_nonzero [OF assms(6)]
    by (simp_all add: addDelayResp_def set_receiveTS_def last_sample_def pick_last_def t_IsZero_def)
  then have "\<exists>r. latest ?m = Ok r \<and> 2 * \<bar>mr_Offset r - off\<bar> \<le> \<bar>d1 - d2\<bar> + 1 \<and>
      (d1 = d2 \<longrightarrow> mr_Delay r = d1 \<and> mr_Offset r = off)"
    using assms(9-13) by (intro latest_measures [of ?m ?s ?d]) simp_all
  then show ?thesis
    using assms(3,4) ptp_time_Time [OF assms(6)] by (auto simp: handleDelay_def upd_m_def)
qed

end
