(* ===== verification/Go_Effects.thy ===== *)
theory Go_Effects
  imports Go_Prelude
begin

text \<open>
  Code with effects on its surroundings, as state transformers: a call takes the state of the outside (the network, the kernel)
  and returns its result with the state after it, also when the result is an error.
\<close>

type_synonym ('w, 'a) call = "'w \<Rightarrow> 'a res \<times> 'w"

definition ret_call :: "'a res \<Rightarrow> ('w, 'a) call" where
  "ret_call r w = (r, w)"

definition bind_call :: "('w, 'a) call \<Rightarrow> ('a \<Rightarrow> ('w, 'c) call) \<Rightarrow> ('w, 'c) call" where
  "bind_call m f w = (case m w of (Inl e, w') \<Rightarrow> (Inl e, w') | (Inr x, w') \<Rightarrow> f x w')"

lemma bind_ret_call [simp]:
  "bind_call (ret_call (Inl e)) f = ret_call (Inl e)"
  "bind_call (ret_call (Inr x)) f = f x"
  by (simp_all add: fun_eq_iff bind_call_def ret_call_def)

lemma bind_call_Ok: "m w = (Ok x, w') \<Longrightarrow> bind_call m f w = f x w'"
  by (simp add: bind_call_def)

lemma bind_call_Ok_iff: "bind_call m f w = (Ok y, u) \<longleftrightarrow> (\<exists>x v. m w = (Ok x, v) \<and> f x v = (Ok y, u))"
  by (auto simp: bind_call_def split: prod.splits sum.splits)

lemma bind_call_OkE:
  assumes "bind_call m f w = (Ok y, u)" obtains x v where "m w = (Ok x, v)" "f x v = (Ok y, u)"
  using assms by (auto simp: bind_call_Ok_iff)

lemma ret_call_Ok_iff: "ret_call r w = (Ok y, u) \<longleftrightarrow> r = Ok y \<and> u = w"
  by (auto simp: ret_call_def)

text \<open>\<open>fmt.Errorf("...: %w", err)\<close> around a failed call, and a second attempt after a failed one.\<close>

definition wrap_call :: "string \<Rightarrow> ('w, 'a) call \<Rightarrow> ('w, 'a) call" where
  "wrap_call msg m w = (case m w of (Inl (GoError e), w') \<Rightarrow> (Err (msg @ e), w') | r \<Rightarrow> r)"

definition or_else :: "('w, 'a) call \<Rightarrow> ('w, 'a) call \<Rightarrow> ('w, 'a) call" where
  "or_else m n w = (case m w of (Inl (GoError e), w') \<Rightarrow> n w' | r \<Rightarrow> r)"

lemma wrap_call_Ok_iff: "wrap_call msg m w = (Ok y, u) \<longleftrightarrow> m w = (Ok y, u)"
  by (auto simp: wrap_call_def split: prod.splits sum.splits goerr.splits)

lemma or_else_Ok_iff:
  "or_else m n w = (Ok y, u) \<longleftrightarrow> m w = (Ok y, u) \<or> (\<exists>e v. m w = (Err e, v) \<and> n v = (Ok y, u))"
  by (auto simp: or_else_def split: prod.splits sum.splits goerr.splits)

lemmas call_Ok_iffs = bind_call_Ok_iff ret_call_Ok_iff wrap_call_Ok_iff or_else_Ok_iff

end
