(* ===== verification/Socket_Setup.thy ===== *)
theory Socket_Setup
  imports PTP_Session Go_Effects
begin

text \<open>
  How the PTP programs set up their sockets: enabling timestamps (\<open>timestamp/timestamp.go\<close>), the sockets of a send worker
  (\<open>listen\<close> of \<open>ptp4u/server/worker.go\<close>), the listeners of the server (\<open>server.go\<close>), the setup of the simple client
  (\<open>simpleclient/client.go\<close>), and the checks of \<open>cmd/ptp4u/main.go\<close>. A system call is an event with its outcome; the kernel
  decides the outcome of a call from the history of the calls before it, so that every behaviour of the kernel is covered.
\<close>

section \<open>System calls\<close>

datatype syscall =
    Socket int int int
  | ListenUDP netIP nat
  | RawControl int
  | SetsockoptInt int int int int
  | Bind int Sockaddr
  | Getsockname int
  | Ioctl_SIOCSHWTSTAMP int string int int int
  | SetNonblock int bool

type_synonym history = "(syscall \<times> int res) list"
type_synonym kernel = "history \<Rightarrow> syscall \<Rightarrow> int res"

definition sys :: "kernel \<Rightarrow> syscall \<Rightarrow> (history, int) call" where
  "sys k c h = (k h c, h @ [(c, k h c)])"

lemma sys_Ok_iff: "sys k c h = (Ok x, h') \<longleftrightarrow> k h c = Ok x \<and> h' = h @ [(c, Ok x)]"
  by (auto simp: sys_def)

lemma sys_Err_iff: "sys k c h = (Inl e, h') \<longleftrightarrow> k h c = Inl e \<and> h' = h @ [(c, Inl e)]"
  by (auto simp: sys_def)

text \<open>Constants of \<open>golang.org/x/sys/unix\<close> on Linux.\<close>

definition AF_INET :: int where [simp]: "AF_INET = 2"
definition AF_INET6 :: int where [simp]: "AF_INET6 = 10"
definition SOCK_DGRAM :: int where [simp]: "SOCK_DGRAM = 2"
definition IPPROTO_IP :: int where [simp]: "IPPROTO_IP = 0"
definition IPPROTO_UDP :: int where [simp]: "IPPROTO_UDP = 17"
definition IPPROTO_IPV6 :: int where [simp]: "IPPROTO_IPV6 = 41"
definition IP_TOS :: int where [simp]: "IP_TOS = 1"
definition IPV6_TCLASS :: int where [simp]: "IPV6_TCLASS = 67"
definition unix_SOL_SOCKET :: int where [simp]: "unix_SOL_SOCKET = 1"
definition SO_REUSEPORT :: int where [simp]: "SO_REUSEPORT = 15"
definition SO_SELECT_ERR_QUEUE :: int where [simp]: "SO_SELECT_ERR_QUEUE = 45"
definition SOF_TIMESTAMPING_TX_HARDWARE :: int where "SOF_TIMESTAMPING_TX_HARDWARE = 0x1"
definition SOF_TIMESTAMPING_TX_SOFTWARE :: int where "SOF_TIMESTAMPING_TX_SOFTWARE = 0x2"
definition SOF_TIMESTAMPING_RX_HARDWARE :: int where "SOF_TIMESTAMPING_RX_HARDWARE = 0x4"
definition SOF_TIMESTAMPING_RX_SOFTWARE :: int where "SOF_TIMESTAMPING_RX_SOFTWARE = 0x8"
definition SOF_TIMESTAMPING_SOFTWARE :: int where "SOF_TIMESTAMPING_SOFTWARE = 0x10"
definition SOF_TIMESTAMPING_RAW_HARDWARE :: int where "SOF_TIMESTAMPING_RAW_HARDWARE = 0x40"
definition SOF_TIMESTAMPING_OPT_TSONLY :: int where "SOF_TIMESTAMPING_OPT_TSONLY = 0x800"

section \<open>Timestamps\<close>

definition hwtstampTXON :: int where [simp]: "hwtstampTXON = 1"
definition hwtstampFilterAll :: int where [simp]: "hwtstampFilterAll = 1"
definition hwtstampFilterPTPv2Event :: int where [simp]: "hwtstampFilterPTPv2Event = 0xc"

text \<open>The socket option is chosen when the program starts, from the first character of the kernel release.\<close>

definition init_timestamping :: "string res \<Rightarrow> int" where
  "init_timestamping release =
     (case release of
        Inl _ \<Rightarrow> 65
      | Inr [] \<Rightarrow> 37
      | Inr (c # _) \<Rightarrow> if (of_char c :: nat) < of_char CHR ''5'' then 37 else 65)"

definition ConnFd :: "kernel \<Rightarrow> int \<Rightarrow> (history, int) call" where
  "ConnFd k conn = bind_call (sys k (RawControl conn)) (\<lambda>_. ret_call (Ok conn))"

text \<open>The name of the interface is cut to the 15 bytes of the request.\<close>

definition ioctlTimestamp :: "kernel \<Rightarrow> int \<Rightarrow> string \<Rightarrow> int \<Rightarrow> (history, int) call" where
  "ioctlTimestamp k fd ifname flt =
     wrap_call ''failed to run ioctl SIOCSHWTSTAMP: '' (sys k (Ioctl_SIOCSHWTSTAMP fd (take 15 ifname) 0 hwtstampTXON flt))"

definition hw_flags :: int where
  "hw_flags = SOF_TIMESTAMPING_TX_HARDWARE OR SOF_TIMESTAMPING_RX_HARDWARE OR SOF_TIMESTAMPING_RAW_HARDWARE OR
     SOF_TIMESTAMPING_OPT_TSONLY"

definition sw_flags :: int where
  "sw_flags = SOF_TIMESTAMPING_TX_SOFTWARE OR SOF_TIMESTAMPING_RX_SOFTWARE OR SOF_TIMESTAMPING_SOFTWARE OR
     SOF_TIMESTAMPING_OPT_TSONLY"

definition enable_flags :: "kernel \<Rightarrow> int \<Rightarrow> int \<Rightarrow> int \<Rightarrow> (history, int) call" where
  "enable_flags k timestamping connFd flags =
     bind_call (sys k (SetsockoptInt connFd unix_SOL_SOCKET timestamping flags)) (\<lambda>_.
       sys k (SetsockoptInt connFd unix_SOL_SOCKET SO_SELECT_ERR_QUEUE 1))"

definition EnableHWTimestampsSocket :: "kernel \<Rightarrow> int \<Rightarrow> int \<Rightarrow> string \<Rightarrow> (history, int) call" where
  "EnableHWTimestampsSocket k timestamping connFd iface =
     bind_call (or_else (ioctlTimestamp k connFd iface hwtstampFilterAll) (ioctlTimestamp k connFd iface hwtstampFilterPTPv2Event))
       (\<lambda>_. enable_flags k timestamping connFd hw_flags)"

definition EnableSWTimestampsSocket :: "kernel \<Rightarrow> int \<Rightarrow> int \<Rightarrow> (history, int) call" where
  "EnableSWTimestampsSocket k timestamping connFd = enable_flags k timestamping connFd sw_flags"

section \<open>Sockets of a send worker\<close>

definition enableDSCP :: "kernel \<Rightarrow> int \<Rightarrow> netIP \<Rightarrow> int \<Rightarrow> (history, int) call" where
  "enableDSCP k fd localAddr dscp =
     (if To4 localAddr = None then sys k (SetsockoptInt fd IPPROTO_IPV6 IPV6_TCLASS (i64 (dscp * 4)))
      else sys k (SetsockoptInt fd IPPROTO_IP IP_TOS (i64 (dscp * 4))))"

definition enable_timestamps :: "kernel \<Rightarrow> int \<Rightarrow> Config \<Rightarrow> int \<Rightarrow> (history, int) call" where
  "enable_timestamps k timestamping c fd =
     (if cf_TimestampType c = HWTIMESTAMP then
        wrap_call ''failed to enable RX hardware timestamps: '' (EnableHWTimestampsSocket k timestamping fd (cf_Interface c))
      else if cf_TimestampType c = SWTIMESTAMP then
        wrap_call ''unable to enable RX software timestamps: '' (EnableSWTimestampsSocket k timestamping fd)
      else ret_call (Err (''unrecognized timestamp type: '' @ cf_TimestampType c)))"

definition listen :: "kernel \<Rightarrow> int \<Rightarrow> Config \<Rightarrow> (history, int \<times> int) call" where
  "listen k timestamping c =
     (let domain = (if To4 (cf_IP c) \<noteq> None then AF_INET else AF_INET6); sockAddrAnyPort = IPToSockaddr (cf_IP c) 0 in
      bind_call (wrap_call ''creating event socket error: '' (sys k (Socket domain SOCK_DGRAM IPPROTO_UDP))) (\<lambda>eventFD.
      bind_call (wrap_call ''failed to set SO_REUSEPORT on event socket: '' (sys k (SetsockoptInt eventFD unix_SOL_SOCKET SO_REUSEPORT 1))) (\<lambda>_.
      bind_call (wrap_call ''unable to bind event socket connection: '' (sys k (Bind eventFD sockAddrAnyPort))) (\<lambda>_.
      bind_call (wrap_call ''unable to find local ip: '' (sys k (Getsockname eventFD))) (\<lambda>_.
      bind_call (wrap_call ''setting DSCP on event socket: '' (enableDSCP k eventFD (cf_IP c) (cf_DSCP c))) (\<lambda>_.
      bind_call (enable_timestamps k timestamping c eventFD) (\<lambda>_.
      bind_call (wrap_call ''creating general socket error: '' (sys k (Socket domain SOCK_DGRAM IPPROTO_UDP))) (\<lambda>generalFD.
      bind_call (wrap_call ''failed to set SO_REUSEPORT on general socket: '' (sys k (SetsockoptInt generalFD unix_SOL_SOCKET SO_REUSEPORT 1))) (\<lambda>_.
      bind_call (wrap_call ''binding event socket connection: '' (sys k (Bind generalFD sockAddrAnyPort))) (\<lambda>_.
      bind_call (wrap_call ''setting DSCP on general socket: '' (enableDSCP k generalFD (cf_IP c) (cf_DSCP c))) (\<lambda>_.
        ret_call (Ok (eventFD, generalFD)))))))))))))"

section \<open>Listeners of the server\<close>

text \<open>The descriptor on which the receive workers read; every failure ends the program.\<close>

definition listener_timestamps :: "kernel \<Rightarrow> int \<Rightarrow> Config \<Rightarrow> int \<Rightarrow> (history, int) call" where
  "listener_timestamps k timestamping c eFd =
     (if cf_TimestampType c = HWTIMESTAMP then
        wrap_call ''Cannot enable hardware RX timestamps: '' (EnableHWTimestampsSocket k timestamping eFd (cf_Interface c))
      else if cf_TimestampType c = SWTIMESTAMP then
        wrap_call ''Cannot enable software RX timestamps: '' (EnableSWTimestampsSocket k timestamping eFd)
      else ret_call (Err (''Unrecognized timestamp type: '' @ cf_TimestampType c)))"

definition startEventListener :: "kernel \<Rightarrow> int \<Rightarrow> Config \<Rightarrow> (history, int) call" where
  "startEventListener k timestamping c =
     bind_call (wrap_call ''Listening error: '' (sys k (ListenUDP (cf_IP c) PortEvent))) (\<lambda>eventConn.
     bind_call (wrap_call ''Getting event connection FD: '' (ConnFd k eventConn)) (\<lambda>eFd.
     bind_call (listener_timestamps k timestamping c eFd) (\<lambda>_.
     bind_call (wrap_call ''Failed to set socket to blocking: '' (sys k (SetNonblock eFd False))) (\<lambda>_.
       ret_call (Ok eFd)))))"

definition startGeneralListener :: "kernel \<Rightarrow> Config \<Rightarrow> (history, int) call" where
  "startGeneralListener k c =
     bind_call (wrap_call ''Listening error: '' (sys k (ListenUDP (cf_IP c) PortGeneral))) (\<lambda>generalConn.
     bind_call (wrap_call ''Getting general connection FD: '' (ConnFd k generalConn)) (\<lambda>gFd.
     bind_call (wrap_call ''Failed to set socket to blocking: '' (sys k (SetNonblock gFd False))) (\<lambda>_.
       ret_call (Ok gFd))))"

section \<open>Setup of the client\<close>

record ClientConfig =
  cc_Address :: string
  cc_Iface :: string
  cc_Timeout :: duration
  cc_Duration :: duration
  cc_Timestamping :: string

definition client_timestamps :: "kernel \<Rightarrow> int \<Rightarrow> ClientConfig \<Rightarrow> int \<Rightarrow> (history, int) call" where
  "client_timestamps k timestamping c connFd =
     (if cc_Timestamping c = [] then
        or_else (EnableHWTimestampsSocket k timestamping connFd (cc_Iface c))
          (wrap_call ''failed to enable timestamps on port 319: '' (EnableSWTimestampsSocket k timestamping connFd))
      else if cc_Timestamping c = HWTIMESTAMP then
        wrap_call ''failed to enable hardware timestamps on port 319: '' (EnableHWTimestampsSocket k timestamping connFd (cc_Iface c))
      else if cc_Timestamping c = SWTIMESTAMP then
        wrap_call ''failed to enable software timestamps on port 319: '' (EnableSWTimestampsSocket k timestamping connFd)
      else ret_call (Err ''unknown type of typestamping: %q''))"

text \<open>
  The hardware address of the interface and the resolution of the server's address are arguments. The result is the clock
  identity with the descriptors of the two connections.
\<close>

definition client_setup ::
  "kernel \<Rightarrow> int \<Rightarrow> bytes res \<Rightarrow> (string \<Rightarrow> nat \<Rightarrow> unit res) \<Rightarrow> ClientConfig \<Rightarrow> (history, ClockIdentity \<times> int \<times> int) call" where
  "client_setup k timestamping mac resolve c =
     bind_call (ret_call mac) (\<lambda>hw.
     bind_call (ret_call (NewClockIdentity hw)) (\<lambda>cid.
     bind_call (ret_call (resolve (cc_Address c) PortGeneral)) (\<lambda>_.
     bind_call (ret_call (resolve (cc_Address c) PortEvent)) (\<lambda>_.
     bind_call (sys k (ListenUDP (replicate 16 0) PortGeneral)) (\<lambda>genConn.
     bind_call (sys k (ListenUDP (replicate 16 0) PortEvent)) (\<lambda>eventConn.
     bind_call (ConnFd k eventConn) (\<lambda>connFd.
     bind_call (client_timestamps k timestamping c connFd) (\<lambda>_.
     bind_call (wrap_call ''failed to set event socket to blocking: '' (sys k (SetNonblock connFd False))) (\<lambda>_.
       ret_call (Ok (cid, genConn, eventConn)))))))))))"

section \<open>Starting ptp4u\<close>

definition ptp4u_log_levels :: "string list" where
  "ptp4u_log_levels = [''debug'', ''info'', ''warning'', ''error'']"

text \<open>
  The checks of the configuration before the server starts: the addresses of the interface and the two clocks are what the
  system calls give. The result is the configuration the server runs with.
\<close>

definition ptp4u_main :: "(string \<Rightarrow> netIP) \<Rightarrow> netIP list res \<Rightarrow> gotime res \<Rightarrow> gotime res \<Rightarrow> string \<Rightarrow> Config \<Rightarrow> Config res" where
  "ptp4u_main parse addrs phcTime shmTime ipaddr c =
     (if cf_LogLevel c \<notin> set ptp4u_log_levels then Err ''Unrecognized log level: %v''
      else if cf_DSCP c < 0 \<or> cf_DSCP c > 63 then Err ''Unsupported DSCP value %v''
      else if cf_TimestampType c \<noteq> SWTIMESTAMP \<and> cf_TimestampType c \<noteq> HWTIMESTAMP then Err ''Unrecognized timestamp type: %s''
      else let c = c\<lparr>cf_IP := parse ipaddr\<rparr> in
        bind_res (IfaceHasIP addrs c) (\<lambda>found.
          if \<not> found then Err (''IP '' @ [CHR 0x27] @ ''%s'' @ [CHR 0x27] @ '' is not found on interface '' @ [CHR 0x27] @ ''%s'' @ [CHR 0x27])
          else if cf_SHM c then
            (case SetUTCOffsetFromSHM phcTime shmTime c of (c', r) \<Rightarrow> bind_res r (\<lambda>_. Ok c'))
          else Ok c))"

section \<open>What the kernel has been told\<close>

text \<open>The value of a socket option and the address of a socket after a history of calls: the last ones that were accepted.\<close>

fun sets_option :: "int \<Rightarrow> int \<Rightarrow> int \<Rightarrow> syscall \<times> int res \<Rightarrow> int option" where
  "sets_option fd level opt (SetsockoptInt fd' level' opt' v, Inr _) = (if fd' = fd \<and> level' = level \<and> opt' = opt then Some v else None)"
| "sets_option fd level opt _ = None"

fun sets_address :: "int \<Rightarrow> syscall \<times> int res \<Rightarrow> Sockaddr option" where
  "sets_address fd (Bind fd' sa, Inr _) = (if fd' = fd then Some sa else None)"
| "sets_address fd _ = None"

fun first_some :: "('e \<Rightarrow> 'a option) \<Rightarrow> 'e list \<Rightarrow> 'a option" where
  "first_some f [] = None"
| "first_some f (e # es) = (case f e of None \<Rightarrow> first_some f es | Some v \<Rightarrow> Some v)"

definition last_set :: "(syscall \<times> int res \<Rightarrow> 'a option) \<Rightarrow> history \<Rightarrow> 'a option" where
  "last_set f h = first_some f (rev h)"

abbreviation option_of :: "history \<Rightarrow> int \<Rightarrow> int \<Rightarrow> int \<Rightarrow> int option" where
  "option_of h fd level opt \<equiv> last_set (sets_option fd level opt) h"

abbreviation address_of :: "history \<Rightarrow> int \<Rightarrow> Sockaddr option" where
  "address_of h fd \<equiv> last_set (sets_address fd) h"

lemma init_timestamping_cases: "init_timestamping release = 37 \<or> init_timestamping release = 65"
  by (simp add: init_timestamping_def split: sum.split list.split)

lemma enable_flags_Ok:
  assumes "enable_flags k ts fd flags h = (Ok x, h')"
  shows "\<exists>y. h' = h @ [(SetsockoptInt fd 1 ts flags, Ok y), (SetsockoptInt fd 1 45 1, Ok x)]"
  using assms by (auto simp: enable_flags_def call_Ok_iffs sys_Ok_iff)

text \<open>Hardware timestamps need one of the two receive filters of the interface.\<close>

lemma EnableHW_Ok:
  assumes "EnableHWTimestampsSocket k ts fd iface h = (Ok x, h')"
  shows "\<exists>h1 flt y z. h' = h1 @ [(Ioctl_SIOCSHWTSTAMP fd (take 15 iface) 0 1 flt, Ok y),
      (SetsockoptInt fd 1 ts hw_flags, Ok z), (SetsockoptInt fd 1 45 1, Ok x)] \<and>
    (flt = hwtstampFilterAll \<and> h1 = h \<or>
     flt = hwtstampFilterPTPv2Event \<and> (\<exists>e. h1 = h @ [(Ioctl_SIOCSHWTSTAMP fd (take 15 iface) 0 1 hwtstampFilterAll, Inl e)]))"
proof -
  obtain y h2 where 1: "or_else (ioctlTimestamp k fd iface hwtstampFilterAll) (ioctlTimestamp k fd iface hwtstampFilterPTPv2Event) h = (Ok y, h2)"
      and 2: "enable_flags k ts fd hw_flags h2 = (Ok x, h')"
    using assms by (auto simp: EnableHWTimestampsSocket_def bind_call_Ok_iff)
  obtain z where h': "h' = h2 @ [(SetsockoptInt fd 1 ts hw_flags, Ok z), (SetsockoptInt fd 1 45 1, Ok x)]"
    using enable_flags_Ok [OF 2] by blast
  have "h2 = h @ [(Ioctl_SIOCSHWTSTAMP fd (take 15 iface) 0 1 hwtstampFilterAll, Ok y)] \<or>
      (\<exists>e. h2 = h @ [(Ioctl_SIOCSHWTSTAMP fd (take 15 iface) 0 1 hwtstampFilterAll, Inl e),
        (Ioctl_SIOCSHWTSTAMP fd (take 15 iface) 0 1 hwtstampFilterPTPv2Event, Ok y)])"
    using 1 by (auto simp: ioctlTimestamp_def or_else_Ok_iff wrap_call_Ok_iff sys_Ok_iff)
      (auto simp: wrap_call_def sys_def split: sum.splits goerr.splits prod.splits)
  then show ?thesis unfolding h' by auto
qed

definition filter_accepted :: "int \<Rightarrow> string \<Rightarrow> history \<Rightarrow> bool" where
  "filter_accepted fd iface h \<longleftrightarrow> (\<exists>flt y. (Ioctl_SIOCSHWTSTAMP fd (take 15 iface) 0 1 flt, Ok y) \<in> set h)"

text \<open>Calls that change nothing but the given options of a socket.\<close>

definition keeps_others :: "int \<Rightarrow> (int \<times> int) set \<Rightarrow> history \<Rightarrow> history \<Rightarrow> bool" where
  "keeps_others fd opts h h' \<longleftrightarrow>
     set h \<subseteq> set h' \<and> (\<forall>fd' l opt. fd' = fd \<and> (l, opt) \<in> opts \<or> option_of h' fd' l opt = option_of h fd' l opt) \<and>
     (\<forall>fd'. address_of h' fd' = address_of h fd')"

definition stamped :: "int \<Rightarrow> int \<Rightarrow> int \<Rightarrow> history \<Rightarrow> history \<Rightarrow> bool" where
  "stamped ts flags fd h h' \<longleftrightarrow>
     option_of h' fd 1 ts = Some flags \<and> option_of h' fd 1 45 = Some 1 \<and> keeps_others fd {(1, ts), (1, 45)} h h'"

lemma EnableHW_stamped:
  assumes "EnableHWTimestampsSocket k ts fd iface h = (Ok x, h')" and "ts = 37 \<or> ts = 65"
  shows "stamped ts hw_flags fd h h' \<and> filter_accepted fd iface h'"
  using EnableHW_Ok [OF assms(1)] assms(2)
  by (elim exE conjE disjE) (auto simp: stamped_def keeps_others_def last_set_def filter_accepted_def)

lemma EnableSW_stamped:
  assumes "EnableSWTimestampsSocket k ts fd h = (Ok x, h')" and "ts = 37 \<or> ts = 65"
  shows "stamped ts sw_flags fd h h'"
proof -
  obtain y where "h' = h @ [(SetsockoptInt fd 1 ts sw_flags, Ok y), (SetsockoptInt fd 1 45 1, Ok x)]"
    using enable_flags_Ok assms(1) by (fastforce simp: EnableSWTimestampsSocket_def)
  then show ?thesis using assms(2) by (auto simp: stamped_def keeps_others_def last_set_def)
qed

text \<open>A failed attempt at hardware timestamps touches no more than a successful one.\<close>

lemma EnableHW_failed:
  assumes "EnableHWTimestampsSocket k ts fd iface h = (Inl e, h')"
  shows "keeps_others fd {(1, ts), (1, 45)} h h'"
  using assms
  by (auto simp: EnableHWTimestampsSocket_def ioctlTimestamp_def enable_flags_def bind_call_def or_else_def wrap_call_def sys_def
      keeps_others_def last_set_def split: sum.splits goerr.splits prod.splits if_splits)

lemma keeps_others_refl: "keeps_others fd opts h h"
  by (simp add: keeps_others_def)

lemma keeps_others_trans: "keeps_others fd opts h h1 \<Longrightarrow> keeps_others fd opts h1 h2 \<Longrightarrow> keeps_others fd opts h h2"
  unfolding keeps_others_def by (metis subset_trans)

text \<open>
  A way of enabling timestamps: whenever it succeeds, the socket has the flags of one of the allowed kinds, errors are
  reported by the queue, and nothing else has changed.
\<close>

locale timestamp_setup =
  fixes enable :: "kernel \<Rightarrow> int \<Rightarrow> int \<Rightarrow> (history, int) call" and kinds :: "int set"
  assumes enabled: "enable k ts fd h = (Ok x, h') \<Longrightarrow> ts = 37 \<or> ts = 65 \<Longrightarrow> \<exists>flags\<in>kinds. stamped ts flags fd h h'"
begin

lemma blocking:
  assumes "bind_call (enable k ts fd) (\<lambda>_. bind_call (wrap_call m (sys k (SetNonblock fd b))) (\<lambda>_. ret_call (Ok y))) h = (Ok x, h')"
    and "ts = 37 \<or> ts = 65"
  shows "x = y \<and> (\<exists>flags\<in>kinds. stamped ts flags fd h h')"
proof -
  obtain z h1 u where h1: "enable k ts fd h = (Ok z, h1)" "h' = h1 @ [(SetNonblock fd b, Ok u)]" "x = y"
    using assms(1) by (auto simp: call_Ok_iffs sys_Ok_iff)
  then show ?thesis using enabled [OF h1(1) assms(2)]
    by (auto simp: stamped_def keeps_others_def last_set_def)
qed

end

interpretation worker_stamps: timestamp_setup "\<lambda>k ts. enable_timestamps k ts c" "{hw_flags, sw_flags}" for c
  by unfold_locales (auto simp: enable_timestamps_def call_Ok_iffs split: if_splits dest: EnableHW_stamped EnableSW_stamped)

interpretation listener_stamps: timestamp_setup "\<lambda>k ts. listener_timestamps k ts c" "{hw_flags, sw_flags}" for c
  by unfold_locales (auto simp: listener_timestamps_def call_Ok_iffs split: if_splits dest: EnableHW_stamped EnableSW_stamped)

lemma stamped_after: "keeps_others fd {(1, ts), (1, 45)} h h1 \<Longrightarrow> stamped ts flags fd h1 h' \<Longrightarrow> stamped ts flags fd h h'"
  using keeps_others_trans by (auto simp: stamped_def)

interpretation client_stamps: timestamp_setup "\<lambda>k ts. client_timestamps k ts c" "{hw_flags, sw_flags}" for c
proof
  fix k :: kernel and ts fd h x h'
  assume ok: "client_timestamps k ts c fd h = (Ok x, h')" and ts: "ts = (37::int) \<or> ts = 65"
  show "\<exists>flags\<in>{hw_flags, sw_flags}. stamped ts flags fd h h'"
  proof (cases "EnableHWTimestampsSocket k ts fd (cc_Iface c) h = (Ok x, h')")
    case True
    then show ?thesis using EnableHW_stamped ts by blast
  next
    case False
    then have "\<exists>h1. keeps_others fd {(1, ts), (1, 45)} h h1 \<and> EnableSWTimestampsSocket k ts fd h1 = (Ok x, h')"
      using ok by (auto simp: client_timestamps_def call_Ok_iffs split: if_splits intro: EnableHW_failed keeps_others_refl)
    then show ?thesis using EnableSW_stamped ts stamped_after by blast
  qed
qed

section \<open>Sockets are set up as configured\<close>

definition tos_option :: "netIP \<Rightarrow> int \<times> int" where
  "tos_option ip = (if To4 ip = None then (IPPROTO_IPV6, IPV6_TCLASS) else (IPPROTO_IP, IP_TOS))"

lemma enableDSCP_Ok_iff:
  "enableDSCP k fd ip dscp h = (Ok x, h') \<longleftrightarrow>
     (\<exists>l opt. (l, opt) = tos_option ip \<and> h' = h @ [(SetsockoptInt fd l opt (i64 (dscp * 4)), Ok x)] \<and>
       k h (SetsockoptInt fd l opt (i64 (dscp * 4))) = Ok x)"
  by (auto simp: enableDSCP_def tos_option_def sys_Ok_iff)

definition basic_socket :: "Config \<Rightarrow> int \<Rightarrow> history \<Rightarrow> bool" where
  "basic_socket c fd h \<longleftrightarrow>
     option_of h fd 1 15 = Some 1 \<and> address_of h fd = Some (IPToSockaddr (cf_IP c) 0) \<and>
     option_of h fd (fst (tos_option (cf_IP c))) (snd (tos_option (cf_IP c))) = Some (i64 (cf_DSCP c * 4))"

lemma tos_option_cases: "tos_option ip = (41, 67) \<or> tos_option ip = (0, 1)"
  by (simp add: tos_option_def)

lemma basic_socket_stamped:
  assumes "basic_socket c fd h" and "stamped ts flags fd h h'" and "ts = 37 \<or> ts = 65"
  shows "basic_socket c fd h'"
proof -
  have other: "option_of h' fd l opt = option_of h fd l opt" if "(l, opt) \<notin> {(1, ts), (1, 45)}" for l opt
    using assms(2) that by (auto simp: stamped_def keeps_others_def)
  have "address_of h' fd = address_of h fd" using assms(2) by (simp add: stamped_def keeps_others_def)
  moreover have "option_of h' fd 1 15 = option_of h fd 1 15" by (rule other) (use assms(3) in auto)
  moreover have "option_of h' fd (fst (tos_option (cf_IP c))) (snd (tos_option (cf_IP c))) =
      option_of h fd (fst (tos_option (cf_IP c))) (snd (tos_option (cf_IP c)))"
    by (rule other) (use tos_option_cases [of "cf_IP c"] in auto)
  ultimately show ?thesis using assms(1) by (simp add: basic_socket_def)
qed

text \<open>The calls on the general socket, which comes second.\<close>

definition general_calls :: "Config \<Rightarrow> int \<Rightarrow> int \<Rightarrow> int \<Rightarrow> int \<Rightarrow> int \<Rightarrow> history" where
  "general_calls c d g x y z = [(Socket d 2 17, Ok g), (SetsockoptInt g 1 15 1, Ok x), (Bind g (IPToSockaddr (cf_IP c) 0), Ok y),
     (SetsockoptInt g (fst (tos_option (cf_IP c))) (snd (tos_option (cf_IP c))) (i64 (cf_DSCP c * 4)), Ok z)]"

lemma general_calls_basic: "basic_socket c g (h @ general_calls c d g x y z)"
  using tos_option_cases [of "cf_IP c"] by (auto simp: basic_socket_def general_calls_def last_set_def)

lemma general_calls_other:
  assumes "e \<noteq> g"
  shows "option_of (h @ general_calls c d g x y z) e l opt = option_of h e l opt"
    and "address_of (h @ general_calls c d g x y z) e = address_of h e"
  using assms by (simp_all add: general_calls_def last_set_def)

lemma listen_socket:
  assumes "listen k ts c [] = (Ok (e, g), h)" and "ts = init_timestamping release" and "e \<noteq> g"
  shows "basic_socket c e h \<and> basic_socket c g h \<and> option_of h e 1 45 = Some 1 \<and>
    (cf_TimestampType c = HWTIMESTAMP \<and> option_of h e 1 ts = Some hw_flags \<and> filter_accepted e (cf_Interface c) h \<or>
     cf_TimestampType c = SWTIMESTAMP \<and> option_of h e 1 ts = Some sw_flags)"
proof -
  have ts: "ts = 37 \<or> ts = 65" using init_timestamping_cases assms(2) by blast
  obtain l opt where lo: "(l, opt) = tos_option (cf_IP c)" by (metis surj_pair)
  let ?d = "if To4 (cf_IP c) \<noteq> None then AF_INET else AF_INET6" and ?tos = "i64 (cf_DSCP c * 4)"
  obtain x1 x2 x3 x4 x6 x7 x8 x9 h6 where
      run: "enable_timestamps k ts c e [(Socket ?d 2 17, Ok e), (SetsockoptInt e 1 15 1, Ok x1), (Bind e (IPToSockaddr (cf_IP c) 0), Ok x2),
        (Getsockname e, Ok x3), (SetsockoptInt e l opt ?tos, Ok x4)] = (Ok x6, h6)"
      and tail: "h = h6 @ [(Socket ?d 2 17, Ok g), (SetsockoptInt g 1 15 1, Ok x7), (Bind g (IPToSockaddr (cf_IP c) 0), Ok x8),
        (SetsockoptInt g l opt ?tos, Ok x9)]"
    using assms(1) unfolding listen_def Let_def
    by (simp add: call_Ok_iffs sys_Ok_iff enableDSCP_Ok_iff lo [symmetric]) blast
  have h: "h = h6 @ general_calls c ?d g x7 x8 x9" using tail by (simp add: general_calls_def lo [symmetric])
  obtain h5 where run: "enable_timestamps k ts c e h5 = (Ok x6, h6)" and "basic_socket c e h5"
    using run tos_option_cases [of "cf_IP c"] lo [symmetric] by (auto simp: basic_socket_def last_set_def)
  then have "basic_socket c e h6" using worker_stamps.enabled [OF run ts] basic_socket_stamped ts by blast
  then have "basic_socket c e h" unfolding h basic_socket_def general_calls_other [OF assms(3)] .
  moreover have "basic_socket c g h" unfolding h by (rule general_calls_basic)
  moreover have "cf_TimestampType c = HWTIMESTAMP \<and> stamped ts hw_flags e h5 h6 \<and> filter_accepted e (cf_Interface c) h6 \<or>
      cf_TimestampType c = SWTIMESTAMP \<and> stamped ts sw_flags e h5 h6"
    using run ts by (auto simp: enable_timestamps_def call_Ok_iffs split: if_splits dest: EnableHW_stamped EnableSW_stamped)
  ultimately show ?thesis unfolding h
    by (auto simp: stamped_def filter_accepted_def general_calls_other [OF assms(3)])
qed


text \<open>A kernel on which the interface supports only the filter for PTP packets.\<close>

definition sim_kernel :: kernel where
  "sim_kernel h c =
     (case c of
        Socket _ _ _ \<Rightarrow> Ok (3 + int (length h))
      | ListenUDP _ _ \<Rightarrow> Ok (3 + int (length h))
      | Ioctl_SIOCSHWTSTAMP _ _ _ _ flt \<Rightarrow> if flt = hwtstampFilterAll then Err ''ERANGE (34)'' else Ok 0
      | _ \<Rightarrow> Ok 0)"

lemma sim_listen: "fst (listen sim_kernel 65 (example_Config\<lparr>cf_TimestampType := HWTIMESTAMP\<rparr>) []) = Ok (3, 12)"
  by code_simp


text \<open>
  The event socket of the server and of the client, whichever kind of timestamps the client finds to work: a successful setup
  leaves it with the flags of one kind, although the setup of the client may have tried the other kind before.
\<close>
theorem event_sockets_stamped:
  assumes "ts = init_timestamping release"
  shows "(startEventListener k ts c h = (Ok fd, h') \<longrightarrow>
      (\<exists>flags\<in>{hw_flags, sw_flags}. option_of h' fd 1 ts = Some flags) \<and> option_of h' fd 1 45 = Some 1) \<and>
    (client_setup k ts mac resolve cc h = (Ok (cid, gen, event), h') \<longrightarrow>
      (\<exists>flags\<in>{hw_flags, sw_flags}. option_of h' event 1 ts = Some flags) \<and> option_of h' event 1 45 = Some 1)"
proof (intro conjI impI)
  have ts: "ts = 37 \<or> ts = 65" using init_timestamping_cases assms by blast
  have stamps: "(\<exists>flags\<in>{hw_flags, sw_flags}. option_of h2 f 1 ts = Some flags) \<and> option_of h2 f 1 45 = Some 1"
    if "\<exists>flags\<in>{hw_flags, sw_flags}. stamped ts flags f h1 h2" for f h1 h2
    using that by (auto simp: stamped_def)
  show "\<exists>flags\<in>{hw_flags, sw_flags}. option_of h' fd 1 ts = Some flags" "option_of h' fd 1 45 = Some 1"
    if run: "startEventListener k ts c h = (Ok fd, h')"
  proof -
    obtain f h1 where rest: "bind_call (listener_timestamps k ts c f) (\<lambda>_. bind_call
        (wrap_call ''Failed to set socket to blocking: '' (sys k (SetNonblock f False))) (\<lambda>_. ret_call (Ok f))) h1 = (Ok fd, h')"
      using run unfolding startEventListener_def by (rule bind_call_OkE) (erule bind_call_OkE, rule that, assumption)
    have "fd = f \<and> (\<exists>flags\<in>{hw_flags, sw_flags}. stamped ts flags f h1 h')" by (rule listener_stamps.blocking [OF rest ts])
    then show "\<exists>flags\<in>{hw_flags, sw_flags}. option_of h' fd 1 ts = Some flags" "option_of h' fd 1 45 = Some 1"
      using stamps by blast+
  qed
  show "\<exists>flags\<in>{hw_flags, sw_flags}. option_of h' event 1 ts = Some flags" "option_of h' event 1 45 = Some 1"
    if run: "client_setup k ts mac resolve cc h = (Ok (cid, gen, event), h')"
  proof -
    obtain i g ev f h1 h2 where conn: "ConnFd k ev h2 = (Ok f, h1)" and rest: "bind_call (client_timestamps k ts cc f) (\<lambda>_. bind_call
        (wrap_call ''failed to set event socket to blocking: '' (sys k (SetNonblock f False))) (\<lambda>_. ret_call (Ok (i, g, ev)))) h1 =
        (Ok (cid, gen, event), h')"
      using run unfolding client_setup_def
      by (rule bind_call_OkE) (erule bind_call_OkE, erule bind_call_OkE, erule bind_call_OkE, erule bind_call_OkE,
          erule bind_call_OkE, erule bind_call_OkE, rule that, assumption, assumption)
    have "f = ev" using conn by (auto simp: ConnFd_def call_Ok_iffs)
    then have "event = f \<and> (\<exists>flags\<in>{hw_flags, sw_flags}. stamped ts flags f h1 h')"
      using client_stamps.blocking [OF rest ts] by simp
    then show "\<exists>flags\<in>{hw_flags, sw_flags}. option_of h' event 1 ts = Some flags" "option_of h' event 1 45 = Some 1"
      using stamps by blast+
  qed
qed

theorem event_sockets_stamped_witness:
  "\<exists>fd h. startEventListener sim_kernel 65 (example_Config\<lparr>cf_TimestampType := HWTIMESTAMP\<rparr>) [] = (Ok fd, h) \<and>
     option_of h fd 1 45 = Some 1"
proof -
  let ?c = "example_Config\<lparr>cf_TimestampType := HWTIMESTAMP\<rparr>"
  have "fst (startEventListener sim_kernel 65 ?c []) = Ok 3" by code_simp
  then obtain h where "startEventListener sim_kernel 65 ?c [] = (Ok 3, h)" by (metis prod.collapse)
  moreover have "65 = init_timestamping (Ok ''6.1.0'')" by (simp add: init_timestamping_def)
  ultimately show ?thesis using event_sockets_stamped by blast
qed

section \<open>The configuration ptp4u runs with\<close>

lemma ptp4u_main_Ok:
  assumes "ptp4u_main parse addrs phcTime shmTime ipaddr c = Ok c'"
  shows "0 \<le> cf_DSCP c' \<and> cf_DSCP c' \<le> 63 \<and> cf_TimestampType c' \<in> {HWTIMESTAMP, SWTIMESTAMP} \<and> IfaceHasIP addrs c' = Ok True \<and>
    (cf_SHM c' \<longrightarrow> 30 * second \<le> cf_UTCOffset c' \<and> cf_UTCOffset c' \<le> 50 * second) \<and> cf_SendWorkers c' = cf_SendWorkers c"
  using assms
  by (auto simp: ptp4u_main_def Let_def bind_res_Ok_iff SetUTCOffsetFromSHM_def IfaceHasIP_def split: if_splits sum.splits)

text \<open>
  A configuration that \<open>ptp4u\<close> accepts names an address of the interface and a known kind of timestamps, and its UTC offset, if
  taken from shared memory, is plausible. The traffic class of a worker's sockets is the configured one and fits a byte.
\<close>
theorem ptp4u_accepts:
  assumes "ptp4u_main parse addrs phcTime shmTime ipaddr c = Ok c'"
    and "listen k (init_timestamping release) c' [] = (Ok (e, g), h)" and "e \<noteq> g"
  shows "IfaceHasIP addrs c' = Ok True \<and> cf_TimestampType c' \<in> {HWTIMESTAMP, SWTIMESTAMP} \<and>
    (cf_SHM c' \<longrightarrow> 30 * second \<le> cf_UTCOffset c' \<and> cf_UTCOffset c' \<le> 50 * second) \<and>
    4 * cf_DSCP c' \<in> {0..252} \<and>
    option_of h e (fst (tos_option (cf_IP c'))) (snd (tos_option (cf_IP c'))) = Some (4 * cf_DSCP c') \<and>
    option_of h g (fst (tos_option (cf_IP c'))) (snd (tos_option (cf_IP c'))) = Some (4 * cf_DSCP c')"
proof -
  note ok = ptp4u_main_Ok [OF assms(1)]
  then have "in_i64 (cf_DSCP c' * 4)" by (simp add: i64_defs)
  then have "i64 (cf_DSCP c' * 4) = 4 * cf_DSCP c'" by simp
  moreover have "basic_socket c' e h" "basic_socket c' g h" using listen_socket [OF assms(2) refl assms(3)] by blast+
  ultimately show ?thesis using ok by (simp add: basic_socket_def)
qed

theorem ptp4u_accepts_witness:
  "\<exists>c h. ptp4u_main (\<lambda>_. IPv6zero) (Ok [IPv6zero]) (Ok 0) (Ok 0) ''::'' (example_Config\<lparr>cf_DSCP := 46\<rparr>) = Ok c \<and>
     listen sim_kernel 65 c [] = (Ok (3, 10), h) \<and> option_of h 3 41 67 = Some 184"
proof -
  let ?c = "example_Config\<lparr>cf_DSCP := 46\<rparr>"
  have main: "ptp4u_main (\<lambda>_. IPv6zero) (Ok [IPv6zero]) (Ok 0) (Ok 0) ''::'' ?c = Ok ?c"
    by (simp add: ptp4u_main_def ptp4u_log_levels_def example_Config_def IfaceHasIP_def ifaceIPs_def IP_Equal_def)
  have "fst (listen sim_kernel 65 ?c []) = Ok (3, 10)" by code_simp
  then obtain h where h: "listen sim_kernel (init_timestamping (Ok ''6.1.0'')) ?c [] = (Ok (3, 10), h)"
    by (simp add: init_timestamping_def) (metis prod.collapse)
  have "tos_option (cf_IP ?c) = (41, 67)" by code_simp
  then have "option_of h 3 41 67 = Some 184" using ptp4u_accepts [OF main h] by (simp add: example_Config_def)
  then show ?thesis using main h by (auto simp: init_timestamping_def)
qed

text \<open>
  The number of workers is not checked: with none, the server starts and panics when a client asks for anything.
\<close>
theorem no_workers_accepted:
  assumes "ptp4u_main parse addrs phcTime shmTime ipaddr c = Ok c'" and "cf_SendWorkers c = 0" and "Server_init c' mac = Ok s"
  shows "findWorker e clientID s = Inl Panic"
  using assms ptp4u_main_Ok [OF assms(1)] by (auto simp: Server_init_def findWorker_def split: sum.splits if_splits)

end
