(* ===== verification/NTP_Protocol.thy ===== *)
theory NTP_Protocol
  imports Go_Codec Go_Time
begin

text \<open>
  \<open>ntp/protocol\<close>: the NTP packet, the conversion between Unix and NTP time and the arithmetic of a
  client exchange; and \<open>ntp/shm\<close>: the segment ntpd shares its clock through. The kernel's part of a
  receive (the datagram and the control buffer) is an argument.
\<close>

section \<open>Time conversions\<close>

definition NanosecondsToUnix :: int where "NanosecondsToUnix = 2208988800000000000"

text \<open>\<open>x << 32 / y\<close> shifts first: the two operators have the same precedence.\<close>

definition NTP_Time :: "gotime \<Rightarrow> u32 \<times> u32" where
  "NTP_Time t =
     (let nsec = i64 (t_UnixNano t + NanosecondsToUnix);
          sec = quot nsec second
      in (word_of_int sec, word_of_int (quot (i64 (i64 (nsec - i64 (sec * second)) * 2 ^ 32)) second)))"

definition NTP_Unix :: "u32 \<Rightarrow> u32 \<Rightarrow> gotime" where
  "NTP_Unix seconds fractions =
     (let secs = uint seconds - quot NanosecondsToUnix second;
          nanos = i64 (uint fractions * second) div 2 ^ 32
      in time_Unix secs nanos)"

definition ntp_abs :: "int \<Rightarrow> int" where
  "ntp_abs x = (if x < 0 then i64 (- x) else x)"

definition AvgNetworkDelay :: "gotime \<Rightarrow> gotime \<Rightarrow> gotime \<Rightarrow> gotime \<Rightarrow> int" where
  "AvgNetworkDelay clientTransmitTime serverReceiveTime serverTransmitTime clientReceiveTime =
     (let forwardPath = t_Sub serverReceiveTime clientTransmitTime;
          returnPath = t_Sub clientReceiveTime serverTransmitTime
      in quot (ntp_abs (i64 (forwardPath + returnPath))) 2)"

definition CurrentRealTime :: "gotime \<Rightarrow> int \<Rightarrow> gotime" where
  "CurrentRealTime serverTransmitTime avgNetworkDelay = t_Add serverTransmitTime avgNetworkDelay"

definition CalculateOffset :: "gotime \<Rightarrow> gotime \<Rightarrow> int" where
  "CalculateOffset currentRealTime curentLocaTime = i64 (t_UnixNano currentRealTime - t_UnixNano curentLocaTime)"

section \<open>The packet\<close>

definition PacketSizeBytes :: nat where [simp]: "PacketSizeBytes = 48"
definition ControlHeaderSizeBytes :: nat where [simp]: "ControlHeaderSizeBytes = 32"

record NTPPacket =
  np_Settings :: u8
  np_Stratum :: u8
  np_Poll :: i8
  np_Precision :: i8
  np_RootDelay :: u32
  np_RootDispersion :: u32
  np_ReferenceID :: u32
  np_RefTimeSec :: u32
  np_RefTimeFrac :: u32
  np_OrigTimeSec :: u32
  np_OrigTimeFrac :: u32
  np_RxTimeSec :: u32
  np_RxTimeFrac :: u32
  np_TxTimeSec :: u32
  np_TxTimeFrac :: u32

definition NTPPacket_codec :: "NTPPacket codec" where
  "NTPPacket_codec = cmap
    (\<lambda>(x0, x1, x2, x3, x4, x5, x6, x7, x8, x9, x10, x11, x12, x13, x14). \<lparr>np_Settings = x0, np_Stratum = x1, np_Poll = x2, np_Precision = x3, np_RootDelay = x4,
      np_RootDispersion = x5, np_ReferenceID = x6, np_RefTimeSec = x7, np_RefTimeFrac = x8,
      np_OrigTimeSec = x9, np_OrigTimeFrac = x10, np_RxTimeSec = x11, np_RxTimeFrac = x12,
      np_TxTimeSec = x13, np_TxTimeFrac = x14\<rparr>)
    (\<lambda>p. (np_Settings p, np_Stratum p, np_Poll p, np_Precision p, np_RootDelay p, np_RootDispersion p,
      np_ReferenceID p, np_RefTimeSec p, np_RefTimeFrac p, np_OrigTimeSec p, np_OrigTimeFrac p,
      np_RxTimeSec p, np_RxTimeFrac p, np_TxTimeSec p, np_TxTimeFrac p))
    (cpair cu8 (cpair cu8 (cpair cu8 (cpair cu8 (cpair cu32 (cpair cu32 (cpair cu32 (cpair cu32
      (cpair cu32 (cpair cu32 (cpair cu32 (cpair cu32 (cpair cu32 (cpair cu32 cu32))))))))))))))"

lemma wf_NTPPacket [wf_codecs]: "wf_codec NTPPacket_codec"
  unfolding NTPPacket_codec_def by (rule wf_cmap) (auto intro!: wf_codecs)

lemma csize_NTPPacket [simp]: "csize NTPPacket_codec = 48"
  by (simp add: NTPPacket_codec_def)

lemma cok_NTPPacket [simp]: "cok NTPPacket_codec p"
  by (simp add: NTPPacket_codec_def)

interpretation ntp_packet: fixed_codec NTPPacket_codec
  by unfold_locales (rule wf_codecs)

definition liNoWarning :: u8 where [simp]: "liNoWarning = 0"
definition liAlarmCondition :: u8 where [simp]: "liAlarmCondition = 3"
definition vnFirst :: u8 where [simp]: "vnFirst = 1"
definition vnLast :: u8 where [simp]: "vnLast = 4"
definition modeClient :: u8 where [simp]: "modeClient = 3"

definition ValidSettingsFormat :: "NTPPacket \<Rightarrow> bool" where
  "ValidSettingsFormat p =
     (let settings = np_Settings p;
          l = drop_bit 6 settings;
          v = drop_bit 5 (push_bit 2 settings);
          m = drop_bit 5 (push_bit 5 settings)
      in (l = liNoWarning \<or> l = liAlarmCondition) \<and> vnFirst \<le> v \<and> v \<le> vnLast \<and> m = modeClient)"

definition NTPPacket_Bytes :: "NTPPacket \<Rightarrow> bytes res" where
  "NTPPacket_Bytes p = Ok (binary_Write NTPPacket_codec p)"

text \<open>The zero packet comes back with an error; callers look at the error.\<close>

definition BytesToPacket :: "bytes \<Rightarrow> NTPPacket res" where
  "BytesToPacket ntpPacketBytes = bind_res (binary_Read NTPPacket_codec ntpPacketBytes) (\<lambda>(p, _). Ok p)"

text \<open>
  A receive into a fresh buffer of \<open>n\<close> bytes: a longer datagram is cut, a shorter one leaves zeros, since
  the number of bytes read is not looked at.
\<close>

definition recv_buf :: "nat \<Rightarrow> bytes \<Rightarrow> bytes" where
  "recv_buf n datagram = take n (datagram @ replicate n 0)"

definition ReadNTPPacket :: "(bytes \<times> 'addr) res \<Rightarrow> (NTPPacket \<times> 'addr) res" where
  "ReadNTPPacket recv =
     bind_res recv (\<lambda>(datagram, remAddr).
     bind_res (BytesToPacket (recv_buf PacketSizeBytes datagram)) (\<lambda>p. Ok (p, remAddr)))"

text \<open>
  The kernel timestamp is read as a \<open>Timespec\<close> behind the first control header, whatever was
  received. The timestamp of a receive without control message is the Unix epoch.
\<close>

definition ReadPacketWithKernelTimestamp :: "(bytes \<times> bytes \<times> 'addr) res \<Rightarrow> (NTPPacket \<times> gotime \<times> 'addr) res" where
  "ReadPacketWithKernelTimestamp recv =
     bind_res recv (\<lambda>(datagram, control, sa).
     let oob = recv_buf ControlHeaderSizeBytes control;
         sec = cdec (cle 8 :: u64 codec) (take 8 (drop 16 oob));
         nsec = cdec (cle 8 :: u64 codec) (take 8 (drop 24 oob))
     in bind_res (BytesToPacket (recv_buf PacketSizeBytes datagram)) (\<lambda>p.
        Ok (p, time_Unix (sint sec) (sint nsec), sa)))"

section \<open>The shared memory segment\<close>

definition NTPSHMSize :: nat where [simp]: "NTPSHMSize = 96"

record NTPSHM =
  sh_Mode :: i32
  sh_Count :: i32
  sh_ClockTimeStampSec :: u64
  sh_ClockTimeStampUSec :: i32
  sh_ReceiveTimeStampSec :: u64
  sh_ReceiveTimeStampUSec :: i32
  sh_Leap :: i32
  sh_Precision :: i32
  sh_Nsamples :: i32
  sh_Valid :: i32
  sh_ClockTimeStampNSec :: i32
  sh_ReceiveTimeStampNSec :: i32
  sh_Dummy :: "i32 list"

definition NTPSHM_codec :: "NTPSHM codec" where
  "NTPSHM_codec = cmap
    (\<lambda>(x0, x1, x2, x3, x4, x5, x6, x7, x8, x9, x10, x11, x12). \<lparr>sh_Mode = x0, sh_Count = x1, sh_ClockTimeStampSec = x2, sh_ClockTimeStampUSec = x3,
      sh_ReceiveTimeStampSec = x4, sh_ReceiveTimeStampUSec = x5, sh_Leap = x6, sh_Precision = x7,
      sh_Nsamples = x8, sh_Valid = x9, sh_ClockTimeStampNSec = x10, sh_ReceiveTimeStampNSec = x11,
      sh_Dummy = x12\<rparr>)
    (\<lambda>p. (sh_Mode p, sh_Count p, sh_ClockTimeStampSec p, sh_ClockTimeStampUSec p,
      sh_ReceiveTimeStampSec p, sh_ReceiveTimeStampUSec p, sh_Leap p, sh_Precision p, sh_Nsamples
      p, sh_Valid p, sh_ClockTimeStampNSec p, sh_ReceiveTimeStampNSec p, sh_Dummy p))
    (cpair (cle 4) (cpair (cle 4) (cpair (cle 8) (cpair (cle 4) (cpair (cle 8) (cpair (cle 4)
      (cpair (cle 4) (cpair (cle 4) (cpair (cle 4) (cpair (cle 4) (cpair (cle 4) (cpair (cle 4)
      ((carray 8 (cle 4)))))))))))))))"

lemma wf_NTPSHM [wf_codecs]: "wf_codec NTPSHM_codec"
  unfolding NTPSHM_codec_def by (rule wf_cmap) (auto intro!: wf_codecs wf_cle)

lemma csize_NTPSHM [simp]: "csize NTPSHM_codec = 88"
  by (simp add: NTPSHM_codec_def)

text \<open>The bytes of the attached segment, or the error of \<open>shmget\<close> or \<open>shmat\<close>.\<close>

definition ptrToNTPSHM :: "bytes \<Rightarrow> NTPSHM res" where
  "ptrToNTPSHM mem = bind_res (binary_Read NTPSHM_codec (take NTPSHMSize mem)) (\<lambda>(s, _). Ok s)"

definition SHM_ReadID :: "bytes res \<Rightarrow> NTPSHM res" where
  "SHM_ReadID shmptr = bind_res shmptr ptrToNTPSHM"

definition ClockTimeStamp :: "NTPSHM \<Rightarrow> gotime" where
  "ClockTimeStamp n = time_Unix (sint (sh_ClockTimeStampSec n)) (sint (sh_ClockTimeStampNSec n))"

definition ReceiveTimeStamp :: "NTPSHM \<Rightarrow> gotime" where
  "ReceiveTimeStamp n = time_Unix (sint (sh_ReceiveTimeStampSec n)) (sint (sh_ReceiveTimeStampNSec n))"

definition SHM_Time :: "bytes res \<Rightarrow> gotime res" where
  "SHM_Time shmptr = bind_res (SHM_ReadID shmptr) (\<lambda>s. Ok (ClockTimeStamp s))"

section \<open>Properties of the conversions\<close>

lemma in_i64_div_second: "in_i64 x \<Longrightarrow> in_i64 (x div second)"
  using mult_div_le [of second x] less_mult_div [of second x]
  unfolding in_i64_def i64_min_def i64_max_def second_def by simp

lemma fraction_roundtrip:
  fixes r :: int
  assumes "0 \<le> r" and "r < second"
  defines "f \<equiv> r * 2 ^ 32 div second"
  shows "0 \<le> f \<and> f < 2 ^ 32 \<and> f * second div 2 ^ 32 \<in> {r - 1, r} \<and> f * second div 2 ^ 32 \<ge> 0"
proof -
  have s: "0 < second" "second < 2 ^ 32" by (simp_all add: second_def)
  have f: "second * f \<le> r * 2 ^ 32" "r * 2 ^ 32 < second * f + second"
    unfolding f_def using mult_div_le [OF s(1)] less_mult_div [OF s(1)] by blast+
  have f0: "0 \<le> f" unfolding f_def using assms(1) s(1) by (simp add: pos_imp_zdiv_nonneg_iff)
  have "second * f < second * 2 ^ 32"
    using f(1) assms(2) by (simp add: second_def)
  then have "f < 2 ^ 32" using s(1) by simp
  moreover define q where "q = f * second div 2 ^ 32"
  have q: "2 ^ 32 * q \<le> f * second" "f * second < 2 ^ 32 * q + 2 ^ 32"
    unfolding q_def by (rule mult_div_le less_mult_div, simp)+
  have "q \<le> r"
    using q(1) f(1) by (simp add: second_def)
  moreover have "r - 1 \<le> q"
    using q(2) f(2) by (simp add: second_def)
  moreover have "0 \<le> q" unfolding q_def using f0 s(1) by (simp add: pos_imp_zdiv_nonneg_iff)
  ultimately show ?thesis using f0 by (auto simp: q_def)
qed

lemma NTP_Unix_Time:
  assumes "0 \<le> t + NanosecondsToUnix" and "t + NanosecondsToUnix < 2 ^ 32 * second"
  shows "(case NTP_Time t of (s, f) \<Rightarrow> NTP_Unix s f) \<in> {t - 1, t}"
proof -
  define n where "n = t + NanosecondsToUnix"
  define s r where "s = n div second" and "r = n mod second"
  have n: "n = second * s + r" "0 \<le> r" "r < second" by (simp_all add: s_def r_def)
  have b: "in_i64 t" "in_i64 n" using assms by (simp_all add: n_def NanosecondsToUnix_def i64_defs second_def)
  have "second * s < second * 2 ^ 32" using assms(2) n unfolding n_def [symmetric] second_def by simp
  then have s: "0 \<le> s" "s < 2 ^ 32"
    using assms(1) by (simp_all add: n_def [symmetric] s_def pos_imp_zdiv_nonneg_iff)
  let ?f = "r * 2 ^ 32 div second"
  note f = fraction_roundtrip [OF n(2,3)]
  have q: "quot n second = s" using assms(1) by (simp add: n_def s_def second_def)
  have i: "in_i64 (s * second)" "in_i64 r" "in_i64 (r * 2 ^ 32)"
    using s n by (simp_all add: i64_defs second_def)
  have "n - s * second = r" using n by simp
  then have "NTP_Time t = (word_of_int s, word_of_int ?f)"
    using b i q n(2) by (simp add: NTP_Time_def t_UnixNano_def n_def [symmetric] second_def)
  moreover have "uint (word_of_int s :: u32) = s" "uint (word_of_int ?f :: u32) = ?f"
    using s f by (simp_all add: unsigned_of_int take_bit_int_eq_self)
  moreover have "in_i64 (?f * second)" "in_i64 (s - 2208988800)"
    using s f by (auto simp: i64_defs second_def)
  moreover have "quot NanosecondsToUnix second = 2208988800"
    by (simp add: NanosecondsToUnix_def second_def)
  ultimately have "(case NTP_Time t of (s, f) \<Rightarrow> NTP_Unix s f) =
      (s - 2208988800) * second + ?f * second div 2 ^ 32"
    using f n(2,3) by (auto simp: NTP_Unix_def time_Unix_def Let_def)
  moreover have "t = (s - 2208988800) * second + r"
    using n(1) by (simp add: n_def NanosecondsToUnix_def second_def)
  ultimately show ?thesis using f by auto
qed

text \<open>
  A time of the first NTP era, converted to NTP seconds and fractions and back, loses at most one
  nanosecond and is never late.
\<close>
theorem NTP_Time_roundtrip:
  assumes "0 \<le> t + NanosecondsToUnix" and "t + NanosecondsToUnix < 2 ^ 32 * second"
  shows "(case NTP_Time t of (s, f) \<Rightarrow> NTP_Unix s f) \<in> {t - 1, t}"
  using assms by (rule NTP_Unix_Time)

theorem NTP_Time_roundtrip_witness:
  "(case NTP_Time 1585147599631495778 of (s, f) \<Rightarrow> NTP_Unix s f) \<in> {1585147599631495777, 1585147599631495778}"
  using NTP_Time_roundtrip [of 1585147599631495778] by (simp add: NanosecondsToUnix_def second_def)

text \<open>
  From the four timestamps of an exchange in which the request takes \<open>d1\<close> and the response \<open>d2\<close>, the
  client's clock being \<open>off\<close> behind the server's, the computed offset is \<open>off\<close> up to half the asymmetry of
  the path, rounded up to a nanosecond, and exact on a symmetric path.
\<close>
theorem CalculateOffset_error:
  assumes "\<bar>t1\<bar> < 2 ^ 61" and "\<bar>t3\<bar> < 2 ^ 61" and "\<bar>off\<bar> < 2 ^ 59"
    and "0 \<le> d1" and "d1 < 2 ^ 59" and "0 \<le> d2" and "d2 < 2 ^ 59"
  defines "rx \<equiv> t3 + d2 - off"
  defines "res \<equiv> CalculateOffset (CurrentRealTime t3 (AvgNetworkDelay t1 (t1 + d1 + off) t3 rx)) rx"
  shows "2 * \<bar>res - off\<bar> \<le> \<bar>d1 - d2\<bar> + 1 \<and> (d1 = d2 \<longrightarrow> res = off)"
proof -
  have "t_Sub (t1 + d1 + off) t1 = d1 + off" "t_Sub rx t3 = d2 - off"
    using assms by (simp_all add: t_Sub_def i64_min_def i64_max_def)
  moreover have "in_i64 (d1 + d2)" using assms by (simp add: i64_defs)
  ultimately have a: "AvgNetworkDelay t1 (t1 + d1 + off) t3 rx = (d1 + d2) div 2"
    using assms(4,6) by (simp add: AvgNetworkDelay_def ntp_abs_def)
  have d: "0 \<le> (d1 + d2) div 2" "(d1 + d2) div 2 < 2 ^ 59" using assms(4-7) by simp_all
  have "in_i64 (t3 + (d1 + d2) div 2)" "in_i64 rx" "in_i64 (t3 + (d1 + d2) div 2 - rx)"
    using assms(1-7) d unfolding i64_defs rx_def by simp_all linarith+
  moreover from this(1) have "in_i64 ((t3 + (d1 + d2) div 2) div second)" by (rule in_i64_div_second)
  ultimately have res: "res = off + (d1 + d2) div 2 - d2"
    by (simp add: res_def a CurrentRealTime_def t_Add_exact CalculateOffset_def t_UnixNano_def) (simp add: rx_def)
  show ?thesis unfolding res by simp presburger
qed

theorem CalculateOffset_error_witness:
  "CalculateOffset (CurrentRealTime 2000 (AvgNetworkDelay 1000 1107 2000 2093)) 2093 = 7"
  using CalculateOffset_error [of 1000 2000 7 100 100] by simp

lemma settings_fields: "n * 4 mod 256 div 32 = n div 8 mod (8 :: nat)" "n * 32 mod 256 div 32 = n mod (8 :: nat)"
proof -
  have "n * 4 mod 256 = n mod 64 * 4" "n * 32 mod 256 = n mod 8 * 32"
    using mult_mod_left [of n 64 4] mult_mod_left [of n 8 32] by simp_all
  moreover have "n mod 64 * 4 div 32 = n mod 64 div 8"
    using div_mult_mult2 [of 4 "n mod 64" 8] by simp
  moreover have "n mod 64 div 8 = n div 8 mod 8"
    using mod_mult2_eq [of n 8 8] by simp
  ultimately show "n * 4 mod 256 div 32 = n div 8 mod 8" "n * 32 mod 256 div 32 = n mod 8" by simp_all
qed

text \<open>
  A request is accepted exactly if its first byte holds leap indicator 0 or 3, version 1 to 4 and
  mode 3.
\<close>
theorem ValidSettingsFormat_iff:
  "ValidSettingsFormat p \<longleftrightarrow>
     (let s = unat (np_Settings p) in s div 64 \<in> {0, 3} \<and> s div 8 mod 8 \<in> {1..4} \<and> s mod 8 = 3)"
proof -
  let ?s = "unat (np_Settings p)"
  have l: "?s < 256" using unsigned_less [of "np_Settings p"] by simp
  have "unat (drop_bit 6 (np_Settings p)) = ?s div 64"
    using l by (simp only: unsigned_drop_bit_eq) (simp add: drop_bit_eq_div take_bit_nat_eq_self)
  moreover have "unat (drop_bit 5 (push_bit 2 (np_Settings p))) = ?s div 8 mod 8"
    "unat (drop_bit 5 (push_bit 5 (np_Settings p))) = ?s mod 8"
    by (simp_all only: unsigned_drop_bit_eq unsigned_push_bit_eq)
      (simp_all add: drop_bit_eq_div push_bit_eq_mult take_bit_eq_mod settings_fields)
  ultimately show ?thesis
    by (simp add: ValidSettingsFormat_def Let_def word_unat_eq_iff word_le_nat_alt)
qed

section \<open>The layout of the segment\<close>

text \<open>
  The segment as the C compiler of ntpd lays it out on a 64-bit machine: eight-byte fields start at
  multiples of eight, so four bytes of padding follow \<open>ClockTimeStampUSec\<close> and the last field.
\<close>

definition c_segment :: "bytes \<Rightarrow> NTPSHM \<Rightarrow> bytes" where
  "c_segment pad s =
     cenc (cle 4) (sh_Mode s) @ cenc (cle 4) (sh_Count s) @ cenc (cle 8) (sh_ClockTimeStampSec s) @
     cenc (cle 4) (sh_ClockTimeStampUSec s) @ pad @ cenc (cle 8) (sh_ReceiveTimeStampSec s) @
     cenc (cle 4) (sh_ReceiveTimeStampUSec s) @ cenc (cle 4) (sh_Leap s) @ cenc (cle 4) (sh_Precision s) @
     cenc (cle 4) (sh_Nsamples s) @ cenc (cle 4) (sh_Valid s) @ cenc (cle 4) (sh_ClockTimeStampNSec s) @
     cenc (cle 4) (sh_ReceiveTimeStampNSec s) @ cenc (carray 8 (cle 4)) (sh_Dummy s) @ pad"

text \<open>
  Read from a segment that ntpd wrote, the seconds of the clock are right, but the structure is
  read without padding, so the nanoseconds of \<open>ClockTimeStamp\<close> are the value of the \<open>valid\<close> flag.
\<close>
theorem SHM_Time_misaligned:
  assumes "length pad = 4" and "length (sh_Dummy s) = 8"
  shows "SHM_Time (Ok (c_segment pad s)) =
    Ok (time_Unix (sint (sh_ClockTimeStampSec s)) (sint (sh_Valid s)))"
proof -
  have "length (cenc (carray 8 (cle 4)) (sh_Dummy s)) = 32"
    using wf_codecD(1) [OF wf_carray [OF wf_cle [of 4, where 'a = 32]], of 8 "sh_Dummy s"] assms(2)
    by (simp add: list_all_iff)
  then have l: "length (c_segment pad s) = 96"
    using assms(1) by (simp add: c_segment_def)
  have "sh_ClockTimeStampSec (cdec NTPSHM_codec (take 88 (c_segment pad s))) = sh_ClockTimeStampSec s"
      "sh_ClockTimeStampNSec (cdec NTPSHM_codec (take 88 (c_segment pad s))) = sh_Valid s"
    using assms(1) by (simp_all add: c_segment_def NTPSHM_codec_def take_drop word_of_nat_be_val)
  with l show ?thesis
    by (simp add: SHM_Time_def SHM_ReadID_def ptrToNTPSHM_def binary_Read_Ok ClockTimeStamp_def)
qed

definition example_segment :: NTPSHM where
  "example_segment =
     \<lparr>sh_Mode = 1, sh_Count = 2, sh_ClockTimeStampSec = 1600000000, sh_ClockTimeStampUSec = 123456,
      sh_ReceiveTimeStampSec = 1600000000, sh_ReceiveTimeStampUSec = 123460, sh_Leap = 0, sh_Precision = 0,
      sh_Nsamples = 3, sh_Valid = 1, sh_ClockTimeStampNSec = 123456789, sh_ReceiveTimeStampNSec = 123460789,
      sh_Dummy = replicate 8 0\<rparr>"

theorem SHM_Time_misaligned_witness:
  "SHM_Time (Ok (c_segment [0, 0, 0, 0] example_segment)) = Ok (1600000000 * second + 1)"
proof -
  have "SHM_Time (Ok (c_segment [0, 0, 0, 0] example_segment)) = Ok (time_Unix 1600000000 1)"
    using SHM_Time_misaligned [of "[0, 0, 0, 0]" example_segment] by (simp add: example_segment_def)
  then show ?thesis by (simp add: time_Unix_def second_def i64_defs)
qed

end
