(* ===== verification/NTP_Sockets.thy ===== *)
theory NTP_Sockets
  imports Socket_Setup NTP_Protocol
begin

text \<open>
  System calls of the NTP packages: switching on kernel timestamps (\<open>connFd\<close> of \<open>ntp/protocol/ntp.go\<close> and
  \<open>EnableKernelTimestampsSocket\<close> of \<open>packet_linux.go\<close>, \<open>packet_freebsd.go\<close> and \<open>packet_darwin.go\<close>), and getting the shared memory
  segment of ntpd (\<open>Create\<close>, \<open>Read\<close> of \<open>ntp/shm/ntpshm.go\<close>). The numbers of the options are those of each system.
\<close>

section \<open>Kernel timestamps\<close>

definition linux_SO_TIMESTAMP :: int where [simp]: "linux_SO_TIMESTAMP = 29"
definition SO_TIMESTAMPNS :: int where [simp]: "SO_TIMESTAMPNS = 35"
definition bsd_SOL_SOCKET :: int where [simp]: "bsd_SOL_SOCKET = 0xffff"
definition bsd_SO_TIMESTAMP :: int where [simp]: "bsd_SO_TIMESTAMP = 0x400"

definition connFd :: "kernel \<Rightarrow> int \<Rightarrow> (history, int) call" where
  "connFd k conn = bind_call (sys k (RawControl conn)) (\<lambda>_. ret_call (Ok conn))"

definition EnableKernelTimestampsSocket :: "kernel \<Rightarrow> int \<Rightarrow> (history, int) call" where
  "EnableKernelTimestampsSocket k conn =
     bind_call (connFd k conn) (\<lambda>fd.
       or_else (sys k (SetsockoptInt fd unix_SOL_SOCKET SO_TIMESTAMPNS 1))
         (wrap_call ''failed to enable SO_TIMESTAMP: '' (sys k (SetsockoptInt fd unix_SOL_SOCKET linux_SO_TIMESTAMP 1))))"

definition freebsd_EnableKernelTimestampsSocket :: "kernel \<Rightarrow> int \<Rightarrow> (history, int) call" where
  "freebsd_EnableKernelTimestampsSocket k conn =
     bind_call (connFd k conn) (\<lambda>fd.
       wrap_call ''failed to enable SO_TIMESTAMP: '' (sys k (SetsockoptInt fd bsd_SOL_SOCKET bsd_SO_TIMESTAMP 1)))"

definition darwin_EnableKernelTimestampsSocket :: "kernel \<Rightarrow> int \<Rightarrow> (history, int) call" where
  "darwin_EnableKernelTimestampsSocket k conn =
     bind_call (connFd k conn) (\<lambda>fd.
       wrap_call ''failed to enable SO_TIMESTAMP: '' (sys k (SetsockoptInt fd bsd_SOL_SOCKET bsd_SO_TIMESTAMP 1)))"

section \<open>The shared memory segment\<close>

definition SHMKEY :: int where "SHMKEY = 0x4e545030"
definition IPC_CREAT :: int where "IPC_CREAT = 512"

text \<open>\<open>shmget\<close> takes key, size and flags and gives the identifier, \<open>shmat\<close> gives the memory behind it.\<close>

definition SHM_Create :: "(int \<Rightarrow> int \<Rightarrow> int \<Rightarrow> nat res) \<Rightarrow> nat res" where
  "SHM_Create shmget =
     (case shmget SHMKEY 0 (IPC_CREAT OR 384) of Inl (GoError e) \<Rightarrow> Err (''failed get shm: '' @ e) | r \<Rightarrow> r)"

definition SHM_Read :: "(int \<Rightarrow> int \<Rightarrow> int \<Rightarrow> nat res) \<Rightarrow> (nat \<Rightarrow> bytes res) \<Rightarrow> NTPSHM res" where
  "SHM_Read shmget shmat =
     bind_res (case shmget SHMKEY 0 256 of Inl (GoError e) \<Rightarrow> Err (''failed get shm: '' @ e) | r \<Rightarrow> r)
       (\<lambda>shmID. SHM_ReadID (shmat shmID))"

section \<open>Properties\<close>

lemmas kernel_timestamps_defs =
  EnableKernelTimestampsSocket_def freebsd_EnableKernelTimestampsSocket_def darwin_EnableKernelTimestampsSocket_def connFd_def

text \<open>
  A socket for which the call succeeds has kernel timestamps switched on: in nanoseconds where Linux accepts that, else in
  microseconds; any other option is as it was.
\<close>
theorem kernel_timestamps_enabled:
  assumes "EnableKernelTimestampsSocket k conn h = (Ok x, h1)"
    and "freebsd_EnableKernelTimestampsSocket k2 conn h = (Ok y, h2)"
    and "darwin_EnableKernelTimestampsSocket k3 conn h = (Ok z, h3)"
  shows "(option_of h1 conn 1 35 = Some 1 \<or>
      option_of h1 conn 1 29 = Some 1 \<and> (\<exists>h' e. k h' (SetsockoptInt conn 1 35 1) = Err e)) \<and>
    (\<forall>fd level opt. (fd, level, opt) \<notin> {(conn, 1, 35), (conn, 1, 29)} \<longrightarrow> option_of h1 fd level opt = option_of h fd level opt) \<and>
    option_of h2 conn 0xffff 0x400 = Some 1 \<and> option_of h3 conn 0xffff 0x400 = Some 1"
proof -
  obtain w where "k h (RawControl conn) = Ok w"
      "k (h @ [(RawControl conn, Ok w)]) (SetsockoptInt conn 1 35 1) = Ok x \<and>
         h1 = h @ [(RawControl conn, Ok w)] @ [(SetsockoptInt conn 1 35 1, Ok x)] \<or>
       (\<exists>e. k (h @ [(RawControl conn, Ok w)]) (SetsockoptInt conn 1 35 1) = Err e \<and>
         h1 = h @ [(RawControl conn, Ok w)] @ [(SetsockoptInt conn 1 35 1, Err e)] @ [(SetsockoptInt conn 1 29 1, Ok x)])"
    using assms(1) by (auto simp: kernel_timestamps_defs call_Ok_iffs sys_Ok_iff sys_Err_iff)
  then have "(option_of h1 conn 1 35 = Some 1 \<or>
      option_of h1 conn 1 29 = Some 1 \<and> (\<exists>h' e. k h' (SetsockoptInt conn 1 35 1) = Err e)) \<and>
    (\<forall>fd level opt. (fd, level, opt) \<notin> {(conn, 1, 35), (conn, 1, 29)} \<longrightarrow> option_of h1 fd level opt = option_of h fd level opt)"
    by (auto simp: last_set_def)
  moreover have "option_of h2 conn 0xffff 0x400 = Some 1" "option_of h3 conn 0xffff 0x400 = Some 1"
    using assms(2,3) by (auto simp: kernel_timestamps_defs call_Ok_iffs sys_Ok_iff last_set_def)
  ultimately show ?thesis by simp
qed

theorem kernel_timestamps_enabled_witness:
  "option_of (snd (freebsd_EnableKernelTimestampsSocket (\<lambda>h c. Ok 0) 3 [])) 3 0xffff 0x400 = Some 1"
proof -
  let ?k = "(\<lambda>h c. Ok 0) :: kernel"
  have "EnableKernelTimestampsSocket ?k 3 [] = (Ok 0, [(RawControl 3, Ok 0), (SetsockoptInt 3 1 35 1, Ok 0)])"
    by (simp add: kernel_timestamps_defs bind_call_def or_else_def sys_def ret_call_def)
  moreover have bsd: "freebsd_EnableKernelTimestampsSocket ?k 3 [] = (Ok 0, [(RawControl 3, Ok 0), (SetsockoptInt 3 0xffff 0x400 1, Ok 0)])"
      "darwin_EnableKernelTimestampsSocket ?k 3 [] = (Ok 0, [(RawControl 3, Ok 0), (SetsockoptInt 3 0xffff 0x400 1, Ok 0)])"
    by (simp_all add: kernel_timestamps_defs bind_call_def wrap_call_def sys_def ret_call_def)
  ultimately show ?thesis using kernel_timestamps_enabled bsd by simp
qed

text \<open>
  What System V shared memory promises: a segment that exists is found by a request of size 0, and a segment of size 0
  cannot be created.
\<close>

definition shmget_spec :: "(int \<rightharpoonup> nat) \<Rightarrow> (int \<Rightarrow> int \<Rightarrow> int \<Rightarrow> nat res) \<Rightarrow> bool" where
  "shmget_spec segments shmget \<longleftrightarrow>
     (\<forall>key flags. case segments key of Some shmid \<Rightarrow> shmget key 0 flags = Ok shmid | None \<Rightarrow> (\<exists>e. shmget key 0 flags = Err e))"

text \<open>
  \<open>Create\<close> asks for a segment of size 0, so it never creates one: it succeeds exactly when the segment is already there, and
  then \<open>Read\<close> reads the same one.
\<close>
theorem SHM_Create_finds:
  assumes "shmget_spec segments shmget"
  shows "(case segments SHMKEY of
      None \<Rightarrow> (\<exists>e e'. SHM_Create shmget = Err (''failed get shm: '' @ e) \<and> SHM_Read shmget shmat = Err (''failed get shm: '' @ e'))
    | Some shmid \<Rightarrow> SHM_Create shmget = Ok shmid \<and> SHM_Read shmget shmat = SHM_ReadID (shmat shmid))"
proof -
  have spec: "case segments SHMKEY of Some shmid \<Rightarrow> shmget SHMKEY 0 flags = Ok shmid | None \<Rightarrow> (\<exists>e. shmget SHMKEY 0 flags = Err e)"
    for flags using assms by (simp add: shmget_spec_def)
  show ?thesis
  proof (cases "segments SHMKEY")
    case None
    then have "\<exists>e. shmget SHMKEY 0 flags = Err e" for flags using spec by simp
    then obtain e e' where "shmget SHMKEY 0 (IPC_CREAT OR 384) = Err e" "shmget SHMKEY 0 256 = Err e'" by blast
    then show ?thesis using None by (simp add: SHM_Create_def SHM_Read_def)
  next
    case (Some shmid)
    then have "shmget SHMKEY 0 flags = Ok shmid" for flags using spec [of flags] by simp
    then show ?thesis using Some by (simp add: SHM_Create_def SHM_Read_def)
  qed
qed

theorem SHM_Create_finds_witness: "\<exists>e. SHM_Create (\<lambda>key size flags. Err ''EINVAL'') = Err e"
proof -
  have "shmget_spec Map.empty (\<lambda>key size flags. Err ''EINVAL'')" by (simp add: shmget_spec_def)
  then show ?thesis using SHM_Create_finds [of Map.empty] by auto
qed

end
