(* ===== verification/Leapsectz.thy ===== *)
theory Leapsectz
  imports Go_Codec Go_Time Go_Strings
begin

text \<open>
  \<open>leapsectz/leapsectz.go\<close>: the leap second table of a compiled time zone file, read (\<open>parseVx\<close>) and
  written (\<open>Write\<close>). A reader is the bytes it still holds; a writer is what it has written and, if its
  room is limited, how many bytes it still takes.
\<close>

section \<open>Data\<close>

record LeapSecond =
  ls_Tleap :: u64
  ls_Nleap :: i32

record TZHeader =
  th_IsUtcCnt :: u32
  th_IsStdCnt :: u32
  th_LeapCnt :: u32
  th_TimeCnt :: u32
  th_TypeCnt :: u32
  th_CharCnt :: u32

definition TZHeader_codec :: "TZHeader codec" where
  "TZHeader_codec = cmap
     (\<lambda>(a, b, c, d, e, f). \<lparr>th_IsUtcCnt = a, th_IsStdCnt = b, th_LeapCnt = c, th_TimeCnt = d, th_TypeCnt = e, th_CharCnt = f\<rparr>)
     (\<lambda>h. (th_IsUtcCnt h, th_IsStdCnt h, th_LeapCnt h, th_TimeCnt h, th_TypeCnt h, th_CharCnt h))
     (cpair cu32 (cpair cu32 (cpair cu32 (cpair cu32 (cpair cu32 cu32)))))"

definition LeapSecond_codec :: "LeapSecond codec" where
  "LeapSecond_codec = cmap (\<lambda>(t, n). \<lparr>ls_Tleap = t, ls_Nleap = n\<rparr>) (\<lambda>l. (ls_Tleap l, ls_Nleap l)) (cpair cu64 cu32)"

text \<open>The pair of 32-bit words a version 0 file holds.\<close>

definition LeapSecond0_codec :: "(u32 \<times> u32) codec" where
  "LeapSecond0_codec = cpair cu32 cu32"

lemma wf_leap_codecs [wf_codecs]: "wf_codec TZHeader_codec" "wf_codec LeapSecond_codec" "wf_codec LeapSecond0_codec"
  unfolding TZHeader_codec_def LeapSecond_codec_def LeapSecond0_codec_def
  by (auto intro!: wf_codecs wf_cmap)

lemma leap_codec_simps [simp]:
  "csize TZHeader_codec = 24" "csize LeapSecond_codec = 12" "csize LeapSecond0_codec = 8"
  "cok TZHeader_codec h" "cok LeapSecond_codec l" "cok LeapSecond0_codec p"
  by (cases p, simp_all add: TZHeader_codec_def LeapSecond_codec_def LeapSecond0_codec_def)+

interpretation tzheader: fixed_codec TZHeader_codec by unfold_locales (rule wf_codecs)
interpretation leap_second: fixed_codec LeapSecond_codec by unfold_locales (rule wf_codecs)
interpretation leap_second0: fixed_codec LeapSecond0_codec by unfold_locales (rule wf_codecs)

definition LeapSecond_Time :: "LeapSecond \<Rightarrow> gotime" where
  "LeapSecond_Time l = time_Unix (sint (ls_Tleap l - scast (ls_Nleap l) + 1)) 0"

section \<open>Reading\<close>

definition errBadData :: string where "errBadData = ''malformed time zone information''"
definition errBadVersion :: string where "errBadVersion = ''version in file is not supported''"

definition TZif :: bytes where "TZif = [0x54, 0x5A, 0x69, 0x66]"

text \<open>The loop over the leap second records.\<close>

definition read_leap :: "u8 \<Rightarrow> bytes \<Rightarrow> (LeapSecond \<times> bytes) res" where
  "read_leap version r =
     (if version = 0
      then bind_res (binary_Read LeapSecond0_codec r) (\<lambda>((t, k), r). Ok (\<lparr>ls_Tleap = ucast t, ls_Nleap = k\<rparr>, r))
      else binary_Read LeapSecond_codec r)"

fun read_leaps :: "u8 \<Rightarrow> nat \<Rightarrow> bytes \<Rightarrow> LeapSecond list res" where
  "read_leaps version 0 r = Ok []"
| "read_leaps version (Suc n) r =
     bind_res (read_leap version r) (\<lambda>(l, r). bind_res (read_leaps version n r) (\<lambda>ls. Ok (l # ls)))"

definition skip_before :: "nat \<Rightarrow> u8 \<Rightarrow> TZHeader \<Rightarrow> nat" where
  "skip_before v version hdr =
     unat (th_TimeCnt hdr) * (if v = 0 then 5 else 9) + unat (th_TypeCnt hdr) * 6 + unat (th_CharCnt hdr) +
     (if v = 0 \<and> version > 0
      then unat (th_LeapCnt hdr) * 8 + unat (th_IsUtcCnt hdr) + unat (th_IsStdCnt hdr) else 0)"

text \<open>
  One iteration: the rest of the reader if the loop continues, else the table. The bytes behind the table
  are skipped without looking whether they are there.
\<close>

definition parse_body :: "nat \<Rightarrow> u8 \<Rightarrow> bytes \<Rightarrow> (bytes + LeapSecond list) res" where
  "parse_body v version r =
     bind_res (binary_Read TZHeader_codec r) (\<lambda>(hdr, r).
       let skip = skip_before v version hdr in
       if length r < skip then Err errBadData
       else if v = 0 \<and> version > 0 then Ok (Inl (drop skip r))
       else bind_res (read_leaps version (unat (th_LeapCnt hdr)) (drop skip r)) (\<lambda>ls. Ok (Inr ls)))"

definition parse_part :: "nat \<Rightarrow> bytes \<Rightarrow> (bytes + LeapSecond list) res" where
  "parse_part v r =
     (if take 4 r \<noteq> TZif then Err errBadData
      else let p = take 16 (drop 4 r); r = drop 20 r in
      if length p \<noteq> 16 then Err errBadData
      else let version = p ! 0 in
      if version \<noteq> 0 \<and> version \<noteq> 0x32 \<and> version \<noteq> 0x33 then Err errBadVersion
      else if v > unat version then Err errBadData
      else parse_body v version r)"

definition parseVx :: "bytes \<Rightarrow> LeapSecond list res" where
  "parseVx r =
     bind_res (parse_part 0 r) (\<lambda>x. case x of
         Inr ls \<Rightarrow> Ok ls
       | Inl r \<Rightarrow> bind_res (parse_part 1 r) (\<lambda>y. case y of Inr ls \<Rightarrow> Ok ls | Inl _ \<Rightarrow> Ok []))"

text \<open>The file system: what opening a path gives.\<close>

definition tz_file :: string where "tz_file = ''/usr/share/zoneinfo/right/UTC''"

definition leap_Parse :: "(string \<Rightarrow> bytes res) \<Rightarrow> string \<Rightarrow> LeapSecond list res" where
  "leap_Parse open_file srcfile = bind_res (open_file (if srcfile = [] then tz_file else srcfile)) parseVx"

section \<open>Writing\<close>

record writer =
  w_out :: bytes
  w_room :: "nat option"

definition w_Write :: "bytes \<Rightarrow> writer \<Rightarrow> unit res \<times> writer" where
  "w_Write bs w =
     (case w_room w of
        None \<Rightarrow> (Ok (), w\<lparr>w_out := w_out w @ bs\<rparr>)
      | Some n \<Rightarrow> if length bs \<le> n then (Ok (), w\<lparr>w_out := w_out w @ bs, w_room := Some (n - length bs)\<rparr>)
          else (Err ''no space left on device'', w\<lparr>w_out := w_out w @ take n bs, w_room := Some 0\<rparr>))"

text \<open>Calls one after the other, up to the first error.\<close>

definition w_then :: "(writer \<Rightarrow> unit res \<times> writer) \<Rightarrow> (writer \<Rightarrow> unit res \<times> writer) \<Rightarrow> writer \<Rightarrow> unit res \<times> writer" where
  "w_then f g w = (case f w of (Inl e, w) \<Rightarrow> (Inl e, w) | (Inr _, w) \<Rightarrow> g w)"

fun w_each :: "('a \<Rightarrow> writer \<Rightarrow> unit res \<times> writer) \<Rightarrow> 'a list \<Rightarrow> writer \<Rightarrow> unit res \<times> writer" where
  "w_each f [] w = (Ok (), w)"
| "w_each f (x # xs) w = w_then (f x) (w_each f xs) w"

definition prepareHeader :: "u8 \<Rightarrow> nat \<Rightarrow> bytes \<Rightarrow> bytes" where
  "prepareHeader ver lsCnt name =
     TZif @ [ver] @ replicate 15 0 @
     binary_Write TZHeader_codec \<lparr>th_IsUtcCnt = 1, th_IsStdCnt = 1, th_LeapCnt = word_of_nat lsCnt, th_TimeCnt = 0,
       th_TypeCnt = 1, th_CharCnt = word_of_nat (length name)\<rparr>"

definition writePreData :: "bytes \<Rightarrow> writer \<Rightarrow> unit res \<times> writer" where
  "writePreData name = w_then (w_Write [0, 0, 0, 0, 0, 0]) (w_Write name)"

definition writePostData :: "writer \<Rightarrow> unit res \<times> writer" where
  "writePostData = w_Write [0, 0]"

definition leap_Write :: "u8 \<Rightarrow> LeapSecond list \<Rightarrow> string \<Rightarrow> writer \<Rightarrow> unit res \<times> writer" where
  "leap_Write ver ls name w =
     (if ver \<noteq> 0 \<and> ver \<noteq> 0x32 then (Err ''unsupported version'', w)
      else
        let nameFormatted = (if name = [] then str_bytes ''UTC'' @ [0] else str_bytes name @ [0]);
            hdr = prepareHeader ver (length ls) nameFormatted
        in w_then (w_Write hdr)
           (w_then (writePreData nameFormatted)
            (w_then (w_each (\<lambda>l. w_Write (binary_Write LeapSecond0_codec (ucast (ls_Tleap l), ls_Nleap l))) ls)
             (w_then writePostData
              (if ver \<noteq> 0x32 then (\<lambda>w. (Ok (), w))
               else w_then (w_Write hdr)
                 (w_then (writePreData nameFormatted)
                  (w_then (w_each (\<lambda>l. w_Write (binary_Write LeapSecond_codec l)) ls)
                   (w_then writePostData (w_Write (str_bytes (CHR 0x0A # name @ [CHR 0x0A])))))))))) w)"

section \<open>What is written\<close>

text \<open>A sequence of writes is one write of the bytes in sequence, also when the room runs out.\<close>

lemma w_then_Write: "w_then (w_Write a) (w_Write b) = w_Write (a @ b)"
  by (rule ext) (auto simp: w_then_def w_Write_def split: option.splits)

lemma w_Write_Nil: "(\<lambda>w. (Ok (), w)) = w_Write []"
  by (rule ext) (auto simp: w_Write_def split: option.split)

lemma w_each_Write: "w_each (\<lambda>x. w_Write (f x)) xs = w_Write (concat (map f xs))"
proof (induction xs)
  case Nil
  show ?case by (rule ext) (simp add: w_Write_Nil [symmetric])
next
  case (Cons x xs)
  show ?case by (rule ext) (simp add: Cons.IH w_then_Write)
qed

definition zone_name :: "string \<Rightarrow> bytes" where
  "zone_name name = (if name = [] then str_bytes ''UTC'' else str_bytes name) @ [0]"

text \<open>A part of the file: header, one local time type, the name, the table and the indicators.\<close>

definition tz_part :: "u8 \<Rightarrow> ('a \<Rightarrow> bytes) \<Rightarrow> 'a list \<Rightarrow> string \<Rightarrow> bytes" where
  "tz_part ver enc ls name =
     prepareHeader ver (length ls) (zone_name name) @ replicate 6 0 @ zone_name name @ concat (map enc ls) @ [0, 0]"

definition short_leap :: "LeapSecond \<Rightarrow> bytes" where
  "short_leap l = binary_Write LeapSecond0_codec (ucast (ls_Tleap l), ls_Nleap l)"

definition leap_file :: "u8 \<Rightarrow> LeapSecond list \<Rightarrow> string \<Rightarrow> bytes" where
  "leap_file ver ls name = tz_part ver short_leap ls name @
     (if ver = 0x32 then tz_part ver (binary_Write LeapSecond_codec) ls name @ str_bytes (CHR 0x0A # name @ [CHR 0x0A])
      else [])"

lemma leap_Write_eq: "ver \<in> {0, 0x32} \<Longrightarrow> leap_Write ver ls name = w_Write (leap_file ver ls name)"
  by (rule ext) (auto simp: leap_Write_def writePreData_def writePostData_def w_each_Write w_Write_Nil w_then_Write
      leap_file_def tz_part_def zone_name_def short_leap_def [abs_def] Let_def numeral_eq_Suc)

section \<open>What is read back\<close>

lemma read_leaps_long:
  assumes "ver \<noteq> 0"
  shows "read_leaps ver (length ls) (concat (map (binary_Write LeapSecond_codec) ls) @ r) = Ok ls"
  by (induction ls) (simp_all add: assms read_leap_def leap_second.read_write)

lemma ucast_ucast_small: "unat (t :: u64) < 2 ^ 32 \<Longrightarrow> ucast (ucast t :: u32) = t"
  by (simp add: word_unat_eq_iff unsigned_ucast_eq unsigned_take_bit_eq take_bit_nat_eq_self)

lemma read_leaps_short:
  assumes "list_all (\<lambda>l. unat (ls_Tleap l) < 2 ^ 32) ls"
  shows "read_leaps 0 (length ls) (concat (map short_leap ls) @ r) = Ok ls"
  using assms
  by (induction ls) (simp_all add: short_leap_def read_leap_def leap_second0.read_write ucast_ucast_small)

definition written_header :: "nat \<Rightarrow> string \<Rightarrow> TZHeader" where
  "written_header n name = \<lparr>th_IsUtcCnt = 1, th_IsStdCnt = 1, th_LeapCnt = word_of_nat n, th_TimeCnt = 0,
     th_TypeCnt = 1, th_CharCnt = word_of_nat (length (zone_name name))\<rparr>"

lemma parse_part_prepareHeader:
  fixes n :: nat and name :: string
  defines "hdr \<equiv> written_header n name"
  assumes "ver \<in> {0, 0x32}" and "v \<le> unat ver"
  shows "parse_part v (prepareHeader ver n (zone_name name) @ r) =
    (let skip = skip_before v ver hdr in
     if length r < skip then Err errBadData
     else if v = 0 \<and> ver > 0 then Ok (Inl (drop skip r))
     else bind_res (read_leaps ver (unat (th_LeapCnt hdr)) (drop skip r)) (\<lambda>ls. Ok (Inr ls)))"
proof -
  have p: "prepareHeader ver n (zone_name name) @ r = TZif @ (ver # replicate 15 0) @ (binary_Write TZHeader_codec hdr @ r)"
    by (simp add: prepareHeader_def hdr_def written_header_def)
  have "take 4 (TZif @ x) = TZif" "drop 4 (TZif @ x) = x" for x by (simp_all add: TZif_def)
  moreover have "take 16 ((ver # replicate 15 0) @ x) = ver # replicate 15 0" for x by simp
  moreover have "drop 20 (TZif @ (ver # replicate 15 0) @ x) = x" for x by (simp add: TZif_def)
  ultimately show ?thesis
    using assms(2,3) unfolding p parse_part_def parse_body_def
    by (simp only: Let_def tzheader.read_write [OF leap_codec_simps(4)] bind_res_simps) auto
qed

lemma parse_part_first:
  assumes "length ls < 2 ^ 32" and "length (zone_name name) < 2 ^ 32"
  shows "parse_part 0 (tz_part 0x32 short_leap ls name @ rest) = Ok (Inl rest)"
proof -
  let ?hdr = "written_header (length ls) name"
  let ?body = "replicate 6 0 @ zone_name name @ concat (map short_leap ls) @ [0, 0]"
  have "length (concat (map short_leap ls)) = length ls * 8"
    by (induction ls) (simp_all add: short_leap_def leap_second0.length_write)
  then have "skip_before 0 0x32 ?hdr = length ?body"
    using assms by (simp add: skip_before_def written_header_def unat_of_nat take_bit_nat_eq_self)
  then show ?thesis
    by (simp add: tz_part_def parse_part_prepareHeader)
qed

lemma parse_part_table:
  assumes "length ls < 2 ^ 32" and "length (zone_name name) < 2 ^ 32"
    and "v = 0 \<and> ver = 0 \<or> v = 1 \<and> ver = 0x32"
    and "\<And>r. read_leaps ver (length ls) (concat (map enc ls) @ r) = Ok ls"
  shows "parse_part v (tz_part ver enc ls name @ rest) = Ok (Inr ls)"
proof -
  let ?hdr = "written_header (length ls) name"
  have "skip_before v ver ?hdr = length (replicate 6 0 @ zone_name name)"
    using assms(1-3) by (auto simp: skip_before_def written_header_def unat_of_nat take_bit_nat_eq_self)
  moreover have "unat (th_LeapCnt ?hdr) = length ls"
    using assms(1) by (simp add: written_header_def unat_of_nat take_bit_nat_eq_self)
  ultimately show ?thesis
    using assms(3,4) by (auto simp: tz_part_def parse_part_prepareHeader)
qed

lemma parseVx_leap_file:
  assumes "ver \<in> {0, 0x32}" and "length ls < 2 ^ 32" and "length name < 2 ^ 32 - 1"
    and "ver = 0 \<Longrightarrow> list_all (\<lambda>l. unat (ls_Tleap l) < 2 ^ 32) ls"
  shows "parseVx (leap_file ver ls name @ rest) = Ok ls"
proof -
  have z: "length (zone_name name) < 2 ^ 32" using assms(3) by (simp add: zone_name_def)
  show ?thesis
  proof (cases "ver = 0")
    case True
    then show ?thesis
      using parse_part_table [OF assms(2) z, of 0 ver short_leap] read_leaps_short [OF assms(4)]
      by (simp add: leap_file_def parseVx_def)
  next
    case False
    then show ?thesis
      using assms(1) parse_part_first [OF assms(2) z]
        parse_part_table [OF assms(2) z, of 1 ver "binary_Write LeapSecond_codec"] read_leaps_long
      by (simp add: leap_file_def parseVx_def)
  qed
qed

lemma binary_Read_extend: "binary_Read c r = Ok (x, r') \<Longrightarrow> binary_Read c (r @ t) = Ok (x, r' @ t)"
  by (auto dest!: binary_Read_OkD simp: binary_Read_Ok)

lemma read_leap_extend: "read_leap ver r = Ok (l, r') \<Longrightarrow> read_leap ver (r @ t) = Ok (l, r' @ t)"
proof (cases "ver = 0")
  case True
  assume "read_leap ver r = Ok (l, r')"
  with True obtain q where q: "binary_Read LeapSecond0_codec r = Ok (q, r')" "l = \<lparr>ls_Tleap = ucast (fst q), ls_Nleap = snd q\<rparr>"
    by (auto simp: read_leap_def bind_res_Ok_iff)
  with True binary_Read_extend [OF q(1), of t] show ?thesis by (cases q) (simp add: read_leap_def)
next
  case False
  then show "read_leap ver r = Ok (l, r') \<Longrightarrow> ?thesis" by (simp add: read_leap_def binary_Read_extend)
qed

lemma read_leaps_extend: "read_leaps ver n r = Ok ls \<Longrightarrow> read_leaps ver n (r @ t) = Ok ls"
proof (induction n arbitrary: r ls)
  case 0
  then show ?case by simp
next
  case (Suc n)
  then obtain l r' ls' where "read_leap ver r = Ok (l, r')" "read_leaps ver n r' = Ok ls'" "ls = l # ls'"
    by (auto simp: bind_res_Ok_iff)
  then show ?case using read_leap_extend [of ver r l r' t] Suc.IH [of r' ls'] by simp
qed

definition extend_result :: "bytes \<Rightarrow> bytes + LeapSecond list \<Rightarrow> bytes + LeapSecond list" where
  "extend_result t y = (case y of Inl r \<Rightarrow> Inl (r @ t) | Inr ls \<Rightarrow> Inr ls)"

lemma parse_body_extend:
  assumes "parse_body v ver r = Ok y"
  shows "parse_body v ver (r @ t) = Ok (extend_result t y)"
proof -
  obtain hdr r' where h: "binary_Read TZHeader_codec r = Ok (hdr, r')"
    using assms by (auto simp: parse_body_def bind_res_Ok_iff)
  have s: "skip_before v ver hdr \<le> length r'"
    using assms h by (auto simp: parse_body_def Let_def split: if_splits)
  show ?thesis
  proof (cases "v = 0 \<and> ver > 0")
    case True
    with assms h s binary_Read_extend [OF h, of t] show ?thesis
      by (auto simp: parse_body_def extend_result_def)
  next
    case False
    with assms h s obtain ls where
      "read_leaps ver (unat (th_LeapCnt hdr)) (drop (skip_before v ver hdr) r') = Ok ls" "y = Inr ls"
      by (auto simp: parse_body_def bind_res_Ok_iff)
    with s False binary_Read_extend [OF h, of t] read_leaps_extend show ?thesis
      by (auto simp: parse_body_def extend_result_def)
  qed
qed

lemma parse_part_extend:
  assumes "parse_part v r = Ok y"
  shows "parse_part v (r @ t) = Ok (extend_result t y)"
proof -
  have l: "20 \<le> length r" using assms by (auto simp: parse_part_def Let_def min_def split: if_splits)
  then have e: "take 4 (r @ t) = take 4 r" "take 16 (drop 4 (r @ t)) = take 16 (drop 4 r)" "drop 20 (r @ t) = drop 20 r @ t"
    by simp_all
  show ?thesis
    using assms parse_body_extend unfolding parse_part_def e Let_def by (auto split: if_splits)
qed

lemma parseVx_extend:
  assumes "parseVx r = Ok ls"
  shows "parseVx (r @ t) = Ok ls"
proof -
  obtain x where x: "parse_part 0 r = Ok x" using assms by (auto simp: parseVx_def bind_res_Ok_iff)
  show ?thesis
  proof (cases x)
    case (Inl r')
    then obtain y where y: "parse_part 1 r' = Ok y" using assms x by (auto simp: parseVx_def bind_res_Ok_iff)
    from assms x Inl y parse_part_extend [OF x, of t] parse_part_extend [OF y, of t] show ?thesis
      by (cases y) (simp_all add: parseVx_def extend_result_def)
  next
    case (Inr ls')
    with assms x parse_part_extend [OF x, of t] show ?thesis by (simp add: parseVx_def extend_result_def)
  qed
qed

section \<open>Properties\<close>

text \<open>
  C40: A leap second table that \<open>Write\<close> has written completely is read back unchanged: in version 2 any table,
  in version 0 any table of times below \<open>2^32\<close>; whatever follows in the file.
\<close>
theorem leap_Write_Parse:
  assumes "ver \<in> {0, 0x32}" and "length ls < 2 ^ 32" and "length name < 2 ^ 32 - 1"
    and "ver = 0 \<longrightarrow> list_all (\<lambda>l. unat (ls_Tleap l) < 2 ^ 32) ls"
    and "leap_Write ver ls name \<lparr>w_out = [], w_room = room\<rparr> = (Ok (), w)"
  shows "parseVx (w_out w @ rest) = Ok ls"
proof -
  have "w_out w = leap_file ver ls name"
    using assms(5) by (auto simp: leap_Write_eq [OF assms(1)] w_Write_def split: option.splits if_splits)
  then show ?thesis using parseVx_leap_file [OF assms(1-3)] assms(4) by simp
qed

definition example_leaps :: "LeapSecond list" where
  "example_leaps = [\<lparr>ls_Tleap = 78796800, ls_Nleap = 1\<rparr>, \<lparr>ls_Tleap = 94694401, ls_Nleap = 2\<rparr>]"

definition example_tz :: "nat option \<Rightarrow> unit res \<times> writer" where
  "example_tz room = leap_Write 0x32 example_leaps ''UTC'' \<lparr>w_out = [], w_room = room\<rparr>"

theorem leap_Write_Parse_witness: "fst (example_tz None) = Ok () \<and> parseVx (w_out (snd (example_tz None)) @ [1]) = Ok example_leaps"
proof -
  obtain w where w: "example_tz None = (Ok (), w)"
    by (simp add: example_tz_def leap_Write_eq w_Write_def)
  have "parseVx (w_out w @ [1]) = Ok example_leaps"
    by (rule leap_Write_Parse [OF _ _ _ _ w [unfolded example_tz_def]]) (simp_all add: example_leaps_def)
  with w show ?thesis by simp
qed

text \<open>
  A file that was cut short while it was written, wherever the room ran out, is refused or gives
  the whole table: it is never read as a shorter or different one.
\<close>
theorem leap_Write_cut:
  assumes "ver \<in> {0, 0x32}" and "length ls < 2 ^ 32" and "length name < 2 ^ 32 - 1"
    and "ver = 0 \<longrightarrow> list_all (\<lambda>l. unat (ls_Tleap l) < 2 ^ 32) ls"
    and "leap_Write ver ls name \<lparr>w_out = [], w_room = Some room\<rparr> = (result, w)"
  shows "parseVx (w_out w) = Ok ls \<or> (\<exists>e. parseVx (w_out w) = Inl e)"
proof -
  have "w_out w = take room (leap_file ver ls name)"
    using assms(5) by (auto simp: leap_Write_eq [OF assms(1)] w_Write_def split: option.splits if_splits)
  then have "w_out w @ drop room (leap_file ver ls name) = leap_file ver ls name" by simp
  moreover have "parseVx (leap_file ver ls name) = Ok ls"
    using parseVx_leap_file [OF assms(1-3), of "[]"] assms(4) by simp
  ultimately show ?thesis
    using parseVx_extend [of "w_out w" _ "drop room (leap_file ver ls name)"]
    by (cases "parseVx (w_out w)") auto
qed

theorem leap_Write_cut_witness:
  "fst (example_tz (Some 100)) = Err ''no space left on device'' \<and>
   (parseVx (w_out (snd (example_tz (Some 100)))) = Ok example_leaps \<or>
    (\<exists>e. parseVx (w_out (snd (example_tz (Some 100)))) = Inl e))"
proof -
  have "length (leap_file 0x32 example_leaps ''UTC'') > 100"
    by (simp add: leap_file_def tz_part_def prepareHeader_def zone_name_def short_leap_def TZif_def
        tzheader.length_write leap_second0.length_write leap_second.length_write example_leaps_def)
  then obtain w where w: "example_tz (Some 100) = (Err ''no space left on device'', w)"
    by (simp add: example_tz_def leap_Write_eq w_Write_def)
  have "parseVx (w_out w) = Ok example_leaps \<or> (\<exists>e. parseVx (w_out w) = Inl e)"
    by (rule leap_Write_cut [OF _ _ _ _ w [unfolded example_tz_def]]) (simp_all add: example_leaps_def)
  with w show ?thesis by simp
qed

end
