(* ===== verification/Leaphash.thy ===== *)
theory Leaphash
  imports Go_Strings
begin

text \<open>
  \<open>leaphash/leaphash.go\<close>: the checksum of the official leap second list. SHA-1 is the library's, a
  parameter that gives twenty bytes. The document is text of one-byte characters, so that a character
  is a byte and \<open>strings.Map\<close> is a filter.
\<close>

section \<open>The checksum\<close>

definition filterBlanks :: "string \<Rightarrow> string" where
  "filterBlanks s = filter (\<lambda>r. r \<noteq> CHR '' '' \<and> r \<noteq> CHR 0x09) s"

text \<open>What a line adds to the filtered text. Slicing up to \<open>commentPos - 1\<close> panics if the position is 0.\<close>

definition filtered_line :: "string \<Rightarrow> string res" where
  "filtered_line line =
     (if HasPrefix line ''#$'' \<or> HasPrefix line ''#@'' then
        bind_res (slice line 2 (length line)) (\<lambda>s. Ok (filterBlanks s))
      else if HasPrefix line ''#'' then Ok []
      else case strings_Index CHR ''#'' line of
          None \<Rightarrow> Ok (filterBlanks line)
        | Some commentPos \<Rightarrow>
            if commentPos = 0 then Inl Panic
            else bind_res (slice line 0 (commentPos - 1)) (\<lambda>s. Ok (filterBlanks s)))"

fun filtered_lines :: "string list \<Rightarrow> string res" where
  "filtered_lines [] = Ok []"
| "filtered_lines (l # ls) = bind_res (filtered_line l) (\<lambda>s. bind_res (filtered_lines ls) (\<lambda>t. Ok (s @ t)))"

text \<open>The grouping by eight characters.\<close>

fun group_hash :: "nat list \<Rightarrow> string \<Rightarrow> string \<Rightarrow> string res" where
  "group_hash [] hash groupedHash = Ok groupedHash"
| "group_hash (i # is) hash groupedHash =
     bind_res (slice hash (i * 8) ((i + 1) * 8)) (\<lambda>part.
       group_hash is hash ((if groupedHash \<noteq> [] then groupedHash @ '' '' else groupedHash) @ part))"

definition leaphash_Compute :: "(string \<Rightarrow> bytes) \<Rightarrow> string \<Rightarrow> string res" where
  "leaphash_Compute sha1 data =
     bind_res (filtered_lines (strings_Split CHR 0x0A data)) (\<lambda>filtered.
       group_hash [0, 1, 2, 3, 4] (show_hex (sha1 filtered)) [])"

section \<open>Properties\<close>

text \<open>What the document's format counts of a line: the payload of a special line, nothing of a comment, and of
  a data line what stands before its comment.\<close>

definition special :: "string \<Rightarrow> bool" where
  "special line \<longleftrightarrow> take 2 line \<in> {''#$'', ''#@''}"

definition payload :: "string \<Rightarrow> string" where
  "payload line =
     (if special line then filterBlanks (drop 2 line)
      else filterBlanks (takeWhile (\<lambda>c. c \<noteq> CHR ''#'') line))"

text \<open>A comment behind data is set off by a blank.\<close>

definition comment_set_off :: "string \<Rightarrow> bool" where
  "comment_set_off line \<longleftrightarrow>
     (let data = takeWhile (\<lambda>c. c \<noteq> CHR ''#'') line in
      data = [] \<or> data = line \<or> last data \<in> {CHR '' '', CHR 0x09})"

lemma filterBlanks_butlast:
  "s \<noteq> [] \<Longrightarrow> last s \<in> {CHR '' '', CHR 0x09} \<Longrightarrow> filterBlanks (butlast s) = filterBlanks s"
  by (subst append_butlast_last_id [of s, symmetric]) (auto simp: filterBlanks_def simp del: append_butlast_last_id)

lemma special_prefix: "HasPrefix line ''#$'' \<or> HasPrefix line ''#@'' \<longleftrightarrow> special line"
  by (simp add: HasPrefix_def special_def numeral_2_eq_2)

lemma filtered_line_eq:
  "filtered_line line = Ok (if special line then filterBlanks (drop 2 line)
     else let data = takeWhile (\<lambda>c. c \<noteq> CHR ''#'') line in filterBlanks (if data = line then line else butlast data))"
proof (cases "special line")
  case True
  then have "2 \<le> length line" unfolding special_def by (cases line; cases "tl line") auto
  with True show ?thesis unfolding filtered_line_def special_prefix by simp
next
  case False
  let ?d = "takeWhile (\<lambda>c. c \<noteq> CHR ''#'') line"
  show ?thesis
  proof (cases "CHR ''#'' \<in> set line")
    case True
    then have "?d \<noteq> line" by (metis set_takeWhileD)
    have "butlast ?d = take (length ?d - 1) line"
      by (metis butlast_conv_take butlast_take length_takeWhile_le takeWhile_eq_take)
    moreover have "?d = [] \<longleftrightarrow> HasPrefix line ''#''" using True by (cases line) (auto simp: HasPrefix_def)
    moreover have "slice line 0 (length ?d - 1) = Ok (take (length ?d - 1) line)"
      using length_takeWhile_le [of "\<lambda>c. c \<noteq> CHR ''#''" line] by (subst slice_Ok) auto
    ultimately show ?thesis
      using False True \<open>?d \<noteq> line\<close>
      unfolding filtered_line_def special_prefix strings_Index_takeWhile Let_def
      by (auto simp: filterBlanks_def)
  next
    case no: False
    then have "?d = line" "\<not> HasPrefix line ''#''"
      by (auto simp: takeWhile_eq_all_conv HasPrefix_def) (cases line; auto)
    with False no show ?thesis
      unfolding filtered_line_def special_prefix strings_Index_takeWhile by simp
  qed
qed

definition well_commented :: "string list \<Rightarrow> bool" where
  "well_commented ls \<longleftrightarrow> list_all (\<lambda>l. special l \<or> comment_set_off l) ls"

lemma filtered_lines_eq:
  assumes "well_commented ls"
  shows "filtered_lines ls = Ok (concat (map payload ls))"
proof -
  have "filtered_line l = Ok (payload l)" if "special l \<or> comment_set_off l" for l
  proof (cases "special l")
    case True
    then show ?thesis by (simp add: filtered_line_eq payload_def)
  next
    case False
    let ?d = "takeWhile (\<lambda>c. c \<noteq> CHR ''#'') l"
    from False that consider "?d = []" | "?d = l" | "?d \<noteq> []" "last ?d \<in> {CHR '' '', CHR 0x09}"
      unfolding comment_set_off_def Let_def by blast
    then show ?thesis
      using False filterBlanks_butlast [of ?d] unfolding filtered_line_eq payload_def Let_def
      by cases (simp_all del: takeWhile_eq_all_conv)
  qed
  with assms show ?thesis unfolding well_commented_def by (induction ls) simp_all
qed

text \<open>The forty digits in five groups of eight.\<close>

definition grouped :: "string \<Rightarrow> string" where
  "grouped h = take 8 h @ '' '' @ take 8 (drop 8 h) @ '' '' @ take 8 (drop 16 h) @ '' '' @ take 8 (drop 24 h) @
     '' '' @ take 8 (drop 32 h)"

lemma group_hash_eq: "length h = 40 \<Longrightarrow> group_hash [0, 1, 2, 3, 4] h [] = Ok (grouped h)"
  by (cases h) (simp_all add: grouped_def drop_take)

text \<open>
  Computing the checksum never panics, and for a document whose comments behind data are set off by a
  blank it is the hash of exactly what the format counts: the payload of the special lines and the data, without blanks and
  comments, in five groups of eight digits.
\<close>
theorem leaphash_Compute_payload:
  assumes "\<And>s. length (sha1 s) = 20"
  shows "(\<exists>h. leaphash_Compute sha1 data = Ok h \<and> length h = 44) \<and>
    (well_commented (strings_Split CHR 0x0A data) \<longrightarrow>
     leaphash_Compute sha1 data =
       Ok (grouped (show_hex (sha1 (concat (map payload (strings_Split CHR 0x0A data)))))))"
proof -
  have g: "group_hash [0, 1, 2, 3, 4] (show_hex (sha1 f)) [] = Ok (grouped (show_hex (sha1 f)))" for f
    using group_hash_eq [of "show_hex (sha1 f)"] assms length_show_hex by simp
  have "\<exists>f. filtered_lines ls = Ok f" for ls
  proof (induction ls)
    case (Cons l ls)
    then obtain t where "filtered_lines ls = Ok t" by blast
    then show ?case by (simp only: filtered_lines.simps(2) filtered_line_eq bind_res_simps) blast
  qed simp
  then obtain f where f: "filtered_lines (strings_Split CHR 0x0A data) = Ok f" by blast
  have "leaphash_Compute sha1 data = Ok (grouped (show_hex (sha1 f)))"
    unfolding leaphash_Compute_def f bind_res_simps g ..
  moreover have "length (grouped (show_hex (sha1 f))) = 44"
    by (simp add: grouped_def length_show_hex assms)
  ultimately show ?thesis
    using filtered_lines_eq f by auto
qed

definition example_sha1 :: "string \<Rightarrow> bytes" where
  "example_sha1 s = take 20 (map (\<lambda>c. word_of_nat (of_char c)) s @ replicate 20 0)"

definition example_list :: string where
  "example_list = ''#$ 36'' @ [CHR 0x0A] @ ''22 10 # x''"

theorem leaphash_Compute_payload_witness:
  "leaphash_Compute example_sha1 example_list = Ok ''33363232 31300000 00000000 00000000 00000000''"
proof -
  have "well_commented (strings_Split CHR 0x0A example_list)" by code_simp
  moreover have "grouped (show_hex (example_sha1 (concat (map payload (strings_Split CHR 0x0A example_list))))) =
      ''33363232 31300000 00000000 00000000 00000000''" by code_simp
  moreover have "length (example_sha1 s) = 20" for s by (simp add: example_sha1_def)
  ultimately show ?thesis using leaphash_Compute_payload [of example_sha1 example_list] by simp
qed

text \<open>
  A comment that directly follows the data takes the last character of the data with it, even if
  it is a digit: two different tables get the same checksum.
\<close>
theorem leaphash_drops_digit:
  "leaphash_Compute sha1 ''2272060800 10#x'' = leaphash_Compute sha1 ''2272060800 17#x''"
proof -
  have "filtered_lines (strings_Split CHR 0x0A ''2272060800 10#x'') = filtered_lines (strings_Split CHR 0x0A ''2272060800 17#x'')"
    by code_simp
  then show ?thesis by (simp only: leaphash_Compute_def)
qed

end
