(* ===== verification/NTP_Responder.thy ===== *)
theory NTP_Responder
  imports Go_Strings NTP_Protocol Timestamping "HOL-Library.Multiset"
begin

text \<open>
  \<open>ntp/responder\<close>: the NTP server. \<open>server/server.go\<close> with its listeners, workers and the channel of
  tasks between them, the statistics of \<open>stats/json.go\<close>, the health check of
  \<open>checker/simplechecker.go\<close>, and the management of service addresses on an interface
  (\<open>server/ip.go\<close>, \<open>ip_linux.go\<close>). Counters are words, as \<open>atomic.AddInt64\<close> wraps.
\<close>

section \<open>Statistics and health check\<close>

record ResponderStats =
  st_invalidFormat :: u64
  st_requests :: u64
  st_responses :: u64
  st_listeners :: u64
  st_workers :: u64
  st_readError :: u64
  st_announce :: u64

definition zero_stats :: ResponderStats where
  "zero_stats = \<lparr>st_invalidFormat = 0, st_requests = 0, st_responses = 0, st_listeners = 0, st_workers = 0,
     st_readError = 0, st_announce = 0\<rparr>"

definition responder_toMap :: "ResponderStats \<Rightarrow> (string \<times> int) list" where
  "responder_toMap j =
     [(''invalidformat'', sint (st_invalidFormat j)), (''requests'', sint (st_requests j)),
      (''responses'', sint (st_responses j)), (''listeners'', sint (st_listeners j)),
      (''workers'', sint (st_workers j)), (''readError'', sint (st_readError j)),
      (''announce'', sint (st_announce j))]"

definition IncInvalidFormat :: "ResponderStats \<Rightarrow> ResponderStats" where
  "IncInvalidFormat j = j\<lparr>st_invalidFormat := st_invalidFormat j + 1\<rparr>"

definition IncRequests :: "ResponderStats \<Rightarrow> ResponderStats" where
  "IncRequests j = j\<lparr>st_requests := st_requests j + 1\<rparr>"

definition IncResponses :: "ResponderStats \<Rightarrow> ResponderStats" where
  "IncResponses j = j\<lparr>st_responses := st_responses j + 1\<rparr>"

definition IncListeners :: "ResponderStats \<Rightarrow> ResponderStats" where
  "IncListeners j = j\<lparr>st_listeners := st_listeners j + 1\<rparr>"

definition IncWorkers :: "ResponderStats \<Rightarrow> ResponderStats" where
  "IncWorkers j = j\<lparr>st_workers := st_workers j + 1\<rparr>"

definition IncReadError :: "ResponderStats \<Rightarrow> ResponderStats" where
  "IncReadError j = j\<lparr>st_readError := st_readError j + 1\<rparr>"

definition DecListeners :: "ResponderStats \<Rightarrow> ResponderStats" where
  "DecListeners j = j\<lparr>st_listeners := st_listeners j - 1\<rparr>"

definition DecWorkers :: "ResponderStats \<Rightarrow> ResponderStats" where
  "DecWorkers j = j\<lparr>st_workers := st_workers j - 1\<rparr>"

definition SetAnnounce :: "ResponderStats \<Rightarrow> ResponderStats" where
  "SetAnnounce j = j\<lparr>st_announce := 1\<rparr>"

definition ResetAnnounce :: "ResponderStats \<Rightarrow> ResponderStats" where
  "ResetAnnounce j = j\<lparr>st_announce := 0\<rparr>"

record SimpleChecker =
  ck_ExpectedListeners :: u64
  ck_realListeners :: u64
  ck_ExpectedWorkers :: u64
  ck_realWorkers :: u64

definition ck_IncListeners :: "SimpleChecker \<Rightarrow> SimpleChecker" where
  "ck_IncListeners s = s\<lparr>ck_realListeners := ck_realListeners s + 1\<rparr>"

definition ck_DecListeners :: "SimpleChecker \<Rightarrow> SimpleChecker" where
  "ck_DecListeners s = s\<lparr>ck_realListeners := ck_realListeners s - 1\<rparr>"

definition ck_IncWorkers :: "SimpleChecker \<Rightarrow> SimpleChecker" where
  "ck_IncWorkers s = s\<lparr>ck_realWorkers := ck_realWorkers s + 1\<rparr>"

definition ck_DecWorkers :: "SimpleChecker \<Rightarrow> SimpleChecker" where
  "ck_DecWorkers s = s\<lparr>ck_realWorkers := ck_realWorkers s - 1\<rparr>"

definition checkListeners :: "SimpleChecker \<Rightarrow> unit res" where
  "checkListeners s = (if ck_ExpectedListeners s \<noteq> ck_realListeners s
     then Err ''wrong amount of listeners is up'' else Ok ())"

definition checkWorkers :: "SimpleChecker \<Rightarrow> unit res" where
  "checkWorkers s = (if ck_ExpectedWorkers s \<noteq> ck_realWorkers s
     then Err ''wrong amount of workers is up'' else Ok ())"

definition Check :: "SimpleChecker \<Rightarrow> unit res" where
  "Check s = bind_res (checkListeners s) (\<lambda>_. checkWorkers s)"

section \<open>Responses\<close>

text \<open>\<open>fmt.Sprintf("%-4s", RefID)\<close> pads a short identifier with blanks; \<open>Uint32\<close> reads four bytes of it.\<close>

definition refid_bytes :: "string \<Rightarrow> bytes" where
  "refid_bytes r = str_bytes (r @ replicate (4 - length r) CHR '' '')"

definition fillStaticHeaders :: "int \<Rightarrow> string \<Rightarrow> NTPPacket \<Rightarrow> NTPPacket" where
  "fillStaticHeaders stratum refID response =
     response\<lparr>np_Stratum := word_of_int stratum, np_Precision := - 32, np_RootDelay := 0,
       np_RootDispersion := 10, np_ReferenceID := cdec cu32 (take 4 (refid_bytes refID))\<rparr>"

definition generateResponse :: "gotime \<Rightarrow> gotime \<Rightarrow> NTPPacket \<Rightarrow> NTPPacket \<Rightarrow> NTPPacket" where
  "generateResponse now received request response =
     (let vn = np_Settings request AND 0x38;
          lastSync = time_Unix (i64 (quot (t_Unix now) 1000 * 1000)) 0;
          (lastSyncSec, lastSyncFrac) = NTP_Time lastSync;
          (receivedSec, receivedFrac) = NTP_Time received;
          (nowSec, nowFrac) = NTP_Time now
      in response\<lparr>np_Settings := vn + 4, np_Poll := np_Poll request,
           np_RefTimeSec := lastSyncSec, np_RefTimeFrac := lastSyncFrac,
           np_OrigTimeSec := np_TxTimeSec request, np_OrigTimeFrac := np_TxTimeFrac request,
           np_RxTimeSec := receivedSec, np_RxTimeFrac := receivedFrac,
           np_TxTimeSec := nowSec, np_TxTimeFrac := nowFrac\<rparr>)"

definition zero_NTPPacket :: NTPPacket where
  "zero_NTPPacket = \<lparr>np_Settings = 0, np_Stratum = 0, np_Poll = 0, np_Precision = 0, np_RootDelay = 0,
     np_RootDispersion = 0, np_ReferenceID = 0, np_RefTimeSec = 0, np_RefTimeFrac = 0, np_OrigTimeSec = 0,
     np_OrigTimeFrac = 0, np_RxTimeSec = 0, np_RxTimeFrac = 0, np_TxTimeSec = 0, np_TxTimeFrac = 0\<rparr>"

section \<open>Service addresses\<close>

text \<open>
  The addresses of an interface with their prefix lengths. The netlink library and the kernel behind it
  are not part of the repository: \<open>netlink\<close> holds the calls the code makes, each with its effect on the
  interface.
\<close>

type_synonym iface = "(netIP \<times> nat) list"

record netlink =
  nl_InterfaceByName :: "unit res"
  nl_Addrs :: "iface \<Rightarrow> netIP list res"
  nl_Dial :: "unit res"
  nl_AddrAdd :: "netIP \<Rightarrow> nat \<Rightarrow> iface \<Rightarrow> iface res"
  nl_AddrDel :: "netIP \<Rightarrow> nat \<Rightarrow> iface \<Rightarrow> iface res"

definition ipv4Mask :: nat where [simp]: "ipv4Mask = 32"
definition ipv6Mask :: nat where [simp]: "ipv6Mask = 64"

definition checkIP :: "netlink \<Rightarrow> netIP \<Rightarrow> iface \<Rightarrow> bool res" where
  "checkIP nl addr iface = bind_res (nl_Addrs nl iface) (\<lambda>ips. Ok (list_ex (\<lambda>ip. IP_Equal ip addr) ips))"

definition mask_bits :: "netIP \<Rightarrow> nat" where
  "mask_bits addr = (case To4 addr of None \<Rightarrow> ipv6Mask | Some _ \<Rightarrow> ipv4Mask)"

definition addIfaceIP :: "netlink \<Rightarrow> netIP \<Rightarrow> iface \<Rightarrow> iface res" where
  "addIfaceIP nl addr iface =
     bind_res (checkIP nl addr iface) (\<lambda>assigned.
     if assigned then Ok iface
     else case nl_Dial nl of
         Inl _ \<Rightarrow> Err ''can't establish netlink connection''
       | Inr _ \<Rightarrow>
           (case nl_AddrAdd nl addr (mask_bits addr) iface of
              Inl _ \<Rightarrow> Err ''can't add address''
            | Inr iface' \<Rightarrow> Ok iface'))"

definition deleteIfaceIP :: "netlink \<Rightarrow> netIP \<Rightarrow> iface \<Rightarrow> iface res" where
  "deleteIfaceIP nl addr iface =
     bind_res (checkIP nl addr iface) (\<lambda>assigned.
     if \<not> assigned then Ok iface
     else case nl_Dial nl of
         Inl _ \<Rightarrow> Err ''can't establish netlink connection''
       | Inr _ \<Rightarrow>
           (case nl_AddrDel nl addr (mask_bits addr) iface of
              Inl _ \<Rightarrow> Err ''can't remove address''
            | Inr iface' \<Rightarrow> Ok iface'))"

definition addIPToInterface :: "netlink \<Rightarrow> netIP \<Rightarrow> iface \<Rightarrow> iface res" where
  "addIPToInterface nl vip iface =
     (case nl_InterfaceByName nl of
        Inl _ \<Rightarrow> Err ''failed to add IP to the %s interface: %v''
      | Inr _ \<Rightarrow> addIfaceIP nl vip iface)"

definition deleteIPFromInterface :: "netlink \<Rightarrow> netIP \<Rightarrow> iface \<Rightarrow> iface res" where
  "deleteIPFromInterface nl vip iface = bind_res (nl_InterfaceByName nl) (\<lambda>_. deleteIfaceIP nl vip iface)"

text \<open>An error is logged and leaves the interface as it was.\<close>

definition res_or :: "'a \<Rightarrow> 'a res \<Rightarrow> 'a" where
  "res_or d r = (case r of Inl _ \<Rightarrow> d | Inr x \<Rightarrow> x)"

definition DeleteAllIPs :: "netlink \<Rightarrow> netIP list \<Rightarrow> iface \<Rightarrow> iface" where
  "DeleteAllIPs nl ips iface = fold (\<lambda>vip iface. res_or iface (deleteIPFromInterface nl vip iface)) ips iface"

section \<open>Configured addresses\<close>

definition DefaultServerIPs :: "netIP list" where
  "DefaultServerIPs = [v4InV6Prefix @ [127, 0, 0, 1], replicate 15 0 @ [1]]"

definition MultiIPs_Set :: "(string \<Rightarrow> netIP option) \<Rightarrow> string \<Rightarrow> netIP list \<Rightarrow> netIP list res" where
  "MultiIPs_Set parseIP ipaddr m =
     (case parseIP ipaddr of None \<Rightarrow> Err ''invalid ip address %s'' | Some ip \<Rightarrow> Ok (m @ [ip]))"

definition MultiIPs_SetDefault :: "netIP list \<Rightarrow> netIP list" where
  "MultiIPs_SetDefault m = (if m \<noteq> [] then m else DefaultServerIPs)"

section \<open>The server\<close>

record 'addr task =
  tk_addr :: 'addr
  tk_received :: gotime
  tk_request :: NTPPacket

text \<open>A worker: its response buffer, reused for every task, and the task it took from the channel.\<close>

record 'addr worker =
  wk_response :: NTPPacket
  wk_task :: "'addr task option"

text \<open>
  \<open>rp_pending\<close> are the addresses whose listener goroutine has not run yet, \<open>rp_listening\<close> those with a
  listener, \<open>rp_blocked\<close> the tasks listeners are about to put into the channel \<open>rp_tasks\<close>; \<open>rp_sent\<close> are
  the datagrams written and \<open>rp_received\<close> all requests read so far, in order. \<open>rp_cancelled\<close> is the
  context, \<open>rp_exited\<close> the end of the process.
\<close>

record 'addr Responder =
  rp_Workers :: nat
  rp_IPs :: "netIP list"
  rp_ShouldAnnounce :: bool
  rp_ExtraOffset :: duration
  rp_RefID :: string
  rp_Stratum :: int
  rp_Stats :: ResponderStats
  rp_Checker :: SimpleChecker
  rp_iface :: iface
  rp_pending :: "netIP list"
  rp_listening :: "netIP list"
  rp_workers :: "'addr worker list"
  rp_blocked :: "'addr task list"
  rp_tasks :: "'addr task list"
  rp_sent :: "(bytes \<times> 'addr) list"
  rp_received :: "'addr task list"
  rp_cancelled :: bool
  rp_exited :: bool

text \<open>The flags as \<open>main\<close> checks and completes them, and the server before its goroutines run.\<close>

definition Responder_New :: "int \<Rightarrow> netIP list \<Rightarrow> bool \<Rightarrow> duration \<Rightarrow> string \<Rightarrow> int \<Rightarrow> iface \<Rightarrow> 'addr Responder res" where
  "Responder_New n ips ann extra refID stratum iface =
     (let ips = MultiIPs_SetDefault ips in
      if n < 1 then Err ''Will not start without workers''
      else Ok \<lparr>rp_Workers = nat n, rp_IPs = ips, rp_ShouldAnnounce = ann, rp_ExtraOffset = extra,
        rp_RefID = refID, rp_Stratum = stratum, rp_Stats = zero_stats,
        rp_Checker = \<lparr>ck_ExpectedListeners = word_of_nat (length ips), ck_realListeners = 0,
          ck_ExpectedWorkers = word_of_int n, ck_realWorkers = 0\<rparr>,
        rp_iface = iface, rp_pending = ips, rp_listening = [], rp_workers = [], rp_blocked = [],
        rp_tasks = [], rp_sent = [], rp_received = [], rp_cancelled = False, rp_exited = False\<rparr>)"

definition upd_rstats :: "(ResponderStats \<Rightarrow> ResponderStats) \<Rightarrow> 'addr Responder \<Rightarrow> 'addr Responder" where
  "upd_rstats f s = s\<lparr>rp_Stats := f (rp_Stats s)\<rparr>"

definition upd_checker :: "(SimpleChecker \<Rightarrow> SimpleChecker) \<Rightarrow> 'addr Responder \<Rightarrow> 'addr Responder" where
  "upd_checker f s = s\<lparr>rp_Checker := f (rp_Checker s)\<rparr>"

text \<open>\<open>serve\<close> on a task: the datagram to write, if any, the updated buffer and the statistics.\<close>

definition serve :: "gotime \<Rightarrow> bool \<Rightarrow> duration \<Rightarrow> 'addr task \<Rightarrow> NTPPacket \<Rightarrow> ResponderStats \<Rightarrow>
    (bytes \<times> 'addr) list \<times> NTPPacket \<times> ResponderStats" where
  "serve now ok extraoffset t response stats =
     (if ValidSettingsFormat (tk_request t) then
        let response = generateResponse (t_Add now extraoffset) (t_Add (tk_received t) extraoffset)
              (tk_request t) response
        in case NTPPacket_Bytes response of
             Inl _ \<Rightarrow> ([], response, stats)
           | Inr responseBytes \<Rightarrow>
               ((if ok then [(responseBytes, tk_addr t)] else []), response, IncResponses stats)
      else ([], response, IncInvalidFormat stats))"

definition startWorker :: "'addr Responder \<Rightarrow> 'addr Responder" where
  "startWorker s = upd_rstats IncWorkers (upd_checker ck_IncWorkers
     (s\<lparr>rp_workers := rp_workers s @
        [\<lparr>wk_response = fillStaticHeaders (rp_Stratum s) (rp_RefID s) zero_NTPPacket, wk_task = None\<rparr>]\<rparr>))"

text \<open>A listener up to its loop; a socket that cannot be opened or set up ends the process.\<close>

definition startListener :: "unit res \<Rightarrow> netIP \<Rightarrow> 'addr Responder \<Rightarrow> 'addr Responder" where
  "startListener listening ip s =
     (let s = upd_checker ck_IncListeners s in
      case listening of
        Inl _ \<Rightarrow> s\<lparr>rp_exited := True\<rparr>
      | Inr _ \<Rightarrow> s\<lparr>rp_listening := rp_listening s @ [ip]\<rparr>)"

definition listener_goroutine :: "netlink \<Rightarrow> unit res \<Rightarrow> nat \<Rightarrow> 'addr Responder \<Rightarrow> 'addr Responder" where
  "listener_goroutine nl listening i s =
     (let ip = rp_pending s ! i;
          s = upd_rstats IncListeners (s\<lparr>rp_pending := take i (rp_pending s) @ drop (Suc i) (rp_pending s)\<rparr>);
          s = s\<lparr>rp_iface := res_or (rp_iface s) (addIPToInterface nl ip (rp_iface s))\<rparr>
      in startListener listening ip s)"

text \<open>One iteration of a listener's loop.\<close>

definition listener_read :: "(bytes \<times> bytes \<times> 'addr) res \<Rightarrow> 'addr Responder \<Rightarrow> 'addr Responder" where
  "listener_read recv s =
     (case ReadPacketWithKernelTimestamp recv of
        Inl _ \<Rightarrow> upd_rstats IncReadError s
      | Inr (request, ts, returnaddr) \<Rightarrow>
          let t = \<lparr>tk_addr = returnaddr, tk_received = ts, tk_request = request\<rparr> in
          upd_rstats IncRequests (s\<lparr>rp_blocked := rp_blocked s @ [t], rp_received := rp_received s @ [t]\<rparr>))"

text \<open>The periodic check and the periodic announcement, with what \<open>Advertise\<close> returned.\<close>

definition check_tick :: "'addr Responder \<Rightarrow> 'addr Responder" where
  "check_tick s = (case Check (rp_Checker s) of Inl _ \<Rightarrow> s\<lparr>rp_cancelled := True\<rparr> | Inr _ \<Rightarrow> s)"

definition announce_tick :: "unit res \<Rightarrow> 'addr Responder \<Rightarrow> 'addr Responder" where
  "announce_tick advertised s =
     (if rp_ShouldAnnounce s then
        (case advertised of Inl _ \<Rightarrow> upd_rstats ResetAnnounce s | Inr _ \<Rightarrow> upd_rstats SetAnnounce s)
      else upd_rstats ResetAnnounce s)"

text \<open>\<open>Stop\<close> withdraws the announcement, whose error is only logged, and removes the addresses; \<open>main\<close> returns.\<close>

definition Responder_Stop :: "netlink \<Rightarrow> 'addr Responder \<Rightarrow> 'addr Responder" where
  "Responder_Stop nl s = s\<lparr>rp_iface := DeleteAllIPs nl (rp_IPs s) (rp_iface s), rp_exited := True\<rparr>"

text \<open>
  A listener that waits for room in the channel does not read, so a read needs a listener that does
  not wait.
\<close>

inductive responder_step :: "'addr Responder \<Rightarrow> 'addr Responder \<Rightarrow> bool" where
  start_worker: "\<not> rp_exited s \<Longrightarrow> length (rp_workers s) < rp_Workers s \<Longrightarrow> responder_step s (startWorker s)"
| start_listener: "\<not> rp_exited s \<Longrightarrow> i < length (rp_pending s) \<Longrightarrow>
    responder_step s (listener_goroutine nl listening i s)"
| read: "\<not> rp_exited s \<Longrightarrow> length (rp_blocked s) < length (rp_listening s) \<Longrightarrow>
    responder_step s (listener_read recv s)"
| enqueue: "\<not> rp_exited s \<Longrightarrow> i < length (rp_blocked s) \<Longrightarrow> length (rp_tasks s) < rp_Workers s \<Longrightarrow>
    responder_step s (s\<lparr>rp_tasks := rp_tasks s @ [rp_blocked s ! i],
      rp_blocked := take i (rp_blocked s) @ drop (Suc i) (rp_blocked s)\<rparr>)"
| dequeue: "\<not> rp_exited s \<Longrightarrow> i < length (rp_workers s) \<Longrightarrow> wk_task (rp_workers s ! i) = None \<Longrightarrow>
    rp_tasks s = t # ts \<Longrightarrow>
    responder_step s (s\<lparr>rp_tasks := ts,
      rp_workers := (rp_workers s)[i := (rp_workers s ! i)\<lparr>wk_task := Some t\<rparr>]\<rparr>)"
| serve_task: "\<not> rp_exited s \<Longrightarrow> i < length (rp_workers s) \<Longrightarrow> wk_task (rp_workers s ! i) = Some t \<Longrightarrow>
    serve now ok (rp_ExtraOffset s) t (wk_response (rp_workers s ! i)) (rp_Stats s) = (out, response, stats) \<Longrightarrow>
    responder_step s (s\<lparr>rp_sent := rp_sent s @ out, rp_Stats := stats,
      rp_workers := (rp_workers s)[i := \<lparr>wk_response = response, wk_task = None\<rparr>]\<rparr>)"
| check: "\<not> rp_exited s \<Longrightarrow> responder_step s (check_tick s)"
| announce: "\<not> rp_exited s \<Longrightarrow> responder_step s (announce_tick r s)"
| stop: "\<not> rp_exited s \<Longrightarrow> responder_step s (Responder_Stop nl s)"

inductive responder_reachable :: "'addr Responder \<Rightarrow> 'addr Responder \<Rightarrow> bool" for s0 where
  responder_start: "responder_reachable s0 s0"
| responder_next: "responder_reachable s0 s \<Longrightarrow> responder_step s s' \<Longrightarrow> responder_reachable s0 s'"

section \<open>Invariants\<close>

text \<open>The tasks in the hands of workers, and everything read but not yet served.\<close>

definition in_hand :: "'addr worker list \<Rightarrow> 'addr task multiset" where
  "in_hand ws = mset (List.map_filter wk_task ws)"

definition waiting :: "'addr Responder \<Rightarrow> 'addr task multiset" where
  "waiting s = mset (rp_blocked s) + mset (rp_tasks s) + in_hand (rp_workers s)"

lemmas stats_defs = IncInvalidFormat_def IncRequests_def IncResponses_def IncListeners_def IncWorkers_def
  IncReadError_def SetAnnounce_def ResetAnnounce_def zero_stats_def

lemmas checker_defs = ck_IncListeners_def ck_IncWorkers_def

lemmas responder_defs = startWorker_def startListener_def listener_goroutine_def listener_read_def
  check_tick_def announce_tick_def Responder_Stop_def upd_rstats_def upd_checker_def Let_def

lemma map_filter_append: "List.map_filter f (xs @ ys) = List.map_filter f xs @ List.map_filter f ys"
  by (simp add: List.map_filter_def)

definition task_of :: "'addr worker \<Rightarrow> 'addr task multiset" where
  "task_of w = (case wk_task w of None \<Rightarrow> {#} | Some t \<Rightarrow> {#t#})"

lemma in_hand_simps [simp]:
  "in_hand [] = {#}" "in_hand (w # ws) = task_of w + in_hand ws" "in_hand (us @ ws) = in_hand us + in_hand ws"
  by (simp_all add: in_hand_def task_of_def map_filter_append split: option.split)

lemma in_hand_update:
  assumes "i < length ws"
  shows "in_hand (ws[i := w]) + task_of (ws ! i) = in_hand ws + task_of w"
proof -
  have "in_hand ws = in_hand (take i ws @ ws ! i # drop (Suc i) ws)"
    by (subst id_take_nth_drop [OF assms]) simp
  then show ?thesis
    by (simp add: upd_conv_take_nth_drop [OF assms] ac_simps)
qed

lemma mset_remove_nth:
  assumes "i < length xs"
  shows "mset (take i xs @ drop (Suc i) xs) + {#xs ! i#} = mset xs"
proof -
  have "mset xs = mset (take i xs @ xs ! i # drop (Suc i) xs)"
    by (subst id_take_nth_drop [OF assms]) simp
  then show ?thesis by simp
qed

text \<open>
  What a step does to the work: it reads a request, serves one, or leaves the requests, the responses
  and their counters alone.
\<close>

definition work_counters :: "'addr Responder \<Rightarrow> u64 \<times> u64 \<times> u64" where
  "work_counters s = (st_requests (rp_Stats s), st_responses (rp_Stats s), st_invalidFormat (rp_Stats s))"

definition reads :: "'addr task \<Rightarrow> 'addr Responder \<Rightarrow> 'addr Responder \<Rightarrow> bool" where
  "reads t s s' \<longleftrightarrow> waiting s' = waiting s + {#t#} \<and> rp_received s' = rp_received s @ [t] \<and>
     rp_sent s' = rp_sent s \<and> rp_workers s' = rp_workers s \<and>
     (case work_counters s of (q, a, i) \<Rightarrow> work_counters s' = (q + 1, a, i))"

definition serves :: "'addr task \<Rightarrow> 'addr Responder \<Rightarrow> 'addr Responder \<Rightarrow> bool" where
  "serves t s s' \<longleftrightarrow> waiting s = waiting s' + {#t#} \<and> rp_received s' = rp_received s \<and>
     (\<exists>i now ok out response. i < length (rp_workers s) \<and>
        serve now ok (rp_ExtraOffset s) t (wk_response (rp_workers s ! i)) (rp_Stats s) = (out, response, rp_Stats s') \<and>
        rp_sent s' = rp_sent s @ out \<and>
        rp_workers s' = (rp_workers s)[i := \<lparr>wk_response = response, wk_task = None\<rparr>])"

definition idles :: "'addr Responder \<Rightarrow> 'addr Responder \<Rightarrow> bool" where
  "idles s s' \<longleftrightarrow> waiting s' = waiting s \<and> rp_received s' = rp_received s \<and> rp_sent s' = rp_sent s \<and>
     work_counters s' = work_counters s \<and>
     wk_response ` set (rp_workers s') \<subseteq>
       insert (fillStaticHeaders (rp_Stratum s) (rp_RefID s) zero_NTPPacket) (wk_response ` set (rp_workers s))"

lemma enqueue_idles:
  assumes "i < length (rp_blocked s)"
  shows "idles s (s\<lparr>rp_tasks := rp_tasks s @ [rp_blocked s ! i],
      rp_blocked := take i (rp_blocked s) @ drop (Suc i) (rp_blocked s)\<rparr>)"
  using mset_remove_nth [OF assms] by (auto simp: idles_def waiting_def work_counters_def)

lemma dequeue_idles:
  assumes i: "i < length (rp_workers s)" and "wk_task (rp_workers s ! i) = None" and "rp_tasks s = t # ts"
  shows "idles s (s\<lparr>rp_tasks := ts, rp_workers := (rp_workers s)[i := (rp_workers s ! i)\<lparr>wk_task := Some t\<rparr>]\<rparr>)"
proof -
  have "in_hand ((rp_workers s)[i := (rp_workers s ! i)\<lparr>wk_task := Some t\<rparr>]) = in_hand (rp_workers s) + {#t#}"
    using in_hand_update [OF i, of "(rp_workers s ! i)\<lparr>wk_task := Some t\<rparr>"] assms(2) by (simp add: task_of_def)
  moreover have "wk_response ` set ((rp_workers s)[i := (rp_workers s ! i)\<lparr>wk_task := Some t\<rparr>]) \<subseteq>
      wk_response ` set (rp_workers s)"
    using set_update_subset_insert [of "rp_workers s" i] i by fastforce
  ultimately show ?thesis
    using assms(3) by (auto simp: idles_def waiting_def work_counters_def)
qed

lemma serve_serves:
  assumes i: "i < length (rp_workers s)" and "wk_task (rp_workers s ! i) = Some t"
    and "serve now ok (rp_ExtraOffset s) t (wk_response (rp_workers s ! i)) (rp_Stats s) = (out, response, stats)"
  shows "serves t s (s\<lparr>rp_sent := rp_sent s @ out, rp_Stats := stats,
      rp_workers := (rp_workers s)[i := \<lparr>wk_response = response, wk_task = None\<rparr>]\<rparr>)"
proof -
  have "in_hand ((rp_workers s)[i := \<lparr>wk_response = response, wk_task = None\<rparr>]) + {#t#} = in_hand (rp_workers s)"
    using in_hand_update [OF i, of "\<lparr>wk_response = response, wk_task = None\<rparr>"] assms(2) by (simp add: task_of_def)
  then show ?thesis
    using assms by (auto simp: serves_def waiting_def)
qed

lemma responder_step_work:
  assumes "responder_step s s'"
  shows "(\<exists>t. reads t s s') \<or> (\<exists>t. serves t s s') \<or> idles s s'"
  using assms
proof cases
  case (read recv)
  show ?thesis
  proof (cases "ReadPacketWithKernelTimestamp recv")
    case (Inl e)
    then show ?thesis
      by (auto simp: read(1) idles_def waiting_def work_counters_def responder_defs stats_defs)
  next
    case (Inr r)
    obtain request ts addr where "r = (request, ts, addr)" by (cases r)
    with Inr have "reads \<lparr>tk_addr = addr, tk_received = ts, tk_request = request\<rparr> s s'"
      by (simp add: read(1) reads_def waiting_def work_counters_def responder_defs stats_defs ac_simps)
    then show ?thesis by blast
  qed
next
  case (enqueue i)
  then show ?thesis using enqueue_idles by blast
next
  case (dequeue i t ts)
  then show ?thesis using dequeue_idles by blast
next
  case (serve_task i t now ok out response stats)
  then show ?thesis using serve_serves by blast
qed (auto simp: idles_def waiting_def work_counters_def responder_defs stats_defs task_of_def split: sum.splits)

lemma responder_step_config:
  assumes "responder_step s s'"
  shows "rp_Workers s' = rp_Workers s \<and> rp_IPs s' = rp_IPs s \<and> rp_ExtraOffset s' = rp_ExtraOffset s \<and>
    rp_RefID s' = rp_RefID s \<and> rp_Stratum s' = rp_Stratum s"
  using assms by cases (auto simp: responder_defs split: sum.splits)

lemma serve_counters:
  assumes "serve now ok extra t response stats = (out, response', stats')"
  shows "st_requests stats' = st_requests stats \<and>
    st_responses stats' + st_invalidFormat stats' = st_responses stats + st_invalidFormat stats + 1"
  using assms by (auto simp: serve_def NTPPacket_Bytes_def stats_defs Let_def split: if_splits)

lemma serve_out:
  assumes "serve now ok extra t response stats = (out, response', stats')" and "(d, a) \<in> set out"
  shows "ValidSettingsFormat (tk_request t) \<and> a = tk_addr t \<and>
    d = binary_Write NTPPacket_codec (generateResponse (t_Add now extra) (t_Add (tk_received t) extra) (tk_request t) response)"
  using assms by (auto simp: serve_def NTPPacket_Bytes_def Let_def split: if_splits)

lemma serve_length:
  assumes "serve now ok extra t response stats = (out, response', stats')"
  shows "length out \<le> 1"
  using assms by (auto simp: serve_def NTPPacket_Bytes_def Let_def split: if_splits)

text \<open>The fields of a response buffer that a worker sets once.\<close>

definition static_headers :: "int \<Rightarrow> string \<Rightarrow> NTPPacket \<Rightarrow> bool" where
  "static_headers stratum refID r \<longleftrightarrow> fillStaticHeaders stratum refID r = r"

lemma static_headers_fill [simp]: "static_headers st rid (fillStaticHeaders st rid r)"
  by (simp add: static_headers_def fillStaticHeaders_def)

lemma static_headers_generate [simp]:
  "static_headers st rid r \<Longrightarrow> static_headers st rid (generateResponse now rcv q r)"
  by (cases r) (simp add: static_headers_def fillStaticHeaders_def generateResponse_def Let_def split: prod.split)

lemma static_headers_serve:
  assumes "serve now ok extra t response stats = (out, response', stats')" and "static_headers st rid response"
  shows "static_headers st rid response'"
  using assms by (auto simp: serve_def NTPPacket_Bytes_def Let_def split: if_splits)

text \<open>The dynamic fields are all written, so nothing of an earlier response remains in the buffer.\<close>

lemma generateResponse_static:
  "static_headers st rid r \<Longrightarrow>
   generateResponse now rcv q r = generateResponse now rcv q (fillStaticHeaders st rid zero_NTPPacket)"
  by (cases r) (auto simp: static_headers_def fillStaticHeaders_def generateResponse_def Let_def
      zero_NTPPacket_def split: prod.split)

definition answer_to :: "int \<Rightarrow> string \<Rightarrow> duration \<Rightarrow> gotime \<Rightarrow> 'addr task \<Rightarrow> bytes" where
  "answer_to stratum refID extra now t = binary_Write NTPPacket_codec
     (generateResponse (t_Add now extra) (t_Add (tk_received t) extra) (tk_request t)
        (fillStaticHeaders stratum refID zero_NTPPacket))"

lemma responder_reachable_config:
  "responder_reachable s0 s \<Longrightarrow> rp_Workers s = rp_Workers s0 \<and> rp_IPs s = rp_IPs s0 \<and>
    rp_ExtraOffset s = rp_ExtraOffset s0 \<and> rp_RefID s = rp_RefID s0 \<and> rp_Stratum s = rp_Stratum s0"
  by (induction rule: responder_reachable.induct) (auto dest: responder_step_config)

definition buffers_ok :: "'addr Responder \<Rightarrow> bool" where
  "buffers_ok s \<longleftrightarrow> (\<forall>w \<in> set (rp_workers s). static_headers (rp_Stratum s) (rp_RefID s) (wk_response w))"

lemma buffers_ok_step:
  assumes "responder_step s s'" and "buffers_ok s"
  shows "buffers_ok s'"
proof -
  have c: "rp_Stratum s' = rp_Stratum s" "rp_RefID s' = rp_RefID s"
    using responder_step_config [OF assms(1)] by simp_all
  from responder_step_work [OF assms(1)] consider t where "reads t s s'" | t where "serves t s s'" | "idles s s'"
    by blast
  then show ?thesis
  proof cases
    case 1
    then show ?thesis using assms(2) c by (simp add: reads_def buffers_ok_def)
  next
    case 2
    then obtain i now ok out response where i: "i < length (rp_workers s)"
      and sv: "serve now ok (rp_ExtraOffset s) t (wk_response (rp_workers s ! i)) (rp_Stats s) = (out, response, rp_Stats s')"
      and w: "rp_workers s' = (rp_workers s)[i := \<lparr>wk_response = response, wk_task = None\<rparr>]"
      by (auto simp: serves_def)
    have "static_headers (rp_Stratum s) (rp_RefID s) response"
      using static_headers_serve [OF sv] assms(2) i by (auto simp: buffers_ok_def)
    with assms(2) c show ?thesis
      by (auto simp: w buffers_ok_def dest!: set_update_subset_insert [THEN subsetD])
  next
    case 3
    then show ?thesis using assms(2) c static_headers_fill by (fastforce simp: idles_def buffers_ok_def)
  qed
qed

text \<open>The work invariant: every datagram answers a request, and the work_counters agree with the work.\<close>

definition work_inv :: "'addr Responder \<Rightarrow> bool" where
  "work_inv s \<longleftrightarrow>
     set_mset (waiting s) \<subseteq> set (rp_received s) \<and>
     length (rp_sent s) + size (waiting s) \<le> length (rp_received s) \<and>
     st_requests (rp_Stats s) =
       st_responses (rp_Stats s) + st_invalidFormat (rp_Stats s) + word_of_nat (size (waiting s)) \<and>
     (\<forall>(d, a) \<in> set (rp_sent s). \<exists>t now. t \<in> set (rp_received s) \<and> tk_addr t = a \<and>
        ValidSettingsFormat (tk_request t) \<and> d = answer_to (rp_Stratum s) (rp_RefID s) (rp_ExtraOffset s) now t)"

lemma work_inv_step:
  assumes "responder_step s s'" and "buffers_ok s" and inv: "work_inv s"
  shows "work_inv s'"
proof -
  have c: "rp_Stratum s' = rp_Stratum s" "rp_RefID s' = rp_RefID s" "rp_ExtraOffset s' = rp_ExtraOffset s"
    using responder_step_config [OF assms(1)] by simp_all
  from responder_step_work [OF assms(1)] consider t where "reads t s s'" | t where "serves t s s'" | "idles s s'"
    by blast
  then show ?thesis
  proof cases
    case 1
    with inv c show ?thesis
      by (fastforce simp: reads_def work_inv_def work_counters_def)
  next
    case 2
    then obtain i now ok out response where i: "i < length (rp_workers s)"
      and sv: "serve now ok (rp_ExtraOffset s) t (wk_response (rp_workers s ! i)) (rp_Stats s) = (out, response, rp_Stats s')"
      and o: "rp_sent s' = rp_sent s @ out" and r: "rp_received s' = rp_received s"
      and w: "waiting s = waiting s' + {#t#}"
      by (auto simp: serves_def)
    have st: "static_headers (rp_Stratum s) (rp_RefID s) (wk_response (rp_workers s ! i))"
      using assms(2) i by (simp add: buffers_ok_def)
    have t: "t \<in> set (rp_received s)" using inv w by (auto simp: work_inv_def)
    have "\<exists>t now. t \<in> set (rp_received s) \<and> tk_addr t = a \<and> ValidSettingsFormat (tk_request t) \<and>
        d = answer_to (rp_Stratum s) (rp_RefID s) (rp_ExtraOffset s) now t" if "(d, a) \<in> set out" for d a
      using serve_out [OF sv that] t generateResponse_static [OF st] by (auto simp: answer_to_def)
    with inv c serve_counters [OF sv] serve_length [OF sv] show ?thesis
      by (auto simp: work_inv_def o r w)
  next
    case 3
    with inv c show ?thesis by (simp add: idles_def work_inv_def work_counters_def)
  qed
qed

lemma responder_invs:
  assumes "responder_reachable s0 s" and "buffers_ok s0" and "work_inv s0"
  shows "buffers_ok s \<and> work_inv s"
  using assms by (induction rule: responder_reachable.induct) (auto intro: buffers_ok_step work_inv_step)

text \<open>The goroutine invariant: what was started, what the checker counts, and how much work may wait.\<close>

definition goroutines_inv :: "'addr Responder \<Rightarrow> bool" where
  "goroutines_inv s \<longleftrightarrow>
     length (rp_workers s) \<le> rp_Workers s \<and> length (rp_tasks s) \<le> rp_Workers s \<and>
     length (rp_blocked s) \<le> length (rp_listening s) \<and>
     mset (rp_pending s) + mset (rp_listening s) \<subseteq># mset (rp_IPs s) \<and>
     (\<not> rp_exited s \<longrightarrow> mset (rp_pending s) + mset (rp_listening s) = mset (rp_IPs s)) \<and>
     ck_ExpectedWorkers (rp_Checker s) = word_of_nat (rp_Workers s) \<and>
     ck_ExpectedListeners (rp_Checker s) = word_of_nat (length (rp_IPs s)) \<and>
     ck_realWorkers (rp_Checker s) = word_of_nat (length (rp_workers s)) \<and>
     (\<not> rp_exited s \<longrightarrow> ck_realListeners (rp_Checker s) = word_of_nat (length (rp_listening s)))"

lemma goroutines_inv_listener:
  assumes inv: "goroutines_inv s" and "\<not> rp_exited s" and i: "i < length (rp_pending s)"
  shows "goroutines_inv (listener_goroutine nl listening i s)"
proof -
  let ?rest = "mset (take i (rp_pending s)) + mset (drop (Suc i) (rp_pending s))"
  have ips: "mset (rp_IPs s) = ?rest + mset (rp_listening s) + {#rp_pending s ! i#}"
    using mset_remove_nth [OF i] inv assms(2) by (simp add: goroutines_inv_def ac_simps)
  then have "?rest + mset (rp_listening s) \<subseteq># mset (rp_IPs s)" by simp
  with ips show ?thesis
    using inv assms(2) by (cases listening) (simp_all add: goroutines_inv_def responder_defs checker_defs)
qed

lemma goroutines_inv_step:
  assumes "responder_step s s'" and inv: "goroutines_inv s"
  shows "goroutines_inv s'"
  using assms(1)
proof cases
  case (start_listener i nl listening)
  then show ?thesis using goroutines_inv_listener [OF inv] by simp
next
  case (read recv)
  with inv show ?thesis
    by (auto simp: goroutines_inv_def responder_defs split: sum.splits prod.splits)
qed (use inv in \<open>auto simp: goroutines_inv_def responder_defs checker_defs split: sum.splits\<close>)

lemma goroutines_inv_reachable:
  "responder_reachable s0 s \<Longrightarrow> goroutines_inv s0 \<Longrightarrow> goroutines_inv s"
  by (induction rule: responder_reachable.induct) (auto intro: goroutines_inv_step)

lemma Responder_New_invs:
  assumes "Responder_New n ips ann extra refID stratum iface = Ok s0"
  shows "buffers_ok s0 \<and> work_inv s0 \<and> goroutines_inv s0 \<and> rp_Workers s0 = nat n \<and> 1 \<le> n \<and>
    rp_IPs s0 = MultiIPs_SetDefault ips \<and> rp_ExtraOffset s0 = extra \<and> rp_RefID s0 = refID \<and> rp_Stratum s0 = stratum"
  using assms by (auto simp: Responder_New_def buffers_ok_def work_inv_def goroutines_inv_def waiting_def
      zero_stats_def Let_def split: if_splits)

lemma size_in_hand_le: "size (in_hand ws) \<le> length ws"
  by (induction ws) (auto simp: task_of_def split: option.splits)

section \<open>Properties\<close>

lemma generateResponse_fields:
  "generateResponse now rcv q r = x \<Longrightarrow>
    np_Settings x = (np_Settings q AND 0x38) + 4 \<and> np_OrigTimeSec x = np_TxTimeSec q \<and>
    np_OrigTimeFrac x = np_TxTimeFrac q \<and> (np_RxTimeSec x, np_RxTimeFrac x) = NTP_Time rcv \<and>
    (np_TxTimeSec x, np_TxTimeFrac x) = NTP_Time now"
  by (auto simp: generateResponse_def Let_def split: prod.splits)

definition answer_fields :: "duration \<Rightarrow> int \<Rightarrow> gotime \<Rightarrow> 'addr task \<Rightarrow> NTPPacket \<Rightarrow> bool" where
  "answer_fields extra stratum now t x \<longleftrightarrow>
     np_Settings x = (np_Settings (tk_request t) AND 0x38) + 4 \<and>
     np_OrigTimeSec x = np_TxTimeSec (tk_request t) \<and> np_OrigTimeFrac x = np_TxTimeFrac (tk_request t) \<and>
     (np_RxTimeSec x, np_RxTimeFrac x) = NTP_Time (t_Add (tk_received t) extra) \<and>
     (np_TxTimeSec x, np_TxTimeFrac x) = NTP_Time (t_Add now extra) \<and>
     np_Stratum x = word_of_int stratum"

lemma answer_to_fields:
  "\<exists>x. length (answer_to stratum refID extra now t) = 48 \<and>
    BytesToPacket (answer_to stratum refID extra now t) = Ok x \<and> answer_fields extra stratum now t x"
proof -
  let ?x = "generateResponse (t_Add now extra) (t_Add (tk_received t) extra) (tk_request t)
        (fillStaticHeaders stratum refID zero_NTPPacket)"
  have "BytesToPacket (answer_to stratum refID extra now t) = Ok ?x"
    using ntp_packet.read_write [of ?x "[]"] by (simp add: BytesToPacket_def answer_to_def)
  moreover have "answer_fields extra stratum now t ?x"
    using generateResponse_fields [OF refl, of "t_Add now extra" "t_Add (tk_received t) extra" "tk_request t"
      "fillStaticHeaders stratum refID zero_NTPPacket"]
    by (simp add: answer_fields_def) (simp add: generateResponse_def fillStaticHeaders_def Let_def split: prod.split)
  ultimately show ?thesis
    using ntp_packet.length_write [of ?x] by (simp add: answer_to_def)
qed

text \<open>
  C10: Whatever interleaving of listeners, workers and timers, every datagram the responder sends goes to
  an address a valid client request came from, is 48 bytes long, and decodes to a packet in server mode with the
  request's version, its transmit time as originate time, the kernel's receive time and the time of
  the answer shifted by the configured offset, and the stratum the server was started with; and there are never
  more datagrams sent than requests received.
\<close>
theorem responder_answers:
  fixes s0 s :: "'addr Responder"
  assumes "Responder_New n ips ann extra refID stratum iface = Ok s0" and "responder_reachable s0 s"
  shows "length (rp_sent s) \<le> length (rp_received s) \<and>
    (\<forall>(d, a) \<in> set (rp_sent s). \<exists>t now x. t \<in> set (rp_received s) \<and> tk_addr t = a \<and>
       ValidSettingsFormat (tk_request t) \<and> length d = 48 \<and> BytesToPacket d = Ok x \<and>
       np_Settings x = (np_Settings (tk_request t) AND 0x38) + 4 \<and>
       np_OrigTimeSec x = np_TxTimeSec (tk_request t) \<and> np_OrigTimeFrac x = np_TxTimeFrac (tk_request t) \<and>
       (np_RxTimeSec x, np_RxTimeFrac x) = NTP_Time (t_Add (tk_received t) extra) \<and>
       (np_TxTimeSec x, np_TxTimeFrac x) = NTP_Time (t_Add now extra) \<and>
       np_Stratum x = word_of_int stratum)"
proof -
  have "buffers_ok s0" "work_inv s0" and c0: "rp_ExtraOffset s0 = extra" "rp_RefID s0 = refID" "rp_Stratum s0 = stratum"
    using Responder_New_invs [OF assms(1)] by simp_all
  then have inv: "work_inv s" using responder_invs [OF assms(2)] by simp
  have c: "rp_ExtraOffset s = extra" "rp_RefID s = refID" "rp_Stratum s = stratum"
    using responder_reachable_config [OF assms(2)] c0 by simp_all
  have "\<exists>x. length d = 48 \<and> BytesToPacket d = Ok x \<and> answer_fields extra stratum now t x"
    if "d = answer_to stratum refID extra now t" for d now and t :: "'addr task"
    using that answer_to_fields by blast
  then show ?thesis
    using inv unfolding work_inv_def c answer_fields_def by fastforce
qed

text \<open>
  C12: No request is lost or counted twice: in every reachable state the requests counted are the
  responses, the rejected requests and the tasks still waiting, in the counters' 64-bit arithmetic; and no more work waits
  than one task per listener, a full channel and one task per worker.
\<close>
theorem responder_conservation:
  assumes "Responder_New n ips ann extra refID stratum iface = Ok s0" and "responder_reachable s0 s"
  shows "st_requests (rp_Stats s) =
      st_responses (rp_Stats s) + st_invalidFormat (rp_Stats s) + word_of_nat (size (waiting s)) \<and>
    size (waiting s) \<le> length (MultiIPs_SetDefault ips) + 2 * nat n"
proof -
  have i0: "buffers_ok s0" "work_inv s0" "goroutines_inv s0" and c0: "rp_Workers s0 = nat n" "rp_IPs s0 = MultiIPs_SetDefault ips"
    using Responder_New_invs [OF assms(1)] by simp_all
  have "rp_Workers s = nat n" "rp_IPs s = MultiIPs_SetDefault ips"
    using responder_reachable_config [OF assms(2)] c0 by simp_all
  moreover have g: "goroutines_inv s" using goroutines_inv_reachable [OF assms(2) i0(3)] .
  moreover from g have "size (mset (rp_pending s) + mset (rp_listening s)) \<le> size (mset (rp_IPs s))"
    by (intro size_mset_mono) (simp add: goroutines_inv_def)
  moreover have "work_inv s" using responder_invs [OF assms(2) i0(1,2)] by simp
  ultimately show ?thesis
    using size_in_hand_le [of "rp_workers s"] by (simp add: work_inv_def waiting_def goroutines_inv_def)
qed

text \<open>
  While the process runs, the health check passes exactly when every worker and every listener has come
  up, so it never cancels a server that is complete.
\<close>
theorem responder_check:
  assumes "Responder_New n ips ann extra refID stratum iface = Ok s0" and "responder_reachable s0 s"
    and "n < 2 ^ 63" and "length ips < 2 ^ 63" and "\<not> rp_exited s"
  shows "Check (rp_Checker s) = Ok () \<longleftrightarrow> length (rp_workers s) = nat n \<and> rp_pending s = []"
proof -
  let ?ips = "MultiIPs_SetDefault ips"
  have g0: "goroutines_inv s0" and c0: "rp_Workers s0 = nat n" "rp_IPs s0 = ?ips"
    using Responder_New_invs [OF assms(1)] by simp_all
  have c: "rp_Workers s = nat n" "rp_IPs s = ?ips"
    using responder_reachable_config [OF assms(2)] c0 by simp_all
  have g: "goroutines_inv s" using goroutines_inv_reachable [OF assms(2) g0] .
  then have "size (mset (rp_pending s) + mset (rp_listening s)) = size (mset ?ips)"
    using assms(5) c by (simp add: goroutines_inv_def)
  then have l: "length (rp_pending s) + length (rp_listening s) = length ?ips" by simp
  have b: "length ?ips < 2 ^ 63" using assms(4) by (simp add: MultiIPs_SetDefault_def DefaultServerIPs_def)
  have "(word_of_nat (length ?ips) :: u64) = word_of_nat (length (rp_listening s)) \<longleftrightarrow> rp_pending s = []"
    using l b by (auto simp: word_of_nat_eq_iff take_bit_nat_eq_self)
  moreover have "(word_of_nat (nat n) :: u64) = word_of_nat (length (rp_workers s)) \<longleftrightarrow> length (rp_workers s) = nat n"
    using g c assms(3) by (auto simp: word_of_nat_eq_iff take_bit_nat_eq_self goroutines_inv_def)
  ultimately show ?thesis
    using g assms(5) c
    by (auto simp: Check_def checkListeners_def checkWorkers_def goroutines_inv_def split: if_splits)
qed

section \<open>Refinement of a bag of requests\<close>

text \<open>
  What a client may rely on: the service is a bag of requests, from which it takes requests in any order and
  answers the valid ones, each with a response of its own; an answer may be lost on the way, an invalid request is
  dropped. Nothing of workers, channels and buffers is left.
\<close>

record 'addr bag =
  bg_waiting :: "'addr task multiset"
  bg_sent :: "(bytes \<times> 'addr) list"

inductive bag_step :: "(gotime \<Rightarrow> 'addr task \<Rightarrow> bytes) \<Rightarrow> 'addr bag \<Rightarrow> 'addr bag \<Rightarrow> bool" for answer where
  bag_request: "bag_step answer b (b\<lparr>bg_waiting := bg_waiting b + {#t#}\<rparr>)"
| bag_answer: "t \<in># bg_waiting b \<Longrightarrow> ValidSettingsFormat (tk_request t) \<Longrightarrow>
    bag_step answer b \<lparr>bg_waiting = bg_waiting b - {#t#}, bg_sent = bg_sent b @ [(answer now t, tk_addr t)]\<rparr>"
| bag_drop: "t \<in># bg_waiting b \<Longrightarrow> bag_step answer b (b\<lparr>bg_waiting := bg_waiting b - {#t#}\<rparr>)"

definition bag_of :: "'addr Responder \<Rightarrow> 'addr bag" where
  "bag_of s = \<lparr>bg_waiting = waiting s, bg_sent = rp_sent s\<rparr>"

definition answer_of :: "'addr Responder \<Rightarrow> gotime \<Rightarrow> 'addr task \<Rightarrow> bytes" where
  "answer_of s = answer_to (rp_Stratum s) (rp_RefID s) (rp_ExtraOffset s)"

lemma serves_bag_step:
  assumes "serves t s s'" and "buffers_ok s"
  shows "bag_step (answer_of s) (bag_of s) (bag_of s')"
proof -
  obtain i now ok out response where i: "i < length (rp_workers s)"
    and sv: "serve now ok (rp_ExtraOffset s) t (wk_response (rp_workers s ! i)) (rp_Stats s) = (out, response, rp_Stats s')"
    and o: "rp_sent s' = rp_sent s @ out" and w: "waiting s = waiting s' + {#t#}"
    using assms(1) by (auto simp: serves_def)
  have st: "static_headers (rp_Stratum s) (rp_RefID s) (wk_response (rp_workers s ! i))"
    using assms(2) i by (simp add: buffers_ok_def)
  have t: "t \<in># bg_waiting (bag_of s)" and w': "waiting s' = bg_waiting (bag_of s) - {#t#}"
    by (simp_all add: bag_of_def w)
  show ?thesis
  proof (cases out)
    case Nil
    then have "bag_of s' = (bag_of s)\<lparr>bg_waiting := bg_waiting (bag_of s) - {#t#}\<rparr>" by (simp add: bag_of_def o w)
    then show ?thesis using bag_drop [OF t] by simp
  next
    case (Cons x xs)
    then have "ValidSettingsFormat (tk_request t)" "out = [(answer_of s now t, tk_addr t)]"
      using serve_out [OF sv, of "fst x" "snd x"] serve_length [OF sv] generateResponse_static [OF st]
      by (auto simp: answer_of_def answer_to_def prod_eq_iff)
    then show ?thesis using bag_answer [OF t] by (simp add: bag_of_def o w)
  qed
qed

lemma responder_step_bag:
  assumes "responder_step s s'" and "buffers_ok s"
  shows "(bag_step (answer_of s))\<^sup>*\<^sup>* (bag_of s) (bag_of s') \<and> answer_of s' = answer_of s"
proof -
  from responder_step_work [OF assms(1)] consider t where "reads t s s'" | t where "serves t s s'" | "idles s s'"
    by blast
  then have "bag_of s' = bag_of s \<or> bag_step (answer_of s) (bag_of s) (bag_of s')"
  proof cases
    case 1
    then have "bag_of s' = (bag_of s)\<lparr>bg_waiting := bg_waiting (bag_of s) + {#t#}\<rparr>" by (simp add: bag_of_def reads_def)
    then show ?thesis using bag_request by metis
  next
    case 2
    then show ?thesis using serves_bag_step assms(2) by blast
  next
    case 3
    then show ?thesis by (simp add: bag_of_def idles_def)
  qed
  then show ?thesis using responder_step_config [OF assms(1)] by (auto simp: answer_of_def)
qed

lemma responder_refines_from:
  assumes "responder_reachable s0 s" and "buffers_ok s0"
  shows "(bag_step (answer_of s0))\<^sup>*\<^sup>* (bag_of s0) (bag_of s) \<and> buffers_ok s \<and> answer_of s = answer_of s0"
  using assms
proof (induction rule: responder_reachable.induct)
  case responder_start
  then show ?case by simp
next
  case (responder_next s s')
  then show ?case using responder_step_bag [of s s'] buffers_ok_step [of s s'] by (metis rtranclp_trans)
qed

text \<open>
  C11: The responder with its listeners, workers, channel and reused buffers refines the bag of requests: every run
  is a run of the bag, in which each answer is the response to its own request, computed as by a fresh buffer.
\<close>
theorem responder_refines_bag:
  assumes "Responder_New n ips ann extra refID stratum iface = Ok s0" and "responder_reachable s0 s"
  shows "(bag_step (answer_to stratum refID extra))\<^sup>*\<^sup>* \<lparr>bg_waiting = {#}, bg_sent = []\<rparr> (bag_of s)"
proof -
  have "buffers_ok s0" "answer_of s0 = answer_to stratum refID extra"
    using Responder_New_invs [OF assms(1)] by (simp_all add: answer_of_def)
  moreover have "bag_of s0 = \<lparr>bg_waiting = {#}, bg_sent = []\<rparr>"
    using assms(1) by (auto simp: Responder_New_def bag_of_def waiting_def Let_def split: if_splits)
  ultimately show ?thesis using responder_refines_from [OF assms(2)] by simp
qed

section \<open>Draining the queue\<close>

definition work_left :: "'addr Responder \<Rightarrow> nat" where
  "work_left s = 3 * length (rp_blocked s) + 2 * length (rp_tasks s) + size (in_hand (rp_workers s))"

lemma in_hand_size_update:
  "i < length ws \<Longrightarrow> size (in_hand (ws[i := w])) + size (task_of (ws ! i)) = size (in_hand ws) + size (task_of w)"
  using arg_cong [OF in_hand_update, of i ws size w] by simp

definition runnable :: "'addr Responder \<Rightarrow> bool" where
  "runnable s \<longleftrightarrow> \<not> rp_exited s \<and> rp_workers s \<noteq> [] \<and> length (rp_workers s) \<le> rp_Workers s"

definition progresses :: "'addr Responder \<Rightarrow> 'addr Responder \<Rightarrow> bool" where
  "progresses s s' \<longleftrightarrow> responder_step s s' \<and> runnable s' \<and> rp_received s' = rp_received s \<and> work_left s' < work_left s"

lemma serve_progresses:
  assumes "runnable s" and i: "i < length (rp_workers s)" and t: "wk_task (rp_workers s ! i) = Some t"
  shows "\<exists>s'. progresses s s'"
proof -
  obtain out response stats where sv:
    "serve 0 True (rp_ExtraOffset s) t (wk_response (rp_workers s ! i)) (rp_Stats s) = (out, response, stats)"
    by (cases "serve 0 True (rp_ExtraOffset s) t (wk_response (rp_workers s ! i)) (rp_Stats s)")
  have "size (task_of (rp_workers s ! i)) = 1" using t by (simp add: task_of_def)
  then have "Suc (size (in_hand ((rp_workers s)[i := \<lparr>wk_response = response, wk_task = None\<rparr>]))) =
      size (in_hand (rp_workers s))"
    using in_hand_size_update [OF i, of "\<lparr>wk_response = response, wk_task = None\<rparr>"] by (simp add: task_of_def)
  with assms(1) show ?thesis
    using responder_step.serve_task [OF _ i t sv] by (fastforce simp: progresses_def runnable_def work_left_def)
qed

lemma dequeue_progresses:
  assumes "runnable s" and i: "i < length (rp_workers s)" and w: "wk_task (rp_workers s ! i) = None"
    and t: "rp_tasks s = t # ts"
  shows "\<exists>s'. progresses s s'"
proof -
  have "size (in_hand ((rp_workers s)[i := (rp_workers s ! i)\<lparr>wk_task := Some t\<rparr>])) = Suc (size (in_hand (rp_workers s)))"
    using in_hand_size_update [OF i, of "(rp_workers s ! i)\<lparr>wk_task := Some t\<rparr>"] w by (simp add: task_of_def)
  with assms(1) show ?thesis
    using responder_step.dequeue [OF _ i w t] t by (fastforce simp: progresses_def runnable_def work_left_def)
qed

lemma work_progresses:
  assumes r: "runnable s" and "waiting s \<noteq> {#}"
  shows "\<exists>s'. progresses s s'"
proof (cases "\<exists>i < length (rp_workers s). wk_task (rp_workers s ! i) \<noteq> None")
  case True
  then show ?thesis using serve_progresses [OF r] by auto
next
  case False
  then have idle: "wk_task (rp_workers s ! 0) = None" and h: "in_hand (rp_workers s) = {#}"
    using r by (auto simp: runnable_def in_hand_def List.map_filter_def filter_empty_conv in_set_conv_nth)
  show ?thesis
  proof (cases "rp_tasks s")
    case Nil
    then have b: "0 < length (rp_blocked s)" using assms(2) h by (simp add: waiting_def)
    let ?s' = "s\<lparr>rp_tasks := rp_tasks s @ [rp_blocked s ! 0],
        rp_blocked := take 0 (rp_blocked s) @ drop (Suc 0) (rp_blocked s)\<rparr>"
    have "length (rp_tasks s) < rp_Workers s" using Nil r by (cases "rp_workers s") (auto simp: runnable_def)
    then have "responder_step s ?s'"
      using responder_step.enqueue [OF _ b] r by (simp add: runnable_def)
    then have "progresses s ?s'"
      using r b by (cases "rp_blocked s") (simp_all add: progresses_def runnable_def work_left_def)
    then show ?thesis by blast
  next
    case (Cons t ts)
    then show ?thesis using dequeue_progresses [OF r _ idle] r by (simp add: runnable_def)
  qed
qed

lemma responder_drains:
  assumes "responder_reachable s0 s" and "runnable s"
  shows "\<exists>s'. responder_reachable s0 s' \<and> runnable s' \<and> rp_received s' = rp_received s \<and> waiting s' = {#}"
  using assms
proof (induction "work_left s" arbitrary: s rule: less_induct)
  case less
  show ?case
  proof (cases "waiting s = {#}")
    case True
    with less.prems show ?thesis by blast
  next
    case False
    then obtain s' where s': "progresses s s'" using work_progresses less.prems(2) by blast
    then have "responder_reachable s0 s'" "runnable s'" "rp_received s' = rp_received s" "work_left s' < work_left s"
      using responder_next [OF less.prems(1)] by (simp_all add: progresses_def)
    with less.hyps show ?thesis by metis
  qed
qed

text \<open>
  C13: With at least one worker up, the responder can always finish its work: from every reachable state of the
  running process there is a run that reads nothing more, empties the channel and the hands of the workers, and ends with as many
  responses and rejections as requests.
\<close>
theorem responder_finishes:
  assumes "Responder_New n ips ann extra refID stratum iface = Ok s0" and "responder_reachable s0 s"
    and "\<not> rp_exited s" and "rp_workers s \<noteq> []"
  shows "\<exists>s'. responder_reachable s0 s' \<and> rp_received s' = rp_received s \<and> waiting s' = {#} \<and>
    st_requests (rp_Stats s') = st_responses (rp_Stats s') + st_invalidFormat (rp_Stats s')"
proof -
  have i0: "buffers_ok s0" "work_inv s0" "goroutines_inv s0" using Responder_New_invs [OF assms(1)] by simp_all
  have "runnable s"
    using goroutines_inv_reachable [OF assms(2) i0(3)] assms(3,4) by (simp add: runnable_def goroutines_inv_def)
  then obtain s' where s': "responder_reachable s0 s'" "rp_received s' = rp_received s" "waiting s' = {#}"
    using responder_drains [OF assms(2)] by blast
  moreover have "work_inv s'" using responder_invs [OF s'(1) i0(1,2)] by simp
  ultimately show ?thesis by (auto simp: work_inv_def)
qed

section \<open>Stopping\<close>

text \<open>
  What the code relies on of the netlink library and the kernel: the interface exists, a connection opens, the
  addresses are listed, and removing an assigned address with its prefix length removes it.
\<close>

definition netlink_spec :: "netlink \<Rightarrow> bool" where
  "netlink_spec nl \<longleftrightarrow> nl_InterfaceByName nl = Ok () \<and> nl_Dial nl = Ok () \<and>
     (\<forall>iface. nl_Addrs nl iface = Ok (map fst iface)) \<and>
     (\<forall>ip m iface. (\<exists>ip'. (ip', m) \<in> set iface \<and> IP_Equal ip' ip) \<longrightarrow>
        nl_AddrDel nl ip m iface = Ok (filter (\<lambda>(ip', m'). \<not> (IP_Equal ip' ip \<and> m' = m)) iface))"

definition prefixes_ok :: "netIP list \<Rightarrow> iface \<Rightarrow> bool" where
  "prefixes_ok ips iface \<longleftrightarrow> list_all (\<lambda>(ip, m). list_all (\<lambda>vip. IP_Equal ip vip \<longrightarrow> m = mask_bits vip) ips) iface"

lemma deleteIPFromInterface_spec:
  assumes nl: "netlink_spec nl" and m: "prefixes_ok [vip] iface"
  shows "deleteIPFromInterface nl vip iface = Ok (filter (\<lambda>(ip, m). \<not> IP_Equal ip vip) iface)"
proof (cases "\<exists>ip m. (ip, m) \<in> set iface \<and> IP_Equal ip vip")
  case True
  then have a: "\<exists>ip'. (ip', mask_bits vip) \<in> set iface \<and> IP_Equal ip' vip"
    using m by (fastforce simp: prefixes_ok_def list_all_iff)
  then have l: "list_ex (\<lambda>ip. IP_Equal ip vip) (map fst iface)" by (force simp: list_ex_iff)
  have "filter (\<lambda>(ip', m'). \<not> (IP_Equal ip' vip \<and> m' = mask_bits vip)) iface =
      filter (\<lambda>(ip, m). \<not> IP_Equal ip vip) iface"
    using m by (intro filter_cong) (auto simp: prefixes_ok_def list_all_iff)
  then show ?thesis
    using nl a l by (simp add: deleteIPFromInterface_def deleteIfaceIP_def checkIP_def netlink_spec_def)
next
  case False
  then have l: "\<not> list_ex (\<lambda>ip. IP_Equal ip vip) (map fst iface)" by (auto simp: list_ex_iff)
  have "filter (\<lambda>(ip, m). \<not> IP_Equal ip vip) iface = iface"
    using False by (auto simp: filter_id_conv)
  then show ?thesis
    using nl l by (simp add: deleteIPFromInterface_def deleteIfaceIP_def checkIP_def netlink_spec_def)
qed

text \<open>
  Stopping the server takes every configured address, in either of its two forms, off the interface and
  leaves all others, provided the addresses carry the prefix length the server assigns.
\<close>
theorem Responder_Stop_cleans:
  assumes "netlink_spec nl" and "prefixes_ok (rp_IPs s) (rp_iface s)"
  shows "rp_iface (Responder_Stop nl s) =
    filter (\<lambda>(ip, m). \<not> list_ex (IP_Equal ip) (rp_IPs s)) (rp_iface s)"
proof -
  have "DeleteAllIPs nl ips iface = filter (\<lambda>(ip, m). \<not> list_ex (IP_Equal ip) ips) iface"
    if "prefixes_ok ips iface" for ips iface
    using that
  proof (induction ips arbitrary: iface)
    case Nil
    then show ?case by (simp add: DeleteAllIPs_def filter_id_conv)
  next
    case (Cons vip ips)
    let ?f = "filter (\<lambda>(ip, m). \<not> IP_Equal ip vip) iface"
    have "prefixes_ok [vip] iface" "prefixes_ok ips ?f"
      using Cons.prems by (auto simp: prefixes_ok_def list_all_iff)
    then show ?case
      using Cons.IH [of ?f] deleteIPFromInterface_spec [OF assms(1), of vip iface]
      by (auto simp: DeleteAllIPs_def res_or_def intro!: filter_cong)
  qed
  then show ?thesis using assms(2) by (simp add: Responder_Stop_def)
qed

section \<open>A run\<close>

definition example_netlink :: netlink where
  "example_netlink = \<lparr>nl_InterfaceByName = Ok (), nl_Addrs = (\<lambda>iface. Ok (map fst iface)), nl_Dial = Ok (),
     nl_AddrAdd = (\<lambda>ip m iface. Ok (iface @ [(ip, m)])),
     nl_AddrDel = (\<lambda>ip m iface. Ok (filter (\<lambda>(ip', m'). \<not> (IP_Equal ip' ip \<and> m' = m)) iface))\<rparr>"

definition example_query :: NTPPacket where
  "example_query = zero_NTPPacket\<lparr>np_Settings := 0x1B, np_TxTimeSec := 3794136399, np_TxTimeFrac := 5\<rparr>"

definition example_responder :: "nat Responder res" where
  "example_responder = Responder_New 1 [[10, 0, 0, 1]] False 0 ''OLEG'' 1 []"

definition example_task :: "nat task" where
  "example_task = \<lparr>tk_addr = 7, tk_received = 0, tk_request = example_query\<rparr>"

lemma be_val_zeros: "be_val (replicate n 0) = 0"
  by (induction n) (simp_all add: be_val_Cons)

lemma ReadPacketWithKernelTimestamp_written:
  "ReadPacketWithKernelTimestamp (Ok (binary_Write NTPPacket_codec q, replicate 32 0, a)) = Ok (q, 0, a)"
proof -
  have "length (binary_Write NTPPacket_codec q) = 48" using ntp_packet.length_write [of q] by simp
  then have "recv_buf 48 (binary_Write NTPPacket_codec q) = binary_Write NTPPacket_codec q" by (simp add: recv_buf_def)
  moreover have "time_Unix 0 0 = 0" by (simp add: time_Unix_def i64_defs)
  moreover have "cdec (cle 8 :: u64 codec) (take 8 (drop n (recv_buf 32 (replicate 32 0)))) = 0" if "n + 8 \<le> 32" for n
    using that by (simp add: recv_buf_def be_val_zeros)
  ultimately show ?thesis
    using ntp_packet.read_write [of q "[]"] by (simp add: ReadPacketWithKernelTimestamp_def BytesToPacket_def)
qed

text \<open>A worker and a listener come up; a request is read.\<close>

definition example_read :: "nat Responder" where
  "example_read = listener_read (Ok (binary_Write NTPPacket_codec example_query, replicate 32 0, 7))
     (listener_goroutine example_netlink (Ok ()) 0 (startWorker (res_or undefined example_responder)))"

lemma example_run_started:
  obtains s0 where "example_responder = Ok s0" and "responder_reachable s0 example_read"
proof -
  obtain s0 where s0: "example_responder = Ok s0" and i: "\<not> rp_exited s0" "rp_workers s0 = []" "rp_Workers s0 = 1"
      "rp_pending s0 = [[10, 0, 0, 1]]" "rp_listening s0 = []" "rp_blocked s0 = []"
    by (simp add: example_responder_def Responder_New_def MultiIPs_SetDefault_def Let_def)
  let ?s1 = "startWorker s0"
  let ?s2 = "listener_goroutine example_netlink (Ok ()) 0 ?s1"
  have "responder_reachable s0 ?s1"
    using responder_next [OF responder_start responder_step.start_worker, of s0] i by simp
  then have "responder_reachable s0 ?s2"
    by (rule responder_next) (rule responder_step.start_listener, use i in \<open>simp_all add: responder_defs\<close>)
  then have "responder_reachable s0 example_read"
    unfolding example_read_def s0 res_or_def sum.case
    by (rule responder_next) (rule responder_step.read, use i in \<open>simp_all add: responder_defs\<close>)
  with s0 show thesis by (rule that)
qed

lemma example_read_facts:
  "rp_received example_read = [example_task] \<and> waiting example_read = {#example_task#} \<and>
   rp_workers example_read = [\<lparr>wk_response = fillStaticHeaders 1 ''OLEG'' zero_NTPPacket, wk_task = None\<rparr>] \<and>
   \<not> rp_exited example_read \<and> rp_pending example_read = [] \<and> rp_iface example_read = [([10, 0, 0, 1], 32)] \<and>
   rp_IPs example_read = [[10, 0, 0, 1]]"
  by (simp add: example_read_def example_responder_def Responder_New_def MultiIPs_SetDefault_def responder_defs
      ReadPacketWithKernelTimestamp_written example_task_def waiting_def task_of_def res_or_def
      addIPToInterface_def addIfaceIP_def checkIP_def example_netlink_def mask_bits_def To4_def)

theorem responder_conservation_witness:
  "st_requests (rp_Stats example_read) =
     st_responses (rp_Stats example_read) + st_invalidFormat (rp_Stats example_read) + 1"
proof -
  obtain s0 where "example_responder = Ok s0" "responder_reachable s0 example_read" by (rule example_run_started)
  then show ?thesis
    using responder_conservation [of 1 "[[10, 0, 0, 1]]" False 0 "''OLEG''" 1 "[]" s0 example_read] example_read_facts
    by (simp add: example_responder_def)
qed

theorem responder_refines_bag_witness:
  "(bag_step (answer_to 1 ''OLEG'' 0))\<^sup>*\<^sup>* \<lparr>bg_waiting = {#}, bg_sent = []\<rparr> \<lparr>bg_waiting = {#example_task#}, bg_sent = rp_sent example_read\<rparr>"
proof -
  obtain s0 where "example_responder = Ok s0" "responder_reachable s0 example_read" by (rule example_run_started)
  then show ?thesis
    using responder_refines_bag [of 1 "[[10, 0, 0, 1]]" False 0 "''OLEG''" 1 "[]" s0 example_read] example_read_facts
    by (simp add: example_responder_def bag_of_def)
qed

theorem responder_check_witness: "Check (rp_Checker example_read) = Ok ()"
proof -
  obtain s0 where "example_responder = Ok s0" "responder_reachable s0 example_read" by (rule example_run_started)
  then show ?thesis
    using responder_check [of 1 "[[10, 0, 0, 1]]" False 0 "''OLEG''" 1 "[]" s0 example_read] example_read_facts
    by (simp add: example_responder_def)
qed

theorem responder_finishes_witness:
  "\<exists>s'. rp_received s' = [example_task] \<and> waiting s' = {#} \<and>
    st_requests (rp_Stats s') = st_responses (rp_Stats s') + st_invalidFormat (rp_Stats s')"
proof -
  obtain s0 where "example_responder = Ok s0" "responder_reachable s0 example_read" by (rule example_run_started)
  then show ?thesis
    using responder_finishes [of 1 "[[10, 0, 0, 1]]" False 0 "''OLEG''" 1 "[]" s0 example_read] example_read_facts
    by (auto simp: example_responder_def)
qed

lemma netlink_spec_example: "netlink_spec example_netlink"
  by (simp add: netlink_spec_def example_netlink_def)

theorem Responder_Stop_cleans_witness:
  "rp_iface example_read = [([10, 0, 0, 1], 32)] \<and> rp_iface (Responder_Stop example_netlink example_read) = []"
  using Responder_Stop_cleans [OF netlink_spec_example, of example_read] example_read_facts
  by (simp add: prefixes_ok_def mask_bits_def To4_def IP_Equal_def)

text \<open>The same run up to the answer.\<close>

definition example_answered :: "nat Responder" where
  "example_answered = (let s = example_read\<lparr>rp_tasks := [example_task], rp_blocked := []\<rparr>;
       s = s\<lparr>rp_tasks := [], rp_workers := (rp_workers s)[0 := (rp_workers s ! 0)\<lparr>wk_task := Some example_task\<rparr>]\<rparr>
     in case serve 0 True 0 example_task (wk_response (rp_workers s ! 0)) (rp_Stats s) of
       (out, response, stats) \<Rightarrow> s\<lparr>rp_sent := rp_sent s @ out, rp_Stats := stats,
         rp_workers := (rp_workers s)[0 := \<lparr>wk_response = response, wk_task = None\<rparr>]\<rparr>)"

lemma example_read_queues:
  "rp_blocked example_read = [example_task]" "rp_tasks example_read = []" "rp_Workers example_read = 1"
  "rp_ExtraOffset example_read = 0" "rp_sent example_read = []"
  by (simp_all add: example_read_def example_responder_def Responder_New_def MultiIPs_SetDefault_def responder_defs
      ReadPacketWithKernelTimestamp_written example_task_def res_or_def)

lemma example_answered_reachable:
  assumes "responder_reachable s0 example_read"
  shows "responder_reachable s0 example_answered"
proof -
  let ?s1 = "example_read\<lparr>rp_tasks := [example_task], rp_blocked := []\<rparr>"
  let ?s2 = "?s1\<lparr>rp_tasks := [], rp_workers := (rp_workers ?s1)[0 := (rp_workers ?s1 ! 0)\<lparr>wk_task := Some example_task\<rparr>]\<rparr>"
  note f = example_read_facts example_read_queues
  have "responder_step example_read ?s1"
    using responder_step.enqueue [of example_read 0] f by simp
  with assms have "responder_reachable s0 ?s1" by (rule responder_next)
  moreover have "responder_step ?s1 ?s2"
    by (rule responder_step.dequeue) (use f in simp_all)
  ultimately have "responder_reachable s0 ?s2" by (rule responder_next)
  moreover obtain out response stats where
    sv: "serve 0 True 0 example_task (wk_response (rp_workers ?s2 ! 0)) (rp_Stats ?s2) = (out, response, stats)"
    by (cases "serve 0 True 0 example_task (wk_response (rp_workers ?s2 ! 0)) (rp_Stats ?s2)")
  then have "responder_step ?s2 example_answered"
    unfolding example_answered_def Let_def sv prod.case
    by (intro responder_step.serve_task) (use f sv in simp_all)
  ultimately show ?thesis by (rule responder_next)
qed

theorem responder_answers_witness:
  "\<exists>d. rp_sent example_answered = [(d, 7)] \<and> length d = 48"
proof -
  obtain s0 where s0: "example_responder = Ok s0" "responder_reachable s0 example_read" by (rule example_run_started)
  have "ValidSettingsFormat example_query" by (simp add: ValidSettingsFormat_def example_query_def)
  then have "\<exists>d. rp_sent example_answered = [(d, 7)]"
    using example_read_facts example_read_queues
    by (simp add: example_answered_def Let_def serve_def example_task_def NTPPacket_Bytes_def)
  moreover have "\<forall>(d, a) \<in> set (rp_sent example_answered). length d = 48"
    using responder_answers [OF _ example_answered_reachable [OF s0(2)], of 1 "[[10, 0, 0, 1]]" False 0 "''OLEG''" 1 "[]"]
      s0(1) by (fastforce simp: example_responder_def)
  ultimately show ?thesis by fastforce
qed

end
