(* ===== verification/NTP_Utils.thy ===== *)
theory NTP_Utils
  imports Leapsectz Leaphash NTP_Responder
begin

text \<open>
  \<open>cmd/ntpcheck/cmd/utils.go\<close>: the query of an NTP server (\<open>ntpDate\<close>), the reference identifier of an
  address, the signature of a leap second list, and the leap second added to a time zone file. Clock readings, the
  connection and the files are arguments; what is printed is returned.
\<close>

section \<open>Reference identifiers and signatures\<close>

text \<open>The MD5 sum is the library's, a parameter; the printed address is returned as its bytes.\<close>

definition refID :: "(string \<Rightarrow> netIP option) \<Rightarrow> (bytes \<Rightarrow> bytes) \<Rightarrow> string \<Rightarrow> netIP res" where
  "refID parseIP md5 ipStr =
     (if ipStr = [] then Err ''Error: no IP provided''
      else case parseIP ipStr of
          None \<Rightarrow> Err ''%q is not a valid IP address''
        | Some ip \<Rightarrow> (case To4 ip of Some ipv4 \<Rightarrow> Ok ipv4 | None \<Rightarrow> Ok (v4InV6Prefix @ take 4 (md5 ip))))"

text \<open>A file that cannot be read is reported, and the hash of the empty text is printed all the same.\<close>

definition signFile :: "(string \<Rightarrow> bytes) \<Rightarrow> (string \<Rightarrow> string res) \<Rightarrow> string \<Rightarrow> string res" where
  "signFile sha1 read_file fileName =
     bind_res (leaphash_Compute sha1 (case read_file fileName of Inl _ \<Rightarrow> [] | Inr data \<Rightarrow> data)) (\<lambda>h. Ok (''#h '' @ h))"

section \<open>Leap seconds\<close>

definition printLeap :: "(string \<Rightarrow> bytes res) \<Rightarrow> string \<Rightarrow> gotime list res" where
  "printLeap open_file srcfile = bind_res (leap_Parse open_file srcfile) (\<lambda>ls. Ok (map LeapSecond_Time ls))"

text \<open>
  \<open>fakeLeap\<close> is the first of a month as \<open>time.Date\<close> gives it: whole seconds, which a \<open>float64\<close> holds exactly.
\<close>

definition fake_second :: "gotime \<Rightarrow> LeapSecond list \<Rightarrow> LeapSecond" where
  "fake_second fakeLeap ls =
     \<lparr>ls_Tleap = word_of_int (quot (t_Sub fakeLeap 0) second) + word_of_nat (length ls), ls_Nleap = word_of_nat (length ls + 1)\<rparr>"

definition addFakeSecondZoneInfo :: "(string \<Rightarrow> bytes res) \<Rightarrow> gotime \<Rightarrow> writer res \<Rightarrow> string \<Rightarrow> unit res \<times> writer option" where
  "addFakeSecondZoneInfo open_file fakeLeap create srcfile =
     (case leap_Parse open_file srcfile of
        Inl e \<Rightarrow> (Inl e, None)
      | Inr ls \<Rightarrow>
          (case create of
             Inl e \<Rightarrow> (Inl e, None)
           | Inr w \<Rightarrow> (case leap_Write 0x32 (ls @ [fake_second fakeLeap ls]) [] w of (r, w) \<Rightarrow> (r, Some w))))"

section \<open>Querying a server\<close>

text \<open>
  One exchange: the clock when the request is sent, whether the write fails, what the read returns or
  None if it takes longer than the timeout, and the clock when the offset is computed.
\<close>

record exchange =
  ex_transmit :: gotime
  ex_written :: "unit res"
  ex_received :: "(bytes \<times> bytes \<times> unit) res option"
  ex_now :: gotime

definition ntpdate_request :: "gotime \<Rightarrow> NTPPacket" where
  "ntpdate_request clientTransmitTime =
     (case NTP_Time clientTransmitTime of
        (s, f) \<Rightarrow> zero_NTPPacket\<lparr>np_Settings := 0x1B, np_TxTimeSec := s, np_TxTimeFrac := f\<rparr>)"

text \<open>The network delay, the offset and the response of an exchange.\<close>

definition ntpdate_exchange :: "exchange \<Rightarrow> (int \<times> int \<times> NTPPacket) res" where
  "ntpdate_exchange ex =
     bind_res (ex_written ex) (\<lambda>_.
     case ex_received ex of
       None \<Rightarrow> Err ''timeout waiting for reply from server for %v''
     | Some recv \<Rightarrow>
         bind_res (ReadPacketWithKernelTimestamp recv) (\<lambda>(response, clientReceiveTime, _).
         let serverReceiveTime = NTP_Unix (np_RxTimeSec response) (np_RxTimeFrac response);
             serverTransmitTime = NTP_Unix (np_TxTimeSec response) (np_TxTimeFrac response);
             avgNetworkDelay = AvgNetworkDelay (ex_transmit ex) serverReceiveTime serverTransmitTime clientReceiveTime;
             currentRealTime = CurrentRealTime serverTransmitTime avgNetworkDelay;
             offset = CalculateOffset currentRealTime (ex_now ex)
         in Ok (avgNetworkDelay, offset, response)))"

text \<open>The loop: the sums of delays and offsets, which the averages are computed from.\<close>

fun ntpDate :: "exchange list \<Rightarrow> int \<Rightarrow> int \<Rightarrow> (int \<times> int) res" where
  "ntpDate [] sumAvgNetworkDelay sumOffset = Ok (sumAvgNetworkDelay, sumOffset)"
| "ntpDate (ex # exs) sumAvgNetworkDelay sumOffset =
     bind_res (ntpdate_exchange ex) (\<lambda>(avgNetworkDelay, offset, _).
       ntpDate exs (i64 (sumAvgNetworkDelay + avgNetworkDelay)) (i64 (sumOffset + offset)))"

section \<open>Properties of leap seconds\<close>

lemma sint_word_of_nat64: "n < 2 ^ 63 \<Longrightarrow> sint (word_of_nat n :: u64) = int n"
  by (simp add: signed_of_nat signed_take_bit_int_eq_self)

lemma scast_word_of_nat: "n < 2 ^ 31 \<Longrightarrow> (scast (word_of_nat n :: i32) :: u64) = word_of_nat n"
  by (simp add: signed_of_nat signed_take_bit_int_eq_self)

lemma fake_second_Time:
  assumes "0 \<le> s" and "s < 2 ^ 33" and "length ls + 1 < 2 ^ 31"
  shows "LeapSecond_Time (fake_second (s * second) ls) = s * second"
proof -
  have q: "quot (t_Sub (s * second) 0) second = s"
    using assms(1,2) by (subst t_Sub_exact) (simp_all add: i64_defs second_def)
  have "word_of_int s + word_of_nat (length ls) - scast (word_of_nat (length ls + 1) :: i32) + 1 = (word_of_int s :: u64)"
    using assms(3) by (subst scast_word_of_nat) simp_all
  moreover have "sint (word_of_int s :: u64) = s"
    using assms(1,2) by (simp add: signed_of_int signed_take_bit_int_eq_self)
  moreover have "time_Unix s 0 = s * second"
    using assms(1,2) by (simp add: time_Unix_exact i64_defs)
  ultimately show ?thesis unfolding LeapSecond_Time_def fake_second_def q by (simp only: LeapSecond.simps)
qed

text \<open>
  Adding a fake second to a time zone file gives a file whose leap seconds are those of the source and one more, at the
  requested instant.
\<close>
theorem addFakeSecond_adds:
  assumes "leap_Parse open_file srcfile = Ok ls" and "length ls + 1 < 2 ^ 31" and "0 \<le> s" and "s < 2 ^ 33"
    and "addFakeSecondZoneInfo open_file (s * second) (Ok \<lparr>w_out = [], w_room = room\<rparr>) srcfile = (Ok (), Some w)"
  shows "printLeap (\<lambda>_. Ok (w_out w)) dstfile = Ok (map LeapSecond_Time ls @ [s * second])"
proof -
  let ?ls = "ls @ [fake_second (s * second) ls]"
  have "leap_Write 0x32 ?ls [] \<lparr>w_out = [], w_room = room\<rparr> = (Ok (), w)"
    using assms(1,5) by (simp add: addFakeSecondZoneInfo_def split: prod.splits)
  then have "w_out w = leap_file 0x32 ?ls []"
    by (auto simp: leap_Write_eq w_Write_def split: option.splits if_splits)
  moreover have "parseVx (leap_file 0x32 ?ls []) = Ok ?ls"
    using parseVx_leap_file [of "0x32" ?ls "[]" "[]"] assms(2) by simp
  ultimately show ?thesis
    using fake_second_Time [OF assms(3,4,2)] by (simp add: printLeap_def leap_Parse_def)
qed

definition example_fake :: "unit res \<times> writer option" where
  "example_fake = addFakeSecondZoneInfo (\<lambda>_. Ok (leap_file 0x32 example_leaps '''')) (1640995200 * second)
     (Ok \<lparr>w_out = [], w_room = None\<rparr>) ''/usr/share/zoneinfo/right/UTC''"

theorem addFakeSecond_adds_witness:
  "\<exists>w. example_fake = (Ok (), Some w) \<and>
     printLeap (\<lambda>_. Ok (w_out w)) ''Fake'' = Ok (map LeapSecond_Time example_leaps @ [1640995200 * second])"
proof -
  have p: "leap_Parse (\<lambda>_. Ok (leap_file 0x32 example_leaps '''')) src = Ok example_leaps" for src
    using parseVx_leap_file [of "0x32" example_leaps "''''" "[]"] by (simp add: leap_Parse_def example_leaps_def)
  then obtain w where "example_fake = (Ok (), Some w)"
    by (simp add: example_fake_def addFakeSecondZoneInfo_def leap_Write_eq w_Write_def)
  then show ?thesis
    using addFakeSecond_adds [OF p, of 1640995200 None "''/usr/share/zoneinfo/right/UTC''" w "''Fake''"]
    by (simp add: example_fake_def example_leaps_def)
qed

section \<open>A query against the responder\<close>

text \<open>The control buffer with the kernel's receive timestamp as a \<open>Timespec\<close>.\<close>

definition kernel_control :: "gotime \<Rightarrow> bytes" where
  "kernel_control ts = replicate 16 0 @ cenc (cle 8) (word_of_int (ts div second) :: u64) @ cenc (cle 8) (word_of_int (ts mod second) :: u64)"

lemma in_i64_mod_second: "in_i64 (x mod second)"
proof -
  obtain y where y: "y = x mod second" by blast
  have "0 \<le> y" "y < second" by (simp_all add: y second_def)
  then show ?thesis unfolding y [symmetric] by (simp add: i64_defs second_def)
qed

lemma ReadPacket_kernel_control:
  assumes "in_i64 (ts div second)"
  shows "ReadPacketWithKernelTimestamp (Ok (binary_Write NTPPacket_codec q, kernel_control ts, a)) = Ok (q, ts, a)"
proof -
  have "length (binary_Write NTPPacket_codec q) = 48" using ntp_packet.length_write [of q] by simp
  then have "recv_buf 48 (binary_Write NTPPacket_codec q) = binary_Write NTPPacket_codec q" by (simp add: recv_buf_def)
  moreover have "recv_buf 32 (kernel_control ts) = kernel_control ts" by (simp add: recv_buf_def kernel_control_def)
  moreover have "cdec (cle 8 :: u64 codec) (take 8 (drop 16 (kernel_control ts))) = word_of_int (ts div second)"
      "cdec (cle 8 :: u64 codec) (take 8 (drop 24 (kernel_control ts))) = word_of_int (ts mod second)"
    by (simp_all add: kernel_control_def word_of_nat_be_val)
  moreover have "sint (word_of_int x :: u64) = x" if "in_i64 x" for x
    using that by (simp add: signed_of_int signed_take_bit_int_eq_self i64_defs)
  moreover have "in_i64 (ts mod second)"
    by (rule in_i64_mod_second)
  moreover have "time_Unix (ts div second) (ts mod second) = ts" using assms by (simp add: time_Unix_def)
  ultimately show ?thesis
    using assms ntp_packet.read_write [of q "[]"] by (simp add: ReadPacketWithKernelTimestamp_def BytesToPacket_def)
qed

lemma ntpdate_request_valid: "ValidSettingsFormat (ntpdate_request t)"
  by (simp add: ValidSettingsFormat_def ntpdate_request_def split: prod.split)

lemma in_era:
  assumes "0 \<le> t" and "t < 2085978496 * second"
  shows "(case NTP_Time t of (s, f) \<Rightarrow> NTP_Unix s f) \<in> {t - 1, t}" "in_i64 (t div second)" "in_i64 t"
proof -
  show "(case NTP_Time t of (s, f) \<Rightarrow> NTP_Unix s f) \<in> {t - 1, t}"
    using assms by (intro NTP_Unix_Time) (simp_all add: NanosecondsToUnix_def second_def)
  show t: "in_i64 t" using assms by (simp add: i64_defs second_def)
  then show "in_i64 (t div second)" by (rule in_i64_div_second)
qed

lemma half_abs: "2 * (\<bar>x\<bar> div 2) \<in> {\<bar>x\<bar> - 1, \<bar>x\<bar>}" for x :: int
  by (cases "even \<bar>x\<bar>") (auto elim!: oddE)

lemma offset_bound:
  fixes off d1 d2 e a b :: int
  assumes "a \<in> {-1, 0}" and "b \<in> {-1, 0}" and "0 \<le> d1" and "0 \<le> d2"
  shows "2 * \<bar>(off - e - d2 + b + \<bar>d1 + d2 + a - b\<bar> div 2) - (off - e)\<bar> \<le> \<bar>d1 - d2\<bar> + 4" (is ?offset)
    and "\<bar>2 * (\<bar>d1 + d2 + a - b\<bar> div 2) - (d1 + d2)\<bar> \<le> 2" (is ?delay)
proof -
  have ab: "-1 \<le> a" "a \<le> 0" "-1 \<le> b" "b \<le> 0" using assms(1,2) by auto
  obtain m h where m: "m = \<bar>d1 + d2 + a - b\<bar>" and h: "h = m div 2" by blast
  have "m \<le> d1 + d2 + 1" "d1 + d2 - 1 \<le> m" using ab assms(3,4) unfolding m by linarith+
  moreover have "2 * h \<le> m" "m - 1 \<le> 2 * h" using half_abs [of "d1 + d2 + a - b"] by (auto simp: h m)
  ultimately have mh: "2 * h \<le> d1 + d2 + 1" "d1 + d2 - 2 \<le> 2 * h" by simp_all
  then show ?delay unfolding m [symmetric] h [symmetric] by (simp add: abs_le_iff)
  have "2 * (b - d2 + h) \<le> d1 - d2 + 4" "- (2 * (b - d2 + h)) \<le> d2 - d1 + 4"
    using mh ab by simp_all
  then have "\<bar>2 * (b - d2 + h)\<bar> \<le> \<bar>d1 - d2\<bar> + 4"
    by (cases "d2 \<le> d1") (simp_all add: abs_le_iff)
  then have "2 * \<bar>b - d2 + h\<bar> \<le> \<bar>d1 - d2\<bar> + 4" by (simp only: abs_mult abs_numeral)
  then show ?offset unfolding m [symmetric] h [symmetric] by (simp add: algebra_simps)
qed

lemma ntp_abs_small:
  assumes "\<bar>x\<bar> < 2 ^ 62"
  shows "ntp_abs (i64 x) = \<bar>x\<bar>"
proof -
  have "in_i64 x" "in_i64 (- x)" using assms by (simp_all add: in_i64_def i64_min_def i64_max_def abs_less_iff)
  then show ?thesis by (simp add: ntp_abs_def)
qed

lemma ntpdate_result:
  assumes "ex_written ex = Ok ()" and "ex_received ex = Some (Ok (binary_Write NTPPacket_codec x, kernel_control t4, ()))"
    and "NTP_Unix (np_RxTimeSec x) (np_RxTimeFrac x) = rx" and "NTP_Unix (np_TxTimeSec x) (np_TxTimeFrac x) = tx"
    and "in_i64 (t4 div second)" and "in_i64 (rx - ex_transmit ex)" and "in_i64 (t4 - tx)"
    and "\<bar>rx - ex_transmit ex + (t4 - tx)\<bar> < 2 ^ 62" and "\<bar>tx\<bar> < 2 ^ 62" and "\<bar>ex_now ex\<bar> < 2 ^ 61" 
  shows "ntpdate_exchange ex = Ok (\<bar>rx - ex_transmit ex + (t4 - tx)\<bar> div 2,
    tx + \<bar>rx - ex_transmit ex + (t4 - tx)\<bar> div 2 - ex_now ex, x)"
proof -
  obtain m h where m: "m = \<bar>rx - ex_transmit ex + (t4 - tx)\<bar>" and h: "h = m div 2" by blast
  have mh: "0 \<le> m" "0 \<le> h" "2 * h \<le> m" by (simp_all add: m h)
  have "ntp_abs (i64 (rx - ex_transmit ex + (t4 - tx))) = m"
    unfolding m using assms(8) by (rule ntp_abs_small)
  then have avg: "AvgNetworkDelay (ex_transmit ex) rx tx t4 = h"
    using assms(6,7) mh by (simp add: AvgNetworkDelay_def Let_def t_Sub_exact h)
  have "t_Add tx h = tx + h"
    using assms(8,9) mh unfolding m [symmetric] by (intro t_Add_exact in_i64_div_second) (simp add: i64_defs abs_less_iff)
  then have cur: "CurrentRealTime tx h = tx + h" by (simp add: CurrentRealTime_def)
  have off: "CalculateOffset (tx + h) (ex_now ex) = tx + h - ex_now ex"
    using assms(8-10) mh unfolding m [symmetric] by (simp add: CalculateOffset_def t_UnixNano_def in_i64_def i64_min_def i64_max_def abs_less_iff)
  show ?thesis
    using ReadPacket_kernel_control [OF assms(5), of x "()"] assms(1-4)
    by (simp add: ntpdate_exchange_def avg cur off m [symmetric] h [symmetric])
qed


text \<open>From the Unix epoch to the end of the NTP era in February 2036.\<close>

definition ntp_era :: "int set" where
  "ntp_era = {0..<2085978496 * second}"

end
