(* ===== verification/NTP_Tools.thy ===== *)
theory NTP_Tools
  imports NTP_Utils
begin

text \<open>
  The smaller utilities of \<open>ntpcheck\<close>: candidate instants for leap seconds (\<open>fakeSeconds\<close> of \<open>utils.go\<close>) with the calendar
  they need, the state of the kernel clock (\<open>utils_linux.go\<close>) and the comparison of the wall clock with the monotonic clock
  (\<open>utils_notdarwin.go\<close>). The readings of the clocks and the format of floats are arguments.
\<close>

section \<open>First days of months\<close>

text \<open>
  A month is numbered \<open>12 * year + (month - 1)\<close>, so that \<open>time.Date\<close> and \<open>AddDate\<close> with months beyond December are plain
  addition. Days are counted from the first of January of the year 1 in the Gregorian calendar.
\<close>

definition leap_year :: "int \<Rightarrow> bool" where
  "leap_year y \<longleftrightarrow> y mod 4 = 0 \<and> (y mod 100 \<noteq> 0 \<or> y mod 400 = 0)"

definition days_before_year :: "int \<Rightarrow> int" where
  "days_before_year y = 365 * (y - 1) + (y - 1) div 4 - (y - 1) div 100 + (y - 1) div 400"

definition month_lengths :: "bool \<Rightarrow> int list" where
  "month_lengths leap = [31, if leap then 29 else 28, 31, 30, 31, 30, 31, 31, 30, 31, 30, 31]"

definition days_before_month :: "int \<Rightarrow> int" where
  "days_before_month m = days_before_year (m div 12) + sum_list (take (nat (m mod 12)) (month_lengths (leap_year (m div 12))))"

text \<open>Midnight UTC of the first day, as the time of Go: 719162 days of 86400 s lie between year 1 and the Unix epoch.\<close>

definition first_of_month :: "int \<Rightarrow> gotime" where
  "first_of_month m = (days_before_month m - 719162) * 86400 * second"

definition fake_delta :: "int \<Rightarrow> int" where
  "fake_delta m = dur_Seconds_int (t_Sub (first_of_month m) (first_of_month (12 * 1900)))"

text \<open>The numbers printed for the months after the current one.\<close>

definition fakeSeconds :: "int \<Rightarrow> nat \<Rightarrow> int list" where
  "fakeSeconds this_month secondsCount = map (\<lambda>i. fake_delta (this_month + int i + 1)) [0..<secondsCount]"

section \<open>The kernel clock\<close>

definition timexToDesc :: "string list" where
  "timexToDesc =
     [''TIME_OK                Clock synchronized, no leap second adjustment pending.'',
      ''TIME_INS      Indicates that a leap second will be added at the end of the UTC day.'',
      ''TIME_DEL      Indicates that a leap second will be deleted at the end of the UTC day.'',
      ''TIME_OOP      Insertion of a leap second is in progress.'',
      ''TIME_WAIT    A leap-second insertion or deletion has been completed.'',
      ''TIME_ERROR  The system clock is not synchronized to a reliable server.'']"

definition timex_desc :: "int \<Rightarrow> string option" where
  "timex_desc state = (if 0 \<le> state \<and> state < 6 then Some (timexToDesc ! nat state) else None)"

definition clockState :: "int res \<Rightarrow> string" where
  "clockState adjtimex =
     (case adjtimex of
        Inl _ \<Rightarrow> ''Error calling adjtimex(2): %s''
      | Inr state \<Rightarrow>
          (case timex_desc state of Some desc \<Rightarrow> desc | None \<Rightarrow> ''Error: '' @ show_int state @ '' state is not recognized''))"

record Timex =
  tm_Modes :: u32
  tm_Offset :: int
  tm_Freq :: int
  tm_Maxerror :: int
  tm_Esterror :: int
  tm_Status :: i32
  tm_Constant :: int
  tm_Precision :: int
  tm_Tolerance :: int
  tm_Shift :: i32

text \<open>What \<open>ntpTime\<close> shows: the numbers that go into its lines.\<close>

record ntptime_report =
  nr_code :: string
  nr_modes :: u32
  nr_offset_us :: f64
  nr_frequency_ppm :: f64
  nr_interval_s :: i32
  nr_maximum_error_us :: int
  nr_estimated_error_us :: int
  nr_status :: i32
  nr_time_constant :: int
  nr_precision_us :: int
  nr_tolerance_ppm :: int

definition ntpTime :: "(rat \<Rightarrow> f64) \<Rightarrow> (int \<times> Timex) res \<Rightarrow> ntptime_report res" where
  "ntpTime fl adjtimex =
     bind_res adjtimex (\<lambda>(state, buf).
       let code = (case timex_desc state of
             Some desc \<Rightarrow> ''adjtimex() returns code '' @ show_int state @ '' ('' @ desc @ '')''
           | None \<Rightarrow> ''Error: '' @ show_int state @ '' state is not recognized'')
       in Ok \<lparr>nr_code = code, nr_modes = tm_Modes buf,
            nr_offset_us = (if tm_Status buf AND 0x2000 \<noteq> 0 then fl (fl (of_int (tm_Offset buf)) / 1000) else fl (of_int (tm_Offset buf))),
            nr_frequency_ppm = fl (fl (of_int (tm_Freq buf)) / 65536), nr_interval_s = tm_Shift buf,
            nr_maximum_error_us = tm_Maxerror buf, nr_estimated_error_us = tm_Esterror buf, nr_status = tm_Status buf,
            nr_time_constant = tm_Constant buf, nr_precision_us = tm_Precision buf,
            nr_tolerance_ppm = quot (tm_Tolerance buf) 65535\<rparr>)"

section \<open>Wall clock and monotonic clock\<close>

text \<open>
  A reading of the three clocks: the wall clock and the monotonic clock of one \<open>time.Now\<close>, and the raw monotonic clock as the
  system call gives it. \<open>fl\<close> rounds to a float.
\<close>

record clock_reading =
  rd_wall :: gotime
  rd_mono :: int
  rd_raw :: "int \<times> int"

definition getRawMonotonic :: "(rat \<Rightarrow> f64) \<Rightarrow> clock_reading \<Rightarrow> f64" where
  "getRawMonotonic fl r = (case rd_raw r of (sec, nsec) \<Rightarrow> fl (fl (of_int sec) + fl (fl (of_int nsec) / 10 ^ 9)))"

text \<open>A line of the report, and the two warnings that may follow it.\<close>

record track_line =
  tl_wallElapsed :: duration
  tl_monoElapsed :: duration
  tl_wallElapsedS :: f64
  tl_monoElapsedS :: f64
  tl_monoRawElapsedS :: f64
  tl_offsetMonoUs :: f64
  tl_offsetMonoRawUs :: f64
  tl_wallBack :: bool
  tl_monoBack :: bool

definition track_iteration ::
    "(rat \<Rightarrow> f64) \<Rightarrow> clock_reading \<Rightarrow> duration \<times> duration \<Rightarrow> clock_reading \<Rightarrow> track_line" where
  "track_iteration fl start prev now =
     (let wallElapsed = t_Sub (rd_wall now) (rd_wall start);
          monoElapsed = t_Sub (rd_mono now) (rd_mono start);
          monoRawElapsedS = fl (getRawMonotonic fl now - getRawMonotonic fl start)
      in \<lparr>tl_wallElapsed = wallElapsed, tl_monoElapsed = monoElapsed,
          tl_wallElapsedS = fl (fl (of_int wallElapsed) / 10 ^ 9), tl_monoElapsedS = fl (fl (of_int monoElapsed) / 10 ^ 9),
          tl_monoRawElapsedS = monoRawElapsedS,
          tl_offsetMonoUs = fl (fl (of_int (i64 (wallElapsed - monoElapsed))) / 1000),
          tl_offsetMonoRawUs = fl (fl (fl (of_int wallElapsed) / 1000) - fl (monoRawElapsedS * 10 ^ 6)),
          tl_wallBack = (fst prev \<noteq> 0 \<and> i64 (wallElapsed - fst prev) < 1000 * 1000000),
          tl_monoBack = (snd prev \<noteq> 0 \<and> i64 (monoElapsed - snd prev) < 1000 * 1000000)\<rparr>)"

text \<open>The loop never ends; these are the lines for the readings made so far.\<close>

fun track :: "(rat \<Rightarrow> f64) \<Rightarrow> clock_reading \<Rightarrow> duration \<times> duration \<Rightarrow> clock_reading list \<Rightarrow> track_line list" where
  "track fl start prev [] = []"
| "track fl start prev (now # rs) =
     (let l = track_iteration fl start prev now in l # track fl start (tl_wallElapsed l, tl_monoElapsed l) rs)"

section \<open>Candidates for leap seconds\<close>

lemma year_length: "days_before_year (y + 1) = days_before_year y + (if leap_year y then 366 else 365)"
proof -
  have step: "y div k = (y - 1) div k + (if y mod k = 0 then 1 else 0)" if "k > 0" for k :: int
  proof -
    have y: "y = k * (y div k) + y mod k" "0 \<le> y mod k" "y mod k < k" using that by simp_all
    show ?thesis
    proof (cases "y mod k = 0")
      case True
      have "(y - 1) div k = y div k - 1"
        using y(1) that True by (intro int_div_pos_eq [of _ _ _ "k - 1"]) (simp_all add: right_diff_distrib)
      then show ?thesis using True by simp
    next
      case False
      have "(y - 1) div k = y div k" by (rule int_div_pos_eq [of _ _ _ "y mod k - 1"]) (use y False in linarith)+
      then show ?thesis using False by simp
    qed
  qed
  define a b c where "a = (y - 1) div 4" and "b = (y - 1) div 100" and "c = (y - 1) div 400"
  have "y div 4 = a + (if y mod 4 = 0 then 1 else 0)" "y div 100 = b + (if y mod 100 = 0 then 1 else 0)"
      "y div 400 = c + (if y mod 400 = 0 then 1 else 0)"
    unfolding a_def b_def c_def by (rule step, simp)+
  moreover have "y mod 400 mod 100 = y mod 100" "y mod 100 mod 4 = y mod 4" by (simp_all add: mod_mod_cancel)
  then have "y mod 400 = 0 \<Longrightarrow> y mod 100 = 0" "y mod 100 = 0 \<Longrightarrow> y mod 4 = 0" by (metis mod_0)+
  ultimately show ?thesis
    unfolding days_before_year_def leap_year_def add_diff_cancel_right' a_def [symmetric] b_def [symmetric] c_def [symmetric]
    by (cases "y mod 4 = 0"; cases "y mod 100 = 0"; cases "y mod 400 = 0") simp_all
qed

lemma month_length:
  "days_before_month (m + 1) = days_before_month m + month_lengths (leap_year (m div 12)) ! nat (m mod 12)"
proof (cases "m mod 12 = 11")
  case True
  obtain q where q: "m div 12 = q" by blast
  have m: "m = 12 * q + 11" using mult_div_mod_eq [of 12 m] True unfolding q by linarith
  then have "(m + 1) div 12 = m div 12 + 1" unfolding q by presburger
  moreover have "(m + 1) mod 12 = 0" using m by presburger
  moreover have "sum_list (take 11 (month_lengths l)) + month_lengths l ! 11 = (if l then 366 else 365)" for l
    by (cases l) (simp_all add: month_lengths_def)
  ultimately show ?thesis using True by (simp add: days_before_month_def year_length)
next
  case False
  have m: "m = 12 * (m div 12) + m mod 12" "0 \<le> m mod 12" "m mod 12 < 12" by simp_all
  have "(m + 1) div 12 = m div 12" by (rule int_div_pos_eq [of _ _ _ "m mod 12 + 1"]) (use m False in linarith)+
  moreover from this have "(m + 1) mod 12 = m mod 12 + 1" using mult_div_mod_eq [of 12 "m + 1"] m(1) by linarith
  moreover have "nat (m mod 12 + 1) = Suc (nat (m mod 12))" using pos_mod_sign [of 12 m] by linarith
  moreover have "nat (m mod 12) < length (month_lengths (leap_year (m div 12)))"
    using pos_mod_bound [of 12 m] by (simp add: month_lengths_def nat_less_iff)
  ultimately show ?thesis by (simp add: days_before_month_def take_Suc_conv_app_nth)
qed

lemma month_length_bounds: "28 \<le> month_lengths l ! nat (m mod 12) \<and> month_lengths l ! nat (m mod 12) \<le> 31"
proof -
  have "nat (m mod 12) < length (month_lengths l)" using pos_mod_bound [of 12 m] by (simp add: month_lengths_def nat_less_iff)
  then have "month_lengths l ! nat (m mod 12) \<in> set (month_lengths l)" by (rule nth_mem)
  then show ?thesis by (auto simp: month_lengths_def split: if_splits)
qed

lemma days_before_month_mono:
  assumes "m \<le> n"
  shows "days_before_month m \<le> days_before_month n"
proof -
  have "days_before_month m \<le> days_before_month (m + int k)" for k
  proof (induction k)
    case (Suc k)
    have "days_before_month (m + int (Suc k)) = days_before_month (m + int k + 1)" by (simp add: algebra_simps)
    also have "\<dots> \<ge> days_before_month (m + int k)"
      using month_length [of "m + int k"] month_length_bounds [of "leap_year ((m + int k) div 12)" "m + int k"] by simp
    finally show ?case using Suc by simp
  qed simp
  from this [of "nat (n - m)"] show ?thesis using assms by simp
qed

lemma days_anchors: "days_before_month 22800 = 693595" "days_before_month 23640 = 719162" "days_before_month 26280 = 799516"
  by code_simp+

text \<open>Within the range of a duration around the epoch of NTP, the printed number counts the seconds since that epoch.\<close>

lemma fake_delta_exact:
  assumes "12 * 1900 \<le> m" and "m \<le> 12 * 2190"
  shows "fake_delta m = 86400 * (days_before_month m - 693595)"
proof -
  let ?d = "days_before_month m - 693595"
  have d: "0 \<le> ?d" "?d \<le> 105921"
    using days_before_month_mono [OF assms(1)] days_before_month_mono [OF assms(2)] by (simp_all add: days_anchors)
  have e: "first_of_month m - first_of_month (12 * 1900) = 86400 * ?d * second"
    by (simp add: first_of_month_def days_anchors algebra_simps)
  have "0 \<le> 86400 * ?d * second" "86400 * ?d * second \<le> 86400 * 105921 * second" using d by (simp_all add: second_def)
  then have "in_i64 (first_of_month m - first_of_month (12 * 1900))"
    unfolding e by (simp add: i64_defs second_def)
  then have "t_Sub (first_of_month m) (first_of_month (12 * 1900)) = 86400 * ?d * second" by (simp only: t_Sub_exact e)
  then show ?thesis using d(1) by (simp add: fake_delta_def dur_Seconds_int_def)
qed

text \<open>
  The candidates are the beginnings of the months that follow the current one, without a gap: the first is the next month,
  each is the one before it and the length of its month later, and each counts the seconds since 1900, so that the month of
  the Unix epoch would be 2208988800.
\<close>
theorem fakeSeconds_months:
  assumes "12 * 1970 \<le> m" and "m + int n \<le> 12 * 2190" and "0 < n"
  shows "length (fakeSeconds m n) = n \<and>
    fakeSeconds m n ! 0 = 2208988800 + 86400 * (days_before_month (m + 1) - days_before_month (12 * 1970)) \<and>
    (\<forall>i. Suc i < n \<longrightarrow> fakeSeconds m n ! Suc i = fakeSeconds m n ! i +
      86400 * month_lengths (leap_year ((m + int i + 1) div 12)) ! nat ((m + int i + 1) mod 12))"
proof -
  have nth: "fakeSeconds m n ! i = 86400 * (days_before_month (m + int i + 1) - 693595)" if "i < n" for i
    using that assms(1,2) by (simp add: fakeSeconds_def fake_delta_exact)
  have "fakeSeconds m n ! Suc i = fakeSeconds m n ! i +
      86400 * month_lengths (leap_year ((m + int i + 1) div 12)) ! nat ((m + int i + 1) mod 12)" if "Suc i < n" for i
    using that nth [of i] nth [of "Suc i"] month_length [of "m + int i + 1"] by (simp add: algebra_simps)
  moreover have "length (fakeSeconds m n) = n" by (simp add: fakeSeconds_def)
  ultimately show ?thesis using nth [of 0] assms(3) by (simp add: days_anchors algebra_simps)
qed

text \<open>From December 2026, the second candidate is 31 days after the first.\<close>

theorem fakeSeconds_months_witness:
  "fakeSeconds (12 * 2026 + 11) 3 ! Suc 0 = fakeSeconds (12 * 2026 + 11) 3 ! 0 + 86400 * 31"
proof -
  have "fakeSeconds (12 * 2026 + 11) 3 ! Suc 0 = fakeSeconds (12 * 2026 + 11) 3 ! 0 +
      86400 * month_lengths (leap_year ((12 * 2026 + 11 + int 0 + 1) div 12)) ! nat ((12 * 2026 + 11 + int 0 + 1) mod 12)"
    using fakeSeconds_months [of "12 * 2026 + 11" 3] by simp
  then show ?thesis by (simp add: month_lengths_def)
qed

section \<open>Alarms of the clock comparison\<close>

text \<open>
  The warnings compare with a fixed second, not with the interval: with readings less than a second apart, every line after
  the second announces that both clocks went back, although both advance.
\<close>
theorem track_false_alarm:
  assumes "0 < d" and "d < 1000 * 1000000" and "0 < e" and "int n * d + e < 2 ^ 62"
    and "rs = map (\<lambda>i. \<lparr>rd_wall = rd_wall start + int i * d + e, rd_mono = rd_mono start + int i * d + e, rd_raw = raw i\<rparr>) [0..<n]"
    and "0 < i" and "i < n"
  shows "tl_wallBack (track fl start (0, 0) rs ! i) \<and> tl_monoBack (track fl start (0, 0) rs ! i) \<and>
    rd_wall (rs ! (i - 1)) < rd_wall (rs ! i) \<and> rd_mono (rs ! (i - 1)) < rd_mono (rs ! i)"
proof -
  have small: "0 < int j * d + e \<and> int j * d + e < 2 ^ 62" if "j < n" for j
  proof -
    have "int j * d \<le> int n * d" using that assms(1) by (intro mult_right_mono) simp_all
    moreover have "0 \<le> int j * d" using assms(1) by simp
    ultimately show ?thesis using assms(3,4) by linarith
  qed
  have sub: "t_Sub (x + int j * d + e) x = int j * d + e" if "j < n" for j x
    using small [OF that] by (simp add: t_Sub_def i64_min_def i64_max_def)
  have lines: "i < length ts \<Longrightarrow> track fl start prev ts ! i = track_iteration fl start
      (if i = 0 then prev else (t_Sub (rd_wall (ts ! (i - 1))) (rd_wall start), t_Sub (rd_mono (ts ! (i - 1))) (rd_mono start))) (ts ! i)"
    for ts i prev
  proof (induction ts arbitrary: prev i)
    case (Cons t ts)
    then show ?case by (cases i; cases "i - 1") (auto simp: track_iteration_def Let_def)
  qed simp
  obtain j where j: "i = Suc j" using assms(6) by (cases i) simp_all
  have diff: "int i * d + e - (int j * d + e) = d" by (simp add: j algebra_simps)
  have "in_i64 d" using assms(1,2) by (simp add: i64_defs)
  have "track fl start (0, 0) rs ! i = track_iteration fl start (int j * d + e, int j * d + e) (rs ! i)"
    using lines [of i rs "(0, 0)"] assms(5,7) sub [of j] by (simp add: j add.assoc)
  moreover have "tl_wallBack (track_iteration fl start (int j * d + e, int j * d + e) (rs ! i))"
      "tl_monoBack (track_iteration fl start (int j * d + e, int j * d + e) (rs ! i))"
    using assms(2,5,7) sub [of i] small [of j] diff \<open>in_i64 d\<close> by (simp_all add: track_iteration_def Let_def j add.assoc)
  ultimately show ?thesis using assms(1,5,7) by (simp add: j algebra_simps)
qed

theorem track_false_alarm_witness:
  "let fl = id; start = \<lparr>rd_wall = 0, rd_mono = 0, rd_raw = (0, 0)\<rparr>;
       rs = map (\<lambda>i. \<lparr>rd_wall = rd_wall start + int i * 100000000 + 5, rd_mono = rd_mono start + int i * 100000000 + 5, rd_raw = (0, int i * 100000000)\<rparr>) [0..<3]
   in tl_wallBack (track fl start (0, 0) rs ! 1)"
  unfolding Let_def by (rule track_false_alarm [where d = 100000000 and e = 5 and n = 3 and raw = "\<lambda>i. (0, int i * 100000000)", THEN conjunct1]) simp_all

end
