(* ===== verification/NTP_Addresses.thy ===== *)
theory NTP_Addresses
  imports NTP_Responder Go_Strings
begin

text \<open>
  Service addresses on the other platforms: \<open>ip_darwin.go\<close> and \<open>ip_freebsd.go\<close> of \<open>ntp/responder/server\<close> assign and remove
  addresses by running \<open>ifconfig\<close>, where \<open>ip_linux.go\<close> speaks netlink. The command and \<open>net.IP.String\<close> are arguments. The
  locale states what the responder needs of a platform, and is interpreted for all three.
\<close>

section \<open>ifconfig\<close>

record ifconfig =
  ic_net :: netlink
  ic_String :: "netIP \<Rightarrow> string"
  ic_Run :: "string list \<Rightarrow> iface \<Rightarrow> iface res"

definition ifconfig_proto :: "netIP \<Rightarrow> string" where
  "ifconfig_proto addr = (case To4 addr of None \<Rightarrow> ''inet6'' | Some _ \<Rightarrow> ''inet'')"

definition alias_cmd :: "(netIP \<Rightarrow> string) \<Rightarrow> string \<Rightarrow> netIP \<Rightarrow> string list" where
  "alias_cmd show_ip name addr =
     [''ifconfig'', name, ifconfig_proto addr, ''alias'', show_ip addr @ ''/'' @ show_nat (mask_bits addr)]"

definition unalias_cmd :: "(netIP \<Rightarrow> string) \<Rightarrow> string \<Rightarrow> netIP \<Rightarrow> string list" where
  "unalias_cmd show_ip name addr = [''ifconfig'', name, ifconfig_proto addr, ''-alias'', show_ip addr]"

definition wrapped :: "string \<Rightarrow> 'a res \<Rightarrow> 'a res" where
  "wrapped msg r = (case r of Inl (GoError e) \<Rightarrow> Err (msg @ '': '' @ e) | _ \<Rightarrow> r)"

definition darwin_addIfaceIP :: "ifconfig \<Rightarrow> string \<Rightarrow> netIP \<Rightarrow> iface \<Rightarrow> iface res" where
  "darwin_addIfaceIP os name addr iface =
     bind_res (checkIP (ic_net os) addr iface) (\<lambda>assigned.
       if assigned then Ok iface
       else wrapped ''can't add address'' (ic_Run os (alias_cmd (ic_String os) name addr) iface))"

definition darwin_deleteIfaceIP :: "ifconfig \<Rightarrow> string \<Rightarrow> netIP \<Rightarrow> iface \<Rightarrow> iface res" where
  "darwin_deleteIfaceIP os name addr iface =
     bind_res (checkIP (ic_net os) addr iface) (\<lambda>assigned.
       if \<not> assigned then Ok iface
       else wrapped ''can't remove address'' (ic_Run os (unalias_cmd (ic_String os) name addr) iface))"

text \<open>FreeBSD prints the command before it runs it.\<close>

definition freebsd_addIfaceIP :: "ifconfig \<Rightarrow> string \<Rightarrow> netIP \<Rightarrow> iface \<Rightarrow> string list list \<times> iface res" where
  "freebsd_addIfaceIP os name addr iface =
     (case checkIP (ic_net os) addr iface of
        Inl e \<Rightarrow> ([], Inl e)
      | Inr assigned \<Rightarrow>
          if assigned then ([], Ok iface)
          else let cmd = alias_cmd (ic_String os) name addr
               in ([cmd], wrapped ''can't add address'' (ic_Run os cmd iface)))"

definition freebsd_deleteIfaceIP :: "ifconfig \<Rightarrow> string \<Rightarrow> netIP \<Rightarrow> iface \<Rightarrow> iface res" where
  "freebsd_deleteIfaceIP os name addr iface =
     bind_res (checkIP (ic_net os) addr iface) (\<lambda>assigned.
       if \<not> assigned then Ok iface
       else wrapped ''can't remove address'' (ic_Run os (unalias_cmd (ic_String os) name addr) iface))"

text \<open>
  What the server does with the addresses of its configuration: each listener assigns its own, whatever the order, and
  stopping removes all. An error is logged and leaves the interface as it was.
\<close>

definition add_all :: "(netIP \<Rightarrow> iface \<Rightarrow> iface res) \<Rightarrow> netIP list \<Rightarrow> iface \<Rightarrow> iface" where
  "add_all add ips iface = fold (\<lambda>ip iface. res_or iface (add ip iface)) ips iface"

definition delete_all :: "(netIP \<Rightarrow> iface \<Rightarrow> iface res) \<Rightarrow> netIP list \<Rightarrow> iface \<Rightarrow> iface" where
  "delete_all del ips iface = fold (\<lambda>ip iface. res_or iface (del ip iface)) ips iface"

section \<open>The flags of the responder\<close>

definition responder_log_levels :: "string list" where
  "responder_log_levels = [''debug'', ''info'', ''warning'', ''error'']"

definition responder_main ::
    "string \<Rightarrow> int \<Rightarrow> netIP list \<Rightarrow> bool \<Rightarrow> duration \<Rightarrow> string \<Rightarrow> int \<Rightarrow> iface \<Rightarrow> 'addr Responder res" where
  "responder_main logLevel n ips ann extra refID stratum iface =
     (if logLevel \<notin> set responder_log_levels then Err ''Unrecognized log level: %v''
      else Responder_New n ips ann extra refID stratum iface)"

section \<open>Addresses in their two forms\<close>

definition valid_ip :: "netIP \<Rightarrow> bool" where
  "valid_ip ip \<longleftrightarrow> length ip = 4 \<or> length ip = 16"

lemma IP_Equal_refl [simp]: "IP_Equal ip ip"
  by (simp add: IP_Equal_def)

lemma IP_Equal_To16: "valid_ip a \<Longrightarrow> valid_ip b \<Longrightarrow> IP_Equal a b \<longleftrightarrow> To16 a = To16 b"
proof -
  assume "valid_ip a" "valid_ip b"
  moreover have "x = v4InV6Prefix @ y \<longleftrightarrow> take 12 x = v4InV6Prefix \<and> drop 12 x = y" if "length x = 16" for x y :: bytes
  proof -
    have "length v4InV6Prefix = 12" by (simp add: v4InV6Prefix_def)
    then show ?thesis by (metis append_eq_conv_conj)
  qed
  ultimately show ?thesis
    by (auto simp: IP_Equal_def To16_def valid_ip_def) metis+
qed

lemma IP_Equal_mask: "valid_ip a \<Longrightarrow> valid_ip b \<Longrightarrow> IP_Equal a b \<Longrightarrow> mask_bits a = mask_bits b"
  by (auto simp: IP_Equal_def mask_bits_def To4_def valid_ip_def split: if_splits)

definition assigned :: "netIP \<Rightarrow> iface \<Rightarrow> bool" where
  "assigned ip iface \<longleftrightarrow> list_ex (\<lambda>(ip', m). IP_Equal ip' ip) iface"

text \<open>
  What the responder relies on: an address that is assigned stays as it is, another one is added in one of its forms with
  the prefix length of its family, and removing an address takes it off in every form, as long as it carries that prefix
  length.
\<close>

locale platform =
  fixes ok :: "'os \<Rightarrow> bool"
    and add :: "'os \<Rightarrow> netIP \<Rightarrow> iface \<Rightarrow> iface res"
    and del :: "'os \<Rightarrow> netIP \<Rightarrow> iface \<Rightarrow> iface res"
  assumes add_known: "ok os \<Longrightarrow> valid_ip ip \<Longrightarrow> assigned ip i \<Longrightarrow> add os ip i = Ok i"
    and add_new: "ok os \<Longrightarrow> valid_ip ip \<Longrightarrow> \<not> assigned ip i \<Longrightarrow>
      \<exists>ip'. valid_ip ip' \<and> IP_Equal ip' ip \<and> add os ip i = Ok (i @ [(ip', mask_bits ip)])"
    and delete: "ok os \<Longrightarrow> valid_ip ip \<Longrightarrow> prefixes_ok [ip] i \<Longrightarrow>
      del os ip i = Ok (filter (\<lambda>(ip', m). \<not> IP_Equal ip' ip) i)"
begin

lemma add_all_extends:
  assumes "ok os" and "list_all valid_ip ips"
  shows "\<exists>new. add_all (add os) ips i = i @ new \<and>
    (\<forall>(ip', m) \<in> set new. valid_ip ip' \<and> m = mask_bits ip' \<and> (\<exists>ip \<in> set ips. IP_Equal ip' ip)) \<and>
    (\<forall>ip \<in> set ips. assigned ip (i @ new))"
  using assms(2)
proof (induction ips arbitrary: i)
  case Nil
  then show ?case by (simp add: add_all_def)
next
  case (Cons ip ips)
  obtain one where one: "res_or i (add os ip i) = i @ one" "assigned ip (i @ one)"
      "\<forall>(ip', m) \<in> set one. valid_ip ip' \<and> m = mask_bits ip' \<and> IP_Equal ip' ip"
  proof (cases "assigned ip i")
    case True
    then show ?thesis using add_known [OF assms(1) _ True] Cons.prems that [of "[]"] by (simp add: res_or_def)
  next
    case False
    obtain ip' where "valid_ip ip'" "IP_Equal ip' ip" "add os ip i = Ok (i @ [(ip', mask_bits ip)])"
      using add_new [OF assms(1) _ False] Cons.prems by auto
    then show ?thesis
      using that [of "[(ip', mask_bits ip)]"] IP_Equal_mask [of ip' ip] Cons.prems by (simp add: res_or_def assigned_def)
  qed
  obtain new where new: "add_all (add os) ips (i @ one) = (i @ one) @ new"
      "\<forall>(ip', m) \<in> set new. valid_ip ip' \<and> m = mask_bits ip' \<and> (\<exists>ip \<in> set ips. IP_Equal ip' ip)"
      "\<forall>ip \<in> set ips. assigned ip ((i @ one) @ new)"
    using Cons.IH [of "i @ one"] Cons.prems by auto
  have "assigned ip (i @ one @ new)" using one(2) by (auto simp: assigned_def)
  then show ?case
    using new one by (intro exI [of _ "one @ new"]) (fastforce simp: add_all_def)
qed

lemma delete_all_filters:
  assumes "ok os" and "list_all valid_ip ips" and "prefixes_ok ips i"
  shows "delete_all (del os) ips i = filter (\<lambda>(ip', m). \<not> list_ex (IP_Equal ip') ips) i"
  using assms(2,3)
proof (induction ips arbitrary: i)
  case Nil
  then show ?case by (simp add: delete_all_def filter_id_conv)
next
  case (Cons ip ips)
  let ?i = "filter (\<lambda>(ip', m). \<not> IP_Equal ip' ip) i"
  have "prefixes_ok [ip] i" "prefixes_ok ips ?i" using Cons.prems by (auto simp: prefixes_ok_def list_all_iff)
  then show ?case
    using Cons delete [OF assms(1), of ip i]
    by (auto simp: delete_all_def res_or_def intro!: filter_cong)
qed

text \<open>Starting and stopping leaves the interface as it was found, when none of the addresses was on it.\<close>

lemma start_stop:
  assumes "ok os" and "list_all valid_ip ips" and "\<forall>ip \<in> set ips. \<not> assigned ip i"
  shows "delete_all (del os) ips (add_all (add os) ips i) = i \<and> (\<forall>ip \<in> set ips. assigned ip (add_all (add os) ips i))"
proof -
  obtain new where new: "add_all (add os) ips i = i @ new" "\<forall>ip \<in> set ips. assigned ip (i @ new)"
      "\<forall>(ip', m) \<in> set new. valid_ip ip' \<and> m = mask_bits ip' \<and> (\<exists>ip \<in> set ips. IP_Equal ip' ip)"
    using add_all_extends [OF assms(1,2), of i] by auto
  have old: "\<not> IP_Equal ip' ip" if "(ip', m) \<in> set i" "ip \<in> set ips" for ip' m ip
    using that assms(3) by (fastforce simp: assigned_def list_ex_iff)
  have "prefixes_ok ips (i @ new)"
  proof -
    have "m = mask_bits ip" if entry: "(a, m) \<in> set (i @ new)" and ip: "ip \<in> set ips" and eq: "IP_Equal a ip" for a m ip
    proof -
      have "(a, m) \<in> set new" using entry ip eq old by auto
      then have "valid_ip a" "m = mask_bits a" using new(3) by auto
      moreover have "valid_ip ip" using ip assms(2) by (simp add: list_all_iff)
      ultimately show ?thesis using IP_Equal_mask [of a ip] eq by simp
    qed
    then show ?thesis by (auto simp: prefixes_ok_def list_all_iff)
  qed
  then have "delete_all (del os) ips (i @ new) = filter (\<lambda>(ip', m). \<not> list_ex (IP_Equal ip') ips) (i @ new)"
    by (rule delete_all_filters [OF assms(1,2)])
  moreover have "filter (\<lambda>(ip', m). \<not> list_ex (IP_Equal ip') ips) i = i"
    using old by (auto simp: filter_id_conv list_ex_iff)
  moreover have "filter (\<lambda>(ip', m). \<not> list_ex (IP_Equal ip') ips) new = []"
    using new(3) by (fastforce simp: filter_empty_conv list_ex_iff)
  ultimately show ?thesis using new(1,2) by simp
qed

end

section \<open>The three platforms\<close>

text \<open>
  What is assumed of the systems: the addresses are listed, netlink and \<open>ifconfig\<close> add an address in one of its two forms,
  and take it off.
\<close>

definition linux_ok :: "netlink \<Rightarrow> bool" where
  "linux_ok nl \<longleftrightarrow> netlink_spec nl \<and> (\<forall>ip i. valid_ip ip \<longrightarrow> \<not> assigned ip i \<longrightarrow>
     (\<exists>ip'. valid_ip ip' \<and> IP_Equal ip' ip \<and> nl_AddrAdd nl ip (mask_bits ip) i = Ok (i @ [(ip', mask_bits ip)])))"

definition ifconfig_ok :: "ifconfig \<times> string \<Rightarrow> bool" where
  "ifconfig_ok = (\<lambda>(os, name).
     (\<forall>i. nl_Addrs (ic_net os) i = Ok (map fst i)) \<and>
     (\<forall>ip i. valid_ip ip \<longrightarrow> \<not> assigned ip i \<longrightarrow>
       (\<exists>ip'. valid_ip ip' \<and> IP_Equal ip' ip \<and>
         ic_Run os (alias_cmd (ic_String os) name ip) i = Ok (i @ [(ip', mask_bits ip)]))) \<and>
     (\<forall>ip i. valid_ip ip \<longrightarrow> assigned ip i \<longrightarrow>
       ic_Run os (unalias_cmd (ic_String os) name ip) i = Ok (filter (\<lambda>(ip', m). \<not> IP_Equal ip' ip) i)))"

lemma assigned_listed: "list_ex (\<lambda>ip'. IP_Equal ip' ip) (map fst i) \<longleftrightarrow> assigned ip i"
  by (induction i) (auto simp: assigned_def)

lemma not_assigned_filter: "\<not> assigned ip i \<Longrightarrow> filter (\<lambda>(ip', m). \<not> IP_Equal ip' ip) i = i"
  by (induction i) (auto simp: assigned_def)

interpretation linux: platform linux_ok addIfaceIP deleteIfaceIP
proof
  fix os ip i
  assume ok: "linux_ok os" and v: "valid_ip ip"
  have check: "checkIP os ip i = Ok (assigned ip i)"
    using ok by (simp add: linux_ok_def netlink_spec_def checkIP_def assigned_listed)
  show "addIfaceIP os ip i = Ok i" if "assigned ip i"
    using that check by (simp add: addIfaceIP_def)
  show "\<exists>ip'. valid_ip ip' \<and> IP_Equal ip' ip \<and> addIfaceIP os ip i = Ok (i @ [(ip', mask_bits ip)])" if new: "\<not> assigned ip i"
  proof -
    obtain ip' where "valid_ip ip'" "IP_Equal ip' ip" "nl_AddrAdd os ip (mask_bits ip) i = Ok (i @ [(ip', mask_bits ip)])"
      using ok v new unfolding linux_ok_def by blast
    then show ?thesis using ok new check by (auto simp: linux_ok_def netlink_spec_def addIfaceIP_def)
  qed
  show "deleteIfaceIP os ip i = Ok (filter (\<lambda>(ip', m). \<not> IP_Equal ip' ip) i)" if "prefixes_ok [ip] i"
    using deleteIPFromInterface_spec [OF _ that, of os] ok
    by (simp add: linux_ok_def netlink_spec_def deleteIPFromInterface_def)
qed

lemmas ifconfig_laws = ifconfig_ok_def checkIP_def assigned_listed wrapped_def not_assigned_filter

interpretation darwin: platform ifconfig_ok "\<lambda>(os, name). darwin_addIfaceIP os name" "\<lambda>(os, name). darwin_deleteIfaceIP os name"
  by unfold_locales (fastforce simp: ifconfig_laws darwin_addIfaceIP_def darwin_deleteIfaceIP_def)+

interpretation freebsd: platform ifconfig_ok
  "\<lambda>(os, name) ip i. snd (freebsd_addIfaceIP os name ip i)" "\<lambda>(os, name). freebsd_deleteIfaceIP os name"
  by unfold_locales (fastforce simp: ifconfig_laws freebsd_addIfaceIP_def freebsd_deleteIfaceIP_def Let_def)+


text \<open>An \<open>ifconfig\<close> that reads an address as its sixteen bytes.\<close>

definition raw_String :: "netIP \<Rightarrow> string" where
  "raw_String ip = map (\<lambda>b. char_of (unat b)) (case To16 ip of Some a \<Rightarrow> a | None \<Rightarrow> [])"

definition raw_parse :: "string \<Rightarrow> netIP" where
  "raw_parse s = map (\<lambda>c. word_of_nat (of_char c)) (take 16 s)"

definition example_ifconfig :: ifconfig where
  "example_ifconfig = \<lparr>ic_net = example_netlink, ic_String = raw_String,
     ic_Run = (\<lambda>cmd i. let ip = raw_parse (cmd ! 4) in
       if cmd ! 3 = ''alias'' then Ok (i @ [(ip, mask_bits ip)]) else Ok (filter (\<lambda>(ip', m). \<not> IP_Equal ip' ip) i))\<rparr>"

lemma raw_parse_String:
  assumes "valid_ip ip"
  shows "valid_ip (raw_parse (raw_String ip @ s)) \<and> To16 (raw_parse (raw_String ip @ s)) = To16 ip"
proof -
  obtain a where a: "To16 ip = Some a" "length a = 16"
    using assms by (auto simp: valid_ip_def To16_def v4InV6Prefix_def)
  have "word_of_nat (of_char (char_of (unat b) :: char)) = b" for b :: u8
  proof -
    have "unat b < 256" using unsigned_less [of b] by simp
    then show ?thesis by simp
  qed
  then have "raw_parse (raw_String ip @ s) = a" using a by (simp add: raw_parse_def raw_String_def comp_def)
  then show ?thesis using a by (simp add: valid_ip_def To16_def)
qed

lemma raw_same:
  assumes "valid_ip ip"
  shows "valid_ip (raw_parse (raw_String ip @ s))" and "IP_Equal (raw_parse (raw_String ip @ s)) ip"
    and "mask_bits (raw_parse (raw_String ip @ s)) = mask_bits ip"
    and "IP_Equal ip' (raw_parse (raw_String ip @ s)) \<longleftrightarrow> IP_Equal ip' ip"
proof -
  let ?a = "raw_parse (raw_String ip @ s)"
  show v: "valid_ip ?a" using raw_parse_String [OF assms] by simp
  show e: "IP_Equal ?a ip" using raw_parse_String [OF assms] by (simp add: IP_Equal_To16 [OF v assms])
  show "mask_bits ?a = mask_bits ip" by (rule IP_Equal_mask [OF v assms e])
  show "IP_Equal ip' ?a \<longleftrightarrow> IP_Equal ip' ip"
  proof (cases "valid_ip ip'")
    case True
    then show ?thesis using raw_parse_String [OF assms] by (simp add: IP_Equal_To16 v assms)
  next
    case False
    then show ?thesis using v assms by (auto simp: IP_Equal_def valid_ip_def)
  qed
qed

lemma example_ifconfig_ok: "ifconfig_ok (example_ifconfig, name)"
  unfolding ifconfig_ok_def using raw_same [where s = "[]"]
  by (auto simp: example_ifconfig_def example_netlink_def alias_cmd_def unalias_cmd_def raw_same)

lemma example_linux_ok: "linux_ok example_netlink"
  unfolding linux_ok_def using netlink_spec_example by (auto simp: example_netlink_def intro!: exI [of _ ip for ip])


end
