(* ===== verification/PTP_Tools.thy ===== *)
theory PTP_Tools
  imports Socket_Setup Go_Paths
begin

text \<open>
  Two tools over the PTP packets: \<open>cmd/pshark/main.go\<close>, which prints the PTP packets of a capture file, and the report of
  \<open>ptpcheck trace\<close> (\<open>cmd/ptpcheck/cmd/trace.go\<close>). The packet library that splits captured frames into layers is a
  parameter: what it found in a frame is data, and what it is documented to do with the decoder of this tool is a hypothesis
  where a statement needs it.
\<close>

section \<open>The filter of pshark\<close>

type_synonym MultiMessageType = "MessageType list"

text \<open>Go visits the entries of \<open>MessageTypeToString\<close> in the order \<open>order\<close>.\<close>

definition MultiMessageType_Set :: "(MessageType \<times> string) list \<Rightarrow> string \<Rightarrow> MultiMessageType \<Rightarrow> MultiMessageType res" where
  "MultiMessageType_Set order messageType m =
     (case find (\<lambda>(v, s). s = ToUpper messageType) order of
        Some (v, s) \<Rightarrow> Ok (m @ [v])
      | None \<Rightarrow> Err ''unsupported msg type %q'')"

definition MultiMessageType_String :: "MultiMessageType \<Rightarrow> string" where
  "MultiMessageType_String m = strings_Join '','' (map MessageType_String m)"

definition GetDefaults :: "(MessageType \<times> string) list \<Rightarrow> MessageType list" where
  "GetDefaults order = map fst order"

definition SetDefault :: "(MessageType \<times> string) list \<Rightarrow> MultiMessageType \<Rightarrow> MultiMessageType" where
  "SetDefault order m = (if length m \<noteq> 0 then m else m @ GetDefaults order)"

text \<open>The flag \<open>-msgtype\<close>, which may be repeated: the first value that is refused ends the parsing of the flags.\<close>

fun parse_msgtypes :: "(MessageType \<times> string) list \<Rightarrow> string list \<Rightarrow> MultiMessageType \<Rightarrow> MultiMessageType res" where
  "parse_msgtypes order [] m = Ok m"
| "parse_msgtypes order (s # ss) m = bind_res (MultiMessageType_Set order s m) (parse_msgtypes order ss)"

section \<open>Printing a capture\<close>

text \<open>
  A captured frame after the library has split it into layers: the addresses of its IPv6 or IPv4 header, the ports of its UDP
  header, the PTP layer, and the failure of a decoder.
\<close>

record frame =
  fr_IPv6 :: "(netIP \<times> netIP) option"
  fr_IPv4 :: "(netIP \<times> netIP) option"
  fr_UDP :: "(u16 \<times> u16) option"
  fr_PTP :: "Packet option"
  fr_Error :: "string option"

definition decodePTP :: "bytes \<Rightarrow> Packet res" where
  "decodePTP data =
     (case DecodePacket mgmtTLVDecoder data of
        Inl (GoError e) \<Rightarrow> Err (''decoding PTPv2 packet: '' @ e) | r \<Rightarrow> r)"

text \<open>What is printed of a frame: the two ends and the packet.\<close>

record printed =
  pd_src :: "netIP \<times> u16"
  pd_dst :: "netIP \<times> u16"
  pd_Packet :: Packet

text \<open>A frame without an IPv6 header is taken to have an IPv4 header; the fields of a missing one are those of a nil pointer.\<close>

definition print_frame :: "frame \<Rightarrow> Packet \<Rightarrow> printed res" where
  "print_frame f p =
     bind_res (case fr_IPv6 f of Some ip \<Rightarrow> Ok ip | None \<Rightarrow> (case fr_IPv4 f of Some ip \<Rightarrow> Ok ip | None \<Rightarrow> Inl Panic)) (\<lambda>(src, dst).
       let (sport, dport) = (case fr_UDP f of Some ports \<Rightarrow> ports | None \<Rightarrow> (0, 0))
       in Ok \<lparr>pd_src = (src, sport), pd_dst = (dst, dport), pd_Packet = p\<rparr>)"

text \<open>The loop over the frames: what it prints and how it ends. A frame the filter drops skips the check for a failure, too.\<close>

fun print_frames :: "MessageType set \<Rightarrow> frame list \<Rightarrow> printed list \<times> unit res" where
  "print_frames filterMap [] = ([], Ok ())"
| "print_frames filterMap (f # fs) =
     (let failure = (case fr_Error f of
              Some e \<Rightarrow> ([], Err (''failed to decode: '' @ e))
            | None \<Rightarrow> print_frames filterMap fs)
      in case fr_PTP f of
           None \<Rightarrow> failure
         | Some p \<Rightarrow>
             if Packet_MessageType p \<notin> filterMap then print_frames filterMap fs
             else (case print_frame f p of
                 Inl e \<Rightarrow> ([], Inl e)
               | Inr out \<Rightarrow> (out # fst failure, snd failure)))"

text \<open>
  Opening the file and reading it as the newer format, or from its start as the older one. The outcome of each is an
  argument.
\<close>

definition open_capture :: "unit res \<Rightarrow> frame list res \<Rightarrow> unit res \<Rightarrow> frame list res \<Rightarrow> frame list res" where
  "open_capture opened ng seek older =
     bind_res opened (\<lambda>_.
       case ng of
         Inr fs \<Rightarrow> Ok fs
       | Inl _ \<Rightarrow>
           bind_res (case seek of Inl (GoError e) \<Rightarrow> Err (''seeking in %s: '' @ e) | r \<Rightarrow> r) (\<lambda>_.
             case older of Inl (GoError e) \<Rightarrow> Err (''decoding %s: '' @ e) | r \<Rightarrow> r))"

definition pshark_run :: "unit res \<Rightarrow> frame list res \<Rightarrow> unit res \<Rightarrow> frame list res \<Rightarrow> MessageType list \<Rightarrow> printed list \<times> unit res" where
  "pshark_run opened ng seek older filter_list =
     (case open_capture opened ng seek older of Inl e \<Rightarrow> ([], Inl e) | Inr fs \<Rightarrow> print_frames (set filter_list) fs)"

text \<open>The command: the flags, one argument, and the run with the filter completed.\<close>

definition pshark_main ::
  "(MessageType \<times> string) list \<Rightarrow> string list \<Rightarrow> string list \<Rightarrow> (string \<Rightarrow> unit res \<times> frame list res \<times> unit res \<times> frame list res) \<Rightarrow>
   printed list \<times> unit res" where
  "pshark_main order flags args capture =
     (case parse_msgtypes order flags [] of
        Inl e \<Rightarrow> ([], Inl e)
      | Inr msgTypes \<Rightarrow>
          if length args \<noteq> 1 then ([], Err ''usage'')
          else let (opened, ng, seek, older) = capture (hd args)
               in pshark_run opened ng seek older (SetDefault order msgTypes))"

section \<open>The report of a trace\<close>

text \<open>The printed form of a duration is an argument; the table is the list of its rows of cells.\<close>

definition reportMeasurements :: "(int \<Rightarrow> string) \<Rightarrow> MeasurementResult list \<Rightarrow> string list list" where
  "reportMeasurements fmt history =
     (if length history = 0 then [[''No measurements collected'']]
      else [[''Collected measurements:''],
            ''N'' # map (\<lambda>i. show_nat i) [0..<length history],
            ''delay'' # map (\<lambda>d. fmt (mr_Delay d)) history,
            ''offset'' # map (\<lambda>d. fmt (mr_Offset d)) history])"

definition context_ended :: "goerr \<Rightarrow> bool" where
  "context_ended e \<longleftrightarrow> e = GoError ''context canceled'' \<or> e = GoError ''context deadline exceeded''"

text \<open>
  The callback appends every result the client reports. \<open>run\<close> is the run of the client: the state it ends in, with the
  results in the order of the reports, and its error.
\<close>

definition runTrace ::
    "(int \<Rightarrow> string) \<Rightarrow> (ClientConfig \<Rightarrow> Client \<times> unit res) \<Rightarrow> ClientConfig \<Rightarrow> string list list \<times> unit res" where
  "runTrace fmt run cfg =
     (case run cfg of (c, err) \<Rightarrow>
        (reportMeasurements fmt (cl_results c),
         case err of Inl e \<Rightarrow> if context_ended e then Ok () else Inl e | Inr _ \<Rightarrow> Ok ()))"

definition traceCmd ::
    "(int \<Rightarrow> string) \<Rightarrow> (ClientConfig \<Rightarrow> Client \<times> unit res) \<Rightarrow> ClientConfig \<Rightarrow> string list list \<times> unit res" where
  "traceCmd fmt run flags =
     (if cc_Address flags = [] then ([], Err ''remote server must be specified'')
      else if cc_Duration flags > cc_Timeout flags then ([], Err ''duration must be less than timeout'')
      else runTrace fmt run flags)"

section \<open>Names of message types\<close>

text \<open>Go may visit the entries of the table in any order.\<close>

definition visits :: "(MessageType \<times> string) list \<Rightarrow> bool" where
  "visits order \<longleftrightarrow> set order = set MessageTypeToString"

lemma table_functional:
  assumes "(t, s) \<in> set MessageTypeToString" and "(u, s') \<in> set MessageTypeToString"
  shows "t = u \<longleftrightarrow> s = s'"
proof -
  have "distinct (map fst MessageTypeToString)" "distinct (map snd MessageTypeToString)" by (simp_all add: MessageTypeToString_def)
  then show ?thesis using assms by (metis eq_key_imp_eq_value distinct_map inj_onD snd_conv prod.inject)
qed

lemma MessageType_String_table: "(t, s) \<in> set MessageTypeToString \<Longrightarrow> MessageType_String t = s"
proof -
  assume "(t, s) \<in> set MessageTypeToString"
  moreover have "distinct (map fst MessageTypeToString)" by (simp add: MessageTypeToString_def)
  ultimately have "map_of MessageTypeToString t = Some s" by simp
  then show ?thesis by (simp add: MessageType_String_def lookup_name_def)
qed

lemma Set_named:
  assumes "visits order" and "(t, ToUpper s) \<in> set MessageTypeToString"
  shows "MultiMessageType_Set order s m = Ok (m @ [t])"
proof -
  have "find (\<lambda>(v, n). n = ToUpper s) order \<noteq> None"
    using assms unfolding visits_def find_None_iff by auto
  then obtain v n where f: "find (\<lambda>(v, n). n = ToUpper s) order = Some (v, n)" by auto
  then have "(v, n) \<in> set order \<and> n = ToUpper s" unfolding find_Some_iff using nth_mem by fastforce
  then have "(v, n) \<in> set MessageTypeToString \<and> n = ToUpper s" using assms(1) by (auto simp: visits_def)
  then have "v = t" using assms(2) table_functional by blast
  with f show ?thesis by (simp add: MultiMessageType_Set_def)
qed

lemma parse_named:
  assumes "visits order" and "list_all2 (\<lambda>s t. (t, ToUpper s) \<in> set MessageTypeToString) ss ts"
  shows "parse_msgtypes order ss m = Ok (m @ ts)"
  using assms(2) by (induction arbitrary: m rule: list_all2_induct) (simp_all add: Set_named [OF assms(1)])

text \<open>
  The filter survives being printed and parsed again: the printed list, split at its commas and given back as flags, sets the
  same message types in the same order.
\<close>
theorem MultiMessageType_roundtrip:
  assumes "visits order" and "m \<noteq> []" and "set m \<subseteq> fst ` set MessageTypeToString"
  shows "parse_msgtypes order (strings_Split CHR '','' (MultiMessageType_String m)) [] = Ok m"
proof -
  have named: "(t, MessageType_String t) \<in> set MessageTypeToString" if "t \<in> fst ` set MessageTypeToString" for t
    using that MessageType_String_table by force
  have plain: "ToUpper s = s \<and> CHR '','' \<notin> set s" if "(t, s) \<in> set MessageTypeToString" for t s
    using that by (auto simp: MessageTypeToString_def ToUpper_def upper_def)
  have "strings_Split CHR '','' (MultiMessageType_String m) = map MessageType_String m"
    unfolding MultiMessageType_String_def using assms(2,3) named plain
    by (intro strings_Split_Join) (auto simp: list_all_iff subset_iff)
  moreover have "list_all2 (\<lambda>s t. (t, ToUpper s) \<in> set MessageTypeToString) (map MessageType_String m) m"
  proof -
    have "(t, ToUpper (MessageType_String t)) \<in> set MessageTypeToString" if "t \<in> set m" for t
    proof -
      have "t \<in> fst ` set MessageTypeToString" using that assms(3) by blast
      then have "(t, MessageType_String t) \<in> set MessageTypeToString" by (rule named)
      then show ?thesis using plain by simp
    qed
    then show ?thesis by (simp add: list_all2_conv_all_nth)
  qed
  ultimately show ?thesis using parse_named [OF assms(1)] by simp
qed

theorem MultiMessageType_roundtrip_witness:
  "parse_msgtypes (rev MessageTypeToString)
     (strings_Split CHR '','' (MultiMessageType_String [MessageSync, MessageAnnounce])) [] = Ok [MessageSync, MessageAnnounce]"
  by (rule MultiMessageType_roundtrip) (simp add: visits_def, simp_all add: MessageTypeToString_def)

section \<open>What pshark prints\<close>

text \<open>
  The packet library hands the UDP payload on the PTP ports to \<open>decodePTP\<close>: a decoded packet becomes a layer, an error or a
  panic of the decoder a failure layer.
\<close>

definition splits :: "frame \<Rightarrow> bytes \<Rightarrow> bool" where
  "splits f data \<longleftrightarrow>
     (case decodePTP data of Inr p \<Rightarrow> fr_PTP f = Some p \<and> fr_Error f = None | Inl _ \<Rightarrow> fr_PTP f = None \<and> fr_Error f \<noteq> None)"

definition carries :: "frame \<Rightarrow> Packet \<Rightarrow> bool" where
  "carries f p \<longleftrightarrow> packet_ok p \<and> (\<exists>bs. Packet_Bytes p = Ok bs \<and> splits f bs) \<and> (fr_IPv6 f \<noteq> None \<or> fr_IPv4 f \<noteq> None)"

lemma carries_layers:
  assumes "carries f p"
  shows "fr_PTP f = Some p \<and> fr_Error f = None \<and> (\<exists>out. print_frame f p = Ok out \<and> pd_Packet out = p)"
proof -
  obtain bs where "Packet_Bytes p = Ok bs" "DecodePacket mgmtTLVDecoder bs = Ok p" "splits f bs"
    using assms decode_packet_bytes by (fastforce simp: carries_def)
  then have "fr_PTP f = Some p \<and> fr_Error f = None" by (simp add: splits_def decodePTP_def)
  moreover have "\<exists>out. print_frame f p = Ok out \<and> pd_Packet out = p"
    using assms by (auto simp: carries_def print_frame_def Let_def split: option.splits prod.splits)
  ultimately show ?thesis by blast
qed

lemma print_frames_carried:
  "list_all2 carries fs ps \<Longrightarrow>
     \<exists>out. print_frames T fs = (out, Ok ()) \<and> map pd_Packet out = filter (\<lambda>p. Packet_MessageType p \<in> T) ps"
proof (induction rule: list_all2_induct)
  case (Cons f fs p ps)
  obtain o1 where "fr_PTP f = Some p" "fr_Error f = None" "print_frame f p = Ok o1" "pd_Packet o1 = p"
    using carries_layers [OF Cons.hyps(1)] by blast
  with Cons.IH show ?case by auto
qed simp

lemma packet_ok_named: "packet_ok p \<Longrightarrow> Packet_MessageType p \<in> fst ` set MessageTypeToString"
  by (cases p) (auto simp: Packet_MessageType_def MessageTypeToString_def signaling_ok_def)


definition example_frame :: frame where
  "example_frame = \<lparr>fr_IPv6 = Some (replicate 16 0, replicate 16 1), fr_IPv4 = None, fr_UDP = Some (320, 320),
     fr_PTP = Some (P_Signaling example_Signaling), fr_Error = None\<rparr>"

lemma example_frame_carries: "carries example_frame (P_Signaling example_Signaling)"
proof -
  have ok: "packet_ok (P_Signaling example_Signaling)"
    by (simp add: length_example_Signaling signaling_ok_def Header_MessageType_def MsgType_def)
      (simp add: example_Signaling_def example_packet_defs)
  then show ?thesis using decode_packet_bytes [OF ok]
    by (auto simp: carries_def splits_def decodePTP_def example_frame_def)
qed


text \<open>
  A frame with a PTP layer but neither kind of IP header panics the tool, if its type is selected.
\<close>
lemma pshark_no_ip_panics:
  assumes "fr_PTP f = Some p" and "Packet_MessageType p \<in> T" and "fr_IPv6 f = None" and "fr_IPv4 f = None"
  shows "snd (print_frames T (f # fs)) = Inl Panic"
  using assms by (simp add: print_frame_def)

text \<open>
  One frame that no decoder understands ends the output, whether it has to do with PTP or not: nothing behind it is printed.
\<close>
theorem pshark_stops_at_failure:
  assumes "list_all2 carries fs ps" and "fr_PTP f = None" and "fr_Error f = Some e"
  shows "\<exists>out. print_frames T (fs @ f # gs) = (out, Err (''failed to decode: '' @ e)) \<and>
    map pd_Packet out = filter (\<lambda>p. Packet_MessageType p \<in> T) ps"
  using assms(1)
proof (induction rule: list_all2_induct)
  case Nil
  then show ?case using assms(2,3) by simp
next
  case (Cons g gs' p ps)
  obtain o1 where "fr_PTP g = Some p" "fr_Error g = None" "print_frame g p = Ok o1" "pd_Packet o1 = p"
    using carries_layers [OF Cons.hyps(1)] by blast
  with Cons.IH show ?case by auto
qed

theorem pshark_stops_at_failure_witness:
  "\<exists>out. print_frames UNIV ([example_frame] @ example_frame\<lparr>fr_PTP := None, fr_Error := Some ''short''\<rparr> # [example_frame]) =
      (out, Err (''failed to decode: '' @ ''short'')) \<and> map pd_Packet out = [P_Signaling example_Signaling]"
  using pshark_stops_at_failure [of "[example_frame]" "[P_Signaling example_Signaling]"
      "example_frame\<lparr>fr_PTP := None, fr_Error := Some ''short''\<rparr>" "''short''" UNIV "[example_frame]"] example_frame_carries
  by simp

end
