(* ===== verification/Ziffy_Trace.thy ===== *)
theory Ziffy_Trace
  imports PTP_Decode Timestamping Go_Strings "HOL-Library.Multiset"
begin

text \<open>
  \<open>cmd/ziffy/node\<close>: the sender that sweeps the network with PTP packets of growing hop limit and collects the ICMP
  replies (\<open>packets.go\<close>, \<open>sender.go\<close>), and the receiver that answers as the last hop (\<open>receiver.go\<close>). System calls, name
  resolution and the packets captured by \<open>pcap\<close> are arguments; what the ICMP goroutines put into the queue while
  the sender works is an argument of the step during which it happens.
\<close>

section \<open>Configuration and results\<close>

definition ZiffyHexa :: u8 where [simp]: "ZiffyHexa = 0xff"
definition Ipv6HeaderSize :: nat where [simp]: "Ipv6HeaderSize = 40"
definition UDPHeaderSize :: nat where [simp]: "UDPHeaderSize = 8"
definition ICMPHeaderSize :: nat where [simp]: "ICMPHeaderSize = 8"
definition PTPUnusedSize :: nat where [simp]: "PTPUnusedSize = 10"

text \<open>The configuration; port numbers and counts are natural numbers, as a negative count runs no loop.\<close>

record ZiffyConfig =
  zc_Mode :: string
  zc_LogLevel :: string
  zc_Device :: string
  zc_CsvFile :: string
  zc_DestinationAddress :: string
  zc_DestinationPort :: nat
  zc_SourcePort :: nat
  zc_PortCount :: nat
  zc_HopMax :: int
  zc_HopMin :: int
  zc_IPCount :: nat
  zc_DSCP :: int
  zc_PTPRecvHandlers :: int
  zc_ContReached :: bool
  zc_IcmpTimeout :: duration
  zc_MessageType :: MessageType
  zc_LLDPWaitTime :: duration
  zc_IcmpReplyTime :: duration
  zc_QueueCap :: nat

record SwitchTrafficInfo =
  sw_ip :: string
  sw_corrField :: Correction
  sw_routeIdx :: nat
  sw_hop :: int

record PathInfo =
  pa_switches :: "SwitchTrafficInfo list"
  pa_rackSwHostname :: string

text \<open>
  The checks of \<open>main.go\<close>, which end the process, and the modes; a configuration with another mode does nothing.
\<close>

datatype ziffy_mode = Mode_receiver | Mode_sender | Mode_none

definition message_types :: "(string \<times> MessageType) list" where
  "message_types = [(''delay_req'', MessageDelayReq), (''sync'', MessageSync), (''signaling'', MessageSignaling)]"

definition log_levels :: "string list" where
  "log_levels = [''trace'', ''debug'', ''info'', ''warning'', ''error'']"

definition ziffy_main :: "string \<Rightarrow> ZiffyConfig \<Rightarrow> (ZiffyConfig \<times> ziffy_mode) res" where
  "ziffy_main messageType c =
     (if zc_DSCP c < 0 \<or> zc_DSCP c > 63 then Err ''unsupported DSCP value %v''
      else case map_of message_types messageType of
          None \<Rightarrow> Err ''unsupported message type %q''
        | Some t \<Rightarrow>
            if zc_LogLevel c \<notin> set log_levels then Err ''unrecognized log level: %v''
            else Ok (c\<lparr>zc_MessageType := t\<rparr>,
              if zc_Mode c = ''receiver'' then Mode_receiver else if zc_Mode c = ''sender'' then Mode_sender else Mode_none))"

section \<open>Probes\<close>

definition probe_header :: "MessageType \<Rightarrow> u16 \<Rightarrow> int \<Rightarrow> int \<Rightarrow> Header" where
  "probe_header msgType len hop routeIndex =
     \<lparr>h_SdoIDAndMsgType = NewSdoIDAndMsgType msgType 0, h_Version = Version, h_MessageLength = len, h_DomainNumber = 0,
      h_MinorSdoID = 0, h_FlagField = FlagUnicast, h_CorrectionField = 0, h_MessageTypeSpecific = 0,
      h_SourcePortIdentity = \<lparr>pi_ClockIdentity = 0, pi_PortNumber = word_of_int routeIndex\<rparr>,
      h_SequenceID = word_of_int hop, h_ControlField = ZiffyHexa, h_LogMessageInterval = 0x7f\<rparr>"

definition formSyncPacket :: "MessageType \<Rightarrow> int \<Rightarrow> int \<Rightarrow> SyncDelayReq" where
  "formSyncPacket msgType hop routeIndex =
     \<lparr>sd_Header = probe_header msgType (word_of_nat (csize SyncDelayReq_codec)) hop routeIndex,
      sd_SyncDelayReqBody = \<lparr>sb_OriginTimestamp = zero_Timestamp\<rparr>\<rparr>"

definition formSignalingPacket :: "int \<Rightarrow> int \<Rightarrow> Signaling" where
  "formSignalingPacket hop routeIndex =
     (let l = csize Header_codec + csize PortIdentity_codec + csize Request_codec in
      \<lparr>sg_Header = probe_header MessageSignaling (word_of_nat l) hop routeIndex,
       sg_TargetPortIdentity = \<lparr>pi_ClockIdentity = 0xffffffffffffffff, pi_PortNumber = 0xffff\<rparr>,
       sg_TLVs = [Request_TLV
         \<lparr>rq_TLVHead = \<lparr>th_TLVType = TLVRequestUnicastTransmission,
            th_LengthField = word_of_nat (csize Request_codec - csize TLVHead_codec)\<rparr>,
          rq_MsgTypeAndReserved = NewUnicastMsgTypeAndFlags MessageSync 0, rq_LogInterMessagePeriod = 1,
          rq_DurationField = 0\<rparr>]\<rparr>)"

text \<open>The packet of a probe, by the configured message type.\<close>

definition probe_packet :: "MessageType \<Rightarrow> int \<Rightarrow> int \<Rightarrow> Packet res" where
  "probe_packet msgType hop routeIndex =
     (if msgType = MessageSync \<or> msgType = MessageDelayReq then Ok (P_SyncDelayReq (formSyncPacket msgType hop routeIndex))
      else if msgType = MessageSignaling then Ok (P_Signaling (formSignalingPacket hop routeIndex))
      else Err ''unsupported packet type %v'')"

section \<open>ICMP replies\<close>

definition ICMPTypeTimeExceeded :: u8 where [simp]: "ICMPTypeTimeExceeded = 3"

text \<open>
  The handler looks at the first \<open>len\<close> bytes of the buffer: None if it drops the packet, otherwise what it sends to the
  queue. A packet of an unexpected type is reported as ignored, and an all-zero entry is sent all the same.
\<close>

definition handleIcmpPacket :: "mgmt_decoders \<Rightarrow> bytes \<Rightarrow> nat \<Rightarrow> string \<Rightarrow> SwitchTrafficInfo option res" where
  "handleIcmpPacket decoders rawPacket len rAddr =
     bind_res (index rawPacket 0) (\<lambda>icmpType.
     if icmpType \<noteq> ICMPTypeTimeExceeded then Ok None
     else let ptpOffset = Ipv6HeaderSize + UDPHeaderSize + ICMPHeaderSize in
       if ptpOffset > len then Ok None
       else bind_res (slice rawPacket ptpOffset len) (\<lambda>payload.
         case DecodePacket decoders payload of
           Inl Panic \<Rightarrow> Inl Panic
         | Inl _ \<Rightarrow> Ok None
         | Inr ptpPacket \<Rightarrow>
             let (corrField, sequenceID, portNum) =
               (case ptpPacket of
                  P_SyncDelayReq v \<Rightarrow> (h_CorrectionField (sd_Header v), h_SequenceID (sd_Header v),
                    pi_PortNumber (h_SourcePortIdentity (sd_Header v)))
                | P_Signaling v \<Rightarrow> (h_CorrectionField (sg_Header v), h_SequenceID (sg_Header v),
                    pi_PortNumber (h_SourcePortIdentity (sg_Header v)))
                | _ \<Rightarrow> (0, 0, 0))
             in Ok (Some \<lparr>sw_ip = rAddr, sw_corrField = corrField, sw_routeIdx = unat portNum, sw_hop = uint sequenceID\<rparr>)))"

section \<open>The sender\<close>

text \<open>
  The state of the sender with its queue. Two fields record what happened: \<open>se_sent\<close> the datagrams sent with their hop
  limit and traffic class, \<open>se_arrived\<close> the replies that reached the queue.
\<close>

record Sender =
  se_inputQueue :: "SwitchTrafficInfo list"
  se_routes :: "PathInfo list"
  se_destHop :: int
  se_rackSwHostname :: string
  se_currentRoute :: nat
  se_sent :: "(int \<times> int \<times> bytes) list"
  se_arrived :: "SwitchTrafficInfo list"

definition add_switch :: "SwitchTrafficInfo \<Rightarrow> Sender \<Rightarrow> Sender res" where
  "add_switch sw s =
     (if sw_routeIdx sw < length (se_routes s)
      then Ok (s\<lparr>se_routes := (se_routes s)[sw_routeIdx sw :=
             (se_routes s ! sw_routeIdx sw)\<lparr>pa_switches := pa_switches (se_routes s ! sw_routeIdx sw) @ [sw]\<rparr>]\<rparr>)
      else Inl Panic)"

fun pop_queue :: "SwitchTrafficInfo list \<Rightarrow> Sender \<Rightarrow> Sender res" where
  "pop_queue [] s = Ok s"
| "pop_queue (sw # sws) s = bind_res (add_switch sw s) (pop_queue sws)"

definition arrive :: "SwitchTrafficInfo list \<Rightarrow> Sender \<Rightarrow> Sender" where
  "arrive sws s = s\<lparr>se_inputQueue := se_inputQueue s @ sws, se_arrived := se_arrived s @ sws\<rparr>"

definition popAllQueue :: "Sender \<Rightarrow> Sender res" where
  "popAllQueue s = pop_queue (se_inputQueue s) (s\<lparr>se_inputQueue := []\<rparr>)"

text \<open>
  What the environment does in one probe: the results of the two socket options and of the send, and the replies
  that reach the queue until the \<open>select\<close>. A queue that is still empty then means that the timeout has passed.
\<close>

record probe_env =
  pb_hops :: "unit res"
  pb_tclass :: "unit res"
  pb_send :: "unit res"
  pb_arrived :: "SwitchTrafficInfo list"

text \<open>An error of the loop ends the trace with the state reached; a panic ends the process.\<close>

definition probe :: "ZiffyConfig \<Rightarrow> (string \<Rightarrow> netIP option) \<Rightarrow> netIP \<Rightarrow> probe_env \<Rightarrow> int \<Rightarrow> Sender \<Rightarrow>
    (string option \<times> bool \<times> Sender) res" where
  "probe c parseIP dest e hop s =
     (case bind_res (pb_hops e) (\<lambda>_. bind_res (pb_tclass e) (\<lambda>_.
           bind_res (probe_packet (zc_MessageType c) hop (int (se_currentRoute s))) (\<lambda>p.
           bind_res (Packet_Bytes p) (\<lambda>b. bind_res (pb_send e) (\<lambda>_. Ok b))))) of
        Inl Panic \<Rightarrow> Inl Panic
      | Inl (GoError m) \<Rightarrow> Ok (Some m, False, s)
      | Inr b \<Rightarrow>
          let s = arrive (pb_arrived e) (s\<lparr>se_sent := se_sent s @ [(hop, zc_DSCP c * 4, b)]\<rparr>) in
          case se_inputQueue s of
            [] \<Rightarrow> Ok (None, False, s)
          | sw # queue \<Rightarrow>
              bind_res (add_switch sw (s\<lparr>se_inputQueue := queue\<rparr>)) (\<lambda>s.
                let reached = IP_Equal (case parseIP (sw_ip sw) of None \<Rightarrow> [] | Some ip \<Rightarrow> ip) dest in
                Ok (None, reached, if reached then s\<lparr>se_destHop := hop\<rparr> else s)))"

function trace_hops :: "ZiffyConfig \<Rightarrow> (string \<Rightarrow> netIP option) \<Rightarrow> netIP \<Rightarrow> (int \<Rightarrow> probe_env) \<Rightarrow> int \<Rightarrow> int \<Rightarrow> bool \<Rightarrow> Sender \<Rightarrow>
    (string option \<times> Sender) res" where
  "trace_hops c parseIP dest env hop hopMax destReached s =
     (if hop \<le> hopMax \<and> (\<not> destReached \<or> zc_ContReached c) then
        bind_res (probe c parseIP dest (env hop) hop s) (\<lambda>(err, reached, s).
          case err of
            Some m \<Rightarrow> Ok (Some m, s)
          | None \<Rightarrow> trace_hops c parseIP dest env (hop + 1) hopMax (destReached \<or> reached) s)
      else Ok (None, s))"
  by pat_completeness auto
termination by (relation "measure (\<lambda>(c, parseIP, dest, env, hop, hopMax, destReached, s). nat (hopMax + 1 - hop))") auto

declare trace_hops.simps [simp del]

text \<open>
  One trace: the results of resolving the address, opening the socket, setting its option and binding it, and the
  environment of every probe.
\<close>

record trace_env =
  te_resolved :: "netIP res"
  te_socket :: "unit res"
  te_reuseport :: "unit res"
  te_bind :: "unit res"
  te_probes :: "int \<Rightarrow> probe_env"

definition traceRoute :: "ZiffyConfig \<Rightarrow> (string \<Rightarrow> netIP option) \<Rightarrow> trace_env \<Rightarrow> bool \<Rightarrow> Sender \<Rightarrow> (string option \<times> Sender) res" where
  "traceRoute c parseIP e sweep s =
     (case bind_res (te_resolved e) (\<lambda>ip. bind_res (te_socket e) (\<lambda>_.
           bind_res (te_reuseport e) (\<lambda>_. bind_res (te_bind e) (\<lambda>_. Ok ip)))) of
        Inl Panic \<Rightarrow> Inl Panic
      | Inl (GoError m) \<Rightarrow> Ok (Some m, s)
      | Inr dest \<Rightarrow>
          let hopMax = (if sweep \<and> se_destHop s > 0 then se_destHop s - 1 else zc_HopMax c) in
          trace_hops c parseIP dest (te_probes e) (zc_HopMin c) hopMax False s)"

text \<open>
  A flow: a path is added, the trace runs, and if it succeeds the next route begins and the queue is emptied, with the
  replies that came in after the last probe.
\<close>

definition trace_flow :: "ZiffyConfig \<Rightarrow> (string \<Rightarrow> netIP option) \<Rightarrow> bool \<Rightarrow> trace_env \<times> SwitchTrafficInfo list \<Rightarrow> Sender \<Rightarrow> Sender res" where
  "trace_flow c parseIP sweep e s =
     (let s = s\<lparr>se_routes := se_routes s @ [\<lparr>pa_switches = [], pa_rackSwHostname = se_rackSwHostname s\<rparr>]\<rparr> in
      bind_res (traceRoute c parseIP (fst e) sweep s) (\<lambda>(err, s).
        let s = arrive (snd e) s in
        case err of
          Some _ \<Rightarrow> Ok s
        | None \<Rightarrow> popAllQueue (s\<lparr>se_currentRoute := se_currentRoute s + 1\<rparr>)))"

fun trace_flows :: "ZiffyConfig \<Rightarrow> (string \<Rightarrow> netIP option) \<Rightarrow> (bool \<times> trace_env \<times> SwitchTrafficInfo list) list \<Rightarrow> Sender \<Rightarrow> Sender res" where
  "trace_flows c parseIP [] s = Ok s"
| "trace_flows c parseIP ((sweep, e) # es) s = bind_res (trace_flow c parseIP sweep e s) (trace_flows c parseIP es)"

text \<open>
  The addresses of a sweep: the /64 prefix of the destination followed by face:face:0 and the number. The prefix mask
  does not apply to an address of four bytes, and indexing the nil address that results panics.
\<close>

definition formNewDest :: "netIP res \<Rightarrow> nat \<Rightarrow> netIP res" where
  "formNewDest resolved i =
     (case resolved of
        Inl _ \<Rightarrow> Ok []
      | Inr addr \<Rightarrow>
          if length addr \<noteq> 16 then Inl Panic
          else let ip = take 8 addr @ replicate 8 0;
                   ip = ip[8 := ip ! 8 + 0xfa, 9 := ip ! 9 + 0xce, 10 := ip ! 10 + 0xfa, 11 := ip ! 11 + 0xce]
               in Ok (ip[15 := ip ! 15 + word_of_nat i, 14 := ip ! 14 + word_of_nat (i div 256)]))"

text \<open>The addresses in turn, each probed from every source port; \<open>resolve\<close> is the resolution of the address that was formed.\<close>

fun sweepRackPrefix :: "ZiffyConfig \<Rightarrow> (string \<Rightarrow> netIP option) \<Rightarrow> netIP res \<Rightarrow> (netIP \<Rightarrow> netIP res) \<Rightarrow>
    (nat \<Rightarrow> nat \<Rightarrow> trace_env \<times> SwitchTrafficInfo list) \<Rightarrow> nat list \<Rightarrow> Sender \<Rightarrow> Sender res" where
  "sweepRackPrefix c parseIP dest resolve envs [] s = Ok s"
| "sweepRackPrefix c parseIP dest resolve envs (i # is) s =
     bind_res (formNewDest dest i) (\<lambda>newIP.
     bind_res (trace_flows c parseIP
         (map (\<lambda>j. (True, (fst (envs i j))\<lparr>te_resolved := resolve newIP\<rparr>, snd (envs i j))) [0..<zc_PortCount c]) s)
       (sweepRackPrefix c parseIP dest resolve envs is))"

text \<open>
  \<open>sort.Slice\<close> gives some sorted permutation, an argument here. Of several replies with the same hop the
  last one is kept.
\<close>

fun strip_duplicates :: "SwitchTrafficInfo list \<Rightarrow> SwitchTrafficInfo list" where
  "strip_duplicates [] = []"
| "strip_duplicates [x] = [x]"
| "strip_duplicates (x # y # r) = (if sw_hop x = sw_hop y then strip_duplicates (y # r) else x # strip_duplicates (y # r))"

definition clearPaths :: "(SwitchTrafficInfo list \<Rightarrow> SwitchTrafficInfo list) \<Rightarrow> Sender \<Rightarrow> PathInfo list" where
  "clearPaths sortSwitchesByHop s =
     map (\<lambda>route. \<lparr>pa_switches = strip_duplicates (sortSwitchesByHop (pa_switches route)),
        pa_rackSwHostname = se_rackSwHostname s\<rparr>) (se_routes s)"

definition new_sender :: "string res \<Rightarrow> Sender" where
  "new_sender lldp = \<lparr>se_inputQueue = [], se_routes = [], se_destHop = 0,
     se_rackSwHostname = (case lldp of Inl _ \<Rightarrow> [] | Inr n \<Rightarrow> n), se_currentRoute = 0, se_sent = [], se_arrived = []\<rparr>"

text \<open>
  The sweep up to the sort: \<open>icmp\<close> is the result of opening the ICMP connection, \<open>lldp\<close> what the rack switch was learned to be,
  \<open>late\<close> the replies that arrive during the final wait.
\<close>

definition Sender_run :: "ZiffyConfig \<Rightarrow> (string \<Rightarrow> netIP option) \<Rightarrow> unit res \<Rightarrow> string res \<Rightarrow> netIP res \<Rightarrow> (netIP \<Rightarrow> netIP res) \<Rightarrow>
    (nat \<Rightarrow> nat \<Rightarrow> trace_env \<times> SwitchTrafficInfo list) \<Rightarrow> SwitchTrafficInfo list \<Rightarrow> Sender res" where
  "Sender_run c parseIP icmp lldp dest resolve envs late =
     bind_res icmp (\<lambda>_.
     bind_res (trace_flows c parseIP (map (\<lambda>j. (False, envs 0 j)) [0..<zc_PortCount c]) (new_sender lldp)) (\<lambda>s.
     bind_res (if zc_IPCount c \<noteq> 0 then sweepRackPrefix c parseIP dest resolve envs [1..<Suc (zc_IPCount c)] s else Ok s) (\<lambda>s.
       popAllQueue (arrive late s))))"

definition Sender_Start :: "ZiffyConfig \<Rightarrow> (string \<Rightarrow> netIP option) \<Rightarrow> (SwitchTrafficInfo list \<Rightarrow> SwitchTrafficInfo list) \<Rightarrow> unit res \<Rightarrow>
    string res \<Rightarrow> netIP res \<Rightarrow> (netIP \<Rightarrow> netIP res) \<Rightarrow> (nat \<Rightarrow> nat \<Rightarrow> trace_env \<times> SwitchTrafficInfo list) \<Rightarrow> SwitchTrafficInfo list \<Rightarrow>
    (PathInfo list \<times> Sender) res" where
  "Sender_Start c parseIP sortSwitchesByHop icmp lldp dest resolve envs late =
     bind_res (Sender_run c parseIP icmp lldp dest resolve envs late) (\<lambda>s. Ok (clearPaths sortSwitchesByHop s, s))"

section \<open>The ICMP goroutines\<close>

text \<open>
  The monitor reads every packet into the same buffer and starts a handler on it. A handler runs at some later time
  and sees what is in the buffer then. At the end the main goroutine sends on \<open>icmpDone\<close>, which the monitor only takes
  between two reads; the reads have no deadline.
\<close>

datatype monitor = Selecting | Reading | Stopped
datatype main_phase = Sweeping | Signalling | Returned

record icmp_state =
  ic_buf :: bytes
  ic_monitor :: monitor
  ic_main :: main_phase
  ic_handlers :: "(nat \<times> string) list"
  ic_queue :: "SwitchTrafficInfo list"
  ic_panicked :: bool

datatype icmp_event = Ev_internal | Ev_packet bytes string | Ev_read_error

definition icmp_start :: icmp_state where
  "icmp_start = \<lparr>ic_buf = replicate 128 0, ic_monitor = Selecting, ic_main = Sweeping, ic_handlers = [], ic_queue = [],
     ic_panicked = False\<rparr>"

definition read_into :: "bytes \<Rightarrow> bytes \<Rightarrow> bytes" where
  "read_into p buf = take (length buf) p @ drop (length p) buf"

inductive icmp_step :: "mgmt_decoders \<Rightarrow> icmp_state \<Rightarrow> icmp_event \<Rightarrow> icmp_state \<Rightarrow> bool" for decoders where
  select_default: "ic_monitor s = Selecting \<Longrightarrow> ic_main s \<noteq> Signalling \<Longrightarrow> \<not> ic_panicked s \<Longrightarrow>
    icmp_step decoders s Ev_internal (s\<lparr>ic_monitor := Reading\<rparr>)"
| select_done: "ic_monitor s = Selecting \<Longrightarrow> ic_main s = Signalling \<Longrightarrow> \<not> ic_panicked s \<Longrightarrow>
    icmp_step decoders s Ev_internal (s\<lparr>ic_monitor := Stopped, ic_main := Returned\<rparr>)"
| read_packet: "ic_monitor s = Reading \<Longrightarrow> \<not> ic_panicked s \<Longrightarrow>
    icmp_step decoders s (Ev_packet p a) (s\<lparr>ic_buf := read_into p (ic_buf s), ic_monitor := Selecting,
      ic_handlers := ic_handlers s @ [(min (length p) (length (ic_buf s)), a)]\<rparr>)"
| read_error: "ic_monitor s = Reading \<Longrightarrow> \<not> ic_panicked s \<Longrightarrow>
    icmp_step decoders s Ev_read_error (s\<lparr>ic_monitor := Selecting\<rparr>)"
| handle: "ic_handlers s = xs @ (n, a) # ys \<Longrightarrow> handleIcmpPacket decoders (ic_buf s) n a = Ok r \<Longrightarrow> \<not> ic_panicked s \<Longrightarrow>
    icmp_step decoders s Ev_internal (s\<lparr>ic_handlers := xs @ ys,
      ic_queue := ic_queue s @ (case r of None \<Rightarrow> [] | Some sw \<Rightarrow> [sw])\<rparr>)"
| handle_panic: "ic_handlers s = xs @ (n, a) # ys \<Longrightarrow> handleIcmpPacket decoders (ic_buf s) n a = Inl Panic \<Longrightarrow> \<not> ic_panicked s \<Longrightarrow>
    icmp_step decoders s Ev_internal (s\<lparr>ic_panicked := True\<rparr>)"
| sweep_over: "ic_main s = Sweeping \<Longrightarrow> \<not> ic_panicked s \<Longrightarrow> icmp_step decoders s Ev_internal (s\<lparr>ic_main := Signalling\<rparr>)"

inductive icmp_run :: "mgmt_decoders \<Rightarrow> icmp_state \<Rightarrow> icmp_event list \<Rightarrow> icmp_state \<Rightarrow> bool" for decoders where
  run_nil: "icmp_run decoders s [] s"
| run_step: "icmp_step decoders s e s' \<Longrightarrow> icmp_run decoders s' es t \<Longrightarrow> icmp_run decoders s (e # es) t"

section \<open>The receiver\<close>

text \<open>
  A captured packet as the decoding library presents it: its bytes from the Ethernet header on, the source of its IPv6 header and the port of
  its UDP header if it has them, and the payload if it has an application layer.
\<close>

record captured =
  cp_Data :: bytes
  cp_SrcIP :: "string option"
  cp_SrcPort :: "nat option"
  cp_Payload :: "bytes option"

definition parseSyncPacket :: "mgmt_decoders \<Rightarrow> captured \<Rightarrow> (SyncDelayReq \<times> string \<times> string) res" where
  "parseSyncPacket decoders packet =
     (case cp_SrcIP packet of
        None \<Rightarrow> Err ''unable to parse IPv6 Header''
      | Some srcIP \<Rightarrow>
          case cp_SrcPort packet of
            None \<Rightarrow> Err ''unable to parse UDP Header''
          | Some srcPort \<Rightarrow>
              case cp_Payload packet of
                None \<Rightarrow> Inl Panic
              | Some payload \<Rightarrow>
                  (case DecodePacket decoders payload of
                     Inl Panic \<Rightarrow> Inl Panic
                   | Inl _ \<Rightarrow> Err ''unable to decode ptp packet''
                   | Inr (P_SyncDelayReq p) \<Rightarrow> Ok (p, srcIP, show_nat srcPort)
                   | Inr _ \<Rightarrow> Inl Panic))"

text \<open>
  The answer: an ICMP message with the packet from its fourth byte before the IP header on. How the message is
  marshalled, and the results of resolving the sender, listening and writing are arguments.
\<close>

record reply_env =
  re_resolve :: "string \<Rightarrow> unit res"
  re_listen :: "unit res"
  re_marshal :: "u8 \<Rightarrow> bytes \<Rightarrow> bytes res"
  re_write :: "unit res"

definition sendResponse :: "reply_env \<Rightarrow> string \<Rightarrow> captured \<Rightarrow> (string \<times> bytes) res" where
  "sendResponse e sourceIP rawPacket =
     bind_res (re_resolve e sourceIP) (\<lambda>_.
     bind_res (re_listen e) (\<lambda>_.
     bind_res (slice_from (cp_Data rawPacket) PTPUnusedSize) (\<lambda>body.
     bind_res (re_marshal e ICMPTypeTimeExceeded body) (\<lambda>buf.
     bind_res (re_write e) (\<lambda>_. Ok (sourceIP, buf))))))"

text \<open>What handling a packet sends; errors are only logged.\<close>

definition handlePacket :: "mgmt_decoders \<Rightarrow> reply_env \<Rightarrow> captured \<Rightarrow> (string \<times> bytes) option res" where
  "handlePacket decoders e rawPacket =
     (case parseSyncPacket decoders rawPacket of
        Inl Panic \<Rightarrow> Inl Panic
      | Inl _ \<Rightarrow> Ok None
      | Inr (ptpSync, srcIP, srcPort) \<Rightarrow>
          if h_ControlField (sd_Header ptpSync) \<noteq> ZiffyHexa then Ok None
          else case sendResponse e srcIP rawPacket of
            Inl Panic \<Rightarrow> Inl Panic
          | Inl _ \<Rightarrow> Ok None
          | Inr reply \<Rightarrow> Ok (Some reply))"

text \<open>The counter of running handlers, under its mutex.\<close>

definition incRunningHandlers :: "int \<Rightarrow> int \<Rightarrow> bool \<times> int" where
  "incRunningHandlers handlers running = (if handlers > running then (True, running + 1) else (False, running))"

definition decRunningHandlers :: "int \<Rightarrow> bool \<times> int" where
  "decRunningHandlers running = (running - 1 \<ge> 0, running - 1)"

record Receiver =
  rc_running :: int
  rc_handlers :: "captured list"
  rc_replies :: "(string \<times> bytes) list"
  rc_fatal :: bool
  rc_crashed :: bool

definition receiver_start :: Receiver where
  "receiver_start = \<lparr>rc_running = 0, rc_handlers = [], rc_replies = [], rc_fatal = False, rc_crashed = False\<rparr>"

definition capture :: "ZiffyConfig \<Rightarrow> captured \<Rightarrow> Receiver \<Rightarrow> Receiver" where
  "capture c pkt r =
     (case incRunningHandlers (zc_PTPRecvHandlers c) (rc_running r) of (ok, n) \<Rightarrow>
        if ok then r\<lparr>rc_running := n, rc_handlers := rc_handlers r @ [pkt]\<rparr> else r)"

definition finish_handler :: "(string \<times> bytes) option \<Rightarrow> Receiver \<Rightarrow> Receiver" where
  "finish_handler out r =
     (case decRunningHandlers (rc_running r) of (ok, n) \<Rightarrow>
        r\<lparr>rc_running := n, rc_fatal := \<not> ok, rc_replies := rc_replies r @ (case out of None \<Rightarrow> [] | Some x \<Rightarrow> [x])\<rparr>)"

text \<open>
  The receiver as a transition system: packets are captured, and the handlers end in any order. \<open>rc_fatal\<close> is the exit on a
  negative counter, \<open>rc_crashed\<close> a panic, before which the deferred decrement still runs.
\<close>

definition alive :: "Receiver \<Rightarrow> bool" where
  "alive r \<longleftrightarrow> \<not> rc_fatal r \<and> \<not> rc_crashed r"

inductive receiver_step :: "ZiffyConfig \<Rightarrow> mgmt_decoders \<Rightarrow> Receiver \<Rightarrow> Receiver \<Rightarrow> bool" for c decoders where
  capture: "alive r \<Longrightarrow> receiver_step c decoders r (capture c pkt r)"
| finish: "alive r \<Longrightarrow> rc_handlers r = xs @ pkt # ys \<Longrightarrow> handlePacket decoders e pkt = Ok out \<Longrightarrow>
    receiver_step c decoders r (finish_handler out (r\<lparr>rc_handlers := xs @ ys\<rparr>))"
| crash: "alive r \<Longrightarrow> rc_handlers r = xs @ pkt # ys \<Longrightarrow> handlePacket decoders e pkt = Inl Panic \<Longrightarrow>
    receiver_step c decoders r ((finish_handler None (r\<lparr>rc_handlers := xs @ ys\<rparr>))\<lparr>rc_crashed := True\<rparr>)"

inductive receiver_reachable :: "ZiffyConfig \<Rightarrow> mgmt_decoders \<Rightarrow> Receiver \<Rightarrow> bool" for c decoders where
  started: "receiver_reachable c decoders receiver_start"
| stepped: "receiver_reachable c decoders r \<Longrightarrow> receiver_step c decoders r r' \<Longrightarrow> receiver_reachable c decoders r'"

section \<open>Probes and their replies\<close>

text \<open>A probe as it comes back: the transparent clocks on the way have changed its correction field.\<close>

fun forwarded :: "Correction \<Rightarrow> Packet \<Rightarrow> Packet" where
  "forwarded c (P_SyncDelayReq p) = P_SyncDelayReq (p\<lparr>sd_Header := (sd_Header p)\<lparr>h_CorrectionField := c\<rparr>\<rparr>)"
| "forwarded c (P_Signaling p) = P_Signaling (p\<lparr>sg_Header := (sg_Header p)\<lparr>h_CorrectionField := c\<rparr>\<rparr>)"
| "forwarded c p = p"

lemma probe_packet_cases:
  assumes "probe_packet t hop idx = Ok p"
  obtains "t = MessageSync \<or> t = MessageDelayReq" "p = P_SyncDelayReq (formSyncPacket t hop idx)"
  | "t = MessageSignaling" "p = P_Signaling (formSignalingPacket hop idx)"
  using assms by (auto simp: probe_packet_def split: if_splits)

lemma forwarded_probe_ok:
  assumes "probe_packet t hop idx = Ok p"
  shows "packet_ok (forwarded c p)"
  using assms
proof (cases rule: probe_packet_cases)
  case 1
  then show ?thesis
    by (auto simp: formSyncPacket_def probe_header_def Header_MessageType_def MsgType_def NewSdoIDAndMsgType_def
        SyncDelayReq_codec_def zero_Timestamp_def Timestamp_codec_def)
next
  case 2
  have "length (Signaling_bytes (formSignalingPacket hop idx\<lparr>sg_Header := h\<rparr>)) = 54" for h
    by (simp add: Signaling_bytes_def formSignalingPacket_def binary_Write_def)
  with 2 show ?thesis
    by (simp add: signaling_ok_def Header_MessageType_def MsgType_def, simp add: formSignalingPacket_def probe_header_def
        NewSdoIDAndMsgType_def Let_def)
qed

lemma probe_decodes:
  assumes "probe_packet t hop idx = Ok p" and "Packet_Bytes (forwarded c p) = Ok b"
  shows "DecodePacket mgmtTLVDecoder b = Ok (forwarded c p)"
  using decode_packet_bytes [OF forwarded_probe_ok [OF assms(1), of c]] assms(2) by simp

text \<open>An ICMP message that quotes a packet: type, code, checksum and four unused bytes, then the IPv6 and UDP headers.\<close>

definition quoting :: "bytes \<Rightarrow> bytes \<Rightarrow> bytes" where
  "quoting headers b = ICMPTypeTimeExceeded # headers @ b"

lemma handleIcmp_quoting:
  assumes "packet_ok p" and "Packet_Bytes p = Ok b" and "length headers = 55"
  shows "handleIcmpPacket mgmtTLVDecoder (quoting headers b @ rest) (length (quoting headers b)) a =
    Ok (Some (case p of
        P_SyncDelayReq _ \<Rightarrow> \<lparr>sw_ip = a, sw_corrField = h_CorrectionField (Packet_Header p),
          sw_routeIdx = unat (pi_PortNumber (h_SourcePortIdentity (Packet_Header p))), sw_hop = uint (h_SequenceID (Packet_Header p))\<rparr>
      | P_Signaling _ \<Rightarrow> \<lparr>sw_ip = a, sw_corrField = h_CorrectionField (Packet_Header p),
          sw_routeIdx = unat (pi_PortNumber (h_SourcePortIdentity (Packet_Header p))), sw_hop = uint (h_SequenceID (Packet_Header p))\<rparr>
      | _ \<Rightarrow> \<lparr>sw_ip = a, sw_corrField = 0, sw_routeIdx = 0, sw_hop = 0\<rparr>))"
proof -
  have d: "DecodePacket mgmtTLVDecoder b = Ok p" using decode_packet_bytes [OF assms(1)] assms(2) by simp
  have "slice (quoting headers b @ rest) 56 (length (quoting headers b)) = Ok b"
    using assms(3) slice_middle [of "3 # headers" b rest] by (simp add: quoting_def)
  moreover have "index (quoting headers b @ rest) 0 = Ok 3" by (simp add: quoting_def index_def)
  moreover have "56 \<le> length (quoting headers b)" using assms(3) by (simp add: quoting_def)
  ultimately show ?thesis using d by (cases p) (simp_all add: handleIcmpPacket_def)
qed

lemma probe_reply_sent:
  assumes "probe_packet t hop idx = Ok p" and "0 \<le> hop" and "hop < 65536" and "0 \<le> idx" and "idx < 65536" and "length headers = 55"
    and "Packet_Bytes (forwarded c p) = Ok b"
  shows "handleIcmpPacket mgmtTLVDecoder (quoting headers b @ rest) (length (quoting headers b)) a =
      Ok (Some \<lparr>sw_ip = a, sw_corrField = c, sw_routeIdx = nat idx, sw_hop = hop\<rparr>)"
proof -
  have "uint (word_of_int hop :: u16) = hop" "unat (word_of_int idx :: u16) = nat idx"
    using assms(2-5) by (simp_all add: unsigned_of_int take_bit_int_eq_self)
  with assms(1) handleIcmp_quoting [OF forwarded_probe_ok [OF assms(1)] assms(7,6), of rest a] show ?thesis
    by (elim probe_packet_cases) (auto simp: formSyncPacket_def formSignalingPacket_def probe_header_def Let_def)
qed

text \<open>
  A probe finds its way back: whatever message type is configured, the reply of a switch (or of the receiver) that quotes the probe sent with a
  given hop limit on a given route is recorded with the address of the switch, the correction field as the packet carried it,
  and the probe's hop and route.
\<close>
theorem probe_reply:
  assumes "probe_packet t hop idx = Ok p" and "0 \<le> hop" and "hop < 65536" and "0 \<le> idx" and "idx < 65536" and "length headers = 55"
  shows "\<exists>b. Packet_Bytes (forwarded c p) = Ok b \<and>
    handleIcmpPacket mgmtTLVDecoder (quoting headers b @ rest) (length (quoting headers b)) a =
      Ok (Some \<lparr>sw_ip = a, sw_corrField = c, sw_routeIdx = nat idx, sw_hop = hop\<rparr>)"
  using probe_reply_sent [OF assms] decode_packet_bytes [OF forwarded_probe_ok [OF assms(1)]] by blast

theorem probe_reply_witness:
  "\<exists>b. Packet_Bytes (forwarded 77 (P_SyncDelayReq (formSyncPacket MessageSync 3 1))) = Ok b \<and>
    handleIcmpPacket mgmtTLVDecoder (quoting (replicate 55 0) b @ [0]) (length (quoting (replicate 55 0) b)) ''2401:db00::3'' =
      Ok (Some \<lparr>sw_ip = ''2401:db00::3'', sw_corrField = 77, sw_routeIdx = 1, sw_hop = 3\<rparr>)"
  using probe_reply [of MessageSync 3 1 "P_SyncDelayReq (formSyncPacket MessageSync 3 1)" "replicate 55 0" 77 "[0]" "''2401:db00::3''"]
  by (simp add: probe_packet_def)

section \<open>The sweep\<close>

text \<open>Every reply is in the queue or in exactly one path, the one it names.\<close>

definition collected :: "Sender \<Rightarrow> SwitchTrafficInfo multiset" where
  "collected s = mset (concat (map pa_switches (se_routes s)))"

definition sender_inv :: "Sender \<Rightarrow> bool" where
  "sender_inv s \<longleftrightarrow> collected s + mset (se_inputQueue s) = mset (se_arrived s) \<and>
     list_all (\<lambda>(k, path). list_all (\<lambda>sw. sw_routeIdx sw = k) (pa_switches path)) (List.enumerate 0 (se_routes s))"

lemma collected_update:
  assumes "k < length rs"
  shows "mset (concat (map pa_switches (rs[k := (rs ! k)\<lparr>pa_switches := pa_switches (rs ! k) @ [sw]\<rparr>]))) =
    add_mset sw (mset (concat (map pa_switches rs)))"
  using assms
proof (induction rs arbitrary: k)
  case (Cons r rs)
  then show ?case by (cases k) auto
qed simp

lemma routed_update:
  assumes "k < length rs" and "sw_routeIdx sw = n + k"
    and "list_all (\<lambda>(k, path). list_all (\<lambda>sw. sw_routeIdx sw = k) (pa_switches path)) (List.enumerate n rs)"
  shows "list_all (\<lambda>(k, path). list_all (\<lambda>sw. sw_routeIdx sw = k) (pa_switches path))
    (List.enumerate n (rs[k := (rs ! k)\<lparr>pa_switches := pa_switches (rs ! k) @ [sw]\<rparr>]))"
  using assms
proof (induction rs arbitrary: k n)
  case (Cons r rs)
  then show ?case by (cases k) auto
qed simp

lemma add_switch_inv:
  assumes "add_switch sw s = Ok s'" and "sender_inv (s\<lparr>se_inputQueue := sw # se_inputQueue s\<rparr>)"
  shows "sender_inv s'" "se_inputQueue s' = se_inputQueue s" "length (se_routes s') = length (se_routes s)"
proof -
  have k: "sw_routeIdx sw < length (se_routes s)" using assms(1) by (auto simp: add_switch_def split: if_splits)
  show "se_inputQueue s' = se_inputQueue s" "length (se_routes s') = length (se_routes s)"
    using assms(1) by (auto simp: add_switch_def split: if_splits)
  show "sender_inv s'"
    using assms k collected_update [OF k, of sw] routed_update [OF k, of sw 0]
    by (auto simp: add_switch_def sender_inv_def collected_def)
qed

lemma pop_queue_inv:
  assumes "pop_queue q s = Ok s'" and "sender_inv (s\<lparr>se_inputQueue := q @ se_inputQueue s\<rparr>)"
  shows "sender_inv s' \<and> se_inputQueue s' = se_inputQueue s \<and> length (se_routes s') = length (se_routes s)"
  using assms
proof (induction q arbitrary: s)
  case (Cons sw q)
  then obtain t where t: "add_switch sw s = Ok t" "pop_queue q t = Ok s'" by (auto simp: bind_res_Ok_iff)
  let ?s = "s\<lparr>se_inputQueue := q @ se_inputQueue s\<rparr>"
  have "add_switch sw ?s = Ok (t\<lparr>se_inputQueue := q @ se_inputQueue s\<rparr>)" using t(1) by (auto simp: add_switch_def split: if_splits)
  from add_switch_inv [OF this] Cons.prems(2) have "sender_inv (t\<lparr>se_inputQueue := q @ se_inputQueue s\<rparr>)" by simp
  moreover have "se_inputQueue t = se_inputQueue s" "length (se_routes t) = length (se_routes s)"
    using t(1) by (auto simp: add_switch_def split: if_splits)
  ultimately show ?case using Cons.IH [OF t(2)] by simp
qed simp

lemma popAllQueue_inv:
  assumes "popAllQueue s = Ok s'" and "sender_inv s"
  shows "sender_inv s' \<and> se_inputQueue s' = [] \<and> length (se_routes s') = length (se_routes s)"
  using pop_queue_inv [of "se_inputQueue s" "s\<lparr>se_inputQueue := []\<rparr>" s'] assms by (simp add: popAllQueue_def)

lemma arrive_simps [simp]:
  "se_routes (arrive sws s) = se_routes s" "se_sent (arrive sws s) = se_sent s" "se_currentRoute (arrive sws s) = se_currentRoute s"
  "se_destHop (arrive sws s) = se_destHop s" "se_rackSwHostname (arrive sws s) = se_rackSwHostname s"
  by (simp_all add: arrive_def)

lemma sender_inv_frame [simp]:
  "sender_inv (s\<lparr>se_sent := x\<rparr>) = sender_inv s" "sender_inv (s\<lparr>se_destHop := h\<rparr>) = sender_inv s"
  "sender_inv (s\<lparr>se_currentRoute := k\<rparr>) = sender_inv s"
  by (simp_all add: sender_inv_def collected_def)

lemma arrive_inv [simp]: "sender_inv (arrive sws s) = sender_inv s"
  by (auto simp: arrive_def sender_inv_def collected_def ac_simps)


text \<open>What was sent are the probes of the configuration, each for a route that has been opened.\<close>

definition is_probe :: "ZiffyConfig \<Rightarrow> nat \<Rightarrow> int \<times> int \<times> bytes \<Rightarrow> bool" where
  "is_probe c n = (\<lambda>(hop, tclass, b). zc_HopMin c \<le> hop \<and> hop \<le> zc_HopMax c \<and> tclass = zc_DSCP c * 4 \<and>
     (\<exists>i<n. \<exists>p. probe_packet (zc_MessageType c) hop (int i) = Ok p \<and> Packet_Bytes p = Ok b))"

definition probes_inv :: "ZiffyConfig \<Rightarrow> Sender \<Rightarrow> bool" where
  "probes_inv c s \<longleftrightarrow> list_all (is_probe c (length (se_routes s))) (se_sent s) \<and> se_currentRoute s \<le> length (se_routes s) \<and>
     (0 < se_destHop s \<longrightarrow> se_destHop s \<le> zc_HopMax c)"

lemma is_probe_mono: "is_probe c n x \<Longrightarrow> n \<le> m \<Longrightarrow> is_probe c m x"
  unfolding is_probe_def using order_less_le_trans by fastforce

lemma add_switch_frame:
  assumes "add_switch sw s = Ok s'"
  shows "se_sent s' = se_sent s \<and> se_currentRoute s' = se_currentRoute s \<and> se_destHop s' = se_destHop s \<and>
    length (se_routes s') = length (se_routes s) \<and> se_rackSwHostname s' = se_rackSwHostname s"
  using assms by (auto simp: add_switch_def split: if_splits)

lemma pop_queue_frame:
  assumes "pop_queue q s = Ok s'"
  shows "se_sent s' = se_sent s \<and> se_currentRoute s' = se_currentRoute s \<and> se_destHop s' = se_destHop s \<and>
    length (se_routes s') = length (se_routes s) \<and> se_rackSwHostname s' = se_rackSwHostname s"
  using assms by (induction q arbitrary: s) (auto simp: bind_res_Ok_iff dest!: add_switch_frame)

lemma probe_sends:
  assumes "probe c parseIP dest e hop s = Ok (err, reached, s')"
  obtains "err \<noteq> None" "s' = s"
  | p b where "err = None" "probe_packet (zc_MessageType c) hop (int (se_currentRoute s)) = Ok p" "Packet_Bytes p = Ok b"
    "case se_inputQueue s @ pb_arrived e of
       [] \<Rightarrow> s' = arrive [] (s\<lparr>se_sent := se_sent s @ [(hop, zc_DSCP c * 4, b)]\<rparr>)
     | sw # q \<Rightarrow> \<exists>t. add_switch sw ((arrive (pb_arrived e) (s\<lparr>se_sent := se_sent s @ [(hop, zc_DSCP c * 4, b)]\<rparr>))\<lparr>se_inputQueue := q\<rparr>) = Ok t \<and>
         (s' = t \<or> s' = t\<lparr>se_destHop := hop\<rparr>)"
  using assms
  by (auto simp: probe_def bind_res_Ok_iff Let_def arrive_def split: sum.splits goerr.splits list.splits if_splits)

lemma probe_inv:
  assumes "probe c parseIP dest e hop s = Ok (err, reached, s')" and "sender_inv s" and "probes_inv c s"
    and "se_currentRoute s < length (se_routes s)" and "zc_HopMin c \<le> hop" and "hop \<le> zc_HopMax c"
  shows "sender_inv s' \<and> probes_inv c s' \<and> se_currentRoute s' = se_currentRoute s \<and> length (se_routes s') = length (se_routes s)"
  using assms(1)
proof (cases rule: probe_sends)
  case 1
  then show ?thesis using assms(2,3) by simp
next
  case (2 p b)
  let ?s = "arrive (pb_arrived e) (s\<lparr>se_sent := se_sent s @ [(hop, zc_DSCP c * 4, b)]\<rparr>)"
  have inv: "sender_inv ?s" using assms(2) by simp
  have "is_probe c (length (se_routes s)) (hop, zc_DSCP c * 4, b)" using 2 assms(4-6) by (auto simp: is_probe_def)
  then have pinv: "probes_inv c (?s\<lparr>se_inputQueue := q, se_destHop := d\<rparr>)"
    if "d = se_destHop s \<or> d = hop" for q d
    using assms(3,6) that by (auto simp: probes_inv_def arrive_def)
  show ?thesis
  proof (cases "se_inputQueue s @ pb_arrived e")
    case Nil
    then show ?thesis using 2 inv pinv [of "se_destHop s" "[]"] by (simp add: arrive_def)
  next
    case (Cons sw q)
    with 2 obtain t where t: "add_switch sw (?s\<lparr>se_inputQueue := q\<rparr>) = Ok t" "s' = t \<or> s' = t\<lparr>se_destHop := hop\<rparr>" by auto
    have "sender_inv t"
      by (rule add_switch_inv(1) [OF t(1)]) (use inv Cons in \<open>simp add: arrive_def sender_inv_def collected_def\<close>)
    moreover have "probes_inv c t" "probes_inv c (t\<lparr>se_destHop := hop\<rparr>)"
      using pinv [of "se_destHop s" q] pinv [of hop q] add_switch_frame [OF t(1)] by (auto simp: probes_inv_def arrive_def)
    moreover have "sender_inv (t\<lparr>se_destHop := hop\<rparr>) = sender_inv t" by (simp add: sender_inv_def collected_def)
    ultimately show ?thesis using t(2) add_switch_frame [OF t(1)] by (auto simp: arrive_def)
  qed
qed

lemma trace_hops_inv:
  assumes "trace_hops c parseIP dest env hop hopMax reached s = Ok (err, s')" and "sender_inv s" and "probes_inv c s"
    and "se_currentRoute s < length (se_routes s)" and "zc_HopMin c \<le> hop" and "hopMax \<le> zc_HopMax c"
  shows "sender_inv s' \<and> probes_inv c s' \<and> se_currentRoute s' = se_currentRoute s \<and> length (se_routes s') = length (se_routes s)"
  using assms
proof (induction c parseIP dest env hop hopMax reached s rule: trace_hops.induct)
  case (1 c parseIP dest env hop hopMax reached s)
  show ?case
  proof (cases "hop \<le> hopMax \<and> (\<not> reached \<or> zc_ContReached c)")
    case True
    with 1(2) obtain e r t where p: "probe c parseIP dest (env hop) hop s = Ok (e, r, t)"
      and n: "case e of Some m \<Rightarrow> err = Some m \<and> s' = t | None \<Rightarrow> trace_hops c parseIP dest env (hop + 1) hopMax (reached \<or> r) t = Ok (err, s')"
      by (subst (asm) trace_hops.simps) (auto simp: bind_res_Ok_iff split: option.splits)
    have inv: "sender_inv t \<and> probes_inv c t \<and> se_currentRoute t = se_currentRoute s \<and> length (se_routes t) = length (se_routes s)"
      using probe_inv [OF p 1(3-6)] True 1(7) by simp
    show ?thesis
    proof (cases e)
      case None
      then show ?thesis using 1(1) [OF True refl, of r t] inv n 1(5-7) by simp
    next
      case (Some m)
      then show ?thesis using inv n by simp
    qed
  next
    case False
    then have "trace_hops c parseIP dest env hop hopMax reached s = Ok (None, s)" by (subst trace_hops.simps) (rule if_not_P)
    then show ?thesis using 1(2-4) by simp
  qed
qed


lemma traceRoute_inv:
  assumes "traceRoute c parseIP e sweep s = Ok (err, s')" and "sender_inv s" and "probes_inv c s"
    and "se_currentRoute s < length (se_routes s)"
  shows "sender_inv s' \<and> probes_inv c s' \<and> se_currentRoute s' = se_currentRoute s \<and> length (se_routes s') = length (se_routes s)"
proof -
  have "(if sweep \<and> se_destHop s > 0 then se_destHop s - 1 else zc_HopMax c) \<le> zc_HopMax c"
    using assms(3) by (auto simp: probes_inv_def)
  then show ?thesis
    using assms trace_hops_inv [OF _ assms(2-4) order_refl]
    by (fastforce simp: traceRoute_def Let_def split: sum.splits goerr.splits)
qed

text \<open>After every flow there is one more path than before, and the next route is not past the end.\<close>

lemma trace_flow_inv:
  assumes "trace_flow c parseIP sweep e s = Ok s'" and "sender_inv s" and "probes_inv c s"
  shows "sender_inv s' \<and> probes_inv c s' \<and> length (se_routes s') = Suc (length (se_routes s))"
proof -
  let ?s = "s\<lparr>se_routes := se_routes s @ [\<lparr>pa_switches = [], pa_rackSwHostname = se_rackSwHostname s\<rparr>]\<rparr>"
  obtain err t where t: "traceRoute c parseIP (fst e) sweep ?s = Ok (err, t)"
    and n: "case err of Some _ \<Rightarrow> s' = arrive (snd e) t |
      None \<Rightarrow> popAllQueue ((arrive (snd e) t)\<lparr>se_currentRoute := se_currentRoute t + 1\<rparr>) = Ok s'"
    using assms(1) by (auto simp: trace_flow_def Let_def bind_res_Ok_iff arrive_def split: option.splits)
  have "sender_inv ?s" using assms(2) by (simp add: sender_inv_def collected_def enumerate_append_eq)
  moreover have "probes_inv c ?s" using assms(3) is_probe_mono [of c "length (se_routes s)"]
    by (auto simp: probes_inv_def list_all_iff)
  moreover have "se_currentRoute ?s < length (se_routes ?s)" using assms(3) by (simp add: probes_inv_def)
  ultimately have inv: "sender_inv t \<and> probes_inv c t \<and> se_currentRoute t = se_currentRoute s \<and> length (se_routes t) = Suc (length (se_routes s))"
    using traceRoute_inv [OF t] by simp
  show ?thesis
  proof (cases err)
    case None
    let ?u = "(arrive (snd e) t)\<lparr>se_currentRoute := se_currentRoute t + 1\<rparr>"
    from None n have p: "popAllQueue ?u = Ok s'" by simp
    have "probes_inv c ?u" using inv assms(3) by (auto simp: probes_inv_def arrive_def)
    then have "probes_inv c s'" using pop_queue_frame [OF p [unfolded popAllQueue_def]] by (simp add: probes_inv_def)
    moreover have "sender_inv ?u" using inv by simp
    ultimately show ?thesis using popAllQueue_inv [OF p] inv by (simp add: arrive_def)
  next
    case (Some m)
    then have s': "s' = arrive (snd e) t" using n by simp
    moreover have "probes_inv c (arrive (snd e) t) = probes_inv c t" by (simp add: probes_inv_def)
    ultimately show ?thesis using inv by simp
  qed
qed

lemma trace_flows_inv:
  assumes "trace_flows c parseIP es s = Ok s'" and "sender_inv s" and "probes_inv c s"
  shows "sender_inv s' \<and> probes_inv c s' \<and> length (se_routes s') = length (se_routes s) + length es"
  using assms
proof (induction c parseIP es s rule: trace_flows.induct)
  case (2 c parseIP sweep e es s)
  then obtain t where t: "trace_flow c parseIP sweep e s = Ok t" "trace_flows c parseIP es t = Ok s'"
    by (auto simp: bind_res_Ok_iff)
  then show ?case using trace_flow_inv [OF t(1) 2(3,4)] 2(1) [OF t(2)] by simp
qed simp

lemma sweepRackPrefix_inv:
  assumes "sweepRackPrefix c parseIP dest resolve envs is s = Ok s'" and "sender_inv s" and "probes_inv c s"
  shows "sender_inv s' \<and> probes_inv c s' \<and> length (se_routes s') = length (se_routes s) + length is * zc_PortCount c"
  using assms
proof (induction "is" arbitrary: s)
  case (Cons i "is")
  then obtain newIP t where t: "trace_flows c parseIP
         (map (\<lambda>j. (True, (fst (envs i j))\<lparr>te_resolved := resolve newIP\<rparr>, snd (envs i j))) [0..<zc_PortCount c]) s = Ok t"
      "sweepRackPrefix c parseIP dest resolve envs is t = Ok s'"
    by (auto simp: bind_res_Ok_iff)
  then show ?case using trace_flows_inv [OF t(1) Cons.prems(2,3)] Cons.IH [OF t(2)] by simp
qed simp

lemma Sender_run_inv:
  assumes "Sender_run c parseIP icmp lldp dest resolve envs late = Ok s"
  shows "sender_inv s \<and> probes_inv c s \<and> se_inputQueue s = [] \<and> length (se_routes s) = zc_PortCount c * (1 + zc_IPCount c)"
proof -
  obtain t u where t: "trace_flows c parseIP (map (\<lambda>j. (False, envs 0 j)) [0..<zc_PortCount c]) (new_sender lldp) = Ok t"
    and u: "(if zc_IPCount c \<noteq> 0 then sweepRackPrefix c parseIP dest resolve envs [1..<Suc (zc_IPCount c)] t else Ok t) = Ok u"
    and s: "popAllQueue (arrive late u) = Ok s"
    using assms by (auto simp: Sender_run_def bind_res_Ok_iff simp del: upt_Suc)
  have "sender_inv (new_sender lldp)" "probes_inv c (new_sender lldp)"
    by (simp_all add: sender_inv_def collected_def probes_inv_def new_sender_def)
  with trace_flows_inv [OF t] have inv_t: "sender_inv t \<and> probes_inv c t \<and> length (se_routes t) = zc_PortCount c"
    by (simp add: new_sender_def)
  have "sender_inv u \<and> probes_inv c u \<and> length (se_routes u) = zc_PortCount c * (1 + zc_IPCount c)"
  proof (cases "zc_IPCount c = 0")
    case True
    with u inv_t show ?thesis by simp
  next
    case False
    with u have "sweepRackPrefix c parseIP dest resolve envs [1..<Suc (zc_IPCount c)] t = Ok u" by (simp del: upt_Suc)
    from sweepRackPrefix_inv [OF this] inv_t show ?thesis by (simp add: algebra_simps)
  qed
  moreover have "probes_inv c s = probes_inv c u"
    using pop_queue_frame [OF s [unfolded popAllQueue_def]] by (simp add: probes_inv_def)
  ultimately show ?thesis using popAllQueue_inv [OF s] by simp
qed


section \<open>The result of a sweep\<close>

text \<open>What \<open>sort.Slice\<close> promises: some permutation that is sorted by the key.\<close>

locale slice_sorter =
  fixes key :: "'a \<Rightarrow> 'b::linorder" and srt :: "'a list \<Rightarrow> 'a list"
  assumes mset_srt: "mset (srt xs) = mset xs" and sorted_srt: "sorted (map key (srt xs))"
begin

lemma set_srt [simp]: "set (srt xs) = set xs"
  using mset_srt [of xs] by (metis set_mset_mset)

lemma length_srt [simp]: "length (srt xs) = length xs"
  using mset_srt [of xs] by (metis size_mset)

end

text \<open>The library sorts up to twelve elements by insertion.\<close>

definition insertionSort :: "('a \<Rightarrow> 'b::linorder) \<Rightarrow> 'a list \<Rightarrow> 'a list" where
  "insertionSort key xs = foldr (insort_key key) xs []"

interpretation insertion: slice_sorter key "insertionSort key"
  by unfold_locales (simp_all add: insertionSort_def flip: sort_key_def)

lemma strip_duplicates_set: "set (strip_duplicates xs) \<subseteq> set xs" "sw_hop ` set (strip_duplicates xs) = sw_hop ` set xs"
  by (induction xs rule: strip_duplicates.induct) auto

lemma strip_duplicates_sorted: "sorted (map sw_hop xs) \<Longrightarrow> sorted_wrt (<) (map sw_hop (strip_duplicates xs))"
proof (induction xs rule: strip_duplicates.induct)
  case (3 x y r)
  show ?case
  proof (cases "sw_hop x = sw_hop y")
    case False
    then have "\<forall>z\<in>set (y # r). sw_hop x < sw_hop z" using 3(3) by fastforce
    then show ?thesis using False 3 strip_duplicates_set(1) [of "y # r"] by auto
  qed (use 3 in simp)
qed simp_all

lemma routed_nth:
  assumes "list_all (\<lambda>(k, path). list_all (\<lambda>sw. sw_routeIdx sw = k) (pa_switches path)) (List.enumerate n rs)" and "k < length rs"
    and "sw \<in> set (pa_switches (rs ! k))"
  shows "sw_routeIdx sw = n + k"
  using assms
proof (induction rs arbitrary: n k)
  case (Cons r rs)
  show ?case
  proof (cases k)
    case 0
    then show ?thesis using Cons.prems by (simp add: list_all_iff)
  next
    case (Suc m)
    then show ?thesis using Cons.IH [of "Suc n" m] Cons.prems by simp
  qed
qed simp

lemma route_switches:
  assumes "sender_inv s" and "se_inputQueue s = []" and "k < length (se_routes s)"
  shows "set (pa_switches (se_routes s ! k)) = {sw \<in> set (se_arrived s). sw_routeIdx sw = k}"
proof -
  have a: "set (se_arrived s) = (\<Union>r\<in>set (se_routes s). set (pa_switches r))"
  proof -
    have "mset (concat (map pa_switches (se_routes s))) = mset (se_arrived s)"
      using assms(1,2) by (simp add: sender_inv_def collected_def)
    then show ?thesis by (drule_tac mset_eq_setD) auto
  qed
  have r: "list_all (\<lambda>(k, path). list_all (\<lambda>sw. sw_routeIdx sw = k) (pa_switches path)) (List.enumerate 0 (se_routes s))"
    using assms(1) by (simp add: sender_inv_def)
  show ?thesis
  proof (intro set_eqI iffI)
    fix sw assume "sw \<in> set (pa_switches (se_routes s ! k))"
    then show "sw \<in> {sw \<in> set (se_arrived s). sw_routeIdx sw = k}"
      using routed_nth [OF r assms(3)] assms(3) by (auto simp: a)
  next
    fix sw assume "sw \<in> {sw \<in> set (se_arrived s). sw_routeIdx sw = k}"
    then obtain r where r': "r \<in> set (se_routes s)" "sw \<in> set (pa_switches r)" "sw_routeIdx sw = k" by (auto simp: a)
    then obtain i where "i < length (se_routes s)" "sw \<in> set (pa_switches (se_routes s ! i))" by (metis in_set_conv_nth)
    with r'(3) show "sw \<in> set (pa_switches (se_routes s ! k))" using routed_nth [OF r] by fastforce
  qed
qed

lemma sender_paths:
  assumes "Sender_Start c parseIP srt icmp lldp dest resolve envs late = Ok (paths, s)" and "slice_sorter sw_hop srt"
  shows "length paths = zc_PortCount c * (1 + zc_IPCount c) \<and>
    (\<forall>k<length paths. sorted_wrt (<) (map sw_hop (pa_switches (paths ! k))) \<and>
      set (pa_switches (paths ! k)) \<subseteq> {sw \<in> set (se_arrived s). sw_routeIdx sw = k} \<and>
      sw_hop ` set (pa_switches (paths ! k)) = sw_hop ` {sw \<in> set (se_arrived s). sw_routeIdx sw = k})"
proof -
  have "Sender_run c parseIP icmp lldp dest resolve envs late = Ok s" and p: "paths = clearPaths srt s"
    using assms(1) by (auto simp: Sender_Start_def bind_res_Ok_iff)
  then have inv: "sender_inv s" "se_inputQueue s = []" "length (se_routes s) = zc_PortCount c * (1 + zc_IPCount c)"
    using Sender_run_inv by blast+
  have srt: "sorted (map sw_hop (srt xs))" "set (srt xs) = set xs" for xs
    using slice_sorter.sorted_srt [OF assms(2)] slice_sorter.set_srt [OF assms(2)] by auto
  show ?thesis
  proof (intro conjI allI impI)
    show "length paths = zc_PortCount c * (1 + zc_IPCount c)" using inv(3) by (simp add: p clearPaths_def)
  next
    fix k assume k: "k < length paths"
    then have sw: "pa_switches (paths ! k) = strip_duplicates (srt (pa_switches (se_routes s ! k)))"
      by (simp add: p clearPaths_def)
    have a: "set (pa_switches (se_routes s ! k)) = {sw \<in> set (se_arrived s). sw_routeIdx sw = k}"
      using k by (intro route_switches inv) (simp add: p clearPaths_def)
    show "sorted_wrt (<) (map sw_hop (pa_switches (paths ! k)))" unfolding sw by (intro strip_duplicates_sorted srt)
    show "set (pa_switches (paths ! k)) \<subseteq> {sw \<in> set (se_arrived s). sw_routeIdx sw = k}"
      "sw_hop ` set (pa_switches (paths ! k)) = sw_hop ` {sw \<in> set (se_arrived s). sw_routeIdx sw = k}"
      unfolding sw a [symmetric] using strip_duplicates_set [of "srt (pa_switches (se_routes s ! k))"] by (simp_all add: srt)
  qed
qed

text \<open>
  C17: The result of a sweep. There is one path for every source port and address, and path number k holds, in order of the
  hops, exactly one reply for every hop that was answered on route k, whenever the replies came in: none is lost, duplicated or
  put into another path, whatever sorting \<open>sort.Slice\<close> does.
\<close>
theorem Sender_Start_paths:
  assumes "Sender_Start c parseIP srt icmp lldp dest resolve envs late = Ok (paths, s)" and "slice_sorter sw_hop srt"
  shows "length paths = zc_PortCount c * (1 + zc_IPCount c) \<and>
    (\<forall>k<length paths. sorted_wrt (<) (map sw_hop (pa_switches (paths ! k))) \<and>
      set (pa_switches (paths ! k)) \<subseteq> {sw \<in> set (se_arrived s). sw_routeIdx sw = k} \<and>
      sw_hop ` set (pa_switches (paths ! k)) = sw_hop ` {sw \<in> set (se_arrived s). sw_routeIdx sw = k})"
  using assms by (rule sender_paths)

section \<open>When a sweep panics\<close>

definition queue_ok :: "nat \<Rightarrow> Sender \<Rightarrow> bool" where
  "queue_ok n s \<longleftrightarrow> length (se_routes s) = n \<and> list_all (\<lambda>sw. sw_routeIdx sw < n) (se_inputQueue s)"

text \<open>System calls fail with errors, and the replies name one of the first \<open>n\<close> routes.\<close>

definition probe_env_ok :: "nat \<Rightarrow> probe_env \<Rightarrow> bool" where
  "probe_env_ok n e \<longleftrightarrow> pb_hops e \<noteq> Inl Panic \<and> pb_tclass e \<noteq> Inl Panic \<and> pb_send e \<noteq> Inl Panic \<and>
     list_all (\<lambda>sw. sw_routeIdx sw < n) (pb_arrived e)"

definition flow_env_ok :: "nat \<Rightarrow> trace_env \<times> SwitchTrafficInfo list \<Rightarrow> bool" where
  "flow_env_ok n e \<longleftrightarrow> te_resolved (fst e) \<noteq> Inl Panic \<and> te_socket (fst e) \<noteq> Inl Panic \<and> te_reuseport (fst e) \<noteq> Inl Panic \<and>
     te_bind (fst e) \<noteq> Inl Panic \<and> (\<forall>hop. probe_env_ok n (te_probes (fst e) hop)) \<and> list_all (\<lambda>sw. sw_routeIdx sw < n) (snd e)"

lemma queue_ok_frame [simp]:
  "queue_ok n (s\<lparr>se_sent := x\<rparr>) = queue_ok n s" "queue_ok n (s\<lparr>se_destHop := h\<rparr>) = queue_ok n s"
  "queue_ok n (s\<lparr>se_currentRoute := k\<rparr>) = queue_ok n s"
  "queue_ok n (arrive sws s) \<longleftrightarrow> queue_ok n s \<and> list_all (\<lambda>sw. sw_routeIdx sw < n) sws"
  by (auto simp: queue_ok_def arrive_def)

lemma probe_bytes: "probe_packet t hop idx = Ok p \<Longrightarrow> \<exists>b. Packet_Bytes p = Ok b"
proof -
  assume p: "probe_packet t hop idx = Ok p"
  then have "forwarded 0 p = p"
    by (elim probe_packet_cases) (simp_all add: formSyncPacket_def formSignalingPacket_def probe_header_def Let_def)
  then show ?thesis using forwarded_probe_ok [OF p, of 0] decode_packet_bytes [of p] by auto
qed

lemma add_switch_safe:
  assumes "queue_ok n (s\<lparr>se_inputQueue := sw # se_inputQueue s\<rparr>)"
  shows "\<exists>s'. add_switch sw s = Ok s' \<and> queue_ok n s'"
  using assms by (simp add: queue_ok_def add_switch_def)

lemma pop_queue_safe:
  assumes "queue_ok n s" and "list_all (\<lambda>sw. sw_routeIdx sw < n) q"
  shows "\<exists>s'. pop_queue q s = Ok s' \<and> queue_ok n s'"
  using assms
proof (induction q arbitrary: s)
  case (Cons sw q)
  then obtain t where "add_switch sw s = Ok t" "queue_ok n t"
    using add_switch_safe [where n = n and s = s and sw = sw] by (auto simp: queue_ok_def)
  then show ?case using Cons by simp
qed simp

lemma popAllQueue_safe: "queue_ok n s \<Longrightarrow> \<exists>s'. popAllQueue s = Ok s' \<and> queue_ok n s'"
  unfolding popAllQueue_def by (rule pop_queue_safe) (simp_all add: queue_ok_def)

definition probe_sending :: "ZiffyConfig \<Rightarrow> probe_env \<Rightarrow> int \<Rightarrow> Sender \<Rightarrow> bytes res" where
  "probe_sending c e hop s = bind_res (pb_hops e) (\<lambda>_. bind_res (pb_tclass e) (\<lambda>_.
     bind_res (probe_packet (zc_MessageType c) hop (int (se_currentRoute s))) (\<lambda>p.
     bind_res (Packet_Bytes p) (\<lambda>b. bind_res (pb_send e) (\<lambda>_. Ok b)))))"

lemma probe_sending_no_panic: "probe_env_ok n e \<Longrightarrow> probe_sending c e hop s \<noteq> Inl Panic"
proof -
  assume e: "probe_env_ok n e"
  have p: "probe_packet t hop i \<noteq> Inl Panic" for t i by (simp add: probe_packet_def)
  have "Packet_Bytes p \<noteq> Inl Panic" if "probe_packet t hop i = Ok p" for t i p using probe_bytes [OF that] by auto
  with e p show ?thesis by (auto simp: probe_sending_def probe_env_ok_def bind_res_panic_iff)
qed

lemma probe_safe:
  assumes "queue_ok n s" and "probe_env_ok n e"
  shows "\<exists>err r s'. probe c parseIP dest e hop s = Ok (err, r, s') \<and> queue_ok n s'"
proof (cases "probe_sending c e hop s")
  case (Inl m)
  then show ?thesis
    using probe_sending_no_panic [OF assms(2), of c hop s] assms(1) by (cases m) (auto simp: probe_def probe_sending_def)
next
  case (Inr b)
  let ?s = "arrive (pb_arrived e) (s\<lparr>se_sent := se_sent s @ [(hop, zc_DSCP c * 4, b)]\<rparr>)"
  have q: "queue_ok n ?s" using assms by (simp add: probe_env_ok_def)
  show ?thesis
  proof (cases "se_inputQueue ?s")
    case Nil
    then have "probe c parseIP dest e hop s = Ok (None, False, ?s)"
      using Inr by (simp add: probe_def probe_sending_def Let_def)
    then show ?thesis using q by blast
  next
    case (Cons sw queue)
    then have "queue_ok n (?s\<lparr>se_inputQueue := sw # queue\<rparr>)" using q by (simp add: queue_ok_def)
    then obtain t where t: "add_switch sw (?s\<lparr>se_inputQueue := queue\<rparr>) = Ok t" "queue_ok n t"
      using add_switch_safe [where n = n and s = "?s\<lparr>se_inputQueue := queue\<rparr>" and sw = sw] by auto
    then show ?thesis using Inr Cons by (simp add: probe_def probe_sending_def Let_def)
  qed
qed

lemma trace_hops_safe:
  assumes "queue_ok n s" and "\<forall>hop. probe_env_ok n (env hop)"
  shows "\<exists>err s'. trace_hops c parseIP dest env hop hopMax reached s = Ok (err, s') \<and> queue_ok n s'"
  using assms
proof (induction c parseIP dest env hop hopMax reached s rule: trace_hops.induct)
  case (1 c parseIP dest env hop hopMax reached s)
  show ?case
  proof (cases "hop \<le> hopMax \<and> (\<not> reached \<or> zc_ContReached c)")
    case True
    obtain e r t where p: "probe c parseIP dest (env hop) hop s = Ok (e, r, t)" "queue_ok n t"
      using probe_safe [OF 1(2)] 1(3) by blast
    then show ?thesis using 1(1) [OF True refl, of t r] 1(3) True by (subst trace_hops.simps) (cases e; simp)
  next
    case False
    then have "trace_hops c parseIP dest env hop hopMax reached s = Ok (None, s)" by (subst trace_hops.simps) (rule if_not_P)
    then show ?thesis using 1(2) by simp
  qed
qed

lemma traceRoute_safe:
  assumes "queue_ok n s" and "flow_env_ok n e"
  shows "\<exists>err s'. traceRoute c parseIP (fst e) sweep s = Ok (err, s') \<and> queue_ok n s'"
proof (cases "bind_res (te_resolved (fst e)) (\<lambda>ip. bind_res (te_socket (fst e)) (\<lambda>_.
           bind_res (te_reuseport (fst e)) (\<lambda>_. bind_res (te_bind (fst e)) (\<lambda>_. Ok ip))))")
  case (Inl m)
  then have "m \<noteq> Panic" using assms(2) by (auto simp: flow_env_ok_def bind_res_panic_iff)
  then show ?thesis using Inl assms(1) by (cases m) (simp_all add: traceRoute_def)
next
  case (Inr dest)
  then show ?thesis
    using trace_hops_safe [OF assms(1)] assms(2) by (simp add: traceRoute_def flow_env_ok_def Let_def)
qed

lemma trace_flow_safe:
  assumes "queue_ok n s" and "flow_env_ok (Suc n) e"
  shows "\<exists>s'. trace_flow c parseIP sweep e s = Ok s' \<and> queue_ok (Suc n) s'"
proof -
  let ?s = "s\<lparr>se_routes := se_routes s @ [\<lparr>pa_switches = [], pa_rackSwHostname = se_rackSwHostname s\<rparr>]\<rparr>"
  have "queue_ok (Suc n) ?s" using assms(1) by (auto simp: queue_ok_def list_all_iff)
  then obtain err t where t: "traceRoute c parseIP (fst e) sweep ?s = Ok (err, t)" "queue_ok (Suc n) t"
    using traceRoute_safe [OF _ assms(2)] by blast
  then have "queue_ok (Suc n) (arrive (snd e) t)" using assms(2) by (simp add: flow_env_ok_def)
  then show ?thesis
    using t(1) popAllQueue_safe [of "Suc n" "(arrive (snd e) t)\<lparr>se_currentRoute := Suc (se_currentRoute t)\<rparr>"]
    by (cases err) (simp_all add: trace_flow_def Let_def)
qed

lemma trace_flows_safe:
  assumes "queue_ok n s" and "\<forall>i<length es. flow_env_ok (Suc (n + i)) (snd (es ! i))"
  shows "\<exists>s'. trace_flows c parseIP es s = Ok s' \<and> queue_ok (n + length es) s'"
  using assms
proof (induction c parseIP es s arbitrary: n rule: trace_flows.induct)
  case (2 c parseIP sweep e es s)
  obtain t where t: "trace_flow c parseIP sweep e s = Ok t" "queue_ok (Suc n) t"
    using trace_flow_safe [OF 2(2)] 2(3) [rule_format, of 0] by fastforce
  have "\<forall>i<length es. flow_env_ok (Suc (Suc n + i)) (snd (es ! i))" using 2(3) [rule_format, of "Suc _"] by simp
  with 2(1) [OF t(2)] t(1) show ?case by simp
qed simp


lemma formNewDest_ok: "case dest of Inl _ \<Rightarrow> True | Inr addr \<Rightarrow> length addr = 16 \<Longrightarrow> \<exists>ip. formNewDest dest i = Ok ip"
  by (cases dest) (simp_all add: formNewDest_def Let_def)

lemma sweepRackPrefix_safe:
  assumes "queue_ok n s" and "\<And>ip. resolve ip \<noteq> Inl Panic" and "case dest of Inl _ \<Rightarrow> True | Inr addr \<Rightarrow> length addr = 16"
    and "\<And>a j. a < length is \<Longrightarrow> j < zc_PortCount c \<Longrightarrow> flow_env_ok (Suc (n + a * zc_PortCount c + j)) (envs (is ! a) j)"
  shows "\<exists>s'. sweepRackPrefix c parseIP dest resolve envs is s = Ok s' \<and> queue_ok (n + length is * zc_PortCount c) s'"
  using assms(1,4)
proof (induction "is" arbitrary: n s)
  case (Cons i "is")
  obtain newIP where ip: "formNewDest dest i = Ok newIP" using formNewDest_ok [OF assms(3)] by blast
  let ?es = "map (\<lambda>j. (True, (fst (envs i j))\<lparr>te_resolved := resolve newIP\<rparr>, snd (envs i j))) [0..<zc_PortCount c]"
  have "\<forall>j<length ?es. flow_env_ok (Suc (n + j)) (snd (?es ! j))"
    using Cons.prems(2) [of 0] assms(2) by (simp add: flow_env_ok_def)
  then obtain t where t: "trace_flows c parseIP ?es s = Ok t" "queue_ok (n + zc_PortCount c) t"
    using trace_flows_safe [OF Cons.prems(1)] by fastforce
  have "flow_env_ok (Suc (n + zc_PortCount c + a * zc_PortCount c + j)) (envs (is ! a) j)"
    if "a < length is" "j < zc_PortCount c" for a j
    using Cons.prems(2) [of "Suc a" j] that by (simp add: algebra_simps)
  from Cons.IH [OF t(2) this] show ?case using ip t(1) by (simp add: algebra_simps)
qed simp

lemma sender_returns:
  assumes "\<And>i j. i \<le> zc_IPCount c \<Longrightarrow> j < zc_PortCount c \<Longrightarrow> flow_env_ok (Suc (i * zc_PortCount c + j)) (envs i j)"
    and "\<And>ip. resolve ip \<noteq> Inl Panic" and "case dest of Inl _ \<Rightarrow> True | Inr addr \<Rightarrow> length addr = 16"
    and "list_all (\<lambda>sw. sw_routeIdx sw < zc_PortCount c * (1 + zc_IPCount c)) late"
  shows "\<exists>paths s. Sender_Start c parseIP srt (Ok ()) lldp dest resolve envs late = Ok (paths, s)"
proof -
  let ?es = "map (\<lambda>j. (False, envs 0 j)) [0..<zc_PortCount c]"
  have "queue_ok 0 (new_sender lldp)" by (simp add: queue_ok_def new_sender_def)
  moreover have "\<forall>j<length ?es. flow_env_ok (Suc (0 + j)) (snd (?es ! j))" using assms(1) [of 0] by simp
  ultimately obtain t where t: "trace_flows c parseIP ?es (new_sender lldp) = Ok t" "queue_ok (zc_PortCount c) t"
    using trace_flows_safe [of 0 "new_sender lldp" ?es] by fastforce
  have "flow_env_ok (Suc (zc_PortCount c + a * zc_PortCount c + j)) (envs ([1..<Suc (zc_IPCount c)] ! a) j)"
    if "a < length [1..<Suc (zc_IPCount c)]" "j < zc_PortCount c" for a j
    using assms(1) [of "Suc a" j] that by (simp add: nth_append del: upt_Suc)
  from sweepRackPrefix_safe [where resolve = resolve and parseIP = parseIP, OF t(2) assms(2,3) this] obtain u where
    u: "sweepRackPrefix c parseIP dest resolve envs [1..<Suc (zc_IPCount c)] t = Ok u" "queue_ok (zc_PortCount c * (1 + zc_IPCount c)) u"
    by (auto simp: algebra_simps simp del: upt_Suc)
  have "\<exists>v. (if zc_IPCount c \<noteq> 0 then sweepRackPrefix c parseIP dest resolve envs [1..<Suc (zc_IPCount c)] t else Ok t) = Ok v \<and>
      queue_ok (zc_PortCount c * (1 + zc_IPCount c)) v"
    using u t(2) by (simp del: upt_Suc)
  then obtain v where v: "(if zc_IPCount c \<noteq> 0 then sweepRackPrefix c parseIP dest resolve envs [1..<Suc (zc_IPCount c)] t else Ok t) = Ok v"
      "queue_ok (zc_PortCount c * (1 + zc_IPCount c)) (arrive late v)"
    using assms(4) by auto
  from popAllQueue_safe [OF v(2)] obtain w where "popAllQueue (arrive late v) = Ok w" by blast
  then show ?thesis using t(1) v(1) by (simp add: Sender_Start_def Sender_run_def del: upt_Suc)
qed


definition example_config :: ZiffyConfig where
  "example_config = \<lparr>zc_Mode = ''sender'', zc_LogLevel = ''info'', zc_Device = ''eth0'', zc_CsvFile = [], zc_DestinationAddress = ''2401:db00::1'',
     zc_DestinationPort = 319, zc_SourcePort = 32768, zc_PortCount = 1, zc_HopMax = 7, zc_HopMin = 1,
     zc_IPCount = 1, zc_DSCP = 0, zc_PTPRecvHandlers = 10000, zc_ContReached = False,
     zc_IcmpTimeout = second, zc_MessageType = MessageSync, zc_LLDPWaitTime = 5 * second, zc_IcmpReplyTime = second, zc_QueueCap = 10000\<rparr>"

definition example_flow :: "nat \<Rightarrow> nat \<Rightarrow> trace_env \<times> SwitchTrafficInfo list" where
  "example_flow i j = (\<lparr>te_resolved = Ok (replicate 16 1), te_socket = Ok (), te_reuseport = Ok (), te_bind = Ok (),
     te_probes = (\<lambda>hop. \<lparr>pb_hops = Ok (), pb_tclass = Ok (), pb_send = Ok (),
       pb_arrived = [\<lparr>sw_ip = ''2401:db00::1'', sw_corrField = 0, sw_routeIdx = 0, sw_hop = hop\<rparr>]\<rparr>)\<rparr>, [])"


lemma example_sweep:
  "\<exists>paths s. Sender_Start example_config (\<lambda>_. None) (insertionSort sw_hop) (Ok ()) (Ok ''rsw001'') (Ok (replicate 16 1)) Ok example_flow [] = Ok (paths, s)"
  by (rule sender_returns) (simp_all add: flow_env_ok_def probe_env_ok_def example_flow_def)

theorem Sender_Start_paths_witness:
  "\<exists>paths s. Sender_Start example_config (\<lambda>_. None) (insertionSort sw_hop) (Ok ()) (Ok ''rsw001'') (Ok (replicate 16 1)) Ok example_flow [] = Ok (paths, s) \<and>
     length paths = 2"
proof -
  obtain paths s where "Sender_Start example_config (\<lambda>_. None) (insertionSort sw_hop) (Ok ()) (Ok ''rsw001'') (Ok (replicate 16 1)) Ok example_flow [] = Ok (paths, s)"
    using example_sweep by blast
  with Sender_Start_paths [OF this insertion.slice_sorter_axioms] show ?thesis by (auto simp: example_config_def)
qed

lemma face_update:
  assumes "length p = 8"
  shows "(let ip = p @ replicate 8 0;
      ip = ip[8 := ip ! 8 + 0xfa, 9 := ip ! 9 + 0xce, 10 := ip ! 10 + 0xfa, 11 := ip ! 11 + 0xce]
    in ip[15 := ip ! 15 + x, 14 := ip ! 14 + y]) = p @ [0xfa, 0xce, 0xfa, 0xce, 0, 0, y, x :: u8]"
proof -
  obtain p0 p1 p2 p3 p4 p5 p6 p7 where "p = [p0, p1, p2, p3, p4, p5, p6, p7]"
    using assms by (auto simp: eval_nat_numeral length_Suc_conv)
  then show ?thesis by (simp add: eval_nat_numeral)
qed

text \<open>
  The addresses of a sweep share the destination's /64 prefix, and up to number 65535 they all differ.
\<close>
theorem formNewDest_address:
  assumes "length addr = 16" and "i < 65536" and "j < 65536"
  shows "formNewDest (Ok addr) i = Ok (take 8 addr @ [0xfa, 0xce, 0xfa, 0xce, 0, 0, word_of_nat (i div 256), word_of_nat i]) \<and>
    (formNewDest (Ok addr) i = formNewDest (Ok addr) j \<longleftrightarrow> i = j)"
proof -
  have form: "formNewDest (Ok addr) k = Ok (take 8 addr @ [0xfa, 0xce, 0xfa, 0xce, 0, 0, word_of_nat (k div 256), word_of_nat k])" for k
    using face_update [of "take 8 addr"] assms(1) unfolding formNewDest_def Let_def by simp
  have "i = j" if "(word_of_nat (i div 256) :: u8) = word_of_nat (j div 256)" "(word_of_nat i :: u8) = word_of_nat j"
  proof -
    have "i div 256 = j div 256" "i mod 256 = j mod 256"
      using that assms(2,3) by (simp_all add: word_of_nat_eq_iff take_bit_eq_mod)
    then show ?thesis by (metis div_mult_mod_eq)
  qed
  then show ?thesis using form by auto
qed


theorem formNewDest_address_witness:
  "formNewDest (Ok [0x24, 1, 0xdb, 0, 0x25, 0x1c, 0x26, 8, 0, 0, 0, 0, 0, 0, 0, 1]) 4 =
     Ok [0x24, 1, 0xdb, 0, 0x25, 0x1c, 0x26, 8, 0xfa, 0xce, 0xfa, 0xce, 0, 0, 0, 4]"
  using formNewDest_address [of "[0x24, 1, 0xdb, 0, 0x25, 0x1c, 0x26, 8, 0, 0, 0, 0, 0, 0, 0, 1]" 4 5] by simp

lemma pop_queue_append: "pop_queue (q @ r) s = bind_res (pop_queue q s) (pop_queue r)"
proof (induction q arbitrary: s)
  case (Cons sw q)
  then show ?case by (cases "add_switch sw s") simp_all
qed simp

lemma pop_queue_cases: "pop_queue q s = Inl Panic \<or> (\<exists>t. pop_queue q s = Ok t \<and> length (se_routes t) = length (se_routes s))"
proof (induction q arbitrary: s)
  case (Cons sw q)
  show ?case
  proof (cases "sw_routeIdx sw < length (se_routes s)")
    case True
    then obtain t where "add_switch sw s = Ok t" "length (se_routes t) = length (se_routes s)" by (simp add: add_switch_def)
    then show ?thesis using Cons [of t] by simp
  qed (simp add: add_switch_def)
qed simp

text \<open>
  Any other PTP packet of the host kills the sweep: the handler does not look for the signature of the probes, so a reply that quotes a Sync or
  Delay_Req packet with a port number beyond the routes opened so far ends in a panic when the queue is read.
\<close>
theorem foreign_reply_panics:
  assumes "packet_ok (P_SyncDelayReq v)" and "Packet_Bytes (P_SyncDelayReq v) = Ok b" and "length headers = 55"
    and "length (se_routes s) \<le> unat (pi_PortNumber (h_SourcePortIdentity (sd_Header v)))"
  shows "\<exists>sw. handleIcmpPacket mgmtTLVDecoder (quoting headers b @ rest) (length (quoting headers b)) a = Ok (Some sw) \<and>
    popAllQueue (arrive [sw] s) = Inl Panic"
proof -
  obtain sw where sw: "handleIcmpPacket mgmtTLVDecoder (quoting headers b @ rest) (length (quoting headers b)) a = Ok (Some sw)"
      "sw_routeIdx sw = unat (pi_PortNumber (h_SourcePortIdentity (sd_Header v)))"
    using handleIcmp_quoting [OF assms(1-3), of rest a] by simp
  have "popAllQueue (arrive [sw] s) = Inl Panic"
    using pop_queue_cases [of "se_inputQueue s" "(arrive [sw] s)\<lparr>se_inputQueue := []\<rparr>"] assms(4) sw(2)
    by (auto simp: popAllQueue_def arrive_def pop_queue_append add_switch_def)
  with sw(1) show ?thesis by blast
qed

theorem foreign_reply_panics_witness:
  "\<exists>b sw. Packet_Bytes (P_SyncDelayReq (formSyncPacket MessageSync 64 1)) = Ok b \<and>
     handleIcmpPacket mgmtTLVDecoder (quoting (replicate 55 0) b) (length (quoting (replicate 55 0) b)) ''2401:db00::9'' = Ok (Some sw) \<and>
     popAllQueue (arrive [sw] ((new_sender (Ok ''rsw001''))\<lparr>se_routes := [\<lparr>pa_switches = [], pa_rackSwHostname = ''rsw001''\<rparr>]\<rparr>)) = Inl Panic"
proof -
  have p: "probe_packet MessageSync 64 1 = Ok (P_SyncDelayReq (formSyncPacket MessageSync 64 1))" by (simp add: probe_packet_def)
  have "packet_ok (P_SyncDelayReq (formSyncPacket MessageSync 64 1))"
    using forwarded_probe_ok [OF p, of 0] by (simp add: formSyncPacket_def probe_header_def)
  moreover obtain b where b: "Packet_Bytes (P_SyncDelayReq (formSyncPacket MessageSync 64 1)) = Ok b" using probe_bytes [OF p] by blast
  ultimately show ?thesis
    using foreign_reply_panics [of "formSyncPacket MessageSync 64 1" b "replicate 55 0"
      "(new_sender (Ok ''rsw001''))\<lparr>se_routes := [\<lparr>pa_switches = [], pa_rackSwHostname = ''rsw001''\<rparr>]\<rparr>" "[]" "''2401:db00::9''"]
    by (simp add: formSyncPacket_def probe_header_def)
qed

section \<open>Properties of the goroutines\<close>

lemma reading_stays:
  assumes "icmp_run decoders s es t" and "ic_monitor s = Reading" and "ic_main s \<noteq> Returned" and "set es \<subseteq> {Ev_internal}"
  shows "ic_monitor t = Reading \<and> ic_main t \<noteq> Returned"
  using assms
proof (induction rule: icmp_run.induct)
  case (run_step s e s' es t)
  from run_step(1) have "ic_monitor s' = Reading \<and> ic_main s' \<noteq> Returned"
    using run_step(4-6) by (cases rule: icmp_step.cases) auto
  then show ?case using run_step(3,6) by simp
qed simp

text \<open>
  The end of a sweep waits for one more ICMP packet: once the monitor has begun to read, \<open>Start\<close> does not return before
  another packet or a read error comes in.
\<close>
theorem Start_waits_for_packet:
  assumes "icmp_run decoders s es t" and "ic_monitor s = Reading" and "ic_main s \<noteq> Returned" and "ic_main t = Returned"
  shows "\<exists>e. e \<in> set es \<and> e \<noteq> Ev_internal"
  using reading_stays [OF assms(1-3)] assms(4) by blast

theorem Start_waits_for_packet_witness: "\<exists>e. e \<in> set [Ev_packet [] ''2401:db00::1'', Ev_internal] \<and> e \<noteq> Ev_internal"
proof -
  let ?s = "icmp_start\<lparr>ic_monitor := Reading, ic_main := Signalling\<rparr>"
  let ?t = "?s\<lparr>ic_monitor := Selecting, ic_handlers := [(0, ''2401:db00::1'')]\<rparr>"
  have "icmp_step mgmtTLVDecoder ?s (Ev_packet [] ''2401:db00::1'') ?t"
    using read_packet [of ?s mgmtTLVDecoder "[]" "''2401:db00::1''"] by (simp add: icmp_start_def read_into_def)
  moreover have "icmp_step mgmtTLVDecoder ?t Ev_internal (?t\<lparr>ic_monitor := Stopped, ic_main := Returned\<rparr>)"
    using select_done [of ?t] by (simp add: icmp_start_def)
  ultimately have "icmp_run mgmtTLVDecoder ?s [Ev_packet [] ''2401:db00::1'', Ev_internal] (?t\<lparr>ic_monitor := Stopped, ic_main := Returned\<rparr>)"
    by (blast intro: icmp_run.intros)
  from Start_waits_for_packet [OF this] show ?thesis by simp
qed

text \<open>
  C21: The handlers share one buffer: if a second reply is read before the handler of the first one runs, the first switch is recorded with the
  hop, route and correction of the second.
\<close>
theorem icmp_buffer_race:
  assumes "probe_packet t1 hop1 idx1 = Ok p1" and "probe_packet t1 hop2 idx2 = Ok p2"
    and "Packet_Bytes (forwarded c1 p1) = Ok b1" and "Packet_Bytes (forwarded c2 p2) = Ok b2"
    and "length h1 = 55" and "length h2 = 55" and "length b1 = length b2" and "length b2 \<le> 72"
  shows "\<exists>s r1 r2. icmp_run mgmtTLVDecoder icmp_start
      [Ev_internal, Ev_packet (quoting h1 b1) a1, Ev_internal, Ev_packet (quoting h2 b2) a2, Ev_internal, Ev_internal] s \<and>
    handleIcmpPacket mgmtTLVDecoder (quoting h2 b2) (length (quoting h2 b2)) a2 = Ok (Some r2) \<and> r1 = r2\<lparr>sw_ip := a1\<rparr> \<and>
    ic_queue s = [r1, r2]"
proof -
  let ?q1 = "quoting h1 b1" and ?q2 = "quoting h2 b2"
  have l: "length ?q1 = length ?q2" "length ?q2 \<le> 128" using assms(5-8) by (simp_all add: quoting_def)
  define rest where "rest = drop (length ?q2) (read_into ?q1 (replicate 128 0))"
  have buf: "read_into ?q2 (read_into ?q1 (replicate 128 0)) = ?q2 @ rest"
    using l by (simp add: rest_def read_into_def)
  have len: "length (read_into ?q1 (replicate 128 0)) = 128" using l by (simp add: read_into_def)
  define r where "r = \<lparr>sw_ip = [], sw_corrField = h_CorrectionField (Packet_Header (forwarded c2 p2)),
    sw_routeIdx = unat (pi_PortNumber (h_SourcePortIdentity (Packet_Header (forwarded c2 p2)))),
    sw_hop = uint (h_SequenceID (Packet_Header (forwarded c2 p2)))\<rparr>"
  have r: "handleIcmpPacket mgmtTLVDecoder (?q2 @ rest) (length ?q2) a = Ok (Some (r\<lparr>sw_ip := a\<rparr>))" for a rest
    using handleIcmp_quoting [OF forwarded_probe_ok [OF assms(2)] assms(4,6)] assms(2)
    by (elim probe_packet_cases) (simp_all add: r_def)
  let ?s1 = "icmp_start\<lparr>ic_monitor := Reading\<rparr>"
  let ?s2 = "?s1\<lparr>ic_buf := read_into ?q1 (replicate 128 0), ic_monitor := Selecting, ic_handlers := [(length ?q1, a1)]\<rparr>"
  let ?s3 = "?s2\<lparr>ic_monitor := Reading\<rparr>"
  let ?s4 = "?s3\<lparr>ic_buf := ?q2 @ rest, ic_monitor := Selecting, ic_handlers := [(length ?q1, a1), (length ?q2, a2)]\<rparr>"
  let ?s5 = "?s4\<lparr>ic_handlers := [(length ?q2, a2)], ic_queue := [r\<lparr>sw_ip := a1\<rparr>]\<rparr>"
  let ?s6 = "?s5\<lparr>ic_handlers := [], ic_queue := [r\<lparr>sw_ip := a1\<rparr>, r\<lparr>sw_ip := a2\<rparr>]\<rparr>"
  have "icmp_step mgmtTLVDecoder icmp_start Ev_internal ?s1"
    using select_default [of icmp_start] by (simp add: icmp_start_def)
  moreover have "icmp_step mgmtTLVDecoder ?s1 (Ev_packet ?q1 a1) ?s2"
    using read_packet [of ?s1 _ ?q1 a1] l by (simp add: icmp_start_def min_def)
  moreover have "icmp_step mgmtTLVDecoder ?s2 Ev_internal ?s3"
    using select_default [of ?s2] by (simp add: icmp_start_def)
  moreover have "icmp_step mgmtTLVDecoder ?s3 (Ev_packet ?q2 a2) ?s4"
    using read_packet [of ?s3 _ ?q2 a2] l buf len by (simp add: icmp_start_def min_def)
  moreover have "icmp_step mgmtTLVDecoder ?s4 Ev_internal ?s5"
    using handle [of ?s4 "[]" "length ?q1" a1 "[(length ?q2, a2)]" mgmtTLVDecoder] r [of rest a1] l by (simp add: icmp_start_def)
  moreover have "icmp_step mgmtTLVDecoder ?s5 Ev_internal ?s6"
    using handle [of ?s5 "[]" "length ?q2" a2 "[]" mgmtTLVDecoder] r [of rest a2] by (simp add: icmp_start_def)
  ultimately have "icmp_run mgmtTLVDecoder icmp_start
      [Ev_internal, Ev_packet ?q1 a1, Ev_internal, Ev_packet ?q2 a2, Ev_internal, Ev_internal] ?s6"
    by (blast intro: icmp_run.intros)
  then show ?thesis using r [of "[]" a2] by (intro exI conjI) auto
qed


lemma sync_bytes:
  obtains b where "Packet_Bytes (forwarded c (P_SyncDelayReq (formSyncPacket MessageSync hop idx))) = Ok b" "length b = 46"
proof -
  let ?q = "formSyncPacket MessageSync hop idx"
  let ?q = "?q\<lparr>sd_Header := (sd_Header ?q)\<lparr>h_CorrectionField := c\<rparr>\<rparr>"
  have "probe_packet MessageSync hop idx = Ok (P_SyncDelayReq (formSyncPacket MessageSync hop idx))" by (simp add: probe_packet_def)
  from forwarded_probe_ok [OF this, of c] have "cok SyncDelayReq_codec ?q" by simp
  then have "Packet_Bytes (P_SyncDelayReq ?q) = Ok (binary_Write SyncDelayReq_codec ?q @ twoZeros)" by (simp add: marshalled)
  moreover have "length (binary_Write SyncDelayReq_codec ?q @ twoZeros) = 46"
    using \<open>cok SyncDelayReq_codec ?q\<close> wf_codecD(1) [OF wf_SyncDelayReq] by (simp add: binary_Write_def twoZeros_def)
  ultimately show ?thesis using that by simp
qed

theorem icmp_buffer_race_witness:
  "\<exists>b1 b2 s r2. icmp_run mgmtTLVDecoder icmp_start
      [Ev_internal, Ev_packet (quoting (replicate 55 0) b1) ''switch1'', Ev_internal, Ev_packet (quoting (replicate 55 0) b2) ''switch2'', Ev_internal, Ev_internal] s \<and>
    ic_queue s = [r2\<lparr>sw_ip := ''switch1''\<rparr>, r2]"
proof -
  obtain b1 where b1: "Packet_Bytes (forwarded 0 (P_SyncDelayReq (formSyncPacket MessageSync 1 0))) = Ok b1" "length b1 = 46" by (rule sync_bytes)
  obtain b2 where b2: "Packet_Bytes (forwarded 5 (P_SyncDelayReq (formSyncPacket MessageSync 2 0))) = Ok b2" "length b2 = 46" by (rule sync_bytes)
  have "probe_packet MessageSync 1 0 = Ok (P_SyncDelayReq (formSyncPacket MessageSync 1 0))"
    "probe_packet MessageSync 2 0 = Ok (P_SyncDelayReq (formSyncPacket MessageSync 2 0))" by (simp_all add: probe_packet_def)
  from icmp_buffer_race [OF this b1(1) b2(1), of "replicate 55 0" "replicate 55 0" "''switch1''" "''switch2''"] b1(2) b2(2)
  show ?thesis by auto
qed

section \<open>Properties of the receiver\<close>

text \<open>
  C20: The receiver never runs more handlers than configured, its counter is the number of running handlers, and the
  exit on a negative counter is never taken.
\<close>
theorem receiver_handlers_bounded:
  assumes "receiver_reachable c decoders r"
  shows "rc_running r = int (length (rc_handlers r)) \<and> rc_running r \<le> max 0 (zc_PTPRecvHandlers c) \<and> \<not> rc_fatal r"
  using assms
proof (induction rule: receiver_reachable.induct)
  case started
  then show ?case by (simp add: receiver_start_def)
next
  case (stepped r r')
  from stepped(2) show ?case
    using stepped(3)
    by (cases rule: receiver_step.cases)
      (auto simp: capture_def incRunningHandlers_def finish_handler_def decRunningHandlers_def)
qed

theorem receiver_handlers_bounded_witness: "rc_running receiver_start \<le> max 0 (zc_PTPRecvHandlers example_config)"
  using receiver_handlers_bounded [OF receiver_reachable.started [of example_config mgmtTLVDecoder]] by blast

text \<open>
  A Signaling probe, which the sender sends if asked to, panics the receiver it reaches: the decoded packet is asserted to be a Sync or
  Delay_Req packet before its signature is looked at.
\<close>
theorem signaling_probe_crashes_receiver:
  assumes "probe_packet MessageSignaling hop idx = Ok p" and "Packet_Bytes (forwarded c p) = Ok b"
    and "cp_SrcIP pkt = Some src" and "cp_SrcPort pkt = Some port" and "cp_Payload pkt = Some b"
  shows "handlePacket mgmtTLVDecoder e pkt = Inl Panic"
proof -
  have "DecodePacket mgmtTLVDecoder b = Ok (forwarded c p)" using assms(1,2) by (rule probe_decodes)
  moreover have "\<exists>q. forwarded c p = P_Signaling q" using assms(1) by (auto simp: probe_packet_def)
  ultimately show ?thesis using assms(3-5) by (auto simp: handlePacket_def parseSyncPacket_def)
qed

theorem signaling_probe_crashes_receiver_witness:
  "\<exists>b. Packet_Bytes (P_Signaling (formSignalingPacket 4 0)) = Ok b \<and>
     handlePacket mgmtTLVDecoder \<lparr>re_resolve = (\<lambda>_. Ok ()), re_listen = Ok (), re_marshal = (\<lambda>_ _. Ok []), re_write = Ok ()\<rparr>
       \<lparr>cp_Data = [], cp_SrcIP = Some ''2401:db00::1'', cp_SrcPort = Some 32768, cp_Payload = Some b\<rparr> = Inl Panic"
proof -
  have p: "probe_packet MessageSignaling 4 0 = Ok (P_Signaling (formSignalingPacket 4 0))" by (simp add: probe_packet_def)
  have f: "forwarded 0 (P_Signaling (formSignalingPacket 4 0)) = P_Signaling (formSignalingPacket 4 0)"
    by (simp add: formSignalingPacket_def probe_header_def Let_def)
  obtain b where b: "Packet_Bytes (P_Signaling (formSignalingPacket 4 0)) = Ok b" using probe_bytes [OF p] by blast
  with signaling_probe_crashes_receiver [OF p, of 0 b] f show ?thesis by simp
qed

text \<open>The ICMP library puts type, code and checksum before the body.\<close>

definition marshals :: "(u8 \<Rightarrow> bytes \<Rightarrow> bytes res) \<Rightarrow> bool" where
  "marshals m \<longleftrightarrow> (\<forall>t body. \<exists>ck. length ck = 2 \<and> m t body = Ok (t # 0 # ck @ body))"




text \<open>
  A configuration that \<open>main\<close> accepts has a traffic class that fits its byte and a message type that every probe can be formed for.
\<close>
theorem ziffy_main_accepts:
  assumes "ziffy_main messageType c = Ok (c', m)"
  shows "0 \<le> zc_DSCP c' * 4 \<and> zc_DSCP c' * 4 < 256 \<and> (\<exists>p. probe_packet (zc_MessageType c') hop idx = Ok p)"
  using assms by (auto simp: ziffy_main_def message_types_def probe_packet_def split: if_splits option.splits)

theorem ziffy_main_accepts_witness:
  "\<exists>c' m p. ziffy_main ''signaling'' example_config = Ok (c', m) \<and> probe_packet (zc_MessageType c') 3 0 = Ok p"
proof -
  obtain c' m where "ziffy_main ''signaling'' example_config = Ok (c', m)"
    by (simp add: ziffy_main_def example_config_def message_types_def log_levels_def)
  with ziffy_main_accepts [OF this, of 3 0] show ?thesis by blast
qed

end
