(* ===== verification/Ziffy_Print.thy ===== *)
theory Ziffy_Print
  imports Ziffy_Trace
begin

text \<open>
  \<open>cmd/ziffy/node/print.go\<close>: the summary of a sweep per switch, the verdict whether the switch is a transparent clock, and the
  table and CSV file made of it. The lookup of host names, the iteration order of Go's map, \<open>sort.Slice\<close> and the printed form of a
  float are arguments.
\<close>

section \<open>Names\<close>

definition getLookUpName :: "(string \<Rightarrow> string list res) \<Rightarrow> string \<Rightarrow> string res" where
  "getLookUpName lookup ip = (case lookup ip of Inl _ \<Rightarrow> Ok ip | Inr addr \<Rightarrow> index addr 0)"

text \<open>The name split at its first dot if it starts with eth; the slice of three characters panics on a shorter name.\<close>

definition split_interface :: "string \<Rightarrow> (string \<times> string) res" where
  "split_interface lun =
     (case strings_Index (CHR ''.'') lun of
        None \<Rightarrow> Ok ([], lun)
      | Some i \<Rightarrow> bind_res (slice lun 0 3) (\<lambda>p. if p = ''eth'' then Ok (take i lun, drop (i + 1) lun) else Ok ([], lun)))"

definition getHostNoPrefix :: "(string \<Rightarrow> string list res) \<Rightarrow> string \<Rightarrow> string res" where
  "getHostNoPrefix lookup ip = bind_res (getLookUpName lookup ip) (\<lambda>lun. bind_res (split_interface lun) (\<lambda>(_, host). Ok host))"

definition getHostIfPrefix :: "(string \<Rightarrow> string list res) \<Rightarrow> string \<Rightarrow> string res" where
  "getHostIfPrefix lookup ip = bind_res (getLookUpName lookup ip) (\<lambda>lun. bind_res (split_interface lun) (\<lambda>(intf, _). Ok intf))"

section \<open>The summary of a sweep\<close>

datatype tc_status = tcTrue | tcFalse | tcNA

fun statusToString :: "tc_status \<Rightarrow> string" where
  "statusToString tcTrue = ''On''"
| "statusToString tcFalse = ''Off''"
| "statusToString tcNA = ''Unknown''"

type_synonym keyPair = "string \<times> int"

record SwitchPrintInfo =
  sp_ip :: string
  sp_hostname :: string
  sp_interf :: string
  sp_routes :: nat
  sp_divRoutes :: nat
  sp_totalCF :: Correction
  sp_avgCF :: Correction
  sp_maxCF :: Correction
  sp_minCF :: Correction
  sp_tcEnable :: tc_status
  sp_hop :: int
  sp_last :: bool

text \<open>One switch of one path: its key, its address and interface, and the change of the correction field it made, if the next hop answered.\<close>

record observation =
  ob_key :: keyPair
  ob_ip :: string
  ob_intf :: string
  ob_corrField :: Correction
  ob_last :: bool

definition observe :: "(string \<Rightarrow> string list res) \<Rightarrow> PathInfo \<Rightarrow> nat \<Rightarrow> observation res" where
  "observe lookup route swIndex =
     bind_res (index (pa_switches route) swIndex) (\<lambda>swh.
     bind_res (getHostNoPrefix lookup (sw_ip swh)) (\<lambda>host.
     bind_res (getHostIfPrefix lookup (sw_ip swh)) (\<lambda>intf.
     bind_res (index (pa_switches route) (length (pa_switches route) - 1)) (\<lambda>end.
     bind_res (if sw_ip swh = sw_ip end then Ok (0, True)
        else bind_res (index (pa_switches route) (swIndex + 1)) (\<lambda>nxt.
          if sw_hop nxt \<noteq> sw_hop swh + 1 then Ok (0, True) else Ok (sw_corrField nxt - sw_corrField swh, False)))
       (\<lambda>(corrField, final).
       let host = (if sw_hop swh = 1 \<and> pa_rackSwHostname route \<noteq> [] then pa_rackSwHostname route else host) in
       Ok \<lparr>ob_key = (host, sw_hop swh), ob_ip = sw_ip swh, ob_intf = intf, ob_corrField = corrField, ob_last = final\<rparr>)))))"

definition new_info :: "observation \<Rightarrow> SwitchPrintInfo" where
  "new_info ob =
     \<lparr>sp_ip = ob_ip ob, sp_hostname = fst (ob_key ob), sp_interf = ob_intf ob, sp_routes = 1, sp_divRoutes = 1, sp_totalCF = ob_corrField ob,
      sp_avgCF = 0, sp_maxCF = ob_corrField ob, sp_minCF = ob_corrField ob, sp_tcEnable = tcTrue, sp_hop = snd (ob_key ob), sp_last = ob_last ob\<rparr>"

text \<open>Corrections are compared as signed numbers.\<close>

definition add_info :: "observation \<Rightarrow> SwitchPrintInfo \<Rightarrow> SwitchPrintInfo" where
  "add_info ob sp =
     (let sp = sp\<lparr>sp_routes := sp_routes sp + 1\<rparr> in
      if ob_last ob then sp
      else sp\<lparr>sp_totalCF := sp_totalCF sp + ob_corrField ob, sp_divRoutes := sp_divRoutes sp + 1,
             sp_maxCF := (if sint (sp_maxCF sp) < sint (ob_corrField ob) then ob_corrField ob else sp_maxCF sp),
             sp_minCF := (if sint (sp_minCF sp) > sint (ob_corrField ob) then ob_corrField ob else sp_minCF sp)\<rparr>)"

fun discover :: "observation \<Rightarrow> (keyPair \<times> SwitchPrintInfo) list \<Rightarrow> (keyPair \<times> SwitchPrintInfo) list" where
  "discover ob [] = [(ob_key ob, new_info ob)]"
| "discover ob ((k, sp) # d) = (if k = ob_key ob then (k, add_info ob sp) # d else (k, sp) # discover ob d)"

fun discover_switches :: "(string \<Rightarrow> string list res) \<Rightarrow> PathInfo \<Rightarrow> nat list \<Rightarrow> (keyPair \<times> SwitchPrintInfo) list \<Rightarrow>
    (keyPair \<times> SwitchPrintInfo) list res" where
  "discover_switches lookup route [] d = Ok d"
| "discover_switches lookup route (i # is) d = bind_res (observe lookup route i) (\<lambda>ob. discover_switches lookup route is (discover ob d))"

fun discover_routes :: "(string \<Rightarrow> string list res) \<Rightarrow> PathInfo list \<Rightarrow> (keyPair \<times> SwitchPrintInfo) list \<Rightarrow> (keyPair \<times> SwitchPrintInfo) list res" where
  "discover_routes lookup [] d = Ok d"
| "discover_routes lookup (route # routes) d =
     bind_res (discover_switches lookup route [0..<length (pa_switches route)] d) (discover_routes lookup routes)"

text \<open>The verdict on a switch. The divisor is never zero.\<close>

definition classify :: "Correction \<Rightarrow> SwitchPrintInfo \<Rightarrow> SwitchPrintInfo" where
  "classify cfThreshold sw =
     (if sp_last sw then sw\<lparr>sp_avgCF := 0, sp_tcEnable := tcNA\<rparr>
      else let avgCF = word_of_int (quot (sint (sp_totalCF sw)) (int (sp_divRoutes sw))) in
        sw\<lparr>sp_avgCF := avgCF,
           sp_tcEnable := (if \<bar>Correction_Nanoseconds avgCF\<bar> > Correction_Nanoseconds cfThreshold then tcTrue else tcFalse)\<rparr>)"

definition computeInfo :: "(string \<Rightarrow> string list res) \<Rightarrow> PathInfo list \<Rightarrow> Correction \<Rightarrow> (keyPair \<times> SwitchPrintInfo) list res" where
  "computeInfo lookup routes cfThreshold =
     bind_res (discover_routes lookup routes []) (\<lambda>d. Ok (map (\<lambda>(k, sw). (k, classify cfThreshold sw)) d))"

section \<open>The table\<close>

text \<open>The entries in the order \<open>iter\<close> in which the map is iterated over, sorted by \<open>srt\<close>.\<close>

definition parseSwitchMap :: "((keyPair \<times> SwitchPrintInfo) list \<Rightarrow> (keyPair \<times> SwitchPrintInfo) list) \<Rightarrow>
    (SwitchPrintInfo list \<Rightarrow> SwitchPrintInfo list) \<Rightarrow> (keyPair \<times> SwitchPrintInfo) list \<Rightarrow> SwitchPrintInfo list" where
  "parseSwitchMap iter srt info = srt (map snd (iter info))"

definition hopCount :: "SwitchPrintInfo list \<Rightarrow> int \<Rightarrow> nat" where
  "hopCount sw hop = length (filter (\<lambda>v. sp_hop v = hop) sw)"

fun colNumber :: "string list \<Rightarrow> string \<Rightarrow> nat res" where
  "colNumber [] colName = Err ''no column with this name''"
| "colNumber (c # cs) colName = (if c = colName then Ok 0 else bind_res (colNumber cs colName) (\<lambda>n. Ok (n + 1)))"

definition print_header :: "string list" where
  "print_header = [''uniq'', ''width'', ''hop'', ''ip_address'', ''intf'', ''hostname'', ''flows'', ''TC'', ''avg_CF(ns)'', ''max_CF(ns)'', ''min_CF(ns)'']"

definition print_row :: "(f64 \<Rightarrow> string) \<Rightarrow> SwitchPrintInfo list \<Rightarrow> string \<Rightarrow> SwitchPrintInfo \<Rightarrow> string list" where
  "print_row fmt sw uniqDisplay v =
     (let display = (\<lambda>cf. if sp_last v then [] else fmt (Correction_Nanoseconds cf)) in
      [uniqDisplay, show_nat (hopCount sw (sp_hop v)), show_int (sp_hop v), sp_ip v, sp_interf v, sp_hostname v,
       show_nat (sp_routes v), statusToString (sp_tcEnable v), display (sp_avgCF v), display (sp_maxCF v), display (sp_minCF v)])"

fun print_rows :: "(f64 \<Rightarrow> string) \<Rightarrow> SwitchPrintInfo list \<Rightarrow> nat \<Rightarrow> string list \<Rightarrow> SwitchPrintInfo list \<Rightarrow> string list list" where
  "print_rows fmt sw unique already [] = []"
| "print_rows fmt sw unique already (v # vs) =
     (if sp_hostname v \<notin> set already
      then print_row fmt sw (show_nat unique) v # print_rows fmt sw (unique + 1) (sp_hostname v # already) vs
      else print_row fmt sw [] v # print_rows fmt sw unique already vs)"

definition computePrintData :: "(f64 \<Rightarrow> string) \<Rightarrow> SwitchPrintInfo list \<Rightarrow> string list list" where
  "computePrintData fmt sw = print_header # print_rows fmt sw 1 [] sw"

definition blank_row :: "string list" where
  "blank_row = replicate 11 []"

text \<open>The rows handed to the table writer; an error ends the printing before the table is rendered.\<close>

fun table_rows :: "string list \<Rightarrow> int \<Rightarrow> string list list \<Rightarrow> string list list res" where
  "table_rows hdr currentHop [] = Ok []"
| "table_rows hdr currentHop (v # vs) =
     bind_res (colNumber hdr ''hop'') (\<lambda>hopInd.
     bind_res (index v hopInd) (\<lambda>cell.
     if Atoi_fails cell then Err ''strconv atoi failed: %v''
     else let nextHop = Atoi cell in
       bind_res (table_rows hdr nextHop vs) (\<lambda>rows.
         Ok ((if nextHop > currentHop then [blank_row] else []) @ v # rows))))"

definition detailedPrint :: "((keyPair \<times> SwitchPrintInfo) list \<Rightarrow> (keyPair \<times> SwitchPrintInfo) list) \<Rightarrow> (SwitchPrintInfo list \<Rightarrow> SwitchPrintInfo list) \<Rightarrow>
    (f64 \<Rightarrow> string) \<Rightarrow> (keyPair \<times> SwitchPrintInfo) list \<Rightarrow> (string list \<times> string list list) res" where
  "detailedPrint iter srt fmt info =
     (case computePrintData fmt (parseSwitchMap iter srt info) of
        [] \<Rightarrow> Inl Panic
      | hdr # rows \<Rightarrow> bind_res (table_rows hdr 0 rows) (\<lambda>t. Ok (hdr, t)))"

text \<open>The records written to the CSV file, if it can be created.\<close>

definition CsvPrint :: "(string \<Rightarrow> string list res) \<Rightarrow> ((keyPair \<times> SwitchPrintInfo) list \<Rightarrow> (keyPair \<times> SwitchPrintInfo) list) \<Rightarrow>
    (SwitchPrintInfo list \<Rightarrow> SwitchPrintInfo list) \<Rightarrow> (f64 \<Rightarrow> string) \<Rightarrow> PathInfo list \<Rightarrow> unit res \<Rightarrow> Correction \<Rightarrow> string list list option res" where
  "CsvPrint lookup iter srt fmt routes create cfThreshold =
     bind_res (computeInfo lookup routes cfThreshold) (\<lambda>info.
       Ok (case create of Inl _ \<Rightarrow> None | Inr _ \<Rightarrow> Some (computePrintData fmt (parseSwitchMap iter srt info))))"

section \<open>The debug output\<close>

text \<open>The addresses tested, the number of observations, which is printed as the number of enabled switches, and the switches that are not.\<close>

fun debug_switches :: "SwitchTrafficInfo list \<Rightarrow> string list \<times> nat \<times> SwitchTrafficInfo list \<Rightarrow> string list \<times> nat \<times> SwitchTrafficInfo list" where
  "debug_switches (swh # nxt # sws) (tested, enabled, notTCEnabled) =
     debug_switches (nxt # sws)
       ((if sw_ip swh \<in> set tested then tested else tested @ [sw_ip swh]), enabled + 1,
        if sw_corrField nxt - sw_corrField swh = 0 \<and> sw_ip swh \<notin> set tested then notTCEnabled @ [swh] else notTCEnabled)"
| "debug_switches _ r = r"

text \<open>The path of every switch that is not enabled is printed with the host names.\<close>

fun lookup_names :: "(string \<Rightarrow> string list res) \<Rightarrow> string list \<Rightarrow> string list res" where
  "lookup_names lookup [] = Ok []"
| "lookup_names lookup (ip # ips) = bind_res (getLookUpName lookup ip) (\<lambda>n. bind_res (lookup_names lookup ips) (\<lambda>ns. Ok (n # ns)))"

fun debug_paths :: "(string \<Rightarrow> string list res) \<Rightarrow> PathInfo list \<Rightarrow> SwitchTrafficInfo list \<Rightarrow> string list list res" where
  "debug_paths lookup routes [] = Ok []"
| "debug_paths lookup routes (brkSw # sws) =
     bind_res (getLookUpName lookup (sw_ip brkSw)) (\<lambda>n.
     bind_res (index routes (sw_routeIdx brkSw)) (\<lambda>route.
     bind_res (lookup_names lookup (map sw_ip (pa_switches route))) (\<lambda>ns.
     bind_res (debug_paths lookup routes sws) (\<lambda>r. Ok ((n # ns) # r)))))"

definition debugPrint :: "(string \<Rightarrow> string list res) \<Rightarrow> PathInfo list \<Rightarrow> (nat \<times> nat \<times> nat \<times> string list list \<times> string list) res" where
  "debugPrint lookup routes =
     (case foldl (\<lambda>r route. debug_switches (pa_switches route) r) ([], 0, []) routes of (tested, enabled, notTCEnabled) \<Rightarrow>
        bind_res (debug_paths lookup routes notTCEnabled) (\<lambda>paths.
        bind_res (lookup_names lookup tested) (\<lambda>names.
          Ok (length tested, enabled, length notTCEnabled, paths, names))))"

definition PrettyPrint :: "(string \<Rightarrow> string list res) \<Rightarrow> ((keyPair \<times> SwitchPrintInfo) list \<Rightarrow> (keyPair \<times> SwitchPrintInfo) list) \<Rightarrow>
    (SwitchPrintInfo list \<Rightarrow> SwitchPrintInfo list) \<Rightarrow> (f64 \<Rightarrow> string) \<Rightarrow> PathInfo list \<Rightarrow> Correction \<Rightarrow> (string list \<times> string list list) res" where
  "PrettyPrint lookup iter srt fmt routes cfThreshold =
     bind_res (debugPrint lookup routes) (\<lambda>_.
     bind_res (computeInfo lookup routes cfThreshold) (detailedPrint iter srt fmt))"

section \<open>What the summary holds\<close>

text \<open>The observations of all paths, in the order they are made.\<close>

fun observe_route :: "(string \<Rightarrow> string list res) \<Rightarrow> PathInfo \<Rightarrow> nat list \<Rightarrow> observation list res" where
  "observe_route lookup route [] = Ok []"
| "observe_route lookup route (i # is) =
     bind_res (observe lookup route i) (\<lambda>ob. bind_res (observe_route lookup route is) (\<lambda>obs. Ok (ob # obs)))"

fun observations :: "(string \<Rightarrow> string list res) \<Rightarrow> PathInfo list \<Rightarrow> observation list res" where
  "observations lookup [] = Ok []"
| "observations lookup (route # routes) =
     bind_res (observe_route lookup route [0..<length (pa_switches route)]) (\<lambda>a.
     bind_res (observations lookup routes) (\<lambda>b. Ok (a @ b)))"

definition discover_all :: "observation list \<Rightarrow> (keyPair \<times> SwitchPrintInfo) list \<Rightarrow> (keyPair \<times> SwitchPrintInfo) list" where
  "discover_all obs d = foldl (\<lambda>d ob. discover ob d) d obs"

lemma discover_switches_all:
  "discover_switches lookup route is d = bind_res (observe_route lookup route is) (\<lambda>obs. Ok (discover_all obs d))"
  by (induction "is" arbitrary: d) (simp_all add: discover_all_def bind_res_assoc)

lemma discover_routes_all:
  "discover_routes lookup routes d = bind_res (observations lookup routes) (\<lambda>obs. Ok (discover_all obs d))"
proof (induction routes arbitrary: d)
  case (Cons r rs)
  show ?case by (cases "observe_route lookup r [0..<length (pa_switches r)]"; cases "observations lookup rs")
    (simp_all add: discover_switches_all Cons.IH discover_all_def)
qed (simp add: discover_all_def)

lemma discover_map_of:
  "map_of (discover ob d) k =
     (if k = ob_key ob then Some (case map_of d k of None \<Rightarrow> new_info ob | Some sp \<Rightarrow> add_info ob sp) else map_of d k)"
  by (induction d) auto

lemma discover_keys: "fst ` set (discover ob d) = insert (ob_key ob) (fst ` set d)"
proof -
  have "dom (map_of (discover ob d)) = insert (ob_key ob) (dom (map_of d))"
    by (auto simp: dom_def discover_map_of)
  then show ?thesis by (simp add: dom_map_of_conv_image_fst)
qed

lemma discover_distinct: "distinct (map fst d) \<Longrightarrow> distinct (map fst (discover ob d))"
proof (induction d)
  case (Cons e d)
  obtain k sp where "e = (k, sp)" by (cases e)
  with Cons show ?case using discover_keys [of ob d] by auto
qed simp

text \<open>One entry, from the observations with its key: the first creates it, the others are added.\<close>

fun entry :: "observation list \<Rightarrow> SwitchPrintInfo option" where
  "entry [] = None"
| "entry (ob # obs) = Some (foldl (\<lambda>sp ob. add_info ob sp) (new_info ob) obs)"

abbreviation at_key :: "keyPair \<Rightarrow> observation list \<Rightarrow> observation list" where
  "at_key k obs \<equiv> filter (\<lambda>ob. ob_key ob = k) obs"

lemma entry_snoc: "entry (g @ [ob]) = Some (case entry g of None \<Rightarrow> new_info ob | Some sp \<Rightarrow> add_info ob sp)"
  by (cases g) simp_all

lemma discover_all_entry: "map_of (discover_all obs []) k = entry (at_key k obs)"
proof (induction obs rule: rev_induct)
  case (snoc ob obs)
  have "discover_all (obs @ [ob]) [] = discover ob (discover_all obs [])" by (simp add: discover_all_def)
  with snoc show ?case by (cases "k = ob_key ob") (simp_all add: discover_map_of entry_snoc)
qed (simp add: discover_all_def)

lemma discover_all_keys:
  "fst ` set (discover_all obs []) = ob_key ` set obs \<and> distinct (map fst (discover_all obs []))"
proof (induction obs rule: rev_induct)
  case (snoc ob obs)
  have "discover_all (obs @ [ob]) [] = discover ob (discover_all obs [])" by (simp add: discover_all_def)
  with snoc show ?case by (simp add: discover_keys discover_distinct)
qed (simp add: discover_all_def)

lemma sum_length_at_key: "finite A \<Longrightarrow> ob_key ` set obs \<subseteq> A \<Longrightarrow> (\<Sum>k\<in>A. length (at_key k obs)) = length obs"
proof (induction obs)
  case (Cons ob obs)
  have "(\<Sum>k\<in>A. length (at_key k (ob # obs))) = (\<Sum>k\<in>A. (if k = ob_key ob then 1 else 0) + length (at_key k obs))"
    by (rule sum.cong) auto
  with Cons show ?case by (simp add: sum.distrib)
qed simp

definition measured :: "observation list \<Rightarrow> observation list" where
  "measured g = hd g # filter (\<lambda>ob. \<not> ob_last ob) (tl g)"

lemma measured_snoc: "g \<noteq> [] \<Longrightarrow> measured (g @ [ob]) = measured g @ (if ob_last ob then [] else [ob])"
  by (cases g) (simp_all add: measured_def)

lemma entry_fields:
  assumes "g \<noteq> []"
  shows "\<exists>sp. entry g = Some sp \<and> sp_routes sp = length g \<and> sp_last sp = ob_last (hd g) \<and>
    sp_divRoutes sp = length (measured g) \<and> sp_totalCF sp = sum_list (map ob_corrField (measured g)) \<and>
    sint (sp_maxCF sp) = Max (set (map (\<lambda>ob. sint (ob_corrField ob)) (measured g))) \<and>
    sint (sp_minCF sp) = Min (set (map (\<lambda>ob. sint (ob_corrField ob)) (measured g))) \<and>
    sp_hostname sp = fst (ob_key (hd g)) \<and> sp_hop sp = snd (ob_key (hd g)) \<and> sp_ip sp = ob_ip (hd g)"
  using assms
proof (induction g rule: rev_nonempty_induct)
  case (single ob)
  then show ?case by (simp add: measured_def new_info_def)
next
  case (snoc ob g)
  then obtain sp where sp: "entry g = Some sp" "sp_routes sp = length g" "sp_last sp = ob_last (hd g)"
    "sp_divRoutes sp = length (measured g)" "sp_totalCF sp = sum_list (map ob_corrField (measured g))"
    "sint (sp_maxCF sp) = Max (set (map (\<lambda>ob. sint (ob_corrField ob)) (measured g)))"
    "sint (sp_minCF sp) = Min (set (map (\<lambda>ob. sint (ob_corrField ob)) (measured g)))"
    "sp_hostname sp = fst (ob_key (hd g))" "sp_hop sp = snd (ob_key (hd g))" "sp_ip sp = ob_ip (hd g)" by blast
  obtain cs where cs: "cs = map (\<lambda>ob. sint (ob_corrField ob)) (measured g)" by simp
  then have ne: "cs \<noteq> []" by (simp add: measured_def)
  have mx: "Max (insert x (set cs)) = max x (Max (set cs))" "Min (insert x (set cs)) = min x (Min (set cs))" for x
    using ne by simp_all
  show ?case
  proof (cases "ob_last ob")
    case True
    with snoc.hyps sp show ?thesis by (simp add: entry_snoc measured_snoc add_info_def)
  next
    case False
    with snoc.hyps sp(1-5,8-10) mx [folded sp(6) sp(7), unfolded cs] show ?thesis
      using sp(6,7) mx unfolding cs
      by (simp add: entry_snoc measured_snoc add_info_def Let_def max_def min_def)
  qed
qed

text \<open>
  C22: The summary of a sweep: there is exactly one entry for every host and hop observed, with the number of flows through it,
  and the total, the maximum, the minimum and the number of the differences measured there (that of the first flow, and of the
  later ones whose next hop answered). The flows of all entries add up to the replies.
\<close>
theorem computeInfo_groups:
  assumes "observations lookup routes = Ok obs"
  shows "\<exists>info. computeInfo lookup routes thr = Ok info \<and> distinct (map fst info) \<and> fst ` set info = ob_key ` set obs \<and>
    (\<Sum>e\<leftarrow>info. sp_routes (snd e)) = length obs \<and>
    (\<forall>(k, sp)\<in>set info. let g = at_key k obs; cfs = map ob_corrField (measured g) in
       sp_routes sp = length g \<and> sp_divRoutes sp = length cfs \<and> sp_totalCF sp = sum_list cfs \<and>
       sint (sp_maxCF sp) = Max (sint ` set cfs) \<and> sint (sp_minCF sp) = Min (sint ` set cfs) \<and>
       sp_hostname sp = fst k \<and> sp_hop sp = snd k)"
proof -
  obtain d where d: "d = discover_all obs []" by simp
  obtain info where info: "info = map (\<lambda>(k, sp). (k, classify thr sp)) d" by simp
  have ok: "computeInfo lookup routes thr = Ok info"
    using assms by (simp add: computeInfo_def discover_routes_all info d)
  have fst_info: "map fst info = map fst d" by (simp add: info case_prod_unfold)
  have keys: "distinct (map fst info)" "set (map fst info) = ob_key ` set obs"
    unfolding fst_info using discover_all_keys [of obs] by (simp_all add: d)
  have fields: "sp_routes sp = length g \<and> sp_divRoutes sp = length cfs \<and> sp_totalCF sp = sum_list cfs \<and>
       sint (sp_maxCF sp) = Max (sint ` set cfs) \<and> sint (sp_minCF sp) = Min (sint ` set cfs) \<and>
       sp_hostname sp = fst k \<and> sp_hop sp = snd k"
    if in_info: "(k, sp) \<in> set info" and g: "g = at_key k obs" and cfs: "cfs = map ob_corrField (measured g)" for k sp g cfs
  proof -
    obtain sp0 where sp: "sp = classify thr sp0" "(k, sp0) \<in> set d" using in_info by (auto simp: info)
    then have "entry g = Some sp0" using discover_all_entry [of obs k] discover_all_keys [of obs] by (simp add: d g)
    moreover have "g \<noteq> []" using calculation by auto
    moreover have "ob_key (hd g) = k" using calculation(2) hd_in_set [of g] by (auto simp: g)
    ultimately show ?thesis using entry_fields [of g]
      by (auto simp: sp(1) classify_def cfs Let_def image_image)
  qed
  have "(\<Sum>e\<leftarrow>info. sp_routes (snd e)) = (\<Sum>k\<in>set (map fst info). length (at_key k obs))"
    using keys(1) fields by (subst sum_list_distinct_conv_sum_set [symmetric, of "map fst info"]) (auto intro!: arg_cong [of _ _ sum_list])
  also have "\<dots> = (\<Sum>k\<in>ob_key ` set obs. length (at_key k obs))" using keys(2) by simp
  also have "\<dots> = length obs"
    by (rule sum_length_at_key) simp_all
  finally show ?thesis using ok keys fields by (intro exI [of _ info]) (auto simp: Let_def)
qed

text \<open>Two flows through the switches a, b and c; c answers last, so its own correction is not measured.\<close>

definition example_switch :: "string \<Rightarrow> Correction \<Rightarrow> int \<Rightarrow> SwitchTrafficInfo" where
  "example_switch ip cf hop = \<lparr>sw_ip = ip, sw_corrField = cf, sw_routeIdx = 0, sw_hop = hop\<rparr>"

definition example_paths :: "PathInfo list" where
  "example_paths =
     [\<lparr>pa_switches = [example_switch ''a'' 0 1, example_switch ''b'' 0x50000 2, example_switch ''c'' 0x60000 3], pa_rackSwHostname = []\<rparr>,
      \<lparr>pa_switches = [example_switch ''a'' 0 1, example_switch ''b'' 0x70000 2], pa_rackSwHostname = []\<rparr>]"

definition example_ob :: "string \<Rightarrow> int \<Rightarrow> Correction \<Rightarrow> bool \<Rightarrow> observation" where
  "example_ob ip hop cf final = \<lparr>ob_key = (ip, hop), ob_ip = ip, ob_intf = [], ob_corrField = cf, ob_last = final\<rparr>"

lemma example_observations:
  "observations (\<lambda>_. Err []) example_paths =
     Ok [example_ob ''a'' 1 0x50000 False, example_ob ''b'' 2 0x10000 False, example_ob ''c'' 3 0 True,
         example_ob ''a'' 1 0x70000 False, example_ob ''b'' 2 0 True]"
  by (simp add: example_paths_def example_switch_def example_ob_def observe_def getHostNoPrefix_def getHostIfPrefix_def
      getLookUpName_def split_interface_def index_def upt_rec [of _ "_::nat"] eval_nat_numeral)

theorem computeInfo_groups_witness:
  "\<exists>info. computeInfo (\<lambda>_. Err []) example_paths 0 = Ok info \<and> fst ` set info = {(''a'', 1), (''b'', 2), (''c'', 3)}"
  using computeInfo_groups [OF example_observations, of 0] by (auto simp: example_ob_def)

section \<open>The verdict\<close>

lemma computeInfo_entry:
  assumes "observations lookup routes = Ok obs" and "at_key k obs \<noteq> []"
  obtains info sp where "computeInfo lookup routes thr = Ok info" "entry (at_key k obs) = Some sp"
    "map_of info k = Some (classify thr sp)"
proof -
  obtain sp where sp: "entry (at_key k obs) = Some sp" using entry_fields [OF assms(2)] by blast
  obtain d where d: "d = discover_all obs []" by simp
  have "map_of d k = Some sp" using discover_all_entry [of obs k] sp by (simp add: d)
  then have "map_of (map (\<lambda>(k, sw). (k, classify thr sw)) d) k = Some (classify thr sp)" by (simp add: map_of_map)
  then show thesis using that [OF _ sp] assms(1) by (simp add: computeInfo_def discover_routes_all d)
qed

lemma sint_sum_list_bounds:
  fixes cs :: "Correction list"
  assumes "list_all (\<lambda>c. lo \<le> sint c \<and> sint c \<le> hi) cs" and "0 \<le> lo" and "int (length cs) * hi < 2 ^ 63"
  shows "int (length cs) * lo \<le> sint (sum_list cs) \<and> sint (sum_list cs) \<le> int (length cs) * hi"
  using assms
proof (induction cs)
  case (Cons c cs)
  have c: "lo \<le> sint c" "sint c \<le> hi" using Cons.prems(1) by simp_all
  then have "0 \<le> hi" using Cons.prems(2) by linarith
  have len: "int (length (c # cs)) * x = x + int (length cs) * x" for x by (simp add: algebra_simps)
  have hi: "hi + int (length cs) * hi < 2 ^ 63" using Cons.prems(3) unfolding len .
  then have IH: "int (length cs) * lo \<le> sint (sum_list cs)" "sint (sum_list cs) \<le> int (length cs) * hi"
    using Cons.IH Cons.prems \<open>0 \<le> hi\<close> by simp_all
  have "0 \<le> int (length cs) * lo" using Cons.prems(2) by simp
  then have "0 \<le> sint c + sint (sum_list cs)" "sint c + sint (sum_list cs) < 2 ^ 63"
    using c IH hi Cons.prems(2) by linarith+
  then have "sint (c + sum_list cs) = sint c + sint (sum_list cs)"
    by (simp add: sint_word_ariths signed_take_bit_int_eq_self)
  then show ?case using c IH unfolding len by simp
qed simp

text \<open>The truncated average of corrections between two bounds.\<close>

lemma average_bounds:
  fixes cs :: "Correction list"
  assumes "cs \<noteq> []" and "list_all (\<lambda>c. lo \<le> sint c \<and> sint c \<le> hi) cs" and "0 \<le> lo" and "int (length cs) * hi < 2 ^ 63" and "hi < 2 ^ 53"
  shows "sint (word_of_int (quot (sint (sum_list cs)) (int (length cs))) :: Correction) \<in> {lo..hi}"
proof -
  obtain n q where n: "n = int (length cs)" and q: "q = sint (sum_list cs) div n" by simp
  have b: "n * lo \<le> sint (sum_list cs)" "sint (sum_list cs) \<le> n * hi"
    using sint_sum_list_bounds [OF assms(2-4)] by (simp_all add: n)
  have pos: "0 < n" using assms(1) by (simp add: n)
  have "lo \<le> q" unfolding q using zdiv_mono1 [OF b(1) pos] pos by simp
  moreover have "q \<le> hi" unfolding q using zdiv_mono1 [OF b(2) pos] pos by simp
  moreover have "0 \<le> n * lo" using pos assms(3) by simp
  then have "quot (sint (sum_list cs)) n = q" unfolding q using b pos by (intro quot_nonneg) linarith+
  moreover have "sint (word_of_int q :: Correction) = q"
    using calculation assms(3,5) by (simp add: signed_of_int signed_take_bit_int_eq_self)
  ultimately show ?thesis by (simp add: n)
qed

lemma Correction_Nanoseconds_less:
  assumes "\<bar>sint a\<bar> < 2 ^ 53" and "\<bar>sint b\<bar> < 2 ^ 53"
  shows "Correction_Nanoseconds a < Correction_Nanoseconds b \<longleftrightarrow> sint a < sint b"
  using assms by (simp add: Correction_Nanoseconds_def IntFloat_Value_def twoPow16_def f64_of_int_exact del: of_int_sint)

lemma Correction_Nanoseconds_abs:
  assumes "0 \<le> sint a" and "sint a < 2 ^ 53"
  shows "\<bar>Correction_Nanoseconds a\<bar> = Correction_Nanoseconds a"
  using assms by (simp add: Correction_Nanoseconds_def IntFloat_Value_def twoPow16_def f64_of_int_exact del: of_int_sint)

text \<open>
  The verdict on a switch that was measured by the first flow through it. If every correction measured there is above the
  threshold the transparent clock is reported On, if every one is at most the threshold it is reported Off; the average is
  between the smallest and the largest. The bounds keep the sum within an \<open>int64\<close> and the nanoseconds exact.
\<close>
theorem tc_verdict:
  assumes "observations lookup routes = Ok obs" and "g = at_key k obs" and "g \<noteq> []" and "\<not> ob_last (hd g)"
    and "list_all (\<lambda>ob. 0 \<le> sint (ob_corrField ob) \<and> sint (ob_corrField ob) < 2 ^ 53) (measured g)"
    and "length (measured g) \<le> 1024" and "0 \<le> sint thr" and "sint thr < 2 ^ 53"
  shows "\<exists>info sp. computeInfo lookup routes thr = Ok info \<and> map_of info k = Some sp \<and>
    sint (sp_minCF sp) \<le> sint (sp_avgCF sp) \<and> sint (sp_avgCF sp) \<le> sint (sp_maxCF sp) \<and>
    (list_all (\<lambda>ob. sint thr < sint (ob_corrField ob)) (measured g) \<longrightarrow> sp_tcEnable sp = tcTrue) \<and>
    (list_all (\<lambda>ob. sint (ob_corrField ob) \<le> sint thr) (measured g) \<longrightarrow> sp_tcEnable sp = tcFalse)"
proof -
  obtain info sp where ok: "computeInfo lookup routes thr = Ok info" "entry g = Some sp" "map_of info k = Some (classify thr sp)"
    using computeInfo_entry assms(1-3) by metis
  obtain cs where cs: "cs = map ob_corrField (measured g)" by simp
  have f: "\<not> sp_last sp" "sp_divRoutes sp = length cs" "sp_totalCF sp = sum_list cs"
    "sint (sp_maxCF sp) = Max (sint ` set cs)" "sint (sp_minCF sp) = Min (sint ` set cs)"
    using entry_fields [OF assms(3)] ok(2) assms(4) by (auto simp: cs image_image)
  have ne: "cs \<noteq> []" by (simp add: cs measured_def)
  obtain lo hi where lohi: "lo = Min (sint ` set cs)" "hi = Max (sint ` set cs)" by simp
  have mem: "lo \<in> sint ` set cs" "hi \<in> sint ` set cs" using ne by (simp_all add: lohi)
  have rng: "0 \<le> sint c \<and> sint c < 2 ^ 53" if "c \<in> set cs" for c using assms(5) that by (auto simp: cs list_all_iff)
  have b: "0 \<le> lo" "hi < 2 ^ 53" "hi \<ge> 0" using mem rng by auto
  have all: "list_all (\<lambda>c. lo \<le> sint c \<and> sint c \<le> hi) cs" by (simp add: lohi list_all_iff)
  have "int (length cs) * hi \<le> 1024 * hi" using assms(6) b(3) by (intro mult_right_mono) (simp_all add: cs)
  then have "int (length cs) * hi < 2 ^ 63" using b(2) by simp
  note avg = average_bounds [OF ne all b(1) this b(2), folded f(2,3)]
  obtain a where a: "a = (word_of_int (quot (sint (sp_totalCF sp)) (int (sp_divRoutes sp))) :: Correction)" by simp
  have ab: "lo \<le> sint a" "sint a \<le> hi" using avg by (simp_all add: a)
  then have verdict: "\<bar>Correction_Nanoseconds a\<bar> > Correction_Nanoseconds thr \<longleftrightarrow> sint thr < sint a"
    using b assms(7,8) by (subst Correction_Nanoseconds_abs, linarith, linarith) (rule Correction_Nanoseconds_less, linarith+)
  have "sint thr < lo" if "list_all (\<lambda>ob. sint thr < sint (ob_corrField ob)) (measured g)"
    using that mem(1) by (auto simp: cs list_all_iff)
  moreover have "hi \<le> sint thr" if "list_all (\<lambda>ob. sint (ob_corrField ob) \<le> sint thr) (measured g)"
    using that mem(2) by (auto simp: cs list_all_iff)
  ultimately show ?thesis using ok(1,3) ab f(1,4,5) verdict
    by (intro exI [of _ info] exI [of _ "classify thr sp"]) (auto simp: classify_def Let_def lohi simp flip: a)
qed

theorem tc_verdict_witness:
  "\<exists>info sp. computeInfo (\<lambda>_. Err []) example_paths 0x20000 = Ok info \<and> map_of info (''a'', 1) = Some sp \<and> sp_tcEnable sp = tcTrue"
proof -
  have m: "measured [example_ob ''a'' 1 0x50000 False, example_ob ''a'' 1 0x70000 False] =
      [example_ob ''a'' 1 0x50000 False, example_ob ''a'' 1 0x70000 False]"
    by (simp add: measured_def example_ob_def)
  have k: "[example_ob ''a'' 1 0x50000 False, example_ob ''a'' 1 0x70000 False] =
      at_key (''a'', 1) [example_ob ''a'' 1 0x50000 False, example_ob ''b'' 2 0x10000 False, example_ob ''c'' 3 0 True,
        example_ob ''a'' 1 0x70000 False, example_ob ''b'' 2 0 True]"
    by (simp add: example_ob_def)
  show ?thesis using tc_verdict [OF example_observations k, of "0x20000", unfolded m]
    by (auto simp: example_ob_def)
qed

text \<open>
  The flag \<open>last\<close> of a switch is that of the first flow through it: if that flow did not measure it, the switch is reported
  unknown whatever the other flows measured.
\<close>
theorem first_unmeasured_unknown:
  assumes "observations lookup routes = Ok obs" and "at_key k obs \<noteq> []"
  shows "\<exists>info sp. computeInfo lookup routes thr = Ok info \<and> map_of info k = Some sp \<and>
    (sp_tcEnable sp = tcNA \<longleftrightarrow> ob_last (hd (at_key k obs)))"
proof -
  obtain info sp where ok: "computeInfo lookup routes thr = Ok info" "entry (at_key k obs) = Some sp" "map_of info k = Some (classify thr sp)"
    using computeInfo_entry [OF assms] by metis
  moreover have "sp_last sp = ob_last (hd (at_key k obs))" using entry_fields [OF assms(2)] ok(2) by auto
  ultimately show ?thesis by (intro exI [of _ info] exI [of _ "classify thr sp"]) (simp add: classify_def Let_def)
qed

theorem first_unmeasured_unknown_witness:
  "\<exists>info sp. computeInfo (\<lambda>_. Err []) (rev example_paths) 0 = Ok info \<and> map_of info (''b'', 2) = Some sp \<and> sp_tcEnable sp = tcNA"
proof -
  have "observations (\<lambda>_. Err []) (rev example_paths) =
     Ok [example_ob ''a'' 1 0x70000 False, example_ob ''b'' 2 0 True, example_ob ''a'' 1 0x50000 False,
         example_ob ''b'' 2 0x10000 False, example_ob ''c'' 3 0 True]"
    by (simp add: example_paths_def example_switch_def example_ob_def observe_def getHostNoPrefix_def getHostIfPrefix_def
      getLookUpName_def split_interface_def index_def upt_rec [of _ "_::nat"] eval_nat_numeral)
  from first_unmeasured_unknown [OF this, of "(''b'', 2)" 0] show ?thesis by (auto simp: example_ob_def)
qed

section \<open>The printed table\<close>

definition hop_rows :: "(string list \<times> SwitchPrintInfo) list \<Rightarrow> int \<Rightarrow> string list list" where
  "hop_rows rv h = map fst (filter (\<lambda>(r, v). sp_hop v = h) rv)"

definition by_hops :: "(string list \<times> SwitchPrintInfo) list \<Rightarrow> int list \<Rightarrow> string list list" where
  "by_hops rv hs = concat (map (\<lambda>h. blank_row # hop_rows rv h) hs)"

abbreviation hops_of :: "(string list \<times> SwitchPrintInfo) list \<Rightarrow> int set" where
  "hops_of rv \<equiv> (\<lambda>(r, v). sp_hop v) ` set rv"

lemma by_hops_skip: "sp_hop v \<notin> set hs \<Longrightarrow> by_hops ((r, v) # rv) hs = by_hops rv hs"
  unfolding by_hops_def by (rule arg_cong [of _ _ concat], rule map_cong) (auto simp: hop_rows_def)

lemma hop_rows_above: "\<forall>(r, v)\<in>set rv. h < sp_hop v \<Longrightarrow> hop_rows rv h = []"
  by (auto simp: hop_rows_def filter_empty_conv)

lemma colNumber_hop: "colNumber print_header ''hop'' = Ok 2"
  by (simp add: print_header_def)

lemma sorted_list_of_set_least:
  "finite A \<Longrightarrow> x \<in> A \<Longrightarrow> \<forall>y\<in>A. x \<le> y \<Longrightarrow> sorted_list_of_set A = x # sorted_list_of_set (A - {x :: int})"
  by (metis Min_eqI finite.simps sorted_list_of_set_nonempty emptyE)

lemma table_rows_by_hops:
  assumes "list_all (\<lambda>(r, v). length r = 11 \<and> r ! 2 = show_int (sp_hop v) \<and> in_i64 (sp_hop v) \<and> cur \<le> sp_hop v) rv"
    and "sorted (map (\<lambda>(r, v). sp_hop v) rv)"
  shows "table_rows print_header cur (map fst rv) = Ok (hop_rows rv cur @ by_hops rv (sorted_list_of_set (hops_of rv - {cur})))"
  using assms
proof (induction rv arbitrary: cur)
  case (Cons e rv)
  obtain r v where e: "e = (r, v)" by (cases e)
  have r: "length r = 11" "r ! 2 = show_int (sp_hop v)" "in_i64 (sp_hop v)" "cur \<le> sp_hop v" using Cons.prems(1) by (simp_all add: e)
  have le: "\<forall>(r', v')\<in>set rv. sp_hop v \<le> sp_hop v'" using Cons.prems(2) by (auto simp: e)
  have "list_all (\<lambda>(r, v'). length r = 11 \<and> r ! 2 = show_int (sp_hop v') \<and> in_i64 (sp_hop v') \<and> sp_hop v \<le> sp_hop v') rv"
    using Cons.prems(1) le by (auto simp: e list_all_iff)
  then have IH: "table_rows print_header (sp_hop v) (map fst rv) =
      Ok (hop_rows rv (sp_hop v) @ by_hops rv (sorted_list_of_set (hops_of rv - {sp_hop v})))"
    using Cons.IH Cons.prems(2) by (simp add: e)
  have step: "table_rows print_header cur (map fst (e # rv)) =
      Ok ((if sp_hop v > cur then [blank_row] else []) @ r # hop_rows rv (sp_hop v) @ by_hops rv (sorted_list_of_set (hops_of rv - {sp_hop v})))"
    using r IH by (simp add: e colNumber_hop Atoi_show_int Let_def)
  have same: "by_hops ((r, v) # rv) (sorted_list_of_set (hops_of rv - {sp_hop v})) = by_hops rv (sorted_list_of_set (hops_of rv - {sp_hop v}))"
    by (rule by_hops_skip) simp
  have here: "hop_rows ((r, v) # rv) (sp_hop v) = r # hop_rows rv (sp_hop v)" by (simp add: hop_rows_def)
  show ?case
  proof (cases "sp_hop v = cur")
    case True
    then show ?thesis unfolding step using same here by (simp add: e)
  next
    case False
    with r(4) have lt: "cur < sp_hop v" by simp
    then have above: "\<forall>(r', v')\<in>set ((r, v) # rv). cur < sp_hop v'" using le by fastforce
    have "hops_of ((r, v) # rv) - {cur} = hops_of ((r, v) # rv)" using above by auto
    moreover have "sorted_list_of_set (hops_of ((r, v) # rv)) = sp_hop v # sorted_list_of_set (hops_of ((r, v) # rv) - {sp_hop v})"
      using le by (intro sorted_list_of_set_least) auto
    moreover have "hops_of ((r, v) # rv) - {sp_hop v} = hops_of rv - {sp_hop v}" by auto
    ultimately have "by_hops ((r, v) # rv) (sorted_list_of_set (hops_of ((r, v) # rv) - {cur})) =
        blank_row # r # hop_rows rv (sp_hop v) @ by_hops rv (sorted_list_of_set (hops_of rv - {sp_hop v}))"
      using same here by (simp add: by_hops_def)
    then show ?thesis unfolding step using lt hop_rows_above [OF above] by (simp add: e)
  qed
qed (simp add: hop_rows_def by_hops_def)

lemma print_rows_cells:
  "list_all2 (\<lambda>r v. length r = 11 \<and> r ! 2 = show_int (sp_hop v) \<and> r ! 5 = sp_hostname v) (print_rows fmt sw n al vs) vs"
  by (induction fmt sw n al vs rule: print_rows.induct) (simp_all add: print_row_def Let_def)

text \<open>
  The table. Every switch of the summary is printed once, in the order of the hops, and every group of switches at the same hop
  is preceded by an empty row; whatever order the map and \<open>sort.Slice\<close> yield.
\<close>
theorem detailedPrint_table:
  assumes "mset (iter info) = mset info" and "slice_sorter sp_hop srt"
    and "list_all (\<lambda>(k, v). 0 < sp_hop v \<and> in_i64 (sp_hop v)) info"
    and "sw = parseSwitchMap iter srt info"
  shows "detailedPrint iter srt fmt info =
    Ok (print_header, by_hops (zip (print_rows fmt sw 1 [] sw) sw) (sorted_list_of_set (sp_hop ` snd ` set info)))"
proof -
  have sorted: "sorted (map sp_hop sw)"
    using slice_sorter.sorted_srt [OF assms(2)] by (simp add: assms(4) parseSwitchMap_def)
  have set_sw: "set sw = snd ` set info"
    using slice_sorter.set_srt [OF assms(2)] mset_eq_setD [OF assms(1)] by (simp add: assms(4) parseSwitchMap_def)
  obtain rows where rows: "rows = print_rows fmt sw 1 [] sw" by simp
  have cells: "list_all2 (\<lambda>r v. length r = 11 \<and> r ! 2 = show_int (sp_hop v) \<and> r ! 5 = sp_hostname v) rows sw"
    unfolding rows by (rule print_rows_cells)
  then have len: "length rows = length sw" by (rule list_all2_lengthD)
  have snds: "map (\<lambda>(r, v). sp_hop v) (zip rows sw) = map sp_hop sw" using len by (simp add: case_prod_unfold flip: map_map [unfolded comp_def])
  have hops: "hops_of (zip rows sw) = sp_hop ` snd ` set info" unfolding list.set_map [symmetric] snds by (simp add: set_sw image_image)
  have pos: "0 < sp_hop v \<and> in_i64 (sp_hop v)" if "v \<in> set sw" for v using assms(3) that by (auto simp: set_sw list_all_iff)
  have "list_all (\<lambda>(r, v). length r = 11 \<and> r ! 2 = show_int (sp_hop v) \<and> in_i64 (sp_hop v) \<and> 0 \<le> sp_hop v) (zip rows sw)"
    using cells pos by (fastforce simp: list_all2_iff list_all_iff dest: set_zip_rightD)
  from table_rows_by_hops [OF this] sorted
  have "table_rows print_header 0 rows = Ok (hop_rows (zip rows sw) 0 @ by_hops (zip rows sw) (sorted_list_of_set (hops_of (zip rows sw) - {0})))"
    by (simp add: snds len)
  moreover have "hop_rows (zip rows sw) 0 = []" using pos by (intro hop_rows_above) (auto dest: set_zip_rightD)
  moreover have "hops_of (zip rows sw) - {0} = sp_hop ` snd ` set info" using pos unfolding hops set_sw by force
  ultimately show ?thesis by (simp add: detailedPrint_def computePrintData_def rows flip: assms(4))
qed

definition example_row :: "string \<Rightarrow> int \<Rightarrow> SwitchPrintInfo" where
  "example_row host hop = new_info (example_ob host hop 0 True)"

lemma example_row_simps [simp]: "sp_hop (example_row host hop) = hop" "sp_hostname (example_row host hop) = host"
  by (simp_all add: example_row_def example_ob_def new_info_def)

theorem detailedPrint_table_witness:
  "detailedPrint (\<lambda>x. x) (insertionSort sp_hop) (\<lambda>_. []) [((''b'', 2), example_row ''b'' 2), ((''a'', 1), example_row ''a'' 1)] =
    Ok (print_header, [blank_row, print_row (\<lambda>_. []) [example_row ''a'' 1, example_row ''b'' 2] (show_nat 1) (example_row ''a'' 1),
                       blank_row, print_row (\<lambda>_. []) [example_row ''a'' 1, example_row ''b'' 2] (show_nat 2) (example_row ''b'' 2)])"
proof -
  have sw: "[example_row ''a'' 1, example_row ''b'' 2] = parseSwitchMap (\<lambda>x. x) (insertionSort sp_hop)
      [((''b'', 2), example_row ''b'' 2), ((''a'', 1), example_row ''a'' 1)]"
    by (simp add: parseSwitchMap_def insertionSort_def)
  have "sorted_list_of_set {1, 2 :: int} = [1, 2]" by simp
  then have hs: "sorted_list_of_set (sp_hop ` snd ` set [((''b'', 2 :: int), example_row ''b'' 2), ((''a'', 1), example_row ''a'' 1)]) = [1, 2]"
    by (simp add: insert_commute)
  have ok: "list_all (\<lambda>(k, v). 0 < sp_hop v \<and> in_i64 (sp_hop v)) [((''b'', 2 :: int), example_row ''b'' 2), ((''a'', 1), example_row ''a'' 1)]"
    by (simp add: in_i64_def i64_min_def i64_max_def)
  show ?thesis
    unfolding detailedPrint_table [OF refl insertion.slice_sorter_axioms ok sw] hs
    by (simp add: by_hops_def hop_rows_def numeral_2_eq_2)
qed

text \<open>
  The first column numbers the host names: in every table the cells that are not empty are 1, 2, 3 and so on, as many as there
  are host names.
\<close>
theorem uniq_column:
  "filter (\<lambda>c. c \<noteq> []) (map hd (tl (computePrintData fmt sw))) = map show_nat [1..<1 + card (sp_hostname ` set sw)]"
proof -
  have "filter (\<lambda>c. c \<noteq> []) (map hd (print_rows fmt sw n al vs)) = map show_nat [n..<n + card (sp_hostname ` set vs - set al)]"
    for n al and vs :: "SwitchPrintInfo list"
  proof (induction fmt sw n al vs rule: print_rows.induct)
    case (2 fmt sw n al v vs)
    have ne: "show_nat n \<noteq> []" using show_nat_digits by simp
    show ?case
    proof (cases "sp_hostname v \<in> set al")
      case True
      then have "insert (sp_hostname v) (sp_hostname ` set vs) - set al = sp_hostname ` set vs - set al" by auto
      with True 2 show ?thesis by (simp add: print_row_def Let_def)
    next
      case False
      then have "insert (sp_hostname v) (sp_hostname ` set vs) - set al = insert (sp_hostname v) (sp_hostname ` set vs - set (sp_hostname v # al))"
        by auto
      moreover obtain m where m: "m = card (sp_hostname ` set vs - set (sp_hostname v # al))" by simp
      ultimately have "card (sp_hostname ` set (v # vs) - set al) = Suc m" by simp
      moreover have "[n..<n + Suc m] = n # [n + 1..<n + 1 + m]" by (simp add: upt_conv_Cons del: upt_Suc)
      ultimately show ?thesis using False 2(1) [OF False] ne by (simp add: print_row_def Let_def m [simplified, symmetric] del: upt_Suc)
    qed
  qed simp
  from this [of 1 "[]" sw] show ?thesis by (simp add: computePrintData_def)
qed

section \<open>Printing does not panic\<close>

text \<open>The resolver returns at least one name, and a name with a dot has three characters or more.\<close>

definition names_ok :: "(string \<Rightarrow> string list res) \<Rightarrow> bool" where
  "names_ok lookup \<longleftrightarrow> (\<forall>ip. lookup ip \<noteq> Ok []) \<and>
     (\<forall>ip n. getLookUpName lookup ip = Ok n \<longrightarrow> CHR ''.'' \<in> set n \<longrightarrow> 3 \<le> length n)"

lemma names_okE:
  assumes "names_ok lookup"
  obtains n where "getLookUpName lookup ip = Ok n" "CHR ''.'' \<in> set n \<Longrightarrow> 3 \<le> length n"
proof -
  have "\<exists>n. getLookUpName lookup ip = Ok n"
    using assms by (auto simp: names_ok_def getLookUpName_def index_def split: sum.splits)
  then show thesis using that assms by (auto simp: names_ok_def)
qed

lemma split_interface_ok: "(CHR ''.'' \<in> set n \<Longrightarrow> 3 \<le> length n) \<Longrightarrow> \<exists>p. split_interface n = Ok p"
  by (auto simp: split_interface_def strings_Index_takeWhile)

lemma observe_ok: "names_ok lookup \<Longrightarrow> i < length (pa_switches route) \<Longrightarrow> \<exists>ob. observe lookup route i = Ok ob"
proof -
  assume ok: "names_ok lookup" and i: "i < length (pa_switches route)"
  obtain n where n: "getLookUpName lookup (sw_ip (pa_switches route ! i)) = Ok n" "CHR ''.'' \<in> set n \<Longrightarrow> 3 \<le> length n"
    using names_okE [OF ok] by blast
  then obtain p where "split_interface n = Ok p" using split_interface_ok by blast
  then have host: "getHostNoPrefix lookup (sw_ip (pa_switches route ! i)) = Ok (snd p)"
    "getHostIfPrefix lookup (sw_ip (pa_switches route ! i)) = Ok (fst p)"
    using n by (simp_all add: getHostNoPrefix_def getHostIfPrefix_def case_prod_unfold)
  have nxt: "i + 1 < length (pa_switches route)" if "sw_ip (pa_switches route ! i) \<noteq> sw_ip (pa_switches route ! (length (pa_switches route) - 1))"
    using that i by (metis Suc_eq_plus1 Suc_lessI add_diff_cancel_right')
  show ?thesis using i host nxt by (auto simp: observe_def Let_def)
qed

lemma observe_route_ok:
  "(\<And>i. i \<in> set is \<Longrightarrow> \<exists>ob. observe lookup route i = Ok ob) \<Longrightarrow> \<exists>obs. observe_route lookup route is = Ok obs"
proof (induction "is")
  case (Cons i "is")
  then obtain ob obs where "observe lookup route i = Ok ob" "observe_route lookup route is = Ok obs" by force
  then show ?case by simp
qed simp

lemma observations_ok:
  "names_ok lookup \<Longrightarrow> \<exists>obs. observations lookup routes = Ok obs"
proof (induction routes)
  case (Cons r routes)
  obtain a where "observe_route lookup r [0..<length (pa_switches r)] = Ok a"
    using observe_route_ok observe_ok [OF Cons.prems] by (metis atLeastLessThan_iff set_upt)
  with Cons show ?case by auto
qed simp

lemma lookup_names_ok: "names_ok lookup \<Longrightarrow> \<exists>ns. lookup_names lookup ips = Ok ns"
proof (induction ips)
  case (Cons ip ips)
  obtain n where "getLookUpName lookup ip = Ok n" using names_okE [OF Cons.prems] by blast
  with Cons show ?case by auto
qed simp

lemma debug_paths_ok:
  "names_ok lookup \<Longrightarrow> list_all (\<lambda>sw. sw_routeIdx sw < length routes) sws \<Longrightarrow> \<exists>r. debug_paths lookup routes sws = Ok r"
proof (induction sws)
  case (Cons sw sws)
  obtain n ns where "getLookUpName lookup (sw_ip sw) = Ok n"
      "lookup_names lookup (map sw_ip (pa_switches (routes ! sw_routeIdx sw))) = Ok ns"
    using names_okE [OF Cons.prems(1)] lookup_names_ok [OF Cons.prems(1)] by metis
  with Cons show ?case by auto
qed simp

lemma debug_switches_from: "set (snd (snd (debug_switches sws r))) \<subseteq> set (snd (snd r)) \<union> set sws"
  by (induction sws r rule: debug_switches.induct) (auto split: if_splits)

lemma debug_foldl_from:
  "set (snd (snd (foldl (\<lambda>r route. debug_switches (pa_switches route) r) r routes))) \<subseteq>
     set (snd (snd r)) \<union> (\<Union>route\<in>set routes. set (pa_switches route))"
proof (induction routes arbitrary: r)
  case (Cons route routes)
  show ?case using Cons [of "debug_switches (pa_switches route) r"] debug_switches_from [of "pa_switches route" r] by auto
qed simp

lemma debugPrint_ok:
  assumes "names_ok lookup" and "\<And>route sw. route \<in> set routes \<Longrightarrow> sw \<in> set (pa_switches route) \<Longrightarrow> sw_routeIdx sw < length routes"
  shows "\<exists>r. debugPrint lookup routes = Ok r"
proof -
  obtain tested en bad where f: "foldl (\<lambda>r route. debug_switches (pa_switches route) r) ([], 0, []) routes = (tested, en, bad)"
    by (cases "foldl (\<lambda>r route. debug_switches (pa_switches route) r) ([], 0, []) routes") auto
  then have "list_all (\<lambda>sw. sw_routeIdx sw < length routes) bad"
    using debug_foldl_from [of "([], 0, [])" routes] assms(2) by (fastforce simp: list_all_iff)
  then obtain ps ns where "debug_paths lookup routes bad = Ok ps" "lookup_names lookup tested = Ok ns"
    using debug_paths_ok [OF assms(1)] lookup_names_ok [OF assms(1)] by metis
  then show ?thesis by (simp add: debugPrint_def f)
qed

lemma table_rows_no_panic: "list_all (\<lambda>r. length r = 11) rows \<Longrightarrow> table_rows print_header cur rows \<noteq> Inl Panic"
  by (induction rows arbitrary: cur) (auto simp: colNumber_hop Let_def bind_res_panic_iff)

lemma detailedPrint_no_panic: "detailedPrint iter srt fmt info \<noteq> Inl Panic"
proof -
  obtain sw where "sw = parseSwitchMap iter srt info" by simp
  moreover have "list_all (\<lambda>r. length r = 11) (print_rows fmt sw 1 [] sw)"
    using print_rows_cells [of fmt sw 1 "[]" sw] by (auto simp: list_all_iff list_all2_conv_all_nth in_set_conv_nth)
  ultimately show ?thesis
    using table_rows_no_panic by (simp add: detailedPrint_def computePrintData_def bind_res_panic_iff)
qed

lemma PrettyPrint_no_panic:
  assumes "names_ok lookup" and "\<And>route sw. route \<in> set routes \<Longrightarrow> sw \<in> set (pa_switches route) \<Longrightarrow> sw_routeIdx sw < length routes"
  shows "PrettyPrint lookup iter srt fmt routes thr \<noteq> Inl Panic"
proof -
  obtain r obs where "debugPrint lookup routes = Ok r" "observations lookup routes = Ok obs"
    using debugPrint_ok [OF assms(1), of routes] assms(2) observations_ok [OF assms(1)] by metis
  then show ?thesis using detailedPrint_no_panic by (simp add: PrettyPrint_def computeInfo_def discover_routes_all)
qed

end
