(* ===== verification/Calnex_API.thy ===== *)
theory Calnex_API
  imports Go_Strings Go_Effects
begin

text \<open>
  \<open>calnex/api\<close>: the client of the HTTP interface of a Calnex measurement device. The network, the decoders of
  \<open>encoding/json\<close> and \<open>encoding/csv\<close>, the texts of \<open>http.StatusText\<close>, the resolver and the INI library are
  arguments; what the device does is the state of the network.
\<close>

section \<open>Channels and probes\<close>

type_synonym Channel = int

definition ChannelA :: Channel where [simp]: "ChannelA = 0"
definition ChannelB :: Channel where [simp]: "ChannelB = 1"
definition ChannelC :: Channel where [simp]: "ChannelC = 2"
definition ChannelD :: Channel where [simp]: "ChannelD = 3"
definition ChannelE :: Channel where [simp]: "ChannelE = 4"
definition ChannelF :: Channel where [simp]: "ChannelF = 5"
definition ChannelONE :: Channel where [simp]: "ChannelONE = 6"
definition ChannelTWO :: Channel where [simp]: "ChannelTWO = 7"

definition channelDatatypeMap :: "Channel \<rightharpoonup> string" where
  "channelDatatypeMap = map_of
     [(ChannelA, ''tie''), (ChannelB, ''tie''), (ChannelC, ''tie''), (ChannelD, ''tie''), (ChannelE, ''tie''),
      (ChannelF, ''tie''), (ChannelONE, ''2wayte''), (ChannelTWO, ''2wayte'')]"

definition channelStringToCalnex :: "string \<rightharpoonup> Channel" where
  "channelStringToCalnex = map_of
     [(''a'', ChannelA), (''b'', ChannelB), (''c'', ChannelC), (''d'', ChannelD), (''e'', ChannelE), (''f'', ChannelF),
      (''1'', ChannelONE), (''2'', ChannelTWO)]"

definition ChannelCalnexToString :: "Channel \<rightharpoonup> string" where
  "ChannelCalnexToString = map_of
     [(ChannelA, ''a''), (ChannelB, ''b''), (ChannelC, ''c''), (ChannelD, ''d''), (ChannelE, ''e''), (ChannelF, ''f''),
      (ChannelONE, ''1''), (ChannelTWO, ''2'')]"

definition errBadChannel :: string where "errBadChannel = ''channel is not recognized''"
definition errBadProbe :: string where "errBadProbe = ''probe protocol is not recognized''"
definition errAPI :: string where "errAPI = ''invalid response from API''"

text \<open>A Go map yields the zero value, here the empty text, for a key it does not hold.\<close>

definition go_lookup :: "('k \<rightharpoonup> string) \<Rightarrow> 'k \<Rightarrow> string" where
  "go_lookup m k = (case m k of None \<Rightarrow> [] | Some v \<Rightarrow> v)"

definition ChannelFromString :: "string \<Rightarrow> Channel res" where
  "ChannelFromString value = (case channelStringToCalnex value of None \<Rightarrow> Err errBadChannel | Some c \<Rightarrow> Ok c)"

definition Channel_String :: "Channel \<Rightarrow> string" where
  "Channel_String c = go_lookup ChannelCalnexToString c"

text \<open>The method assigns through its receiver: its new value on success, an error leaves it as it was.\<close>

definition Channel_UnmarshalText :: "bytes \<Rightarrow> Channel \<Rightarrow> unit res \<times> Channel" where
  "Channel_UnmarshalText value c =
     (case ChannelFromString (bytes_str value) of Inl e \<Rightarrow> (Inl e, c) | Inr cr \<Rightarrow> (Ok (), cr))"

definition Channel_Calnex :: "Channel \<Rightarrow> int" where
  "Channel_Calnex c = c"

definition CalnexAPI :: "Channel \<Rightarrow> string" where
  "CalnexAPI c = ''ch'' @ show_int (Channel_Calnex c)"

type_synonym Probe = int

definition ProbePTP :: Probe where [simp]: "ProbePTP = 0"
definition ProbeNTP :: Probe where [simp]: "ProbeNTP = 2"

definition probeStringToProbe :: "string \<rightharpoonup> Probe" where
  "probeStringToProbe = map_of [(''ptp'', ProbePTP), (''ntp'', ProbeNTP)]"

definition probeCalnexAPIToProbe :: "string \<rightharpoonup> Probe" where
  "probeCalnexAPIToProbe = map_of [(show_int ProbePTP, ProbePTP), (show_int ProbeNTP, ProbeNTP)]"

definition probeToString :: "Probe \<rightharpoonup> string" where
  "probeToString = map_of [(ProbePTP, ''ptp''), (ProbeNTP, ''ntp'')]"

definition probeToCalnexName :: "Probe \<rightharpoonup> string" where
  "probeToCalnexName = map_of [(ProbePTP, ''PTP slave''), (ProbeNTP, ''NTP client'')]"

definition probeToServerType :: "Probe \<rightharpoonup> string" where
  "probeToServerType = map_of [(ProbePTP, ''master_ip''), (ProbeNTP, ''server_ip'')]"

definition ProbeFromString :: "string \<Rightarrow> Probe res" where
  "ProbeFromString value = (case probeStringToProbe value of None \<Rightarrow> Err errBadProbe | Some p \<Rightarrow> Ok p)"

definition ProbeFromCalnex :: "string \<Rightarrow> Probe res" where
  "ProbeFromCalnex calnex = (case probeCalnexAPIToProbe calnex of None \<Rightarrow> Err errBadProbe | Some p \<Rightarrow> Ok p)"

definition Probe_String :: "Probe \<Rightarrow> string" where
  "Probe_String p = go_lookup probeToString p"

definition Probe_UnmarshalText :: "bytes \<Rightarrow> Probe \<Rightarrow> unit res \<times> Probe" where
  "Probe_UnmarshalText value p =
     (case ProbeFromString (bytes_str value) of Inl e \<Rightarrow> (Inl e, p) | Inr pr \<Rightarrow> (Ok (), pr))"

definition ServerType :: "Probe \<Rightarrow> string" where
  "ServerType p = go_lookup probeToServerType p"

definition CalnexName :: "Probe \<Rightarrow> string" where
  "CalnexName p = go_lookup probeToCalnexName p"

section \<open>URLs\<close>

definition measureURL :: "string \<Rightarrow> string \<Rightarrow> string \<Rightarrow> string \<Rightarrow> string" where
  "measureURL source ch a b = ''https://'' @ source @ ''/api/get/measure/'' @ ch @ ''/ptp_synce/'' @ a @ ''/'' @ b"

definition dataURL :: "string \<Rightarrow> string \<Rightarrow> string \<Rightarrow> string" where
  "dataURL source ch ty = ''https://'' @ source @ ''/api/getdata?channel='' @ ch @ ''&datatype='' @ ty @ ''&reset=true''"

definition startMeasure :: "string \<Rightarrow> string" where "startMeasure s = ''https://'' @ s @ ''/api/startmeasurement''"
definition stopMeasure :: "string \<Rightarrow> string" where "stopMeasure s = ''https://'' @ s @ ''/api/stopmeasurement''"
definition getSettingsURL :: "string \<Rightarrow> string" where "getSettingsURL s = ''https://'' @ s @ ''/api/getsettings''"
definition setSettingsURL :: "string \<Rightarrow> string" where "setSettingsURL s = ''https://'' @ s @ ''/api/setsettings''"
definition getStatusURL :: "string \<Rightarrow> string" where "getStatusURL s = ''https://'' @ s @ ''/api/getstatus''"
definition getProblemReportURL :: "string \<Rightarrow> string" where
  "getProblemReportURL s = ''https://'' @ s @ ''/api/getproblemreport''"
definition clearDeviceURL :: "string \<Rightarrow> string" where
  "clearDeviceURL s = ''https://'' @ s @ ''/api/cleardevice?action=cleardevice''"
definition rebootURL :: "string \<Rightarrow> string" where "rebootURL s = ''https://'' @ s @ ''/api/reboot?action=reboot''"
definition versionURL :: "string \<Rightarrow> string" where "versionURL s = ''https://'' @ s @ ''/api/version''"
definition firmwareURL :: "string \<Rightarrow> string" where "firmwareURL s = ''https://'' @ s @ ''/api/updatefirmware''"

definition ON :: string where [simp]: "ON = ''On''"
definition OFF :: string where [simp]: "OFF = ''Off''"
definition YES :: string where [simp]: "YES = ''Yes''"
definition NO :: string where [simp]: "NO = ''No''"

definition parseResponse :: "string \<Rightarrow> string res" where
  "parseResponse response =
     (let s = strings_Split (CHR ''='') (TrimSuffix response [CHR 0x0A]) in
      if length s \<noteq> 2 then Err errAPI else index s 1)"

section \<open>Requests\<close>

record Status =
  ReferenceReady :: bool
  ModulesReady :: bool
  MeasurementActive :: bool

record Result =
  Result_Result :: bool
  Result_Message :: string

record Calnex_Version =
  Firmware_text :: string

record http_Client =
  InsecureSkipVerify :: bool
  Timeout_s :: nat

record API =
  Client :: http_Client
  source :: string

datatype request = Get string | Post string string

record 'b http_Response =
  StatusCode :: int
  Body :: 'b

definition http_StatusOK :: int where [simp]: "http_StatusOK = 200"

text \<open>
  The network as a function of its own state, and a call of the client as a state transformer: the state after the
  call, also when it returns an error.
\<close>

type_synonym ('w, 'b) net = "http_Client \<Rightarrow> request \<Rightarrow> 'w \<Rightarrow> 'b http_Response res \<times> 'w"

text \<open>
  The standard library and the INI library. \<open>csv_records\<close> are the results of \<open>Read\<close> before \<open>io.EOF\<close>;
  \<open>ini_Key\<close> is the file after \<open>Section(s).Key(k)\<close>, which adds an absent section or key, and \<open>ini_Value\<close> the text
  of the key.
\<close>

record ('b, 'f) libs =
  StatusText :: "int \<Rightarrow> string"
  ReadAll :: "'b \<Rightarrow> string res"
  csv_records :: "'b \<Rightarrow> string list res list"
  json_Status :: "'b \<Rightarrow> Status res"
  json_Result :: "'b \<Rightarrow> Result res"
  json_Version :: "'b \<Rightarrow> Calnex_Version res"
  LookupAddr :: "string \<Rightarrow> string list res"
  ini_Load :: "'b \<Rightarrow> 'f res"
  ini_WriteTo :: "'f \<Rightarrow> string res"
  ini_Key :: "string \<Rightarrow> string \<Rightarrow> 'f \<Rightarrow> 'f"
  ini_Value :: "string \<Rightarrow> string \<Rightarrow> 'f \<Rightarrow> string"
  ini_SetValue :: "string \<Rightarrow> string \<Rightarrow> string \<Rightarrow> 'f \<Rightarrow> 'f"
  IP_String :: "bytes \<Rightarrow> string"

definition NewAPI :: "string \<Rightarrow> bool \<Rightarrow> API" where
  "NewAPI src insecureTLS = \<lparr>Client = \<lparr>InsecureSkipVerify = insecureTLS, Timeout_s = 120\<rparr>, source = src\<rparr>"

definition send :: "('w, 'b) net \<Rightarrow> API \<Rightarrow> request \<Rightarrow> ('w, 'b http_Response) call" where
  "send net a rq = net (Client a) rq"

definition check_status :: "('b, 'f) libs \<Rightarrow> 'b http_Response \<Rightarrow> 'b res" where
  "check_status L resp = (if StatusCode resp \<noteq> http_StatusOK then Err (StatusText L (StatusCode resp)) else Ok (Body resp))"

text \<open>The steps the getters share: the request, its transport error, the status, then what reads the body.\<close>

definition fetch :: "('b, 'f) libs \<Rightarrow> ('w, 'b) net \<Rightarrow> API \<Rightarrow> string \<Rightarrow> ('b \<Rightarrow> 'a res) \<Rightarrow> ('w, 'a) call" where
  "fetch L net a url read =
     bind_call (send net a (Get url)) (\<lambda>resp. ret_call (bind_res (check_status L resp) read))"

fun read_csv :: "string \<Rightarrow> string list res list \<Rightarrow> string list list res" where
  "read_csv ch [] = Ok []"
| "read_csv ch (Inl e # rs) = (case e of Panic \<Rightarrow> Inl Panic | GoError m \<Rightarrow> Err (''failed to parse csv for data from channel '' @ ch @ '': '' @ m))"
| "read_csv ch (Inr l # rs) = bind_res (read_csv ch rs) (\<lambda>ls. Ok (l # ls))"

definition FetchCsv :: "('b, 'f) libs \<Rightarrow> ('w, 'b) net \<Rightarrow> API \<Rightarrow> Channel \<Rightarrow> ('w, string list list) call" where
  "FetchCsv L net a channel =
     fetch L net a (dataURL (source a) (Channel_String channel) (go_lookup channelDatatypeMap channel))
       (\<lambda>body. read_csv (Channel_String channel) (csv_records L body))"

definition FetchChannelProbe :: "('b, 'f) libs \<Rightarrow> ('w, 'b) net \<Rightarrow> API \<Rightarrow> Channel \<Rightarrow> ('w, Probe) call" where
  "FetchChannelProbe L net a channel =
     fetch L net a (measureURL (source a) (CalnexAPI channel) ''mode'' ''probe_type'')
       (\<lambda>body. bind_res (ReadAll L body) (\<lambda>b. bind_res (parseResponse b) ProbeFromCalnex))"

definition FetchChannelTargetIP ::
  "('b, 'f) libs \<Rightarrow> ('w, 'b) net \<Rightarrow> API \<Rightarrow> Channel \<Rightarrow> Probe \<Rightarrow> ('w, string) call" where
  "FetchChannelTargetIP L net a channel probe =
     fetch L net a (measureURL (source a) (CalnexAPI channel) (Probe_String probe) (ServerType probe))
       (\<lambda>body. bind_res (ReadAll L body) parseResponse)"

definition FetchSettings :: "('b, 'f) libs \<Rightarrow> ('w, 'b) net \<Rightarrow> API \<Rightarrow> ('w, 'f) call" where
  "FetchSettings L net a = fetch L net a (getSettingsURL (source a)) (ini_Load L)"

text \<open>A key of the settings file: the channel and the parts of the name, with backslashes between them.\<close>

definition ckey :: "Channel \<Rightarrow> string list \<Rightarrow> string" where
  "ckey ch parts = CalnexAPI ch @ concat (map (\<lambda>p. CHR 0x5C # p) parts)"

text \<open>The channels in the order the run-time walks the map; looking a key up adds it to the file.\<close>

fun used_channels :: "('b, 'f) libs \<Rightarrow> Channel list \<Rightarrow> 'f \<Rightarrow> Channel list" where
  "used_channels L [] f = []"
| "used_channels L (ch # chs) f =
     (let k = ckey ch [''used'']; f' = ini_Key L ''measure'' k f in
      if ini_Value L ''measure'' k f' = ''Yes'' then ch # used_channels L chs f' else used_channels L chs f')"

definition FetchUsedChannels ::
  "('b, 'f) libs \<Rightarrow> ('w, 'b) net \<Rightarrow> API \<Rightarrow> Channel list \<Rightarrow> ('w, Channel list) call" where
  "FetchUsedChannels L net a order =
     bind_call (FetchSettings L net a) (\<lambda>f. ret_call (Ok (used_channels L order f)))"

definition FetchChannelTargetName ::
  "('b, 'f) libs \<Rightarrow> ('w, 'b) net \<Rightarrow> API \<Rightarrow> Channel \<Rightarrow> Probe \<Rightarrow> ('w, string) call" where
  "FetchChannelTargetName L net a channel probe =
     bind_call (FetchChannelTargetIP L net a channel probe) (\<lambda>ip.
       ret_call (bind_res (LookupAddr L ip) (\<lambda>hostnames. index hostnames 0)))"

definition FetchStatus :: "('b, 'f) libs \<Rightarrow> ('w, 'b) net \<Rightarrow> API \<Rightarrow> ('w, Status) call" where
  "FetchStatus L net a = fetch L net a (getStatusURL (source a)) (json_Status L)"

text \<open>The file the report goes to: its name from the directory and the time, what creating it and copying the body give.\<close>

definition FetchProblemReport ::
  "('b, 'f) libs \<Rightarrow> ('w, 'b) net \<Rightarrow> (string \<Rightarrow> unit res) \<Rightarrow> (string \<Rightarrow> 'b \<Rightarrow> unit res) \<Rightarrow> (string \<Rightarrow> string \<Rightarrow> string) \<Rightarrow>
   string \<Rightarrow> API \<Rightarrow> string \<Rightarrow> ('w, string) call" where
  "FetchProblemReport L net os_Create io_Copy path_Join now a dir =
     fetch L net a (getProblemReportURL (source a)) (\<lambda>body.
       let reportFileName = path_Join dir (''calnex_problem_report_'' @ now @ ''.tar'') in
       bind_res (os_Create reportFileName) (\<lambda>_. bind_res (io_Copy reportFileName body) (\<lambda>_. Ok reportFileName)))"

definition FetchVersion :: "('b, 'f) libs \<Rightarrow> ('w, 'b) net \<Rightarrow> API \<Rightarrow> ('w, Calnex_Version) call" where
  "FetchVersion L net a = fetch L net a (versionURL (source a)) (json_Version L)"

text \<open>
  \<open>post\<close> decodes the body before it looks at the status, and returns the decoded result together with the error of a
  bad status.
\<close>

definition post :: "('b, 'f) libs \<Rightarrow> ('w, 'b) net \<Rightarrow> API \<Rightarrow> string \<Rightarrow> string \<Rightarrow> 'w \<Rightarrow> (Result option \<times> unit res) \<times> 'w" where
  "post L net a url content w =
     (case send net a (Post url content) w of
        (Inl e, w') \<Rightarrow> ((None, Inl e), w')
      | (Inr resp, w') \<Rightarrow>
          ((case json_Result L (Body resp) of
              Inl e \<Rightarrow> (None, Inl e)
            | Inr r \<Rightarrow> if StatusCode resp \<noteq> http_StatusOK then (Some r, Err (StatusText L (StatusCode resp)))
                       else if \<not> Result_Result r then (None, Err (Result_Message r))
                       else (Some r, Ok ())), w'))"

text \<open>What opening and reading the file of the new version gives is an argument.\<close>

definition PushVersion ::
  "('b, 'f) libs \<Rightarrow> ('w, 'b) net \<Rightarrow> (string \<Rightarrow> unit res) \<Rightarrow> (string \<Rightarrow> string res) \<Rightarrow> API \<Rightarrow> string \<Rightarrow>
   'w \<Rightarrow> (Result option \<times> unit res) \<times> 'w" where
  "PushVersion L net os_Open ReadFrom a path w =
     (case os_Open path of
        Inl e \<Rightarrow> ((None, Inl e), w)
      | Inr _ \<Rightarrow> (case ReadFrom path of
                    Inl e \<Rightarrow> ((None, Inl e), w)
                  | Inr buf \<Rightarrow> post L net a (firmwareURL (source a)) buf w))"

definition PushSettings :: "('b, 'f) libs \<Rightarrow> ('w, 'b) net \<Rightarrow> API \<Rightarrow> 'f \<Rightarrow> ('w, unit) call" where
  "PushSettings L net a f w =
     (case ini_WriteTo L f of
        Inl e \<Rightarrow> (Inl e, w)
      | Inr buf \<Rightarrow> (let ((_, err), w') = post L net a (setSettingsURL (source a)) buf w in (err, w')))"

definition get :: "('b, 'f) libs \<Rightarrow> ('w, 'b) net \<Rightarrow> API \<Rightarrow> (string \<Rightarrow> string) \<Rightarrow> ('w, unit) call" where
  "get L net a path =
     fetch L net a (path (source a)) (\<lambda>body.
       bind_res (json_Result L body) (\<lambda>r. if \<not> Result_Result r then Err (Result_Message r) else Ok ()))"

definition StartMeasure :: "('b, 'f) libs \<Rightarrow> ('w, 'b) net \<Rightarrow> API \<Rightarrow> ('w, unit) call" where
  "StartMeasure L net a = get L net a startMeasure"

definition StopMeasure :: "('b, 'f) libs \<Rightarrow> ('w, 'b) net \<Rightarrow> API \<Rightarrow> ('w, unit) call" where
  "StopMeasure L net a = get L net a stopMeasure"

definition ClearDevice :: "('b, 'f) libs \<Rightarrow> ('w, 'b) net \<Rightarrow> API \<Rightarrow> ('w, unit) call" where
  "ClearDevice L net a = get L net a clearDeviceURL"

definition Reboot :: "('b, 'f) libs \<Rightarrow> ('w, 'b) net \<Rightarrow> API \<Rightarrow> ('w, unit) call" where
  "Reboot L net a = get L net a rebootURL"

section \<open>Names\<close>

lemma str_bytes_bytes_str [simp]: "str_bytes (bytes_str b) = b"
proof -
  have "(word_of_nat (of_char (char_of (unat x) :: char)) :: u8) = x" for x :: u8
  proof -
    have "unat x < 256" by (rule order_less_le_trans [OF unsigned_less]) simp
    then show ?thesis by simp
  qed
  then show ?thesis by (simp add: str_bytes_def bytes_str_def map_idI)
qed

text \<open>
  The names of the channels: a text is accepted exactly if it is the name of one of the eight channels, and then yields that
  channel; the same for the two probes. The number that names a probe in the measurement API is read back as the probe.
\<close>
theorem channel_probe_names:
  "(ChannelFromString s = Ok c \<longleftrightarrow> c \<in> {0..7} \<and> Channel_String c = s) \<and>
   (ProbeFromString s = Ok p \<longleftrightarrow> p \<in> {ProbePTP, ProbeNTP} \<and> Probe_String p = s) \<and>
   (ProbeFromCalnex s = Ok p \<longleftrightarrow> p \<in> {ProbePTP, ProbeNTP} \<and> show_int p = s) \<and>
   (snd (Channel_UnmarshalText b c) = c \<or> b = str_bytes (Channel_String (snd (Channel_UnmarshalText b c))))"
proof -
  have digits: "show_int 0 = ''0''" "show_int 2 = ''2''" by code_simp+
  have seven: "{0..7::int} = {0, 1, 2, 3, 4, 5, 6, 7}" by auto
  have ch: "ChannelFromString s = Ok c \<longleftrightarrow> c \<in> {0..7} \<and> Channel_String c = s" for s c
    unfolding seven
    by (auto simp: ChannelFromString_def channelStringToCalnex_def Channel_String_def go_lookup_def ChannelCalnexToString_def
        split: if_splits)
  have "ProbeFromString s = Ok p \<longleftrightarrow> p \<in> {ProbePTP, ProbeNTP} \<and> Probe_String p = s"
    by (auto simp: ProbeFromString_def probeStringToProbe_def Probe_String_def go_lookup_def probeToString_def)
  moreover have "ProbeFromCalnex s = Ok p \<longleftrightarrow> p \<in> {ProbePTP, ProbeNTP} \<and> show_int p = s"
    using digits by (auto simp: ProbeFromCalnex_def probeCalnexAPIToProbe_def split: if_splits)
  moreover have "snd (Channel_UnmarshalText b c) = c \<or> b = str_bytes (Channel_String (snd (Channel_UnmarshalText b c)))"
  proof (cases "ChannelFromString (bytes_str b)")
    case (Inr cr)
    then show ?thesis using ch [of "bytes_str b" cr] by (simp add: Channel_UnmarshalText_def)
  qed (simp add: Channel_UnmarshalText_def)
  ultimately show ?thesis using ch by blast
qed

text \<open>The keys of the settings file are read apart again at the backslashes.\<close>

lemma show_int_chars: "x \<in> set (show_int i) \<Longrightarrow> is_digit x \<or> x = CHR ''-''"
  using show_nat_digits [of "nat (- i)"] show_nat_digits [of "nat i"]
  by (cases "i < 0") (auto simp: show_int_def list_all_iff simp del: of_nat_nat nat_0_le)

lemma CalnexAPI_no_backslash: "CHR 0x5C \<notin> set (CalnexAPI ch)"
  using show_int_chars [of "CHR 0x5C" ch] by (auto simp: CalnexAPI_def Channel_Calnex_def is_digit_def)

lemma CalnexAPI_inj: "CalnexAPI a = CalnexAPI b \<longleftrightarrow> a = b"
  by (metis CalnexAPI_def Channel_Calnex_def atoi_show_int option.inject same_append_eq)

lemma Split_parts:
  "CHR 0x5C \<notin> set a \<Longrightarrow> list_all (\<lambda>p. CHR 0x5C \<notin> set p) ps \<Longrightarrow>
    strings_Split (CHR 0x5C) (a @ concat (map (\<lambda>p. CHR 0x5C # p) ps)) = a # ps"
  by (induction ps arbitrary: a) (simp_all add: strings_Split_single strings_Split_append)

lemma ckey_eq_iff:
  assumes "list_all (\<lambda>p. CHR 0x5C \<notin> set p) ps" and "list_all (\<lambda>p. CHR 0x5C \<notin> set p) qs"
  shows "ckey a ps = ckey b qs \<longleftrightarrow> a = b \<and> ps = qs"
proof
  assume "ckey a ps = ckey b qs"
  then have "CalnexAPI a # ps = CalnexAPI b # qs"
    by (metis Split_parts [OF CalnexAPI_no_backslash assms(1)] Split_parts [OF CalnexAPI_no_backslash assms(2)] ckey_def)
  then show "a = b \<and> ps = qs" by (simp add: CalnexAPI_inj)
qed simp

text \<open>
  A response \<open>key=value\<close>, with or without the line end, yields the value; more or fewer equals signs are an error, and
  indexing the parts never panics.
\<close>
theorem parseResponse_value:
  "parseResponse r = (case strings_Split (CHR ''='') (TrimSuffix r [CHR 0x0A]) of [k, v] \<Rightarrow> Ok v | _ \<Rightarrow> Err errAPI) \<and>
   (CHR ''='' \<notin> set k \<longrightarrow> CHR ''='' \<notin> set v \<longrightarrow> CHR 0x0A \<notin> set v \<longrightarrow>
     parseResponse (k @ ''='' @ v) = Ok v \<and> parseResponse (k @ ''='' @ v @ [CHR 0x0A]) = Ok v)"
proof -
  have a: "parseResponse r = (case strings_Split (CHR ''='') (TrimSuffix r [CHR 0x0A]) of [k, v] \<Rightarrow> Ok v | _ \<Rightarrow> Err errAPI)" for r
    by (auto simp: parseResponse_def Let_def split: list.splits)
  have nl: "TrimSuffix (x @ [CHR 0x0A]) [CHR 0x0A] = x" for x by (simp add: TrimSuffix_def)
  have no: "TrimSuffix (k @ ''='' @ v) [CHR 0x0A] = k @ ''='' @ v" if "CHR 0x0A \<notin> set v"
    using that by (cases v rule: rev_cases) (auto simp: TrimSuffix_def)
  have "parseResponse (k @ ''='' @ v) = Ok v \<and> parseResponse (k @ ''='' @ v @ [CHR 0x0A]) = Ok v"
    if "CHR ''='' \<notin> set k" "CHR ''='' \<notin> set v" "CHR 0x0A \<notin> set v"
    using nl [of "k @ ''='' @ v"] no that by (simp add: a strings_Split_append strings_Split_single)
  with a show ?thesis by blast
qed

theorem parseResponse_value_witness: "parseResponse (''ch6'' @ ''='' @ ''2'' @ [CHR 0x0A]) = Ok ''2''"
  using parseResponse_value [of "[]" "''ch6''" "''2''"] by simp

section \<open>One request for every call\<close>

text \<open>The network with a record of the requests it got.\<close>

definition recorded :: "('w, 'b) net \<Rightarrow> ('w \<times> request list, 'b) net" where
  "recorded net cl rq s = (let (r, w') = net cl rq (fst s) in (r, (w', snd s @ [rq])))"

text \<open>
  What the calls of the client share: each sends one request, changes the network's state only by it and hands a failure of
  the transport on.
\<close>

locale single_request =
  fixes net :: "('w, 'b) net" and cl :: http_Client and rq :: request and call :: "('w, 'a) call"
  assumes sends: "snd (call w) = snd (net cl rq w)"
    and transport: "fst (net cl rq w) = Inl e \<Longrightarrow> fst (call w) = Inl e"
begin

lemma reply_needed: "fst (call w) = Ok x \<Longrightarrow> \<exists>resp. fst (net cl rq w) = Ok resp"
  using transport [of w] by (cases "fst (net cl rq w)") auto

end

text \<open>On a recorded network a call adds its request to the record, whatever it returns.\<close>

locale recorded_request = single_request "recorded n" cl rq call
  for n :: "('w, 'b) net" and cl rq and call :: "('w \<times> request list, 'a) call"
begin

lemma log_extends: "call s = (r, s') \<Longrightarrow> snd s' = snd s @ [rq]"
  using sends [of s] by (simp add: recorded_def case_prod_unfold Let_def)

end

text \<open>Of a call that also wants the status OK, an answer with another status is an error.\<close>

locale status_request = single_request +
  fixes text_of :: "int \<Rightarrow> string"
  assumes status: "fst (net cl rq w) = Ok resp \<Longrightarrow> StatusCode resp \<noteq> http_StatusOK \<Longrightarrow> fst (call w) = Err (text_of (StatusCode resp))"
begin

lemma ok_status: "fst (call w) = Ok x \<Longrightarrow> \<exists>resp. fst (net cl rq w) = Ok resp \<and> StatusCode resp = http_StatusOK"
  using reply_needed [of w x] status [of w] by fastforce

end

lemma fetch_eq: "fetch L net a url read w =
  (case fst (net (Client a) (Get url) w) of Inl e \<Rightarrow> Inl e | Inr resp \<Rightarrow> bind_res (check_status L resp) read, snd (net (Client a) (Get url) w))"
  by (auto simp: fetch_def bind_call_def send_def ret_call_def split: prod.splits sum.splits)

interpretation fetch_rq: status_request net "Client a" "Get url" "fetch L net a url read" "StatusText L"
  by unfold_locales (simp_all add: fetch_eq check_status_def)

interpretation settings_rq: status_request net "Client a" "Get (getSettingsURL (source a))" "FetchSettings L net a" "StatusText L"
  unfolding FetchSettings_def by unfold_locales (simp_all add: fetch_eq check_status_def)

interpretation status_rq: status_request net "Client a" "Get (getStatusURL (source a))" "FetchStatus L net a" "StatusText L"
  unfolding FetchStatus_def by unfold_locales (simp_all add: fetch_eq check_status_def)

interpretation version_rq: status_request net "Client a" "Get (versionURL (source a))" "FetchVersion L net a" "StatusText L"
  unfolding FetchVersion_def by unfold_locales (simp_all add: fetch_eq check_status_def)

interpretation start_rq: status_request net "Client a" "Get (startMeasure (source a))" "StartMeasure L net a" "StatusText L"
  unfolding StartMeasure_def get_def by unfold_locales (simp_all add: fetch_eq check_status_def)

interpretation stop_rq: status_request net "Client a" "Get (stopMeasure (source a))" "StopMeasure L net a" "StatusText L"
  unfolding StopMeasure_def get_def by unfold_locales (simp_all add: fetch_eq check_status_def)

lemma post_eq: "post L net a url content w =
  (case fst (net (Client a) (Post url content) w) of
     Inl e \<Rightarrow> (None, Inl e)
   | Inr resp \<Rightarrow> (case json_Result L (Body resp) of
         Inl e \<Rightarrow> (None, Inl e)
       | Inr r \<Rightarrow> if StatusCode resp \<noteq> http_StatusOK then (Some r, Err (StatusText L (StatusCode resp)))
                  else if \<not> Result_Result r then (None, Err (Result_Message r)) else (Some r, Ok ())),
   snd (net (Client a) (Post url content) w))"
  by (auto simp: post_def send_def split: prod.splits sum.splits)

lemma PushSettings_eq: "ini_WriteTo L f = Ok buf \<Longrightarrow>
  PushSettings L net a f w = (snd (fst (post L net a (setSettingsURL (source a)) buf w)), snd (post L net a (setSettingsURL (source a)) buf w))"
  by (simp add: PushSettings_def case_prod_unfold Let_def)

interpretation post_rq: single_request net "Client a" "Post url content"
  "\<lambda>w. (snd (fst (post L net a url content w)), snd (post L net a url content w))"
  by unfold_locales (auto simp: post_eq)

interpretation settings_log: recorded_request n "Client a" "Get (getSettingsURL (source a))" "FetchSettings L (recorded n) a"
  by unfold_locales

interpretation status_log: recorded_request n "Client a" "Get (getStatusURL (source a))" "FetchStatus L (recorded n) a"
  by unfold_locales

interpretation version_log: recorded_request n "Client a" "Get (versionURL (source a))" "FetchVersion L (recorded n) a"
  by unfold_locales

interpretation start_log: recorded_request n "Client a" "Get (startMeasure (source a))" "StartMeasure L (recorded n) a"
  by unfold_locales

interpretation stop_log: recorded_request n "Client a" "Get (stopMeasure (source a))" "StopMeasure L (recorded n) a"
  by unfold_locales

interpretation post_log: recorded_request n "Client a" "Post url content"
  "\<lambda>w. (snd (fst (post L (recorded n) a url content w)), snd (post L (recorded n) a url content w))"
  by unfold_locales

end
