(* ===== verification/Calnex_Config.thy ===== *)
theory Calnex_Config
  imports Calnex_API "HOL-Library.Sublist"
begin

text \<open>
  \<open>calnex/config\<close>: the settings a device is to have, the comparison with the ones it has and the requests that bring it
  there. A Go map is the list of its entries in the order the run-time walks it.
\<close>

section \<open>Setting values\<close>

record MeasureConfig =
  Target :: string
  mc_Probe :: Probe

type_synonym CalnexConfig = "(Channel \<times> MeasureConfig) list"

record NetworkConfig =
  Eth1 :: bytes
  Gw1 :: bytes
  Eth2 :: bytes
  Gw2 :: bytes

text \<open>The flag \<open>changed\<close> of a \<open>config\<close> and the file, which the section and its keys are parts of.\<close>

type_synonym 'f config = "bool \<times> 'f"

definition config_set :: "('b, 'f) libs \<Rightarrow> string \<Rightarrow> string \<Rightarrow> string \<Rightarrow> 'f config \<Rightarrow> 'f config" where
  "config_set L s name value c =
     (let f = ini_Key L s name (snd c) in
      if ini_Value L s name f \<noteq> value then (True, ini_SetValue L s name value f) else (fst c, f))"

definition chSet :: "('b, 'f) libs \<Rightarrow> string \<Rightarrow> Channel \<Rightarrow> Channel \<Rightarrow> string list \<Rightarrow> string \<Rightarrow> 'f config \<Rightarrow> 'f config" where
  "chSet L s start stop keyf value c = foldl (\<lambda>c i. config_set L s (ckey i keyf) value c) c [start..stop]"

definition measure_channel :: "('b, 'f) libs \<Rightarrow> string \<Rightarrow> 'f config \<Rightarrow> Channel \<times> MeasureConfig \<Rightarrow> 'f config" where
  "measure_channel L s c e =
     (let (ch, m) = e;
          c = config_set L s (ckey ch [''ptp_synce'', ''mode'', ''probe_type'']) (CalnexName (mc_Probe m)) c in
      if mc_Probe m = ProbeNTP then
        config_set L s (ckey ch [''ptp_synce'', ''ntp'', ''server_ip_ipv6'']) (Target m)
          (config_set L s (ckey ch [''ptp_synce'', ''ntp'', ''server_ip'']) (Target m) c)
      else if mc_Probe m = ProbePTP then
        config_set L s (ckey ch [''ptp_synce'', ''ptp'', ''master_ip_ipv6'']) (Target m)
          (config_set L s (ckey ch [''ptp_synce'', ''ptp'', ''master_ip'']) (Target m) c)
      else c)"

definition enable_channel :: "('b, 'f) libs \<Rightarrow> string \<Rightarrow> Channel set \<Rightarrow> 'f config \<Rightarrow> Channel \<Rightarrow> 'f config" where
  "enable_channel L s channelEnabled c ch =
     (let used = (if ch \<in> channelEnabled then YES else NO);
          enabled = (if ch \<in> channelEnabled then ON else OFF) in
      config_set L s (ckey ch [''protocol_enabled'']) enabled (config_set L s (ckey ch [''used'']) used c))"

definition measureConfig :: "('b, 'f) libs \<Rightarrow> string \<Rightarrow> CalnexConfig \<Rightarrow> Channel list \<Rightarrow> 'f config \<Rightarrow> 'f config" where
  "measureConfig L s cc chs c =
     (let channelEnabled = fst ` set cc in
      foldl (enable_channel L s channelEnabled) (foldl (measure_channel L s) c cc) chs)"

definition nicConfig :: "('b, 'f) libs \<Rightarrow> string \<Rightarrow> NetworkConfig option \<Rightarrow> 'f config \<Rightarrow> 'f config res" where
  "nicConfig L s n c =
     (case n of None \<Rightarrow> Inl Panic
      | Some n \<Rightarrow>
        let set1 = (\<lambda>key. config_set L s (ckey ChannelONE [''ptp_synce'', ''ethernet'', key]));
            set2 = (\<lambda>key. config_set L s (ckey ChannelTWO [''ptp_synce'', ''ethernet'', key]));
            c = set1 ''gateway'' (IP_String L (Gw1 n)) c;
            c = set1 ''gateway_ipv6'' (IP_String L (Gw1 n)) c;
            c = set1 ''ip_address'' (IP_String L (Eth1 n)) c;
            c = set1 ''ip_address_ipv6'' (IP_String L (Eth1 n)) c;
            c = set1 ''mask'' ''64'' c;
            c = set2 ''gateway'' (IP_String L (Gw2 n)) c;
            c = set2 ''gateway_ipv6'' (IP_String L (Gw2 n)) c;
            c = set2 ''ip_address'' (IP_String L (Eth2 n)) c;
            c = set2 ''ip_address_ipv6'' (IP_String L (Eth2 n)) c;
            c = set2 ''mask'' ''64'' c
        in Ok c)"

definition baseConfig :: "('b, 'f) libs \<Rightarrow> string \<Rightarrow> 'f config \<Rightarrow> 'f config" where
  "baseConfig L s c =
     (let set12 = chSet L s ChannelONE ChannelTWO;
          c = set12 [''synce_enabled''] OFF c;
          c = set12 [''ptp_synce'', ''ethernet'', ''dhcp''] OFF c;
          c = set12 [''ptp_synce'', ''ntp'', ''normalize_delays''] OFF c;
          c = set12 [''ptp_synce'', ''ntp'', ''protocol_level''] ''UDP/IPv6'' c;
          c = set12 [''ptp_synce'', ''ptp'', ''protocol_level''] ''UDP/IPv6'' c;
          c = set12 [''ptp_synce'', ''ntp'', ''poll_log_interval''] ''1 packet/64 s'' c;
          c = set12 [''ptp_synce'', ''ptp'', ''log_announce_int''] ''1 packet/s'' c;
          c = set12 [''ptp_synce'', ''ptp'', ''log_delay_req_int''] ''1 packet/s'' c;
          c = set12 [''ptp_synce'', ''ptp'', ''log_sync_int''] ''1 packet/s'' c;
          c = set12 [''ptp_synce'', ''ptp'', ''stack_mode''] ''Unicast'' c;
          c = set12 [''ptp_synce'', ''ptp'', ''domain''] ''0'' c;
          c = set12 [''ptp_synce'', ''ptp'', ''dscp''] ''0'' c;
          c = config_set L s ''continuous'' ON c;
          c = config_set L s ''meas_time'' ''1 days 1 hours'' c
      in config_set L s ''tie_mode'' ''TIE + 1 PPS TE'' c)"

section \<open>Configuring a device\<close>

definition calnex_Config :: "('b, 'f) libs \<Rightarrow> ('w, 'b) net \<Rightarrow> string \<Rightarrow> bool \<Rightarrow> NetworkConfig option \<Rightarrow> CalnexConfig \<Rightarrow> Channel list \<Rightarrow> bool \<Rightarrow>
    ('w, unit) call" where
  "calnex_Config L net target insecureTLS n cc chs apply =
     (let a = NewAPI target insecureTLS in
      bind_call (FetchSettings L net a) (\<lambda>f.
      bind_call (ret_call (nicConfig L ''measure'' n (baseConfig L ''measure'' (False, f)))) (\<lambda>c.
      let (changed, f) = measureConfig L ''measure'' cc chs c in
      if \<not> apply then ret_call (Ok ())
      else bind_call (FetchStatus L net a) (\<lambda>status.
        bind_call
          (if changed then
             bind_call (if MeasurementActive status then StopMeasure L net a else ret_call (Ok ())) (\<lambda>_.
             PushSettings L net a f)
           else ret_call (Ok ())) (\<lambda>_.
        if changed \<or> \<not> MeasurementActive status then StartMeasure L net a else ret_call (Ok ()))))))"

section \<open>What the settings become\<close>

text \<open>
  The laws of the INI library the configuration rests on: looking a key up changes no value, and setting a key changes its
  value and no other.
\<close>

definition ini_laws :: "('b, 'f) libs \<Rightarrow> bool" where
  "ini_laws L \<longleftrightarrow>
     (\<forall>s k s' k' f. ini_Value L s k (ini_Key L s' k' f) = ini_Value L s k f) \<and>
     (\<forall>s k s' k' v f. ini_Value L s k (ini_SetValue L s' k' v f) = (if s = s' \<and> k = k' then v else ini_Value L s k f))"

definition set_all :: "('b, 'f) libs \<Rightarrow> string \<Rightarrow> (string \<times> string) list \<Rightarrow> 'f config \<Rightarrow> 'f config" where
  "set_all L s kvs c = foldl (\<lambda>c (k, v). config_set L s k v c) c kvs"

definition consistent :: "('k \<times> 'v) set \<Rightarrow> bool" where
  "consistent kvs \<longleftrightarrow> (\<forall>k v v'. (k, v) \<in> kvs \<longrightarrow> (k, v') \<in> kvs \<longrightarrow> v = v')"

lemma set_all_append [simp]: "set_all L s (xs @ ys) c = set_all L s ys (set_all L s xs c)"
  by (simp add: set_all_def)

lemma set_all_Cons: "config_set L s k v c = set_all L s [(k, v)] c"
  by (simp add: set_all_def)

lemma config_set_value:
  assumes "ini_laws L"
  shows "ini_Value L s k (snd (config_set L s k' v c)) = (if k = k' then v else ini_Value L s k (snd c))"
    and "fst (config_set L s k' v c) \<longleftrightarrow> fst c \<or> ini_Value L s k' (snd c) \<noteq> v"
  using assms by (auto simp: config_set_def ini_laws_def Let_def)

lemma config_set_other_section:
  "ini_laws L \<Longrightarrow> s' \<noteq> s \<Longrightarrow> ini_Value L s' k (snd (config_set L s k' v c)) = ini_Value L s' k (snd c)"
  by (auto simp: config_set_def ini_laws_def Let_def)

text \<open>Setting a consistent list of keys: each has its value, no other changes, and the flag says whether one differed.\<close>

lemma set_all_values:
  assumes "ini_laws L" and "consistent (set kvs)"
  shows "((k, v) \<in> set kvs \<longrightarrow> ini_Value L s k (snd (set_all L s kvs c)) = v) \<and>
    (k \<notin> fst ` set kvs \<longrightarrow> ini_Value L s k (snd (set_all L s kvs c)) = ini_Value L s k (snd c)) \<and>
    (fst (set_all L s kvs c) \<longleftrightarrow> fst c \<or> (\<exists>(k, v)\<in>set kvs. ini_Value L s k (snd c) \<noteq> v))"
  using assms(2)
proof (induction kvs arbitrary: k v rule: rev_induct)
  case (snoc e kvs)
  obtain k0 v0 where e: "e = (k0, v0)" by (cases e)
  have c: "consistent (set kvs)" and agree: "\<And>v. (k0, v) \<in> set kvs \<Longrightarrow> v = v0"
    using snoc.prems by (auto simp: consistent_def e)
  obtain c' where c': "c' = set_all L s kvs c" by simp
  have step: "set_all L s (kvs @ [e]) c = config_set L s k0 v0 c'" by (simp add: set_all_def e c')
  have v0: "ini_Value L s k0 (snd c') = (if k0 \<in> fst ` set kvs then v0 else ini_Value L s k0 (snd c))"
    using snoc.IH [OF c, of k0] agree by (force simp: c')
  have ch: "fst c' \<longleftrightarrow> fst c \<or> (\<exists>(k, v)\<in>set kvs. ini_Value L s k (snd c) \<noteq> v)" using snoc.IH [OF c] by (simp add: c')
  have "fst (config_set L s k0 v0 c') \<longleftrightarrow> fst c' \<or> ini_Value L s k0 (snd c') \<noteq> v0" by (rule config_set_value [OF assms(1)])
  also have "\<dots> \<longleftrightarrow> fst c \<or> (\<exists>(k, v)\<in>set (kvs @ [e]). ini_Value L s k (snd c) \<noteq> v)"
    unfolding v0 ch using agree by (auto simp: e split: if_splits)
  finally have flag: "fst (config_set L s k0 v0 c') \<longleftrightarrow> fst c \<or> (\<exists>(k, v)\<in>set (kvs @ [e]). ini_Value L s k (snd c) \<noteq> v)" .
  have val: "ini_Value L s k (snd (config_set L s k0 v0 c')) = (if k = k0 then v0 else ini_Value L s k (snd c'))"
    by (rule config_set_value [OF assms(1)])
  show ?case unfolding step flag val using snoc.IH [OF c, of k v] agree by (auto simp: e c')
qed (simp add: set_all_def)

section \<open>The wanted settings\<close>

definition base_table :: "(string list \<times> string) list" where
  "base_table =
     [([''synce_enabled''], ''Off''),
      ([''ptp_synce'', ''ethernet'', ''dhcp''], ''Off''),
      ([''ptp_synce'', ''ntp'', ''normalize_delays''], ''Off''),
      ([''ptp_synce'', ''ntp'', ''protocol_level''], ''UDP/IPv6''),
      ([''ptp_synce'', ''ptp'', ''protocol_level''], ''UDP/IPv6''),
      ([''ptp_synce'', ''ntp'', ''poll_log_interval''], ''1 packet/64 s''),
      ([''ptp_synce'', ''ptp'', ''log_announce_int''], ''1 packet/s''),
      ([''ptp_synce'', ''ptp'', ''log_delay_req_int''], ''1 packet/s''),
      ([''ptp_synce'', ''ptp'', ''log_sync_int''], ''1 packet/s''),
      ([''ptp_synce'', ''ptp'', ''stack_mode''], ''Unicast''),
      ([''ptp_synce'', ''ptp'', ''domain''], ''0''),
      ([''ptp_synce'', ''ptp'', ''dscp''], ''0'')]"

definition plain_table :: "(string \<times> string) list" where
  "plain_table = [(''continuous'', ''On''), (''meas_time'', ''1 days 1 hours''), (''tie_mode'', ''TIE + 1 PPS TE'')]"

definition nic_table :: "string \<Rightarrow> string \<Rightarrow> (string list \<times> string) list" where
  "nic_table gw eth =
     [([''ptp_synce'', ''ethernet'', ''gateway''], gw), ([''ptp_synce'', ''ethernet'', ''gateway_ipv6''], gw),
      ([''ptp_synce'', ''ethernet'', ''ip_address''], eth), ([''ptp_synce'', ''ethernet'', ''ip_address_ipv6''], eth),
      ([''ptp_synce'', ''ethernet'', ''mask''], ''64'')]"

definition nic_of :: "('b, 'f) libs \<Rightarrow> NetworkConfig \<Rightarrow> Channel \<Rightarrow> (string list \<times> string) list" where
  "nic_of L n ch = (if ch = ChannelONE then nic_table (IP_String L (Gw1 n)) (IP_String L (Eth1 n))
                    else nic_table (IP_String L (Gw2 n)) (IP_String L (Eth2 n)))"

definition probe_table :: "MeasureConfig \<Rightarrow> (string list \<times> string) list" where
  "probe_table m = ([''ptp_synce'', ''mode'', ''probe_type''], CalnexName (mc_Probe m)) #
     (if mc_Probe m = ProbeNTP
      then [([''ptp_synce'', ''ntp'', ''server_ip''], Target m), ([''ptp_synce'', ''ntp'', ''server_ip_ipv6''], Target m)]
      else if mc_Probe m = ProbePTP
      then [([''ptp_synce'', ''ptp'', ''master_ip''], Target m), ([''ptp_synce'', ''ptp'', ''master_ip_ipv6''], Target m)]
      else [])"

definition used_table :: "bool \<Rightarrow> (string list \<times> string) list" where
  "used_table b = [([''used''], if b then ''Yes'' else ''No''), ([''protocol_enabled''], if b then ''On'' else ''Off'')]"

text \<open>The settings of one channel: those of every network port, those of its entry in the configuration, and whether it is used.\<close>

definition channel_settings ::
  "('b, 'f) libs \<Rightarrow> NetworkConfig \<Rightarrow> (Channel \<rightharpoonup> MeasureConfig) \<Rightarrow> Channel set \<Rightarrow> Channel \<Rightarrow> (string list \<times> string) list" where
  "channel_settings L n cc chs ch =
     (if ch \<in> {ChannelONE, ChannelTWO} then base_table @ nic_of L n ch else []) @
     (case cc ch of None \<Rightarrow> [] | Some m \<Rightarrow> probe_table m) @
     (if ch \<in> chs then used_table (cc ch \<noteq> None) else [])"

definition wanted :: "('b, 'f) libs \<Rightarrow> NetworkConfig \<Rightarrow> (Channel \<rightharpoonup> MeasureConfig) \<Rightarrow> Channel set \<Rightarrow> (string \<times> string) set" where
  "wanted L n cc chs = {(ckey ch ps, v) | ch ps v. (ps, v) \<in> set (channel_settings L n cc chs ch)} \<union> set plain_table"

abbreviation keyed :: "Channel \<Rightarrow> (string list \<times> string) list \<Rightarrow> (string \<times> string) list" where
  "keyed ch t \<equiv> map (\<lambda>(ps, v). (ckey ch ps, v)) t"

lemma baseConfig_set_all:
  "baseConfig L s c = set_all L s (concat (map (\<lambda>(ps, v). [(ckey ChannelONE ps, v), (ckey ChannelTWO ps, v)]) base_table) @ plain_table) c"
proof -
  have "[6..7::int] = [6, 7]" by (simp add: upto.simps)
  then show ?thesis by (simp add: baseConfig_def chSet_def set_all_def base_table_def plain_table_def Let_def)
qed

lemma nicConfig_set_all:
  "nicConfig L s (Some n) c = Ok (set_all L s (keyed ChannelONE (nic_of L n ChannelONE) @ keyed ChannelTWO (nic_of L n ChannelTWO)) c)"
  by (simp add: nicConfig_def set_all_def nic_of_def nic_table_def Let_def)

lemma measure_channel_set_all: "measure_channel L s c (ch, m) = set_all L s (keyed ch (probe_table m)) c"
  by (simp add: measure_channel_def set_all_def probe_table_def Let_def)

lemma enable_channel_set_all: "enable_channel L s en c ch = set_all L s (keyed ch (used_table (ch \<in> en))) c"
  by (simp add: enable_channel_def set_all_def used_table_def Let_def)

lemma foldl_set_all:
  "(\<And>c x. step c x = set_all L s (g x) c) \<Longrightarrow> foldl step c xs = set_all L s (concat (map g xs)) c"
  by (induction xs arbitrary: c) (simp_all add: set_all_def)

lemma measureConfig_set_all:
  "measureConfig L s cc chs c =
     set_all L s (concat (map (\<lambda>(ch, m). keyed ch (probe_table m)) cc) @ concat (map (\<lambda>ch. keyed ch (used_table (ch \<in> fst ` set cc))) chs)) c"
proof -
  have "foldl (measure_channel L s) c cc = set_all L s (concat (map (\<lambda>(ch, m). keyed ch (probe_table m)) cc)) c"
    by (rule foldl_set_all) (auto simp: measure_channel_set_all)
  moreover have "foldl (enable_channel L s en) c chs = set_all L s (concat (map (\<lambda>ch. keyed ch (used_table (ch \<in> en))) chs)) c" for en c
    by (rule foldl_set_all) (rule enable_channel_set_all)
  ultimately show ?thesis by (simp add: measureConfig_def Let_def)
qed

definition all_settings :: "('b, 'f) libs \<Rightarrow> NetworkConfig \<Rightarrow> CalnexConfig \<Rightarrow> Channel list \<Rightarrow> (string \<times> string) list" where
  "all_settings L n cc chs =
     (concat (map (\<lambda>(ps, v). [(ckey ChannelONE ps, v), (ckey ChannelTWO ps, v)]) base_table) @ plain_table) @
     (keyed ChannelONE (nic_of L n ChannelONE) @ keyed ChannelTWO (nic_of L n ChannelTWO)) @
     (concat (map (\<lambda>(ch, m). keyed ch (probe_table m)) cc) @ concat (map (\<lambda>ch. keyed ch (used_table (ch \<in> fst ` set cc))) chs))"

text \<open>The passes of \<open>Config\<close> over the file set exactly the wanted settings, whatever the order of the maps.\<close>

lemma set_all_settings:
  assumes "distinct (map fst cc)"
  shows "set (all_settings L n cc chs) = wanted L n (map_of cc) (set chs)"
proof -
  have cc: "ch \<in> fst ` set cc \<longleftrightarrow> map_of cc ch \<noteq> None" "(ch, m) \<in> set cc \<longleftrightarrow> map_of cc ch = Some m" for ch m
    using assms by (auto simp: map_of_eq_None_iff)
  have w: "(ps, v) \<in> set (channel_settings L n (map_of cc) (set chs) ch) \<longleftrightarrow>
      ch \<in> {ChannelONE, ChannelTWO} \<and> ((ps, v) \<in> set base_table \<or> (ps, v) \<in> set (nic_of L n ch)) \<or>
      (\<exists>m. (ch, m) \<in> set cc \<and> (ps, v) \<in> set (probe_table m)) \<or>
      ch \<in> set chs \<and> (ps, v) \<in> set (used_table (ch \<in> fst ` set cc))" for ch ps v
    unfolding cc by (cases "map_of cc ch") (simp_all add: channel_settings_def)
  have "(k, v) \<in> set (all_settings L n cc chs) \<longleftrightarrow> (k, v) \<in> wanted L n (map_of cc) (set chs)" for k v
    unfolding wanted_def w all_settings_def by (simp add: image_iff split_beta, simp add: Bex_def split_paired_Ex) blast
  then show ?thesis by auto
qed

lemmas setting_tables = base_table_def nic_of_def nic_table_def probe_table_def used_table_def

lemma distinct_optional:
  "distinct (b @ p @ u) \<Longrightarrow> distinct ((if x then b else []) @ p @ (if y then u else []))"
  by auto

lemma channel_settings_distinct: "distinct (map fst (channel_settings L n cc chs ch))"
proof -
  obtain t where t: "t = (case cc ch of None \<Rightarrow> [] | Some m \<Rightarrow> probe_table m)" by simp
  have "distinct (map fst (base_table @ nic_of L n ch @ probe_table m @ used_table b))" for m b
    by (cases "mc_Probe m = ProbeNTP"; cases "mc_Probe m = ProbePTP"; simp add: setting_tables)
  moreover have "distinct (map fst (base_table @ nic_of L n ch @ used_table b))" for b by (simp add: setting_tables)
  ultimately have "distinct (map fst (base_table @ nic_of L n ch) @ map fst t @ map fst (used_table b))" for b
    by (cases "cc ch") (simp_all add: t)
  note distinct_optional [OF this [of "cc ch \<noteq> None"], of "ch \<in> {ChannelONE, ChannelTWO}" "ch \<in> chs"]
  moreover have "map fst (channel_settings L n cc chs ch) =
      (if ch \<in> {ChannelONE, ChannelTWO} then map fst (base_table @ nic_of L n ch) else []) @ map fst t @
      (if ch \<in> chs then map fst (used_table (cc ch \<noteq> None)) else [])"
    unfolding channel_settings_def t by simp
  ultimately show ?thesis by (simp only:)
qed

lemma channel_settings_parts: "(ps, v) \<in> set (channel_settings L n cc chs ch) \<Longrightarrow> list_all (\<lambda>p. CHR 0x5C \<notin> set p) ps \<and> ps \<noteq> []"
  by (auto simp: channel_settings_def setting_tables split: if_splits option.splits)

lemma ckey_not_plain: "(ckey ch ps, v) \<notin> set plain_table"
  by (simp add: ckey_def CalnexAPI_def plain_table_def)

lemma wanted_consistent: "consistent (wanted L n cc chs)"
  unfolding consistent_def
proof (intro allI impI)
  fix k v v' assume v: "(k, v) \<in> wanted L n cc chs" and v': "(k, v') \<in> wanted L n cc chs"
  show "v = v'"
  proof (cases "\<exists>x. (k, x) \<in> set plain_table")
    case True
    then have "\<not> (\<exists>ch ps. k = ckey ch ps)" using ckey_not_plain by blast
    then have "(k, v) \<in> set plain_table" "(k, v') \<in> set plain_table" using v v' by (auto simp: wanted_def)
    then show ?thesis by (auto simp: plain_table_def)
  next
    case False
    then have "\<exists>ch ps. k = ckey ch ps \<and> (ps, x) \<in> set (channel_settings L n cc chs ch)" if "(k, x) \<in> wanted L n cc chs" for x
      using that by (auto simp: wanted_def)
    then obtain ch ps ch' ps' where k: "k = ckey ch ps" "k = ckey ch' ps'"
      and s: "(ps, v) \<in> set (channel_settings L n cc chs ch)" "(ps', v') \<in> set (channel_settings L n cc chs ch')"
      using v v' by meson
    then have "ch = ch' \<and> ps = ps'"
      using ckey_eq_iff [of ps ps' ch ch'] channel_settings_parts [OF s(1)] channel_settings_parts [OF s(2)] by simp
    then show ?thesis using s channel_settings_distinct [of L n cc chs ch] by (metis eq_key_imp_eq_value)
  qed
qed

definition passes :: "('b, 'f) libs \<Rightarrow> NetworkConfig \<Rightarrow> CalnexConfig \<Rightarrow> Channel list \<Rightarrow> 'f \<Rightarrow> 'f config" where
  "passes L n cc chs f = set_all L ''measure'' (all_settings L n cc chs) (False, f)"

lemma config_passes:
  "bind_res (nicConfig L ''measure'' (Some n) (baseConfig L ''measure'' (False, f))) (\<lambda>c. Ok (measureConfig L ''measure'' cc chs c)) =
     Ok (passes L n cc chs f)"
  by (simp add: baseConfig_set_all nicConfig_set_all measureConfig_set_all passes_def all_settings_def)

lemma passes_values:
  assumes "ini_laws L" and "distinct (map fst cc)"
  shows "(k, v) \<in> wanted L n (map_of cc) (set chs) \<Longrightarrow> ini_Value L ''measure'' k (snd (passes L n cc chs f)) = v"
    and "k \<notin> fst ` wanted L n (map_of cc) (set chs) \<Longrightarrow> ini_Value L ''measure'' k (snd (passes L n cc chs f)) = ini_Value L ''measure'' k f"
    and "fst (passes L n cc chs f) \<longleftrightarrow> (\<exists>(k, v)\<in>wanted L n (map_of cc) (set chs). ini_Value L ''measure'' k f \<noteq> v)"
proof -
  have "consistent (set (all_settings L n cc chs))" by (simp add: set_all_settings [OF assms(2)] wanted_consistent)
  note set_all_values [OF assms(1) this, where c = "(False, f)" and s = "''measure''", unfolded set_all_settings [OF assms(2)], folded passes_def]
  from this [of k v] this [of k]
  show "(k, v) \<in> wanted L n (map_of cc) (set chs) \<Longrightarrow> ini_Value L ''measure'' k (snd (passes L n cc chs f)) = v"
    "k \<notin> fst ` wanted L n (map_of cc) (set chs) \<Longrightarrow> ini_Value L ''measure'' k (snd (passes L n cc chs f)) = ini_Value L ''measure'' k f"
    "fst (passes L n cc chs f) \<longleftrightarrow> (\<exists>(k, v)\<in>wanted L n (map_of cc) (set chs). ini_Value L ''measure'' k f \<noteq> v)"
    by simp_all
qed

text \<open>
  What the three passes of \<open>Config\<close> make of the settings a device has. Every wanted setting has its value afterwards, every other
  key keeps its own, and the flag is raised exactly if a wanted setting differed; the order in which the run-time walks the maps
  makes no difference. The wanted settings are the table above: no two passes set a key to different values.
\<close>
theorem Config_settings:
  assumes "ini_laws L" and "distinct (map fst cc)"
  shows "\<exists>c changed f'. nicConfig L ''measure'' (Some n) (baseConfig L ''measure'' (False, f)) = Ok c \<and>
    measureConfig L ''measure'' cc chs c = (changed, f') \<and>
    (\<forall>(k, v)\<in>wanted L n (map_of cc) (set chs). ini_Value L ''measure'' k f' = v) \<and>
    (\<forall>k. k \<notin> fst ` wanted L n (map_of cc) (set chs) \<longrightarrow> ini_Value L ''measure'' k f' = ini_Value L ''measure'' k f) \<and>
    (changed \<longleftrightarrow> (\<exists>(k, v)\<in>wanted L n (map_of cc) (set chs). ini_Value L ''measure'' k f \<noteq> v))"
proof -
  obtain c where c: "nicConfig L ''measure'' (Some n) (baseConfig L ''measure'' (False, f)) = Ok c"
    and p: "measureConfig L ''measure'' cc chs c = passes L n cc chs f"
    using config_passes [of L n f cc chs] by (auto simp: bind_res_Ok_iff)
  obtain changed f' where pf: "passes L n cc chs f = (changed, f')" by fastforce
  show ?thesis using c p passes_values [OF assms, where n = n and chs = chs and f = f]
    by (intro exI [of _ c] exI [of _ changed] exI [of _ f']) (auto simp: pf)
qed

section \<open>The requests of a configuration\<close>

definition config_requests :: "string \<Rightarrow> bool \<Rightarrow> bool \<Rightarrow> bool \<Rightarrow> string \<Rightarrow> request list" where
  "config_requests src apply changed active body =
     Get (getSettingsURL src) #
     (if \<not> apply then []
      else Get (getStatusURL src) #
        (if changed then (if active then [Get (stopMeasure src)] else []) @ [Post (setSettingsURL src) body] else []) @
        (if changed \<or> \<not> active then [Get (startMeasure src)] else []))"

text \<open>The part of \<open>Config\<close> after the settings are fetched and compared.\<close>

definition apply_config :: "('b, 'f) libs \<Rightarrow> ('w, 'b) net \<Rightarrow> API \<Rightarrow> 'f config \<Rightarrow> ('w, unit) call" where
  "apply_config L net a c =
     bind_call (FetchStatus L net a) (\<lambda>status.
     bind_call
       (if fst c then
          bind_call (if MeasurementActive status then StopMeasure L net a else ret_call (Ok ())) (\<lambda>_. PushSettings L net a (snd c))
        else ret_call (Ok ())) (\<lambda>_.
     if fst c \<or> \<not> MeasurementActive status then StartMeasure L net a else ret_call (Ok ())))"

lemma Config_eq:
  fixes net :: "('w, 'b) net" and L :: "('b, 'f) libs"
  shows "calnex_Config L net src tls (Some n) cc chs apply =
     bind_call (FetchSettings L net (NewAPI src tls)) (\<lambda>f.
       if \<not> apply then ret_call (Ok ()) else apply_config L net (NewAPI src tls) (passes L n cc chs f))"
proof -
  have key: "bind_call (ret_call (nicConfig L ''measure'' (Some n) (baseConfig L ''measure'' (False, f)))) (\<lambda>c. k (measureConfig L ''measure'' cc chs c)) =
      k (passes L n cc chs f)" for f and k :: "'f config \<Rightarrow> ('w, unit) call"
  proof -
    obtain c where "nicConfig L ''measure'' (Some n) (baseConfig L ''measure'' (False, f)) = Ok c"
      and "measureConfig L ''measure'' cc chs c = passes L n cc chs f"
      using config_passes [of L n f cc chs] by (auto simp: bind_res_Ok_iff)
    then show ?thesis by (simp add: bind_call_def ret_call_def fun_eq_iff)
  qed
  show ?thesis
    using key [where k = "\<lambda>c. if \<not> apply then ret_call (Ok ()) else apply_config L net (NewAPI src tls) c"]
    by (cases "apply") (simp_all add: calnex_Config_def apply_config_def Let_def case_prod_unfold)
qed

text \<open>A call on the recorded network that sends these requests, or fewer if it fails.\<close>

definition logs :: "'w \<times> request list \<Rightarrow> 'a res \<times> ('w \<times> request list) \<Rightarrow> request list \<Rightarrow> bool" where
  "logs s rs rqs \<longleftrightarrow> (\<exists>d. snd (snd rs) = snd s @ d \<and> prefix d rqs \<and> ((\<exists>x. fst rs = Ok x) \<longrightarrow> d = rqs))"

definition requests :: "('w \<times> request list, 'a) call \<Rightarrow> request list \<Rightarrow> bool" where
  "requests call rqs \<longleftrightarrow> (\<forall>s. logs s (call s) rqs)"

lemma requestsD: "requests call rqs \<Longrightarrow> logs s (call s) rqs"
  unfolding requests_def by blast

lemma requests_ret: "requests (ret_call r) []"
  by (simp add: requests_def logs_def ret_call_def)

lemma requests_one: "(\<And>s r s'. call s = (r, s') \<Longrightarrow> snd s' = snd s @ [rq]) \<Longrightarrow> requests call [rq]"
  unfolding requests_def logs_def
proof (intro allI exI conjI impI)
  fix s assume one: "\<And>s r s'. call s = (r, s') \<Longrightarrow> snd s' = snd s @ [rq]"
  show "snd (snd (call s)) = snd s @ [rq]" using one [OF surjective_pairing] by simp
qed simp_all

lemma logs_bind:
  assumes "logs s (m s) xs" and "\<And>x s'. m s = (Ok x, s') \<Longrightarrow> logs s' (f x s') ys"
  shows "logs s (bind_call m f s) (xs @ ys)"
proof -
  obtain r s' where Pair: "m s = (r, s')" by (cases "m s")
  show ?thesis
  proof (cases r)
    case (Inl e)
    with Pair assms(1) show ?thesis by (auto simp: logs_def bind_call_def)
  next
    case (Inr x)
    with Pair assms(1) have "snd s' = snd s @ xs" by (auto simp: logs_def)
    then show ?thesis using assms(2) [of x s'] Inr Pair by (auto simp: logs_def bind_call_def)
  qed
qed

lemma requests_bind: "requests m xs \<Longrightarrow> (\<And>x. requests (f x) ys) \<Longrightarrow> requests (bind_call m f) (xs @ ys)"
  unfolding requests_def by (blast intro: logs_bind)

lemma requests_FetchSettings: "requests (FetchSettings L (recorded net) a) [Get (getSettingsURL (source a))]"
  by (rule requests_one) (rule settings_log.log_extends)

lemma requests_FetchStatus: "requests (FetchStatus L (recorded net) a) [Get (getStatusURL (source a))]"
  by (rule requests_one) (rule status_log.log_extends)

lemma requests_StartMeasure: "requests (StartMeasure L (recorded net) a) [Get (startMeasure (source a))]"
  by (rule requests_one) (rule start_log.log_extends)

lemma requests_StopMeasure: "requests (StopMeasure L (recorded net) a) [Get (stopMeasure (source a))]"
  by (rule requests_one) (rule stop_log.log_extends)

definition settings_body :: "('b, 'f) libs \<Rightarrow> 'f \<Rightarrow> string" where
  "settings_body L f = (case ini_WriteTo L f of Inl _ \<Rightarrow> [] | Inr buf \<Rightarrow> buf)"

lemma requests_PushSettings: "requests (PushSettings L (recorded net) a f) [Post (setSettingsURL (source a)) (settings_body L f)]"
proof (cases "ini_WriteTo L f")
  case (Inl e)
  then show ?thesis by (simp add: requests_def logs_def PushSettings_def)
next
  case (Inr buf)
  show ?thesis
    by (rule requests_one) (metis Inr PushSettings_eq post_log.log_extends settings_body_def sum.simps(6))
qed

lemma stop_push:
  "requests (bind_call (StopMeasure L (recorded net) a) (\<lambda>_. PushSettings L (recorded net) a f))
     [Get (stopMeasure (source a)), Post (setSettingsURL (source a)) (settings_body L f)]"
  using requests_bind [OF requests_StopMeasure [of L net a] requests_PushSettings [of L net a f]] by simp

lemma apply_config_requests:
  "\<exists>active. logs s (apply_config L (recorded net) a c s) (tl (config_requests (source a) True (fst c) active (settings_body L (snd c))))"
proof -
  obtain r s1 where st: "FetchStatus L (recorded net) a s = (r, s1)" by (cases "FetchStatus L (recorded net) a s")
  obtain active where act: "\<And>status. r = Ok status \<Longrightarrow> active = MeasurementActive status" by (cases r) auto
  obtain rest where rest: "rest =
     (if fst c then (if active then [Get (stopMeasure (source a))] else []) @ [Post (setSettingsURL (source a)) (settings_body L (snd c))] else []) @
     (if fst c \<or> \<not> active then [Get (startMeasure (source a))] else [])" by simp
  have tail: "requests
     (bind_call
       (if fst c then
          bind_call (if MeasurementActive status then StopMeasure L (recorded net) a else ret_call (Ok ())) (\<lambda>_. PushSettings L (recorded net) a (snd c))
        else ret_call (Ok ())) (\<lambda>_.
     if fst c \<or> \<not> MeasurementActive status then StartMeasure L (recorded net) a else ret_call (Ok ()))) rest"
    if "active = MeasurementActive status" for status
    unfolding rest that
    by (intro requests_bind) (auto intro!: requests_ret requests_StartMeasure stop_push requests_PushSettings)
  have "logs s (apply_config L (recorded net) a c s) ([Get (getStatusURL (source a))] @ rest)"
    unfolding apply_config_def
  proof (rule logs_bind)
    show "logs s (FetchStatus L (recorded net) a s) [Get (getStatusURL (source a))]"
      by (rule requestsD [OF requests_FetchStatus])
  qed (rule requestsD [OF tail], rule act, use st in simp)
  then show ?thesis by (intro exI [of _ active]) (simp add: config_requests_def rest)
qed


section \<open>A device that follows the protocol\<close>

text \<open>
  A device behind the network that answers the requests: it has settings and a measurement that runs or not, tells both, stops
  and starts the measurement and takes new settings; only while no measurement runs is it required to take them.
\<close>

definition answers_result :: "('b, 'f) libs \<Rightarrow> 'b http_Response res \<Rightarrow> bool" where
  "answers_result L r \<longleftrightarrow> (\<exists>b x. r = Ok \<lparr>StatusCode = 200, Body = b\<rparr> \<and> json_Result L b = Ok x \<and> Result_Result x)"

definition calnex_device :: "('b, 'f) libs \<Rightarrow> ('w, 'b) net \<Rightarrow> API \<Rightarrow> ('w \<Rightarrow> 'f) \<Rightarrow> ('w \<Rightarrow> bool) \<Rightarrow> bool" where
  "calnex_device L net a settings active \<longleftrightarrow> (\<forall>w.
     (\<exists>b. net (Client a) (Get (getSettingsURL (source a))) w = (Ok \<lparr>StatusCode = 200, Body = b\<rparr>, w) \<and> ini_Load L b = Ok (settings w)) \<and>
     (\<exists>b st. net (Client a) (Get (getStatusURL (source a))) w = (Ok \<lparr>StatusCode = 200, Body = b\<rparr>, w) \<and>
        json_Status L b = Ok st \<and> MeasurementActive st = active w) \<and>
     (\<exists>r w'. net (Client a) (Get (stopMeasure (source a))) w = (r, w') \<and> answers_result L r \<and> settings w' = settings w \<and> \<not> active w') \<and>
     (\<exists>r w'. net (Client a) (Get (startMeasure (source a))) w = (r, w') \<and> answers_result L r \<and> settings w' = settings w \<and> active w') \<and>
     (\<forall>f buf. ini_WriteTo L f = Ok buf \<longrightarrow> \<not> active w \<longrightarrow>
        (\<exists>r w'. net (Client a) (Post (setSettingsURL (source a)) buf) w = (r, w') \<and> answers_result L r \<and>
           (\<forall>s k. ini_Value L s k (settings w') = ini_Value L s k f) \<and> \<not> active w')))"

lemma answers_resultE:
  assumes "answers_result L r"
  obtains b x where "r = Ok \<lparr>StatusCode = 200, Body = b\<rparr>" "json_Result L b = Ok x" "Result_Result x"
  using assms by (auto simp: answers_result_def)

lemma device_calls:
  assumes "calnex_device L net a settings active"
  shows "FetchSettings L net a w = (Ok (settings w), w)"
    and "\<exists>st. FetchStatus L net a w = (Ok st, w) \<and> MeasurementActive st = active w"
    and "\<exists>w'. StopMeasure L net a w = (Ok (), w') \<and> settings w' = settings w \<and> \<not> active w'"
    and "\<exists>w'. StartMeasure L net a w = (Ok (), w') \<and> settings w' = settings w \<and> active w'"
    and "ini_WriteTo L f = Ok buf \<Longrightarrow> \<not> active w \<Longrightarrow>
      \<exists>w'. PushSettings L net a f w = (Ok (), w') \<and> (\<forall>s k. ini_Value L s k (settings w') = ini_Value L s k f) \<and> \<not> active w'"
proof -
  note d = assms [unfolded calnex_device_def, rule_format, of w]
  show "FetchSettings L net a w = (Ok (settings w), w)"
    using d by (auto simp: FetchSettings_def fetch_eq check_status_def)
  show "\<exists>st. FetchStatus L net a w = (Ok st, w) \<and> MeasurementActive st = active w"
    using d by (auto simp: FetchStatus_def fetch_eq check_status_def)
  obtain r w' where "net (Client a) (Get (stopMeasure (source a))) w = (r, w')" "answers_result L r" "settings w' = settings w" "\<not> active w'"
    using d by blast
  then show "\<exists>w'. StopMeasure L net a w = (Ok (), w') \<and> settings w' = settings w \<and> \<not> active w'"
    by (auto simp: StopMeasure_def get_def fetch_eq check_status_def elim!: answers_resultE)
  obtain r w' where "net (Client a) (Get (startMeasure (source a))) w = (r, w')" "answers_result L r" "settings w' = settings w" "active w'"
    using d by blast
  then show "\<exists>w'. StartMeasure L net a w = (Ok (), w') \<and> settings w' = settings w \<and> active w'"
    by (auto simp: StartMeasure_def get_def fetch_eq check_status_def elim!: answers_resultE)
  assume buf: "ini_WriteTo L f = Ok buf" and "\<not> active w"
  then obtain r w' where "net (Client a) (Post (setSettingsURL (source a)) buf) w = (r, w')" "answers_result L r"
    "\<forall>s k. ini_Value L s k (settings w') = ini_Value L s k f" "\<not> active w'"
    using d by blast
  then show "\<exists>w'. PushSettings L net a f w = (Ok (), w') \<and> (\<forall>s k. ini_Value L s k (settings w') = ini_Value L s k f) \<and> \<not> active w'"
    by (auto simp: PushSettings_eq [OF buf] post_eq elim!: answers_resultE)
qed

lemma apply_config_device:
  assumes "calnex_device L net a settings active" and "ini_WriteTo L (snd c) = Ok buf"
  shows "\<exists>w'. apply_config L net a c w = (Ok (), w') \<and> active w' \<and> (\<not> fst c \<and> active w \<longrightarrow> w' = w) \<and>
    (\<forall>s k. ini_Value L s k (settings w') = ini_Value L s k (if fst c then snd c else settings w))"
proof -
  note d = device_calls [OF assms(1)]
  obtain st where st: "FetchStatus L net a w = (Ok st, w)" "MeasurementActive st = active w" using d(2) by blast
  obtain w1 where w1: "(if active w then StopMeasure L net a else ret_call (Ok ())) w = (Ok (), w1)" "settings w1 = settings w" "\<not> active w1"
    using d(3) [of w] by (cases "active w") (auto simp: ret_call_def)
  obtain w2 where w2: "PushSettings L net a (snd c) w1 = (Ok (), w2)" "\<And>s k. ini_Value L s k (settings w2) = ini_Value L s k (snd c)" "\<not> active w2"
    using d(5) [OF assms(2) w1(3)] by blast
  obtain w3 where w3: "StartMeasure L net a w2 = (Ok (), w3)" "settings w3 = settings w2" "active w3" using d(4) by blast
  obtain w4 where w4: "StartMeasure L net a w = (Ok (), w4)" "settings w4 = settings w" "active w4" using d(4) by blast
  show ?thesis
  proof (cases "fst c")
    case True
    then have "apply_config L net a c w = (Ok (), w3)"
      using st w1(1) w2(1) w3(1) by (simp add: apply_config_def bind_call_Ok)
    then show ?thesis using True w2 w3 by simp
  next
    case False
    then have "apply_config L net a c w = (Ok (), if active w then w else w4)"
      using st w4(1) by (simp add: apply_config_def bind_call_Ok [of "ret_call (Ok ())" w "()"] bind_call_Ok ret_call_def)
    then show ?thesis using False w4 by simp
  qed
qed

text \<open>
  C23: On a device that follows the protocol, \<open>Config\<close> with \<open>apply\<close> returns no error; afterwards every wanted setting has its value,
  every other setting of the section is the one the device had, and the measurement runs. A second run changes nothing: it sends
  no request that would change the device.
\<close>
theorem Config_converges:
  assumes "calnex_device L net (NewAPI src tls) settings active" and "ini_laws L" and "distinct (map fst cc)"
    and "\<forall>f. \<exists>buf. ini_WriteTo L f = Ok buf"
  shows "\<exists>w'. calnex_Config L net src tls (Some n) cc chs True w = (Ok (), w') \<and> active w' \<and>
    (\<forall>(k, v)\<in>wanted L n (map_of cc) (set chs). ini_Value L ''measure'' k (settings w') = v) \<and>
    (\<forall>k. k \<notin> fst ` wanted L n (map_of cc) (set chs) \<longrightarrow>
       ini_Value L ''measure'' k (settings w') = ini_Value L ''measure'' k (settings w)) \<and>
    calnex_Config L net src tls (Some n) cc chs True w' = (Ok (), w')"
proof -
  note pv = passes_values [OF assms(2,3), where n = n and chs = chs]
  obtain c where c: "c = passes L n cc chs (settings w)" by simp
  have run: "calnex_Config L net src tls (Some n) cc chs True v = apply_config L net (NewAPI src tls) (passes L n cc chs (settings v)) v" for v
    using device_calls(1) [OF assms(1)] by (simp add: Config_eq bind_call_Ok)
  have dev: "\<exists>w'. apply_config L net (NewAPI src tls) c w = (Ok (), w') \<and> active w' \<and> (\<not> fst c \<and> active w \<longrightarrow> w' = w) \<and>
      (\<forall>s k. ini_Value L s k (settings w') = ini_Value L s k (if fst c then snd c else settings w))" for c w
    using apply_config_device [OF assms(1)] assms(4) by metis
  obtain w' where w': "calnex_Config L net src tls (Some n) cc chs True w = (Ok (), w')" "active w'"
    "\<And>s k. ini_Value L s k (settings w') = ini_Value L s k (if fst c then snd c else settings w)"
    using dev [of c w] run [of w] by (auto simp: c)
  have vals: "ini_Value L ''measure'' k (settings w') = v" if "(k, v) \<in> wanted L n (map_of cc) (set chs)" for k v
    using that pv(1,3) by (auto simp: w'(3) c)
  moreover have "ini_Value L ''measure'' k (settings w') = ini_Value L ''measure'' k (settings w)"
    if "k \<notin> fst ` wanted L n (map_of cc) (set chs)" for k
    using that pv(2) by (simp add: w'(3) c)
  moreover have "\<not> fst (passes L n cc chs (settings w'))" using pv(3) vals by auto
  then have "calnex_Config L net src tls (Some n) cc chs True w' = (Ok (), w')"
    using dev [of "passes L n cc chs (settings w')" w'] w'(2) run [of w'] by auto
  ultimately show ?thesis using w'(1,2) by (intro exI [of _ w']) auto
qed

text \<open>
  A configuration without the network part, which the JSON file of \<open>calnex config\<close> may omit, is a nil pointer: \<open>Config\<close> panics as
  soon as the settings are fetched, in a dry run too.
\<close>
theorem Config_without_network_panics:
  assumes "FetchSettings L net (NewAPI src tls) w = (Ok f, w')"
  shows "calnex_Config L net src tls None cc chs apply w = (Inl Panic, w')"
  using assms by (simp add: calnex_Config_def Let_def bind_call_def ret_call_def nicConfig_def)

section \<open>A simulated device\<close>

text \<open>
  A device with the interface of the real one: the settings are a list of values by section and key, newest first, and travel as
  texts with their lengths before them. It refuses new settings while a measurement runs.
\<close>

type_synonym ini_list = "((string \<times> string) \<times> string) list"

datatype sim_body = Sim_settings ini_list | Sim_status bool | Sim_result bool

definition put_text :: "string \<Rightarrow> string" where
  "put_text s = replicate (length s) CHR ''1'' @ CHR ''0'' # s"

definition get_text :: "string \<Rightarrow> string \<times> string" where
  "get_text t = (let n = length (takeWhile (\<lambda>c. c = CHR ''1'') t); r = drop (n + 1) t in (take n r, drop n r))"

lemma get_put_text: "get_text (put_text s @ t) = (s, t)"
proof -
  have "takeWhile (\<lambda>c. c = CHR ''1'') (replicate n (CHR ''1'') @ CHR ''0'' # r) = replicate n (CHR ''1'')" for n r
    by (induction n) simp_all
  then show ?thesis by (simp add: get_text_def put_text_def Let_def)
qed

fun put_settings :: "ini_list \<Rightarrow> string" where
  "put_settings [] = []"
| "put_settings (((s, k), v) # f) = put_text s @ put_text k @ put_text v @ put_settings f"

fun get_settings :: "nat \<Rightarrow> string \<Rightarrow> ini_list" where
  "get_settings 0 t = []"
| "get_settings (Suc n) t =
     (if t = [] then []
      else let (s, t) = get_text t; (k, t) = get_text t; (v, t) = get_text t in ((s, k), v) # get_settings n t)"

lemma put_text_pos: "put_text s \<noteq> []" "0 < length (put_text s)"
  by (simp_all add: put_text_def)

lemma get_put_settings: "length (put_settings f) \<le> n \<Longrightarrow> get_settings n (put_settings f) = f"
proof (induction f arbitrary: n rule: put_settings.induct)
  case (2 s k v f)
  then obtain m where "n = Suc m" using put_text_pos(2) [of s] by (cases n) auto
  moreover have "length (put_settings f) \<le> m" using 2(2) calculation by (simp add: put_text_def)
  ultimately show ?case using 2(1) by (simp add: get_put_text put_text_pos)
qed (simp add: gr0_conv_Suc, metis get_settings.elims)

definition sim_libs :: "(sim_body, ini_list) libs" where
  "sim_libs = \<lparr>StatusText = (\<lambda>n. if n = 409 then ''Conflict'' else []), ReadAll = (\<lambda>_. Err ''no text''), csv_records = (\<lambda>_. []),
     json_Status = (\<lambda>b. case b of Sim_status act \<Rightarrow> Ok \<lparr>ReferenceReady = True, ModulesReady = True, MeasurementActive = act\<rparr> | _ \<Rightarrow> Err ''json''),
     json_Result = (\<lambda>b. case b of Sim_result ok \<Rightarrow> Ok \<lparr>Result_Result = ok, Result_Message = []\<rparr> | _ \<Rightarrow> Err ''json''),
     json_Version = (\<lambda>_. Err ''json''), LookupAddr = (\<lambda>_. Err ''no name''),
     ini_Load = (\<lambda>b. case b of Sim_settings f \<Rightarrow> Ok f | _ \<Rightarrow> Err ''ini''),
     ini_WriteTo = (\<lambda>f. Ok (put_settings f)), ini_Key = (\<lambda>s k f. f),
     ini_Value = (\<lambda>s k f. case map_of f (s, k) of None \<Rightarrow> [] | Some v \<Rightarrow> v), ini_SetValue = (\<lambda>s k v f. ((s, k), v) # f),
     IP_String = bytes_str\<rparr>"

definition sim_net :: "(ini_list \<times> bool, sim_body) net" where
  "sim_net cl rq w =
     (case rq of
        Get url \<Rightarrow>
          if url = getSettingsURL ''dev'' then (Ok \<lparr>StatusCode = 200, Body = Sim_settings (fst w)\<rparr>, w)
          else if url = getStatusURL ''dev'' then (Ok \<lparr>StatusCode = 200, Body = Sim_status (snd w)\<rparr>, w)
          else if url = stopMeasure ''dev'' then (Ok \<lparr>StatusCode = 200, Body = Sim_result True\<rparr>, (fst w, False))
          else if url = startMeasure ''dev'' then (Ok \<lparr>StatusCode = 200, Body = Sim_result True\<rparr>, (fst w, True))
          else (Err ''no route'', w)
      | Post url body \<Rightarrow>
          if url = setSettingsURL ''dev'' then
            if snd w then (Ok \<lparr>StatusCode = 409, Body = Sim_result False\<rparr>, w)
            else (Ok \<lparr>StatusCode = 200, Body = Sim_result True\<rparr>, (get_settings (length body) body, False))
          else (Err ''no route'', w))"

lemma sim_ini_laws: "ini_laws sim_libs"
  by (simp add: ini_laws_def sim_libs_def)

lemma sim_device: "calnex_device sim_libs sim_net (NewAPI ''dev'' tls) fst snd"
  unfolding calnex_device_def
proof (rule allI, intro conjI)
  fix w :: "ini_list \<times> bool"
  show "\<forall>f buf. ini_WriteTo sim_libs f = Ok buf \<longrightarrow> \<not> snd w \<longrightarrow>
     (\<exists>r w'. sim_net (Client (NewAPI ''dev'' tls)) (Post (setSettingsURL (source (NewAPI ''dev'' tls))) buf) w = (r, w') \<and>
        answers_result sim_libs r \<and> (\<forall>s k. ini_Value sim_libs s k (fst w') = ini_Value sim_libs s k f) \<and> \<not> snd w')"
    by (auto simp: sim_libs_def sim_net_def NewAPI_def answers_result_def get_put_settings)
qed (simp_all add: sim_libs_def sim_net_def NewAPI_def answers_result_def getSettingsURL_def getStatusURL_def stopMeasure_def startMeasure_def)

definition sim_network :: NetworkConfig where
  "sim_network = \<lparr>Eth1 = [65], Gw1 = [66], Eth2 = [67], Gw2 = [68]\<rparr>"

definition sim_config :: CalnexConfig where
  "sim_config = [(ChannelONE, \<lparr>Target = ''fd00::1'', mc_Probe = ProbeNTP\<rparr>), (ChannelTWO, \<lparr>Target = ''fd00::2'', mc_Probe = ProbePTP\<rparr>)]"

lemma sim_config_distinct: "distinct (map fst sim_config)"
  by (simp add: sim_config_def)

lemma sim_wanted: "(ckey 6 [''used''], ''Yes'') \<in> wanted sim_libs sim_network (map_of sim_config) {0..7}"
  "(''continuous'', ''On'') \<in> wanted sim_libs sim_network (map_of sim_config) {0..7}"
proof -
  have "([''used''], ''Yes'') \<in> set (channel_settings sim_libs sim_network (map_of sim_config) {0..7} 6)"
    by (simp add: channel_settings_def sim_config_def used_table_def)
  then show "(ckey 6 [''used''], ''Yes'') \<in> wanted sim_libs sim_network (map_of sim_config) {0..7}"
    unfolding wanted_def by blast
qed (simp add: wanted_def plain_table_def)

theorem Config_settings_witness:
  "\<exists>c changed f'. nicConfig sim_libs ''measure'' (Some sim_network) (baseConfig sim_libs ''measure'' (False, [])) = Ok c \<and>
    measureConfig sim_libs ''measure'' sim_config [0..7] c = (changed, f') \<and> changed \<and>
    ini_Value sim_libs ''measure'' (ckey 6 [''used'']) f' = ''Yes''"
proof -
  have "ini_Value sim_libs ''measure'' ''continuous'' [] \<noteq> ''On''" by (simp add: sim_libs_def)
  then have differs: "\<exists>(k, v)\<in>wanted sim_libs sim_network (map_of sim_config) {0..7}. ini_Value sim_libs ''measure'' k [] \<noteq> v"
    using sim_wanted(2) by blast
  from Config_settings [OF sim_ini_laws sim_config_distinct, of sim_network "[]" "[0..7]", unfolded set_upto]
  show ?thesis
  proof (elim exE conjE)
    fix c changed f'
    assume c: "nicConfig sim_libs ''measure'' (Some sim_network) (baseConfig sim_libs ''measure'' (False, [])) = Ok c"
      "measureConfig sim_libs ''measure'' sim_config [0..7] c = (changed, f')"
      and v: "\<forall>(k, v)\<in>wanted sim_libs sim_network (map_of sim_config) {0..7}. ini_Value sim_libs ''measure'' k f' = v"
      and "changed = (\<exists>(k, v)\<in>wanted sim_libs sim_network (map_of sim_config) {0..7}. ini_Value sim_libs ''measure'' k [] \<noteq> v)"
    then have "changed" using differs by simp
    then show ?thesis using c bspec [OF v sim_wanted(1)] by (intro exI [of _ c] exI [of _ changed] exI [of _ f']) simp
  qed
qed


theorem Config_converges_witness:
  "\<exists>w'. calnex_Config sim_libs sim_net ''dev'' False (Some sim_network) sim_config [0..7] True ([], True) = (Ok (), w') \<and> snd w' \<and>
     ini_Value sim_libs ''measure'' ''continuous'' (fst w') = ''On'' \<and>
     calnex_Config sim_libs sim_net ''dev'' False (Some sim_network) sim_config [0..7] True w' = (Ok (), w')"
proof -
  have "\<forall>f. \<exists>buf. ini_WriteTo sim_libs f = Ok buf" by (simp add: sim_libs_def)
  from Config_converges [OF sim_device sim_ini_laws sim_config_distinct this, of False sim_network "[0..7]" "([], True)", unfolded set_upto]
  show ?thesis
  proof (elim exE conjE)
    fix w' assume w': "calnex_Config sim_libs sim_net ''dev'' False (Some sim_network) sim_config [0..7] True ([], True) = (Ok (), w')" "snd w'"
      "calnex_Config sim_libs sim_net ''dev'' False (Some sim_network) sim_config [0..7] True w' = (Ok (), w')"
      and v: "\<forall>(k, v)\<in>wanted sim_libs sim_network (map_of sim_config) {0..7}. ini_Value sim_libs ''measure'' k (fst w') = v"
    then show ?thesis using bspec [OF v sim_wanted(2)] by (intro exI [of _ w']) simp
  qed
qed

theorem Config_without_network_panics_witness:
  "calnex_Config sim_libs sim_net ''dev'' False None sim_config [0..7] False ([], True) = (Inl Panic, ([], True))"
  by (rule Config_without_network_panics [OF device_calls(1) [OF sim_device]])

end
