(* ===== verification/Calnex_Export.thy ===== *)
theory Calnex_Export
  imports Calnex_Config
begin

text \<open>
  \<open>calnex/firmware\<close>, \<open>calnex/export\<close> and the commands of \<open>calnex/cmd\<close>: the update of the firmware, the export of the
  measurements and the sub-commands that call them. The version library, \<open>strconv.ParseFloat\<close>, \<open>json.Marshal\<close> and the file
  system are arguments.
\<close>

section \<open>Firmware\<close>

record 'v FW =
  fw_Version :: "'v res"
  fw_Path :: "string res"

record OSSFW =
  Filepath :: string

definition OSSFW_Version :: "(string \<Rightarrow> 'v res) \<Rightarrow> OSSFW \<Rightarrow> 'v res" where
  "OSSFW_Version NewVersion f =
     (let basename = filepath_Base (Filepath f);
          vs = ReplaceAll (TrimSuffix basename (filepath_Ext basename)) ''sentinel_fw_v'' []
      in NewVersion (ToLower vs))"

definition OSSFW_Path :: "OSSFW \<Rightarrow> string res" where
  "OSSFW_Path f = Ok (Filepath f)"

definition OSSFW_FW :: "(string \<Rightarrow> 'v res) \<Rightarrow> OSSFW \<Rightarrow> 'v FW" where
  "OSSFW_FW NewVersion f = \<lparr>fw_Version = OSSFW_Version NewVersion f, fw_Path = OSSFW_Path f\<rparr>"

definition push_version ::
  "('b, 'f) libs \<Rightarrow> ('w, 'b) net \<Rightarrow> (string \<Rightarrow> unit res) \<Rightarrow> (string \<Rightarrow> string res) \<Rightarrow> API \<Rightarrow> string \<Rightarrow> ('w, unit) call" where
  "push_version L net os_Open ReadFrom a p w = (let ((_, err), w') = PushVersion L net os_Open ReadFrom a p w in (err, w'))"

definition firmware_update ::
  "('b, 'f) libs \<Rightarrow> ('w, 'b) net \<Rightarrow> (string \<Rightarrow> unit res) \<Rightarrow> (string \<Rightarrow> string res) \<Rightarrow> API \<Rightarrow> 'v FW \<Rightarrow> ('w, unit) call" where
  "firmware_update L net os_Open ReadFrom a fw =
     bind_call (FetchStatus L net a) (\<lambda>status.
     bind_call (if MeasurementActive status then StopMeasure L net a else ret_call (Ok ())) (\<lambda>_.
     bind_call (ret_call (fw_Path fw)) (push_version L net os_Open ReadFrom a)))"

definition Firmware ::
  "('b, 'f) libs \<Rightarrow> ('w, 'b) net \<Rightarrow> (string \<Rightarrow> unit res) \<Rightarrow> (string \<Rightarrow> string res) \<Rightarrow> (string \<Rightarrow> 'v res) \<Rightarrow> ('v \<Rightarrow> 'v \<Rightarrow> bool) \<Rightarrow>
   string \<Rightarrow> bool \<Rightarrow> 'v FW \<Rightarrow> bool \<Rightarrow> ('w, unit) call" where
  "Firmware L net os_Open ReadFrom NewVersion GreaterThanOrEqual target insecureTLS fw apply =
     (let a = NewAPI target insecureTLS in
      bind_call (FetchVersion L net a) (\<lambda>cv.
      bind_call (ret_call (NewVersion (ToLower (Firmware_text cv)))) (\<lambda>calnexVersion.
      bind_call (ret_call (fw_Version fw)) (\<lambda>v.
      if GreaterThanOrEqual calnexVersion v then ret_call (Ok ())
      else if \<not> apply then ret_call (Ok ())
      else firmware_update L net os_Open ReadFrom a fw))))"

section \<open>Export\<close>

text \<open>The type of \<open>float64\<close> values is a parameter, since only \<open>ParseFloat\<close> makes and \<open>json.Marshal\<close> prints them.\<close>

record NormalData =
  nd_Channel :: string
  nd_Target :: string
  nd_Protocol :: string
  nd_Source :: string

record 'x Entry =
  en_Float :: 'x
  en_Int :: int
  en_Normal :: NormalData

definition ParseInt :: "string \<Rightarrow> int res" where
  "ParseInt s = (case atoi_value s of None \<Rightarrow> Err ''invalid syntax'' | Some v \<Rightarrow> if in_i64 v then Ok v else Err ''value out of range'')"

definition entryFromCSV :: "(string \<Rightarrow> 'x res) \<Rightarrow> string list \<Rightarrow> string \<Rightarrow> string \<Rightarrow> string \<Rightarrow> string \<Rightarrow> 'x Entry res" where
  "entryFromCSV ParseFloat csvLine channel target protocol src =
     bind_res (index csvLine 0) (\<lambda>l0.
     bind_res (index (strings_Split (CHR ''.'') l0) 0) (\<lambda>t.
     bind_res (ParseInt t) (\<lambda>timestamp.
     bind_res (index csvLine 1) (\<lambda>l1.
     bind_res (ParseFloat l1) (\<lambda>s.
       Ok \<lparr>en_Float = s, en_Int = timestamp,
           en_Normal = \<lparr>nd_Channel = channel, nd_Target = target, nd_Protocol = protocol, nd_Source = src\<rparr>\<rparr>)))))"

definition errNoUsedChannels :: string where "errNoUsedChannels = ''no used channels''"
definition errNoTarget :: string where "errNoTarget = ''no target succeeds''"

text \<open>
  The lines of a channel: whether all were printed, and what was printed before the first bad one. An entry that
  \<open>json.Marshal\<close> cannot encode, such as one with the value NaN, is printed as an empty line.
\<close>

fun export_lines :: "('x Entry \<Rightarrow> string res) \<Rightarrow> (string list \<Rightarrow> 'x Entry res) \<Rightarrow> string list list \<Rightarrow> bool res \<times> string list" where
  "export_lines Marshal entry [] = (Ok True, [])"
| "export_lines Marshal entry (csvLine # csvLines) =
     (case entry csvLine of
        Inl Panic \<Rightarrow> (Inl Panic, [])
      | Inl (GoError _) \<Rightarrow> (Ok False, [])
      | Inr e \<Rightarrow> (let (r, out) = export_lines Marshal entry csvLines in
                  (r, (case Marshal e of Inl _ \<Rightarrow> [] | Inr j \<Rightarrow> j) # out)))"

text \<open>A call whose error is logged: the channel is skipped, a panic ends the process.\<close>

definition or_skip :: "('w, 'a) call \<Rightarrow> ('a \<Rightarrow> 'w \<Rightarrow> (bool res \<times> string list) \<times> 'w) \<Rightarrow> 'w \<Rightarrow> (bool res \<times> string list) \<times> 'w" where
  "or_skip m f w =
     (case m w of
        (Inl Panic, w') \<Rightarrow> ((Inl Panic, []), w')
      | (Inl (GoError _), w') \<Rightarrow> ((Ok False, []), w')
      | (Inr x, w') \<Rightarrow> f x w')"

definition export_channel ::
  "('b, 'f) libs \<Rightarrow> ('w, 'b) net \<Rightarrow> (string \<Rightarrow> 'x res) \<Rightarrow> ('x Entry \<Rightarrow> string res) \<Rightarrow> API \<Rightarrow> Channel \<Rightarrow> 'w \<Rightarrow> (bool res \<times> string list) \<times> 'w" where
  "export_channel L net ParseFloat Marshal a channel =
     or_skip (FetchChannelProbe L net a channel) (\<lambda>probe.
     or_skip (FetchChannelTargetName L net a channel probe) (\<lambda>target.
     or_skip (FetchCsv L net a channel) (\<lambda>csvLines w.
       (export_lines Marshal
          (\<lambda>l. entryFromCSV ParseFloat l (Channel_String channel) target (Probe_String probe) (source a)) csvLines, w))))"

fun export_channels ::
  "('b, 'f) libs \<Rightarrow> ('w, 'b) net \<Rightarrow> (string \<Rightarrow> 'x res) \<Rightarrow> ('x Entry \<Rightarrow> string res) \<Rightarrow> API \<Rightarrow> Channel list \<Rightarrow> bool \<Rightarrow> 'w \<Rightarrow>
   (bool res \<times> string list) \<times> 'w" where
  "export_channels L net ParseFloat Marshal a [] success w = ((Ok success, []), w)"
| "export_channels L net ParseFloat Marshal a (ch # chs) success w =
     (case export_channel L net ParseFloat Marshal a ch w of
        ((Inl e, out), w') \<Rightarrow> ((Inl e, out), w')
      | ((Inr ok, out), w') \<Rightarrow>
          (let ((r, out'), w'') = export_channels L net ParseFloat Marshal a chs (success \<or> ok) w' in ((r, out @ out'), w'')))"

definition Export ::
  "('b, 'f) libs \<Rightarrow> ('w, 'b) net \<Rightarrow> (string \<Rightarrow> 'x res) \<Rightarrow> ('x Entry \<Rightarrow> string res) \<Rightarrow> Channel list \<Rightarrow> string \<Rightarrow> bool \<Rightarrow> Channel list \<Rightarrow>
   'w \<Rightarrow> (unit res \<times> string list) \<times> 'w" where
  "Export L net ParseFloat Marshal order src insecureTLS channels w =
     (let a = NewAPI src insecureTLS in
      case (if channels = [] then FetchUsedChannels L net a order w else (Ok channels, w)) of
        (Inl Panic, w) \<Rightarrow> ((Inl Panic, []), w)
      | (Inl (GoError _), w) \<Rightarrow> ((Err errNoUsedChannels, []), w)
      | (Inr chs, w) \<Rightarrow>
          (case export_channels L net ParseFloat Marshal a chs False w of
             ((r, out), w) \<Rightarrow> ((bind_res r (\<lambda>success. if \<not> success then Err errNoTarget else Ok ()), out), w)))"

section \<open>Commands\<close>

text \<open>A command ends the process with the error, if any. The parsed devices of the configuration file are a map.\<close>

definition config_cmd ::
  "('b, 'f) libs \<Rightarrow> ('w, 'b) net \<Rightarrow> Channel list \<Rightarrow> string res \<Rightarrow> (string \<Rightarrow> (string \<rightharpoonup> CalnexConfig \<times> NetworkConfig option) res) \<Rightarrow>
   string \<Rightarrow> bool \<Rightarrow> bool \<Rightarrow> ('w, unit) call" where
  "config_cmd L net order configFile Unmarshal target insecureTLS apply =
     bind_call (ret_call (bind_res configFile Unmarshal)) (\<lambda>d.
       case d target of
         None \<Rightarrow> ret_call (Err ''Failed to find config for %s in %s'')
       | Some (cc, n) \<Rightarrow> calnex_Config L net target insecureTLS n cc order apply)"

fun parse_channels :: "string list \<Rightarrow> Channel list res" where
  "parse_channels [] = Ok []"
| "parse_channels (c # cs) = bind_res (ChannelFromString c) (\<lambda>ch. bind_res (parse_channels cs) (\<lambda>chs. Ok (ch # chs)))"

definition export_cmd ::
  "('b, 'f) libs \<Rightarrow> ('w, 'b) net \<Rightarrow> (string \<Rightarrow> 'x res) \<Rightarrow> ('x Entry \<Rightarrow> string res) \<Rightarrow> Channel list \<Rightarrow> string list \<Rightarrow> string \<Rightarrow> bool \<Rightarrow>
   'w \<Rightarrow> (unit res \<times> string list) \<times> 'w" where
  "export_cmd L net ParseFloat Marshal order channels src insecureTLS w =
     (case parse_channels channels of
        Inl e \<Rightarrow> ((Inl e, []), w)
      | Inr chs \<Rightarrow> Export L net ParseFloat Marshal order src insecureTLS chs w)"

definition firmware_cmd ::
  "('b, 'f) libs \<Rightarrow> ('w, 'b) net \<Rightarrow> (string \<Rightarrow> unit res) \<Rightarrow> (string \<Rightarrow> string res) \<Rightarrow> (string \<Rightarrow> 'v res) \<Rightarrow> ('v \<Rightarrow> 'v \<Rightarrow> bool) \<Rightarrow>
   string \<Rightarrow> bool \<Rightarrow> string \<Rightarrow> bool \<Rightarrow> ('w, unit) call" where
  "firmware_cmd L net os_Open ReadFrom NewVersion geq target insecureTLS src apply =
     Firmware L net os_Open ReadFrom NewVersion geq target insecureTLS (OSSFW_FW NewVersion \<lparr>Filepath = src\<rparr>) apply"

definition clear :: "('b, 'f) libs \<Rightarrow> ('w, 'b) net \<Rightarrow> string \<Rightarrow> bool \<Rightarrow> ('w, unit) call" where
  "clear L net target insecureTLS = ClearDevice L net (NewAPI target insecureTLS)"

definition reboot :: "('b, 'f) libs \<Rightarrow> ('w, 'b) net \<Rightarrow> string \<Rightarrow> bool \<Rightarrow> ('w, unit) call" where
  "reboot L net target insecureTLS = Reboot L net (NewAPI target insecureTLS)"

definition report ::
  "('b, 'f) libs \<Rightarrow> ('w, 'b) net \<Rightarrow> (string \<Rightarrow> unit res) \<Rightarrow> (string \<Rightarrow> 'b \<Rightarrow> unit res) \<Rightarrow> (string \<Rightarrow> string \<Rightarrow> string) \<Rightarrow> string \<Rightarrow>
   string \<Rightarrow> bool \<Rightarrow> string \<Rightarrow> ('w, unit) call" where
  "report L net os_Create io_Copy path_Join now target insecureTLS dir =
     bind_call (FetchProblemReport L net os_Create io_Copy path_Join now (NewAPI target insecureTLS) dir) (\<lambda>_. ret_call (Ok ()))"

section \<open>The version of a firmware file\<close>

text \<open>
  The name of a firmware file, with any directory and extension, yields its version: what is between \<open>sentinel_fw_v\<close> and the
  last dot, in lower case, is given to the version library.
\<close>
theorem OSSFW_Version_name:
  assumes "CHR ''/'' \<notin> set v" and "\<not> occurs ''sentinel_fw_v'' v" and "CHR ''/'' \<notin> set e" and "CHR ''.'' \<notin> set e"
  shows "OSSFW_Version NewVersion \<lparr>Filepath = dir @ ''/sentinel_fw_v'' @ v @ ''.'' @ e\<rparr> = NewVersion (ToLower v)"
proof -
  obtain b where b: "b = ''sentinel_fw_v'' @ v @ ''.'' @ e" by simp
  have "filepath_Base (dir @ ''/'' @ b) = b" using assms by (intro filepath_Base_join) (simp_all add: b)
  moreover have "filepath_Ext b = ''.'' @ e" unfolding b using filepath_Ext_dot [OF assms(3,4), of "''sentinel_fw_v'' @ v"] by simp
  moreover have "TrimSuffix b (''.'' @ e) = ''sentinel_fw_v'' @ v" unfolding b using TrimSuffix_append [of "''sentinel_fw_v'' @ v" "''.'' @ e"] by simp
  moreover have "ReplaceAll (''sentinel_fw_v'' @ v) ''sentinel_fw_v'' [] = v"
    using ReplaceAll_none [OF assms(2), of "[]"] by (subst ReplaceAll.simps) (simp add: HasPrefix_def)
  ultimately show ?thesis by (simp add: OSSFW_Version_def Let_def b)
qed

theorem OSSFW_Version_name_witness:
  "OSSFW_Version (\<lambda>s. Ok s) \<lparr>Filepath = ''/tmp'' @ ''/sentinel_fw_v'' @ ''2.13D'' @ ''.'' @ ''tar''\<rparr> = Ok ''2.13d''"
proof -
  have "\<not> occurs ''sentinel_fw_v'' ''2.13D''"
  proof
    assume "occurs ''sentinel_fw_v'' ''2.13D''"
    then obtain a b where "''2.13D'' = a @ ''sentinel_fw_v'' @ b" by (auto simp: occurs_def)
    then have "length ''2.13D'' = length (a @ ''sentinel_fw_v'' @ b)" by (rule arg_cong)
    then show False by simp
  qed
  moreover have "ToLower ''2.13D'' = ''2.13d''" by code_simp
  ultimately show ?thesis using OSSFW_Version_name [of "''2.13D''" "''tar''" "\<lambda>s. Ok s" "''/tmp''"] by simp
qed

section \<open>The requests of an update\<close>

definition firmware_requests :: "string \<Rightarrow> bool \<Rightarrow> bool \<Rightarrow> string \<Rightarrow> request list" where
  "firmware_requests src upgrade active body =
     Get (versionURL src) #
     (if upgrade then Get (getStatusURL src) # (if active then [Get (stopMeasure src)] else []) @ [Post (firmwareURL src) body] else [])"

lemma requests_FetchVersion: "requests (FetchVersion L (recorded net) a) [Get (versionURL (source a))]"
  by (rule requests_one) (rule version_log.log_extends)

definition firmware_body :: "(string \<Rightarrow> unit res) \<Rightarrow> (string \<Rightarrow> string res) \<Rightarrow> string res \<Rightarrow> string" where
  "firmware_body os_Open ReadFrom path =
     (case bind_res path (\<lambda>p. bind_res (os_Open p) (\<lambda>_. ReadFrom p)) of Inl _ \<Rightarrow> [] | Inr b \<Rightarrow> b)"

lemma requests_push_version:
  "requests (bind_call (ret_call path) (push_version L (recorded net) os_Open ReadFrom a))
     [Post (firmwareURL (source a)) (firmware_body os_Open ReadFrom path)]"
proof (cases "bind_res path (\<lambda>p. bind_res (os_Open p) (\<lambda>_. ReadFrom p))")
  case (Inl e)
  then consider e' where "path = Inl e'" | p e' where "path = Ok p" "os_Open p = Inl e'"
    | p where "path = Ok p" "os_Open p = Ok ()" "ReadFrom p = Inl e"
    by (cases path; cases "os_Open (projr path)") auto
  then show ?thesis
    by cases (simp_all add: requests_def logs_def ret_call_def push_version_def PushVersion_def)
next
  case (Inr buf)
  then obtain p where p: "path = Ok p" "os_Open p = Ok ()" "ReadFrom p = Ok buf" by (auto simp: bind_res_Ok_iff)
  have push: "bind_call (ret_call path) (push_version L (recorded net) os_Open ReadFrom a) =
      (\<lambda>s. (snd (fst (post L (recorded net) a (firmwareURL (source a)) buf s)), snd (post L (recorded net) a (firmwareURL (source a)) buf s)))"
    by (simp add: fun_eq_iff push_version_def PushVersion_def p case_prod_unfold Let_def)
  have body: "firmware_body os_Open ReadFrom path = buf" by (simp add: firmware_body_def Inr)
  show ?thesis unfolding push body by (rule requests_one) (rule post_log.log_extends)
qed

lemma firmware_update_requests:
  "\<exists>active. logs s (firmware_update L (recorded net) os_Open ReadFrom a fw s)
     (tl (firmware_requests (source a) True active (firmware_body os_Open ReadFrom (fw_Path fw))))"
proof -
  obtain rs s2 where fs: "FetchStatus L (recorded net) a s = (rs, s2)" by (cases "FetchStatus L (recorded net) a s")
  obtain active where act: "\<And>status. rs = Ok status \<Longrightarrow> MeasurementActive status = active" by (cases rs) auto
  obtain body where body: "body = firmware_body os_Open ReadFrom (fw_Path fw)" by simp
  have stop: "requests (bind_call (if m then StopMeasure L (recorded net) a else ret_call (Ok ())) (\<lambda>_.
      bind_call (ret_call (fw_Path fw)) (push_version L (recorded net) os_Open ReadFrom a)))
      ((if m then [Get (stopMeasure (source a))] else []) @ [Post (firmwareURL (source a)) body])" for m
    unfolding body by (intro requests_bind requests_push_version) (auto intro: requests_ret requests_StopMeasure)
  have "logs s (firmware_update L (recorded net) os_Open ReadFrom a fw s)
      ([Get (getStatusURL (source a))] @ (if active then [Get (stopMeasure (source a))] else []) @ [Post (firmwareURL (source a)) body])"
    unfolding firmware_update_def
  proof (rule logs_bind)
    show "logs s (FetchStatus L (recorded net) a s) [Get (getStatusURL (source a))]" by (rule requestsD [OF requests_FetchStatus])
  next
    fix st s' assume "FetchStatus L (recorded net) a s = (Ok st, s')"
    then have act: "MeasurementActive st = active" using act fs by simp
    show "logs s' (bind_call (if MeasurementActive st then StopMeasure L (recorded net) a else ret_call (Ok ()))
          (\<lambda>_. bind_call (ret_call (fw_Path fw)) (push_version L (recorded net) os_Open ReadFrom a)) s')
        ((if active then [Get (stopMeasure (source a))] else []) @ [Post (firmwareURL (source a)) body])"
      unfolding act by (rule requestsD [OF stop])
  qed
  then show ?thesis by (intro exI [of _ active]) (simp add: firmware_requests_def body)
qed


text \<open>A device with version 3 that answers every request; versions are compared by their length.\<close>

definition echo_net :: "(unit, request) net" where
  "echo_net cl rq w = (Ok \<lparr>StatusCode = 200, Body = rq\<rparr>, w)"

definition echo_libs :: "(request, unit) libs" where
  "echo_libs = \<lparr>StatusText = (\<lambda>_. []), ReadAll = (\<lambda>rq. Ok (case rq of Get u \<Rightarrow> ''probe_type=2'' | Post u b \<Rightarrow> [])),
     csv_records = (\<lambda>_. [Ok [''16.77'', ''-0.25''], Ok [''17.77'', ''x'']]),
     json_Status = (\<lambda>_. Ok \<lparr>ReferenceReady = True, ModulesReady = True, MeasurementActive = True\<rparr>),
     json_Result = (\<lambda>_. Ok \<lparr>Result_Result = True, Result_Message = []\<rparr>), json_Version = (\<lambda>_. Ok \<lparr>Firmware_text = ''3''\<rparr>),
     LookupAddr = (\<lambda>_. Ok [''ntp.example'']), ini_Load = (\<lambda>_. Ok ()), ini_WriteTo = (\<lambda>_. Ok []), ini_Key = (\<lambda>s k f. f),
     ini_Value = (\<lambda>s k f. ''Yes''), ini_SetValue = (\<lambda>s k v f. f), IP_String = bytes_str\<rparr>"


section \<open>What is exported\<close>

text \<open>
  A line of the CSV data: it becomes an entry exactly if it has two fields or more, the first is a decimal \<open>int64\<close> up to its
  first dot and the second a number. A line with no field, or with a good time stamp and no second field, panics; every other line
  is an error.
\<close>
theorem entryFromCSV_cases:
  assumes "\<And>t. ParseFloat t \<noteq> Inl Panic"
  shows "(entryFromCSV ParseFloat l ch t p src = Ok e \<longleftrightarrow>
      (\<exists>a b r x. l = a # b # r \<and> ParseInt (takeWhile (\<lambda>c. c \<noteq> CHR ''.'') a) = Ok (en_Int e) \<and> ParseFloat b = Ok x \<and>
        e = \<lparr>en_Float = x, en_Int = en_Int e, en_Normal = \<lparr>nd_Channel = ch, nd_Target = t, nd_Protocol = p, nd_Source = src\<rparr>\<rparr>)) \<and>
    (entryFromCSV ParseFloat l ch t p src = Inl Panic \<longleftrightarrow>
      l = [] \<or> (\<exists>a ts. l = [a] \<and> ParseInt (takeWhile (\<lambda>c. c \<noteq> CHR ''.'') a) = Ok ts))"
proof -
  have hd: "index (strings_Split (CHR ''.'') a) 0 = Ok (takeWhile (\<lambda>c. c \<noteq> CHR ''.'') a)" for a
  proof (induction a)
    case (Cons c a)
    then show ?case by (cases "strings_Split (CHR ''.'') a") (auto simp: index_def)
  qed (simp add: index_def)
  have np: "ParseInt s \<noteq> Inl Panic" for s by (simp add: ParseInt_def split: option.splits)
  consider "l = []" | a where "l = [a]" | a b r where "l = a # b # r" by (metis list.exhaust)
  then show ?thesis
  proof cases
    case 1
    then show ?thesis by (simp add: entryFromCSV_def index_def)
  next
    case 2
    then show ?thesis using np [of "takeWhile (\<lambda>c. c \<noteq> CHR ''.'') a"]
      by (cases "ParseInt (takeWhile (\<lambda>c. c \<noteq> CHR ''.'') a)") (simp_all add: entryFromCSV_def hd [unfolded One_nat_def] index_def [of "[a]"])
  next
    case 3
    then show ?thesis using np [of "takeWhile (\<lambda>c. c \<noteq> CHR ''.'') a"] assms [of b]
      by (cases "ParseInt (takeWhile (\<lambda>c. c \<noteq> CHR ''.'') a)"; cases "ParseFloat b") (auto simp: entryFromCSV_def hd)
  qed
qed

theorem entryFromCSV_cases_witness:
  "entryFromCSV (\<lambda>t. if t = ''x'' then Err ''syntax'' else Ok t) [''16.5''] ''1'' ''host'' ''ntp'' ''dev'' = Inl Panic"
proof -
  have "ParseInt (takeWhile (\<lambda>c. c \<noteq> CHR ''.'') ''16.5'') = Ok 16" by code_simp
  then show ?thesis using entryFromCSV_cases [of "\<lambda>t. if t = ''x'' then Err ''syntax'' else Ok t" "[''16.5'']"] by simp
qed

lemma export_lines_prefix:
  assumes "\<And>l. entry l \<noteq> Inl Panic"
  shows "export_lines M entry ls =
    (Ok (list_all (\<lambda>l. \<exists>e. entry l = Ok e) ls),
     map (\<lambda>l. case M (projr (entry l)) of Inl _ \<Rightarrow> [] | Inr j \<Rightarrow> j) (takeWhile (\<lambda>l. \<exists>e. entry l = Ok e) ls))"
proof (induction ls)
  case (Cons l ls)
  show ?case using Cons assms [of l] by (cases "entry l") (auto split: goerr.splits)
qed simp

text \<open>The results of the channels one after the other.\<close>

fun channel_results ::
  "('b, 'f) libs \<Rightarrow> ('w, 'b) net \<Rightarrow> (string \<Rightarrow> 'x res) \<Rightarrow> ('x Entry \<Rightarrow> string res) \<Rightarrow> API \<Rightarrow> Channel list \<Rightarrow> 'w \<Rightarrow> (bool res \<times> string list) list" where
  "channel_results L net pf M a [] w = []"
| "channel_results L net pf M a (ch # chs) w =
     (let (x, w') = export_channel L net pf M a ch w in x # channel_results L net pf M a chs w')"

definition settled :: "bool res \<Rightarrow> bool" where
  "settled x \<longleftrightarrow> x = Inl Panic \<or> (\<exists>b. x = Ok b)"

lemma settled_lines: "settled (fst (export_lines M entry ls))"
  by (induction ls) (auto simp: settled_def split: sum.splits goerr.splits prod.splits)

lemma settled_or_skip: "(\<And>x w'. settled (fst (fst (f x w')))) \<Longrightarrow> settled (fst (fst (or_skip m f w)))"
  by (auto simp: or_skip_def settled_def split: prod.splits sum.splits goerr.splits)

lemma export_channel_settled: "settled (fst (fst (export_channel L net pf M a ch w)))"
  unfolding export_channel_def by (intro settled_or_skip) (simp add: settled_lines)

lemma export_channels_results:
  assumes "\<forall>x\<in>set (channel_results L net pf M a chs w). fst x \<noteq> Inl Panic"
  shows "fst (export_channels L net pf M a chs s w) =
    (Ok (s \<or> (\<exists>x\<in>set (channel_results L net pf M a chs w). fst x = Ok True)), concat (map snd (channel_results L net pf M a chs w)))"
  using assms
proof (induction chs arbitrary: s w)
  case (Cons ch chs)
  obtain x out w' where x: "export_channel L net pf M a ch w = ((x, out), w')" by (metis surj_pair)
  then obtain b where b: "x = Ok b" using Cons.prems export_channel_settled [of L net pf M a ch w] by (auto simp: settled_def)
  have "fst (export_channels L net pf M a chs (s \<or> b) w') =
      (Ok ((s \<or> b) \<or> (\<exists>x\<in>set (channel_results L net pf M a chs w'). fst x = Ok True)), concat (map snd (channel_results L net pf M a chs w')))"
    using Cons.prems x by (intro Cons.IH) simp
  then show ?case by (cases "export_channels L net pf M a chs (s \<or> b) w'") (auto simp: x b)
qed simp

text \<open>
  Exporting given channels: unless a channel panics, what is printed is what each channel prints, in the order of the channels,
  and the export succeeds if and only if at least one channel was printed to its end; a channel whose requests fail, or one with a
  bad line after the good ones, does not stop the others.
\<close>
theorem Export_result:
  assumes "chs \<noteq> []" and "rs = channel_results L net pf M (NewAPI src tls) chs w" and "\<forall>x\<in>set rs. fst x \<noteq> Inl Panic"
  shows "fst (Export L net pf M order src tls chs w) =
    (if \<exists>x\<in>set rs. fst x = Ok True then Ok () else Err errNoTarget, concat (map snd rs))"
proof -
  have "fst (export_channels L net pf M (NewAPI src tls) chs False w) = (Ok (\<exists>x\<in>set rs. fst x = Ok True), concat (map snd rs))"
    using export_channels_results [of L net pf M "NewAPI src tls" chs w False] assms(2,3) by simp
  then show ?thesis using assms(1)
    by (cases "export_channels L net pf M (NewAPI src tls) chs False w") (auto simp: Export_def)
qed

lemma echo_channel:
  "export_channel echo_libs echo_net (\<lambda>t. if t = ''x'' then Err ''syntax'' else Ok t) (\<lambda>e. Ok (en_Float e)) (NewAPI ''dev'' False) 6 () =
     ((Ok False, [''-0.25'']), ())"
proof -
  have "parseResponse ''probe_type=2'' = Ok ''2''" "ProbeFromCalnex ''2'' = Ok 2" by code_simp+
  moreover have "ParseInt ''16'' = Ok 16" "ParseInt ''17'' = Ok 17" by code_simp+
  ultimately show ?thesis
    by (simp add: export_channel_def or_skip_def FetchChannelProbe_def FetchChannelTargetName_def FetchChannelTargetIP_def FetchCsv_def
      fetch_eq check_status_def bind_call_def ret_call_def echo_libs_def echo_net_def index_def entryFromCSV_def)
qed

theorem Export_result_witness:
  "fst (Export echo_libs echo_net (\<lambda>t. if t = ''x'' then Err ''syntax'' else Ok t) (\<lambda>e. Ok (en_Float e)) [0..7] ''dev'' False [6] ()) =
     (Err errNoTarget, [''-0.25''])"
  by (subst Export_result [OF _ refl]) (simp_all add: echo_channel)

end
