(* ===== verification/PHC.thy ===== *)
theory PHC
  imports Go_Time Go_Strings
begin

text \<open>
  The package \<open>phc\<close>: the time of a network card's clock (PHC) and its offset from the system clock. What opening the device,
  the ioctls, the system calls and the system clock yield are arguments.
\<close>

section \<open>Devices\<close>

record PTPClockTime =
  ct_Sec :: int
  ct_NSec :: u32

definition ClockTime_Time :: "PTPClockTime \<Rightarrow> gotime" where
  "ClockTime_Time t = time_Unix (ct_Sec t) (uint (ct_NSec t))"

text \<open>\<open>int32((int(^fd) << 3) | 3)\<close> on a 64-bit platform.\<close>

definition fdToClockID :: "u64 \<Rightarrow> i32" where
  "fdToClockID fd = ucast (push_bit 3 (NOT fd) OR 3)"

definition ptpMaxSamples :: nat where
  "ptpMaxSamples = 25"

record PTPSysOffsetExtended =
  so_NSamples :: u32
  so_TS :: "(PTPClockTime \<times> PTPClockTime \<times> PTPClockTime) list"

record EthtoolTSinfo =
  ti_SOtimestamping :: u32
  ti_PHCIndex :: i32
  ti_TXTypes :: u32
  ti_RXFilters :: u32

record IfaceData =
  if_Name :: string
  if_TSInfo :: EthtoolTSinfo

datatype TimeMethod = MethodSyscallClockGettime | MethodIoctlSysOffsetExtended | OtherMethod string

definition SupportedMethods :: "TimeMethod list" where
  "SupportedMethods = [MethodSyscallClockGettime, MethodIoctlSysOffsetExtended]"

record phc_env =
  os_Open :: "string \<Rightarrow> u64 res"
  clock_gettime :: "i32 \<Rightarrow> gotime res"
  ioctl_SysOffset :: "u64 \<Rightarrow> PTPSysOffsetExtended \<Rightarrow> PTPSysOffsetExtended res"
  inet_socket :: "unit res"
  ioctl_Ethtool :: "string \<Rightarrow> EthtoolTSinfo res"
  net_Interfaces :: "string list res"
  now_before :: gotime
  now_after :: gotime

text \<open>The name in the request is an array of 16 bytes whose last stays zero.\<close>

definition IfaceInfo :: "phc_env \<Rightarrow> string \<Rightarrow> EthtoolTSinfo res" where
  "IfaceInfo env iface =
     (case inet_socket env of
        Inl e \<Rightarrow> Err ''failed to create socket for ioctl: %w''
      | Inr _ \<Rightarrow> (case ioctl_Ethtool env (take 15 iface) of
            Inl e \<Rightarrow> Err ''failed get phc ID: %s (%d)''
          | Inr data \<Rightarrow> Ok data))"

fun ifaces_info :: "phc_env \<Rightarrow> string list \<Rightarrow> IfaceData list res" where
  "ifaces_info env [] = Ok []"
| "ifaces_info env (iface # ifaces) =
     bind_res (IfaceInfo env iface) (\<lambda>data.
     bind_res (ifaces_info env ifaces) (\<lambda>r. Ok (\<lparr>if_Name = iface, if_TSInfo = data\<rparr> # r)))"

definition IfacesInfo :: "phc_env \<Rightarrow> IfaceData list res" where
  "IfacesInfo env = bind_res (net_Interfaces env) (ifaces_info env)"

text \<open>The clock is opened by \<open>clock_gettime\<close> through the identifier made of the descriptor.\<close>

definition TimeFromDevice :: "phc_env \<Rightarrow> string \<Rightarrow> gotime res" where
  "TimeFromDevice env device =
     bind_res (os_Open env device) (\<lambda>fd.
       case clock_gettime env (fdToClockID fd) of Inl e \<Rightarrow> Err ''failed clock_gettime: %w'' | Inr t \<Rightarrow> Ok t)"

definition zero_clock :: PTPClockTime where
  "zero_clock = \<lparr>ct_Sec = 0, ct_NSec = 0\<rparr>"

definition ReadPTPSysOffsetExtended :: "phc_env \<Rightarrow> string \<Rightarrow> nat \<Rightarrow> PTPSysOffsetExtended res" where
  "ReadPTPSysOffsetExtended env device nsamples =
     bind_res (os_Open env device) (\<lambda>fd.
       case ioctl_SysOffset env fd \<lparr>so_NSamples = word_of_nat nsamples, so_TS = replicate ptpMaxSamples (zero_clock, zero_clock, zero_clock)\<rparr> of
         Inl e \<Rightarrow> Err ''failed PTP_SYS_OFFSET_EXTENDED %s (%d)''
       | Inr r \<Rightarrow> Ok r)"

definition phc_device :: "i32 \<Rightarrow> string" where
  "phc_device i = ''/dev/ptp'' @ show_int (sint i)"

text \<open>The index \<open>NSamples - 1\<close> is computed on 32 bits.\<close>

definition phc_Time :: "phc_env \<Rightarrow> string \<Rightarrow> TimeMethod \<Rightarrow> gotime res" where
  "phc_Time env iface mth =
     (case IfaceInfo env iface of
        Inl _ \<Rightarrow> Err ''getting interface info: %w''
      | Inr info \<Rightarrow>
          if sint (ti_PHCIndex info) < 0 then Err ''%s doesn't support PHC''
          else let device = phc_device (ti_PHCIndex info) in
            case mth of
              MethodSyscallClockGettime \<Rightarrow> TimeFromDevice env device
            | MethodIoctlSysOffsetExtended \<Rightarrow>
                bind_res (ReadPTPSysOffsetExtended env device 1) (\<lambda>extended.
                bind_res (index (so_TS extended) (unat (so_NSamples extended - 1))) (\<lambda>latest.
                  Ok (ClockTime_Time (fst (snd latest)))))
            | OtherMethod m \<Rightarrow> Err ''unknown method to get PHC time %q'')"

section \<open>Offsets\<close>

record SysoffResult =
  sr_Offset :: duration
  sr_Delay :: duration
  sr_SysTime :: gotime
  sr_PHCTime :: gotime

definition sysoffEstimateBasic :: "gotime \<Rightarrow> gotime \<Rightarrow> gotime \<Rightarrow> SysoffResult" where
  "sysoffEstimateBasic ts1 rt ts2 =
     (let interval = t_Sub ts2 ts1;
          sysTime = t_Add ts1 (quot interval 2);
          offset = i64 (t_Sub ts2 rt - quot interval 2)
      in \<lparr>sr_Offset = offset, sr_Delay = t_Sub ts2 ts1, sr_SysTime = sysTime, sr_PHCTime = rt\<rparr>)"

definition sysoff_sample :: "PTPClockTime \<times> PTPClockTime \<times> PTPClockTime \<Rightarrow> SysoffResult" where
  "sysoff_sample ts =
     (let t1 = ClockTime_Time (fst ts);
          tp = ClockTime_Time (fst (snd ts));
          t2 = ClockTime_Time (snd (snd ts));
          interval = t_Sub t2 t1;
          timestamp = t_Add t1 (quot interval 2)
      in \<lparr>sr_Offset = t_Sub timestamp tp, sr_Delay = interval, sr_SysTime = timestamp, sr_PHCTime = tp\<rparr>)"

fun sysoff_loop :: "(PTPClockTime \<times> PTPClockTime \<times> PTPClockTime) list \<Rightarrow> nat list \<Rightarrow> SysoffResult \<Rightarrow> SysoffResult res" where
  "sysoff_loop TS [] best = Ok best"
| "sysoff_loop TS (i # is) best =
     bind_res (index TS i) (\<lambda>ts.
       let r = sysoff_sample ts in sysoff_loop TS is (if sr_Delay r < sr_Delay best then r else best))"

definition sysoffEstimateExtended :: "PTPSysOffsetExtended \<Rightarrow> SysoffResult res" where
  "sysoffEstimateExtended extended =
     bind_res (index (so_TS extended) 0) (\<lambda>ts.
       sysoff_loop (so_TS extended) [1..<unat (so_NSamples extended)] (sysoff_sample ts))"

definition TimeAndOffsetFromDevice :: "phc_env \<Rightarrow> string \<Rightarrow> TimeMethod \<Rightarrow> SysoffResult res" where
  "TimeAndOffsetFromDevice env device mth =
     (case mth of
        MethodSyscallClockGettime \<Rightarrow>
          bind_res (os_Open env device) (\<lambda>fd.
            case clock_gettime env (fdToClockID fd) of
              Inl e \<Rightarrow> Err ''failed clock_gettime: %w''
            | Inr ts \<Rightarrow> Ok (sysoffEstimateBasic (now_before env) ts (now_after env)))
      | MethodIoctlSysOffsetExtended \<Rightarrow>
          bind_res (ReadPTPSysOffsetExtended env device 5) sysoffEstimateExtended
      | OtherMethod m \<Rightarrow> Err ''unknown method to get PHC time %q'')"

definition TimeAndOffset :: "phc_env \<Rightarrow> string \<Rightarrow> TimeMethod \<Rightarrow> SysoffResult res" where
  "TimeAndOffset env iface mth =
     (case IfaceInfo env iface of
        Inl _ \<Rightarrow> Err ''getting interface info: %w''
      | Inr info \<Rightarrow>
          if sint (ti_PHCIndex info) < 0 then Err ''%s doesn't support PHC''
          else TimeAndOffsetFromDevice env (phc_device (ti_PHCIndex info)) mth)"

section \<open>The identifier of a clock\<close>

lemma push_or_3: "push_bit 3 (x :: u64) OR 3 = push_bit 3 x + 3"
proof -
  have three: "(3 :: u64) = mask 2" by (simp add: mask_eq_exp_minus_1)
  have "\<not> bit (push_bit 3 x) n \<or> \<not> bit (3 :: u64) n" for n
    unfolding three by (auto simp: bit_push_bit_iff bit_mask_iff)
  from disjunctive_add [OF this] show ?thesis by simp
qed

lemma fdToClockID_int:
  assumes "k = - 8 * uint fd - 5"
  shows "fdToClockID fd = word_of_int k"
proof -
  have "(word_of_int k :: u64) = push_bit 3 (NOT fd) + 3"
    unfolding assms by (simp add: push_bit_eq_mult not_eq_complement)
  then have "fdToClockID fd = ucast (word_of_int k :: u64)" by (simp add: fdToClockID_def push_or_3)
  also have "\<dots> = word_of_int k"
    by (simp add: unsigned_of_int word_of_int_eq_iff take_bit_take_bit flip: word_of_int_uint)
  finally show ?thesis .
qed

text \<open>
  The kernel reads the descriptor back from the clock identifier as \<open>~(id >> 3)\<close>, with the low bits 3 that mark a
  descriptor; the identifier made here is read back as the descriptor it was made of.
\<close>
theorem fdToClockID_roundtrip:
  assumes "uint fd < 2 ^ 28"
  shows "- (sint (fdToClockID fd) div 8) - 1 = uint fd \<and> sint (fdToClockID fd) mod 8 = 3 \<and> sint (fdToClockID fd) < 0"
proof -
  obtain k where k: "k = - 8 * uint fd - 5" by simp
  moreover have "0 \<le> uint fd" by simp
  moreover have "uint fd < 268435456" using assms by simp
  ultimately have "- 2147483648 \<le> k" "k < 2147483648" by linarith+
  then have "sint (word_of_int k :: i32) = k" by (simp add: signed_of_int signed_take_bit_int_eq_self)
  then have "sint (fdToClockID fd) = - 8 * uint fd - 5" unfolding fdToClockID_int [OF k] by (simp add: k)
  then obtain m where m: "sint (fdToClockID fd) = 8 * m + 3" and fd: "m = - uint fd - 1" by simp
  have "0 \<le> uint fd" by simp
  then have "m < 0" using fd by linarith
  moreover have "(8 * m + 3) div 8 = m" "(8 * m + 3) mod 8 = 3" by simp_all
  ultimately show ?thesis unfolding m using fd by linarith
qed

theorem fdToClockID_roundtrip_witness: "- (sint (fdToClockID 7) div 8) - 1 = 7"
  using fdToClockID_roundtrip [of 7] by simp

section \<open>The best sample\<close>

text \<open>The first index below \<open>k\<close> at which a function is least.\<close>

definition first_least :: "(nat \<Rightarrow> int) \<Rightarrow> nat \<Rightarrow> nat \<Rightarrow> bool" where
  "first_least f k i \<longleftrightarrow> i < k \<and> (\<forall>j<k. f i \<le> f j) \<and> (\<forall>j<i. f i < f j)"

lemma sysoff_loop_best:
  assumes "first_least (\<lambda>j. sr_Delay (sysoff_sample (TS ! j))) k i" and "k + m \<le> length TS"
  shows "\<exists>i'. sysoff_loop TS [k..<k + m] (sysoff_sample (TS ! i)) = Ok (sysoff_sample (TS ! i')) \<and>
    first_least (\<lambda>j. sr_Delay (sysoff_sample (TS ! j))) (k + m) i'"
  using assms
proof (induction m arbitrary: k i)
  case (Suc m)
  obtain f where f: "f = (\<lambda>j. sr_Delay (sysoff_sample (TS ! j)))" by simp
  obtain i1 where i1: "i1 = (if f k < f i then k else i)" by simp
  have "first_least f (k + 1) i1"
    using Suc.prems(1) unfolding f [symmetric] i1 by (auto simp: first_least_def less_Suc_eq intro: less_imp_le order_less_le_trans)
  moreover have "k + 1 + m \<le> length TS" using Suc.prems(2) by simp
  ultimately obtain i' where "sysoff_loop TS [k + 1..<k + 1 + m] (sysoff_sample (TS ! i1)) = Ok (sysoff_sample (TS ! i'))"
    "first_least f (k + 1 + m) i'" using Suc.IH unfolding f by blast
  moreover have "[k..<k + Suc m] = k # [k + 1..<k + 1 + m]" by (simp add: upt_conv_Cons del: upt_Suc)
  moreover have "sysoff_sample (TS ! i1) = (if f k < f i then sysoff_sample (TS ! k) else sysoff_sample (TS ! i))" by (simp add: i1)
  ultimately show ?case using Suc.prems(2) by (auto simp: f Let_def simp del: upt_Suc)
qed auto

lemma extended_best:
  assumes "length (so_TS e) = ptpMaxSamples" and "0 < unat (so_NSamples e)" and "unat (so_NSamples e) \<le> ptpMaxSamples"
  shows "\<exists>i. sysoffEstimateExtended e = Ok (sysoff_sample (so_TS e ! i)) \<and>
    first_least (\<lambda>j. sr_Delay (sysoff_sample (so_TS e ! j))) (unat (so_NSamples e)) i"
proof -
  obtain m where m: "unat (so_NSamples e) = 1 + m" using assms(2) by (metis Suc_eq_plus1_left gr0_implies_Suc)
  have "first_least (\<lambda>j. sr_Delay (sysoff_sample (so_TS e ! j))) 1 0" by (simp add: first_least_def)
  from sysoff_loop_best [OF this, of m] show ?thesis
    using assms by (simp add: sysoffEstimateExtended_def m ptpMaxSamples_def)
qed

text \<open>
  The estimate over the samples of the kernel is that of the sample with the shortest interval between its system times, the
  first of them if there are several. The estimate panics exactly if the kernel reports more samples than the array holds.
\<close>
theorem sysoffEstimateExtended_shortest:
  assumes "length (so_TS e) = ptpMaxSamples"
  shows "(0 < unat (so_NSamples e) \<and> unat (so_NSamples e) \<le> ptpMaxSamples \<longrightarrow>
      (\<exists>i. sysoffEstimateExtended e = Ok (sysoff_sample (so_TS e ! i)) \<and>
        first_least (\<lambda>j. sr_Delay (sysoff_sample (so_TS e ! j))) (unat (so_NSamples e)) i)) \<and>
    (sysoffEstimateExtended e = Inl Panic \<longleftrightarrow> ptpMaxSamples < unat (so_NSamples e))"
proof -
  have loop: "sysoff_loop TS is b = Inl Panic \<longleftrightarrow> (\<exists>i\<in>set is. length TS \<le> i)" for TS "is" b
    by (induction "is" arbitrary: b) (auto simp: index_def Let_def)
  have "(\<exists>i\<in>set [1..<unat (so_NSamples e)]. length (so_TS e) \<le> i) \<longleftrightarrow> ptpMaxSamples < unat (so_NSamples e)"
    using assms by (auto simp: ptpMaxSamples_def)
  then have "sysoffEstimateExtended e = Inl Panic \<longleftrightarrow> ptpMaxSamples < unat (so_NSamples e)"
    using assms by (simp add: sysoffEstimateExtended_def loop ptpMaxSamples_def)
  then show ?thesis using extended_best [OF assms] by blast
qed

section \<open>How good the estimates are\<close>

lemma time_range_Sub:
  assumes "0 \<le> a" "a < 2 ^ 62" "0 \<le> b" "b < 2 ^ 62"
  shows "t_Sub a b = a - b"
  using assms by (intro t_Sub_exact) (simp add: in_i64_def i64_min_def i64_max_def)

lemma in_i64_range_div_second: "0 \<le> t \<Longrightarrow> t < 2 ^ 62 \<Longrightarrow> in_i64 (t div second)"
proof -
  assume t: "0 \<le> t" "t < 2 ^ 62"
  have "t div second \<le> t" "0 \<le> t div second" using t by (simp_all add: div_le_dividend_int pos_imp_zdiv_nonneg_iff)
  then show ?thesis using t by (simp add: in_i64_def i64_min_def i64_max_def)
qed

lemma sample_exact:
  assumes "t1 \<le> t2" "0 \<le> t1" "t2 < 2 ^ 62" "0 \<le> tp" "tp < 2 ^ 62"
  shows "t_Sub (t_Add t1 (quot (t_Sub t2 t1) 2)) tp = t1 + (t2 - t1) div 2 - tp"
proof -
  obtain h where h: "h = (t2 - t1) div 2" by simp
  have h': "0 \<le> h" "h \<le> t2 - t1" using assms(1) by (simp_all add: h div_le_dividend_int)
  have "t_Sub t2 t1 = t2 - t1" using assms by (intro time_range_Sub) linarith+
  moreover have "quot (t2 - t1) 2 = h" using assms(1) by (simp add: h)
  moreover have "t_Add t1 h = t1 + h" using h' assms by (intro t_Add_exact in_i64_range_div_second) linarith+
  moreover have "t_Sub (t1 + h) tp = t1 + h - tp" using h' assms by (intro time_range_Sub) linarith+
  ultimately show ?thesis by (simp add: h)
qed

lemma half_interval_error:
  fixes t1 t2 x :: int
  assumes "t1 \<le> x" "x \<le> t2"
  shows "2 * \<bar>t1 + (t2 - t1) div 2 - x\<bar> \<le> t2 - t1 + 1"
proof -
  obtain h r where h: "h = (t2 - t1) div 2" and "r = (t2 - t1) mod 2" by simp
  then have "t2 - t1 = 2 * h + r" "0 \<le> r" "r \<le> 1" by simp_all
  then show ?thesis unfolding h [symmetric] using assms by arith
qed

lemma basic_error:
  assumes "0 \<le> t1" "t1 \<le> x" "x \<le> t2" "t2 < 2 ^ 62" "tp = x - theta" "0 \<le> tp" "tp < 2 ^ 62"
  shows "2 * \<bar>sr_Offset (sysoffEstimateBasic t1 tp t2) - theta\<bar> \<le> sr_Delay (sysoffEstimateBasic t1 tp t2) + 1"
proof -
  obtain h r where h: "h = (t2 - t1) div 2" and "r = (t2 - t1) mod 2" by simp
  then have r: "t2 - t1 = 2 * h + r" "0 \<le> r" "r \<le> 1" by simp_all
  have sub: "t_Sub t2 t1 = t2 - t1" "t_Sub t2 tp = t2 - tp" using assms by (intro time_range_Sub; linarith)+
  have q: "quot (t2 - t1) 2 = h" using assms by (simp add: h)
  have "in_i64 (t2 - tp - h)" using assms r by (simp add: in_i64_def i64_min_def i64_max_def)
  then have "sr_Offset (sysoffEstimateBasic t1 tp t2) = t2 - tp - h" by (simp add: sysoffEstimateBasic_def Let_def sub q)
  moreover have "sr_Delay (sysoffEstimateBasic t1 tp t2) = t2 - t1" by (simp add: sysoffEstimateBasic_def Let_def sub)
  moreover have "t2 - tp - h - theta = t2 - x - h" using assms(5) by simp
  moreover have "2 * (t2 - x - h) \<le> t2 - t1 + 1" "2 * - (t2 - x - h) \<le> t2 - t1 + 1" using assms(2,3) r by presburger+
  ultimately show ?thesis by (simp add: abs_if)
qed

text \<open>
  C27: The accuracy of the offsets. If the card's clock is behind the system clock by \<open>theta\<close> and every sample reads the card
  between its two system times, then the offset both methods report differs from \<open>theta\<close> by at most half the delay they report,
  rounded up; and no other sample of the kernel has a smaller delay. Times are those until the year 2116.
\<close>
theorem sysoff_accuracy:
  assumes "length (so_TS e) = ptpMaxSamples" and "0 < unat (so_NSamples e)" and "unat (so_NSamples e) \<le> ptpMaxSamples"
    and "\<And>i. i < unat (so_NSamples e) \<Longrightarrow> so_TS e ! i = (a i, p i, b i) \<and>
      0 \<le> ClockTime_Time (a i) \<and> ClockTime_Time (a i) \<le> x i \<and> x i \<le> ClockTime_Time (b i) \<and> ClockTime_Time (b i) < 2 ^ 62 \<and>
      ClockTime_Time (p i) = x i - theta \<and> 0 \<le> x i - theta \<and> x i - theta < 2 ^ 62"
    and "basic = sysoffEstimateBasic (ClockTime_Time (a 0)) (ClockTime_Time (p 0)) (ClockTime_Time (b 0))"
  shows "(\<exists>r. sysoffEstimateExtended e = Ok r \<and> 2 * \<bar>sr_Offset r - theta\<bar> \<le> sr_Delay r + 1 \<and>
      (\<forall>i<unat (so_NSamples e). sr_Delay r \<le> ClockTime_Time (b i) - ClockTime_Time (a i))) \<and>
    2 * \<bar>sr_Offset basic - theta\<bar> \<le> sr_Delay basic + 1"
proof -
  have delay: "t_Sub (ClockTime_Time (b i)) (ClockTime_Time (a i)) = ClockTime_Time (b i) - ClockTime_Time (a i)"
    if "i < unat (so_NSamples e)" for i
    using assms(4) [OF that] by (intro time_range_Sub) linarith+
  have ext: "sr_Delay (sysoff_sample (so_TS e ! i)) = ClockTime_Time (b i) - ClockTime_Time (a i)"
    "2 * \<bar>sr_Offset (sysoff_sample (so_TS e ! i)) - theta\<bar> \<le> sr_Delay (sysoff_sample (so_TS e ! i)) + 1"
    if i: "i < unat (so_NSamples e)" for i
  proof -
    note h = assms(4) [OF i]
    show d: "sr_Delay (sysoff_sample (so_TS e ! i)) = ClockTime_Time (b i) - ClockTime_Time (a i)"
      using h delay [OF i] by (simp add: sysoff_sample_def Let_def)
    have "sr_Offset (sysoff_sample (so_TS e ! i)) =
        ClockTime_Time (a i) + (ClockTime_Time (b i) - ClockTime_Time (a i)) div 2 - ClockTime_Time (p i)"
      using h sample_exact [of "ClockTime_Time (a i)" "ClockTime_Time (b i)" "ClockTime_Time (p i)"]
      by (simp add: sysoff_sample_def Let_def)
    then show "2 * \<bar>sr_Offset (sysoff_sample (so_TS e ! i)) - theta\<bar> \<le> sr_Delay (sysoff_sample (so_TS e ! i)) + 1"
      unfolding d using half_interval_error [of "ClockTime_Time (a i)" "x i" "ClockTime_Time (b i)"] h by (simp add: add_diff_eq)
  qed
  obtain i where i: "sysoffEstimateExtended e = Ok (sysoff_sample (so_TS e ! i))"
    "first_least (\<lambda>j. sr_Delay (sysoff_sample (so_TS e ! j))) (unat (so_NSamples e)) i"
    using extended_best [OF assms(1-3)] by blast
  have one: "\<exists>r. sysoffEstimateExtended e = Ok r \<and> 2 * \<bar>sr_Offset r - theta\<bar> \<le> sr_Delay r + 1 \<and>
      (\<forall>i<unat (so_NSamples e). sr_Delay r \<le> ClockTime_Time (b i) - ClockTime_Time (a i))"
    using i ext by (intro exI [of _ "sysoff_sample (so_TS e ! i)"]) (auto simp: first_least_def)
  have "2 * \<bar>sr_Offset basic - theta\<bar> \<le> sr_Delay basic + 1"
    unfolding assms(5) by (rule basic_error) (use assms(2,4) in auto)
  with one show ?thesis by blast
qed

text \<open>Five samples of a card one second behind; the third is the shortest.\<close>

definition example_sample :: "int \<Rightarrow> int \<Rightarrow> int \<Rightarrow> PTPClockTime \<times> PTPClockTime \<times> PTPClockTime" where
  "example_sample a x b = (\<lparr>ct_Sec = 100, ct_NSec = word_of_int a\<rparr>, \<lparr>ct_Sec = 99, ct_NSec = word_of_int x\<rparr>, \<lparr>ct_Sec = 100, ct_NSec = word_of_int b\<rparr>)"

definition example_extended :: PTPSysOffsetExtended where
  "example_extended = \<lparr>so_NSamples = 2, so_TS = [example_sample 100 150 300, example_sample 400 440 460] @ replicate 23 (zero_clock, zero_clock, zero_clock)\<rparr>"

lemma example_times:
  "uint n < second \<Longrightarrow> ClockTime_Time \<lparr>ct_Sec = s, ct_NSec = n\<rparr> = i64 s * second + uint n"
  by (simp add: ClockTime_Time_def time_Unix_def)

theorem sysoffEstimateExtended_shortest_witness:
  "\<exists>i. sysoffEstimateExtended example_extended = Ok (sysoff_sample (so_TS example_extended ! i)) \<and>
     first_least (\<lambda>j. sr_Delay (sysoff_sample (so_TS example_extended ! j))) 2 i"
  using sysoffEstimateExtended_shortest [of example_extended] by (simp add: example_extended_def ptpMaxSamples_def)

theorem sysoff_accuracy_witness:
  "\<exists>r. sysoffEstimateExtended example_extended = Ok r \<and> 2 * \<bar>sr_Offset r - second\<bar> \<le> sr_Delay r + 1"
proof -
  have i64: "i64 100 = 100" "i64 99 = 99" by (simp_all add: in_i64_def i64_min_def i64_max_def)
  have "(\<exists>r. sysoffEstimateExtended example_extended = Ok r \<and> 2 * \<bar>sr_Offset r - second\<bar> \<le> sr_Delay r + 1 \<and>
      (\<forall>i<unat (so_NSamples example_extended). sr_Delay r \<le>
         ClockTime_Time (snd (snd (so_TS example_extended ! i))) - ClockTime_Time (fst (so_TS example_extended ! i)))) \<and>
    2 * \<bar>sr_Offset (sysoffEstimateBasic (ClockTime_Time (fst (so_TS example_extended ! 0))) (ClockTime_Time (fst (snd (so_TS example_extended ! 0))))
        (ClockTime_Time (snd (snd (so_TS example_extended ! 0))))) - second\<bar> \<le>
      sr_Delay (sysoffEstimateBasic (ClockTime_Time (fst (so_TS example_extended ! 0))) (ClockTime_Time (fst (snd (so_TS example_extended ! 0))))
        (ClockTime_Time (snd (snd (so_TS example_extended ! 0))))) + 1"
    by (rule sysoff_accuracy [where x = "\<lambda>i. 100 * second + (if i = 0 then 150 else 440)" and p = "\<lambda>i. fst (snd (so_TS example_extended ! i))"])
      (auto simp: example_extended_def ptpMaxSamples_def less_2_cases_iff example_sample_def i64 second_def example_times)
  then show ?thesis by blast
qed

end
