(* ===== verification/PTP_Check.thy ===== *)
theory PTP_Check
  imports PTP_Management PHC
begin

text \<open>
  \<open>cmd/ptpcheck\<close> and \<open>oscillatord\<close>: the check of a ptp4l daemon over its management socket, the diagnosis and the statistics
  made of it, the clocks of the network cards, and the status of a time card. The outcomes of system calls, \<open>json.Marshal\<close> and
  \<open>json.Unmarshal\<close> are arguments; of a diagnosis the severity is modelled, not the coloured text.
\<close>

section \<open>The check\<close>

record PTPCheckResult =
  pr_OffsetFromMasterNS :: f64
  pr_GrandmasterPresent :: bool
  pr_StepsRemoved :: int
  pr_MeanPathDelayNS :: f64
  pr_ClockIdentity :: string
  pr_GrandmasterIdentity :: string
  pr_IngressTimeNS :: u64
  pr_PortStatsTX :: "(string \<times> u64) list"
  pr_PortStatsRX :: "(string \<times> u64) list"

text \<open>The entries of the maps in the order of \<open>MessageTypeToString\<close>.\<close>

fun port_counters :: "u64 list \<Rightarrow> (MessageType \<times> string) list \<Rightarrow> (string \<times> u64) list res" where
  "port_counters ws [] = Ok []"
| "port_counters ws ((k, v) # r) =
     bind_res (index ws (unat k)) (\<lambda>n. bind_res (port_counters ws r) (\<lambda>m. Ok ((v, n) # m)))"

definition check_port_stats :: "PortStatsNPTLV res \<Rightarrow> PTPCheckResult \<Rightarrow> PTPCheckResult res" where
  "check_port_stats portStats result =
     (case portStats of
        Inl Panic \<Rightarrow> Inl Panic
      | Inl (GoError _) \<Rightarrow> Ok result
      | Inr t \<Rightarrow>
          bind_res (port_counters (ps_RXMsgType (pn_PortStats t)) MessageTypeToString) (\<lambda>rx.
          bind_res (port_counters (ps_TXMsgType (pn_PortStats t)) MessageTypeToString) (\<lambda>tx.
            Ok (result\<lparr>pr_PortStatsRX := rx, pr_PortStatsTX := tx\<rparr>))))"

definition check_time_status :: "TimeStatusNPTLV res \<Rightarrow> PTPCheckResult \<Rightarrow> PTPCheckResult res" where
  "check_time_status timeStatus result =
     (case timeStatus of
        Inl Panic \<Rightarrow> Inl Panic
      | Inl (GoError _) \<Rightarrow> Ok result
      | Inr t \<Rightarrow> Ok (result\<lparr>pr_IngressTimeNS := tn_IngressTimeNS t\<rparr>))"

definition check_result :: "CurrentDataSetTLV \<Rightarrow> DefaultDataSetTLV \<Rightarrow> ParentDataSetTLV \<Rightarrow> PTPCheckResult" where
  "check_result currentDataSet defaultDataSet parentDataSet =
     \<lparr>pr_OffsetFromMasterNS = TimeInterval_Nanoseconds (cd_OffsetFromMaster currentDataSet),
      pr_GrandmasterPresent = (dd_ClockIdentity defaultDataSet \<noteq> pd_GrandmasterIdentity parentDataSet),
      pr_StepsRemoved = uint (cd_StepsRemoved currentDataSet),
      pr_MeanPathDelayNS = TimeInterval_Nanoseconds (cd_MeanPathDelay currentDataSet),
      pr_ClockIdentity = ClockIdentity_String (dd_ClockIdentity defaultDataSet),
      pr_GrandmasterIdentity = ClockIdentity_String (pd_GrandmasterIdentity parentDataSet),
      pr_IngressTimeNS = 0, pr_PortStatsTX = [], pr_PortStatsRX = []\<rparr>"

text \<open>The outcomes of the write and the read of query number \<open>i\<close> are \<open>io i\<close>.\<close>

definition Run :: "mgmt_decoders \<Rightarrow> (nat \<Rightarrow> string option \<times> bytes res) \<Rightarrow> u16 \<Rightarrow> MgmtClient \<Rightarrow> MgmtClient \<times> PTPCheckResult res" where
  "Run dec io pid c =
     (let (c, currentDataSet) = CurrentDataSet dec (fst (io 0)) (snd (io 0)) pid c in
      case currentDataSet of Inl e \<Rightarrow> (c, Inl e) | Inr currentDataSet \<Rightarrow>
      let (c, defaultDataSet) = DefaultDataSet dec (fst (io 1)) (snd (io 1)) pid c in
      case defaultDataSet of Inl e \<Rightarrow> (c, Inl e) | Inr defaultDataSet \<Rightarrow>
      let (c, parentDataSet) = ParentDataSet dec (fst (io 2)) (snd (io 2)) pid c in
      case parentDataSet of Inl e \<Rightarrow> (c, Inl e) | Inr parentDataSet \<Rightarrow>
      let result = check_result currentDataSet defaultDataSet parentDataSet;
          (c, portStats) = PortStatsNP dec (fst (io 3)) (snd (io 3)) pid c in
      case check_port_stats portStats result of Inl e \<Rightarrow> (c, Inl e) | Inr result \<Rightarrow>
      let (c, timeStatus) = TimeStatusNP dec (fst (io 4)) (snd (io 4)) pid c in
      (c, check_time_status timeStatus result))"

text \<open>
  Connecting: the client, or the error of the first call that fails, and whether there is a connection for the cleanup to close.
\<close>

datatype cleanup_op = Close_conn | Remove_socket

definition PrepareClient :: "unit res \<Rightarrow> unit res \<Rightarrow> unit res \<Rightarrow> unit res \<Rightarrow> MgmtClient res \<times> bool" where
  "PrepareClient ResolveUnixAddr DialUnix Chmod SetReadDeadline =
     (case ResolveUnixAddr of
        Inl e \<Rightarrow> (Inl e, False)
      | Inr _ \<Rightarrow> (case DialUnix of
            Inl e \<Rightarrow> (Inl e, False)
          | Inr _ \<Rightarrow> (bind_res Chmod (\<lambda>_. bind_res SetReadDeadline (\<lambda>_. Ok \<lparr>mc_Sequence = 0, mc_Sent = []\<rparr>)), True)))"

definition cleanup :: "bool \<Rightarrow> cleanup_op list" where
  "cleanup conn = (if conn then [Close_conn] else []) @ [Remove_socket]"

definition RunCheck ::
  "mgmt_decoders \<Rightarrow> (nat \<Rightarrow> string option \<times> bytes res) \<Rightarrow> u16 \<Rightarrow> unit res \<Rightarrow> unit res \<Rightarrow> unit res \<Rightarrow> unit res \<Rightarrow>
   PTPCheckResult res \<times> cleanup_op list" where
  "RunCheck dec io pid resolve dial chmod deadline =
     (let (c, conn) = PrepareClient resolve dial chmod deadline in
      (bind_res c (\<lambda>c. snd (Run dec io pid c)), cleanup conn))"

section \<open>Diagnosis\<close>

datatype ptp_status = PTP_OK | PTP_WARN | PTP_FAIL | PTP_CRITICAL

definition ptp_checkAgainstThreshold :: "f64 \<Rightarrow> f64 \<Rightarrow> f64 \<Rightarrow> bool \<Rightarrow> ptp_status" where
  "ptp_checkAgainstThreshold value warnThreshold failThreshold failOnZero =
     (let absValue = \<bar>value\<bar> in
      if failOnZero \<and> absValue = 0 then PTP_FAIL
      else if absValue > failThreshold then PTP_FAIL
      else if absValue > warnThreshold then PTP_WARN
      else PTP_OK)"

definition checkGMPresent :: "PTPCheckResult \<Rightarrow> ptp_status" where
  "checkGMPresent r = (if \<not> pr_GrandmasterPresent r then PTP_FAIL else PTP_OK)"

text \<open>A panic of \<open>phc.Time\<close> ends the process.\<close>

definition checkSyncActive :: "phc_env \<Rightarrow> string \<Rightarrow> PTPCheckResult \<Rightarrow> ptp_status res" where
  "checkSyncActive env iface r =
     (if pr_IngressTimeNS r = 0 then Ok PTP_WARN
      else case phc_Time env iface MethodIoctlSysOffsetExtended of
        Inl Panic \<Rightarrow> Inl Panic
      | Inl (GoError _) \<Rightarrow> Ok PTP_WARN
      | Inr phcTime \<Rightarrow>
          (let lastSync = time_Unix 0 (sint (pr_IngressTimeNS r)); since = t_Sub phcTime lastSync in
           Ok (ptp_checkAgainstThreshold (f64_of_int since) (of_int second) (of_int (5 * second)) False)))"

definition ptp_checkOffset :: "PTPCheckResult \<Rightarrow> ptp_status" where
  "ptp_checkOffset r = ptp_checkAgainstThreshold (pr_OffsetFromMasterNS r) 250000 1000000 True"

definition checkPathDelay :: "PTPCheckResult \<Rightarrow> ptp_status" where
  "checkPathDelay r = ptp_checkAgainstThreshold (pr_MeanPathDelayNS r) 100000000 250000000 True"

definition ptp_diagnosers :: "phc_env \<Rightarrow> string \<Rightarrow> (PTPCheckResult \<Rightarrow> ptp_status res) list" where
  "ptp_diagnosers env iface =
     [\<lambda>r. Ok (checkGMPresent r), checkSyncActive env iface, \<lambda>r. Ok (ptp_checkOffset r), \<lambda>r. Ok (checkPathDelay r)]"

text \<open>The statuses printed, and how the run ends: \<open>Some True\<close> is the exit after a critical one, \<open>None\<close> a panic.\<close>

fun ptp_runDiagnosers :: "(PTPCheckResult \<Rightarrow> ptp_status res) list \<Rightarrow> PTPCheckResult \<Rightarrow> ptp_status list \<times> bool option" where
  "ptp_runDiagnosers [] r = ([], Some False)"
| "ptp_runDiagnosers (check # checks) r =
     (case check r of
        Inl _ \<Rightarrow> ([], None)
      | Inr PTP_CRITICAL \<Rightarrow> ([PTP_CRITICAL], Some True)
      | Inr status \<Rightarrow> (let (l, x) = ptp_runDiagnosers checks r in (status # l, x)))"

section \<open>Statistics\<close>

record ptp_stats =
  st_Offset :: f64
  st_OffsetAbs :: f64
  st_MeanPathDelay :: f64
  st_StepsRemoved :: int
  st_GMPresent :: int

definition printStats :: "(ptp_stats \<Rightarrow> string res) \<Rightarrow> PTPCheckResult \<Rightarrow> string res" where
  "printStats Marshal r =
     Marshal \<lparr>st_Offset = pr_OffsetFromMasterNS r, st_OffsetAbs = \<bar>pr_OffsetFromMasterNS r\<bar>, st_MeanPathDelay = pr_MeanPathDelayNS r,
              st_StepsRemoved = pr_StepsRemoved r, st_GMPresent = (if pr_GrandmasterPresent r then 1 else 0)\<rparr>"

text \<open>The assignments to the output map, in order.\<close>

definition port_stats_output :: "PTPCheckResult \<Rightarrow> (string \<times> u64) list" where
  "port_stats_output r =
     map (\<lambda>(k, v). (ToLower (''ptp.portstats.tx.'' @ k), v)) (pr_PortStatsTX r) @
     map (\<lambda>(k, v). (ToLower (''ptp.portstats.rx.'' @ k), v)) (pr_PortStatsRX r)"

definition printPortStats :: "((string \<rightharpoonup> u64) \<Rightarrow> string res) \<Rightarrow> PTPCheckResult \<Rightarrow> string res" where
  "printPortStats Marshal r = Marshal (map_of (rev (port_stats_output r)))"

section \<open>Clocks and interfaces\<close>

definition printPHC :: "phc_env \<Rightarrow> string \<Rightarrow> TimeMethod \<Rightarrow> SysoffResult res" where
  "printPHC env device mth =
     (case TimeAndOffsetFromDevice env device mth of
        Inl Panic \<Rightarrow> Inl Panic
      | Inl (GoError m) \<Rightarrow>
          if mth = MethodSyscallClockGettime then Err m else TimeAndOffsetFromDevice env device MethodSyscallClockGettime
      | Inr r \<Rightarrow> Ok r)"

text \<open>\<open>filepath.Join("/dev", base)\<close> for what \<open>filepath.Base\<close> returns.\<close>

definition dev_path :: "string \<Rightarrow> string" where
  "dev_path base = (if base = ''/'' \<or> base = ''.'' then ''/dev'' else if base = ''..'' then ''/'' else ''/dev/'' @ base)"

definition ptpDeviceNum :: "(string \<Rightarrow> string res) \<Rightarrow> string \<Rightarrow> int res" where
  "ptpDeviceNum EvalSymlinks ptpPath =
     bind_res (EvalSymlinks (dev_path (filepath_Base ptpPath))) (\<lambda>realPath.
       let n = dropWhile (\<lambda>c. \<not> is_digit c) (filepath_Base realPath) in
       if Atoi_fails n then Err ''strconv.Atoi'' else Ok (Atoi n))"

definition printIfaceData :: "IfaceData \<Rightarrow> bool \<Rightarrow> string" where
  "printIfaceData d reverse =
     (let i = sint (ti_PHCIndex (if_TSInfo d)) in
      if i < 0 then ''No PHC support for '' @ if_Name d
      else if reverse then ''/dev/ptp'' @ show_int i @ '' -> '' @ if_Name d
      else if_Name d @ '' -> /dev/ptp'' @ show_int i)"

definition getDevice :: "phc_env \<Rightarrow> string \<Rightarrow> string list res" where
  "getDevice env iface =
     bind_res (IfacesInfo env) (\<lambda>ifaces.
       if ifaces = [] then Err ''no network devices found''
       else let found = filter (\<lambda>d. if_Name d = iface) ifaces in
         if found = [] then Err ''no nic information for %s''
         else Ok (map (\<lambda>d. printIfaceData d False) found))"

definition getIface :: "phc_env \<Rightarrow> int \<Rightarrow> string list res" where
  "getIface env ptpDevice =
     bind_res (IfacesInfo env) (\<lambda>ifaces.
       if ifaces = [] then Err ''no network devices found''
       else let found = (if ptpDevice < 0 then ifaces else filter (\<lambda>d. sint (ti_PHCIndex (if_TSInfo d)) = ptpDevice) ifaces) in
         if found = [] then Err ''no nic found for /dev/ptp%d''
         else Ok (map (\<lambda>d. printIfaceData d True) found))"

text \<open>What is printed before the first error, which ends the process, and that error.\<close>

fun run_args :: "(string \<Rightarrow> string list res) \<Rightarrow> string list \<Rightarrow> string list \<times> unit res" where
  "run_args f [] = ([], Ok ())"
| "run_args f (a # as) =
     (case f a of Inl e \<Rightarrow> ([], Inl e) | Inr out \<Rightarrow> (let (rest, r) = run_args f as in (out @ rest, r)))"

definition mapCmd :: "phc_env \<Rightarrow> (string \<Rightarrow> string res) \<Rightarrow> bool \<Rightarrow> string list \<Rightarrow> string list \<times> unit res" where
  "mapCmd env EvalSymlinks mapIfaceFlag args =
     (case (if args = [] then getIface env (-1) else Ok []) of
        Inl e \<Rightarrow> ([], Inl e)
      | Inr out \<Rightarrow>
          (let (rest, r) = (if mapIfaceFlag then run_args (getDevice env) args
             else run_args (\<lambda>arg. bind_res (ptpDeviceNum EvalSymlinks arg) (getIface env)) args) in
           (out @ rest, r)))"

section \<open>Time card status\<close>

definition enum_String :: "string list \<Rightarrow> int \<Rightarrow> string" where
  "enum_String names v = (if 0 \<le> v \<and> nat v < length names then names ! nat v else ''UNSUPPORTED VALUE'')"

definition AntennaStatus_String :: "int \<Rightarrow> string" where
  "AntennaStatus_String = enum_String [''INIT'', ''DONTKNOW'', ''OK'', ''SHORT'', ''OPEN'', ''UNDEFINED'']"

definition AntennaPower_String :: "int \<Rightarrow> string" where
  "AntennaPower_String = enum_String [''OFF'', ''ON'', ''DONTKNOW'', ''IDLE'', ''UNDEFINED'']"

definition GNSSFix_String :: "int \<Rightarrow> string" where
  "GNSSFix_String = enum_String [''Unknown'', ''No fix'', ''DR only'', ''Time'', ''2D'', ''3D'', ''3D_DR'', ''RTK_FLOAT'', ''RTK_FIXED'',
     ''RTK_FLOAT_DR'', ''RTK_FIXED_DR'']"

definition LeapSecondChange_String :: "int \<Rightarrow> string" where
  "LeapSecondChange_String c =
     (if c = 0 then ''NO WARNING'' else if c = 1 then ''ADD SECOND'' else if c = -1 then ''DEL SECOND'' else ''UNSUPPORTED VALUE'')"

record Oscillator =
  os_Model :: string
  os_FineCtrl :: int
  os_CoarseCtrl :: int
  os_Lock :: bool
  os_Temperature :: f64

record GNSS =
  gn_Fix :: int
  gn_FixOK :: bool
  gn_AntennaPower :: int
  gn_AntennaStatus :: int
  gn_LSChange :: int
  gn_LeapSeconds :: int

record Oscillatord_Status =
  od_Oscillator :: Oscillator
  od_GNSS :: GNSS

text \<open>One read into a buffer of 1000 bytes.\<close>

definition Oscillatord_ReadStatus :: "unit res \<Rightarrow> bytes res \<Rightarrow> (bytes \<Rightarrow> Oscillatord_Status res) \<Rightarrow> Oscillatord_Status res" where
  "Oscillatord_ReadStatus wr rd Unmarshal =
     (case wr of Inl _ \<Rightarrow> Err ''writing to oscillatord conn: %w''
      | Inr _ \<Rightarrow> (case rd of Inl _ \<Rightarrow> Err ''reading from oscillatord conn: %w''
          | Inr b \<Rightarrow>
              let buf = take 1000 b in
              if length buf = 0 then Err ''read 0 bytes from oscillatord''
              else case Unmarshal buf of Inl _ \<Rightarrow> Err ''unmarshalling JSON: %w'' | Inr s \<Rightarrow> Ok s))"

definition bool2int :: "bool \<Rightarrow> int" where
  "bool2int b = (if b then 1 else 0)"

definition oscillatord_output :: "f64_cvt \<Rightarrow> Oscillatord_Status \<Rightarrow> (string \<times> int) list" where
  "oscillatord_output cvt s =
     [(''ptp.timecard.temperature'', f64_to_i64 cvt (os_Temperature (od_Oscillator s))),
      (''ptp.timecard.lock'', bool2int (os_Lock (od_Oscillator s))),
      (''ptp.timecard.gnss.fix_num'', gn_Fix (od_GNSS s)),
      (''ptp.timecard.gnss.fix_ok'', bool2int (gn_FixOK (od_GNSS s))),
      (''ptp.timecard.gnss.antenna_power'', gn_AntennaPower (od_GNSS s)),
      (''ptp.timecard.gnss.antenna_status'', gn_AntennaStatus (od_GNSS s)),
      (''ptp.timecard.gnss.leap_second_change'', gn_LSChange (od_GNSS s)),
      (''ptp.timecard.gnss.leap_seconds'', gn_LeapSeconds (od_GNSS s))]"

definition printOscillatordJSON :: "f64_cvt \<Rightarrow> ((string \<times> int) list \<Rightarrow> string res) \<Rightarrow> Oscillatord_Status \<Rightarrow> string res" where
  "printOscillatordJSON cvt Marshal s = Marshal (oscillatord_output cvt s)"

text \<open>The lines of the readable output; \<open>fmt2\<close> is \<open>%.2f\<close>, \<open>fmtb\<close> is \<open>%v\<close> of a truth value.\<close>

definition printOscillatord :: "(f64 \<Rightarrow> string) \<Rightarrow> (bool \<Rightarrow> string) \<Rightarrow> Oscillatord_Status \<Rightarrow> string list" where
  "printOscillatord fmt2 fmtb s =
     (let osc = od_Oscillator s; g = od_GNSS s; named = (\<lambda>str v. str v @ '' ('' @ show_int v @ '')'') in
      [''Oscillator:'', CHR 0x09 # ''model: '' @ os_Model osc, CHR 0x09 # ''fine_ctrl: '' @ show_int (os_FineCtrl osc),
       CHR 0x09 # ''coarse_ctrl: '' @ show_int (os_CoarseCtrl osc), CHR 0x09 # ''lock: '' @ fmtb (os_Lock osc),
       CHR 0x09 # ''temperature: '' @ fmt2 (os_Temperature osc) @ ''C'', ''GNSS:'',
       CHR 0x09 # ''fix: '' @ named GNSSFix_String (gn_Fix g), CHR 0x09 # ''fixOk: '' @ fmtb (gn_FixOK g),
       CHR 0x09 # ''antenna_power: '' @ named AntennaPower_String (gn_AntennaPower g),
       CHR 0x09 # ''antenna_status: '' @ named AntennaStatus_String (gn_AntennaStatus g),
       CHR 0x09 # ''leap_second_change: '' @ named LeapSecondChange_String (gn_LSChange g),
       CHR 0x09 # ''leap_seconds: '' @ show_int (gn_LeapSeconds g)])"

definition oscillatordRun ::
  "unit res \<Rightarrow> unit res \<Rightarrow> unit res \<Rightarrow> bytes res \<Rightarrow> (bytes \<Rightarrow> Oscillatord_Status res) \<Rightarrow> f64_cvt \<Rightarrow> ((string \<times> int) list \<Rightarrow> string res) \<Rightarrow>
   (f64 \<Rightarrow> string) \<Rightarrow> (bool \<Rightarrow> string) \<Rightarrow> bool \<Rightarrow> string list res" where
  "oscillatordRun dial deadline wr rd Unmarshal cvt Marshal fmt2 fmtb jsonOut =
     (case dial of Inl _ \<Rightarrow> Err ''connecting to oscillatord: %w''
      | Inr _ \<Rightarrow> (case deadline of Inl _ \<Rightarrow> Err ''setting connection deadline: %w''
          | Inr _ \<Rightarrow> bind_res (Oscillatord_ReadStatus wr rd Unmarshal) (\<lambda>status.
              if jsonOut then bind_res (printOscillatordJSON cvt Marshal status) (\<lambda>j. Ok [j])
              else Ok (printOscillatord fmt2 fmtb status))))"

section \<open>Queries\<close>

text \<open>The five queries share one contract: a request is sent and the TLV of the kind asked for is selected from the reply.\<close>

locale mgmt_query =
  fixes query :: "mgmt_decoders \<Rightarrow> string option \<Rightarrow> bytes res \<Rightarrow> u16 \<Rightarrow> MgmtClient \<Rightarrow> MgmtClient \<times> 'a res"
    and request :: "u16 \<Rightarrow> Management" and select :: "ManagementTLV \<Rightarrow> 'a option"
  assumes query_eq: "query dec wr rd pid c =
    (fst (Communicate dec wr rd c (request pid)),
     bind_res (snd (Communicate dec wr rd c (request pid))) (\<lambda>p.
       case select (mg_TLV p) of Some t \<Rightarrow> Ok t | None \<Rightarrow> Err ''got unexpected management TLV %T, wanted %T''))"
begin

lemma sequence: "mc_Sequence (fst (query dec wr rd pid c)) = mc_Sequence c + 1"
  by (simp add: query_eq Communicate_def SendPacket_def Let_def Management_MarshalBinary_def split: option.splits)

lemma no_panic:
  assumes "rd \<noteq> Inl Panic"
  shows "snd (query mgmtTLVDecoder wr rd pid c) \<noteq> Inl Panic"
  using assms decodeMgmt_panic_free [OF builtin_decoders_panic_free]
  by (auto simp: query_eq Communicate_def SendPacket_def Let_def Management_MarshalBinary_def bind_res_panic_iff
      split: option.splits mgmt_packet.splits)

lemma decoded:
  assumes "snd (query mgmtTLVDecoder wr rd pid c) = Ok t"
  shows "\<exists>m resp. rd = Ok resp \<and> decodeMgmtPacket mgmtTLVDecoder (take 1024 resp) = Ok (Mgmt_Management m) \<and> select (mg_TLV m) = Some t"
  using assms
  by (auto simp: query_eq Communicate_def SendPacket_def Let_def Management_MarshalBinary_def bind_res_Ok_iff
      split: option.splits mgmt_packet.splits) (metis mgmt_packet.exhaust)

lemma outcome:
  obtains c' x where "query dec wr rd pid c = (c', x)" "mc_Sequence c' = mc_Sequence c + 1"
  using sequence [of dec wr rd pid c] by (metis fst_conv surj_pair)

lemma reply:
  assumes "decodeMgmtPacket dec (take 1024 resp) = Ok (Mgmt_Management m)" and "select (mg_TLV m) = Some t"
  obtains c' where "query dec None (Ok resp) pid c = (c', Ok t)" "mc_Sequence c' = mc_Sequence c + 1"
proof -
  obtain c' x where "query dec None (Ok resp) pid c = (c', x)" "mc_Sequence c' = mc_Sequence c + 1" by (rule outcome)
  then show thesis using that assms
    by (simp add: query_eq Communicate_def SendPacket_def Let_def Management_MarshalBinary_def)
qed

end

definition sel_Current :: "ManagementTLV \<Rightarrow> CurrentDataSetTLV option" where
  "sel_Current t = (case t of Current_TLV x \<Rightarrow> Some x | _ \<Rightarrow> None)"
definition sel_Default :: "ManagementTLV \<Rightarrow> DefaultDataSetTLV option" where
  "sel_Default t = (case t of Default_TLV x \<Rightarrow> Some x | _ \<Rightarrow> None)"
definition sel_Parent :: "ManagementTLV \<Rightarrow> ParentDataSetTLV option" where
  "sel_Parent t = (case t of Parent_TLV x \<Rightarrow> Some x | _ \<Rightarrow> None)"
definition sel_PortStats :: "ManagementTLV \<Rightarrow> PortStatsNPTLV option" where
  "sel_PortStats t = (case t of PortStatsNP_TLV x \<Rightarrow> Some x | _ \<Rightarrow> None)"
definition sel_TimeStatus :: "ManagementTLV \<Rightarrow> TimeStatusNPTLV option" where
  "sel_TimeStatus t = (case t of TimeStatusNP_TLV x \<Rightarrow> Some x | _ \<Rightarrow> None)"

interpretation current_query: mgmt_query CurrentDataSet CurrentDataSetRequest sel_Current
  by unfold_locales (simp add: CurrentDataSet_def sel_Current_def Let_def case_prod_unfold ManagementTLV.case_distrib cong: ManagementTLV.case_cong)

interpretation default_query: mgmt_query DefaultDataSet DefaultDataSetRequest sel_Default
  by unfold_locales (simp add: DefaultDataSet_def sel_Default_def Let_def case_prod_unfold ManagementTLV.case_distrib cong: ManagementTLV.case_cong)

interpretation parent_query: mgmt_query ParentDataSet ParentDataSetRequest sel_Parent
  by unfold_locales (simp add: ParentDataSet_def sel_Parent_def Let_def case_prod_unfold ManagementTLV.case_distrib cong: ManagementTLV.case_cong)

interpretation port_query: mgmt_query PortStatsNP PortStatsNPRequest sel_PortStats
  by unfold_locales (simp add: PortStatsNP_def sel_PortStats_def Let_def case_prod_unfold ManagementTLV.case_distrib cong: ManagementTLV.case_cong)

interpretation time_query: mgmt_query TimeStatusNP TimeStatusNPRequest sel_TimeStatus
  by unfold_locales (simp add: TimeStatusNP_def sel_TimeStatus_def Let_def case_prod_unfold ManagementTLV.case_distrib cong: ManagementTLV.case_cong)

text \<open>A decoded PORT_STATS_NP has sixteen counters in each direction, so no message type is out of range.\<close>

lemma decoded_PortStats_length:
  assumes "decodeMgmtPacket mgmtTLVDecoder d = Ok (Mgmt_Management m)" and "mg_TLV m = PortStatsNP_TLV t"
  shows "length (ps_RXMsgType (pn_PortStats t)) = 16 \<and> length (ps_TXMsgType (pn_PortStats t)) = 16"
proof -
  have "Management_UnmarshalBinary mgmtTLVDecoder d = Ok m"
    using assms(1) by (auto simp: decodeMgmtPacket_def bind_res_Ok_iff split: sum.splits goerr.splits if_splits)
  then obtain i dec r where "mgmtTLVDecoder i = Some dec" "dec r = Ok (PortStatsNP_TLV t)"
    using assms(2) by (auto simp: Management_UnmarshalBinary_def bind_res_Ok_iff split: if_splits option.splits)
  then have "decode_PortStatsNP r = Ok (PortStatsNP_TLV t)"
    by (auto simp: mgmtTLVDecoder_def read_tlv_def bind_res_Ok_iff split: if_splits)
  then show ?thesis
    by (auto simp: decode_PortStatsNP_def bind_res_Ok_iff binary_Read_def PortStats_codec_def split: if_splits)
qed

definition counters_of :: "u64 list \<Rightarrow> (string \<times> u64) list" where
  "counters_of ws = map (\<lambda>(k, v). (v, ws ! unat k)) MessageTypeToString"

lemma port_counters_eq:
  assumes "length ws = 16"
  shows "port_counters ws MessageTypeToString = Ok (counters_of ws)"
proof -
  have "port_counters ws t = Ok (map (\<lambda>(k, v). (v, ws ! unat k)) t)" if "list_all (\<lambda>(k, v). unat k < length ws) t" for t
    using that by (induction t) auto
  then show ?thesis unfolding counters_of_def using assms by (simp add: MessageTypeToString_def)
qed

text \<open>Neither of the optional queries makes the check fail.\<close>

lemma check_port_stats_outcome:
  assumes "PortStatsNP mgmtTLVDecoder wr rd pid c = (c', ps)" and "rd \<noteq> Inl Panic"
    and "pr_PortStatsRX r = []" and "pr_PortStatsTX r = []"
  shows "\<exists>rx tx. check_port_stats ps r = Ok (r\<lparr>pr_PortStatsRX := rx, pr_PortStatsTX := tx\<rparr>) \<and>
    (rx = [] \<and> tx = [] \<or> (\<exists>a b. length a = 16 \<and> length b = 16 \<and> rx = counters_of a \<and> tx = counters_of b))"
proof (cases ps)
  case (Inl e)
  moreover have "ps \<noteq> Inl Panic" using port_query.no_panic [OF assms(2), of wr pid c] by (simp add: assms(1))
  ultimately have "check_port_stats ps r = Ok r" by (cases e) (simp_all add: check_port_stats_def)
  then show ?thesis using assms(3,4) by (intro exI [of _ "[]"]) simp
next
  case (Inr t)
  obtain m d where "decodeMgmtPacket mgmtTLVDecoder d = Ok (Mgmt_Management m)" "sel_PortStats (mg_TLV m) = Some t"
    using port_query.decoded [of wr rd pid c t] by (auto simp: assms(1) Inr)
  then have "length (ps_RXMsgType (pn_PortStats t)) = 16 \<and> length (ps_TXMsgType (pn_PortStats t)) = 16"
    by (intro decoded_PortStats_length) (auto simp: sel_PortStats_def split: ManagementTLV.splits)
  then show ?thesis by (auto simp: Inr check_port_stats_def port_counters_eq)
qed

lemma check_time_status_outcome:
  assumes "TimeStatusNP mgmtTLVDecoder wr rd pid c = (c', ts)" and "rd \<noteq> Inl Panic"
  shows "\<exists>n. check_time_status ts r = Ok (r\<lparr>pr_IngressTimeNS := n\<rparr>)"
proof -
  have "ts \<noteq> Inl Panic" using time_query.no_panic [OF assms(2), of wr pid c] by (simp add: assms(1))
  then consider m where "ts = Inl (GoError m)" | t where "ts = Ok t" by (metis goerr.exhaust sum.exhaust)
  then show ?thesis
  proof cases
    case 1
    then show ?thesis by (intro exI [of _ "pr_IngressTimeNS r"]) (simp add: check_time_status_def)
  qed (auto simp: check_time_status_def)
qed

text \<open>
  What a check reports. If the daemon answers the first three queries, the check succeeds whatever becomes of the other two: it
  reports the daemon's offset, path delay, steps and identities, says that a grandmaster is present exactly if its identity is not
  the clock's own, counts either nothing or all ten message types in both directions, and has advanced the sequence number by five.
\<close>
theorem Run_result:
  assumes "\<And>i. i < 3 \<Longrightarrow> io i = (None, Ok (resp i)) \<and> decodeMgmtPacket mgmtTLVDecoder (take 1024 (resp i)) = Ok (Mgmt_Management (m i))"
    and "mg_TLV (m 0) = Current_TLV cur" and "mg_TLV (m 1) = Default_TLV def" and "mg_TLV (m 2) = Parent_TLV par"
    and "snd (io 3) \<noteq> Inl Panic" and "snd (io 4) \<noteq> Inl Panic"
  shows "\<exists>c' r. Run mgmtTLVDecoder io pid c = (c', Ok r) \<and> mc_Sequence c' = mc_Sequence c + 5 \<and>
    pr_OffsetFromMasterNS r = TimeInterval_Nanoseconds (cd_OffsetFromMaster cur) \<and>
    pr_MeanPathDelayNS r = TimeInterval_Nanoseconds (cd_MeanPathDelay cur) \<and>
    pr_StepsRemoved r = uint (cd_StepsRemoved cur) \<and>
    pr_GrandmasterPresent r = (dd_ClockIdentity def \<noteq> pd_GrandmasterIdentity par) \<and>
    (pr_PortStatsRX r = [] \<and> pr_PortStatsTX r = [] \<or>
     (\<exists>rx tx. length rx = 16 \<and> length tx = 16 \<and> pr_PortStatsRX r = counters_of rx \<and> pr_PortStatsTX r = counters_of tx))"
proof -
  have io: "io 0 = (None, Ok (resp 0))" "io (Suc 0) = (None, Ok (resp 1))" "io 2 = (None, Ok (resp 2))" using assms(1) by simp_all
  obtain c1 where c1: "CurrentDataSet mgmtTLVDecoder None (Ok (resp 0)) pid c = (c1, Ok cur)" "mc_Sequence c1 = mc_Sequence c + 1"
    by (rule current_query.reply [of mgmtTLVDecoder "resp 0" "m 0" cur]) (use assms(1) [of 0] assms(2) in \<open>auto simp: sel_Current_def\<close>)
  obtain c2 where c2: "DefaultDataSet mgmtTLVDecoder None (Ok (resp 1)) pid c1 = (c2, Ok def)" "mc_Sequence c2 = mc_Sequence c1 + 1"
    by (rule default_query.reply [of mgmtTLVDecoder "resp 1" "m 1" def]) (use assms(1) [of 1] assms(3) in \<open>auto simp: sel_Default_def\<close>)
  obtain c3 where c3: "ParentDataSet mgmtTLVDecoder None (Ok (resp 2)) pid c2 = (c3, Ok par)" "mc_Sequence c3 = mc_Sequence c2 + 1"
    by (rule parent_query.reply [of mgmtTLVDecoder "resp 2" "m 2" par]) (use assms(1) [of 2] assms(4) in \<open>auto simp: sel_Parent_def\<close>)
  obtain c4 ps where c4: "PortStatsNP mgmtTLVDecoder (fst (io 3)) (snd (io 3)) pid c3 = (c4, ps)" "mc_Sequence c4 = mc_Sequence c3 + 1"
    by (rule port_query.outcome)
  obtain c5 ts where c5: "TimeStatusNP mgmtTLVDecoder (fst (io 4)) (snd (io 4)) pid c4 = (c5, ts)" "mc_Sequence c5 = mc_Sequence c4 + 1"
    by (rule time_query.outcome)
  obtain r0 where r0: "r0 = check_result cur def par" by simp
  obtain rx tx where r1: "check_port_stats ps r0 = Ok (r0\<lparr>pr_PortStatsRX := rx, pr_PortStatsTX := tx\<rparr>)"
    "rx = [] \<and> tx = [] \<or> (\<exists>a b. length a = 16 \<and> length b = 16 \<and> rx = counters_of a \<and> tx = counters_of b)"
    using check_port_stats_outcome [OF c4(1) assms(5), of r0] by (auto simp: r0 check_result_def)
  obtain n where "check_time_status ts (r0\<lparr>pr_PortStatsRX := rx, pr_PortStatsTX := tx\<rparr>) =
      Ok (r0\<lparr>pr_PortStatsRX := rx, pr_PortStatsTX := tx, pr_IngressTimeNS := n\<rparr>)"
    using check_time_status_outcome [OF c5(1) assms(6)] by blast
  then have "Run mgmtTLVDecoder io pid c = (c5, Ok (r0\<lparr>pr_PortStatsRX := rx, pr_PortStatsTX := tx, pr_IngressTimeNS := n\<rparr>))"
    using c1(1) c2(1) c3(1) c4(1) c5(1) r1(1) by (simp add: Run_def io r0)
  then show ?thesis using r1(2) by (simp add: c1 c2 c3 c4 c5) (simp add: r0 check_result_def)
qed

text \<open>A daemon that answers the requests with their own empty data sets, and not the last two.\<close>

definition example_mgmt_query :: "nat \<Rightarrow> Management" where
  "example_mgmt_query i = (if i = 0 then CurrentDataSetRequest 7 else if i = 1 then DefaultDataSetRequest 7 else ParentDataSetRequest 7)"

definition example_io :: "nat \<Rightarrow> string option \<times> bytes res" where
  "example_io i = (if i < 3 then (None, Ok (Management_MarshalBinaryTo (example_mgmt_query i) [])) else (None, Err ''timeout''))"

lemma example_replies:
  "i < 3 \<Longrightarrow> decodeMgmtPacket mgmtTLVDecoder (take 1024 (Management_MarshalBinaryTo (example_mgmt_query i) [])) = Ok (Mgmt_Management (example_mgmt_query i))"
proof -
  assume i: "i < 3"
  have "length (Management_MarshalBinaryTo (example_mgmt_query i) []) \<le> 1024"
    by (simp add: example_mgmt_query_def CurrentDataSetRequest_def DefaultDataSetRequest_def ParentDataSetRequest_def Management_MarshalBinaryTo_def
        mgmt_head.length_write current_tlv.length_write default_tlv.length_write parent_tlv.length_write)
  moreover have "decodeMgmtPacket mgmtTLVDecoder (Management_MarshalBinaryTo (example_mgmt_query i) [] @ []) = Ok (Mgmt_Management (example_mgmt_query i))"
    by (rule decode_marshalled)
      (simp_all add: example_mgmt_query_def CurrentDataSetRequest_def DefaultDataSetRequest_def ParentDataSetRequest_def)
  ultimately show ?thesis by simp
qed

theorem Run_result_witness:
  "\<exists>c' r. Run mgmtTLVDecoder example_io 7 \<lparr>mc_Sequence = 7, mc_Sent = []\<rparr> = (c', Ok r) \<and> mc_Sequence c' = 12 \<and> \<not> pr_GrandmasterPresent r"
proof -
  obtain cur where cur: "mg_TLV (example_mgmt_query 0) = Current_TLV cur" by (simp add: example_mgmt_query_def CurrentDataSetRequest_def Let_def)
  obtain def where def: "mg_TLV (example_mgmt_query 1) = Default_TLV def" "dd_ClockIdentity def = 0"
    by (simp add: example_mgmt_query_def DefaultDataSetRequest_def Let_def)
  obtain par where par: "mg_TLV (example_mgmt_query 2) = Parent_TLV par" "pd_GrandmasterIdentity par = 0"
    by (simp add: example_mgmt_query_def ParentDataSetRequest_def Let_def)
  have io: "example_io i = (None, Ok (Management_MarshalBinaryTo (example_mgmt_query i) [])) \<and>
      decodeMgmtPacket mgmtTLVDecoder (take 1024 (Management_MarshalBinaryTo (example_mgmt_query i) [])) = Ok (Mgmt_Management (example_mgmt_query i))"
    if "i < 3" for i
    using that example_replies by (simp add: example_io_def)
  have np: "snd (example_io 3) \<noteq> Inl Panic" "snd (example_io 4) \<noteq> Inl Panic" by (simp_all add: example_io_def)
  from Run_result [OF io cur def(1) par(1) np, of 7 "\<lparr>mc_Sequence = 7, mc_Sent = []\<rparr>", simplified] show ?thesis
  proof (elim exE conjE)
    fix c' r assume "Run mgmtTLVDecoder example_io 7 \<lparr>mc_Sequence = 7, mc_Sent = []\<rparr> = (c', Ok r)"
      "mc_Sequence c' = 12" "pr_GrandmasterPresent r = (dd_ClockIdentity def \<noteq> pd_GrandmasterIdentity par)"
    then show ?thesis by (intro exI [of _ c'] exI [of _ r]) (simp add: def(2) par(2))
  qed
qed

section \<open>What the commands print\<close>

text \<open>
  C29: The diagnosis finds nothing to complain about exactly if a grandmaster is present, the last Sync arrived within a second by the
  card's clock, the offset is not zero and at most 250 microseconds, and the path delay is not zero and at most 100 milliseconds.
  No diagnosis ends the run early.
\<close>
theorem diagnosis_healthy:
  "(ptp_runDiagnosers (ptp_diagnosers env iface) r = ([PTP_OK, PTP_OK, PTP_OK, PTP_OK], Some False) \<longleftrightarrow>
     pr_GrandmasterPresent r \<and> pr_IngressTimeNS r \<noteq> 0 \<and>
     (\<exists>t. phc_Time env iface MethodIoctlSysOffsetExtended = Ok t \<and>
        \<bar>f64_of_int (t_Sub t (time_Unix 0 (sint (pr_IngressTimeNS r))))\<bar> \<le> of_int second) \<and>
     0 < \<bar>pr_OffsetFromMasterNS r\<bar> \<and> \<bar>pr_OffsetFromMasterNS r\<bar> \<le> 250000 \<and>
     0 < \<bar>pr_MeanPathDelayNS r\<bar> \<and> \<bar>pr_MeanPathDelayNS r\<bar> \<le> 100000000) \<and>
   snd (ptp_runDiagnosers (ptp_diagnosers env iface) r) \<noteq> Some True"
proof -
  have th: "ptp_checkAgainstThreshold v w f z = PTP_OK \<longleftrightarrow> (z \<longrightarrow> v \<noteq> 0) \<and> \<bar>v\<bar> \<le> w" if "w \<le> f" for v w f z
    using that by (auto simp: ptp_checkAgainstThreshold_def Let_def)
  have nc: "ptp_checkAgainstThreshold v w f z \<noteq> PTP_CRITICAL" for v w f z by (simp add: ptp_checkAgainstThreshold_def Let_def)
  have sync: "checkSyncActive env iface r = Ok PTP_OK \<longleftrightarrow> pr_IngressTimeNS r \<noteq> 0 \<and>
      (\<exists>t. phc_Time env iface MethodIoctlSysOffsetExtended = Ok t \<and> \<bar>f64_of_int (t_Sub t (time_Unix 0 (sint (pr_IngressTimeNS r))))\<bar> \<le> of_int second)"
    by (auto simp: checkSyncActive_def th second_def Let_def split: sum.splits goerr.splits)
  have off: "ptp_checkOffset r = PTP_OK \<longleftrightarrow> 0 < \<bar>pr_OffsetFromMasterNS r\<bar> \<and> \<bar>pr_OffsetFromMasterNS r\<bar> \<le> 250000"
    "checkPathDelay r = PTP_OK \<longleftrightarrow> 0 < \<bar>pr_MeanPathDelayNS r\<bar> \<and> \<bar>pr_MeanPathDelayNS r\<bar> \<le> 100000000"
    by (simp_all add: ptp_checkOffset_def checkPathDelay_def th)
  have crit: "checkSyncActive env iface r \<noteq> Ok PTP_CRITICAL" "ptp_checkOffset r \<noteq> PTP_CRITICAL" "checkPathDelay r \<noteq> PTP_CRITICAL"
      "checkGMPresent r \<noteq> PTP_CRITICAL"
    using nc by (auto simp: checkSyncActive_def ptp_checkOffset_def checkPathDelay_def checkGMPresent_def Let_def split: sum.splits goerr.splits)
  have gm: "checkGMPresent r = PTP_OK \<longleftrightarrow> pr_GrandmasterPresent r" by (simp add: checkGMPresent_def)
  have run: "ptp_runDiagnosers (ptp_diagnosers env iface) r =
      (case checkSyncActive env iface r of Inl _ \<Rightarrow> ([checkGMPresent r], None)
       | Inr s \<Rightarrow> ([checkGMPresent r, s, ptp_checkOffset r, checkPathDelay r], Some False))"
    using crit by (auto simp: ptp_diagnosers_def split: ptp_status.splits sum.splits)
  show ?thesis unfolding run using sync off gm by (auto split: sum.splits)
qed

text \<open>
  The port statistics of a check survive the renaming: the twenty lower-case keys are all different, so each counter of the daemon
  is printed under its own key.
\<close>
theorem port_stats_complete:
  assumes "pr_PortStatsTX r = counters_of tx" and "pr_PortStatsRX r = counters_of rx" and "(k, name) \<in> set MessageTypeToString"
  shows "map_of (rev (port_stats_output r)) (ToLower (''ptp.portstats.tx.'' @ name)) = Some (tx ! unat k) \<and>
    map_of (rev (port_stats_output r)) (ToLower (''ptp.portstats.rx.'' @ name)) = Some (rx ! unat k) \<and>
    length (port_stats_output r) = 20 \<and> distinct (map fst (port_stats_output r))"
proof -
  obtain keys where keys: "keys = map (\<lambda>n. ToLower (''ptp.portstats.tx.'' @ n)) (map snd MessageTypeToString) @
      map (\<lambda>n. ToLower (''ptp.portstats.rx.'' @ n)) (map snd MessageTypeToString)" by simp
  have "distinct keys" unfolding keys by code_simp
  moreover have fsts: "map fst (port_stats_output r) = keys"
    by (simp add: keys port_stats_output_def assms(1,2) counters_of_def case_prod_unfold)
  ultimately have d: "distinct (map fst (port_stats_output r))" by simp
  have "(ToLower (''ptp.portstats.tx.'' @ name), tx ! unat k) \<in> set (port_stats_output r)"
    "(ToLower (''ptp.portstats.rx.'' @ name), rx ! unat k) \<in> set (port_stats_output r)"
    using assms(3) by (force simp: port_stats_output_def assms(1,2) counters_of_def)+
  moreover have "length (port_stats_output r) = 20" using arg_cong [OF fsts, of length] by (simp add: keys MessageTypeToString_def)
  moreover have "map_of (rev (port_stats_output r)) a = Some b" if "(a, b) \<in> set (port_stats_output r)" for a b
    using that d by (intro map_of_is_SomeI) (simp_all flip: rev_map)
  ultimately show ?thesis using d by blast
qed

theorem port_stats_complete_witness:
  "map_of (rev (port_stats_output \<lparr>pr_OffsetFromMasterNS = 0, pr_GrandmasterPresent = True, pr_StepsRemoved = 1, pr_MeanPathDelayNS = 0,
      pr_ClockIdentity = [], pr_GrandmasterIdentity = [], pr_IngressTimeNS = 0, pr_PortStatsTX = counters_of (replicate 16 3),
      pr_PortStatsRX = counters_of (replicate 16 4)\<rparr>)) (ToLower (''ptp.portstats.rx.'' @ ''ANNOUNCE'')) = Some 4"
proof -
  have "(MessageAnnounce, ''ANNOUNCE'') \<in> set MessageTypeToString" by (simp add: MessageTypeToString_def)
  from port_stats_complete [OF _ _ this, of "\<lparr>pr_OffsetFromMasterNS = 0, pr_GrandmasterPresent = True, pr_StepsRemoved = 1, pr_MeanPathDelayNS = 0,
      pr_ClockIdentity = [], pr_GrandmasterIdentity = [], pr_IngressTimeNS = 0, pr_PortStatsTX = counters_of (replicate 16 3),
      pr_PortStatsRX = counters_of (replicate 16 4)\<rparr>" "replicate 16 3" "replicate 16 4"]
  show ?thesis by (simp add: nth_replicate)
qed

lemma show_int_inj: "show_int a = show_int b \<longleftrightarrow> a = b"
  by (metis atoi_show_int option.inject)

text \<open>
  The two directions of the map of clocks agree: an interface is listed for a clock exactly if the clock is listed for the
  interface.
\<close>
theorem map_directions_agree:
  assumes "0 \<le> i" and "IfacesInfo env = Ok ifaces"
  shows "(\<exists>out. getIface env i = Ok out \<and> (''/dev/ptp'' @ show_int i @ '' -> '' @ name) \<in> set out) \<longleftrightarrow>
    (\<exists>out. getDevice env name = Ok out \<and> (name @ '' -> /dev/ptp'' @ show_int i) \<in> set out)"
proof -
  have rev: "printIfaceData d True = ''/dev/ptp'' @ show_int i @ '' -> '' @ name \<longleftrightarrow> if_Name d = name"
    if "sint (ti_PHCIndex (if_TSInfo d)) = i" for d
    using that assms(1) by (simp add: printIfaceData_def Let_def)
  have fwd: "printIfaceData d False = name @ '' -> /dev/ptp'' @ show_int i \<longleftrightarrow> sint (ti_PHCIndex (if_TSInfo d)) = i"
    if "if_Name d = name" for d
  proof (cases "sint (ti_PHCIndex (if_TSInfo d)) < 0")
    case True
    have "''No PHC support for '' @ name \<noteq> name @ '' -> /dev/ptp'' @ show_int i"
    proof
      assume "''No PHC support for '' @ name = name @ '' -> /dev/ptp'' @ show_int i"
      from arg_cong [OF this, of "\<lambda>s. length (filter (\<lambda>c. c = CHR ''>'') s)"] show False by simp
    qed
    then show ?thesis using True assms(1) that by (simp add: printIfaceData_def Let_def)
  next
    case False
    then show ?thesis using that by (simp add: printIfaceData_def Let_def show_int_inj)
  qed
  have iface: "(\<exists>out. getIface env i = Ok out \<and> l \<in> set out) \<longleftrightarrow>
      (\<exists>d\<in>set ifaces. sint (ti_PHCIndex (if_TSInfo d)) = i \<and> printIfaceData d True = l)" for l
    using assms by (auto simp: getIface_def Let_def filter_empty_conv image_iff)
  have device: "(\<exists>out. getDevice env name = Ok out \<and> l \<in> set out) \<longleftrightarrow>
      (\<exists>d\<in>set ifaces. if_Name d = name \<and> printIfaceData d False = l)" for l
    using assms by (auto simp: getDevice_def Let_def filter_empty_conv image_iff)
  show ?thesis unfolding iface device using rev fwd by blast
qed

definition ptpcheck_env :: phc_env where
  "ptpcheck_env = \<lparr>os_Open = (\<lambda>_. Ok 3), clock_gettime = (\<lambda>_. Ok 0), ioctl_SysOffset = (\<lambda>_ e. Ok e), inet_socket = Ok (),
     ioctl_Ethtool = (\<lambda>n. Ok \<lparr>ti_SOtimestamping = 0, ti_PHCIndex = (if n = ''lo'' then - 1 else 0), ti_TXTypes = 0, ti_RXFilters = 0\<rparr>),
     net_Interfaces = Ok [''lo'', ''eth0''], now_before = 0, now_after = 0\<rparr>"

theorem map_directions_agree_witness:
  "\<exists>out. getDevice ptpcheck_env ''eth0'' = Ok out \<and> (''eth0'' @ '' -> /dev/ptp'' @ show_int 0) \<in> set out"
proof -
  obtain ifaces where i: "IfacesInfo ptpcheck_env = Ok ifaces"
    by (simp add: IfacesInfo_def ptpcheck_env_def IfaceInfo_def)
  have "\<exists>out. getIface ptpcheck_env 0 = Ok out \<and> (''/dev/ptp'' @ show_int 0 @ '' -> '' @ ''eth0'') \<in> set out"
    by (simp add: getIface_def IfacesInfo_def ptpcheck_env_def IfaceInfo_def printIfaceData_def)
  with map_directions_agree [OF _ i, of 0 "''eth0''"] show ?thesis by simp
qed

text \<open>
  The number of a clock is read from the path of its device, also through a symbolic link, and from the bare name.
\<close>
theorem ptpDeviceNum_path:
  assumes "EvalSymlinks (''/dev/'' @ base) = Ok (dir @ ''/ptp'' @ show_nat n)" and "CHR ''/'' \<notin> set base" and "base \<noteq> []"
    and "base \<noteq> ''.''" and "base \<noteq> ''..''" and "in_i64 (int n)"
  shows "ptpDeviceNum EvalSymlinks (d @ ''/'' @ base) = Ok (int n) \<and> ptpDeviceNum EvalSymlinks base = Ok (int n)"
proof -
  have digits: "list_all is_digit (show_nat n)" "show_nat n \<noteq> []" using show_nat_digits [of n] by simp_all
  then have "CHR ''/'' \<notin> set (show_nat n)" by (auto simp: list_all_iff is_digit_def)
  then have real: "filepath_Base (dir @ ''/ptp'' @ show_nat n) = ''ptp'' @ show_nat n"
    using filepath_Base_join(1) [of "''ptp'' @ show_nat n" dir] by simp
  have "\<not> is_digit (CHR ''p'')" "\<not> is_digit (CHR ''t'')" by (simp_all add: is_digit_def)
  moreover have "dropWhile (\<lambda>c. \<not> is_digit c) (show_nat n) = show_nat n" using digits by (cases "show_nat n") simp_all
  ultimately have "dropWhile (\<lambda>c. \<not> is_digit c) (''ptp'' @ show_nat n) = show_nat n" by simp
  moreover have "show_nat n = show_int (int n)" by (simp add: show_int_def)
  ultimately have num: "Atoi_fails (dropWhile (\<lambda>c. \<not> is_digit c) (''ptp'' @ show_nat n)) = False"
    "Atoi (dropWhile (\<lambda>c. \<not> is_digit c) (''ptp'' @ show_nat n)) = int n"
    using Atoi_show_int [OF assms(6)] by simp_all
  have "dev_path base = ''/dev/'' @ base" using assms(2,4,5) by (auto simp: dev_path_def)
  then have "ptpDeviceNum EvalSymlinks p = Ok (int n)" if "filepath_Base p = base" for p
    unfolding ptpDeviceNum_def that assms(1) by (simp only: bind_res_simps real Let_def num if_False assms(1))
  then show ?thesis using filepath_Base_join [OF assms(2,3)] by simp
qed

theorem ptpDeviceNum_path_witness: "ptpDeviceNum (\<lambda>p. Ok (''/dev'' @ ''/ptp'' @ show_nat 3)) ''ptp_nic'' = Ok 3"
  using ptpDeviceNum_path [of "\<lambda>p. Ok (''/dev'' @ ''/ptp'' @ show_nat 3)" "''ptp_nic''" "''/dev''" 3 "[]"]
  by (simp add: in_i64_def i64_min_def i64_max_def)

end
