(* ===== verification/Spec2Isabelle.thy ===== *)
theory Spec2Isabelle
  imports NTP_Runner NTP_Sockets NTP_Tools NTP_Addresses PTP_Tools Ziffy_Print Calnex_Export PTP_Check
begin

text \<open>
  \<^bold>\<open>The program.\<close> The repository holds Go libraries, servers and tools for time synchronisation. On the PTP side, the server
  \<open>ptp4u\<close> (\<open>src/ptp/ptp4u\<close>) serves time over unicast PTPv2, the client \<open>src/ptp/simpleclient\<close> measures against such a server,
  and both use the packets of \<open>src/ptp/protocol\<close> and the socket timestamps of \<open>src/timestamp\<close>. On the NTP side, the responder
  \<open>src/ntp/responder\<close> answers queries with the packets of \<open>src/ntp/protocol\<close>, and \<open>ntpcheck\<close> asks chronyd (\<open>src/ntp/chrony\<close>)
  or ntpd (\<open>src/ntp/control\<close>) about its state, or queries a server itself. \<open>ptpcheck\<close> does the same for ptp4l, for the clock of a network
  card (\<open>src/phc\<close>) and for a time card (\<open>src/oscillatord\<close>); \<open>ziffy\<close> measures the switches on a path; \<open>pshark\<close> prints the PTP
  packets of a capture; \<open>src/calnex\<close> drives a measurement device over HTTP; \<open>src/leapsectz\<close> and \<open>src/leaphash\<close> handle tables
  of leap seconds.

  \<^bold>\<open>Language.\<close> \<open>Go_Prelude\<close>: machine integers as words, byte slices as lists, and \<open>'a res\<close>, the sum of an error (a Go error with
  the format of its text, or a panic) and a value; division that truncates. \<open>Go_Codec\<close>: \<open>encoding/binary\<close> as codecs that are
  composed field by field, with the locale \<open>fixed_codec\<close> of what a codec of fixed size gives, interpreted for every structure on
  the wire. \<open>Go_Time\<close>: instants and durations as integers of nanoseconds with the wrap-around and saturation of \<open>time\<close>, floats as
  rationals with the rounding as an argument. \<open>Go_Strings\<close> and \<open>Go_Paths\<close>: \<open>strings\<close>, \<open>path\<close> and the number formats.
  \<open>Go_Effects\<close>: code that acts on its surroundings as state transformers that keep the state also when they fail.

  \<^bold>\<open>PTP packets\<close> (\<open>src/ptp/protocol\<close>). \<open>PTP_Types\<close>: \<open>types.go\<close>. \<open>PTP_Packets\<close>: header and fixed-size messages of
  \<open>protocol.go\<close> with their hand-written marshallers, whose agreement with the layout is the content of the locales
  \<open>marshaler_to\<close>, \<open>packet_marshaler\<close>, \<open>decoder\<close> and \<open>unmarshaler\<close>. \<open>PTP_Unicast\<close>: Signaling and its TLVs (\<open>unicast.go\<close>).
  \<open>PTP_Decode\<close>: \<open>DecodePacket\<close>. \<open>PTP_Management\<close>: management messages and the client (\<open>management*.go\<close>, \<open>ptp4l.go\<close>). Shown:
  round trips for every message, the exact inputs on which decoding fails or panics, and that every marshalled packet is well
  formed.

  \<^bold>\<open>ptp4u.\<close> \<open>Timestamping\<close>: timestamps out of control messages and the queue of transmit timestamps (\<open>timestamp.go\<close>).
  \<open>Socket_Setup\<close>: what is set on every socket of worker, server and client, with the kernel as a function of the history of
  system calls, and the checks of \<open>cmd/ptp4u/main.go\<close>. \<open>PTP4u_Stats\<close>: the counters (\<open>stats.go\<close>, \<open>json.go\<close>), a map behind the
  locale \<open>counter_map\<close>. \<open>PTP4u_Subscription\<close>: configuration and subscription. \<open>PTP4u_Server\<close>: the state is the record \<open>Server\<close>
  with its subscriptions in a store, its workers with their queues, and its goroutines; every handler and every iteration of a
  worker or subscription is a function, and their interleaving is an inductive step relation. Shown for every reachable state:
  every datagram sent decodes, nothing but a malformed Signaling packet panics, subscriptions are filed where they are looked
  up, and requests, Sync messages and delay requests are answered as the protocol demands.

  \<^bold>\<open>Client.\<close> \<open>Simple_Client\<close>: measurements, requests, handlers and the main loop with its receivers. \<open>PTP_Session\<close>: client and
  server exchanging datagrams. Shown here: the handshake completes, and a measurement is right up to half the asymmetry of the
  path. \<open>PTP_Tools\<close>: \<open>pshark\<close> and the report of \<open>ptpcheck trace\<close>.

  \<^bold>\<open>NTP.\<close> \<open>NTP_Protocol\<close>: packets, times, offsets and reading with kernel timestamps; \<open>src/ntp/shm\<close>. \<open>NTP_Responder\<close>: listeners,
  workers, channel, checker and announcement as a step relation, refined to a bag of tasks that are answered in any order; every
  request is answered, rejected or waiting, and waiting work can be finished. \<open>NTP_Addresses\<close>: service addresses on Darwin and
  FreeBSD, with the locale \<open>platform\<close> interpreted for these and for Linux. \<open>NTP_Sockets\<close>: kernel timestamps on the three
  platforms, and finding the shared memory segment. \<open>NTP_Utils\<close> and \<open>NTP_Tools\<close>: the utilities of
  \<open>ntpcheck\<close>, composed with the responder in this theory. \<open>Chrony\<close> and \<open>NTP_Control\<close>: both protocols with the grammar of
  replies and the reassembly of fragments. \<open>NTP_Check\<close>: what is gathered, the statistics and the diagnosis. \<open>NTP_Runner\<close>: which
  daemon is asked, and that connections and socket files are released (locale \<open>dialer\<close>).

  \<^bold>\<open>Other tools.\<close> \<open>PHC\<close> and \<open>PTP_Check\<close>: hardware clocks, \<open>ptpcheck\<close> and \<open>oscillatord\<close>. \<open>Ziffy_Trace\<close> and \<open>Ziffy_Print\<close>: sender
  and receiver with the goroutines that share a buffer, the cleaning of the paths and the report. \<open>Calnex_API\<close>,
  \<open>Calnex_Config\<close> and \<open>Calnex_Export\<close>: requests as functions on the state of the device (locales \<open>single_request\<close>,
  \<open>status_request\<close>, \<open>recorded_request\<close>), configuration that reaches its goal and then does nothing, export, firmware and the
  commands. \<open>Leapsectz\<close> and \<open>Leaphash\<close>: reading and writing the table, the checksum of the list.

  \<^bold>\<open>Arguments.\<close> What is outside the repository is an argument: the outcomes of system calls, DNS, HTTP, JSON, CSV, INI, netlink,
  \<open>ifconfig\<close>, packet capture and decoding of outer layers, MD5 and SHA-1, regular text of floats and dates, the iteration order
  of maps, the rounding of floats. Where a theorem relies on their behaviour, a hypothesis says so (\<open>netlink_spec\<close>,
  \<open>ifconfig_ok\<close>, \<open>env_ok\<close>) and its witness gives an instance.

  \<^bold>\<open>Loops.\<close> Functions are total by structural recursion or a measure, with two exceptions. The walk over control messages advances by
  the length a message claims and is a \<open>partial_function\<close> whose value \<open>None\<close> is not returning: it returns exactly when no
  message it meets claims length zero, and the readers built on it inherit the option. Loops that wait for packets take
  the list of what arrives, and \<open>None\<close> is still waiting when the list ends. The queue of transmit timestamps is read at most
  \<open>maxTXTS\<close> times as in the code. Loops that never end (servers, \<open>track\<close>) are step relations or the list of what they did so far;
  no fuel is used.

  \<^bold>\<open>Not modelled.\<close> The declaration of flags, help texts and subcommands, which belong to the \<open>flag\<close> and \<open>cobra\<close> libraries; the HTTP
  servers for monitoring and profiling, which print the modelled counters; logging and colours; \<open>String\<close> methods that
  print floats or dates; the interfaces and package comments, which hold no behaviour. Real time is not modelled: timers and
  deadlines may fire at any moment.
\<close>

section \<open>Sessions of client and server\<close>

text \<open>
  C1: A client that starts against a running server, asking for a duration within the server's limits,
  completes the unicast handshake in three rounds: each of its requests is answered with a grant, on
  which it sends the next one, and in the end it is in progress and subscribed to Announce, Sync and
  Delay_Resp messages.
\<close>
theorem unicast_handshake:
  assumes "Server_init cfg mac = Ok s0" and "0 < cf_SendWorkers cfg" and "env_ok e" and "reachable e s0 s"
    and "acceptable (sv_Config s) (cl_Duration c)" and "cl_state c = stateInit" and "cl_inChan c = []"
  shows "\<exists>s1 c1 s2 c2 s3 c3. session_round e now sa (s, runInternal_iteration (\<lambda>_. True) tx c) = Ok (s1, c1) \<and>
    session_round e now sa (s1, c1) = Ok (s2, c2) \<and> session_round e now sa (s2, c2) = Ok (s3, c3) \<and>
    cl_state c3 = stateInProgress \<and> subscribed e (client_port c) MessageAnnounce s3 \<and>
    subscribed e (client_port c) MessageSync s3 \<and> subscribed e (client_port c) MessageDelayResp s3"
  using handshake_completes [OF server_inv_running [OF assms(1-4)] assms(3,5-7)] .

theorem unicast_handshake_witness:
  "\<exists>s1 c1. session_round example_env (\<lambda>_. 0) example_sa
     (example_server, runInternal_iteration (\<lambda>_. True) TX_Failed (Client_New (60 * second) 7)) = Ok (s1, c1)"
proof -
  have "acceptable (sv_Config example_server) (cl_Duration (Client_New (60 * second) 7))"
    by (simp add: acceptable_def example_server_def example_Config_def Client_New_def dur_Seconds_int_def
        second_def)
  moreover have "cl_state (Client_New (60 * second) 7) = stateInit" "cl_inChan (Client_New (60 * second) 7) = []"
    by (simp_all add: Client_New_def)
  ultimately show ?thesis
    using unicast_handshake [OF example_started reachable.start] by blast
qed

text \<open>
  C2: The first measurement, end to end. A worker serves the Sync subscription of a client without
  samples, the client answers the Follow_Up with a Delay_Req, the server, in any later reachable state
  in which the client is subscribed to Delay_Resp, answers that, and the client reports exactly one
  result. If the Sync takes \<open>d1\<close> and the Delay_Req \<open>d2\<close> on the wire and the client's clock is \<open>off\<close> ahead of the
  time the server sends, the reported offset is within half the asymmetry, and exact on a symmetric path.
\<close>
theorem first_measurement:
  fixes t1 t4
  assumes "Server_init cfg mac = Ok s0" and "0 < cf_SendWorkers cfg" and "env_ok e"
    and "reachable e s0 s" and "reachable e s0 u"
    and "a < length (sv_subs s)" and "sc_subscriptionType (sv_subs s ! a) = MessageSync"
    and "no_samples c" and "findWorker e (client_port c) u = Ok w"
    and "FindSubscription (client_port c) MessageDelayResp (sv_sw u ! w) = Some a'"
    and "T1 = server_time (sv_Config s) t1" and "T4 = server_time (sv_Config u) t4"
    and "ptp_time T1" and "ptp_time T4" and "t2 \<noteq> zero_time" and "t3 \<noteq> zero_time"
    and "t2 = T1 + d1 + off" and "T4 = t3 + d2 - off"
    and "\<bar>d1\<bar> < 2 ^ 60" and "\<bar>d2\<bar> < 2 ^ 60" and "\<bar>off\<bar> < 2 ^ 60"
  shows "\<exists>s' b b' c1 c2 req u1 u2 resp c3 r.
    worker_one e v a \<lparr>io_send1 = True, io_tx = Ok t1, io_attempts = n, io_send2 = True\<rparr> s = Ok s' \<and>
    sv_sent s' = sv_sent s @ [(b, sc_eclisa (sv_subs s ! a)), (b', sc_gclisa (sv_subs s ! a))] \<and>
    handleMsg ok tx \<lparr>ip_data = b, ip_ts = t2\<rparr> c = (c1, Ok ()) \<and>
    handleMsg ok (TX_Sent t3) \<lparr>ip_data = b', ip_ts = zero_time\<rparr> c1 = (c2, Ok ()) \<and>
    cl_sent c2 = cl_sent c @ [(PortEvent, req)] \<and>
    handleEventMessage e (Ok (req, sa, t4)) u = Ok u1 \<and> sv_goroutines u1 = sv_goroutines u @ [Pending a'] \<and>
    worker_one e w a' \<lparr>io_send1 = True, io_tx = tx', io_attempts = n', io_send2 = x\<rparr> u1 = Ok u2 \<and>
    sv_sent u2 = sv_sent u @ [(resp, sc_gclisa (sv_subs u ! a'))] \<and>
    handleMsg ok tx \<lparr>ip_data = resp, ip_ts = zero_time\<rparr> c2 = (c3, Ok ()) \<and>
    cl_results c3 = cl_results c @ [r] \<and> 2 * \<bar>mr_Offset r - off\<bar> \<le> \<bar>d1 - d2\<bar> + 1 \<and>
    (d1 = d2 \<longrightarrow> mr_Delay r = d1 \<and> mr_Offset r = off)"
proof -
  obtain s' b b' y f where 1: "worker_one e v a
        \<lparr>io_send1 = True, io_tx = Ok t1, io_attempts = n, io_send2 = True\<rparr> s = Ok s'"
      "sv_sent s' = sv_sent s @ [(b, sc_eclisa (sv_subs s ! a)), (b', sc_gclisa (sv_subs s ! a))]"
      "DecodePacket mgmtTLVDecoder b = Ok (P_SyncDelayReq y)" "Header_MessageType (sd_Header y) = MessageSync"
      "DecodePacket mgmtTLVDecoder b' = Ok (P_FollowUp f)"
      "h_SequenceID (sd_Header y) = h_SequenceID (fu_Header f)"
      "fb_PreciseOriginTimestamp (fu_FollowUpBody f) = NewTimestamp T1"
    using worker_sync_sends [OF assms(1-4,6,7) refl, of v t1 n] assms(11) by (auto simp: server_time_def)
  obtain c1 c2 req r where 2: "handleSync y t2 c = (c1, Ok ())" "handleFollowUp (TX_Sent t3) f c1 = (c2, Ok ())"
      "cl_sent c2 = cl_sent c @ [(PortEvent, req)]" "cl_results c2 = cl_results c"
      "SyncDelayReq_UnmarshalBinary (take 128 req) = Ok r" "Header_MessageType (sd_Header r) = MessageDelayReq"
      "h_SourcePortIdentity (sd_Header r) = client_port c"
      "ms_serverToClient (cl_m c2) = [(h_SequenceID (fu_Header f),
        \<lparr>md_seq = h_SequenceID (fu_Header f), md_sendTS = T1, md_receiveTS = t2\<rparr>)]"
      "ms_clientToServer (cl_m c2) = [(h_SequenceID (sd_Header r),
        \<lparr>md_seq = h_SequenceID (sd_Header r), md_sendTS = t3, md_receiveTS = zero_time\<rparr>)]"
    by (rule client_after_followup [OF assms(8) 1(6) refl 1(7) assms(13), of t2 t3])
  have "findWorker e (h_SourcePortIdentity (sd_Header r)) u = Ok w"
      "FindSubscription (h_SourcePortIdentity (sd_Header r)) MessageDelayResp (sv_sw u ! w) = Some a'"
    using assms(9,10) 2(7) by simp_all
  from delay_request_answered [OF assms(1-3,5) 2(5,6) this, of sa t4 tx' n' x]
  obtain u1 u2 resp d where 3: "handleEventMessage e (Ok (req, sa, t4)) u = Ok u1"
      "sv_goroutines u1 = sv_goroutines u @ [Pending a']"
      "worker_one e w a' \<lparr>io_send1 = True, io_tx = tx', io_attempts = n', io_send2 = x\<rparr> u1 = Ok u2"
      "sv_sent u2 = sv_sent u @ [(resp, sc_gclisa (sv_subs u ! a'))]"
      "DecodePacket mgmtTLVDecoder resp = Ok (P_DelayResp d)"
      "h_SequenceID (dr_Header d) = h_SequenceID (sd_Header r)"
      "db_ReceiveTimestamp (dr_DelayRespBody d) = NewTimestamp T4"
    unfolding assms(12) server_time_def by blast
  obtain c3 res where 4: "handleDelay d c2 = (c3, Ok ())" "cl_results c3 = cl_results c2 @ [res]"
      "2 * \<bar>mr_Offset res - off\<bar> \<le> \<bar>d1 - d2\<bar> + 1" "d1 = d2 \<longrightarrow> mr_Delay res = d1 \<and> mr_Offset res = off"
    using client_measures [OF 2(8,9) 3(6,7) assms(13-21)] by blast
  have "handleMsg ok tx \<lparr>ip_data = b, ip_ts = t2\<rparr> c = (c1, Ok ())"
      "handleMsg ok (TX_Sent t3) \<lparr>ip_data = b', ip_ts = zero_time\<rparr> c1 = (c2, Ok ())"
      "handleMsg ok tx \<lparr>ip_data = resp, ip_ts = zero_time\<rparr> c2 = (c3, Ok ())"
    using 2(1,2) 4(1) by (simp_all add: sync_read_by_client [OF 1(3,4)] followup_read_by_client [OF 1(5)]
        delayresp_read_by_client [OF 3(5)])
  then show ?thesis using 1(1,2) 2(3,4) 3(1-4) 4(2-4)
    by - (intro exI conjI, assumption+, simp_all)
qed

text \<open>The example client measures an offset of 7 ns over a path of 100 ns.\<close>

theorem first_measurement_witness:
  "\<exists>u req u1 c2 resp c3 r. reachable example_env example_server u \<and>
     handleEventMessage example_env (Ok (req, example_sa, 0)) u = Ok u1 \<and>
     handleMsg (\<lambda>_. True) TX_Failed \<lparr>ip_data = resp, ip_ts = zero_time\<rparr> c2 = (c3, Ok ()) \<and>
     cl_results c3 = [r] \<and> mr_Delay r = 100 \<and> mr_Offset r = 7"
proof -
  let ?c = "Client_New (60 * second) 0xb8599ffffe55af4e"
  have id: "h_SourcePortIdentity example_Header = client_port ?c"
    by (simp add: example_Header_def Client_New_def)
  obtain s a where s: "reachable example_env example_server s" "sv_Config s = sv_Config example_server"
      "FindSubscription (h_SourcePortIdentity example_Header) MessageSync (sv_sw s ! 0) = Some a"
    using example_served [of 0] by (auto simp: grantable_def Unicast_MsgType_def)
  obtain u a' where u: "reachable example_env example_server u" "sv_Config u = sv_Config example_server"
      "findWorker example_env (client_port ?c) u = Ok 0"
      "FindSubscription (client_port ?c) MessageDelayResp (sv_sw u ! 0) = Some a'"
    using example_served [of "0x90"] unfolding id by (auto simp: grantable_def Unicast_MsgType_def)
  have a: "a < length (sv_subs s)" "sc_subscriptionType (sv_subs s ! a) = MessageSync"
    using example_sub_type [OF s(1,3)] by simp_all
  have t: "server_time (sv_Config example_server) 0 = 37 * second"
    by (simp add: server_time_def example_server_def example_Config_def HWTIMESTAMP_def SWTIMESTAMP_def
        t_Add_def time_Unix_def t_Unix_def t_Nanosecond_def second_def in_i64_def i64_min_def i64_max_def)
  have "ptp_time (37 * second)" "no_samples ?c" "37 * second + 100 + 7 \<noteq> zero_time" "37 * second - 93 \<noteq> zero_time"
      "37 * second = 37 * second - 93 + 100 - 7"
    by (simp_all add: ptp_time_def t_Unix_def no_samples_def Client_New_def newMeasurements_def zero_time_def second_def)
  from first_measurement [OF example_started s(1) u(1) a this(2) u(3,4) t [folded s(2), symmetric]
      t [folded u(2), symmetric] this(1,1,3,4) refl this(5), of 0 0 "\<lambda>_. True" TX_Failed example_sa "Ok 0" 0 True]
  obtain c2 req u1 resp c3 r where "handleEventMessage example_env (Ok (req, example_sa, 0)) u = Ok u1"
      "handleMsg (\<lambda>_. True) TX_Failed \<lparr>ip_data = resp, ip_ts = zero_time\<rparr> c2 = (c3, Ok ())"
      "cl_results c3 = cl_results ?c @ [r]" "mr_Delay r = 100" "mr_Offset r = 7"
    by auto
  moreover have "cl_results ?c = []" by (simp add: Client_New_def)
  ultimately show ?thesis using u(1) by (metis append_Nil)
qed

section \<open>A query and its answer\<close>

text \<open>
  C3: A query against the responder. The server's clock is \<open>off\<close> ahead of the client's, the request takes
  \<open>d1\<close> and the response \<open>d2\<close> to arrive, the kernel stamps the arrival at \<open>t4\<close> and the client reads its
  clock \<open>e\<close> later. The client then reports a delay of half the round trip, to a nanosecond, and an offset that is off
  by at most half the asymmetry of the two paths and two nanoseconds from the true one less \<open>e\<close>: the time between
  the arrival and the reading of the clock goes into the offset.
\<close>
theorem ntpdate_responder:
  assumes "serve tx True 0 \<lparr>tk_addr = a, tk_received = rx, tk_request = ntpdate_request t1\<rparr> buffer stats =
      ([(d, a)], buffer', stats')"
    and "rx = t1 + off + d1" and "t4 = tx - off + d2" and "0 \<le> d1" and "0 \<le> d2"
    and "{t1, rx, tx, t4, t4 + e} \<subseteq> ntp_era"
  shows "\<exists>delay offset x. ntpdate_exchange \<lparr>ex_transmit = t1, ex_written = Ok (),
      ex_received = Some (Ok (d, kernel_control t4, ())), ex_now = t4 + e\<rparr> = Ok (delay, offset, x) \<and>
    2 * \<bar>offset - (off - e)\<bar> \<le> \<bar>d1 - d2\<bar> + 4 \<and> \<bar>2 * delay - (d1 + d2)\<bar> \<le> 2"
proof -
  have era: "0 \<le> u" "u < 2085978496 * second" if "u \<in> {t1, rx, tx, t4, t4 + e}" for u
    using that assms(6) by (auto simp: ntp_era_def)
  have add: "t_Add tx 0 = tx" "t_Add rx 0 = rx" using in_era(2) [OF era] by (simp_all add: t_Add_exact)
  obtain x where d: "d = binary_Write NTPPacket_codec x" and
    x: "(np_RxTimeSec x, np_RxTimeFrac x) = NTP_Time rx" "(np_TxTimeSec x, np_TxTimeFrac x) = NTP_Time tx"
    using serve_out [OF assms(1), of d a] generateResponse_fields [of tx rx "ntpdate_request t1" buffer, OF refl]
    by (auto simp: add)
  let ?ea = "NTP_Unix (np_RxTimeSec x) (np_RxTimeFrac x) - rx" and ?eb = "NTP_Unix (np_TxTimeSec x) (np_TxTimeFrac x) - tx"
  have "?ea \<in> {-1, 0}" "?eb \<in> {-1, 0}"
    using in_era(1) [OF era, of rx] in_era(1) [OF era, of tx] unfolding x [symmetric] by auto
  then obtain ea eb where e: "ea \<in> {-1, 0}" "eb \<in> {-1, 0}"
    "NTP_Unix (np_RxTimeSec x) (np_RxTimeFrac x) = rx + ea" "NTP_Unix (np_TxTimeSec x) (np_TxTimeFrac x) = tx + eb"
    using that [of ?ea ?eb] by simp
  have i: "in_i64 (t4 div second)" "in_i64 (rx + ea - t1)" "in_i64 (t4 - (tx + eb))"
    "\<bar>rx + ea - t1 + (t4 - (tx + eb))\<bar> < 2 ^ 62" "\<bar>tx + eb\<bar> < 2 ^ 62" "\<bar>t4 + e\<bar> < 2 ^ 61"
    using era [of t1] era [of rx] era [of tx] era [of t4] era [of "t4 + e"] in_era(2) [OF era, of t4] e(1,2)
    by (auto simp: in_i64_def i64_min_def i64_max_def abs_less_iff second_def)
  have eq: "rx + ea - t1 + (t4 - (tx + eb)) = d1 + d2 + ea - eb" "tx + eb + h - (t4 + e) = off - e - d2 + eb + h" for h
    using assms(2,3) by simp_all
  let ?ex = "\<lparr>ex_transmit = t1, ex_written = Ok (), ex_received = Some (Ok (d, kernel_control t4, ())), ex_now = t4 + e\<rparr>"
  have "ntpdate_exchange ?ex =
    Ok (\<bar>d1 + d2 + ea - eb\<bar> div 2, off - e - d2 + eb + \<bar>d1 + d2 + ea - eb\<bar> div 2, x)"
    using ntpdate_result [of ?ex x t4 "rx + ea" "tx + eb"] e(3,4) i unfolding exchange.simps eq by (simp add: d)
  then show ?thesis using offset_bound [OF e(1,2) assms(4,5)] by blast
qed

theorem ntpdate_responder_witness:
  "\<exists>d buffer' stats' delay offset x.
     serve (1600000005 * second + 5000) True 0 \<lparr>tk_addr = CHR ''a'', tk_received = 1600000005 * second + 3000,
       tk_request = ntpdate_request (1600000000 * second)\<rparr> zero_NTPPacket zero_stats = ([(d, CHR ''a'')], buffer', stats') \<and>
     ntpdate_exchange \<lparr>ex_transmit = 1600000000 * second, ex_written = Ok (),
       ex_received = Some (Ok (d, kernel_control (1600000000 * second + 6000), ())),
       ex_now = 1600000000 * second + 6000 + 10\<rparr> = Ok (delay, offset, x) \<and>
     2 * \<bar>offset - (5 * second - 10)\<bar> \<le> 2004"
proof -
  let ?task = "\<lparr>tk_addr = CHR ''a'', tk_received = 1600000005 * second + 3000, tk_request = ntpdate_request (1600000000 * second)\<rparr>"
  obtain d buffer' stats' where s: "serve (1600000005 * second + 5000) True 0 ?task zero_NTPPacket zero_stats =
      ([(d, CHR ''a'')], buffer', stats')"
    using ntpdate_request_valid by (simp add: serve_def NTPPacket_Bytes_def Let_def)
  have "{1600000000 * second, 1600000005 * second + 3000, 1600000005 * second + 5000, 1600000000 * second + 6000,
      1600000000 * second + 6000 + 10} \<subseteq> ntp_era"
    by (simp add: ntp_era_def second_def)
  then obtain delay offset x where "ntpdate_exchange \<lparr>ex_transmit = 1600000000 * second, ex_written = Ok (),
       ex_received = Some (Ok (d, kernel_control (1600000000 * second + 6000), ())),
       ex_now = 1600000000 * second + 6000 + 10\<rparr> = Ok (delay, offset, x)" "2 * \<bar>offset - (5 * second - 10)\<bar> \<le> \<bar>3000 - 1000\<bar> + 4"
    using ntpdate_responder [OF s, of "5 * second" 3000 "1600000000 * second + 6000" 1000 10]
    by (auto simp: second_def)
  then show ?thesis using s by auto
qed

section \<open>A sweep and its report\<close>

text \<open>
  The sender and the printer of ziffy fit together: the paths a sweep returns are printed without a panic, whatever replies came
  in, if the resolver gives an address at least one name and a name with a dot at least three characters. The route of every
  reply the printer looks up is one of the paths.
\<close>
theorem ziffy_sweep_prints:
  assumes "Sender_Start c parseIP srt icmp lldp dest resolve envs late = Ok (paths, s)" and "slice_sorter sw_hop srt"
    and "names_ok lookup"
  shows "PrettyPrint lookup iter srt' fmt paths thr \<noteq> Inl Panic"
proof (rule PrettyPrint_no_panic [OF assms(3)])
  fix route sw assume "route \<in> set paths" and sw: "sw \<in> set (pa_switches route)"
  then obtain k where k: "k < length paths" "route = paths ! k" by (metis in_set_conv_nth)
  then have "sw_routeIdx sw = k" using sender_paths [OF assms(1,2)] sw by auto
  with k show "sw_routeIdx sw < length paths" by simp
qed

theorem ziffy_sweep_prints_witness:
  "\<exists>paths s. Sender_Start example_config (\<lambda>_. None) (insertionSort sw_hop) (Ok ()) (Ok ''rsw001'') (Ok (replicate 16 1)) Ok example_flow [] = Ok (paths, s) \<and>
     PrettyPrint (\<lambda>_. Ok [''eth1.sw'']) (\<lambda>x. x) (insertionSort sp_hop) (\<lambda>_. []) paths 0 \<noteq> Inl Panic"
proof -
  obtain paths s where r: "Sender_Start example_config (\<lambda>_. None) (insertionSort sw_hop) (Ok ()) (Ok ''rsw001'') (Ok (replicate 16 1)) Ok example_flow [] = Ok (paths, s)"
    using example_sweep by blast
  have "names_ok (\<lambda>_. Ok [''eth1.sw''])" by (simp add: names_ok_def getLookUpName_def)
  from ziffy_sweep_prints [OF r insertion.slice_sorter_axioms this] show ?thesis using r by blast
qed

end
